(* ===== verification/Prelude.thy ===== *)
theory Prelude
  imports
    Main
    "HOL-Library.Word"
    "HOL-Library.AList"
    "HOL-Library.Multiset"
    "HOL-Library.Char_ord"
    "HOL-Library.List_Lexorder"
    "HOL-Library.Product_Lexorder"
begin

text \<open>
  Shared vocabulary of the development: the machine integers of the source, the model of
  \<^verbatim>\<open>std::collections::HashMap\<close> / \<^verbatim>\<open>dashmap::DashMap\<close> that every component stores its
  state in, saturating arithmetic, and the two interfaces the components are proved against
  (a keyed store, and a state machine with an invariant).

  A hash map is an association list with distinct keys. The source never relies on the
  iteration order of a hash map, so the list order stands for any order: every theorem is
  about an arbitrary list.
\<close>

section \<open>Automation\<close>

named_theorems hm_simps \<open>equations of the hash map operations\<close>
named_theorems wf_intros \<open>operations keep the well-formedness of their component\<close>

section \<open>Machine integers\<close>

type_synonym u8 = "8 word"
type_synonym u32 = "32 word"
type_synonym u64 = "64 word"

text \<open>\<^verbatim>\<open>saturating_add\<close> and \<^verbatim>\<open>saturating_sub\<close> of the Rust standard library.\<close>

definition sat_add :: "'a::len word \<Rightarrow> 'a word \<Rightarrow> 'a word" where
  "sat_add a b = (if unat a + unat b < 2 ^ LENGTH('a) then a + b else - 1)"

definition sat_sub :: "'a::len word \<Rightarrow> 'a word \<Rightarrow> 'a word" where
  "sat_sub a b = (if b \<le> a then a - b else 0)"

lemma unat_sat_add:
  "unat (sat_add a b) = min (unat a + unat b) (2 ^ LENGTH('a) - 1)" for a b :: "'a::len word"
proof (cases "unat a + unat b < 2 ^ LENGTH('a)")
  case True
  then show ?thesis by (simp add: sat_add_def unat_word_ariths)
next
  case False
  then show ?thesis by (simp add: sat_add_def unsigned_minus_1_eq_mask mask_eq_exp_minus_1)
qed

lemma sat_add_code [code]:
  "sat_add a b = (if uint a + uint b < 2 ^ LENGTH('a) then a + b else - 1)" for a b :: "'a::len word"
proof -
  have "uint a + uint b = int (unat a + unat b)" by (simp flip: uint_nat)
  moreover have "int (unat a + unat b) < 2 ^ LENGTH('a) \<longleftrightarrow> unat a + unat b < 2 ^ LENGTH('a)"
    by (metis of_nat_less_iff of_nat_numeral of_nat_power)
  ultimately have "uint a + uint b < 2 ^ LENGTH('a) \<longleftrightarrow> unat a + unat b < 2 ^ LENGTH('a)" by simp
  then show ?thesis by (simp add: sat_add_def)
qed

lemma sat_add_commute: "sat_add a b = sat_add b a"
  by (simp add: sat_add_def add.commute)

lemma sat_add_assoc: "sat_add (sat_add a b) c = sat_add a (sat_add b c)"
  by (simp add: word_unat_eq_iff unat_sat_add)

lemma sat_add_0 [simp]: "sat_add 0 a = a" "sat_add a 0 = a"
  by (simp_all add: sat_add_def)

section \<open>Hash maps\<close>

type_synonym ('k, 'v) hashmap = "('k \<times> 'v) list"

text \<open>\<^verbatim>\<open>get\<close>, \<^verbatim>\<open>contains_key\<close>, \<^verbatim>\<open>insert\<close>, \<^verbatim>\<open>remove\<close>, \<^verbatim>\<open>keys\<close>, \<^verbatim>\<open>values\<close>.\<close>

definition hm_get :: "('k, 'v) hashmap \<Rightarrow> 'k \<Rightarrow> 'v option" where
  "hm_get m k = map_of m k"

definition hm_contains :: "('k, 'v) hashmap \<Rightarrow> 'k \<Rightarrow> bool" where
  "hm_contains m k \<longleftrightarrow> hm_get m k \<noteq> None"

definition hm_insert :: "('k, 'v) hashmap \<Rightarrow> 'k \<Rightarrow> 'v \<Rightarrow> ('k, 'v) hashmap" where
  "hm_insert m k v = AList.update k v m"

definition hm_remove :: "('k, 'v) hashmap \<Rightarrow> 'k \<Rightarrow> ('k, 'v) hashmap" where
  "hm_remove m k = AList.delete k m"

definition hm_keys :: "('k, 'v) hashmap \<Rightarrow> 'k list" where
  "hm_keys m = map fst m"

definition hm_values :: "('k, 'v) hashmap \<Rightarrow> 'v list" where
  "hm_values m = map snd m"

definition hm_wf :: "('k, 'v) hashmap \<Rightarrow> bool" where
  "hm_wf m \<longleftrightarrow> distinct (hm_keys m)"

text \<open>\<^verbatim>\<open>if let Some(entry) = m.get_mut(k) { *entry = f(*entry) }\<close>.\<close>

definition hm_modify :: "('k, 'v) hashmap \<Rightarrow> 'k \<Rightarrow> ('v \<Rightarrow> 'v) \<Rightarrow> ('k, 'v) hashmap" where
  "hm_modify m k f = (case hm_get m k of None \<Rightarrow> m | Some v \<Rightarrow> hm_insert m k (f v))"

lemma hm_get_insert [hm_simps]:
  "hm_get (hm_insert m k v) k' = (if k' = k then Some v else hm_get m k')"
  by (simp add: hm_get_def hm_insert_def update_conv')

lemma hm_get_remove [hm_simps]:
  "hm_get (hm_remove m k) k' = (if k' = k then None else hm_get m k')"
  by (simp add: hm_get_def hm_remove_def delete_conv')

lemma hm_get_modify [hm_simps]:
  "hm_get (hm_modify m k f) k' = (if k' = k then map_option f (hm_get m k) else hm_get m k')"
  by (simp add: hm_modify_def hm_get_insert split: option.split)

lemma hm_get_Nil [hm_simps]: "hm_get [] k = None"
  by (simp add: hm_get_def)

lemma set_hm_keys: "k \<in> set (hm_keys m) \<longleftrightarrow> hm_get m k \<noteq> None"
  by (simp add: hm_keys_def hm_get_def map_of_eq_None_iff)

lemma hm_contains_keys: "hm_contains m k \<longleftrightarrow> k \<in> set (hm_keys m)"
  by (simp add: hm_contains_def set_hm_keys)

lemma hm_get_SomeD: "hm_get m k = Some v \<Longrightarrow> k \<in> set (hm_keys m)"
  by (simp add: set_hm_keys)

lemma set_hm_keys_insert [hm_simps]: "set (hm_keys (hm_insert m k v)) = insert k (set (hm_keys m))"
  by (auto simp: set_hm_keys hm_get_insert split: if_splits)

lemma set_hm_keys_remove [hm_simps]: "set (hm_keys (hm_remove m k)) = set (hm_keys m) - {k}"
  by (auto simp: set_hm_keys hm_get_remove split: if_splits)

lemma set_hm_keys_modify [hm_simps]: "set (hm_keys (hm_modify m k f)) = set (hm_keys m)"
  by (auto simp: set_hm_keys hm_get_modify split: if_splits)

lemma hm_keys_Nil [hm_simps]: "hm_keys [] = []"
  by (simp add: hm_keys_def)

lemma hm_wf_Nil [wf_intros]: "hm_wf []"
  by (simp add: hm_wf_def hm_keys_def)

lemma hm_wf_insert [wf_intros]: "hm_wf m \<Longrightarrow> hm_wf (hm_insert m k v)"
  by (simp add: hm_wf_def hm_keys_def hm_insert_def distinct_update)

lemma hm_wf_remove [wf_intros]: "hm_wf m \<Longrightarrow> hm_wf (hm_remove m k)"
  by (simp add: hm_wf_def hm_keys_def hm_remove_def distinct_delete)

lemma hm_wf_modify [wf_intros]: "hm_wf m \<Longrightarrow> hm_wf (hm_modify m k f)"
  by (simp add: hm_modify_def hm_wf_insert split: option.split)

lemma hm_get_iff_mem: "hm_wf m \<Longrightarrow> hm_get m k = Some v \<longleftrightarrow> (k, v) \<in> set m"
  by (simp add: hm_wf_def hm_keys_def hm_get_def)

lemma hm_values_iff: "hm_wf m \<Longrightarrow> v \<in> set (hm_values m) \<longleftrightarrow> (\<exists>k. hm_get m k = Some v)"
  by (force simp: hm_values_def hm_get_iff_mem)

lemma hm_insert_fresh: "hm_get m k = None \<Longrightarrow> hm_insert m k v = m @ [(k, v)]"
  by (induction m) (auto simp: hm_get_def hm_insert_def split: if_splits)

lemma hm_keys_insert_present: "hm_get m k \<noteq> None \<Longrightarrow> hm_keys (hm_insert m k v) = hm_keys m"
  by (induction m) (auto simp: hm_get_def hm_insert_def hm_keys_def split: if_splits)

lemma hm_keys_modify: "hm_keys (hm_modify m k f) = hm_keys m"
  by (simp add: hm_modify_def hm_keys_insert_present split: option.split)

text \<open>The contract of a keyed store, stated over the operations its clients call.\<close>

locale keyed_store =
  fixes get :: "'m \<Rightarrow> 'k \<Rightarrow> 'v option"
    and put :: "'m \<Rightarrow> 'k \<Rightarrow> 'v \<Rightarrow> 'm"
    and del :: "'m \<Rightarrow> 'k \<Rightarrow> 'm"
    and keys :: "'m \<Rightarrow> 'k list"
    and wf :: "'m \<Rightarrow> bool"
  assumes get_put: "get (put m k v) k' = (if k' = k then Some v else get m k')"
    and get_del: "get (del m k) k' = (if k' = k then None else get m k')"
    and keys_get: "k \<in> set (keys m) \<longleftrightarrow> get m k \<noteq> None"
    and wf_distinct: "wf m \<Longrightarrow> distinct (keys m)"
    and wf_put: "wf m \<Longrightarrow> wf (put m k v)"
    and wf_del: "wf m \<Longrightarrow> wf (del m k)"
begin

lemma length_keys: "wf m \<Longrightarrow> length (keys m) = card {k. get m k \<noteq> None}"
proof -
  assume "wf m"
  then have "length (keys m) = card (set (keys m))" by (simp add: distinct_card wf_distinct)
  also have "set (keys m) = {k. get m k \<noteq> None}" by (auto simp: keys_get)
  finally show ?thesis .
qed

lemma finite_dom: "finite {k. get m k \<noteq> None}"
proof -
  have "{k. get m k \<noteq> None} = set (keys m)" by (auto simp: keys_get)
  then show ?thesis by simp
qed

lemma length_keys_put_fresh:
  assumes "wf m" "get m k = None"
  shows "length (keys (put m k v)) = Suc (length (keys m))"
proof -
  have "{k'. get (put m k v) k' \<noteq> None} = insert k {k'. get m k' \<noteq> None}"
    by (auto simp: get_put)
  with assms show ?thesis
    by (simp add: length_keys wf_put finite_dom del: not_None_eq)
qed

lemma length_keys_put_present:
  assumes "wf m" "get m k \<noteq> None"
  shows "length (keys (put m k v)) = length (keys m)"
proof -
  have "{k'. get (put m k v) k' \<noteq> None} = {k'. get m k' \<noteq> None}"
    using assms(2) by (auto simp: get_put)
  with assms(1) show ?thesis by (simp add: length_keys wf_put)
qed

lemma length_keys_del:
  assumes "wf m" "get m k \<noteq> None"
  shows "Suc (length (keys (del m k))) = length (keys m)"
proof -
  have e: "{k'. get (del m k) k' \<noteq> None} = {k'. get m k' \<noteq> None} - {k}"
    by (auto simp: get_del)
  have "k \<in> {k'. get m k' \<noteq> None}" using assms(2) by simp
  then have "card {k'. get m k' \<noteq> None} = Suc (card ({k'. get m k' \<noteq> None} - {k}))"
    by (rule card.remove [OF finite_dom])
  with e assms(1) show ?thesis by (simp add: length_keys wf_del)
qed

lemma put_all:
  "\<lbrakk>\<And>k v. get m k = Some v \<Longrightarrow> P k v; P k0 v0; get (put m k0 v0) k = Some v\<rbrakk> \<Longrightarrow> P k v"
  by (auto simp: get_put split: if_splits)

end

interpretation hm: keyed_store hm_get hm_insert hm_remove hm_keys hm_wf
  by unfold_locales
    (simp_all add: hm_get_insert hm_get_remove set_hm_keys hm_wf_insert hm_wf_remove,
      simp add: hm_wf_def)

section \<open>Settled nodes of a relation\<close>

text \<open>
  What a depth-first search has finished: a set of nodes that is closed under the relation and
  lies on no cycle. Both searches of the program are proved against it.
\<close>

definition settled :: "('a \<times> 'a) set \<Rightarrow> 'a set \<Rightarrow> bool" where
  "settled E P \<longleftrightarrow> (\<forall>p\<in>P. E `` {p} \<subseteq> P \<and> (p, p) \<notin> E\<^sup>+)"

lemma settled_empty: "settled E {}"
  by (simp add: settled_def)

lemma settled_trancl: "(p, q) \<in> E\<^sup>+ \<Longrightarrow> settled E P \<Longrightarrow> p \<in> P \<Longrightarrow> q \<in> P"
  by (induction rule: trancl_induct) (auto simp: settled_def)

lemma settled_insert:
  assumes "settled E P" "E `` {n} \<subseteq> P"
  shows "settled E (insert n P)"
proof -
  have "(n, n) \<notin> E\<^sup>+"
  proof
    assume c: "(n, n) \<in> E\<^sup>+"
    then obtain d where d: "(n, d) \<in> E" "(d, n) \<in> E\<^sup>*" by (meson tranclD)
    then have "d \<in> P" using assms(2) by auto
    with d(2) have "n \<in> P" using assms(1) by (metis settled_trancl rtranclD)
    with c assms(1) show False by (auto simp: settled_def)
  qed
  with assms show ?thesis by (auto simp: settled_def)
qed

lemma settled_acyclic: "settled E P \<Longrightarrow> Domain E \<subseteq> P \<Longrightarrow> acyclic E"
  by (auto simp: acyclic_def settled_def) (meson DomainI subsetD tranclD)

section \<open>State machines\<close>

text \<open>The states a machine reaches from its initial states by its steps.\<close>

inductive reachable :: "('s \<Rightarrow> bool) \<Rightarrow> ('s \<Rightarrow> 's \<Rightarrow> bool) \<Rightarrow> 's \<Rightarrow> bool"
  for init :: "'s \<Rightarrow> bool" and step :: "'s \<Rightarrow> 's \<Rightarrow> bool" where
  reach_init: "init s \<Longrightarrow> reachable init step s"
| reach_step: "reachable init step s \<Longrightarrow> step s t \<Longrightarrow> reachable init step t"

text \<open>A machine with an inductive invariant.\<close>

locale state_machine =
  fixes init :: "'s \<Rightarrow> bool"
    and step :: "'s \<Rightarrow> 's \<Rightarrow> bool"
    and inv :: "'s \<Rightarrow> bool"
  assumes init_inv: "init s \<Longrightarrow> inv s"
    and step_inv: "step s t \<Longrightarrow> inv s \<Longrightarrow> inv t"
begin

lemma reachable_inv: "reachable init step s \<Longrightarrow> inv s"
  by (induction rule: reachable.induct) (auto intro: init_inv step_inv)

lemma steps_inv: "step\<^sup>*\<^sup>* s t \<Longrightarrow> inv s \<Longrightarrow> inv t"
  by (induction rule: rtranclp_induct) (auto intro: step_inv)

end

text \<open>
  A machine whose every step spends at least one unit of a rank: the length of a run is
  bounded by the rank it starts with.
\<close>

locale ranked_machine = state_machine init step inv
  for init :: "'s \<Rightarrow> bool" and step :: "'s \<Rightarrow> 's \<Rightarrow> bool" and inv :: "'s \<Rightarrow> bool" +
  fixes rank :: "'s \<Rightarrow> nat"
  assumes step_rank: "step s t \<Longrightarrow> inv s \<Longrightarrow> rank t < rank s"
begin

lemma run_bounded: "(step ^^ n) s t \<Longrightarrow> inv s \<Longrightarrow> n + rank t \<le> rank s"
proof (induction n arbitrary: t)
  case 0
  then show ?case by simp
next
  case (Suc n)
  then obtain u where u: "(step ^^ n) s u" "step u t" by auto
  then have "inv u" using Suc.prems(2) by (meson relpowp_imp_rtranclp steps_inv)
  with u step_rank have "rank t < rank u" by blast
  moreover have "n + rank u \<le> rank s" by (rule Suc.IH [OF u(1) Suc.prems(2)])
  ultimately show ?case by simp
qed

end

section \<open>Labelled machines\<close>

text \<open>
  The runs of a machine whose steps carry labels: who moved. Interleaved components are steps
  of one machine under different labels.
\<close>

inductive trace_of :: "('l \<Rightarrow> 's \<Rightarrow> 's \<Rightarrow> bool) \<Rightarrow> 's \<Rightarrow> 'l list \<Rightarrow> 's \<Rightarrow> bool"
  for step :: "'l \<Rightarrow> 's \<Rightarrow> 's \<Rightarrow> bool" where
  trace_nil: "trace_of step s [] s"
| trace_snoc: "trace_of step s ls t \<Longrightarrow> step l t u \<Longrightarrow> trace_of step s (ls @ [l]) u"

inductive_simps trace_of_Nil [simp]: "trace_of step s [] t"
lemma trace_cons: "trace_of step t ls u \<Longrightarrow> step l s t \<Longrightarrow> trace_of step s (l # ls) u"
proof (induction rule: trace_of.induct)
  case (trace_nil t)
  then show ?case using trace_of.trace_snoc [OF trace_of.trace_nil, of step l s t] by simp
next
  case (trace_snoc t ls u k v)
  then show ?case using trace_of.trace_snoc [of step s "l # ls" u k v] by simp
qed

lemma trace_append: "trace_of step t ms u \<Longrightarrow> trace_of step s ls t \<Longrightarrow> trace_of step s (ls @ ms) u"
proof (induction rule: trace_of.induct)
  case (trace_snoc t ms u l v)
  then show ?case using trace_of.trace_snoc [of step s "ls @ ms" u l v] by simp
qed simp

text \<open>
  A machine with an invariant and a rank that no step raises and every counted step lowers.
\<close>

locale paced_machine =
  fixes init :: "'s \<Rightarrow> bool"
    and step :: "'l \<Rightarrow> 's \<Rightarrow> 's \<Rightarrow> bool"
    and inv :: "'s \<Rightarrow> bool"
    and counted :: "'l \<Rightarrow> bool"
    and rank :: "'s \<Rightarrow> nat"
  assumes start_inv: "init s \<Longrightarrow> inv s"
    and step_keeps: "step l s t \<Longrightarrow> inv s \<Longrightarrow> inv t"
    and rank_le: "step l s t \<Longrightarrow> inv s \<Longrightarrow> rank t \<le> rank s"
    and rank_less: "step l s t \<Longrightarrow> inv s \<Longrightarrow> counted l \<Longrightarrow> rank t < rank s"
begin

lemma trace_inv: "trace_of step s ls t \<Longrightarrow> inv s \<Longrightarrow> inv t"
  by (induction rule: trace_of.induct) (auto intro: step_keeps)

lemma run_inv: "init s \<Longrightarrow> trace_of step s ls t \<Longrightarrow> inv t"
  by (blast intro: start_inv trace_inv)

lemma counted_bounded: "trace_of step s ls t \<Longrightarrow> inv s \<Longrightarrow> length (filter counted ls) + rank t \<le> rank s"
proof (induction rule: trace_of.induct)
  case (trace_snoc s ls t l u)
  then have "inv t" by (blast intro: trace_inv)
  then show ?case
    using trace_snoc rank_le [of l t u] rank_less [of l t u] by (cases "counted l") auto
qed simp

end

text \<open>
  Functional refinement: an abstraction maps every start to a start and every step from a
  state of the invariant to an abstract step.
\<close>

locale refinement =
  fixes init :: "'s \<Rightarrow> bool" and step :: "'l \<Rightarrow> 's \<Rightarrow> 's \<Rightarrow> bool" and inv :: "'s \<Rightarrow> bool"
    and ainit :: "'a \<Rightarrow> bool" and astep :: "'a \<Rightarrow> 'a \<Rightarrow> bool" and abs :: "'s \<Rightarrow> 'a"
  assumes ref_start: "init s \<Longrightarrow> inv s \<and> ainit (abs s)"
    and ref_keeps: "step l s t \<Longrightarrow> inv s \<Longrightarrow> inv t"
    and ref_step: "step l s t \<Longrightarrow> inv s \<Longrightarrow> astep (abs s) (abs t)"
begin

lemma trace_refines:
  "trace_of step s ls t \<Longrightarrow> init s \<Longrightarrow> inv t \<and> reachable ainit astep (abs t)"
proof (induction rule: trace_of.induct)
  case (trace_nil s)
  then show ?case using ref_start by (blast intro: reach_init)
next
  case (trace_snoc s ls t l u)
  then show ?case using ref_keeps ref_step by (blast intro: reach_step)
qed

end

end
