(* ===== verification/Types.thy ===== *)
theory Types
  imports Prelude
begin

text \<open>
  The shared enumerations and records of \<^verbatim>\<open>src/types.rs\<close>: roles, profiles, run states and
  the actions of the trace, with their textual forms (the \<^verbatim>\<open>Display\<close> implementations), the
  role parser of \<^verbatim>\<open>orchestrator/helpers.rs\<close>, and token accounting.
  Identifiers and texts are \<^typ>\<open>string\<close>s, that is, the bytes of a Rust \<^verbatim>\<open>String\<close>.
\<close>

section \<open>Task profiles, agent roles, task types\<close>

datatype task_profile = Planning | Extraction | Coding | General

definition default_profile :: task_profile where
  "default_profile = General"

fun task_profile_display :: "task_profile \<Rightarrow> string" where
  "task_profile_display Planning = ''planning''"
| "task_profile_display Extraction = ''extraction''"
| "task_profile_display Coding = ''coding''"
| "task_profile_display General = ''general''"

datatype agent_role =
    Planner | Extractor | Coder | Summarizer | Fallback | ToolCaller | Analyzer
  | Reviewer | Scheduler | ConfigManager | Validator

definition all_roles :: "agent_role list" where
  "all_roles = [Planner, Extractor, Coder, Summarizer, Fallback, ToolCaller, Analyzer,
     Reviewer, Scheduler, ConfigManager, Validator]"

fun agent_role_display :: "agent_role \<Rightarrow> string" where
  "agent_role_display Planner = ''planner''"
| "agent_role_display Extractor = ''extractor''"
| "agent_role_display Coder = ''coder''"
| "agent_role_display Summarizer = ''summarizer''"
| "agent_role_display Fallback = ''fallback''"
| "agent_role_display ToolCaller = ''tool_caller''"
| "agent_role_display Analyzer = ''analyzer''"
| "agent_role_display Reviewer = ''reviewer''"
| "agent_role_display Scheduler = ''scheduler''"
| "agent_role_display ConfigManager = ''config_manager''"
| "agent_role_display Validator = ''validator''"

text \<open>\<^verbatim>\<open>parse_agent_role\<close>: only six of the eleven names are recognised.\<close>

definition parse_agent_role :: "string \<Rightarrow> agent_role option" where
  "parse_agent_role value =
     (if value = ''planner'' then Some Planner
      else if value = ''extractor'' then Some Extractor
      else if value = ''coder'' then Some Coder
      else if value = ''summarizer'' then Some Summarizer
      else if value = ''fallback'' then Some Fallback
      else if value = ''tool_caller'' then Some ToolCaller
      else None)"

datatype task_type =
    SimpleQuery | Analysis | CodeGeneration | Configuration | ConfigQuery | ToolOperation
  | ExternalProject | Interactive | Complex

lemma all_roles_complete [simp]: "r \<in> set all_roles"
  by (cases r) (simp_all add: all_roles_def)

lemma agent_role_display_inject [simp]: "agent_role_display r = agent_role_display s \<longleftrightarrow> r = s"
  by (cases r; cases s) simp_all

text \<open>Five roles are not read back from their own names.\<close>

lemma parse_agent_role_partial:
  "filter (\<lambda>r. parse_agent_role (agent_role_display r) = None) all_roles
     = [Analyzer, Reviewer, Scheduler, ConfigManager, Validator]"
  by (simp add: all_roles_def parse_agent_role_def)

lemma parse_agent_role_sound: "parse_agent_role s = Some r \<Longrightarrow> s = agent_role_display r"
  by (auto simp: parse_agent_role_def split: if_splits)

section \<open>Run states\<close>

datatype run_status =
    RS_Queued | RS_Cancelling | RS_Cancelled | RS_Paused | RS_Running | RS_Succeeded | RS_Failed

fun run_is_terminal :: "run_status \<Rightarrow> bool" where
  "run_is_terminal RS_Cancelled = True"
| "run_is_terminal RS_Succeeded = True"
| "run_is_terminal RS_Failed = True"
| "run_is_terminal _ = False"

fun run_status_display :: "run_status \<Rightarrow> string" where
  "run_status_display RS_Queued = ''queued''"
| "run_status_display RS_Cancelling = ''cancelling''"
| "run_status_display RS_Cancelled = ''cancelled''"
| "run_status_display RS_Paused = ''paused''"
| "run_status_display RS_Running = ''running''"
| "run_status_display RS_Succeeded = ''succeeded''"
| "run_status_display RS_Failed = ''failed''"

datatype session_event_type =
    UserMessage | AgentStarted | AgentOutput | ToolCall | ModelDecision | MemoryWrite
  | SessionSummary | RunProgress | RunFailed | RunCancelled | RunCompleted

section \<open>Trace actions\<close>

datatype run_action_type =
    RA_RunQueued | RA_RunStarted | RA_RunCancelRequested | RA_RunPauseRequested | RA_RunResumed
  | RA_GraphInitialized | RA_NodeProgress | RA_NodeStarted | RA_NodeCompleted | RA_NodeFailed
  | RA_NodeSkipped | RA_DynamicNodeAdded | RA_GraphCompleted | RA_ModelSelected | RA_RunFinished
  | RA_WebhookDispatched | RA_McpToolCalled | RA_NodeTokenChunk | RA_SubtaskPlanned
  | RA_VerificationStarted | RA_VerificationComplete | RA_ReplanTriggered
  | RA_RecoveryPhaseStarted | RA_RecoveryPhaseCompleted | RA_TerminalSuggested
  | RA_CoderSessionStarted | RA_CoderSessionCompleted | RA_ValidationPassed
  | RA_ValidationFailed | RA_GitCommitCreated | RA_GitPushCompleted | RA_RepoCloneCompleted
  | RA_RepoAnalysisCompleted | RA_InteractiveStep | RA_GitHubIssueCreated
  | RA_GitHubIssueCommented | RA_GitHubIssueClosed | RA_GitHubPrCreated | RA_GitHubPrReviewed
  | RA_GitHubPrCommented | RA_GitHubPrMerged | RA_GitHubBranchCreated | RA_PersonaMessage
  | RA_MentionReceived | RA_NoteCreated | RA_NoteUpdated | RA_MeetingStarted
  | RA_MeetingMessage | RA_MeetingEnded | RA_TeamMemoryWritten

fun run_action_display :: "run_action_type \<Rightarrow> string" where
  "run_action_display RA_RunQueued = ''run_queued''"
| "run_action_display RA_RunStarted = ''run_started''"
| "run_action_display RA_RunCancelRequested = ''run_cancel_requested''"
| "run_action_display RA_RunPauseRequested = ''run_pause_requested''"
| "run_action_display RA_RunResumed = ''run_resumed''"
| "run_action_display RA_GraphInitialized = ''graph_initialized''"
| "run_action_display RA_NodeProgress = ''node_progress''"
| "run_action_display RA_NodeStarted = ''node_started''"
| "run_action_display RA_NodeCompleted = ''node_completed''"
| "run_action_display RA_NodeFailed = ''node_failed''"
| "run_action_display RA_NodeSkipped = ''node_skipped''"
| "run_action_display RA_DynamicNodeAdded = ''dynamic_node_added''"
| "run_action_display RA_GraphCompleted = ''graph_completed''"
| "run_action_display RA_ModelSelected = ''model_selected''"
| "run_action_display RA_RunFinished = ''run_finished''"
| "run_action_display RA_WebhookDispatched = ''webhook_dispatched''"
| "run_action_display RA_McpToolCalled = ''mcp_tool_called''"
| "run_action_display RA_NodeTokenChunk = ''node_token_chunk''"
| "run_action_display RA_SubtaskPlanned = ''subtask_planned''"
| "run_action_display RA_VerificationStarted = ''verification_started''"
| "run_action_display RA_VerificationComplete = ''verification_complete''"
| "run_action_display RA_ReplanTriggered = ''replan_triggered''"
| "run_action_display RA_RecoveryPhaseStarted = ''recovery_phase_started''"
| "run_action_display RA_RecoveryPhaseCompleted = ''recovery_phase_completed''"
| "run_action_display RA_TerminalSuggested = ''terminal_suggested''"
| "run_action_display RA_CoderSessionStarted = ''coder_session_started''"
| "run_action_display RA_CoderSessionCompleted = ''coder_session_completed''"
| "run_action_display RA_ValidationPassed = ''validation_passed''"
| "run_action_display RA_ValidationFailed = ''validation_failed''"
| "run_action_display RA_GitCommitCreated = ''git_commit_created''"
| "run_action_display RA_GitPushCompleted = ''git_push_completed''"
| "run_action_display RA_RepoCloneCompleted = ''repo_clone_completed''"
| "run_action_display RA_RepoAnalysisCompleted = ''repo_analysis_completed''"
| "run_action_display RA_InteractiveStep = ''interactive_step''"
| "run_action_display RA_GitHubIssueCreated = ''github_issue_created''"
| "run_action_display RA_GitHubIssueCommented = ''github_issue_commented''"
| "run_action_display RA_GitHubIssueClosed = ''github_issue_closed''"
| "run_action_display RA_GitHubPrCreated = ''github_pr_created''"
| "run_action_display RA_GitHubPrReviewed = ''github_pr_reviewed''"
| "run_action_display RA_GitHubPrCommented = ''github_pr_commented''"
| "run_action_display RA_GitHubPrMerged = ''github_pr_merged''"
| "run_action_display RA_GitHubBranchCreated = ''github_branch_created''"
| "run_action_display RA_PersonaMessage = ''persona_message''"
| "run_action_display RA_MentionReceived = ''mention_received''"
| "run_action_display RA_NoteCreated = ''note_created''"
| "run_action_display RA_NoteUpdated = ''note_updated''"
| "run_action_display RA_MeetingStarted = ''meeting_started''"
| "run_action_display RA_MeetingMessage = ''meeting_message''"
| "run_action_display RA_MeetingEnded = ''meeting_ended''"
| "run_action_display RA_TeamMemoryWritten = ''team_memory_written''"

section \<open>Token accounting\<close>

text \<open>
  \<^verbatim>\<open>TokenUsage\<close> and its saturating \<^verbatim>\<open>merge\<close>. With the empty usage, merging is a
  commutative monoid, so that sums of usages are those of the library.
\<close>

datatype token_usage = TokenUsage (input_tokens: u32) (output_tokens: u32)

definition token_total :: "token_usage \<Rightarrow> u32" where
  "token_total u = sat_add (input_tokens u) (output_tokens u)"

definition token_merge :: "token_usage \<Rightarrow> token_usage \<Rightarrow> token_usage" where
  "token_merge a b = TokenUsage (sat_add (input_tokens a) (input_tokens b))
     (sat_add (output_tokens a) (output_tokens b))"

instantiation token_usage :: comm_monoid_add
begin

definition zero_token_usage :: token_usage where
  "zero_token_usage = TokenUsage 0 0"

definition plus_token_usage :: "token_usage \<Rightarrow> token_usage \<Rightarrow> token_usage" where
  "plus_token_usage a b = token_merge a b"

instance
proof
  fix a b c :: token_usage
  show "a + b + c = a + (b + c)"
    by (simp add: plus_token_usage_def token_merge_def sat_add_assoc)
  show "a + b = b + a"
    by (simp add: plus_token_usage_def token_merge_def sat_add_commute)
  show "0 + a = a"
    by (simp add: plus_token_usage_def zero_token_usage_def token_merge_def)
qed

end

text \<open>The accumulation loop the source repeats: merge every reported usage, left to right.\<close>

definition merge_opt :: "token_usage option \<Rightarrow> token_usage option \<Rightarrow> token_usage option" where
  "merge_opt acc u = (case u of None \<Rightarrow> acc
     | Some u \<Rightarrow> Some (case acc of Some prev \<Rightarrow> token_merge prev u | None \<Rightarrow> u))"

definition total_usage_of :: "token_usage option list \<Rightarrow> token_usage option" where
  "total_usage_of us = foldl merge_opt None us"

definition reported :: "token_usage option list \<Rightarrow> token_usage list" where
  "reported us = List.map_filter id us"

lemma foldl_merge_opt_Some: "foldl merge_opt (Some a) us = Some (a + sum_list (reported us))"
proof (induction us arbitrary: a)
  case Nil
  then show ?case by (simp add: reported_def map_filter_def)
next
  case (Cons u us)
  then show ?case
    by (cases u)
      (simp_all add: merge_opt_def reported_def map_filter_def
        plus_token_usage_def [symmetric] add.assoc)
qed

lemma total_usage_of_sum:
  "total_usage_of us = (if reported us = [] then None else Some (sum_list (reported us)))"
proof (induction us)
  case Nil
  then show ?case by (simp add: total_usage_of_def reported_def map_filter_def)
next
  case (Cons u us)
  then show ?case
    by (cases u)
      (simp_all add: total_usage_of_def merge_opt_def foldl_merge_opt_Some,
        simp_all add: reported_def map_filter_def)
qed

end
