(* ===== verification/Graph.thy ===== *)
theory Graph
  imports Types
begin

text \<open>
  The execution graph of \<^verbatim>\<open>src/runtime/graph.rs\<close>: nodes with their dependencies and
  policies, the status of each node, and the sets that control fallback nodes. The
  operations are those of \<^verbatim>\<open>impl ExecutionGraph\<close>; an operation on \<^verbatim>\<open>&mut self\<close> returns
  the graph it leaves behind, on its error paths too.

  Main results: the depth-first cycle check decides exactly whether the dependency relation
  is cyclic; every operation keeps the graph well formed; on a well-formed graph a node is
  accepted exactly when its id is new, its depth is allowed and its dependencies are there
  already, so the cycle rejection can never fire.
\<close>

section \<open>Data\<close>

datatype node_status = Pending | Running | Succeeded | Failed | Skipped

fun is_terminal :: "node_status \<Rightarrow> bool" where
  "is_terminal Succeeded = True"
| "is_terminal Failed = True"
| "is_terminal Skipped = True"
| "is_terminal _ = False"

datatype dependency_failure_policy = FailFast | ContinueOnError | FallbackNode

record execution_policy =
  max_parallelism :: nat
  retry :: u8
  timeout_ms :: u64
  circuit_breaker :: u8
  on_dependency_failure :: dependency_failure_policy
  fallback_node :: "string option"

definition default_policy :: execution_policy where
  "default_policy = \<lparr>max_parallelism = 1, retry = 1, timeout_ms = 120000, circuit_breaker = 3,
     on_dependency_failure = FailFast, fallback_node = None\<rparr>"

record agent_node =
  node_id :: string
  role :: agent_role
  instructions :: string
  dependencies :: "string list"
  policy :: execution_policy
  depth :: u8
  retry_context :: "string option"
  mcp_tools :: "string list"
  git_commands :: "string list"
  assigned_persona :: "string option"

definition new_node :: "string \<Rightarrow> agent_role \<Rightarrow> string \<Rightarrow> agent_node" where
  "new_node i r instr = \<lparr>node_id = i, role = r, instructions = instr, dependencies = [],
     policy = default_policy, depth = 0, retry_context = None, mcp_tools = [],
     git_commands = [], assigned_persona = None\<rparr>"

record execution_graph =
  nodes :: "(string, agent_node) hashmap"
  statuses :: "(string, node_status) hashmap"
  forced_ready :: "string set"
  fallback_only :: "string set"
  max_depth :: u8

definition new_graph :: "u8 \<Rightarrow> execution_graph" where
  "new_graph d = \<lparr>nodes = [], statuses = [], forced_ready = {}, fallback_only = {},
     max_depth = d\<rparr>"

datatype graph_error =
    DuplicateNode string
  | DepthExceeded string u8 u8
  | SelfDependency string
  | MissingDependency string string
  | IntroducesCycle string

section \<open>The cycle check\<close>

definition deps_of :: "execution_graph \<Rightarrow> string \<Rightarrow> string list" where
  "deps_of g n = (case hm_get (nodes g) n of None \<Rightarrow> [] | Some nd \<Rightarrow> dependencies nd)"

text \<open>
  The recursive search of \<^verbatim>\<open>has_cycle\<close>. It threads the two sets the closure mutates
  (\<^verbatim>\<open>temp\<close>, the nodes on the current path, and \<^verbatim>\<open>perm\<close>, the finished nodes) and answers
  whether it met a node of the current path; \<open>dfs_deps\<close> is the loop over the dependencies.
  Each nested call runs on a longer path of graph nodes, which bounds the recursion.
\<close>

function (sequential) dfs ::
    "execution_graph \<Rightarrow> string \<Rightarrow> string set \<Rightarrow> string set \<Rightarrow> bool \<times> string set \<times> string set"
  and dfs_deps ::
    "execution_graph \<Rightarrow> string list \<Rightarrow> string set \<Rightarrow> string set \<Rightarrow> bool \<times> string set \<times> string set"
where
  "dfs g n temp perm =
     (if n \<in> perm then (False, temp, perm)
      else if n \<in> temp then (True, temp, perm)
      else (case (if hm_contains (nodes g) n then dfs_deps g (deps_of g n) (insert n temp) perm
                  else (False, insert n temp, perm)) of
              (found, temp', perm') \<Rightarrow>
                if found then (True, temp', perm')
                else (False, temp' - {n}, insert n perm')))"
| "dfs_deps g [] temp perm = (False, temp, perm)"
| "dfs_deps g (d # ds) temp perm =
     (case dfs g d temp perm of
        (found, temp', perm') \<Rightarrow>
          if found then (True, temp', perm') else dfs_deps g ds temp' perm')"
  by pat_completeness auto

text \<open>A search that finds nothing restores the path, which is what the loop relies on.\<close>

lemma dfs_restores_dom:
  "dfs_dfs_deps_dom (Inl (g, n, temp, perm)) \<Longrightarrow>
     \<not> fst (dfs g n temp perm) \<Longrightarrow> fst (snd (dfs g n temp perm)) = temp"
  "dfs_dfs_deps_dom (Inr (g, ds, temp, perm)) \<Longrightarrow>
     \<not> fst (dfs_deps g ds temp perm) \<Longrightarrow> fst (snd (dfs_deps g ds temp perm)) = temp"
proof (induction g n temp perm and g ds temp perm rule: dfs_dfs_deps.pinduct)
  case (1 g n temp perm)
  obtain f t p where r: "dfs_deps g (deps_of g n) (insert n temp) perm = (f, t, p)"
    by (metis prod_cases3)
  show ?case
    using 1 r by (simp add: dfs.psimps split: if_splits)
next
  case (2 g temp perm)
  then show ?case by (simp add: dfs_deps.psimps)
next
  case (3 g d ds temp perm)
  obtain f t p where r: "dfs g d temp perm = (f, t, p)" by (metis prod_cases3)
  show ?case
    using 3 r by (simp add: dfs_deps.psimps split: if_splits)
qed

termination dfs
proof (relation "measures
    [\<lambda>x. case x of Inl (g, n, t, p) \<Rightarrow> card (set (hm_keys (nodes g)) - t)
               | Inr (g, ds, t, p) \<Rightarrow> card (set (hm_keys (nodes g)) - t),
     \<lambda>x. case x of Inl _ \<Rightarrow> 0 | Inr (g, ds, t, p) \<Rightarrow> Suc (length ds)]", goal_cases)
  case 1
  show ?case by simp
next
  case (2 g n temp perm)
  then have "card (set (hm_keys (nodes g)) - insert n temp) < card (set (hm_keys (nodes g)) - temp)"
    by (intro psubset_card_mono) (auto simp: hm_contains_keys)
  then show ?case by simp
next
  case (3 g d ds temp perm)
  then show ?case by simp
next
  case prems: (4 g d ds temp perm)
  obtain f t p where r: "dfs g d temp perm = (f, t, p)" by (metis prod_cases3)
  with prems have "\<not> f" by auto
  with r prems have "t = temp" using dfs_restores_dom(1) [of g d temp perm] by simp
  with r prems show ?case by auto
qed

declare dfs.simps [simp del]

lemma dfs_restores:
  "\<not> fst (dfs g n temp perm) \<Longrightarrow> fst (snd (dfs g n temp perm)) = temp"
  "\<not> fst (dfs_deps g ds temp perm) \<Longrightarrow> fst (snd (dfs_deps g ds temp perm)) = temp"
proof (induction g n temp perm and g ds temp perm rule: dfs_dfs_deps.induct)
  case (1 g n temp perm)
  then show ?case by (cases "dfs_deps g (deps_of g n) (insert n temp) perm")
    (auto simp: dfs.simps split: if_splits)
next
  case (3 g d ds temp perm)
  then show ?case by (cases "dfs g d temp perm") (auto split: if_splits)
qed simp

text \<open>\<^verbatim>\<open>has_cycle\<close>: the loop over the keys with one pair of sets.\<close>

fun has_cycle_from :: "execution_graph \<Rightarrow> string list \<Rightarrow> string set \<Rightarrow> string set \<Rightarrow> bool" where
  "has_cycle_from g [] temp perm = False"
| "has_cycle_from g (k # ks) temp perm =
     (case dfs g k temp perm of
        (found, temp', perm') \<Rightarrow> if found then True else has_cycle_from g ks temp' perm')"

definition has_cycle :: "execution_graph \<Rightarrow> bool" where
  "has_cycle g = has_cycle_from g (hm_keys (nodes g)) {} {}"

subsection \<open>The check decides cyclicity\<close>

text \<open>The dependency relation: a node and one of its dependencies.\<close>

definition dep_rel :: "execution_graph \<Rightarrow> (string \<times> string) set" where
  "dep_rel g = {(n, d). d \<in> set (deps_of g n)}"

lemma dep_rel_iff [simp]: "(n, d) \<in> dep_rel g \<longleftrightarrow> d \<in> set (deps_of g n)"
  by (simp add: dep_rel_def)

lemma deps_of_absent: "\<not> hm_contains (nodes g) n \<Longrightarrow> deps_of g n = []"
  by (simp add: deps_of_def hm_contains_def)

text \<open>A search that reports a cycle found one, when every node of the path reaches its start.\<close>

lemma dfs_sound:
  "fst (dfs g n temp perm) \<Longrightarrow> \<forall>t\<in>temp. (t, n) \<in> (dep_rel g)\<^sup>+ \<Longrightarrow> \<not> acyclic (dep_rel g)"
  "fst (dfs_deps g ds temp perm) \<Longrightarrow> \<forall>t\<in>temp. \<forall>d\<in>set ds. (t, d) \<in> (dep_rel g)\<^sup>+ \<Longrightarrow>
     \<not> acyclic (dep_rel g)"
proof (induction g n temp perm and g ds temp perm rule: dfs_dfs_deps.induct)
  case (1 g n temp perm)
  show ?case
  proof (cases "n \<in> temp")
    case True
    with 1(3) show ?thesis by (auto simp: acyclic_def)
  next
    case False
    with 1(2) have h: "n \<notin> perm" "hm_contains (nodes g) n"
      "fst (dfs_deps g (deps_of g n) (insert n temp) perm)"
      by (auto simp: dfs.simps split: if_splits prod.splits)
    have "\<forall>t\<in>insert n temp. \<forall>d\<in>set (deps_of g n). (t, d) \<in> (dep_rel g)\<^sup>+"
      using 1(3) by (auto intro: trancl_into_trancl)
    then show ?thesis using 1(1) [OF h(1) False h(2) h(3)] by simp
  qed
next
  case (2 g temp perm)
  then show ?case by simp
next
  case (3 g d ds temp perm)
  show ?case
  proof (cases "fst (dfs g d temp perm)")
    case True
    then show ?thesis using 3(1) 3(4) by simp
  next
    case False
    then have t: "fst (snd (dfs g d temp perm)) = temp" by (rule dfs_restores(1))
    obtain p where r: "dfs g d temp perm = (False, temp, p)"
      using False t by (metis prod.collapse)
    with 3(3) have "fst (dfs_deps g ds temp p)" by simp
    then show ?thesis using 3(2) [OF r [symmetric]] 3(4) by simp
  qed
qed

text \<open>The finished nodes are closed under dependencies and lie on no cycle.\<close>

abbreviation finished :: "execution_graph \<Rightarrow> string set \<Rightarrow> bool" where
  "finished g P \<equiv> settled (dep_rel g) P"

lemma finished_insert:
  "finished g P \<Longrightarrow> set (deps_of g n) \<subseteq> P \<Longrightarrow> finished g (insert n P)"
  by (rule settled_insert) auto

lemma dfs_complete:
  "\<not> fst (dfs g n temp perm) \<Longrightarrow> finished g perm \<Longrightarrow>
     finished g (snd (snd (dfs g n temp perm))) \<and> insert n perm \<subseteq> snd (snd (dfs g n temp perm))"
  "\<not> fst (dfs_deps g ds temp perm) \<Longrightarrow> finished g perm \<Longrightarrow>
     finished g (snd (snd (dfs_deps g ds temp perm))) \<and>
     set ds \<union> perm \<subseteq> snd (snd (dfs_deps g ds temp perm))"
proof (induction g n temp perm and g ds temp perm rule: dfs_dfs_deps.induct)
  case (1 g n temp perm)
  obtain f t p where r: "dfs_deps g (deps_of g n) (insert n temp) perm = (f, t, p)"
    by (metis prod_cases3)
  show ?case
  proof (cases "n \<in> perm \<or> \<not> hm_contains (nodes g) n")
    case True
    then show ?thesis using 1(2,3)
      by (auto simp: dfs.simps deps_of_absent finished_insert split: if_splits)
  next
    case False
    with 1(2) have nt: "n \<notin> temp" by (auto simp: dfs.simps)
    with 1(2) False r have "\<not> f" by (auto simp: dfs.simps split: if_splits)
    with 1(1) 1(3) False nt r have "finished g p" "set (deps_of g n) \<union> perm \<subseteq> p" by auto
    with False nt r \<open>\<not> f\<close> show ?thesis by (auto simp: dfs.simps intro: finished_insert)
  qed
next
  case (2 g temp perm)
  then show ?case by simp
next
  case (3 g d ds temp perm)
  obtain f t p where r: "dfs g d temp perm = (f, t, p)" by (metis prod_cases3)
  with 3(3) have "\<not> f" by auto
  with 3(1,4) r have "finished g p" "insert d perm \<subseteq> p" by auto
  with 3(2) [OF r [symmetric] refl] 3(3) r \<open>\<not> f\<close> show ?case by auto
qed

lemma has_cycle_from_step:
  assumes "finished g perm"
  obtains p where "has_cycle_from g (k # ks) {} perm \<Longrightarrow>
      \<not> acyclic (dep_rel g) \<or> has_cycle_from g ks {} p"
    and "\<not> has_cycle_from g (k # ks) {} perm \<Longrightarrow>
      \<not> has_cycle_from g ks {} p \<and> insert k perm \<subseteq> p"
    and "finished g p"
proof (cases "fst (dfs g k {} perm)")
  case True
  then have "\<not> acyclic (dep_rel g)" by (rule dfs_sound(1)) simp
  moreover have "has_cycle_from g (k # ks) {} perm"
    using True by (auto split: prod.splits)
  ultimately show thesis using that assms by blast
next
  case False
  obtain f t p where r: "dfs g k {} perm = (f, t, p)" by (metis prod_cases3)
  with False dfs_restores(1) [OF False] have "\<not> f" "t = {}" by simp_all
  moreover have "finished g p" "insert k perm \<subseteq> p"
    using dfs_complete(1) [OF False assms] r by simp_all
  ultimately show thesis using that [of p] r by simp
qed

lemma has_cycle_from_sound:
  "has_cycle_from g ks {} perm \<Longrightarrow> finished g perm \<Longrightarrow> \<not> acyclic (dep_rel g)"
proof (induction ks arbitrary: perm)
  case (Cons k ks)
  then show ?case by (metis has_cycle_from_step)
qed simp

lemma has_cycle_from_complete:
  "\<not> has_cycle_from g ks {} perm \<Longrightarrow> finished g perm \<Longrightarrow> \<exists>P. finished g P \<and> set ks \<union> perm \<subseteq> P"
proof (induction ks arbitrary: perm)
  case Nil
  then show ?case by auto
next
  case (Cons k ks)
  obtain p where p: "\<not> has_cycle_from g ks {} p" "insert k perm \<subseteq> p" "finished g p"
    using has_cycle_from_step [OF Cons.prems(2), of k ks] Cons.prems(1) by metis
  then obtain P where "finished g P" "set ks \<union> p \<subseteq> P" using Cons.IH by blast
  with p(2) show ?case by (intro exI [of _ P]) auto
qed

lemma has_cycle_iff: "has_cycle g \<longleftrightarrow> \<not> acyclic (dep_rel g)"
proof
  have f: "finished g {}" by (rule settled_empty)
  show "has_cycle g \<Longrightarrow> \<not> acyclic (dep_rel g)"
    using has_cycle_from_sound [OF _ f] by (simp add: has_cycle_def)
  show "has_cycle g" if c: "\<not> acyclic (dep_rel g)"
  proof (rule ccontr)
    assume "\<not> has_cycle g"
    then obtain P where P: "finished g P" "set (hm_keys (nodes g)) \<subseteq> P"
      using has_cycle_from_complete [OF _ f] by (auto simp: has_cycle_def)
    have "Domain (dep_rel g) \<subseteq> P"
      using P(2) deps_of_absent [of g] by (fastforce simp: hm_contains_keys)
    with P(1) c show False by (simp add: settled_acyclic)
  qed
qed

section \<open>Operations\<close>

fun check_deps :: "execution_graph \<Rightarrow> string \<Rightarrow> string list \<Rightarrow> graph_error option" where
  "check_deps g i [] = None"
| "check_deps g i (d # ds) =
     (if d = i then Some (SelfDependency i)
      else if \<not> hm_contains (nodes g) d then Some (MissingDependency i d)
      else check_deps g i ds)"

text \<open>
  The fallback bookkeeping of \<^verbatim>\<open>add_node\<close>: the new node's own fallback target, and the new
  node itself when a node of the graph names it as its fallback.
\<close>

definition register_fallbacks :: "execution_graph \<Rightarrow> agent_node \<Rightarrow> execution_graph" where
  "register_fallbacks g n = g\<lparr>fallback_only := fallback_only g
     \<union> (case fallback_node (policy n) of None \<Rightarrow> {} | Some fb \<Rightarrow> {fb})
     \<union> (if list_ex (\<lambda>e. fallback_node (policy e) = Some (node_id n)) (hm_values (nodes g))
        then {node_id n} else {})\<rparr>"

definition add_node :: "execution_graph \<Rightarrow> agent_node \<Rightarrow> (graph_error + unit) \<times> execution_graph" where
  "add_node g n =
     (if hm_contains (nodes g) (node_id n) then (Inl (DuplicateNode (node_id n)), g)
      else if depth n > max_depth g
      then (Inl (DepthExceeded (node_id n) (depth n) (max_depth g)), g)
      else (case check_deps g (node_id n) (dependencies n) of
        Some e \<Rightarrow> (Inl e, g)
      | None \<Rightarrow>
          let g1 = register_fallbacks g n;
              g2 = g1\<lparr>nodes := hm_insert (nodes g1) (node_id n) n,
                      statuses := hm_insert (statuses g1) (node_id n) Pending\<rparr>
          in if has_cycle g2
             then (Inl (IntroducesCycle (node_id n)),
                   g2\<lparr>nodes := hm_remove (nodes g2) (node_id n),
                      statuses := hm_remove (statuses g2) (node_id n)\<rparr>)
             else (Inr (), g2)))"

fun add_nodes :: "execution_graph \<Rightarrow> agent_node list \<Rightarrow> (graph_error + unit) \<times> execution_graph" where
  "add_nodes g [] = (Inr (), g)"
| "add_nodes g (n # ns) =
     (case add_node g n of (Inl e, g') \<Rightarrow> (Inl e, g') | (Inr u, g') \<Rightarrow> add_nodes g' ns)"

definition with_nodes :: "u8 \<Rightarrow> agent_node list \<Rightarrow> graph_error + execution_graph" where
  "with_nodes d ns = (case add_nodes (new_graph d) ns of (Inl e, g) \<Rightarrow> Inl e | (Inr u, g) \<Rightarrow> Inr g)"

definition pin_persona :: "execution_graph \<Rightarrow> string \<Rightarrow> string option \<Rightarrow> execution_graph" where
  "pin_persona g i p = g\<lparr>nodes := hm_modify (nodes g) i (\<lambda>n. n\<lparr>assigned_persona := p\<rparr>)\<rparr>"

definition force_ready :: "execution_graph \<Rightarrow> string \<Rightarrow> execution_graph" where
  "force_ready g i =
     (if hm_contains (nodes g) i then g\<lparr>forced_ready := insert i (forced_ready g)\<rparr> else g)"

definition is_forced_ready :: "execution_graph \<Rightarrow> string \<Rightarrow> bool" where
  "is_forced_ready g i \<longleftrightarrow> i \<in> forced_ready g"

definition clear_forced_ready :: "execution_graph \<Rightarrow> string \<Rightarrow> execution_graph" where
  "clear_forced_ready g i = g\<lparr>forced_ready := forced_ready g - {i}\<rparr>"

definition is_fallback_only :: "execution_graph \<Rightarrow> string \<Rightarrow> bool" where
  "is_fallback_only g i \<longleftrightarrow> i \<in> fallback_only g"

definition graph_nodes :: "execution_graph \<Rightarrow> agent_node list" where
  "graph_nodes g = hm_values (nodes g)"

definition node :: "execution_graph \<Rightarrow> string \<Rightarrow> agent_node option" where
  "node g i = hm_get (nodes g) i"

definition status :: "execution_graph \<Rightarrow> string \<Rightarrow> node_status option" where
  "status g i = hm_get (statuses g) i"

definition set_status :: "execution_graph \<Rightarrow> string \<Rightarrow> node_status \<Rightarrow> execution_graph" where
  "set_status g i st = g\<lparr>statuses := hm_modify (statuses g) i (\<lambda>_. st)\<rparr>"

definition pending_nodes :: "execution_graph \<Rightarrow> agent_node list" where
  "pending_nodes g =
     filter (\<lambda>n. status g (node_id n) = Some Pending) (hm_values (nodes g))"

definition all_terminal :: "execution_graph \<Rightarrow> bool" where
  "all_terminal g \<longleftrightarrow> list_all is_terminal (hm_values (statuses g))"

text \<open>\<^verbatim>\<open>dependencies(&self, node)\<close>: the dependencies that have a status, in order.\<close>

definition dep_statuses :: "execution_graph \<Rightarrow> agent_node \<Rightarrow> (string \<times> node_status) list" where
  "dep_statuses g n =
     List.map_filter (\<lambda>d. map_option (\<lambda>st. (d, st)) (status g d)) (dependencies n)"

definition skip_all :: "execution_graph \<Rightarrow> string list \<Rightarrow> execution_graph" where
  "skip_all g is = foldl (\<lambda>g i. set_status g i Skipped) g is"

definition mark_role_pending_as_skipped :: "execution_graph \<Rightarrow> agent_role \<Rightarrow> execution_graph" where
  "mark_role_pending_as_skipped g r = skip_all g (map node_id
     (filter (\<lambda>n. role n = r \<and> status g (node_id n) = Some Pending) (hm_values (nodes g))))"

definition mark_dependents_pending_as_skipped ::
    "execution_graph \<Rightarrow> string \<Rightarrow> execution_graph" where
  "mark_dependents_pending_as_skipped g i = skip_all g (map node_id
     (filter (\<lambda>n. i \<in> set (dependencies n) \<and> status g (node_id n) = Some Pending)
       (hm_values (nodes g))))"

section \<open>Well-formed graphs\<close>

text \<open>
  Node and status tables have the same keys, a node is stored under its own id and within
  the depth limit, dependencies are nodes of the graph, the dependency relation is acyclic,
  and only nodes of the graph are forced ready.
\<close>

definition graph_wf :: "execution_graph \<Rightarrow> bool" where
  "graph_wf g \<longleftrightarrow> hm_wf (nodes g) \<and> hm_wf (statuses g)
     \<and> set (hm_keys (statuses g)) = set (hm_keys (nodes g))
     \<and> (\<forall>i n. hm_get (nodes g) i = Some n \<longrightarrow> node_id n = i \<and> depth n \<le> max_depth g)
     \<and> (\<forall>i. set (deps_of g i) \<subseteq> set (hm_keys (nodes g)))
     \<and> acyclic (dep_rel g)
     \<and> forced_ready g \<subseteq> set (hm_keys (nodes g))"

lemma acyclic_add_source:
  assumes "acyclic E" "n \<notin> Range E" "n \<notin> D"
  shows "acyclic (E \<union> {n} \<times> D)"
proof -
  have step: "(x, y) \<in> E\<^sup>+ \<and> y \<noteq> n" if "(x, y) \<in> (E \<union> {n} \<times> D)\<^sup>+" "x \<noteq> n" for x y
    using that
  proof (induction rule: trancl_induct)
    case (base y)
    then show ?case using assms(2) by auto
  next
    case (step y z)
    then have "(x, y) \<in> E\<^sup>+" "(y, z) \<in> E" by auto
    moreover from \<open>(y, z) \<in> E\<close> have "z \<noteq> n" using assms(2) by auto
    ultimately show ?case by (auto intro: trancl_into_trancl)
  qed
  have "n \<notin> Range ((E \<union> {n} \<times> D)\<^sup>+)"
    using assms(2,3) by (simp only: trancl_range) auto
  with step assms(1) show ?thesis by (metis RangeI acyclic_def)
qed

lemma check_deps_None:
  "check_deps g i ds = None \<longleftrightarrow> i \<notin> set ds \<and> (\<forall>d\<in>set ds. hm_contains (nodes g) d)"
  by (induction ds) auto

lemma register_fallbacks_simps [simp]:
  "nodes (register_fallbacks g n) = nodes g"
  "statuses (register_fallbacks g n) = statuses g"
  "forced_ready (register_fallbacks g n) = forced_ready g"
  "max_depth (register_fallbacks g n) = max_depth g"
  by (simp_all add: register_fallbacks_def)

lemma deps_of_insert:
  "nodes g' = hm_insert (nodes g) i n \<Longrightarrow>
     deps_of g' x = (if x = i then dependencies n else deps_of g x)"
  by (simp add: deps_of_def hm_get_insert)

lemma deps_of_cong: "nodes g' = nodes g \<Longrightarrow> deps_of g' = deps_of g"
  by (simp add: deps_of_def fun_eq_iff)

lemma dep_rel_insert:
  assumes "nodes g' = hm_insert (nodes g) i n" "\<not> hm_contains (nodes g) i"
  shows "dep_rel g' = dep_rel g \<union> {i} \<times> set (dependencies n)"
  using assms deps_of_absent [of g i] by (auto simp: dep_rel_def deps_of_insert [OF assms(1)] split: if_splits)

lemma acyclic_insert_node:
  assumes "graph_wf g" "\<not> hm_contains (nodes g) i" "i \<notin> set (dependencies n)"
    and "nodes g' = hm_insert (nodes g) i n"
  shows "acyclic (dep_rel g')"
proof -
  have "i \<notin> Range (dep_rel g)"
    using assms(1,2) by (fastforce simp: graph_wf_def hm_contains_keys)
  with assms(1,3) have "acyclic (dep_rel g \<union> {i} \<times> set (dependencies n))"
    by (intro acyclic_add_source) (auto simp: graph_wf_def)
  then show ?thesis using dep_rel_insert [OF assms(4,2)] by simp
qed

text \<open>What \<open>add_node\<close> does to a well-formed graph, in one equation.\<close>

definition insert_node :: "execution_graph \<Rightarrow> agent_node \<Rightarrow> execution_graph" where
  "insert_node g n = (register_fallbacks g n)
     \<lparr>nodes := hm_insert (nodes g) (node_id n) n,
      statuses := hm_insert (statuses g) (node_id n) Pending\<rparr>"

lemma add_node_eq:
  assumes "graph_wf g"
  shows "add_node g n =
    (if hm_contains (nodes g) (node_id n) then (Inl (DuplicateNode (node_id n)), g)
     else if depth n > max_depth g
     then (Inl (DepthExceeded (node_id n) (depth n) (max_depth g)), g)
     else case check_deps g (node_id n) (dependencies n) of
        Some e \<Rightarrow> (Inl e, g) | None \<Rightarrow> (Inr (), insert_node g n))"
proof (cases "hm_contains (nodes g) (node_id n) \<or> check_deps g (node_id n) (dependencies n) \<noteq> None")
  case True
  then show ?thesis by (auto simp: add_node_def)
next
  case False
  then have "acyclic (dep_rel (insert_node g n))"
    using acyclic_insert_node [OF assms, of "node_id n" n "insert_node g n"]
    by (simp add: check_deps_None insert_node_def)
  then have "\<not> has_cycle (insert_node g n)" by (simp add: has_cycle_iff)
  with False show ?thesis by (simp add: add_node_def insert_node_def Let_def)
qed

subsection \<open>Every operation keeps the graph well formed\<close>

lemma graph_wf_new [wf_intros]: "graph_wf (new_graph d)"
  by (simp add: graph_wf_def new_graph_def hm_simps wf_intros deps_of_def acyclic_def dep_rel_def)

lemma graph_wf_insert_node:
  assumes "graph_wf g" "\<not> hm_contains (nodes g) (node_id n)" "depth n \<le> max_depth g"
    and "check_deps g (node_id n) (dependencies n) = None"
  shows "graph_wf (insert_node g n)"
proof -
  have n: "nodes (insert_node g n) = hm_insert (nodes g) (node_id n) n"
    by (simp add: insert_node_def)
  have "acyclic (dep_rel (insert_node g n))"
    using acyclic_insert_node [OF assms(1,2) _ n] assms(4) by (simp add: check_deps_None)
  moreover have "set (deps_of (insert_node g n) i) \<subseteq> set (hm_keys (nodes (insert_node g n)))" for i
    using assms(1,4)
    by (auto simp: n deps_of_insert [OF n] hm_simps graph_wf_def check_deps_None hm_contains_keys)
  ultimately show ?thesis
    using assms(1,3) by (auto simp: graph_wf_def insert_node_def hm_simps wf_intros)
qed

lemma add_node_wf_lemma [wf_intros]: "graph_wf g \<Longrightarrow> graph_wf (snd (add_node g n))"
  by (auto simp: add_node_eq graph_wf_insert_node split: option.split)

lemma graph_wf_nodes_cong:
  assumes "graph_wf g" "nodes g' = nodes g" "max_depth g' = max_depth g"
    and "hm_wf (statuses g')" "set (hm_keys (statuses g')) = set (hm_keys (statuses g))"
    and "forced_ready g' \<subseteq> set (hm_keys (nodes g))"
  shows "graph_wf g'"
  using assms deps_of_cong [OF assms(2)] by (simp add: graph_wf_def dep_rel_def)

lemma graph_wf_force_ready [wf_intros]: "graph_wf g \<Longrightarrow> graph_wf (force_ready g i)"
  by (rule graph_wf_nodes_cong [of g])
    (auto simp: force_ready_def graph_wf_def hm_contains_keys)

lemma graph_wf_clear_forced_ready [wf_intros]: "graph_wf g \<Longrightarrow> graph_wf (clear_forced_ready g i)"
  by (rule graph_wf_nodes_cong [of g]) (auto simp: clear_forced_ready_def graph_wf_def)

lemma graph_wf_set_status [wf_intros]: "graph_wf g \<Longrightarrow> graph_wf (set_status g i st)"
  by (rule graph_wf_nodes_cong [of g])
    (auto simp: set_status_def graph_wf_def hm_simps wf_intros)

lemma graph_wf_skip_all [wf_intros]: "graph_wf g \<Longrightarrow> graph_wf (skip_all g is)"
  by (induction "is" arbitrary: g) (auto simp: skip_all_def graph_wf_set_status)

lemma graph_wf_mark_role [wf_intros]:
  "graph_wf g \<Longrightarrow> graph_wf (mark_role_pending_as_skipped g r)"
  by (simp add: mark_role_pending_as_skipped_def graph_wf_skip_all)

lemma graph_wf_mark_dependents [wf_intros]:
  "graph_wf g \<Longrightarrow> graph_wf (mark_dependents_pending_as_skipped g i)"
  by (simp add: mark_dependents_pending_as_skipped_def graph_wf_skip_all)

lemma deps_of_pin [simp]: "deps_of (pin_persona g i p) = deps_of g"
  by (auto simp: fun_eq_iff deps_of_def pin_persona_def hm_simps split: option.splits)

lemma graph_wf_pin_persona [wf_intros]: "graph_wf g \<Longrightarrow> graph_wf (pin_persona g i p)"
  by (auto simp: graph_wf_def dep_rel_def)
    (auto simp: pin_persona_def hm_simps wf_intros split: if_splits)

lemma graph_wf_add_nodes [wf_intros]: "graph_wf g \<Longrightarrow> graph_wf (snd (add_nodes g ns))"
proof (induction ns arbitrary: g)
  case Nil
  then show ?case by simp
next
  case (Cons n ns)
  then show ?case using add_node_wf_lemma [OF Cons.prems, of n]
    by (auto split: prod.splits sum.splits)
qed

text \<open>The graphs the operations build, from an empty one on.\<close>

datatype graph_op =
    AddNode agent_node | PinPersona string "string option" | ForceReady string
  | ClearForcedReady string | SetStatus string node_status | MarkRole agent_role
  | MarkDependents string

fun run_graph_op :: "execution_graph \<Rightarrow> graph_op \<Rightarrow> execution_graph" where
  "run_graph_op g (AddNode n) = snd (add_node g n)"
| "run_graph_op g (PinPersona i p) = pin_persona g i p"
| "run_graph_op g (ForceReady i) = force_ready g i"
| "run_graph_op g (ClearForcedReady i) = clear_forced_ready g i"
| "run_graph_op g (SetStatus i st) = set_status g i st"
| "run_graph_op g (MarkRole r) = mark_role_pending_as_skipped g r"
| "run_graph_op g (MarkDependents i) = mark_dependents_pending_as_skipped g i"

definition graph_step :: "execution_graph \<Rightarrow> execution_graph \<Rightarrow> bool" where
  "graph_step g g' \<longleftrightarrow> (\<exists>op. g' = run_graph_op g op)"

definition graph_init :: "execution_graph \<Rightarrow> bool" where
  "graph_init g \<longleftrightarrow> (\<exists>d. g = new_graph d)"

lemma graph_wf_run_op: "graph_wf g \<Longrightarrow> graph_wf (run_graph_op g op)"
  by (cases op) (simp_all add: wf_intros)

interpretation graph_machine: state_machine graph_init graph_step graph_wf
  by unfold_locales (auto simp: graph_init_def graph_step_def wf_intros graph_wf_run_op)

section \<open>What the operations do\<close>

lemma status_set_status:
  "status (set_status g i st) j =
     (if j = i then map_option (\<lambda>_. st) (status g i) else status g j)"
  by (simp add: status_def set_status_def hm_simps)

lemma nodes_set_status [simp]: "nodes (set_status g i st) = nodes g"
  by (simp add: set_status_def)

lemma nodes_skip_all [simp]: "nodes (skip_all g is) = nodes g"
  by (induction "is" arbitrary: g) (auto simp: skip_all_def)

lemma status_skip_all:
  "status (skip_all g is) i =
     (if i \<in> set is then map_option (\<lambda>_. Skipped) (status g i) else status g i)"
proof (induction "is" arbitrary: g)
  case Nil
  then show ?case by (simp add: skip_all_def)
next
  case (Cons j "is")
  have "skip_all g (j # is) = skip_all (set_status g j Skipped) is" by (simp add: skip_all_def)
  with Cons show ?case by (simp add: status_set_status option.map_comp comp_def)
qed

lemma status_Some_iff: "graph_wf g \<Longrightarrow> (\<exists>st. status g i = Some st) \<longleftrightarrow> (\<exists>n. node g i = Some n)"
  using set_hm_keys [of i "statuses g"] set_hm_keys [of i "nodes g"]
  by (auto simp: graph_wf_def status_def node_def)

lemma graph_wf_node_id: "graph_wf g \<Longrightarrow> node g i = Some n \<Longrightarrow> node_id n = i"
  by (simp add: graph_wf_def node_def)

lemma graph_nodes_iff: "graph_wf g \<Longrightarrow> n \<in> set (graph_nodes g) \<longleftrightarrow> node g (node_id n) = Some n"
  by (auto simp: graph_nodes_def node_def graph_wf_def hm_values_iff)

lemma pending_nodes_iff:
  "graph_wf g \<Longrightarrow> n \<in> set (pending_nodes g) \<longleftrightarrow>
     node g (node_id n) = Some n \<and> status g (node_id n) = Some Pending"
  using graph_nodes_iff [of g n] by (auto simp: pending_nodes_def graph_nodes_def)

lemma deps_of_node: "node g i = Some n \<Longrightarrow> deps_of g i = dependencies n"
  by (simp add: deps_of_def node_def)

lemma deps_of_nodes_cong: "nodes g' = nodes g \<Longrightarrow> deps_of g' i = deps_of g i"
  by (simp add: deps_of_def)

lemma skip_matching:
  assumes wf: "graph_wf g"
  shows "status (skip_all g (map node_id
      (filter (\<lambda>n. P n \<and> status g (node_id n) = Some Pending) (hm_values (nodes g))))) i =
    (if status g i = Some Pending \<and> (\<exists>n. node g i = Some n \<and> P n) then Some Skipped
     else status g i)"
proof -
  let ?ts = "map node_id
    (filter (\<lambda>n. P n \<and> status g (node_id n) = Some Pending) (hm_values (nodes g)))"
  have "i \<in> set ?ts \<longleftrightarrow> status g i = Some Pending \<and> (\<exists>n. node g i = Some n \<and> P n)"
  proof
    assume "i \<in> set ?ts"
    then obtain n where "n \<in> set (graph_nodes g)" "P n" "status g i = Some Pending" "node_id n = i"
      by (auto simp: graph_nodes_def)
    then show "status g i = Some Pending \<and> (\<exists>n. node g i = Some n \<and> P n)"
      using graph_nodes_iff [OF wf, of n] by blast
  next
    assume "status g i = Some Pending \<and> (\<exists>n. node g i = Some n \<and> P n)"
    then obtain n where n: "status g i = Some Pending" "node g i = Some n" "P n" by blast
    then have "node_id n = i" by (simp add: graph_wf_node_id [OF wf])
    moreover from this n have "n \<in> set (graph_nodes g)" by (simp add: graph_nodes_iff [OF wf])
    ultimately show "i \<in> set ?ts" using n by (auto simp: graph_nodes_def)
  qed
  then show ?thesis by (simp add: status_skip_all)
qed

lemma node_eq_deps: "node g i = Some n \<Longrightarrow> x \<in> set (deps_of g i) \<longleftrightarrow> x \<in> set (dependencies n)"
  by (simp add: deps_of_node)

lemma in_deps_node: "x \<in> set (deps_of g i) \<longleftrightarrow> (\<exists>n. node g i = Some n \<and> x \<in> set (dependencies n))"
  by (cases "node g i") (simp_all add: deps_of_def node_def)

section \<open>Adding nodes in dependency order\<close>

text \<open>
  A list of nodes that can be added one after the other to a graph with the node ids \<open>K\<close> and
  the depth limit \<open>md\<close>.
\<close>

fun addable :: "string set \<Rightarrow> u8 \<Rightarrow> agent_node list \<Rightarrow> bool" where
  "addable K md [] = True"
| "addable K md (n # ns) \<longleftrightarrow> node_id n \<notin> K \<and> depth n \<le> md \<and> set (dependencies n) \<subseteq> K
     \<and> addable (insert (node_id n) K) md ns"

lemma add_node_addable:
  assumes "graph_wf g"
  shows "fst (add_node g n) = Inr () \<longleftrightarrow> addable (set (hm_keys (nodes g))) (max_depth g) [n]"
  using assms check_deps_None [of g "node_id n" "dependencies n"]
  by (auto simp: add_node_eq hm_contains_keys split: option.splits)

lemma insert_node_simps [simp]:
  "nodes (insert_node g n) = hm_insert (nodes g) (node_id n) n"
  "max_depth (insert_node g n) = max_depth g"
  by (simp_all add: insert_node_def)

lemma add_node_Inr:
  assumes "graph_wf g" "add_node g n = (Inr (), g')"
  shows "g' = insert_node g n" "hm_keys (nodes g') = hm_keys (nodes g) @ [node_id n]"
proof -
  show g: "g' = insert_node g n"
    using assms by (auto simp: add_node_eq split: if_splits option.splits)
  have "hm_get (nodes g) (node_id n) = None"
    using assms by (auto simp: add_node_eq hm_contains_def split: if_splits)
  then show "hm_keys (nodes g') = hm_keys (nodes g) @ [node_id n]"
    by (simp add: g hm_insert_fresh) (simp add: hm_keys_def)
qed

text \<open>A graph on which no node was touched yet; \<open>with_nodes\<close> builds such graphs.\<close>

definition fresh_graph :: "execution_graph \<Rightarrow> bool" where
  "fresh_graph g \<longleftrightarrow> graph_wf g \<and> (\<forall>i st. status g i = Some st \<longrightarrow> st = Pending)"

lemma fresh_new_graph: "fresh_graph (new_graph d)"
  by (simp add: fresh_graph_def wf_intros) (simp add: status_def new_graph_def hm_simps)

lemma fresh_add_node: "fresh_graph g \<Longrightarrow> fresh_graph (snd (add_node g n))"
  using add_node_wf_lemma [of g n]
  by (auto simp: fresh_graph_def add_node_eq insert_node_def status_def hm_simps
      split: option.splits if_splits)

lemma with_nodes_fresh: "fresh_graph g \<Longrightarrow> fresh_graph (snd (add_nodes g ns))"
proof (induction ns arbitrary: g)
  case (Cons n ns)
  show ?case using Cons.IH [of "snd (add_node g n)"] fresh_add_node [OF Cons.prems, of n]
    by (auto split: prod.splits sum.splits)
qed simp

section \<open>Properties\<close>

definition sample_graph :: execution_graph where
  "sample_graph = snd (add_nodes (new_graph 4)
     [new_node ''plan'' Planner ''p'',
      (new_node ''code'' Coder ''c'')\<lparr>dependencies := [''plan'']\<rparr>,
      (new_node ''sum'' Summarizer ''s'')\<lparr>dependencies := [''code'', ''plan'']\<rparr>])"

lemma sample_graph_wf: "graph_wf sample_graph"
  unfolding sample_graph_def by (intro wf_intros)

text \<open>
  C13: the depth-first cycle check of the graph (recursion, path set and finished set as
  written) answers yes exactly when the dependency relation of the graph is cyclic, for every
  graph and every iteration order of its node table.
\<close>

theorem has_cycle_correct: "has_cycle g \<longleftrightarrow> \<not> acyclic {(n, d). d \<in> set (deps_of g n)}"
  using has_cycle_iff by (simp add: dep_rel_def)

text \<open>
  C8: every graph the operations can build from an empty one is well formed: the two tables
  agree, dependencies are nodes of the graph, depths respect the limit and the dependency
  relation is acyclic.
\<close>

theorem graph_reachable_wf: "reachable graph_init graph_step g \<Longrightarrow> graph_wf g"
  by (rule graph_machine.reachable_inv)

theorem graph_reachable_wf_witness:
  "graph_wf (set_status (snd (add_node (new_graph 4) (new_node ''a'' Planner ''x''))) ''a'' Running)"
proof (rule graph_reachable_wf)
  have "reachable graph_init graph_step (new_graph 4)"
    by (rule reach_init) (auto simp: graph_init_def)
  moreover have "graph_step (new_graph 4) (snd (add_node (new_graph 4) (new_node ''a'' Planner ''x'')))"
    unfolding graph_step_def by (metis run_graph_op.simps(1))
  moreover have "graph_step g (set_status g ''a'' Running)" for g
    unfolding graph_step_def by (metis run_graph_op.simps(5))
  ultimately show "reachable graph_init graph_step
      (set_status (snd (add_node (new_graph 4) (new_node ''a'' Planner ''x''))) ''a'' Running)"
    by (meson reach_step)
qed

text \<open>
  On a well-formed graph \<open>add_node\<close> accepts a node exactly when its id is new, its depth
  is within the limit and every dependency is already a node (which rules out depending on
  itself); an error leaves the graph as it was, and it is never the cycle error: that
  rejection is dead code.
\<close>

theorem add_node_outcome:
  assumes "graph_wf g"
  shows "(fst (add_node g n) = Inr () \<longleftrightarrow> \<not> hm_contains (nodes g) (node_id n)
            \<and> depth n \<le> max_depth g \<and> list_all (hm_contains (nodes g)) (dependencies n))
       \<and> (fst (add_node g n) = Inl e \<longrightarrow> snd (add_node g n) = g \<and> e \<noteq> IntroducesCycle i)"
proof -
  have "check_deps g j ds = Some e \<Longrightarrow> e \<noteq> IntroducesCycle i" for j ds
    by (induction ds) (auto split: if_splits)
  then show ?thesis
    using assms check_deps_None [of g "node_id n" "dependencies n"]
    by (auto simp: add_node_eq list_all_iff split: option.splits)
qed

theorem add_node_outcome_witness:
  "fst (add_node sample_graph ((new_node ''x'' Coder ''i'')\<lparr>dependencies := [''sum'']\<rparr>)) = Inr ()
   \<and> fst (add_node sample_graph ((new_node ''x'' Coder ''i'')\<lparr>dependencies := [''x'']\<rparr>)) \<noteq> Inr ()"
proof -
  have k: "hm_contains (nodes sample_graph) ''sum''" "\<not> hm_contains (nodes sample_graph) ''x''"
    "max_depth sample_graph = 4"
    by code_simp+
  show ?thesis
    using add_node_outcome [OF sample_graph_wf, of "(new_node ''x'' Coder ''i'')\<lparr>dependencies := [''sum'']\<rparr>"]
      add_node_outcome [OF sample_graph_wf, of "(new_node ''x'' Coder ''i'')\<lparr>dependencies := [''x'']\<rparr>"] k
    by (simp add: new_node_def)
qed

text \<open>
  Skipping the dependents of a node marks exactly the pending nodes that list it among
  their dependencies, and changes no other status.
\<close>

theorem mark_dependents_spec:
  assumes "graph_wf g"
  shows "status (mark_dependents_pending_as_skipped g x) i =
    (if status g i = Some Pending \<and> x \<in> set (deps_of g i) then Some Skipped else status g i)"
  using skip_matching [OF assms, of "\<lambda>n. x \<in> set (dependencies n)" i]
  by (simp add: mark_dependents_pending_as_skipped_def in_deps_node)

theorem mark_dependents_spec_witness:
  "status (mark_dependents_pending_as_skipped sample_graph ''code'') ''sum'' = Some Skipped
   \<and> status (mark_dependents_pending_as_skipped sample_graph ''code'') ''plan'' = Some Pending"
proof -
  have "status sample_graph ''sum'' = Some Pending" "status sample_graph ''plan'' = Some Pending"
    "''code'' \<in> set (deps_of sample_graph ''sum'')" "''code'' \<notin> set (deps_of sample_graph ''plan'')"
    by code_simp+
  then show ?thesis
    using mark_dependents_spec [OF sample_graph_wf, of "''code''" "''sum''"]
      mark_dependents_spec [OF sample_graph_wf, of "''code''" "''plan''"] by simp
qed

end
