(* ===== verification/Node_Policy.thy ===== *)
theory Node_Policy
  imports Graph Text
begin

text \<open>
  Node results and the retry policy of \<^verbatim>\<open>src/runtime/mod.rs\<close>: the constructors of
  \<^verbatim>\<open>NodeExecutionResult\<close> and \<^verbatim>\<open>execute_node_with_policy\<close>. What one attempt of the node body
  does (the awaited \<^verbatim>\<open>run_node\<close> future under its timeout) is an argument: a function from the
  attempt number to its outcome.

  Main results: the attempts stop at the first success and otherwise use the whole retry
  budget; a result is only ever returned when it succeeded; the pauses between attempts are
  bounded.
\<close>

section \<open>Results of a node\<close>

record node_execution_result =
  res_node_id :: string
  res_role :: agent_role
  res_model :: string
  res_output :: string
  res_duration_ms :: nat
  res_succeeded :: bool
  res_error :: "string option"
  res_token_usage :: "token_usage option"

text \<open>The constructors; \<open>elapsed\<close> is \<^verbatim>\<open>started.elapsed().as_millis()\<close>.\<close>

definition result_success ::
    "string \<Rightarrow> agent_role \<Rightarrow> string \<Rightarrow> string \<Rightarrow> nat \<Rightarrow> node_execution_result" where
  "result_success i r model output elapsed = \<lparr>res_node_id = i, res_role = r, res_model = model,
     res_output = output, res_duration_ms = elapsed, res_succeeded = True, res_error = None,
     res_token_usage = None\<rparr>"

definition result_success_with_usage ::
    "string \<Rightarrow> agent_role \<Rightarrow> string \<Rightarrow> string \<Rightarrow> token_usage option \<Rightarrow> nat
      \<Rightarrow> node_execution_result" where
  "result_success_with_usage i r model output usage elapsed =
     (result_success i r model output elapsed)\<lparr>res_token_usage := usage\<rparr>"

definition result_failure ::
    "string \<Rightarrow> agent_role \<Rightarrow> string \<Rightarrow> string \<Rightarrow> nat \<Rightarrow> node_execution_result" where
  "result_failure i r model err elapsed = \<lparr>res_node_id = i, res_role = r, res_model = model,
     res_output = '''', res_duration_ms = elapsed, res_succeeded = False, res_error = Some err,
     res_token_usage = None\<rparr>"

definition result_failure_with_output ::
    "string \<Rightarrow> agent_role \<Rightarrow> string \<Rightarrow> string \<Rightarrow> string \<Rightarrow> nat \<Rightarrow> node_execution_result" where
  "result_failure_with_output i r model output err elapsed = \<lparr>res_node_id = i, res_role = r,
     res_model = model, res_output = output, res_duration_ms = elapsed, res_succeeded = False,
     res_error = Some err, res_token_usage = None\<rparr>"

section \<open>Attempts, retries, pauses\<close>

text \<open>One awaited attempt: a result, an error, or the timeout.\<close>

datatype attempt_outcome =
    Returned node_execution_result
  | Errored string
  | TimedOut

fun attempt_succeeded :: "attempt_outcome \<Rightarrow> bool" where
  "attempt_succeeded (Returned out) = res_succeeded out"
| "attempt_succeeded _ = False"

definition attempt_error :: "agent_node \<Rightarrow> attempt_outcome \<Rightarrow> string" where
  "attempt_error n a = (case a of
     Returned out \<Rightarrow> (case res_error out of Some e \<Rightarrow> e
       | None \<Rightarrow> ''node execution reported failure'')
   | Errored e \<Rightarrow> e
   | TimedOut \<Rightarrow> ''node '' @ node_id n @ '' timed out after ''
       @ show_nat (unat (timeout_ms (policy n))) @ ''ms'')"

text \<open>
  \<^verbatim>\<open>(1u64 << attempt).min(30)\<close>: the shift amount is taken modulo 64, as in a release build.
\<close>

definition backoff_secs :: "nat \<Rightarrow> u64" where
  "backoff_secs attempt = min (push_bit (attempt mod 64) 1) 30"

text \<open>
  The loop \<^verbatim>\<open>for attempt in 0..=retry\<close>. The answer holds the result, the pauses slept so far
  and the number of attempts made.
\<close>

function attempt_loop ::
    "agent_node \<Rightarrow> (nat \<Rightarrow> attempt_outcome) \<Rightarrow> nat \<Rightarrow> string option \<Rightarrow> u64 list
      \<Rightarrow> (string + node_execution_result) \<times> u64 list \<times> nat" where
  "attempt_loop n run attempt last_error slept =
     (if unat (retry (policy n)) < attempt
      then (Inl (case last_error of Some e \<Rightarrow> e | None \<Rightarrow> ''node execution failed''),
            slept, attempt)
      else (case run attempt of
        Returned out \<Rightarrow>
          if res_succeeded out then (Inr out, slept, Suc attempt)
          else attempt_loop n run (Suc attempt) (Some (attempt_error n (Returned out)))
            (if attempt < unat (retry (policy n)) then slept @ [backoff_secs attempt] else slept)
      | a \<Rightarrow> attempt_loop n run (Suc attempt) (Some (attempt_error n a))
            (if attempt < unat (retry (policy n)) then slept @ [backoff_secs attempt] else slept)))"
  by pat_completeness auto
termination
  by (relation "measure (\<lambda>(n, run, attempt, e, s). Suc (unat (retry (policy n))) - attempt)") auto

declare attempt_loop.simps [simp del]

definition execute_node_with_policy ::
    "agent_node \<Rightarrow> (nat \<Rightarrow> attempt_outcome) \<Rightarrow> string + node_execution_result" where
  "execute_node_with_policy n run = fst (attempt_loop n run 0 None [])"

definition attempts_made :: "agent_node \<Rightarrow> (nat \<Rightarrow> attempt_outcome) \<Rightarrow> nat" where
  "attempts_made n run = snd (snd (attempt_loop n run 0 None []))"

definition pauses_slept :: "agent_node \<Rightarrow> (nat \<Rightarrow> attempt_outcome) \<Rightarrow> u64 list" where
  "pauses_slept n run = fst (snd (attempt_loop n run 0 None []))"

section \<open>What the loop computes\<close>

lemma attempt_loop_step:
  assumes "k \<le> unat (retry (policy n))" "\<not> attempt_succeeded (run k)"
  shows "attempt_loop n run k e sl =
    attempt_loop n run (Suc k) (Some (attempt_error n (run k)))
      (if k < unat (retry (policy n)) then sl @ [backoff_secs k] else sl)"
  using assms by (subst attempt_loop.simps) (auto split: attempt_outcome.split)

lemma attempt_loop_success:
  assumes "k \<le> unat (retry (policy n))" "run k = Returned out" "res_succeeded out"
  shows "attempt_loop n run k e sl = (Inr out, sl, Suc k)"
  using assms by (subst attempt_loop.simps) simp

lemma attempt_loop_skip:
  assumes "k \<le> Suc (unat (retry (policy n)))" "\<forall>j<k. \<not> attempt_succeeded (run j)"
  shows "attempt_loop n run 0 None [] =
    attempt_loop n run k (if k = 0 then None else Some (attempt_error n (run (k - 1))))
      (map backoff_secs [0..<min k (unat (retry (policy n)))])"
  using assms
proof (induction k)
  case 0
  then show ?case by simp
next
  case (Suc k)
  then show ?case by (simp add: attempt_loop_step min_def)
qed

lemma first_success_cases:
  fixes n run
  defines "R \<equiv> unat (retry (policy n))"
  obtains (all_fail) "\<forall>j\<le>R. \<not> attempt_succeeded (run j)"
  | (first) k out where "k \<le> R" "run k = Returned out" "res_succeeded out"
      "\<forall>j<k. \<not> attempt_succeeded (run j)"
proof (cases "\<exists>k\<le>R. attempt_succeeded (run k)")
  case True
  define k where "k = (LEAST k. k \<le> R \<and> attempt_succeeded (run k))"
  from True have k: "k \<le> R \<and> attempt_succeeded (run k)"
    unfolding k_def by (metis (mono_tags, lifting) LeastI_ex)
  then obtain out where "run k = Returned out" "res_succeeded out" by (cases "run k") auto
  moreover have "\<not> attempt_succeeded (run j)" if "j < k" for j
    using not_less_Least [of j "\<lambda>k. k \<le> R \<and> attempt_succeeded (run k)"] that k
    unfolding k_def [symmetric] by auto
  ultimately show thesis using first k by blast
next
  case False
  then show thesis using all_fail by blast
qed

lemma loop_all_fail:
  assumes "\<forall>j\<le>unat (retry (policy n)). \<not> attempt_succeeded (run j)"
  shows "attempt_loop n run 0 None [] =
    (Inl (attempt_error n (run (unat (retry (policy n))))),
     map backoff_secs [0..<unat (retry (policy n))], Suc (unat (retry (policy n))))"
  using attempt_loop_skip [of "Suc (unat (retry (policy n)))" n run] assms
  by (simp add: attempt_loop.simps less_Suc_eq_le)

lemma loop_first:
  assumes "k \<le> unat (retry (policy n))" "run k = Returned out" "res_succeeded out"
    and "\<forall>j<k. \<not> attempt_succeeded (run j)"
  shows "attempt_loop n run 0 None [] = (Inr out, map backoff_secs [0..<k], Suc k)"
  using attempt_loop_skip [of k n run] assms attempt_loop_success [of k n run out]
  by (simp add: min_def)

lemma execute_Inr_succeeded: "execute_node_with_policy n run = Inr r \<Longrightarrow> res_succeeded r"
  by (rule first_success_cases [of n run])
    (auto simp: execute_node_with_policy_def loop_all_fail loop_first)

lemma backoff_secs_le: "unat (backoff_secs k) \<le> 30"
proof -
  have "backoff_secs k \<le> 30" by (simp add: backoff_secs_def)
  then show ?thesis by (simp add: word_le_nat_alt)
qed

section \<open>Properties\<close>

text \<open>
  The retry loop returns the first successful attempt of the first \<open>retry + 1\<close>, after
  exactly the pauses of the failed ones before it; with no success among them it makes all
  \<open>retry + 1\<close> attempts and fails with the error of the last one.
\<close>

theorem execute_node_with_policy_spec:
  defines "R \<equiv> \<lambda>n. unat (retry (policy n))"
  shows "(\<exists>k\<le>R n. \<exists>out. run k = Returned out \<and> res_succeeded out
            \<and> (\<forall>j<k. \<not> attempt_succeeded (run j))
            \<and> execute_node_with_policy n run = Inr out
            \<and> attempts_made n run = Suc k \<and> pauses_slept n run = map backoff_secs [0..<k])
       \<or> ((\<forall>j\<le>R n. \<not> attempt_succeeded (run j))
            \<and> execute_node_with_policy n run = Inl (attempt_error n (run (R n)))
            \<and> attempts_made n run = Suc (R n)
            \<and> pauses_slept n run = map backoff_secs [0..<R n])"
  unfolding R_def
  by (rule first_success_cases [of n run])
    (auto simp: execute_node_with_policy_def attempts_made_def pauses_slept_def
      loop_all_fail loop_first)

definition flaky_run :: "nat \<Rightarrow> attempt_outcome" where
  "flaky_run k = (if k = 0 then TimedOut
     else Returned (result_success ''a'' Coder ''mock'' ''ok'' 1))"

theorem execute_node_with_policy_spec_witness:
  "execute_node_with_policy (new_node ''a'' Coder ''x'') flaky_run
     = Inr (result_success ''a'' Coder ''mock'' ''ok'' 1)
   \<and> attempts_made (new_node ''a'' Coder ''x'') flaky_run = 2
   \<and> pauses_slept (new_node ''a'' Coder ''x'') flaky_run = [1]"
proof -
  have R: "unat (retry (policy (new_node ''a'' Coder ''x''))) = 1"
    by (simp add: new_node_def default_policy_def)
  have k1: "k = 1" if "k \<le> 1" "flaky_run k = Returned out" for k out
    using that by (cases k) (auto simp: flaky_run_def)
  have v1: "flaky_run 1 = Returned (result_success ''a'' Coder ''mock'' ''ok'' 1)"
    and f1: "attempt_succeeded (flaky_run 1)"
    by (simp_all add: flaky_run_def result_success_def)
  show ?thesis
    using execute_node_with_policy_spec [of "new_node ''a'' Coder ''x''" flaky_run]
    unfolding R
  proof (elim disjE exE conjE)
    fix k out
    assume h: "k \<le> 1" "flaky_run k = Returned out"
      "execute_node_with_policy (new_node ''a'' Coder ''x'') flaky_run = Inr out"
      "attempts_made (new_node ''a'' Coder ''x'') flaky_run = Suc k"
      "pauses_slept (new_node ''a'' Coder ''x'') flaky_run = map backoff_secs [0..<k]"
    from k1 [OF h(1,2)] have "k = 1" .
    with h v1 show ?thesis by (simp add: backoff_secs_def)
  next
    assume "\<forall>j\<le>1. \<not> attempt_succeeded (flaky_run j)"
    with f1 show ?thesis by blast
  qed
qed

text \<open>
  A node whose body reports failure never comes back as a result: whatever the policy
  returns as a result succeeded, so a reported failure reaches the run loop as an error only.
\<close>

theorem result_is_success:
  "execute_node_with_policy n run = Inr r \<Longrightarrow> res_succeeded r"
  by (rule execute_Inr_succeeded)

theorem result_is_success_witness:
  "res_succeeded (result_success ''a'' Coder ''mock'' ''ok'' 1)"
proof (rule result_is_success)
  show "execute_node_with_policy (new_node ''a'' Coder ''x'')
      (\<lambda>_. Returned (result_success ''a'' Coder ''mock'' ''ok'' 1))
    = Inr (result_success ''a'' Coder ''mock'' ''ok'' 1)"
    by (simp add: execute_node_with_policy_def attempt_loop.simps result_success_def)
qed

end
