(* ===== verification/Runtime.thy ===== *)
theory Runtime
  imports Node_Policy
begin

text \<open>
  The scheduler of \<^verbatim>\<open>src/runtime/mod.rs\<close>: \<^verbatim>\<open>select_next_node\<close>, \<^verbatim>\<open>is_runnable\<close>,
  \<^verbatim>\<open>resolve_blocked_nodes\<close> and the run loop of \<^verbatim>\<open>execute_graph_with_pause_notify\<close>.

  One pass of the outer \<^verbatim>\<open>loop\<close> is a function \<open>loop_iter\<close> of the loop's state and of what the
  environment decides in that pass: the cancel and pause flags, which task of the
  \<^verbatim>\<open>JoinSet\<close> finishes and what its attempts did, and what the completion callback answers.
  The callbacks run arbitrary code (models, tools, the orchestrator), so these answers are
  unconstrained.
\<close>

section \<open>Events\<close>

text \<open>
  \<^verbatim>\<open>RuntimeEvent\<close>. The run loop itself emits the first five and \<open>GraphCompleted\<close>; the others
  are sent by the bodies of the nodes.
\<close>

record coder_file_changed =
  cfc_path :: string
  cfc_change_type :: string
  cfc_diff_preview :: "string option"

datatype runtime_event =
    NodeStarted string agent_role "string option"
  | NodeCompleted string agent_role string nat string bool "token_usage option" "string option"
  | NodeFailed string agent_role string "string option"
  | NodeSkipped string string
  | DynamicNodeAdded string string agent_role "string list" "string option"
  | NodeTokenChunk string agent_role string u64
  | CoderSessionStarted string string string
  | CoderOutputChunk string string string string
  | CoderFileChanged string string coder_file_changed
  | CoderSessionCompleted string string "coder_file_changed list" "32 word"
  | GraphCompleted
  | ValidationCompleted string string bool
  | GitCommitCreated string string string bool
  | RepoCloned string string bool
  | RepoAnalyzed string string nat
  | InteractiveStep string nat string string string
  | GitHubActivity string string string "int option" "string option" string

definition node_output_preview_chars :: nat where
  "node_output_preview_chars = 8192"

text \<open>\<^verbatim>\<open>truncate_for_event\<close>, over the characters of the value.\<close>

fun truncate_loop :: "'c list \<Rightarrow> nat \<Rightarrow> 'c list \<Rightarrow> nat \<Rightarrow> 'c list \<times> bool" where
  "truncate_loop [] max_chars out seen = (out, False)"
| "truncate_loop (ch # chars) max_chars out seen =
     (if max_chars \<le> seen then (out, True)
      else truncate_loop chars max_chars (out @ [ch]) (Suc seen))"

definition truncate_for_event :: "'c list \<Rightarrow> nat \<Rightarrow> 'c list \<times> bool" where
  "truncate_for_event value max_chars = truncate_loop value max_chars [] 0"

lemma truncate_loop_eq:
  "seen \<le> m \<Longrightarrow> truncate_loop cs m out seen
     = (out @ take (m - seen) cs, m - seen < length cs)"
proof (induction cs arbitrary: out seen)
  case Nil
  then show ?case by simp
next
  case (Cons c cs)
  show ?case
  proof (cases "m = seen")
    case False
    with Cons.prems have "m - seen = Suc (m - Suc seen)" by simp
    with False Cons show ?thesis by simp
  qed simp
qed

section \<open>Which node may run\<close>

datatype dep_resolution = Ready | Blocked | FailFastDep string | FallbackDep string

fun node_status_debug :: "node_status \<Rightarrow> string" where
  "node_status_debug Pending = ''Pending''"
| "node_status_debug Running = ''Running''"
| "node_status_debug Succeeded = ''Succeeded''"
| "node_status_debug Failed = ''Failed''"
| "node_status_debug Skipped = ''Skipped''"

definition dep_reason :: "string \<Rightarrow> node_status \<Rightarrow> string" where
  "dep_reason d st = ''dependency '' @ d @ '' state is '' @ node_status_debug st"

text \<open>The loop over the dependency states in \<^verbatim>\<open>is_runnable\<close>.\<close>

fun check_dep_states ::
    "dependency_failure_policy \<Rightarrow> (string \<times> node_status) list \<Rightarrow> dep_resolution" where
  "check_dep_states pol [] = Ready"
| "check_dep_states pol ((d, st) # ds) =
     (case st of
        Succeeded \<Rightarrow> check_dep_states pol ds
      | Pending \<Rightarrow> Blocked
      | Running \<Rightarrow> Blocked
      | _ \<Rightarrow> (case pol of
          ContinueOnError \<Rightarrow> check_dep_states pol ds
        | FailFast \<Rightarrow> FailFastDep (dep_reason d st)
        | FallbackNode \<Rightarrow> FallbackDep (dep_reason d st)))"

definition is_runnable :: "execution_graph \<Rightarrow> agent_node \<Rightarrow> dep_resolution" where
  "is_runnable g n =
     (if is_forced_ready g (node_id n) then Ready
      else if is_fallback_only g (node_id n) then Blocked
      else check_dep_states (on_dependency_failure (policy n)) (dep_statuses g n))"

definition role_count :: "(agent_role, nat) hashmap \<Rightarrow> agent_role \<Rightarrow> nat" where
  "role_count m r = (case hm_get m r of None \<Rightarrow> 0 | Some c \<Rightarrow> c)"

text \<open>\<^verbatim>\<open>if let Some(fb) = fallback { graph.force_ready(fb) }\<close>.\<close>

definition force_fallback :: "execution_graph \<Rightarrow> agent_node \<Rightarrow> execution_graph" where
  "force_fallback g n =
     (case fallback_node (policy n) of Some fb \<Rightarrow> force_ready g fb | None \<Rightarrow> g)"

definition fail_fast_message :: "string \<Rightarrow> string \<Rightarrow> string" where
  "fail_fast_message i reason =
     ''node '' @ i @ '' skipped due to fail-fast dependency policy: '' @ reason"

text \<open>The loop over the pending nodes in \<^verbatim>\<open>select_next_node\<close>, which may change the graph.\<close>

fun select_loop ::
    "execution_graph \<Rightarrow> string list \<Rightarrow> (agent_role, nat) hashmap \<Rightarrow> agent_node list
      \<Rightarrow> (string + agent_node option) \<times> execution_graph" where
  "select_loop g running by_role [] = (Inr None, g)"
| "select_loop g running by_role (n # ns) =
     (if node_id n \<in> set running then select_loop g running by_role ns
      else if max (max_parallelism (policy n)) 1 \<le> role_count by_role (role n)
      then select_loop g running by_role ns
      else (case is_runnable g n of
        Ready \<Rightarrow> (Inr (Some n), clear_forced_ready g (node_id n))
      | Blocked \<Rightarrow> select_loop g running by_role ns
      | FailFastDep reason \<Rightarrow>
          (Inl (fail_fast_message (node_id n) reason), set_status g (node_id n) Skipped)
      | FallbackDep reason \<Rightarrow>
          select_loop (force_fallback (set_status g (node_id n) Skipped) n) running by_role ns))"

definition select_next_node ::
    "execution_graph \<Rightarrow> string list \<Rightarrow> (agent_role, nat) hashmap
      \<Rightarrow> (string + agent_node option) \<times> execution_graph" where
  "select_next_node g running by_role =
     select_loop g running by_role (sort_key node_id (pending_nodes g))"

text \<open>The answer names a node that is not running, which bounds the launches of one pass.\<close>

lemma select_loop_fresh:
  "select_loop g running by_role ns = (Inr (Some n), g') \<Longrightarrow> node_id n \<notin> set running"
  by (induction g running by_role ns rule: select_loop.induct)
    (auto split: if_splits dep_resolution.splits)

lemma select_next_fresh:
  "select_next_node g running by_role = (Inr (Some n), g') \<Longrightarrow> node_id n \<notin> set running"
  by (auto simp: select_next_node_def dest: select_loop_fresh)

section \<open>The state of the run loop\<close>

text \<open>
  The local variables of the loop. \<open>rt_joins\<close> is the \<^verbatim>\<open>JoinSet\<close>: the spawned tasks, each with
  the dependency outputs it was given. \<open>rt_events\<close> is what the event sink received.
\<close>

record rt_state =
  rt_graph :: execution_graph
  rt_outputs :: "(string, node_execution_result) hashmap"
  rt_running :: "string list"
  rt_by_role :: "(agent_role, nat) hashmap"
  rt_failures :: "(string, u8) hashmap"
  rt_joins :: "(agent_node \<times> node_execution_result list) list"
  rt_events :: "runtime_event list"

definition start_state :: "execution_graph \<Rightarrow> rt_state" where
  "start_state g = \<lparr>rt_graph = g, rt_outputs = [], rt_running = [], rt_by_role = [],
     rt_failures = [], rt_joins = [], rt_events = []\<rparr>"

text \<open>\<^verbatim>\<open>AgentRuntime::new\<close>.\<close>

definition effective_parallelism :: "nat \<Rightarrow> nat" where
  "effective_parallelism requested = max requested 1"

definition emit :: "rt_state \<Rightarrow> runtime_event \<Rightarrow> rt_state" where
  "emit s e = s\<lparr>rt_events := rt_events s @ [e]\<rparr>"

text \<open>Starting the selected node.\<close>

definition launch :: "rt_state \<Rightarrow> agent_node \<Rightarrow> rt_state" where
  "launch s n =
     (let dep_outputs = List.map_filter (hm_get (rt_outputs s)) (dependencies n);
          s1 = s\<lparr>rt_graph := set_status (rt_graph s) (node_id n) Running,
                 rt_running := List.insert (node_id n) (rt_running s),
                 rt_by_role := hm_insert (rt_by_role s) (role n) (Suc (role_count (rt_by_role s) (role n)))\<rparr>;
          s2 = emit s1 (NodeStarted (node_id n) (role n) (assigned_persona n))
      in s2\<lparr>rt_joins := rt_joins s2 @ [(n, dep_outputs)]\<rparr>)"

text \<open>
  The inner \<^verbatim>\<open>while\<close>: select and launch until the limit is reached or nothing is ready. The
  answer is \<^verbatim>\<open>launched_any\<close>, or the error of \<^verbatim>\<open>select_next_node\<close>.
\<close>

function launch_loop :: "nat \<Rightarrow> bool \<Rightarrow> rt_state \<Rightarrow> (string + bool) \<times> rt_state" where
  "launch_loop mx launched s =
     (if length (rt_running s) < mx
      then (case select_next_node (rt_graph s) (rt_running s) (rt_by_role s) of
          (Inl e, g) \<Rightarrow> (Inl e, s\<lparr>rt_graph := g\<rparr>)
        | (Inr None, g) \<Rightarrow> (Inr launched, s\<lparr>rt_graph := g\<rparr>)
        | (Inr (Some n), g) \<Rightarrow> launch_loop mx True (launch (s\<lparr>rt_graph := g\<rparr>) n))
      else (Inr launched, s))"
  by pat_completeness auto
termination
  by (relation "measure (\<lambda>(mx, l, s). mx - length (rt_running s))")
    (auto simp: launch_def emit_def Let_def dest!: sym [of "(Inr (Some _), _)"] select_next_fresh)

declare launch_loop.simps [simp del]

section \<open>A task finishes\<close>

text \<open>The fallback of a node that succeeded is skipped unless it was forced.\<close>

definition skip_unneeded_fallback :: "rt_state \<Rightarrow> agent_node \<Rightarrow> rt_state" where
  "skip_unneeded_fallback s n =
     (case fallback_node (policy n) of
        None \<Rightarrow> s
      | Some fb \<Rightarrow>
          if is_fallback_only (rt_graph s) fb \<and> \<not> is_forced_ready (rt_graph s) fb
          then emit (s\<lparr>rt_graph := set_status (rt_graph s) fb Skipped\<rparr>)
                 (NodeSkipped fb ''parent_succeeded'')
          else s)"

fun skip_superseded :: "rt_state \<Rightarrow> string list \<Rightarrow> rt_state" where
  "skip_superseded s [] = s"
| "skip_superseded s (i # is) =
     (if status (rt_graph s) i = Some Pending
      then skip_superseded (emit (s\<lparr>rt_graph := set_status (rt_graph s) i Skipped\<rparr>)
             (NodeSkipped i ''superseded_by_subtask_plan'')) is
      else skip_superseded s is)"

definition show_graph_error :: "graph_error \<Rightarrow> string" where
  "show_graph_error e = (case e of
     DuplicateNode i \<Rightarrow> ''duplicate node id '' @ i
   | DepthExceeded i d m \<Rightarrow> ''node '' @ i @ '' depth '' @ show_nat (unat d)
       @ '' exceeds max depth '' @ show_nat (unat m)
   | SelfDependency i \<Rightarrow> ''node '' @ i @ '' cannot depend on itself''
   | MissingDependency i d \<Rightarrow> ''node '' @ i @ '' dependency '' @ d @ '' does not exist in graph''
   | IntroducesCycle i \<Rightarrow> ''adding node '' @ i @ '' introduces cycle'')"

fun add_dynamic_nodes :: "rt_state \<Rightarrow> string \<Rightarrow> agent_node list \<Rightarrow> (string + unit) \<times> rt_state" where
  "add_dynamic_nodes s from_node [] = (Inr (), s)"
| "add_dynamic_nodes s from_node (d # ds) =
     (case add_node (rt_graph s) d of
        (Inl e, g) \<Rightarrow> (Inl (show_graph_error e), s\<lparr>rt_graph := g\<rparr>)
      | (Inr u, g) \<Rightarrow>
          add_dynamic_nodes
            (emit (s\<lparr>rt_graph := g\<rparr>)
              (DynamicNodeAdded (node_id d) from_node (role d) (dependencies d)
                (Option.bind (node g (node_id d)) assigned_persona)))
            from_node ds)"

text \<open>The branch of a result that succeeded; \<open>oc\<close> is the answer of the completion callback.\<close>

definition handle_success ::
    "rt_state \<Rightarrow> agent_node \<Rightarrow> node_execution_result \<Rightarrow> string + agent_node list \<times> string list
      \<Rightarrow> (string + unit) \<times> rt_state" where
  "handle_success s n ok oc =
     (let s1 = s\<lparr>rt_graph := set_status (rt_graph s) (node_id n) Succeeded,
                 rt_outputs := hm_insert (rt_outputs s) (node_id n) ok\<rparr>;
          (preview, truncated) = truncate_for_event (res_output ok) node_output_preview_chars;
          s2 = emit s1 (NodeCompleted (node_id n) (role n) (res_model ok) (res_duration_ms ok)
                 preview truncated (res_token_usage ok) (assigned_persona n));
          s3 = skip_unneeded_fallback s2 n
      in (case oc of
            Inl e \<Rightarrow> (Inl e, s3)
          | Inr (dynamic_nodes, skip_ids) \<Rightarrow>
              add_dynamic_nodes (skip_superseded s3 skip_ids) (node_id n) dynamic_nodes))"

text \<open>The branch of a result that reports failure, with the circuit breaker.\<close>

definition handle_failed :: "rt_state \<Rightarrow> agent_node \<Rightarrow> node_execution_result \<Rightarrow> rt_state" where
  "handle_failed s n failed =
     (let s1 = s\<lparr>rt_graph := set_status (rt_graph s) (node_id n) Failed,
                 rt_outputs := hm_insert (rt_outputs s) (node_id n) failed\<rparr>;
          s2 = (case res_error failed of
                  Some err \<Rightarrow> emit s1 (NodeFailed (node_id n) (role n) err (assigned_persona n))
                | None \<Rightarrow> s1);
          s3 = s2\<lparr>rt_graph := force_fallback (rt_graph s2) n\<rparr>;
          entry = sat_add (case hm_get (rt_failures s3) (node_id n) of Some c \<Rightarrow> c | None \<Rightarrow> 0) 1;
          s4 = s3\<lparr>rt_failures := hm_insert (rt_failures s3) (node_id n) entry\<rparr>
      in if 0 < circuit_breaker (policy n) \<and> circuit_breaker (policy n) \<le> entry
         then s4\<lparr>rt_graph := mark_dependents_pending_as_skipped (rt_graph s4) (node_id n)\<rparr>
         else s4)"

text \<open>The branch of an error.\<close>

definition error_result :: "agent_node \<Rightarrow> string \<Rightarrow> node_execution_result" where
  "error_result n err = \<lparr>res_node_id = node_id n, res_role = role n, res_model = ''unknown'',
     res_output = '''', res_duration_ms = 0, res_succeeded = False, res_error = Some err,
     res_token_usage = None\<rparr>"

definition handle_error :: "rt_state \<Rightarrow> agent_node \<Rightarrow> string \<Rightarrow> rt_state" where
  "handle_error s n err =
     (let s1 = s\<lparr>rt_graph := set_status (rt_graph s) (node_id n) Failed,
                 rt_outputs := hm_insert (rt_outputs s) (node_id n) (error_result n err)\<rparr>;
          s2 = emit s1 (NodeFailed (node_id n) (role n) err (assigned_persona n))
      in s2\<lparr>rt_graph := force_fallback (rt_graph s2) n\<rparr>)"

text \<open>
  The part after \<^verbatim>\<open>join_next\<close>: the task leaves the running set, then the three branches of
  the \<^verbatim>\<open>match\<close>.
\<close>

definition leave_running :: "rt_state \<Rightarrow> agent_node \<Rightarrow> rt_state" where
  "leave_running s n = s\<lparr>rt_running := removeAll (node_id n) (rt_running s),
     rt_by_role := hm_modify (rt_by_role s) (role n) (\<lambda>c. c - 1)\<rparr>"

definition handle_joined ::
    "rt_state \<Rightarrow> agent_node \<Rightarrow> string + node_execution_result
      \<Rightarrow> string + agent_node list \<times> string list \<Rightarrow> (string + unit) \<times> rt_state" where
  "handle_joined s n result oc =
     (let s1 = leave_running s n in
      case result of
        Inr ok \<Rightarrow> if res_succeeded ok then handle_success s1 n ok oc
                  else (Inr (), handle_failed s1 n ok)
      | Inl err \<Rightarrow> (Inr (), handle_error s1 n err))"

section \<open>Nothing runs\<close>

text \<open>\<^verbatim>\<open>resolve_blocked_nodes\<close>: the loop over the snapshot of the pending nodes.\<close>

definition has_unresolved :: "(string \<times> node_status) list \<Rightarrow> bool" where
  "has_unresolved deps \<longleftrightarrow> list_ex (\<lambda>(d, st). \<not> is_terminal st) deps"

definition has_failed_deps :: "(string \<times> node_status) list \<Rightarrow> bool" where
  "has_failed_deps deps \<longleftrightarrow> list_ex (\<lambda>(d, st). st = Failed \<or> st = Skipped) deps"

fun resolve_loop :: "rt_state \<Rightarrow> bool \<Rightarrow> agent_node list \<Rightarrow> bool \<times> rt_state" where
  "resolve_loop s progressed [] = (progressed, s)"
| "resolve_loop s progressed (n # ns) =
     (let deps = dep_statuses (rt_graph s) n in
      if has_unresolved deps \<or> \<not> has_failed_deps deps then resolve_loop s progressed ns
      else (case on_dependency_failure (policy n) of
        ContinueOnError \<Rightarrow>
          resolve_loop (s\<lparr>rt_graph := force_ready (rt_graph s) (node_id n)\<rparr>) True ns
      | FailFast \<Rightarrow>
          resolve_loop (emit (s\<lparr>rt_graph := set_status (rt_graph s) (node_id n) Skipped\<rparr>)
            (NodeSkipped (node_id n) ''dependency failed (fail-fast)'')) True ns
      | FallbackNode \<Rightarrow>
          resolve_loop (emit (s\<lparr>rt_graph :=
              force_fallback (set_status (rt_graph s) (node_id n) Skipped) n\<rparr>)
            (NodeSkipped (node_id n) ''dependency failed (fallback-node)'')) True ns))"

definition resolve_blocked_nodes :: "rt_state \<Rightarrow> bool \<times> rt_state" where
  "resolve_blocked_nodes s = resolve_loop s False (pending_nodes (rt_graph s))"

fun skip_cancelled :: "rt_state \<Rightarrow> agent_node list \<Rightarrow> rt_state" where
  "skip_cancelled s [] = s"
| "skip_cancelled s (n # ns) =
     skip_cancelled (emit (s\<lparr>rt_graph := set_status (rt_graph s) (node_id n) Skipped\<rparr>)
       (NodeSkipped (node_id n) ''cancel_requested'')) ns"

section \<open>One pass of the loop\<close>

text \<open>
  The environment's choices of a pass. \<open>li_join\<close> is what \<^verbatim>\<open>join_next\<close> reports: the task that
  finished (a number, taken modulo the number of tasks in flight) and what its attempts did,
  or the panic of a task.
\<close>

record loop_input =
  li_cancel :: bool
  li_pause :: bool
  li_join :: "string + nat \<times> (nat \<Rightarrow> attempt_outcome)"
  li_completed :: "string + agent_node list \<times> string list"

datatype loop_outcome =
    Continue rt_state
  | Finished "node_execution_result list" rt_state
  | Aborted string rt_state

definition finish :: "rt_state \<Rightarrow> loop_outcome" where
  "finish s = Finished (sort_key res_node_id (hm_values (rt_outputs s))) (emit s GraphCompleted)"

definition deadlock_message :: string where
  "deadlock_message =
     ''graph reached deadlock: unresolved dependencies or inconsistent state''"

definition idle_step :: "loop_input \<Rightarrow> rt_state \<Rightarrow> loop_outcome" where
  "idle_step inp s =
     (if li_cancel inp then finish (skip_cancelled s (pending_nodes (rt_graph s)))
      else if li_pause inp then Continue s
      else if all_terminal (rt_graph s) then finish s
      else (case resolve_blocked_nodes s of
              (progressed, s') \<Rightarrow> if progressed then Continue s' else Aborted deadlock_message s'))"

definition take_task :: "nat \<Rightarrow> rt_state \<Rightarrow> agent_node \<times> rt_state" where
  "take_task k s = (let i = k mod length (rt_joins s) in
     (fst (rt_joins s ! i), s\<lparr>rt_joins := take i (rt_joins s) @ drop (Suc i) (rt_joins s)\<rparr>))"

definition join_step :: "loop_input \<Rightarrow> rt_state \<Rightarrow> loop_outcome" where
  "join_step inp s =
     (if rt_joins s = [] then Continue s
      else (case li_join inp of
        Inl panic \<Rightarrow> Aborted panic s
      | Inr (k, run) \<Rightarrow>
          (case take_task k s of (n, s1) \<Rightarrow>
            (case handle_joined s1 n (execute_node_with_policy n run) (li_completed inp) of
                (Inl e, s2) \<Rightarrow> Aborted e s2
              | (Inr u, s2) \<Rightarrow> Continue s2))))"

definition loop_iter :: "nat \<Rightarrow> loop_input \<Rightarrow> rt_state \<Rightarrow> loop_outcome" where
  "loop_iter mx inp s =
     (case (if \<not> li_cancel inp \<and> \<not> li_pause inp then launch_loop mx False s
            else (Inr False, s)) of
        (Inl e, s1) \<Rightarrow> Aborted e s1
      | (Inr launched, s1) \<Rightarrow>
          if rt_running s1 = [] \<and> \<not> launched then idle_step inp s1 else join_step inp s1)"

text \<open>The whole run, for the environment's choices of its first passes.\<close>

fun run_loop :: "nat \<Rightarrow> loop_input list \<Rightarrow> rt_state \<Rightarrow> loop_outcome" where
  "run_loop mx [] s = Continue s"
| "run_loop mx (inp # inps) s =
     (case loop_iter mx inp s of Continue s' \<Rightarrow> run_loop mx inps s' | out \<Rightarrow> out)"

definition execute_graph :: "nat \<Rightarrow> loop_input list \<Rightarrow> execution_graph \<Rightarrow> loop_outcome" where
  "execute_graph requested inps g =
     run_loop (effective_parallelism requested) inps (start_state g)"

end
