(* ===== verification/Run_Invariant.thy ===== *)
theory Run_Invariant
  imports Runtime
begin

text \<open>
  The invariant of the run loop of \<^verbatim>\<open>src/runtime/mod.rs\<close> and what follows from it: the
  running set, the \<^verbatim>\<open>JoinSet\<close>, the counters per role and the node statuses agree in every
  state between two passes; no node is started twice; the limits on parallelism hold.

  Most operations only mark nodes as skipped or force them ready. \<open>quiet\<close> captures what they
  all do to the graph, and the invariant is proved stable under it once.
\<close>

section \<open>Graph changes that only skip\<close>

definition quiet :: "execution_graph \<Rightarrow> execution_graph \<Rightarrow> bool" where
  "quiet g g' \<longleftrightarrow> nodes g' = nodes g \<and> fallback_only g' = fallback_only g
     \<and> max_depth g' = max_depth g \<and> graph_wf g'
     \<and> (\<forall>i. status g' i = status g i \<or> status g i \<noteq> None \<and> status g' i = Some Skipped)"

named_theorems quiet_intros \<open>operations that only skip nodes or force them ready\<close>

lemma quiet_refl [quiet_intros]: "graph_wf g \<Longrightarrow> quiet g g"
  by (simp add: quiet_def)

lemma quiet_wf: "quiet g g' \<Longrightarrow> graph_wf g'"
  by (simp add: quiet_def)

lemma quiet_trans: "quiet g g' \<Longrightarrow> quiet g' g'' \<Longrightarrow> quiet g g''"
  unfolding quiet_def by (elim conjE) (intro conjI allI; metis option.discI)

lemma quiet_skip [quiet_intros]: "graph_wf g \<Longrightarrow> quiet g (set_status g i Skipped)"
  by (auto simp: quiet_def wf_intros status_set_status)
    (auto simp: set_status_def)

lemma status_force_ready [simp]: "status (force_ready g i) j = status g j"
  by (simp add: status_def force_ready_def)

lemma status_clear_forced [simp]: "status (clear_forced_ready g i) j = status g j"
  by (simp add: status_def clear_forced_ready_def)

lemma quiet_force_ready [quiet_intros]: "graph_wf g \<Longrightarrow> quiet g (force_ready g i)"
  by (simp add: quiet_def wf_intros) (simp add: force_ready_def)

lemma quiet_clear [quiet_intros]: "graph_wf g \<Longrightarrow> quiet g (clear_forced_ready g i)"
  by (simp add: quiet_def wf_intros) (simp add: clear_forced_ready_def)

lemma quiet_force_fallback [quiet_intros]: "graph_wf g \<Longrightarrow> quiet g (force_fallback g n)"
  by (simp add: force_fallback_def quiet_intros split: option.split)

lemma quiet_status: "quiet g g' \<Longrightarrow> status g i = Some st \<Longrightarrow>
    status g' i = Some st \<or> status g' i = Some Skipped"
  unfolding quiet_def by metis

lemma quiet_status_rev: "quiet g g' \<Longrightarrow> status g' i = Some st \<Longrightarrow> st \<noteq> Skipped \<Longrightarrow>
    status g i = Some st"
  unfolding quiet_def by (metis option.inject)

lemma quiet_node: "quiet g g' \<Longrightarrow> node g' i = node g i"
  by (simp add: quiet_def node_def)

section \<open>Selecting\<close>

lemma select_loop_quiet:
  "graph_wf g \<Longrightarrow> select_loop g running by_role ns = (r, g') \<Longrightarrow> quiet g g'"
proof (induction g running by_role ns arbitrary: r g' rule: select_loop.induct)
  case (1 g running by_role)
  then show ?case by (simp add: quiet_intros)
next
  case (2 g running by_role n ns)
  let ?g1 = "force_fallback (set_status g (node_id n) Skipped) n"
  have q: "quiet g ?g1"
    using 2(5) by (meson quiet_force_fallback quiet_skip quiet_trans quiet_wf)
  show ?case
  proof (cases "is_runnable g n")
    case (FallbackDep reason)
    with 2 q show ?thesis
      by (auto split: if_splits intro: quiet_trans quiet_wf)
  qed (use 2 in \<open>auto simp: quiet_intros split: if_splits\<close>)
qed

lemma select_next_quiet:
  "graph_wf g \<Longrightarrow> select_next_node g running by_role = (r, g') \<Longrightarrow> quiet g g'"
  by (auto simp: select_next_node_def dest: select_loop_quiet)

text \<open>What is known of the node the selection answers.\<close>

lemma select_loop_Some:
  assumes "graph_wf g" "select_loop g running by_role ns = (Inr (Some n), g')" "distinct (map node_id ns)"
    "\<forall>m\<in>set ns. status g (node_id m) = Some Pending"
  shows "n \<in> set ns \<and> status g' (node_id n) = Some Pending \<and> node_id n \<notin> set running
    \<and> role_count by_role (role n) < max (max_parallelism (policy n)) 1
    \<and> (\<exists>g0. quiet g g0 \<and> is_runnable g0 n = Ready \<and> g' = clear_forced_ready g0 (node_id n))"
  using assms
proof (induction g running by_role ns arbitrary: g' rule: select_loop.induct)
  case (1 g running by_role)
  then show ?case by simp
next
  case (2 g running by_role m ns)
  let ?g1 = "force_fallback (set_status g (node_id m) Skipped) m"
  have q: "quiet g ?g1"
    using 2(5) by (meson quiet_force_fallback quiet_skip quiet_trans quiet_wf)
  show ?case
  proof (cases "node_id m \<in> set running \<or>
      max (max_parallelism (policy m)) 1 \<le> role_count by_role (role m) \<or> is_runnable g m = Blocked")
    case True
    with 2 show ?thesis by (auto split: if_splits)
  next
    case False
    show ?thesis
    proof (cases "is_runnable g m")
      case Ready
      with 2(5-8) False show ?thesis
        by (auto simp: not_le intro!: exI [of _ g] quiet_intros)
    next
      case (FallbackDep reason)
      have wf: "graph_wf ?g1" using q by (rule quiet_wf)
      have sel: "select_loop ?g1 running by_role ns = (Inr (Some n), g')"
        using 2(6) False FallbackDep by auto
      have "\<forall>k\<in>set ns. status ?g1 (node_id k) = Some Pending"
        using 2(7,8) by (auto simp: force_fallback_def status_set_status split: option.split) (metis imageI)+
      with 2(4) [OF _ _ FallbackDep wf sel] False 2(7)
      have "n \<in> set ns \<and> status g' (node_id n) = Some Pending \<and> node_id n \<notin> set running
        \<and> role_count by_role (role n) < max (max_parallelism (policy n)) 1
        \<and> (\<exists>g0. quiet ?g1 g0 \<and> is_runnable g0 n = Ready \<and> g' = clear_forced_ready g0 (node_id n))"
        by auto
      with q show ?thesis by (auto intro: quiet_trans)
    qed (use 2(6) False in auto)
  qed
qed

lemma distinct_pending: "graph_wf g \<Longrightarrow> distinct (map node_id (pending_nodes g))"
proof -
  assume wf: "graph_wf g"
  have "map node_id (hm_values (nodes g)) = hm_keys (nodes g)"
    using wf by (auto simp: hm_values_def hm_keys_def graph_wf_def hm_get_iff_mem)
  then have "distinct (map node_id (hm_values (nodes g)))" using wf by (simp add: graph_wf_def hm_wf_def)
  then show ?thesis by (simp add: pending_nodes_def distinct_map_filter)
qed

lemma distinct_map_sort_key: "distinct (map f (sort_key f xs)) \<longleftrightarrow> distinct (map f xs)"
  by (metis mset_map mset_sort mset_eq_imp_distinct_iff)

lemma select_next_Some:
  assumes "graph_wf g" "select_next_node g running by_role = (Inr (Some n), g')"
  shows "node g (node_id n) = Some n" "status g (node_id n) = Some Pending"
    "status g' (node_id n) = Some Pending"
    "node_id n \<notin> set running" "role_count by_role (role n) < max (max_parallelism (policy n)) 1"
    "\<exists>g0. quiet g g0 \<and> is_runnable g0 n = Ready \<and> g' = clear_forced_ready g0 (node_id n)"
proof -
  have "distinct (map node_id (sort_key node_id (pending_nodes g)))"
    using distinct_pending [OF assms(1)] by (simp only: distinct_map_sort_key)
  then have *: "n \<in> set (pending_nodes g) \<and> status g' (node_id n) = Some Pending \<and> node_id n \<notin> set running
    \<and> role_count by_role (role n) < max (max_parallelism (policy n)) 1
    \<and> (\<exists>g0. quiet g g0 \<and> is_runnable g0 n = Ready \<and> g' = clear_forced_ready g0 (node_id n))"
    using select_loop_Some [OF assms(1) assms(2) [unfolded select_next_node_def]]
    by (simp add: pending_nodes_iff [OF assms(1)])
  then show "status g' (node_id n) = Some Pending" "node_id n \<notin> set running" "role_count by_role (role n) < max (max_parallelism (policy n)) 1"
    "\<exists>g0. quiet g g0 \<and> is_runnable g0 n = Ready \<and> g' = clear_forced_ready g0 (node_id n)" by auto
  from * show "node g (node_id n) = Some n" "status g (node_id n) = Some Pending"
    by (auto simp: pending_nodes_iff [OF assms(1)])
qed

section \<open>The invariant\<close>

text \<open>The nodes whose start was reported, in order.\<close>

fun started_of :: "runtime_event \<Rightarrow> string option" where
  "started_of (NodeStarted i r p) = Some i"
| "started_of _ = None"

definition started :: "rt_state \<Rightarrow> string list" where
  "started s = List.map_filter started_of (rt_events s)"

definition tasks :: "rt_state \<Rightarrow> agent_node list" where
  "tasks s = map fst (rt_joins s)"

definition running_of_role :: "agent_role \<Rightarrow> agent_node list \<Rightarrow> nat" where
  "running_of_role r ns = length (filter (\<lambda>n. role n = r) ns)"

text \<open>
  Each task was within the limit of its own node when it was launched: fewer tasks of its role
  than that limit were launched before it and are still there (latest task first).
\<close>

fun caps_ok :: "agent_node list \<Rightarrow> bool" where
  "caps_ok [] = True"
| "caps_ok (n # ns) \<longleftrightarrow> running_of_role (role n) ns < max (max_parallelism (policy n)) 1 \<and> caps_ok ns"

definition tasks_ok :: "nat \<Rightarrow> rt_state \<Rightarrow> bool" where
  "tasks_ok mx s \<longleftrightarrow> distinct (rt_running s) \<and> mset (rt_running s) = mset (map node_id (tasks s))
     \<and> length (rt_running s) \<le> mx
     \<and> (\<forall>r. role_count (rt_by_role s) r = running_of_role r (tasks s))
     \<and> caps_ok (rev (tasks s))
     \<and> (\<forall>n\<in>set (tasks s). node (rt_graph s) (node_id n) = Some n)"

definition status_ok :: "rt_state \<Rightarrow> bool" where
  "status_ok s \<longleftrightarrow> distinct (started s) \<and> set (rt_running s) \<subseteq> set (started s)
     \<and> (\<forall>i\<in>set (rt_running s). status (rt_graph s) i \<in> {Some Running, Some Skipped})
     \<and> (\<forall>i. status (rt_graph s) i = Some Running \<longrightarrow> i \<in> set (rt_running s))
     \<and> (\<forall>i\<in>set (started s). status (rt_graph s) i \<notin> {None, Some Pending})"

text \<open>
  What the output table says of a node that finished: a success, or the result synthesised
  from an error. A node may be marked skipped afterwards, as the fallback of another node.
\<close>

definition outcome_ok :: "execution_graph \<Rightarrow> string \<Rightarrow> node_execution_result \<Rightarrow> bool" where
  "outcome_ok g i r \<longleftrightarrow>
     (if res_succeeded r then status g i \<in> {Some Succeeded, Some Skipped}
      else status g i \<in> {Some Failed, Some Skipped}
        \<and> (\<exists>n err. node g i = Some n \<and> r = error_result n err))"

definition outputs_ok :: "rt_state \<Rightarrow> bool" where
  "outputs_ok s \<longleftrightarrow> rt_failures s = [] \<and> hm_wf (rt_outputs s)
     \<and> set (hm_keys (rt_outputs s)) = set (started s) - set (rt_running s)
     \<and> (\<forall>i r. hm_get (rt_outputs s) i = Some r \<longrightarrow> outcome_ok (rt_graph s) i r)"

definition rt_inv :: "nat \<Rightarrow> rt_state \<Rightarrow> bool" where
  "rt_inv mx s \<longleftrightarrow> graph_wf (rt_graph s) \<and> tasks_ok mx s \<and> status_ok s \<and> outputs_ok s"

named_theorems inv_intros \<open>steps keep the invariant of the run loop\<close>

lemma rt_inv_wf: "rt_inv mx s \<Longrightarrow> graph_wf (rt_graph s)"
  by (simp add: rt_inv_def)

lemma set_running: "tasks_ok mx s \<Longrightarrow> set (rt_running s) = node_id ` set (tasks s)"
  unfolding tasks_ok_def by (metis set_mset_mset image_set)

lemma started_simps [simp]:
  "started (s\<lparr>rt_graph := g\<rparr>) = started s"
  "started (s\<lparr>rt_outputs := os\<rparr>) = started s"
  "started (s\<lparr>rt_running := rs\<rparr>) = started s"
  "started (s\<lparr>rt_by_role := m\<rparr>) = started s"
  "started (s\<lparr>rt_joins := js\<rparr>) = started s"
  "tasks (s\<lparr>rt_graph := g\<rparr>) = tasks s"
  "tasks (s\<lparr>rt_outputs := os\<rparr>) = tasks s"
  "tasks (s\<lparr>rt_running := rs\<rparr>) = tasks s"
  "tasks (s\<lparr>rt_by_role := m\<rparr>) = tasks s"
  "tasks (s\<lparr>rt_events := es\<rparr>) = tasks s"
  "tasks (s\<lparr>rt_joins := js\<rparr>) = map fst js"
  by (simp_all add: started_def tasks_def)

lemma emit_simps [simp]:
  "rt_graph (emit s e) = rt_graph s" "rt_running (emit s e) = rt_running s"
  "rt_by_role (emit s e) = rt_by_role s" "rt_joins (emit s e) = rt_joins s"
  "rt_outputs (emit s e) = rt_outputs s" "rt_failures (emit s e) = rt_failures s"
  "tasks (emit s e) = tasks s"
  by (simp_all add: emit_def)

lemma started_emit [simp]:
  "started (emit s e) = started s @ (case started_of e of None \<Rightarrow> [] | Some i \<Rightarrow> [i])"
  by (simp add: started_def emit_def map_filter_def split: option.split)

lemma error_result_failed [simp]: "\<not> res_succeeded (error_result n err)"
  by (simp add: error_result_def)

lemma outcome_ok_quiet: "outcome_ok g i r \<Longrightarrow> quiet g g' \<Longrightarrow> outcome_ok g' i r"
  using quiet_status [of g g' i] quiet_node [of g g' i]
  by (auto simp: outcome_ok_def split: if_splits)

lemma outcome_ok_cong:
  "status g i = status g' i \<Longrightarrow> node g i = node g' i \<Longrightarrow> outcome_ok g i r = outcome_ok g' i r"
  by (simp add: outcome_ok_def)

lemma tasks_ok_emit: "tasks_ok mx (emit s e) \<longleftrightarrow> tasks_ok mx s"
  by (simp add: tasks_ok_def)

lemma rt_inv_emit [inv_intros]: "started_of e = None \<Longrightarrow> rt_inv mx s \<Longrightarrow> rt_inv mx (emit s e)"
  by (simp add: rt_inv_def tasks_ok_def status_ok_def outputs_ok_def)

lemma rt_inv_quiet:
  assumes "rt_inv mx s" "quiet (rt_graph s) g'"
  shows "rt_inv mx (s\<lparr>rt_graph := g'\<rparr>)"
proof -
  note q = assms(2)
  have "tasks_ok mx (s\<lparr>rt_graph := g'\<rparr>)"
    using assms by (simp add: rt_inv_def tasks_ok_def quiet_node [OF q])
  moreover have "status_ok (s\<lparr>rt_graph := g'\<rparr>)"
  proof -
    have "status g' i \<in> {Some Running, Some Skipped}" if "i \<in> set (rt_running s)" for i
      using that assms quiet_status [OF q, of i] by (auto simp: rt_inv_def status_ok_def)
    moreover have "i \<in> set (rt_running s)" if "status g' i = Some Running" for i
      using that assms quiet_status_rev [OF q, of i Running] by (auto simp: rt_inv_def status_ok_def)
    moreover have "status g' i \<notin> {None, Some Pending}" if "i \<in> set (started s)" for i
      using that assms quiet_status [OF q, of i]
      by (cases "status (rt_graph s) i") (auto simp: rt_inv_def status_ok_def)
    ultimately show ?thesis using assms by (simp add: rt_inv_def status_ok_def)
  qed
  moreover have "outputs_ok (s\<lparr>rt_graph := g'\<rparr>)"
    using assms by (auto simp: rt_inv_def outputs_ok_def intro: outcome_ok_quiet)
  ultimately show ?thesis using q by (simp add: rt_inv_def quiet_def)
qed

lemma rt_inv_skip [inv_intros]:
  "rt_inv mx s \<Longrightarrow> rt_inv mx (s\<lparr>rt_graph := set_status (rt_graph s) i Skipped\<rparr>)"
  by (simp add: rt_inv_quiet rt_inv_wf quiet_intros)

lemma rt_inv_force_fallback [inv_intros]:
  "rt_inv mx s \<Longrightarrow> rt_inv mx (s\<lparr>rt_graph := force_fallback (rt_graph s) n\<rparr>)"
  by (simp add: rt_inv_quiet rt_inv_wf quiet_intros)

subsection \<open>Launching\<close>

lemma role_count_insert:
  "role_count (hm_insert m r c) r' = (if r' = r then c else role_count m r')"
  by (simp add: role_count_def hm_simps)

lemma role_count_modify:
  "role_count (hm_modify m r f) r' =
     (if r' = r \<and> hm_get m r \<noteq> None then f (role_count m r) else role_count m r')"
  by (auto simp: role_count_def hm_simps split: option.split)

lemma launch_simps [simp]:
  "rt_graph (launch s n) = set_status (rt_graph s) (node_id n) Running"
  "rt_running (launch s n) = List.insert (node_id n) (rt_running s)"
  "rt_by_role (launch s n) =
     hm_insert (rt_by_role s) (role n) (Suc (role_count (rt_by_role s) (role n)))"
  "tasks (launch s n) = tasks s @ [n]"
  "started (launch s n) = started s @ [node_id n]"
  "rt_outputs (launch s n) = rt_outputs s" "rt_failures (launch s n) = rt_failures s"
  by (simp_all add: launch_def Let_def tasks_def)

lemma count_role_simps [simp]:
  "running_of_role r [] = 0"
  "running_of_role r (n # ns) = (if role n = r then Suc (running_of_role r ns) else running_of_role r ns)"
  "running_of_role r (ns @ ms) = running_of_role r ns + running_of_role r ms"
  "running_of_role r (rev ns) = running_of_role r ns"
  by (simp_all add: running_of_role_def rev_filter [symmetric])

lemma rt_inv_launch:
  assumes inv: "rt_inv mx s" and len: "length (rt_running s) < mx"
    and n: "node (rt_graph s) (node_id n) = Some n" "status (rt_graph s) (node_id n) = Some Pending"
    and role: "role_count (rt_by_role s) (role n) < max (max_parallelism (policy n)) 1"
  shows "rt_inv mx (launch s n)"
proof -
  note wf = rt_inv_wf [OF inv]
  have new: "node_id n \<notin> set (started s)" "node_id n \<notin> set (rt_running s)"
    using inv n(2) by (auto simp: rt_inv_def status_ok_def)
  have nd: "node (set_status g i st) j = node g j" for g i st j by (simp add: node_def)
  have "tasks_ok mx (launch s n)"
    using inv len n(1) role new
    by (auto simp: rt_inv_def tasks_ok_def role_count_insert nd)
  moreover have "status_ok (launch s n)"
    using inv n(2) new by (auto simp: rt_inv_def status_ok_def status_set_status)
  moreover have "outcome_ok (set_status (rt_graph s) (node_id n) Running) i r"
    if "hm_get (rt_outputs s) i = Some r" for i r
  proof -
    have "outcome_ok (rt_graph s) i r" "i \<in> set (started s)"
      using that inv hm_get_SomeD [OF that] by (auto simp: rt_inv_def outputs_ok_def)
    with new show ?thesis by (auto simp: outcome_ok_def status_set_status nd)
  qed
  then have "outputs_ok (launch s n)"
    using inv new by (auto simp: rt_inv_def outputs_ok_def)
  ultimately show ?thesis using wf by (simp add: rt_inv_def wf_intros)
qed

lemma launch_loop_inv:
  "rt_inv mx s \<Longrightarrow> launch_loop mx l s = (r, s') \<Longrightarrow> rt_inv mx s'"
proof (induction mx l s arbitrary: r s' rule: launch_loop.induct)
  case (1 mx l s)
  show ?case
  proof (cases "length (rt_running s) < mx")
    case False
    then show ?thesis using 1(2,3) by (simp add: launch_loop.simps)
  next
    case True
    obtain a g where sel: "select_next_node (rt_graph s) (rt_running s) (rt_by_role s) = (a, g)"
      by fastforce
    note wf = rt_inv_wf [OF 1(2)]
    have inv: "rt_inv mx (s\<lparr>rt_graph := g\<rparr>)"
      using rt_inv_quiet [OF 1(2) select_next_quiet [OF wf sel]] .
    show ?thesis
    proof (cases "\<exists>n. a = Inr (Some n)")
      case False
      then show ?thesis using 1(3) True sel inv
        by (subst (asm) launch_loop.simps) (auto split: sum.splits option.splits)
    next
      case a: True
      then obtain n where n: "a = Inr (Some n)" by blast
      note sn = select_next_Some [OF wf sel [unfolded n]]
      have "rt_inv mx (launch (s\<lparr>rt_graph := g\<rparr>) n)"
        using sn(1,3,5) True quiet_node [OF select_next_quiet [OF wf sel], of "node_id n"]
        by (intro rt_inv_launch [OF inv]) simp_all
      moreover have "launch_loop mx True (launch (s\<lparr>rt_graph := g\<rparr>) n) = (r, s')"
        using 1(3) True sel n by (subst (asm) launch_loop.simps) simp
      ultimately show ?thesis
        using 1(1) [OF True sel [symmetric] n refl] by blast
    qed
  qed
qed

subsection \<open>A task ends\<close>

text \<open>Removing the task and recording its result, common to the three branches.\<close>

definition settle :: "nat \<Rightarrow> rt_state \<Rightarrow> node_status \<Rightarrow> node_execution_result \<Rightarrow> rt_state" where
  "settle k s st r = (case take_task k s of (n, s1) \<Rightarrow> (leave_running s1 n)
     \<lparr>rt_graph := set_status (rt_graph s) (node_id n) st,
      rt_outputs := hm_insert (rt_outputs s) (node_id n) r\<rparr>)"

lemma caps_ok_remove: "caps_ok (a @ x # b) \<Longrightarrow> caps_ok (a @ b)"
  by (induction a) (auto split: if_splits)

lemma rt_inv_settle:
  assumes inv: "rt_inv mx s" and js: "rt_joins s \<noteq> []"
    and n: "fst (take_task k s) = n" and st: "st = (if res_succeeded r then Succeeded else Failed)"
    and r: "res_succeeded r \<or> (\<exists>err. r = error_result n err)"
  shows "rt_inv mx (settle k s st r)"
proof -
  define i where "i = k mod length (rt_joins s)"
  have i: "i < length (rt_joins s)" using js by (simp add: i_def)
  define a b where "a = map fst (take i (rt_joins s))" and "b = map fst (drop (Suc i) (rt_joins s))"
  have n': "n = fst (rt_joins s ! i)" using n by (auto simp: take_task_def Let_def i_def)
  have t: "tasks s = a @ n # b"
    unfolding tasks_def a_def b_def n' using id_take_nth_drop [OF i]
    by (metis (no_types, lifting) list.simps(9) map_append)
  have se: "settle k s st r = (leave_running (s\<lparr>rt_joins := take i (rt_joins s) @ drop (Suc i) (rt_joins s)\<rparr>) n)
     \<lparr>rt_graph := set_status (rt_graph s) (node_id n) st,
      rt_outputs := hm_insert (rt_outputs s) (node_id n) r\<rparr>"
    using n by (simp add: settle_def take_task_def Let_def i_def)
  have t': "tasks (settle k s st r) = a @ b"
    by (simp add: se leave_running_def tasks_def a_def b_def)
  have s': "rt_running (settle k s st r) = removeAll (node_id n) (rt_running s)"
    "rt_graph (settle k s st r) = set_status (rt_graph s) (node_id n) st"
    "rt_outputs (settle k s st r) = hm_insert (rt_outputs s) (node_id n) r"
    "started (settle k s st r) = started s" "rt_failures (settle k s st r) = rt_failures s"
    "rt_by_role (settle k s st r) = hm_modify (rt_by_role s) (role n) (\<lambda>c. c - 1)"
    by (simp_all add: se leave_running_def)
  have tk: "tasks_ok mx s" and wf: "graph_wf (rt_graph s)" and so: "status_ok s" and oo: "outputs_ok s"
    using inv by (simp_all add: rt_inv_def)
  have nd: "node (set_status g x y) j = node g j" for g x y j by (simp add: node_def)
  have run: "node_id n \<in> set (rt_running s)" using set_running [OF tk] t by simp
  have nn: "node (rt_graph s) (node_id n) = Some n" using tk t by (simp add: tasks_ok_def)
  have known: "status (rt_graph s) (node_id n) \<noteq> None" using so run by (auto simp: status_ok_def)
  have rm: "mset (removeAll (node_id n) (rt_running s)) = mset (map node_id (a @ b))"
  proof -
    have "distinct (rt_running s)" and m: "mset (rt_running s) = mset (map node_id (a @ n # b))"
      using tk t by (simp_all add: tasks_ok_def)
    then have "mset (removeAll (node_id n) (rt_running s)) = mset (rt_running s) - {#node_id n#}"
      by (simp add: distinct_remove1_removeAll [symmetric])
    with m show ?thesis by simp
  qed
  have "role_count (rt_by_role s) (role n) \<noteq> 0" using tk t by (simp add: tasks_ok_def)
  then have "hm_get (rt_by_role s) (role n) \<noteq> None" by (auto simp: role_count_def split: option.splits)
  moreover have "length (removeAll (node_id n) (rt_running s)) \<le> mx"
    using tk by (intro order_trans [OF length_removeAll_less_eq]) (simp add: tasks_ok_def)
  ultimately have "tasks_ok mx (settle k s st r)"
    using tk t rm caps_ok_remove [of "rev b" n "rev a"]
    unfolding tasks_ok_def t' s'
    by (auto simp: nd role_count_modify distinct_removeAll)
  moreover have "status_ok (settle k s st r)"
    using so run known st unfolding status_ok_def s' by (auto simp: status_set_status)
  moreover have "outputs_ok (settle k s st r)"
  proof -
    have "outcome_ok (set_status (rt_graph s) (node_id n) st) i r'"
      if "hm_get (hm_insert (rt_outputs s) (node_id n) r) i = Some r'" for i r'
    proof (cases "i = node_id n")
      case True
      then have "r' = r" using that by (simp add: hm_simps)
      moreover have "outcome_ok (set_status (rt_graph s) (node_id n) st) (node_id n) r"
        using known st r nn by (cases "res_succeeded r") (auto simp: outcome_ok_def nd status_set_status)
      ultimately show ?thesis using True by simp
    next
      case False
      then have "outcome_ok (rt_graph s) i r'" using that oo by (simp add: hm_simps outputs_ok_def)
      with False show ?thesis
        using outcome_ok_cong [of "set_status (rt_graph s) (node_id n) st" i "rt_graph s"]
        by (simp add: nd status_set_status)
    qed
    with oo so run show ?thesis
      unfolding outputs_ok_def s' by (auto simp: hm_simps wf_intros status_ok_def)
  qed
  ultimately show ?thesis using wf by (simp add: rt_inv_def s' wf_intros)
qed

lemma rt_inv_add_node:
  assumes inv: "rt_inv mx s" and a: "add_node (rt_graph s) d = (r, g)"
  shows "rt_inv mx (s\<lparr>rt_graph := g\<rparr>)"
proof (cases r)
  case (Inl e)
  then have "g = rt_graph s"
    using a by (auto simp: add_node_eq [OF rt_inv_wf [OF inv]] split: if_splits option.splits)
  with inv show ?thesis by simp
next
  case (Inr u)
  note wf = rt_inv_wf [OF inv]
  have g: "g = insert_node (rt_graph s) d" and new: "\<not> hm_contains (nodes (rt_graph s)) (node_id d)"
    using a Inr by (auto simp: add_node_eq [OF wf] split: if_splits option.splits)
  have no: "node (rt_graph s) (node_id d) = None" using new by (simp add: node_def hm_contains_def)
  have sn: "status (rt_graph s) (node_id d) = None"
    using status_Some_iff [OF wf, of "node_id d"] no by auto
  have st: "status g i = (if i = node_id d then Some Pending else status (rt_graph s) i)" for i
    by (simp add: g insert_node_def status_def hm_simps)
  have nd: "node g i = (if i = node_id d then Some d else node (rt_graph s) i)" for i
    by (simp add: g insert_node_def node_def hm_simps)
  have "graph_wf g" using add_node_wf_lemma [OF wf, of d] a by simp
  moreover have "tasks_ok mx (s\<lparr>rt_graph := g\<rparr>)"
    using inv no by (auto simp: rt_inv_def tasks_ok_def nd)
  moreover have "status_ok (s\<lparr>rt_graph := g\<rparr>)"
    using inv sn by (auto simp: rt_inv_def status_ok_def st)
  moreover have "outputs_ok (s\<lparr>rt_graph := g\<rparr>)"
  proof -
    have "outcome_ok g i r" if "outcome_ok (rt_graph s) i r" for i r
    proof -
      have "i \<noteq> node_id d" using that sn by (auto simp: outcome_ok_def split: if_splits)
      with that show ?thesis using outcome_ok_cong [of g i "rt_graph s"] by (simp add: st nd)
    qed
    with inv show ?thesis by (simp add: rt_inv_def outputs_ok_def)
  qed
  ultimately show ?thesis by (simp add: rt_inv_def)
qed

lemma rt_inv_skip_unneeded [inv_intros]: "rt_inv mx s \<Longrightarrow> rt_inv mx (skip_unneeded_fallback s n)"
  by (simp add: skip_unneeded_fallback_def inv_intros split: option.split)

lemma rt_inv_skip_superseded [inv_intros]: "rt_inv mx s \<Longrightarrow> rt_inv mx (skip_superseded s is)"
  by (induction s "is" rule: skip_superseded.induct) (simp_all add: inv_intros)

lemma rt_inv_add_dynamic: "rt_inv mx s \<Longrightarrow> add_dynamic_nodes s f ds = (r, s') \<Longrightarrow> rt_inv mx s'"
proof (induction s f ds arbitrary: r s' rule: add_dynamic_nodes.induct)
  case (2 s f d ds)
  obtain a g where a: "add_node (rt_graph s) d = (a, g)" by fastforce
  note inv = rt_inv_add_node [OF 2(2) a]
  show ?case
  proof (cases a)
    case (Inl e)
    then show ?thesis using 2(3) a inv by auto
  next
    case (Inr u)
    have "rt_inv mx (emit (s\<lparr>rt_graph := g\<rparr>) (DynamicNodeAdded (node_id d) f (role d)
        (dependencies d) (Option.bind (node g (node_id d)) assigned_persona)))"
      using inv by (simp add: inv_intros)
    with 2(1) [OF a [symmetric] Inr] 2(3) a Inr show ?thesis by auto
  qed
qed simp

lemma settle_graph [simp]: "rt_failures (settle k s st r) = rt_failures s"
  by (simp add: settle_def take_task_def leave_running_def Let_def)

lemma handle_joined_eq:
  assumes "take_task k s = (n, s1)"
  shows "handle_joined s1 n (Inl err) oc =
      (Inr (), (emit (settle k s Failed (error_result n err))
          (NodeFailed (node_id n) (role n) err (assigned_persona n)))
        \<lparr>rt_graph := force_fallback (rt_graph (settle k s Failed (error_result n err))) n\<rparr>)"
    and "res_succeeded ok \<Longrightarrow> handle_joined s1 n (Inr ok) oc =
      (let (preview, truncated) = truncate_for_event (res_output ok) node_output_preview_chars;
           s3 = skip_unneeded_fallback (emit (settle k s Succeeded ok) (NodeCompleted (node_id n)
                 (role n) (res_model ok) (res_duration_ms ok) preview truncated
                 (res_token_usage ok) (assigned_persona n))) n
       in case oc of Inl e \<Rightarrow> (Inl e, s3)
          | Inr (ds, ks) \<Rightarrow> add_dynamic_nodes (skip_superseded s3 ks) (node_id n) ds)"
proof -
  have g: "rt_graph s1 = rt_graph s" "rt_outputs s1 = rt_outputs s"
    using assms by (auto simp: take_task_def Let_def)
  show "handle_joined s1 n (Inl err) oc =
      (Inr (), (emit (settle k s Failed (error_result n err))
          (NodeFailed (node_id n) (role n) err (assigned_persona n)))
        \<lparr>rt_graph := force_fallback (rt_graph (settle k s Failed (error_result n err))) n\<rparr>)"
    by (simp add: handle_joined_def handle_error_def Let_def settle_def assms leave_running_def g)
  show "res_succeeded ok \<Longrightarrow> handle_joined s1 n (Inr ok) oc =
      (let (preview, truncated) = truncate_for_event (res_output ok) node_output_preview_chars;
           s3 = skip_unneeded_fallback (emit (settle k s Succeeded ok) (NodeCompleted (node_id n)
                 (role n) (res_model ok) (res_duration_ms ok) preview truncated
                 (res_token_usage ok) (assigned_persona n))) n
       in case oc of Inl e \<Rightarrow> (Inl e, s3)
          | Inr (ds, ks) \<Rightarrow> add_dynamic_nodes (skip_superseded s3 ks) (node_id n) ds)"
    by (simp add: handle_joined_def handle_success_def Let_def settle_def assms leave_running_def g
        split: prod.split sum.split)
qed

lemma handle_joined_inv:
  assumes inv: "rt_inv mx s" and js: "rt_joins s \<noteq> []" and t: "take_task k s = (n, s1)"
    and h: "handle_joined s1 n (execute_node_with_policy n run) oc = (r, s2)"
  shows "rt_inv mx s2"
proof (cases "execute_node_with_policy n run")
  case (Inl err)
  have "rt_inv mx (settle k s Failed (error_result n err))"
    by (rule rt_inv_settle [OF inv js, of k n]) (auto simp: t)
  then have "rt_inv mx ((emit (settle k s Failed (error_result n err))
          (NodeFailed (node_id n) (role n) err (assigned_persona n)))
        \<lparr>rt_graph := force_fallback (rt_graph (settle k s Failed (error_result n err))) n\<rparr>)"
    using rt_inv_force_fallback [OF rt_inv_emit, of _ mx "settle k s Failed (error_result n err)"]
    by simp
  with h Inl handle_joined_eq(1) [OF t, of err oc] show ?thesis by simp
next
  case (Inr ok)
  then have ok: "res_succeeded ok" by (rule execute_Inr_succeeded)
  obtain p tr where p: "truncate_for_event (res_output ok) node_output_preview_chars = (p, tr)"
    by fastforce
  define s3 where "s3 = skip_unneeded_fallback (emit (settle k s Succeeded ok) (NodeCompleted
    (node_id n) (role n) (res_model ok) (res_duration_ms ok) p tr (res_token_usage ok)
    (assigned_persona n))) n"
  have "rt_inv mx (settle k s Succeeded ok)"
    by (rule rt_inv_settle [OF inv js, of k n]) (simp_all add: t ok)
  then have s3: "rt_inv mx s3" by (simp add: s3_def inv_intros)
  have h': "(case oc of Inl e \<Rightarrow> (Inl e, s3)
      | Inr (ds, ks) \<Rightarrow> add_dynamic_nodes (skip_superseded s3 ks) (node_id n) ds) = (r, s2)"
    using h unfolding Inr handle_joined_eq(2) [OF t ok] p s3_def by (simp add: Let_def)
  show ?thesis
  proof (cases oc)
    case (Inl e)
    with h' s3 show ?thesis by simp
  next
    case (Inr q)
    with h' s3 show ?thesis
      by (cases q) (auto intro: rt_inv_add_dynamic rt_inv_skip_superseded)
  qed
qed

subsection \<open>Nothing runs\<close>

lemma rt_inv_force_ready: "rt_inv mx s \<Longrightarrow> rt_inv mx (s\<lparr>rt_graph := force_ready (rt_graph s) i\<rparr>)"
  by (simp add: rt_inv_quiet rt_inv_wf quiet_intros)

lemma resolve_loop_inv: "rt_inv mx s \<Longrightarrow> rt_inv mx (snd (resolve_loop s p ns))"
proof (induction s p ns rule: resolve_loop.induct)
  case (2 s p n ns)
  have "rt_inv mx (s\<lparr>rt_graph := force_fallback (set_status (rt_graph s) (node_id n) Skipped) n\<rparr>)"
    using rt_inv_force_fallback [OF rt_inv_skip [OF 2(5)]] by simp
  with 2 show ?case
    by (auto simp: Let_def rt_inv_emit rt_inv_skip rt_inv_force_ready
      split: dependency_failure_policy.split)
qed simp

lemma rt_inv_skip_cancelled [inv_intros]: "rt_inv mx s \<Longrightarrow> rt_inv mx (skip_cancelled s ns)"
  by (induction s ns rule: skip_cancelled.induct) (simp_all add: inv_intros)

text \<open>The state a pass leaves, whatever its outcome.\<close>

fun outcome_state :: "loop_outcome \<Rightarrow> rt_state" where
  "outcome_state (Continue s) = s"
| "outcome_state (Finished out s) = s"
| "outcome_state (Aborted e s) = s"

lemma loop_iter_inv:
  assumes inv: "rt_inv mx s"
  shows "rt_inv mx (outcome_state (loop_iter mx inp s))"
proof -
  obtain r s1 where s1: "(if \<not> li_cancel inp \<and> \<not> li_pause inp then launch_loop mx False s
            else (Inr False, s)) = (r, s1)" by fastforce
  have inv1: "rt_inv mx s1" using s1 inv launch_loop_inv [OF inv] by (auto split: if_splits)
  have "rt_inv mx (outcome_state (idle_step inp s1))"
    using inv1 resolve_loop_inv [OF inv1]
    by (auto simp: idle_step_def finish_def inv_intros resolve_blocked_nodes_def split: prod.split)
      (metis snd_conv)+
  moreover have "rt_inv mx (outcome_state (join_step inp s1))"
    using inv1 handle_joined_inv [OF inv1]
    by (auto simp: join_step_def split: sum.split prod.split)
  ultimately show ?thesis using s1 inv1 by (auto simp: loop_iter_def split: sum.splits)
qed

lemma rt_inv_start:
  assumes "graph_wf g" "\<forall>i st. status g i = Some st \<longrightarrow> st = Pending"
  shows "rt_inv mx (start_state g)"
  using assms by (auto simp: rt_inv_def start_state_def tasks_ok_def status_ok_def outputs_ok_def
      tasks_def started_def map_filter_def role_count_def hm_simps wf_intros)

section \<open>The machine\<close>

definition run_init :: "rt_state \<Rightarrow> bool" where
  "run_init s \<longleftrightarrow> (\<exists>g. fresh_graph g \<and> s = start_state g)"

definition run_step :: "nat \<Rightarrow> rt_state \<Rightarrow> rt_state \<Rightarrow> bool" where
  "run_step mx s t \<longleftrightarrow> (\<exists>inp. loop_iter mx inp s = Continue t)"

interpretation run_machine: state_machine run_init "run_step mx" "rt_inv mx" for mx
proof unfold_locales
  show "run_init s \<Longrightarrow> rt_inv mx s" for s
    by (auto simp: run_init_def fresh_graph_def rt_inv_start)
  show "run_step mx s t \<Longrightarrow> rt_inv mx s \<Longrightarrow> rt_inv mx t" for s t
    unfolding run_step_def by (metis loop_iter_inv outcome_state.simps(1))
qed

lemma run_loop_inv: "rt_inv mx s \<Longrightarrow> rt_inv mx (outcome_state (run_loop mx inps s))"
proof (induction mx inps s rule: run_loop.induct)
  case (2 mx inp inps s)
  have "rt_inv mx (outcome_state (loop_iter mx inp s))" using 2(2) by (rule loop_iter_inv)
  with 2(1) show ?case by (auto split: loop_outcome.split)
qed simp

end
