(* ===== verification/Run_Properties.thy ===== *)
theory Run_Properties
  imports Run_Invariant
begin

text \<open>
  Properties of the run loop of \<^verbatim>\<open>src/runtime/mod.rs\<close> that hold in every state the loop
  reaches, for any behaviour of the nodes, the callbacks and the cancel and pause flags, and
  properties of the answer of a finished run.
\<close>

section \<open>A sample run\<close>

definition ok_input :: loop_input where
  "ok_input = \<lparr>li_cancel = False, li_pause = False,
     li_join = Inr (0, \<lambda>k. Returned (result_success ''n'' Coder ''mock'' ''ok'' 1)),
     li_completed = Inr ([], [])\<rparr>"

definition pair_graph :: execution_graph where
  "pair_graph = snd (add_nodes (new_graph 2)
     [(new_node ''a'' Coder ''x'')\<lparr>policy := default_policy\<lparr>max_parallelism := 2\<rparr>\<rparr>,
      (new_node ''b'' Coder ''y'')\<lparr>policy := default_policy\<lparr>max_parallelism := 2\<rparr>\<rparr>])"

lemma pair_graph_fresh: "fresh_graph pair_graph"
  unfolding pair_graph_def by (intro with_nodes_fresh fresh_new_graph)

definition pair_state :: rt_state where
  "pair_state = outcome_state (loop_iter 2 ok_input (start_state pair_graph))"

lemma pair_pass:
  "case loop_iter 2 ok_input (start_state pair_graph) of
     Continue s \<Rightarrow> started s = [''a'', ''b''] \<and> map node_id (tasks s) = [''b'']
       \<and> rt_running s = [''b''] \<and> hm_keys (rt_outputs s) = [''a'']
   | _ \<Rightarrow> False"
  by code_simp

lemma pair_state_values:
  "started pair_state = [''a'', ''b'']" "map node_id (tasks pair_state) = [''b'']"
  "rt_running pair_state = [''b'']" "hm_keys (rt_outputs pair_state) = [''a'']"
  using pair_pass by (simp_all add: pair_state_def split: loop_outcome.splits)

lemma pair_state_reachable: "reachable run_init (run_step 2) pair_state"
proof -
  have "run_init (start_state pair_graph)" using pair_graph_fresh by (auto simp: run_init_def)
  moreover have "run_step 2 (start_state pair_graph) pair_state"
    using pair_pass by (auto simp: run_step_def pair_state_def intro!: exI [of _ ok_input]
        split: loop_outcome.splits)
  ultimately show ?thesis by (meson reach_init reach_step)
qed

section \<open>Reachable states\<close>

lemma reachable_rt_inv: "reachable run_init (run_step mx) s \<Longrightarrow> rt_inv mx s"
  by (rule run_machine.reachable_inv)

text \<open>
  C1: no node is ever started twice: in every reachable state the starts that were reported
  name distinct nodes, and none of those nodes is pending again, so the selection can never
  return it.
\<close>

theorem no_node_started_twice:
  assumes "reachable run_init (run_step mx) s"
  shows "distinct (started s)
    \<and> (\<forall>i. status (rt_graph s) i = Some Pending \<longrightarrow> i \<notin> set (started s))"
  using reachable_rt_inv [OF assms] by (auto simp: rt_inv_def status_ok_def)

theorem no_node_started_twice_witness:
  "distinct (started pair_state) \<and> started pair_state = [''a'', ''b'']"
  using no_node_started_twice [OF pair_state_reachable] by (simp add: pair_state_values)

lemma caps_ok_bound:
  "caps_ok ns \<Longrightarrow> \<forall>n\<in>set ns. role n = r \<longrightarrow> max_parallelism (policy n) \<le> L \<Longrightarrow>
     running_of_role r ns \<le> max L 1"
proof (induction ns)
  case (Cons n ns)
  then show ?case by (cases "role n = r") auto
qed simp

text \<open>
  C3: the limits on parallelism hold in every reachable state: the running set names exactly
  the tasks in flight, each once, there are at most \<open>mx\<close> of them, and at most \<open>max L 1\<close> of a
  role whose tasks all have a limit of at most \<open>L\<close>.
\<close>

theorem parallelism_bounded:
  assumes "reachable run_init (run_step mx) s"
  shows "distinct (map node_id (tasks s)) \<and> set (rt_running s) = node_id ` set (tasks s)
    \<and> length (rt_joins s) \<le> mx
    \<and> (\<forall>r L. (\<forall>n\<in>set (tasks s). role n = r \<longrightarrow> max_parallelism (policy n) \<le> L) \<longrightarrow>
          running_of_role r (tasks s) \<le> max L 1)"
proof -
  have t: "tasks_ok mx s" using reachable_rt_inv [OF assms] by (simp add: rt_inv_def)
  have "distinct (map node_id (tasks s))"
    using t mset_eq_imp_distinct_iff [of "rt_running s" "map node_id (tasks s)"]
    by (simp add: tasks_ok_def)
  moreover have "length (rt_joins s) \<le> mx"
    using t mset_eq_length [of "rt_running s" "map node_id (tasks s)"]
    by (simp add: tasks_ok_def tasks_def)
  moreover have "running_of_role r (tasks s) \<le> max L 1"
    if "\<forall>n\<in>set (tasks s). role n = r \<longrightarrow> max_parallelism (policy n) \<le> L" for r L
    using caps_ok_bound [of "rev (tasks s)" r L] that t by (simp add: tasks_ok_def)
  ultimately show ?thesis using set_running [OF t] by blast
qed

theorem parallelism_bounded_witness:
  "length (rt_joins pair_state) \<le> 2 \<and> rt_running pair_state = [''b'']
   \<and> set (rt_running pair_state) = node_id ` set (tasks pair_state)"
  using parallelism_bounded [OF pair_state_reachable] by (simp add: pair_state_values)

text \<open>
  C9: in every reachable state exactly the nodes that were started and are not in flight have
  an output, the output of a node agrees with its status, every failed output is the one
  synthesised from an error (its own output text is lost), and the failure counters of the
  circuit breaker are empty: the breaker can never open.
\<close>

theorem outputs_consistent:
  assumes "reachable run_init (run_step mx) s"
  shows "set (hm_keys (rt_outputs s)) = set (started s) - set (rt_running s)
    \<and> rt_failures s = []
    \<and> (\<forall>i r. hm_get (rt_outputs s) i = Some r \<longrightarrow>
        (if res_succeeded r then status (rt_graph s) i \<in> {Some Succeeded, Some Skipped}
         else status (rt_graph s) i \<in> {Some Failed, Some Skipped} \<and> res_output r = ''''
           \<and> res_model r = ''unknown'' \<and> res_node_id r = i))"
proof -
  have inv: "outputs_ok s" "graph_wf (rt_graph s)"
    using reachable_rt_inv [OF assms] by (simp_all add: rt_inv_def)
  have "if res_succeeded r then status (rt_graph s) i \<in> {Some Succeeded, Some Skipped}
         else status (rt_graph s) i \<in> {Some Failed, Some Skipped} \<and> res_output r = ''''
           \<and> res_model r = ''unknown'' \<and> res_node_id r = i"
    if "hm_get (rt_outputs s) i = Some r" for i r
  proof -
    have "outcome_ok (rt_graph s) i r" using that inv(1) by (simp add: outputs_ok_def)
    then show ?thesis
      by (cases "res_succeeded r")
        (auto simp: outcome_ok_def error_result_def graph_wf_node_id [OF inv(2)])
  qed
  with inv(1) show ?thesis unfolding outputs_ok_def by blast
qed

theorem outputs_consistent_witness:
  "set (hm_keys (rt_outputs pair_state)) = {''a''} \<and> rt_failures pair_state = []"
  using outputs_consistent [OF pair_state_reachable] by (auto simp: pair_state_values)

section \<open>Finished runs\<close>

lemma run_loop_Finished:
  "run_loop mx inps s = Finished out t \<Longrightarrow> rt_inv mx s \<Longrightarrow>
     \<exists>s0 inp. rt_inv mx s0 \<and> loop_iter mx inp s0 = Finished out t"
proof (induction mx inps s rule: run_loop.induct)
  case (2 mx inp inps s)
  show ?case
  proof (cases "loop_iter mx inp s")
    case (Continue s')
    then have "rt_inv mx s'" using loop_iter_inv [OF 2(3), of inp] by simp
    with 2 Continue show ?thesis by simp
  qed (use 2 in auto)
qed simp

lemma skip_cancelled_simps [simp]:
  "rt_outputs (skip_cancelled s ns) = rt_outputs s"
  "rt_running (skip_cancelled s ns) = rt_running s"
  "rt_joins (skip_cancelled s ns) = rt_joins s"
  "started (skip_cancelled s ns) = started s"
  by (induction s ns rule: skip_cancelled.induct) simp_all

lemma status_skip_cancelled:
  "status (rt_graph (skip_cancelled s ns)) i =
     (if i \<in> node_id ` set ns then map_option (\<lambda>_. Skipped) (status (rt_graph s) i)
      else status (rt_graph s) i)"
  by (induction s ns rule: skip_cancelled.induct)
    (auto simp: status_set_status option.map_comp comp_def)

lemma all_terminal_iff:
  "graph_wf g \<Longrightarrow> all_terminal g \<longleftrightarrow> (\<forall>i st. status g i = Some st \<longrightarrow> is_terminal st)"
  by (auto simp: all_terminal_def list_all_iff hm_values_iff graph_wf_def status_def)

lemma is_terminal_iff: "is_terminal st \<longleftrightarrow> st \<noteq> Pending \<and> st \<noteq> Running"
  by (cases st) simp_all

lemma not_running_idle:
  "rt_inv mx s \<Longrightarrow> rt_running s = [] \<Longrightarrow> status (rt_graph s) i \<noteq> Some Running"
  by (auto simp: rt_inv_def status_ok_def)

lemma pending_iff:
  assumes "graph_wf g"
  shows "i \<in> node_id ` set (pending_nodes g) \<longleftrightarrow> status g i = Some Pending"
proof
  assume "status g i = Some Pending"
  then obtain n where "node g i = Some n" using status_Some_iff [OF assms, of i] by auto
  with \<open>status g i = Some Pending\<close> show "i \<in> node_id ` set (pending_nodes g)"
    using graph_wf_node_id [OF assms] pending_nodes_iff [OF assms, of n] by force
qed (auto simp: pending_nodes_iff [OF assms])

lemma loop_iter_Finished:
  assumes inv: "rt_inv mx s" and f: "loop_iter mx inp s = Finished out t"
  obtains u where "rt_inv mx u" "rt_running u = []" "all_terminal (rt_graph u)"
    "out = sort_key res_node_id (hm_values (rt_outputs u))" "t = emit u GraphCompleted"
proof -
  obtain r s1 where s1: "(if \<not> li_cancel inp \<and> \<not> li_pause inp then launch_loop mx False s
            else (Inr False, s)) = (r, s1)" by fastforce
  have inv1: "rt_inv mx s1" using s1 inv launch_loop_inv [OF inv] by (auto split: if_splits)
  have run: "rt_running s1 = []" and idle: "idle_step inp s1 = Finished out t"
    using f s1 by (auto simp: loop_iter_def join_step_def split: sum.splits if_splits prod.splits)
  show thesis
  proof (cases "li_cancel inp")
    case False
    with idle have "all_terminal (rt_graph s1)" "finish s1 = Finished out t"
      by (auto simp: idle_step_def split: if_splits prod.splits)
    then show thesis using that [OF inv1 run] by (simp add: finish_def)
  next
    case True
    define u where "u = skip_cancelled s1 (pending_nodes (rt_graph s1))"
    have u: "rt_inv mx u" "rt_running u = []" using inv1 run by (simp_all add: u_def inv_intros)
    have wf: "graph_wf (rt_graph s1)" using inv1 by (simp add: rt_inv_def)
    have "all_terminal (rt_graph u)"
      unfolding all_terminal_iff [OF rt_inv_wf [OF u(1)]]
      using not_running_idle [OF inv1 run] pending_iff [OF wf]
      by (auto simp: u_def status_skip_cancelled is_terminal_iff split: if_splits)
    moreover have "finish u = Finished out t" using idle True by (simp add: idle_step_def u_def)
    ultimately show thesis using that [OF u] by (simp add: finish_def)
  qed
qed

text \<open>
  C10: a run that finishes (all nodes done, or cancelled) answers one result per node that was
  started, sorted by node id, no task is left in flight, every node is in a terminal status
  and the last event is the completion of the graph.
\<close>

theorem finished_run:
  assumes "fresh_graph g" and "execute_graph requested inps g = Finished out s"
  shows "sorted (map res_node_id out) \<and> mset out = mset (hm_values (rt_outputs s))
    \<and> set (hm_keys (rt_outputs s)) = set (started s) \<and> length out = length (started s)
    \<and> rt_joins s = [] \<and> all_terminal (rt_graph s) \<and> last (rt_events s) = GraphCompleted"
proof -
  let ?mx = "effective_parallelism requested"
  have "rt_inv ?mx (start_state g)" using assms(1) by (simp add: rt_inv_start fresh_graph_def)
  then obtain s0 inp where "rt_inv ?mx s0" "loop_iter ?mx inp s0 = Finished out s"
    using run_loop_Finished assms(2) unfolding execute_graph_def by blast
  then obtain u where u: "rt_inv ?mx u" "rt_running u = []" "all_terminal (rt_graph u)"
    "out = sort_key res_node_id (hm_values (rt_outputs u))" "s = emit u GraphCompleted"
    by (rule loop_iter_Finished)
  have keys: "set (hm_keys (rt_outputs u)) = set (started u)" "distinct (hm_keys (rt_outputs u))"
    "distinct (started u)"
    using u(1,2) by (auto simp: rt_inv_def outputs_ok_def status_ok_def hm_wf_def)
  then have "length (hm_keys (rt_outputs u)) = length (started u)" by (metis distinct_card)
  moreover have "tasks u = []"
    using u(1,2) by (simp add: rt_inv_def tasks_ok_def)
  ultimately show ?thesis
    using u keys by (simp add: tasks_def hm_keys_def hm_values_def)
      (simp add: emit_def)
qed

lemma pair_run:
  "case execute_graph 2 [ok_input, ok_input, ok_input] pair_graph of
     Finished out s \<Rightarrow> started s = [''a'', ''b''] \<and> length out = 2 | _ \<Rightarrow> False"
  by code_simp

theorem finished_run_witness:
  "\<exists>out s. execute_graph 2 [ok_input, ok_input, ok_input] pair_graph = Finished out s
     \<and> length out = 2 \<and> sorted (map res_node_id out) \<and> all_terminal (rt_graph s)"
proof -
  from pair_run obtain out s where
    e: "execute_graph 2 [ok_input, ok_input, ok_input] pair_graph = Finished out s" and "length out = 2"
    by (auto split: loop_outcome.splits)
  with finished_run [OF pair_graph_fresh e] show ?thesis by blast
qed

section \<open>Event previews\<close>

text \<open>
  The preview of a node's output holds its first characters up to the limit, and is
  flagged as truncated exactly when characters were left out.
\<close>

theorem truncate_for_event_spec:
  "truncate_for_event value m = (take m value, m < length value)"
  by (simp add: truncate_for_event_def truncate_loop_eq)

end
