(* ===== verification/Run_Progress.thy ===== *)
theory Run_Progress
  imports Run_Properties
begin

text \<open>
  Progress of the run loop of \<^verbatim>\<open>src/runtime/mod.rs\<close>: when the selection starts a node, every
  way a pass can fail, and termination. The rank of a state counts each pending node twice,
  once more while it is not forced ready, and each task in flight once; every pass without a
  pause spends at least one unit, and a node added by the completion callback brings three.
\<close>

section \<open>What the selection scans\<close>

text \<open>A quiet change that keeps the nodes that were forced ready.\<close>

definition calm :: "execution_graph \<Rightarrow> execution_graph \<Rightarrow> bool" where
  "calm g g' \<longleftrightarrow> quiet g g' \<and> forced_ready g \<subseteq> forced_ready g'"

lemma calm_refl: "graph_wf g \<Longrightarrow> calm g g"
  by (simp add: calm_def quiet_refl)

lemma calm_trans: "calm g g' \<Longrightarrow> calm g' g'' \<Longrightarrow> calm g g''"
  unfolding calm_def by (meson order_trans quiet_trans)

lemma calm_wf: "calm g g' \<Longrightarrow> graph_wf g'"
  by (simp add: calm_def quiet_def)

lemma calm_skip: "graph_wf g \<Longrightarrow> calm g (set_status g i Skipped)"
  by (simp add: calm_def quiet_intros) (simp add: set_status_def)

lemma calm_force_ready: "graph_wf g \<Longrightarrow> calm g (force_ready g i)"
  by (simp add: calm_def quiet_intros) (auto simp: force_ready_def)

lemma calm_force_fallback: "graph_wf g \<Longrightarrow> calm g (force_fallback g n)"
  by (simp add: force_fallback_def calm_refl calm_force_ready split: option.split)

lemma calm_skip_force:
  "graph_wf g \<Longrightarrow> calm g (force_fallback (set_status g i Skipped) n)"
  by (meson calm_force_fallback calm_skip calm_trans calm_wf)

text \<open>
  One node of the scan: it is passed over, answered, fatal, or skipped with its fallback
  forced.
\<close>

lemma select_loop_cases:
  obtains (skip) "select_loop g running by_role (n # ns) = select_loop g running by_role ns"
      "node_id n \<in> set running \<or> max (max_parallelism (policy n)) 1 \<le> role_count by_role (role n)
        \<or> is_runnable g n = Blocked"
  | (ready) "select_loop g running by_role (n # ns) = (Inr (Some n), clear_forced_ready g (node_id n))"
      "is_runnable g n = Ready"
  | (failfast) r where "is_runnable g n = FailFastDep r" "select_loop g running by_role (n # ns) =
      (Inl (fail_fast_message (node_id n) r), set_status g (node_id n) Skipped)"
  | (fallback) r where "is_runnable g n = FallbackDep r" "select_loop g running by_role (n # ns) =
      select_loop (force_fallback (set_status g (node_id n) Skipped) n) running by_role ns"
proof (cases "node_id n \<in> set running \<or>
    max (max_parallelism (policy n)) 1 \<le> role_count by_role (role n)")
  case True
  then show thesis using skip by auto
next
  case False
  then show thesis
    using skip ready failfast fallback by (cases "is_runnable g n") auto
qed

lemma select_loop_None:
  assumes "graph_wf g" "select_loop g running by_role ns = (Inr None, g')"
  shows "calm g g' \<and> (\<forall>m\<in>set ns. node_id m \<in> set running
      \<or> max (max_parallelism (policy m)) 1 \<le> role_count by_role (role m)
      \<or> (\<exists>g0. calm g g0 \<and> calm g0 g' \<and> (is_runnable g0 m = Blocked
          \<or> status g' (node_id m) \<noteq> Some Pending \<and> (\<exists>r. is_runnable g0 m = FallbackDep r))))"
  using assms
proof (induction ns arbitrary: g)
  case Nil
  then show ?case by (simp add: calm_refl)
next
  case (Cons n ns)
  show ?case
  proof (rule select_loop_cases [of g running by_role n ns])
    assume s: "select_loop g running by_role (n # ns) = select_loop g running by_role ns"
      "node_id n \<in> set running \<or> max (max_parallelism (policy n)) 1 \<le> role_count by_role (role n)
        \<or> is_runnable g n = Blocked"
    with Cons show ?thesis by (auto intro: calm_refl)
  next
    fix r
    let ?g1 = "force_fallback (set_status g (node_id n) Skipped) n"
    assume s: "is_runnable g n = FallbackDep r"
      "select_loop g running by_role (n # ns) = select_loop ?g1 running by_role ns"
    have c: "calm g ?g1" using Cons.prems(1) by (rule calm_skip_force)
    have ih: "calm ?g1 g'" "\<And>m. m \<in> set ns \<Longrightarrow> node_id m \<in> set running
      \<or> max (max_parallelism (policy m)) 1 \<le> role_count by_role (role m)
      \<or> (\<exists>g0. calm ?g1 g0 \<and> calm g0 g' \<and> (is_runnable g0 m = Blocked
          \<or> status g' (node_id m) \<noteq> Some Pending \<and> (\<exists>r. is_runnable g0 m = FallbackDep r)))"
      using Cons.IH [OF calm_wf [OF c]] Cons.prems(2) s(2) by (metis (no_types, lifting))+
    have "status ?g1 (node_id n) \<noteq> Some Pending"
      by (simp add: force_fallback_def status_set_status split: option.split)
    then have "status g' (node_id n) \<noteq> Some Pending"
      using ih(1) quiet_status_rev [of ?g1 g' "node_id n" Pending] by (auto simp: calm_def)
    with s c ih Cons.prems(1) show ?thesis
      by (auto intro: calm_trans calm_refl)
  qed (use Cons.prems in auto)
qed

lemma select_next_None:
  assumes "graph_wf g" "select_next_node g running by_role = (Inr None, g')"
  shows "calm g g'"
    and "node g (node_id m) = Some m \<Longrightarrow> status g (node_id m) = Some Pending \<Longrightarrow>
      node_id m \<notin> set running \<Longrightarrow> role_count by_role (role m) = 0 \<Longrightarrow>
      \<exists>g0. calm g g0 \<and> calm g0 g' \<and> (is_runnable g0 m = Blocked
        \<or> status g' (node_id m) \<noteq> Some Pending \<and> (\<exists>r. is_runnable g0 m = FallbackDep r))"
  using select_loop_None [OF assms(1) assms(2) [unfolded select_next_node_def]]
    pending_nodes_iff [OF assms(1), of m]
  by (auto simp del: not_None_eq)

lemma check_dep_states_Ready:
  "check_dep_states pol ds = Ready \<longleftrightarrow> (\<forall>(d, st)\<in>set ds. st = Succeeded
     \<or> pol = ContinueOnError \<and> (st = Failed \<or> st = Skipped))"
  by (induction ds) (auto split: node_status.splits dependency_failure_policy.splits)

text \<open>Every dependency of a node of the graph has a status.\<close>

lemma dep_status_known:
  assumes "graph_wf g" "node g i = Some n" "d \<in> set (dependencies n)"
  obtains st where "status g d = Some st"
proof -
  have "set (deps_of g i) \<subseteq> set (hm_keys (statuses g))" using assms(1) by (simp add: graph_wf_def)
  then have "d \<in> set (hm_keys (statuses g))" using assms(3) deps_of_node [OF assms(2)] by auto
  then show thesis using that by (auto simp: set_hm_keys status_def)
qed

lemma check_dep_states_Blocked:
  "check_dep_states pol ds = Blocked \<Longrightarrow> \<exists>(d, st)\<in>set ds. st = Pending \<or> st = Running"
  by (induction ds) (auto split: node_status.splits dependency_failure_policy.splits)

lemma check_dep_states_FailFast:
  "check_dep_states pol ds = FailFastDep r \<Longrightarrow> pol = FailFast
     \<and> (\<exists>(d, st)\<in>set ds. (st = Failed \<or> st = Skipped) \<and> r = dep_reason d st)"
  by (induction ds) (auto split: node_status.splits dependency_failure_policy.splits)

lemma set_dep_statuses:
  "set (dep_statuses g n) = {(d, st). d \<in> set (dependencies n) \<and> status g d = Some st}"
  by (force simp: dep_statuses_def map_filter_def)

lemma select_loop_ready:
  assumes "graph_wf g" "select_loop g running by_role ns = (Inr (Some n), g')"
    "\<forall>m\<in>set ns. status g (node_id m) \<noteq> None"
  shows "\<exists>g0. calm g g0 \<and> is_runnable g0 n = Ready \<and> g' = clear_forced_ready g0 (node_id n)
    \<and> (is_forced_ready g0 (node_id n) \<longrightarrow> is_forced_ready g (node_id n)
        \<or> (\<exists>m\<in>set ns. fallback_node (policy m) = Some (node_id n)
              \<and> status g0 (node_id m) = Some Skipped))"
  using assms
proof (induction ns arbitrary: g)
  case (Cons m ns)
  show ?case
  proof (rule select_loop_cases [of g running by_role m ns])
    assume "select_loop g running by_role (m # ns) = select_loop g running by_role ns"
    with Cons show ?thesis by force
  next
    assume "select_loop g running by_role (m # ns) = (Inr (Some m), clear_forced_ready g (node_id m))"
      "is_runnable g m = Ready"
    with Cons.prems show ?thesis by (auto intro!: exI [of _ g] calm_refl)
  next
    fix r
    let ?g1 = "force_fallback (set_status g (node_id m) Skipped) m"
    assume s: "select_loop g running by_role (m # ns) = select_loop ?g1 running by_role ns"
    have c: "calm g ?g1" using Cons.prems(1) by (rule calm_skip_force)
    have known: "\<forall>k\<in>set ns. status ?g1 (node_id k) \<noteq> None"
      using Cons.prems(3) c unfolding calm_def quiet_def by (metis list.set_intros(2) option.discI)
    have sk: "status ?g1 (node_id m) = Some Skipped"
      using Cons.prems(3) by (auto simp: force_fallback_def status_set_status split: option.split)
    have forced: "is_forced_ready ?g1 (node_id n) \<Longrightarrow>
        is_forced_ready g (node_id n) \<or> fallback_node (policy m) = Some (node_id n)"
      by (auto simp: force_fallback_def force_ready_def set_status_def is_forced_ready_def
          split: option.splits if_splits)
    obtain g0 where g0: "calm ?g1 g0" "is_runnable g0 n = Ready"
      "g' = clear_forced_ready g0 (node_id n)"
      "is_forced_ready g0 (node_id n) \<longrightarrow> is_forced_ready ?g1 (node_id n)
        \<or> (\<exists>m\<in>set ns. fallback_node (policy m) = Some (node_id n)
              \<and> status g0 (node_id m) = Some Skipped)"
      using Cons.IH [OF calm_wf [OF c] _ known] Cons.prems(2) s by auto
    have "status g0 (node_id m) = Some Skipped"
      using quiet_status [OF _ sk, of g0] g0(1) by (auto simp: calm_def)
    with g0 forced calm_trans [OF c g0(1)] show ?thesis by auto
  qed (use Cons.prems in auto)
qed simp

text \<open>
  C7: when the selection answers a node, that node was pending, is not running and its role is
  below the node's limit; and it was forced ready (or is the fallback of a node that this very
  scan skipped), or it is not reserved as a fallback and every dependency succeeded, a failed
  or skipped one counting too under the continue-on-error policy.
\<close>

theorem select_next_node_sound:
  assumes "graph_wf g" and "select_next_node g running by_role = (Inr (Some n), g')"
  shows "node g (node_id n) = Some n \<and> status g (node_id n) = Some Pending
    \<and> node_id n \<notin> set running
    \<and> role_count by_role (role n) < max (max_parallelism (policy n)) 1
    \<and> (is_forced_ready g (node_id n)
       \<or> (\<exists>m. node g (node_id m) = Some m \<and> fallback_node (policy m) = Some (node_id n)
            \<and> status g (node_id m) = Some Pending \<and> status g' (node_id m) = Some Skipped)
       \<or> \<not> is_fallback_only g (node_id n)
         \<and> (\<forall>d\<in>set (dependencies n). status g' d = Some Succeeded
              \<or> on_dependency_failure (policy n) = ContinueOnError
                \<and> status g' d \<in> {Some Failed, Some Skipped}))"
proof -
  note s = select_next_Some [OF assms]
  have "\<forall>m\<in>set (sort_key node_id (pending_nodes g)). status g (node_id m) \<noteq> None"
    by (simp add: pending_nodes_iff [OF assms(1)])
  then obtain g0 where g0: "calm g g0" "is_runnable g0 n = Ready"
    "g' = clear_forced_ready g0 (node_id n)"
    "is_forced_ready g0 (node_id n) \<longrightarrow> is_forced_ready g (node_id n)
      \<or> (\<exists>m\<in>set (pending_nodes g). fallback_node (policy m) = Some (node_id n)
            \<and> status g0 (node_id m) = Some Skipped)"
    using select_loop_ready [OF assms(1) assms(2) [unfolded select_next_node_def]] by auto
  show ?thesis
  proof (cases "is_forced_ready g0 (node_id n)")
    case True
    with g0(4) s(1-5) show ?thesis
      by (auto simp: g0(3) pending_nodes_iff [OF assms(1)])
  next
    case False
    have q: "quiet g g0" using g0(1) by (simp add: calm_def)
    have "\<not> is_fallback_only g (node_id n)"
      using g0(2) False q by (auto simp: is_runnable_def is_fallback_only_def quiet_def split: if_splits)
    moreover have "status g0 d = Some Succeeded \<or> on_dependency_failure (policy n) = ContinueOnError
                \<and> status g0 d \<in> {Some Failed, Some Skipped}" if d: "d \<in> set (dependencies n)" for d
    proof -
      have "node g0 (node_id n) = Some n" using s(1) quiet_node [OF q] by simp
      then obtain st' where st': "status g0 d = Some st'"
        using dep_status_known [OF calm_wf [OF g0(1)] _ d] by blast
      have "check_dep_states (on_dependency_failure (policy n)) (dep_statuses g0 n) = Ready"
        using g0(2) False by (simp add: is_runnable_def split: if_splits)
      with st' d show ?thesis by (auto simp: check_dep_states_Ready set_dep_statuses)
    qed
    ultimately show ?thesis using s(1-5) by (simp add: g0(3))
  qed
qed

lemma sample_select:
  "case select_next_node sample_graph [] [] of (Inr (Some n), g') \<Rightarrow> node_id n = ''plan'' | _ \<Rightarrow> False"
  by code_simp

theorem select_next_node_sound_witness:
  "\<exists>n g'. select_next_node sample_graph [] [] = (Inr (Some n), g') \<and> node_id n = ''plan''
     \<and> node sample_graph ''plan'' = Some n"
proof -
  from sample_select obtain n g' where
    e: "select_next_node sample_graph [] [] = (Inr (Some n), g')" and n: "node_id n = ''plan''"
    by (auto split: prod.splits sum.splits option.splits)
  with select_next_node_sound [OF sample_graph_wf e] show ?thesis by simp
qed

section \<open>How a pass ends\<close>

lemma launch_loop_True: "launch_loop mx True s = (Inr b, s1) \<Longrightarrow> b"
proof (induction mx True s arbitrary: s1 rule: launch_loop.induct)
  case (1 mx s)
  then show ?case
    by (subst (asm) (2) launch_loop.simps) (auto split: if_splits prod.splits sum.splits option.splits)
qed

lemma launch_loop_False:
  assumes "launch_loop mx False s = (Inr False, s1)"
  shows "mx \<le> length (rt_running s) \<and> s1 = s
    \<or> (\<exists>g. select_next_node (rt_graph s) (rt_running s) (rt_by_role s) = (Inr None, g)
          \<and> s1 = s\<lparr>rt_graph := g\<rparr>)"
  using assms by (subst (asm) launch_loop.simps)
    (auto split: if_splits prod.splits sum.splits option.splits dest: launch_loop_True)

lemma select_loop_Inl:
  "graph_wf g \<Longrightarrow> \<forall>m\<in>set ns. node g (node_id m) = Some m \<Longrightarrow>
   select_loop g running by_role ns = (Inl e, g') \<Longrightarrow>
   \<exists>n\<in>set ns. \<exists>d\<in>set (dependencies n). \<exists>st. on_dependency_failure (policy n) = FailFast
     \<and> status g' d = Some st \<and> (st = Failed \<or> st = Skipped) \<and> node g' (node_id n) = Some n
     \<and> e = fail_fast_message (node_id n) (dep_reason d st)"
proof (induction ns arbitrary: g)
  case (Cons m ns)
  show ?case
  proof (rule select_loop_cases [of g running by_role m ns])
    assume "select_loop g running by_role (m # ns) = select_loop g running by_role ns"
    with Cons show ?thesis by auto
  next
    fix r
    let ?g1 = "force_fallback (set_status g (node_id m) Skipped) m"
    assume s: "select_loop g running by_role (m # ns) = select_loop ?g1 running by_role ns"
    have c: "calm g ?g1" using Cons.prems(1) by (rule calm_skip_force)
    then have "\<forall>k\<in>set ns. node ?g1 (node_id k) = Some k"
      using Cons.prems(2) quiet_node [of g ?g1] by (simp add: calm_def)
    with Cons.IH [OF calm_wf [OF c]] Cons.prems(3) s show ?thesis by auto
  next
    fix r
    assume r: "is_runnable g m = FailFastDep r" and s: "select_loop g running by_role (m # ns) =
      (Inl (fail_fast_message (node_id m) r), set_status g (node_id m) Skipped)"
    then have "check_dep_states (on_dependency_failure (policy m)) (dep_statuses g m) = FailFastDep r"
      by (simp add: is_runnable_def split: if_splits)
    then obtain d st where d: "on_dependency_failure (policy m) = FailFast"
      "d \<in> set (dependencies m)" "status g d = Some st" "st = Failed \<or> st = Skipped" "r = dep_reason d st"
      using check_dep_states_FailFast [of "on_dependency_failure (policy m)" "dep_statuses g m" r]
      by (auto simp: set_dep_statuses)
    have "d \<noteq> node_id m"
    proof
      assume "d = node_id m"
      then have "(node_id m, node_id m) \<in> (dep_rel g)\<^sup>+"
        using d(2) Cons.prems(2) by (intro r_into_trancl) (simp add: deps_of_node [of g "node_id m" m])
      with Cons.prems(1) show False by (auto simp: graph_wf_def acyclic_def)
    qed
    then have "status (set_status g (node_id m) Skipped) d = Some st"
      using d(3) by (simp add: status_set_status)
    moreover have "g' = set_status g (node_id m) Skipped" "e = fail_fast_message (node_id m) r"
      using s Cons.prems(3) by auto
    moreover have "node (set_status g (node_id m) Skipped) (node_id m) = Some m"
      using Cons.prems(2) by (simp add: node_def)
    ultimately show ?thesis using d by (intro bexI [of _ m] bexI [of _ d] exI [of _ st]) simp_all
  qed (use Cons.prems in auto)
qed simp

lemma launch_loop_Inl:
  "rt_inv mx s \<Longrightarrow> launch_loop mx l s = (Inl e, s') \<Longrightarrow>
   \<exists>n d st. node (rt_graph s') (node_id n) = Some n \<and> d \<in> set (dependencies n)
     \<and> on_dependency_failure (policy n) = FailFast \<and> status (rt_graph s') d = Some st
     \<and> (st = Failed \<or> st = Skipped) \<and> e = fail_fast_message (node_id n) (dep_reason d st)"
proof (induction mx l s rule: launch_loop.induct)
  case (1 mx l s)
  note wf = rt_inv_wf [OF 1(2)]
  have len: "length (rt_running s) < mx"
    using 1(3) by (subst (asm) launch_loop.simps) (auto split: if_splits)
  obtain a g where sel: "select_next_node (rt_graph s) (rt_running s) (rt_by_role s) = (a, g)"
    by fastforce
  consider "a = Inl e" "s' = s\<lparr>rt_graph := g\<rparr>" | n where "a = Inr (Some n)"
    using 1(3) len sel by (subst (asm) launch_loop.simps) (auto split: sum.splits option.splits)
  then show ?case
  proof cases
    case 1
    have "\<forall>m\<in>set (sort_key node_id (pending_nodes (rt_graph s))). node (rt_graph s) (node_id m) = Some m"
      by (simp add: pending_nodes_iff [OF wf])
    from select_loop_Inl [OF wf this sel [unfolded select_next_node_def 1(1)]] 1(2)
    show ?thesis by auto
  next
    case (2 n)
    have inv: "rt_inv mx (s\<lparr>rt_graph := g\<rparr>)"
      using rt_inv_quiet [OF 1(2) select_next_quiet [OF wf sel]] .
    have "rt_inv mx (launch (s\<lparr>rt_graph := g\<rparr>) n)"
      using select_next_Some [OF wf sel [unfolded 2]] len
        quiet_node [OF select_next_quiet [OF wf sel], of "node_id n"]
      by (intro rt_inv_launch [OF inv]) simp_all
    moreover have "launch_loop mx True (launch (s\<lparr>rt_graph := g\<rparr>) n) = (Inl e, s')"
      using 1(3) len sel 2 by (subst (asm) launch_loop.simps) simp
    ultimately show ?thesis using 1(1) [OF len sel [symmetric] 2 refl] by blast
  qed
qed

lemma add_dynamic_Inl:
  "rt_inv mx s \<Longrightarrow> add_dynamic_nodes s f ds = (Inl e, s') \<Longrightarrow>
     \<exists>d\<in>set ds. \<exists>ge. fst (add_node (rt_graph s') d) = Inl ge \<and> e = show_graph_error ge"
proof (induction ds arbitrary: s)
  case (Cons d ds)
  obtain a g where a: "add_node (rt_graph s) d = (a, g)" by fastforce
  show ?case
  proof (cases a)
    case (Inl ge)
    then have "g = rt_graph s"
      using a by (auto simp: add_node_eq [OF rt_inv_wf [OF Cons.prems(1)]] split: if_splits option.splits)
    with Inl a Cons.prems(2) show ?thesis by auto
  next
    case (Inr u)
    have "rt_inv mx (emit (s\<lparr>rt_graph := g\<rparr>) (DynamicNodeAdded (node_id d) f (role d)
        (dependencies d) (Option.bind (node g (node_id d)) assigned_persona)))"
      using rt_inv_emit [OF _ rt_inv_add_node [OF Cons.prems(1) a]] by simp
    from Cons.IH [OF this] Inr a Cons.prems(2) show ?thesis by auto
  qed
qed simp

lemma resolve_loop_True: "fst (resolve_loop s True ns)"
  by (induction s True ns rule: resolve_loop.induct)
    (auto simp: Let_def split: dependency_failure_policy.split)

lemma resolve_loop_stuck:
  "resolve_loop s False ns = (False, s') \<Longrightarrow> s' = s \<and> (\<forall>n\<in>set ns.
     has_unresolved (dep_statuses (rt_graph s) n) \<or> \<not> has_failed_deps (dep_statuses (rt_graph s) n))"
proof (induction ns arbitrary: s)
  case (Cons n ns)
  have "\<not> resolve_loop t True ns = (False, s')" for t
    using resolve_loop_True [of t ns] by auto
  with Cons show ?case by (auto simp: Let_def split: if_splits dependency_failure_policy.splits)
qed simp

text \<open>A pending node none of whose dependencies is pending, when there is a pending node.\<close>

lemma minimal_pending:
  assumes wf: "graph_wf g" and p: "status g i = Some Pending"
  obtains m where "node g (node_id m) = Some m" "status g (node_id m) = Some Pending"
    "\<forall>d\<in>set (dependencies m). status g d \<noteq> Some Pending"
proof -
  have "dep_rel g \<subseteq> set (hm_keys (nodes g)) \<times> set (hm_keys (nodes g))"
    using wf deps_of_absent [of g] by (auto simp: graph_wf_def hm_contains_keys) fastforce
  then have "finite (dep_rel g)" by (rule finite_subset) simp
  moreover have "acyclic (dep_rel g)" using wf by (simp add: graph_wf_def)
  ultimately have "wf ((dep_rel g)\<inverse>)" by (rule finite_acyclic_wf_converse)
  then obtain j where j: "status g j = Some Pending"
    "\<And>y. (y, j) \<in> (dep_rel g)\<inverse> \<Longrightarrow> status g y \<noteq> Some Pending"
    using p by (elim wfE_min [of _ i "{i. status g i = Some Pending}"]) auto
  obtain m where m: "node g j = Some m" using status_Some_iff [OF wf, of j] j(1) by auto
  then have "node_id m = j" by (rule graph_wf_node_id [OF wf])
  with m j show thesis by (intro that [of m]) (auto simp: deps_of_node [OF m])
qed

lemma dep_statuses_stuck:
  assumes "graph_wf g" "node g (node_id m) = Some m"
    and "has_unresolved (dep_statuses g m) \<or> \<not> has_failed_deps (dep_statuses g m)"
    and "\<forall>d\<in>set (dependencies m). status g d \<noteq> Some Pending \<and> status g d \<noteq> Some Running"
  shows "\<forall>d\<in>set (dependencies m). status g d = Some Succeeded"
proof
  fix d assume d: "d \<in> set (dependencies m)"
  obtain st where st: "status g d = Some st" using dep_status_known [OF assms(1,2) d] .
  have "\<not> has_unresolved (dep_statuses g m)"
    using assms(4) by (auto simp: has_unresolved_def list_ex_iff set_dep_statuses is_terminal_iff)
  then have "st \<noteq> Failed" "st \<noteq> Skipped"
    using assms(3) d st by (auto simp: has_failed_deps_def list_ex_iff set_dep_statuses)
  with assms(4) d st show "status g d = Some Succeeded" by (cases st) auto
qed

lemma idle_tasks: "rt_inv mx s \<Longrightarrow> rt_running s = [] \<Longrightarrow>
    rt_joins s = [] \<and> role_count (rt_by_role s) r = 0"
  by (simp add: rt_inv_def tasks_ok_def tasks_def)

lemma deadlock_cause:
  assumes inv: "rt_inv mx s" and mx: "0 < mx"
    and l: "launch_loop mx False s = (Inr False, s1)" and run: "rt_running s1 = []"
    and live: "\<not> all_terminal (rt_graph s1)" and stuck: "resolve_blocked_nodes s1 = (False, t)"
  shows "t = s1 \<and> (\<exists>n. node (rt_graph t) (node_id n) = Some n
      \<and> status (rt_graph t) (node_id n) = Some Pending \<and> is_fallback_only (rt_graph t) (node_id n)
      \<and> (\<forall>d\<in>set (dependencies n). status (rt_graph t) d = Some Succeeded))"
proof -
  have inv1: "rt_inv mx s1" using launch_loop_inv [OF inv l] .
  note wf = rt_inv_wf [OF inv] and wf1 = rt_inv_wf [OF inv1]
  have "rt_running s = []" using launch_loop_False [OF l] run by auto
  then obtain g where sel: "select_next_node (rt_graph s) (rt_running s) (rt_by_role s) = (Inr None, g)"
    and s1: "s1 = s\<lparr>rt_graph := g\<rparr>"
    using launch_loop_False [OF l] mx by auto
  obtain i st where "status g i = Some st" "\<not> is_terminal st"
    using live wf1 by (auto simp: all_terminal_iff s1)
  then have "status g i = Some Pending"
    using not_running_idle [OF inv1 run, of i] by (auto simp: is_terminal_iff s1)
  then obtain m where m: "node g (node_id m) = Some m" "status g (node_id m) = Some Pending"
    "\<forall>d\<in>set (dependencies m). status g d \<noteq> Some Pending"
    using wf1 minimal_pending [of g i] by (auto simp: s1)
  have t: "t = s1" "\<And>n. n \<in> set (pending_nodes g) \<Longrightarrow>
      has_unresolved (dep_statuses g n) \<or> \<not> has_failed_deps (dep_statuses g n)"
    using resolve_loop_stuck [of s1 "pending_nodes g" t] stuck
    by (auto simp: resolve_blocked_nodes_def s1)
  have deps: "\<forall>d\<in>set (dependencies m). status g d = Some Succeeded"
    using dep_statuses_stuck [of g m] m t(2) [of m] wf1 pending_nodes_iff [of g m]
      not_running_idle [OF inv1 run] by (auto simp: s1)
  have q: "quiet (rt_graph s) g" using select_next_quiet [OF wf sel] .
  have m0: "node (rt_graph s) (node_id m) = Some m" "status (rt_graph s) (node_id m) = Some Pending"
    using m(1,2) quiet_node [OF q] quiet_status_rev [OF q] by auto
  obtain g0 where g0: "calm (rt_graph s) g0" "calm g0 g" "is_runnable g0 m = Blocked"
    using select_next_None(2) [OF wf sel m0] m(2) idle_tasks [OF inv \<open>rt_running s = []\<close>]
      \<open>rt_running s = []\<close> by auto
  have "is_fallback_only g0 (node_id m)"
  proof (rule ccontr)
    assume "\<not> is_fallback_only g0 (node_id m)"
    then have "check_dep_states (on_dependency_failure (policy m)) (dep_statuses g0 m) = Blocked"
      using g0(3) by (simp add: is_runnable_def split: if_splits)
    then obtain d st where d: "d \<in> set (dependencies m)" "status g0 d = Some st"
      "st = Pending \<or> st = Running"
      using check_dep_states_Blocked by (fastforce simp: set_dep_statuses)
    have "status g0 d = Some Succeeded"
      using deps d(1) g0(2) quiet_status_rev [of g0 g d Succeeded] by (auto simp: calm_def)
    with d show False by auto
  qed
  then have "is_fallback_only g (node_id m)"
    using g0(2) by (simp add: calm_def quiet_def is_fallback_only_def)
  with m deps t(1) show ?thesis by (auto simp: s1)
qed

text \<open>
  C22: every way a pass of the loop can fail. The error is that of a node whose fail-fast
  policy met a failed or skipped dependency, the panic of a task, the error of the completion
  callback, the refusal of a node that callback added, or the deadlock error; and the latter
  only when no task is in flight and a node reserved as a fallback is pending although all its
  dependencies succeeded. A graph without fallback nodes never deadlocks.
\<close>

theorem abort_causes:
  assumes "reachable run_init (run_step mx) s" and "0 < mx" and "loop_iter mx inp s = Aborted e t"
  shows "(\<exists>n d st. node (rt_graph t) (node_id n) = Some n \<and> d \<in> set (dependencies n)
        \<and> on_dependency_failure (policy n) = FailFast \<and> status (rt_graph t) d = Some st
        \<and> (st = Failed \<or> st = Skipped) \<and> e = fail_fast_message (node_id n) (dep_reason d st))
    \<or> li_join inp = Inl e \<or> li_completed inp = Inl e
    \<or> (\<exists>ds ks d ge. li_completed inp = Inr (ds, ks) \<and> d \<in> set ds
        \<and> fst (add_node (rt_graph t) d) = Inl ge \<and> e = show_graph_error ge)
    \<or> e = deadlock_message \<and> rt_joins t = [] \<and> (\<exists>n. node (rt_graph t) (node_id n) = Some n
        \<and> status (rt_graph t) (node_id n) = Some Pending \<and> is_fallback_only (rt_graph t) (node_id n)
        \<and> (\<forall>d\<in>set (dependencies n). status (rt_graph t) d = Some Succeeded))"
    (is "?failfast \<or> _ \<or> _ \<or> ?dynamic \<or> ?deadlock")
proof -
  note inv = reachable_rt_inv [OF assms(1)]
  obtain r s1 where s1: "(if \<not> li_cancel inp \<and> \<not> li_pause inp then launch_loop mx False s
            else (Inr False, s)) = (r, s1)" by fastforce
  have inv1: "rt_inv mx s1" using s1 inv launch_loop_inv [OF inv] by (auto split: if_splits)
  consider (sel) "r = Inl e" "s1 = t"
    | (idle) "r = Inr False" "rt_running s1 = []" "idle_step inp s1 = Aborted e t"
    | (join) "join_step inp s1 = Aborted e t"
    using assms(3) s1 by (auto simp: loop_iter_def split: sum.splits if_splits)
  then show ?thesis
  proof cases
    case sel
    then have "launch_loop mx False s = (Inl e, t)" using s1 by (auto split: if_splits)
    from launch_loop_Inl [OF inv this] show ?thesis by blast
  next
    case idle
    then have l: "launch_loop mx False s = (Inr False, s1)" "\<not> all_terminal (rt_graph s1)"
      "resolve_blocked_nodes s1 = (False, t)" and e: "e = deadlock_message"
      using s1 by (auto simp: idle_step_def finish_def split: if_splits prod.splits)
    note d = deadlock_cause [OF inv assms(2) l(1) idle(2) l(2,3)]
    have "rt_joins t = []" using d idle_tasks [OF inv1 idle(2)] by simp
    with d e have ?deadlock by blast
    then show ?thesis by blast
  next
    case join
    then consider "li_join inp = Inl e" | k run n s2 where "rt_joins s1 \<noteq> []"
      "take_task k s1 = (n, s2)"
      "handle_joined s2 n (execute_node_with_policy n run) (li_completed inp) = (Inl e, t)"
      by (auto simp: join_step_def split: if_splits sum.splits prod.splits)
    then show ?thesis
    proof cases
      case 2
      obtain ok where ok: "execute_node_with_policy n run = Inr ok"
        using 2(3) handle_joined_eq(1) [OF 2(2)]
        by (cases "execute_node_with_policy n run") auto
      have succ: "res_succeeded ok" using ok by (rule execute_Inr_succeeded)
      obtain p tr where p: "truncate_for_event (res_output ok) node_output_preview_chars = (p, tr)"
        by fastforce
      define s3 where "s3 = skip_unneeded_fallback (emit (settle k s1 Succeeded ok) (NodeCompleted
        (node_id n) (role n) (res_model ok) (res_duration_ms ok) p tr (res_token_usage ok)
        (assigned_persona n))) n"
      have "rt_inv mx (settle k s1 Succeeded ok)"
        by (rule rt_inv_settle [OF inv1 2(1), of k n]) (simp_all add: 2(2) succ)
      then have i3: "rt_inv mx (skip_superseded s3 ks)" for ks by (simp add: s3_def inv_intros)
      have h: "(case li_completed inp of Inl e \<Rightarrow> (Inl e, s3)
        | Inr (ds, ks) \<Rightarrow> add_dynamic_nodes (skip_superseded s3 ks) (node_id n) ds) = (Inl e, t)"
        using 2(3) unfolding ok handle_joined_eq(2) [OF 2(2) succ] p s3_def by (simp add: Let_def)
      show ?thesis
      proof (cases "li_completed inp")
        case (Inr q)
        with h add_dynamic_Inl [OF i3] show ?thesis by (cases q) fastforce
      qed (use h in simp)
    qed simp
  qed
qed

text \<open>
  A graph in which the node \<open>z\<close> asks for its fallback when its dependency \<open>a\<close> failed; the
  fallback's id is an argument.
\<close>

definition fallback_graph :: "string \<Rightarrow> execution_graph" where
  "fallback_graph fb = snd (add_nodes (new_graph 2)
     [new_node ''a'' Planner ''x'',
      (new_node ''z'' Coder ''y'')\<lparr>dependencies := [''a''], policy := default_policy
        \<lparr>on_dependency_failure := FallbackNode, fallback_node := Some fb\<rparr>\<rparr>,
      new_node fb Coder ''w''])"

definition fail_input :: loop_input where
  "fail_input = ok_input\<lparr>li_join := Inr (0, \<lambda>k. Errored ''boom'')\<rparr>"

definition fallback_state :: rt_state where
  "fallback_state = outcome_state (loop_iter 2 fail_input (start_state (fallback_graph ''b'')))"

lemma fallback_graph_fresh: "fresh_graph (fallback_graph fb)"
  unfolding fallback_graph_def by (intro with_nodes_fresh fresh_new_graph)

lemma fallback_pass:
  "case loop_iter 2 fail_input (start_state (fallback_graph ''b'')) of
     Continue s \<Rightarrow> (case loop_iter 2 ok_input s of
        Aborted e t \<Rightarrow> e = deadlock_message | _ \<Rightarrow> False)
   | _ \<Rightarrow> False"
  by code_simp

lemma fallback_state_reachable: "reachable run_init (run_step 2) fallback_state"
proof -
  have "run_init (start_state (fallback_graph ''b''))"
    using fallback_graph_fresh by (auto simp: run_init_def)
  moreover have "run_step 2 (start_state (fallback_graph ''b'')) fallback_state"
    using fallback_pass by (auto simp: run_step_def fallback_state_def intro!: exI [of _ fail_input]
        split: loop_outcome.splits)
  ultimately show ?thesis by (meson reach_init reach_step)
qed

theorem abort_causes_witness:
  "\<exists>t i. loop_iter 2 ok_input fallback_state = Aborted deadlock_message t
     \<and> status (rt_graph t) i = Some Pending \<and> is_fallback_only (rt_graph t) i"
proof -
  obtain t where t: "loop_iter 2 ok_input fallback_state = Aborted deadlock_message t"
    using fallback_pass by (auto simp: fallback_state_def split: loop_outcome.splits)
  have i: "li_join ok_input \<noteq> Inl deadlock_message" "li_completed ok_input = Inr ([], [])"
    by (simp_all add: ok_input_def)
  have f: "deadlock_message \<noteq> fail_fast_message x r" for x r
    by (simp add: deadlock_message_def fail_fast_message_def)
  show ?thesis
    using abort_causes [OF fallback_state_reachable _ t] i f t by simp blast
qed

text \<open>
  A forced fallback can be lost. When the selection skips a node and forces its fallback
  ready in the same scan, a fallback that sorts before the node was already passed over; the
  pass then finds nothing to launch and fails with the deadlock error although the fallback is
  pending and forced ready. The same graph whose fallback sorts after the node completes.
\<close>

theorem forced_fallback_lost:
  "(case execute_graph 2 [fail_input, ok_input, ok_input] (fallback_graph ''b'') of
      Aborted e t \<Rightarrow> e = deadlock_message \<and> status (rt_graph t) ''b'' = Some Pending
        \<and> is_forced_ready (rt_graph t) ''b''
    | _ \<Rightarrow> False)
   \<and> (case execute_graph 2 [fail_input, ok_input, ok_input] (fallback_graph ''zz'') of
      Finished out t \<Rightarrow> status (rt_graph t) ''zz'' = Some Succeeded
    | _ \<Rightarrow> False)"
  by (rule conjI; code_simp)

section \<open>Termination\<close>

definition pend :: "execution_graph \<Rightarrow> string set" where
  "pend g = {i. status g i = Some Pending}"

definition lazy :: "execution_graph \<Rightarrow> string set" where
  "lazy g = pend g - forced_ready g"

definition weight :: "execution_graph \<Rightarrow> nat" where
  "weight g = 2 * card (pend g) + card (lazy g)"

definition run_rank :: "rt_state \<Rightarrow> nat" where
  "run_rank s = weight (rt_graph s) + length (rt_joins s)"

lemma finite_pend: "finite (pend g)"
proof (rule finite_subset)
  show "pend g \<subseteq> {i. hm_get (statuses g) i \<noteq> None}" by (auto simp: pend_def status_def)
qed (rule hm.finite_dom)

lemma finite_lazy: "finite (lazy g)"
  by (simp add: lazy_def finite_pend)

lemma weight_mono:
  "pend g' \<subseteq> pend g \<Longrightarrow> lazy g' \<subseteq> lazy g \<Longrightarrow> weight g' \<le> weight g"
  unfolding weight_def by (intro add_mono mult_le_mono2 card_mono) (simp_all add: finite_pend finite_lazy)

lemma weight_less:
  assumes "pend g' \<subseteq> pend g" "lazy g' \<subseteq> lazy g" "i \<in> pend g - pend g' \<or> i \<in> lazy g - lazy g'"
  shows "weight g' < weight g"
  using assms(3)
proof
  assume "i \<in> pend g - pend g'"
  then have "card (pend g') < card (pend g)"
    using assms(1) by (intro psubset_card_mono) (auto simp: finite_pend)
  then show ?thesis using card_mono [OF finite_lazy assms(2)] by (simp add: weight_def)
next
  assume "i \<in> lazy g - lazy g'"
  then have "card (lazy g') < card (lazy g)"
    using assms(2) by (intro psubset_card_mono) (auto simp: finite_lazy)
  then show ?thesis using card_mono [OF finite_pend assms(1)] by (simp add: weight_def)
qed

lemma calm_pend: "calm g g' \<Longrightarrow> pend g' \<subseteq> pend g"
  using quiet_status_rev [of g g' _ Pending] by (auto simp: calm_def pend_def)

lemma calm_lazy: "calm g g' \<Longrightarrow> lazy g' \<subseteq> lazy g"
  using calm_pend [of g g'] by (auto simp: lazy_def calm_def)

lemma calm_weight: "calm g g' \<Longrightarrow> weight g' \<le> weight g"
  by (simp add: weight_mono calm_pend calm_lazy)

text \<open>A launch spends at least one unit.\<close>

lemma launch_rank:
  assumes "graph_wf (rt_graph s)"
    and sel: "select_next_node (rt_graph s) (rt_running s) (rt_by_role s) = (Inr (Some n), g)"
  shows "run_rank (launch (s\<lparr>rt_graph := g\<rparr>) n) < run_rank s"
proof -
  let ?g = "set_status g (node_id n) Running"
  obtain g0 where g0: "calm (rt_graph s) g0" "g = clear_forced_ready g0 (node_id n)"
    using select_loop_ready [OF assms(1) sel [unfolded select_next_node_def]]
    by (auto simp: pending_nodes_iff [OF assms(1)])
  have p: "node_id n \<in> pend g0"
    using select_next_Some(3) [OF assms(1) sel] by (simp add: pend_def g0(2))
  have ps: "pend ?g = pend g0 - {node_id n}"
    by (auto simp: pend_def status_set_status g0(2))
  then have "card (pend g0) = Suc (card (pend ?g))"
    using p by (metis card.remove finite_pend)
  moreover have "lazy ?g \<subseteq> lazy g0"
    unfolding lazy_def ps by (auto simp: g0(2) set_status_def clear_forced_ready_def)
  then have "card (lazy ?g) \<le> card (lazy g0)" by (rule card_mono [OF finite_lazy])
  ultimately have "weight ?g + 2 \<le> weight g0" by (simp add: weight_def)
  then have "weight ?g + 2 \<le> weight (rt_graph s)" using calm_weight [OF g0(1)] by simp
  then show ?thesis by (simp add: run_rank_def launch_def Let_def)
qed

lemma launch_loop_rank:
  "rt_inv mx s \<Longrightarrow> launch_loop mx l s = (Inr b, s') \<Longrightarrow>
     run_rank s' \<le> run_rank s \<and> (b \<longrightarrow> l \<or> rt_joins s' \<noteq> [])
     \<and> (rt_joins s \<noteq> [] \<longrightarrow> rt_joins s' \<noteq> [])"
proof (induction mx l s rule: launch_loop.induct)
  case (1 mx l s)
  note wf = rt_inv_wf [OF 1(2)]
  obtain a g where sel: "select_next_node (rt_graph s) (rt_running s) (rt_by_role s) = (a, g)"
    by fastforce
  consider "s' = s" "b = l" | "a = Inr None" "s' = s\<lparr>rt_graph := g\<rparr>" "b = l"
    | n where "length (rt_running s) < mx" "a = Inr (Some n)"
    using 1(3) sel
    by (subst (asm) launch_loop.simps) (auto split: sum.splits option.splits if_splits)
  then show ?case
  proof cases
    case 2
    then show ?thesis
      using calm_weight [OF select_next_None(1) [OF wf], of "rt_running s" "rt_by_role s" g] sel
      by (simp add: run_rank_def)
  next
    case (3 n)
    have inv: "rt_inv mx (s\<lparr>rt_graph := g\<rparr>)"
      using rt_inv_quiet [OF 1(2) select_next_quiet [OF wf sel]] .
    have "rt_inv mx (launch (s\<lparr>rt_graph := g\<rparr>) n)"
      using select_next_Some [OF wf sel [unfolded 3(2)]] 3(1)
        quiet_node [OF select_next_quiet [OF wf sel], of "node_id n"]
      by (intro rt_inv_launch [OF inv]) simp_all
    moreover have "launch_loop mx True (launch (s\<lparr>rt_graph := g\<rparr>) n) = (Inr b, s')"
      using 1(3) 3 sel by (subst (asm) launch_loop.simps) simp
    moreover have "rt_joins (launch (s\<lparr>rt_graph := g\<rparr>) n) \<noteq> []"
      by (simp add: launch_def Let_def)
    ultimately have "run_rank s' \<le> run_rank (launch (s\<lparr>rt_graph := g\<rparr>) n) \<and> rt_joins s' \<noteq> []"
      using 1(1) [OF 3(1) sel [symmetric] 3(2) refl] by blast
    then show ?thesis using launch_rank [OF wf sel [unfolded 3(2)]] by simp
  qed simp
qed

text \<open>A finished task gives its unit back; an added node brings at most three.\<close>

lemma weight_insert_node:
  assumes "graph_wf g" "\<not> hm_contains (nodes g) (node_id d)"
  shows "weight (insert_node g d) \<le> weight g + 3"
proof -
  have st: "status (insert_node g d) i = (if i = node_id d then Some Pending else status g i)" for i
    by (simp add: insert_node_def status_def hm_simps)
  have c: "card A \<le> Suc (card B)" if "A \<subseteq> insert x B" "finite B" for A B :: "string set" and x
    using card_mono [of "insert x B" A] that by (simp add: card_insert_if split: if_splits)
  have "pend (insert_node g d) \<subseteq> insert (node_id d) (pend g)"
    "lazy (insert_node g d) \<subseteq> insert (node_id d) (lazy g)"
    by (auto simp: pend_def lazy_def st split: if_splits) (auto simp: insert_node_def)
  then have "card (pend (insert_node g d)) \<le> Suc (card (pend g))"
    "card (lazy (insert_node g d)) \<le> Suc (card (lazy g))"
    by (simp_all add: c [OF _ finite_pend] c [OF _ finite_lazy])
  then show ?thesis by (simp add: weight_def)
qed

lemma add_dynamic_rank:
  "rt_inv mx s \<Longrightarrow> add_dynamic_nodes s f ds = (r, t) \<Longrightarrow>
     weight (rt_graph t) \<le> weight (rt_graph s) + 3 * length ds \<and> rt_joins t = rt_joins s"
proof (induction ds arbitrary: s)
  case (Cons d ds)
  note wf = rt_inv_wf [OF Cons.prems(1)]
  obtain a g where a: "add_node (rt_graph s) d = (a, g)" by fastforce
  have "weight g \<le> weight (rt_graph s) + 3"
    using a weight_insert_node [OF wf, of d]
    by (auto simp: add_node_eq [OF wf] split: if_splits option.splits)
  moreover have "rt_inv mx (emit (s\<lparr>rt_graph := g\<rparr>) (DynamicNodeAdded (node_id d) f (role d)
        (dependencies d) (Option.bind (node g (node_id d)) assigned_persona)))"
    using rt_inv_emit [OF _ rt_inv_add_node [OF Cons.prems(1) a]] by simp
  from Cons.IH [OF this] Cons.prems(2) a
  have "\<exists>u. a = Inr u \<Longrightarrow> weight (rt_graph t) \<le> weight g + 3 * length ds \<and> rt_joins t = rt_joins s"
    by auto
  moreover have "\<exists>e. a = Inl e \<Longrightarrow> rt_graph t = g \<and> rt_joins t = rt_joins s"
    using Cons.prems(2) a by auto
  ultimately show ?case by (cases a) auto
qed simp

lemma skip_superseded_calm:
  "graph_wf (rt_graph s) \<Longrightarrow> calm (rt_graph s) (rt_graph (skip_superseded s ks))
     \<and> rt_joins (skip_superseded s ks) = rt_joins s"
proof (induction s ks rule: skip_superseded.induct)
  case (2 s i ks)
  then show ?case using calm_skip [OF 2(3), of i] by (auto simp: wf_intros intro: calm_trans)
qed (simp add: calm_refl)

lemma skip_unneeded_calm:
  "graph_wf (rt_graph s) \<Longrightarrow> calm (rt_graph s) (rt_graph (skip_unneeded_fallback s n))
     \<and> rt_joins (skip_unneeded_fallback s n) = rt_joins s"
  by (simp add: skip_unneeded_fallback_def calm_refl calm_skip split: option.split)

lemma settle_rank:
  assumes "rt_joins s \<noteq> []" "st \<noteq> Pending"
  shows "Suc (run_rank (settle k s st r)) \<le> run_rank s"
proof -
  define i where "i = k mod length (rt_joins s)"
  have "i < length (rt_joins s)" using assms(1) by (simp add: i_def)
  then have "Suc (length (rt_joins (settle k s st r))) = length (rt_joins s)"
    by (simp add: settle_def take_task_def leave_running_def Let_def i_def [symmetric] min_def)
  moreover have g: "rt_graph (settle k s st r) =
      set_status (rt_graph s) (node_id (fst (take_task k s))) st"
    by (simp add: settle_def split: prod.split)
  have "pend (rt_graph (settle k s st r)) \<subseteq> pend (rt_graph s)"
    "forced_ready (rt_graph (settle k s st r)) = forced_ready (rt_graph s)"
    using assms(2) by (auto simp: g pend_def status_set_status split: if_splits)
      (auto simp: set_status_def)
  then have "weight (rt_graph (settle k s st r)) \<le> weight (rt_graph s)"
    by (intro weight_mono) (auto simp: lazy_def)
  ultimately show ?thesis by (simp add: run_rank_def)
qed

text \<open>The nodes the completion callback adds in a pass.\<close>

definition dyn_count :: "loop_input \<Rightarrow> nat" where
  "dyn_count inp = (case li_completed inp of Inl e \<Rightarrow> 0 | Inr (ds, ks) \<Rightarrow> length ds)"

lemma join_step_rank:
  assumes inv: "rt_inv mx s" and js: "rt_joins s \<noteq> []" and j: "join_step inp s = Continue t"
  shows "run_rank t < run_rank s + 3 * dyn_count inp"
proof -
  obtain k run n s1 u where t: "take_task k s = (n, s1)"
    and h: "handle_joined s1 n (execute_node_with_policy n run) (li_completed inp) = (Inr u, t)"
    using j js by (auto simp: join_step_def split: sum.splits prod.splits)
  show ?thesis
  proof (cases "execute_node_with_policy n run")
    case (Inl err)
    define s2 where "s2 = settle k s Failed (error_result n err)"
    have "rt_inv mx s2"
      unfolding s2_def by (rule rt_inv_settle [OF inv js, of k n]) (auto simp: t)
    then have "weight (force_fallback (rt_graph s2) n) \<le> weight (rt_graph s2)"
      by (intro calm_weight calm_force_fallback rt_inv_wf)
    moreover have "rt_graph t = force_fallback (rt_graph s2) n" "rt_joins t = rt_joins s2"
      using h by (auto simp: Inl handle_joined_eq(1) [OF t] s2_def)
    moreover have "Suc (run_rank s2) \<le> run_rank s" using settle_rank [OF js] by (simp add: s2_def)
    ultimately show ?thesis by (simp add: run_rank_def)
  next
    case (Inr ok)
    have succ: "res_succeeded ok" using Inr by (rule execute_Inr_succeeded)
    obtain p tr where p: "truncate_for_event (res_output ok) node_output_preview_chars = (p, tr)"
      by fastforce
    define s2 where "s2 = emit (settle k s Succeeded ok) (NodeCompleted (node_id n) (role n)
      (res_model ok) (res_duration_ms ok) p tr (res_token_usage ok) (assigned_persona n))"
    define s3 where "s3 = skip_unneeded_fallback s2 n"
    have i2: "rt_inv mx s2" unfolding s2_def
      by (intro rt_inv_emit rt_inv_settle [OF inv js, of k n]) (simp_all add: t succ)
    have i3: "rt_inv mx s3" using i2 by (simp add: s3_def inv_intros)
    have h': "(case li_completed inp of Inl e \<Rightarrow> (Inl e, s3)
        | Inr (ds, ks) \<Rightarrow> add_dynamic_nodes (skip_superseded s3 ks) (node_id n) ds) = (Inr u, t)"
      using h unfolding Inr handle_joined_eq(2) [OF t succ] p s3_def s2_def by (simp add: Let_def)
    then obtain ds ks where c: "li_completed inp = Inr (ds, ks)"
      and a: "add_dynamic_nodes (skip_superseded s3 ks) (node_id n) ds = (Inr u, t)"
      by (auto split: sum.splits)
    have "calm (rt_graph s2) (rt_graph (skip_superseded s3 ks))"
      "rt_joins (skip_superseded s3 ks) = rt_joins s2"
      using skip_unneeded_calm [OF rt_inv_wf [OF i2], of n]
        skip_superseded_calm [OF rt_inv_wf [OF i3], of ks] calm_trans
      by (auto simp: s3_def)
    moreover have "Suc (run_rank s2) \<le> run_rank s"
      using settle_rank [OF js, of Succeeded k ok] by (simp add: s2_def run_rank_def)
    moreover note add_dynamic_rank [OF rt_inv_skip_superseded [OF i3] a]
    ultimately show ?thesis
      using calm_weight by (fastforce simp: run_rank_def dyn_count_def c)
  qed
qed

lemma resolve_loop_progress:
  "graph_wf (rt_graph s) \<Longrightarrow> \<forall>n\<in>set ns. node (rt_graph s) (node_id n) = Some n \<Longrightarrow>
   resolve_loop s p ns = (q, t) \<Longrightarrow> calm (rt_graph s) (rt_graph t) \<and> rt_joins t = rt_joins s
     \<and> (q \<longrightarrow> p \<or> (\<exists>n\<in>set ns. status (rt_graph t) (node_id n) \<noteq> Some Pending
                          \<or> node_id n \<in> forced_ready (rt_graph t)))"
proof (induction ns arbitrary: s p)
  case (Cons n ns)
  consider "resolve_loop s p ns = (q, t)"
    | s' where "calm (rt_graph s) (rt_graph s')" "rt_joins s' = rt_joins s"
        "resolve_loop s' True ns = (q, t)"
        "status (rt_graph s') (node_id n) = Some Skipped \<or> node_id n \<in> forced_ready (rt_graph s')"
  proof (cases "has_unresolved (dep_statuses (rt_graph s) n) \<or>
      \<not> has_failed_deps (dep_statuses (rt_graph s) n)")
    case True
    then show thesis using Cons.prems(3) that(1) by (simp add: Let_def)
  next
    case False
    have n: "node (rt_graph s) (node_id n) = Some n" using Cons.prems(2) by simp
    then have st: "status (rt_graph s) (node_id n) \<noteq> None"
      using status_Some_iff [OF Cons.prems(1), of "node_id n"] by auto
    have sk: "status (set_status (rt_graph s) (node_id n) Skipped) (node_id n) = Some Skipped"
      "status (force_fallback (set_status (rt_graph s) (node_id n) Skipped) n) (node_id n) = Some Skipped"
      using st by (auto simp: force_fallback_def status_set_status split: option.split)
    have fr: "node_id n \<in> forced_ready (force_ready (rt_graph s) (node_id n))"
      using n by (simp add: force_ready_def hm_contains_def node_def)
    show thesis
    proof (cases "on_dependency_failure (policy n)")
      case FailFast
      then show thesis using False Cons.prems sk(1) calm_skip [OF Cons.prems(1), of "node_id n"]
        by (intro that(2)) (auto simp: Let_def)
    next
      case ContinueOnError
      then show thesis using False Cons.prems fr calm_force_ready [OF Cons.prems(1), of "node_id n"]
        by (intro that(2)) (auto simp: Let_def)
    next
      case FallbackNode
      then show thesis using False Cons.prems sk(2) calm_skip_force [OF Cons.prems(1), of "node_id n" n]
        by (intro that(2)) (auto simp: Let_def)
    qed
  qed
  then show ?case
  proof cases
    case 1
    then show ?thesis using Cons.IH [OF Cons.prems(1) _ 1] Cons.prems(2) by auto
  next
    case (2 s')
    have q: "quiet (rt_graph s) (rt_graph s')" using 2(1) by (simp add: calm_def)
    have ih: "calm (rt_graph s') (rt_graph t)" "rt_joins t = rt_joins s'"
      using Cons.IH [OF calm_wf [OF 2(1)] _ 2(3)] Cons.prems(2) quiet_node [OF q] by auto
    have "status (rt_graph t) (node_id n) \<noteq> Some Pending \<or> node_id n \<in> forced_ready (rt_graph t)"
      using 2(4) ih(1) quiet_status [of "rt_graph s'" "rt_graph t" "node_id n" Skipped]
      by (auto simp: calm_def)
    with 2(1,2) ih show ?thesis by (auto intro: calm_trans)
  qed
qed (simp add: calm_refl)

text \<open>An idle pass that goes on has skipped a pending node or forced a new one.\<close>

lemma idle_rank:
  assumes inv: "rt_inv mx s" and mx: "0 < mx"
    and l: "launch_loop mx False s = (Inr False, s1)" and run: "rt_running s1 = []"
    and r: "resolve_blocked_nodes s1 = (True, t)"
  shows "run_rank t < run_rank s"
proof -
  have inv1: "rt_inv mx s1" using launch_loop_inv [OF inv l] .
  note wf = rt_inv_wf [OF inv] and wf1 = rt_inv_wf [OF inv1]
  have run0: "rt_running s = []" using launch_loop_False [OF l] run by auto
  then obtain g where sel: "select_next_node (rt_graph s) (rt_running s) (rt_by_role s) = (Inr None, g)"
    and s1: "s1 = s\<lparr>rt_graph := g\<rparr>"
    using launch_loop_False [OF l] mx by auto
  have c: "calm (rt_graph s) g" using select_next_None(1) [OF wf sel] .
  have wfg: "graph_wf g" using wf1 by (simp add: s1)
  have "\<forall>n\<in>set (pending_nodes g). node (rt_graph s1) (node_id n) = Some n"
    by (simp add: s1 pending_nodes_iff [OF wfg])
  from resolve_loop_progress [OF wf1 this, of False True t] r
  have t: "calm g (rt_graph t)" "rt_joins t = rt_joins s"
    and p: "\<exists>n\<in>set (pending_nodes g). status (rt_graph t) (node_id n) \<noteq> Some Pending
      \<or> node_id n \<in> forced_ready (rt_graph t)"
    by (auto simp: resolve_blocked_nodes_def s1)
  from p obtain n where n: "node g (node_id n) = Some n" "status g (node_id n) = Some Pending"
    "node_id n \<notin> pend (rt_graph t) \<or> node_id n \<in> forced_ready (rt_graph t)"
    by (auto simp: pending_nodes_iff [OF wfg] pend_def)
  have q: "quiet (rt_graph s) g" using c by (simp add: calm_def)
  have n0: "node (rt_graph s) (node_id n) = Some n" "status (rt_graph s) (node_id n) = Some Pending"
    using n quiet_node [OF q] quiet_status_rev [OF q] by auto
  obtain g0 where g0: "calm (rt_graph s) g0" "is_runnable g0 n = Blocked"
    using select_next_None(2) [OF wf sel n0] n(2) idle_tasks [OF inv run0] run0 by auto
  then have "node_id n \<notin> forced_ready (rt_graph s)"
    by (auto simp: is_runnable_def calm_def is_forced_ready_def split: if_splits)
  with n(3) n0(2) have "node_id n \<in> pend (rt_graph s) - pend (rt_graph t)
      \<or> node_id n \<in> lazy (rt_graph s) - lazy (rt_graph t)"
    by (auto simp: lazy_def pend_def)
  moreover have "calm (rt_graph s) (rt_graph t)" using c t(1) by (rule calm_trans)
  ultimately have "weight (rt_graph t) < weight (rt_graph s)"
    by (intro weight_less calm_pend calm_lazy)
  then show ?thesis using t(2) by (simp add: run_rank_def)
qed

lemma loop_iter_rank:
  assumes inv: "rt_inv mx s" and mx: "0 < mx" and p: "\<not> li_pause inp"
    and i: "loop_iter mx inp s = Continue t"
  shows "run_rank t < run_rank s + 3 * dyn_count inp"
proof -
  obtain r s1 where s1: "(if \<not> li_cancel inp \<and> \<not> li_pause inp then launch_loop mx False s
            else (Inr False, s)) = (r, s1)" by fastforce
  have inv1: "rt_inv mx s1" using s1 inv launch_loop_inv [OF inv] by (auto split: if_splits)
  obtain b where b: "r = Inr b" using i s1 by (cases r) (auto simp: loop_iter_def)
  have le: "run_rank s1 \<le> run_rank s" and new: "b \<longrightarrow> rt_joins s1 \<noteq> []"
    using s1 b launch_loop_rank [OF inv, of False b s1] by (auto split: if_splits)
  have empty: "rt_running s1 = [] \<longleftrightarrow> rt_joins s1 = []"
  proof -
    have m: "mset (rt_running s1) = mset (map node_id (tasks s1))"
      using inv1 by (simp add: rt_inv_def tasks_ok_def)
    show ?thesis using mset_eq_length [OF m] by (simp add: tasks_def flip: length_0_conv)
  qed
  show ?thesis
  proof (cases "rt_running s1 = [] \<and> \<not> b")
    case True
    then have "idle_step inp s1 = Continue t" using i s1 b by (simp add: loop_iter_def)
    then have "\<not> li_cancel inp" "resolve_blocked_nodes s1 = (True, t)"
      using p by (auto simp: idle_step_def finish_def split: if_splits prod.splits)
    then have "run_rank t < run_rank s"
      using idle_rank [OF inv mx] s1 b True p by simp
    then show ?thesis by simp
  next
    case False
    then have "join_step inp s1 = Continue t" "rt_joins s1 \<noteq> []"
      using i s1 b new empty by (auto simp: loop_iter_def split: if_splits)
    from join_step_rank [OF inv1 this(2,1)] le show ?thesis by simp
  qed
qed

text \<open>
  The loop with a budget of nodes the callback may still add, as a machine whose rank bounds
  the length of every run.
\<close>

definition budget_init :: "rt_state \<times> nat \<Rightarrow> bool" where
  "budget_init sb \<longleftrightarrow> run_init (fst sb)"

definition budget_step :: "nat \<Rightarrow> rt_state \<times> nat \<Rightarrow> rt_state \<times> nat \<Rightarrow> bool" where
  "budget_step requested sb tb \<longleftrightarrow> (\<exists>inp. \<not> li_pause inp
     \<and> loop_iter (effective_parallelism requested) inp (fst sb) = Continue (fst tb)
     \<and> snd sb = snd tb + dyn_count inp)"

definition budget_rank :: "rt_state \<times> nat \<Rightarrow> nat" where
  "budget_rank sb = run_rank (fst sb) + 3 * snd sb"

interpretation budget_machine: ranked_machine budget_init "budget_step requested"
  "\<lambda>sb. rt_inv (effective_parallelism requested) (fst sb)" budget_rank for requested
proof unfold_locales
  have mx: "0 < effective_parallelism requested" by (simp add: effective_parallelism_def)
  fix sb tb
  show "budget_init sb \<Longrightarrow> rt_inv (effective_parallelism requested) (fst sb)"
    by (simp add: budget_init_def run_machine.init_inv)
  show "budget_step requested sb tb \<Longrightarrow> rt_inv (effective_parallelism requested) (fst sb) \<Longrightarrow>
      rt_inv (effective_parallelism requested) (fst tb)"
    unfolding budget_step_def by (metis loop_iter_inv outcome_state.simps(1))
  show "budget_step requested sb tb \<Longrightarrow> rt_inv (effective_parallelism requested) (fst sb) \<Longrightarrow>
      budget_rank tb < budget_rank sb"
    using loop_iter_rank [OF _ mx] by (fastforce simp: budget_step_def budget_rank_def)
qed

lemma run_loop_steps:
  "run_loop (effective_parallelism requested) inps s = Continue t \<Longrightarrow>
   \<forall>inp\<in>set inps. \<not> li_pause inp \<Longrightarrow> sum_list (map dyn_count inps) \<le> D \<Longrightarrow>
   (budget_step requested ^^ length inps) (s, D) (t, D - sum_list (map dyn_count inps))"
proof (induction inps arbitrary: s D)
  case (Cons inp inps)
  obtain s' where s': "loop_iter (effective_parallelism requested) inp s = Continue s'"
    and r: "run_loop (effective_parallelism requested) inps s' = Continue t"
    using Cons.prems(1) by (auto split: loop_outcome.splits)
  have "budget_step requested (s, D) (s', D - dyn_count inp)"
    using s' Cons.prems(2,3) unfolding budget_step_def by (intro exI [of _ inp]) simp
  moreover have "(budget_step requested ^^ length inps) (s', D - dyn_count inp)
      (t, D - dyn_count inp - sum_list (map dyn_count inps))"
    using Cons.prems(2,3) by (intro Cons.IH [OF r]) auto
  ultimately show ?case by (auto simp: relpowp_Suc_left simp del: relpowp.simps)
qed simp

lemma start_rank:
  assumes "graph_wf g"
  shows "run_rank (start_state g) \<le> 3 * length (hm_keys (nodes g))"
proof -
  have "pend g \<subseteq> set (hm_keys (nodes g))"
    using assms by (auto simp: pend_def status_def graph_wf_def dest!: hm_get_SomeD)
  then have "card (pend g) \<le> card (set (hm_keys (nodes g)))" by (rule card_mono [rotated]) simp
  also have "\<dots> \<le> length (hm_keys (nodes g))" by (rule card_length)
  finally have "card (pend g) \<le> length (hm_keys (nodes g))" .
  moreover have "card (lazy g) \<le> card (pend g)"
    by (intro card_mono finite_pend) (auto simp: lazy_def)
  ultimately show ?thesis by (simp add: run_rank_def weight_def start_state_def)
qed

text \<open>
  C6: the run loop terminates: on a graph of \<open>N\<close> untouched nodes, with no pause requested and
  at most \<open>D\<close> nodes added by the completion callback, every run ends, with a result or with an
  error, within \<open>3 * (N + D) + 1\<close> passes, whatever the nodes and the cancel flag do.
\<close>

theorem run_loop_terminates:
  assumes "fresh_graph g" and "\<forall>inp\<in>set inps. \<not> li_pause inp"
    and "sum_list (map dyn_count inps) \<le> D"
    and "3 * (length (hm_keys (nodes g)) + D) < length inps"
  shows "execute_graph requested inps g \<noteq> Continue t"
proof
  assume "execute_graph requested inps g = Continue t"
  then have "(budget_step requested ^^ length inps) (start_state g, D)
      (t, D - sum_list (map dyn_count inps))"
    using run_loop_steps assms(2,3) by (simp add: execute_graph_def)
  moreover have "rt_inv (effective_parallelism requested) (start_state g)"
    using assms(1) by (simp add: fresh_graph_def rt_inv_start)
  ultimately have "length inps \<le> budget_rank (start_state g, D)"
    using budget_machine.run_bounded by fastforce
  moreover have "budget_rank (start_state g, D) \<le> 3 * (length (hm_keys (nodes g)) + D)"
    using start_rank [of g] assms(1) by (simp add: budget_rank_def fresh_graph_def)
  ultimately show False using assms(4) by simp
qed

theorem run_loop_terminates_witness:
  "\<forall>t. execute_graph 2 (replicate 7 fail_input) pair_graph \<noteq> Continue t"
proof (rule allI, rule run_loop_terminates [OF pair_graph_fresh])
  show "\<forall>inp\<in>set (replicate 7 fail_input). \<not> li_pause inp"
    by (simp add: fail_input_def ok_input_def)
  show "sum_list (map dyn_count (replicate 7 fail_input)) \<le> 0"
    by (simp add: dyn_count_def fail_input_def ok_input_def sum_list_replicate)
  have "hm_keys (nodes pair_graph) = [''a'', ''b'']" by code_simp
  then show "3 * (length (hm_keys (nodes pair_graph)) + 0) < length (replicate 7 fail_input)"
    by simp
qed

end
