(* ===== verification/Plan.thy ===== *)
theory Plan
  imports Graph Text
begin

text \<open>
  \<^verbatim>\<open>validate_subtask_plan\<close> of \<^verbatim>\<open>src/orchestrator/completion.rs\<close>: the structural check of the
  plan a Planner node answers, with its iterative depth-first search for cycles (an explicit
  stack of nodes with a position in their neighbour lists, and a mark per node).

  Main result: the check accepts exactly the plans that satisfy its documented conditions,
  with an acyclic dependency relation among the subtasks.
\<close>

section \<open>Data\<close>

record subtask_definition =
  sd_id :: string
  sd_description :: string
  sd_role :: agent_role
  sd_dependencies :: "string list"
  sd_mcp_tools :: "string list"
  sd_instructions :: string

record subtask_plan =
  subtasks :: "subtask_definition list"

section \<open>The search\<close>

datatype mark = MPending | MVisiting | MDone

type_synonym adjacency = "(string, string list) hashmap"

definition neighbours :: "adjacency \<Rightarrow> string \<Rightarrow> string list" where
  "neighbours adj n = (case hm_get adj n of Some v \<Rightarrow> v | None \<Rightarrow> [])"

definition mark_of :: "(string, mark) hashmap \<Rightarrow> string \<Rightarrow> mark" where
  "mark_of st n = (case hm_get st n of Some m \<Rightarrow> m | None \<Rightarrow> MPending)"

lemma mark_of_insert [simp]: "mark_of (hm_insert st n m) x = (if x = n then m else mark_of st x)"
  by (simp add: mark_of_def hm_simps)

text \<open>The nodes a step can still push; each push uses one up.\<close>

definition unvisited :: "adjacency \<Rightarrow> (string, mark) hashmap \<Rightarrow> string set" where
  "unvisited adj st = {x \<in> \<Union> (set ` set (hm_values adj)). mark_of st x = MPending}"

lemma finite_unvisited: "finite (unvisited adj st)"
  by (simp add: unvisited_def)

lemma neighbours_in:
  assumes "x \<in> set (neighbours adj n)"
  shows "x \<in> \<Union> (set ` set (hm_values adj))"
proof (cases "hm_get adj n")
  case (Some v)
  then have "(n, v) \<in> set adj" by (simp add: hm_get_def map_of_SomeD)
  then have "v \<in> set (hm_values adj)" by (force simp: hm_values_def)
  with Some assms show ?thesis by (auto simp: neighbours_def)
qed (use assms in \<open>simp add: neighbours_def\<close>)

text \<open>
  The \<^verbatim>\<open>while let Some(&(node, idx)) = stack.last()\<close> loop; the stack's top is the head of the
  list. It answers the node a cycle reaches, or the marks.
\<close>

function dfs_stack ::
    "adjacency \<Rightarrow> (string \<times> nat) list \<Rightarrow> (string, mark) hashmap \<Rightarrow> string + (string, mark) hashmap"
where
  "dfs_stack adj [] st = Inr st"
| "dfs_stack adj ((n, idx) # stack) st =
     (if length (neighbours adj n) \<le> idx then dfs_stack adj stack (hm_insert st n MDone)
      else
        let nxt = neighbours adj n ! idx; stack' = (n, Suc idx) # stack in
        case mark_of st nxt of
          MVisiting \<Rightarrow> Inl nxt
        | MDone \<Rightarrow> dfs_stack adj stack' st
        | MPending \<Rightarrow> dfs_stack adj ((nxt, 0) # stack') (hm_insert st nxt MVisiting))"
  by pat_completeness auto
termination
proof (relation "measures
    [\<lambda>(adj, stack, st). card (unvisited adj st),
     \<lambda>(adj, stack, st). \<Sum>(n, i)\<leftarrow>stack. Suc (length (neighbours adj n) - i)]", goal_cases)
  case 1
  show ?case by simp
next
  case (2 adj n idx stack st)
  have "card (unvisited adj (hm_insert st n MDone)) \<le> card (unvisited adj st)"
    by (rule card_mono [OF finite_unvisited]) (auto simp: unvisited_def)
  then show ?case by auto
next
  case (3 adj n idx stack st nxt stack')
  then have "nxt \<in> unvisited adj st"
    using neighbours_in [of nxt adj n] by (auto simp: unvisited_def)
  then have "card (unvisited adj (hm_insert st nxt MVisiting)) < card (unvisited adj st)"
    by (intro psubset_card_mono finite_unvisited) (auto simp: unvisited_def)
  then show ?case by simp
next
  case (4 adj n idx stack st nxt stack')
  then show ?case by simp
qed

declare dfs_stack.simps(2) [simp del]

fun dfs_starts :: "adjacency \<Rightarrow> string list \<Rightarrow> (string, mark) hashmap \<Rightarrow> string + (string, mark) hashmap" where
  "dfs_starts adj [] st = Inr st"
| "dfs_starts adj (k # ks) st =
     (if mark_of st k \<noteq> MPending then dfs_starts adj ks st
      else (case dfs_stack adj [(k, 0)] (hm_insert st k MVisiting) of
              Inl e \<Rightarrow> Inl e
            | Inr st' \<Rightarrow> dfs_starts adj ks st'))"

section \<open>The check\<close>

definition subtask_ids :: "subtask_plan \<Rightarrow> string list" where
  "subtask_ids p = map sd_id (subtasks p)"

fun check_subtasks :: "subtask_definition list \<Rightarrow> string set \<Rightarrow> string option" where
  "check_subtasks [] seen = None"
| "check_subtasks (s # ss) seen =
     (if trim (sd_id s) = [] then Some ''subtask id must not be blank''
      else if trim (sd_instructions s) = [] \<and> trim (sd_description s) = []
      then Some (''subtask `'' @ sd_id s @ ''` has neither instructions nor description'')
      else if sd_id s \<in> seen then Some (''duplicate subtask id `'' @ sd_id s @ ''`'')
      else check_subtasks ss (insert (sd_id s) seen))"

fun check_dep_names :: "string \<Rightarrow> string set \<Rightarrow> string set \<Rightarrow> string list \<Rightarrow> string option" where
  "check_dep_names i known_static known_subtasks [] = None"
| "check_dep_names i known_static known_subtasks (d # ds) =
     (if trim d = [] then Some (''subtask `'' @ i @ ''` lists a blank dependency'')
      else if trim d \<notin> known_static \<and> trim d \<notin> known_subtasks
      then Some (''subtask `'' @ i @ ''` depends on unknown node `'' @ trim d @ ''`'')
      else check_dep_names i known_static known_subtasks ds)"

fun check_all_deps :: "string set \<Rightarrow> string set \<Rightarrow> subtask_definition list \<Rightarrow> string option" where
  "check_all_deps known_static known_subtasks [] = None"
| "check_all_deps known_static known_subtasks (s # ss) =
     (case check_dep_names (sd_id s) known_static known_subtasks (sd_dependencies s) of
        Some e \<Rightarrow> Some e | None \<Rightarrow> check_all_deps known_static known_subtasks ss)"

definition subtask_adjacency :: "subtask_plan \<Rightarrow> adjacency" where
  "subtask_adjacency p = foldl (\<lambda>m s. hm_insert m (sd_id s)
     (filter (\<lambda>d. d \<in> set (subtask_ids p)) (sd_dependencies s))) [] (subtasks p)"

definition validate_subtask_plan :: "subtask_plan \<Rightarrow> string list \<Rightarrow> nat \<Rightarrow> string + unit" where
  "validate_subtask_plan p static_ids max_subtasks =
     (if subtasks p = [] then Inl ''plan has no subtasks''
      else if length (subtasks p) > max_subtasks
      then Inl (''plan has '' @ show_nat (length (subtasks p)) @ '' subtasks, exceeding cap of ''
             @ show_nat max_subtasks)
      else (case check_subtasks (subtasks p) {} of
        Some e \<Rightarrow> Inl e
      | None \<Rightarrow> (case check_all_deps (set static_ids) (set (subtask_ids p)) (subtasks p) of
        Some e \<Rightarrow> Inl e
      | None \<Rightarrow>
          let adj = subtask_adjacency p in
          case dfs_starts adj (hm_keys adj) (map (\<lambda>k. (k, MPending)) (hm_keys adj)) of
            Inl nxt \<Rightarrow> Inl (''subtask plan contains a cycle reaching `'' @ nxt @ ''`'')
          | Inr st \<Rightarrow> Inr ())))"

section \<open>The search decides cyclicity\<close>

definition adj_rel :: "adjacency \<Rightarrow> (string \<times> string) set" where
  "adj_rel adj = {(n, d). d \<in> set (neighbours adj n)}"

definition done_set :: "(string, mark) hashmap \<Rightarrow> string set" where
  "done_set st = {x. mark_of st x = MDone}"

text \<open>
  The stack is a path: each entry's last taken neighbour is the entry above it, and the
  neighbours taken before are done.
\<close>

fun path_ok :: "adjacency \<Rightarrow> string set \<Rightarrow> string option \<Rightarrow> (string \<times> nat) list \<Rightarrow> bool" where
  "path_ok adj D up [] = True"
| "path_ok adj D None ((n, i) # stack) \<longleftrightarrow> i \<le> length (neighbours adj n)
     \<and> (\<forall>j<i. neighbours adj n ! j \<in> D) \<and> path_ok adj D (Some n) stack"
| "path_ok adj D (Some m) ((n, i) # stack) \<longleftrightarrow> 0 < i \<and> i \<le> length (neighbours adj n)
     \<and> neighbours adj n ! (i - 1) = m \<and> (\<forall>j<i - 1. neighbours adj n ! j \<in> D)
     \<and> path_ok adj D (Some n) stack"

definition search_ok :: "adjacency \<Rightarrow> (string \<times> nat) list \<Rightarrow> (string, mark) hashmap \<Rightarrow> bool" where
  "search_ok adj stack st \<longleftrightarrow> path_ok adj (done_set st) None stack
     \<and> distinct (map fst stack) \<and> (\<forall>x. mark_of st x = MVisiting \<longleftrightarrow> x \<in> fst ` set stack)
     \<and> settled (adj_rel adj) (done_set st)"

lemma path_ok_mono: "path_ok adj D a stack \<Longrightarrow> D \<subseteq> D' \<Longrightarrow> path_ok adj D' a stack"
  by (induction adj D a stack rule: path_ok.induct) auto

lemma path_ok_pop:
  "path_ok adj D (Some n) stack \<Longrightarrow> path_ok adj (insert n D) None stack"
proof (cases stack)
  case (Cons e rest)
  assume p: "path_ok adj D (Some n) stack"
  obtain m k where e: "e = (m, k)" by fastforce
  have "neighbours adj m ! j \<in> insert n D" if "j < k" for j
    using p that by (cases "j = k - 1") (auto simp: Cons e)
  with p show ?thesis by (auto simp: Cons e intro: path_ok_mono)
qed simp

lemma path_reaches:
  "path_ok adj D (Some m) stack \<Longrightarrow> x \<in> fst ` set stack \<Longrightarrow> (x, m) \<in> (adj_rel adj)\<^sup>+"
proof (induction stack arbitrary: m)
  case (Cons e rest)
  obtain n k where e: "e = (n, k)" by fastforce
  have nm: "(n, m) \<in> adj_rel adj"
    using Cons.prems(1) by (auto simp: e adj_rel_def in_set_conv_nth intro!: exI [of _ "k - 1"])
  show ?case
  proof (cases "x = n")
    case False
    then have "(x, n) \<in> (adj_rel adj)\<^sup>+" using Cons.prems by (intro Cons.IH) (auto simp: e)
    then show ?thesis using nm by (rule trancl_into_trancl)
  qed (use nm in auto)
qed simp

lemma dfs_stack_correct:
  "search_ok adj stack st \<Longrightarrow> (case dfs_stack adj stack st of
     Inl e \<Rightarrow> \<not> acyclic (adj_rel adj)
   | Inr st' \<Rightarrow> search_ok adj [] st' \<and> done_set st \<union> fst ` set stack \<subseteq> done_set st')"
proof (induction adj stack st rule: dfs_stack.induct)
  case (1 adj st)
  then show ?case by simp
next
  case (2 adj n idx stack st)
  have path: "idx \<le> length (neighbours adj n)" "\<forall>j<idx. neighbours adj n ! j \<in> done_set st"
    "path_ok adj (done_set st) (Some n) stack"
    and dist: "n \<notin> fst ` set stack" "distinct (map fst stack)"
    and vis: "\<And>x. mark_of st x = MVisiting \<longleftrightarrow> x \<in> insert n (fst ` set stack)"
    and set: "settled (adj_rel adj) (done_set st)"
    using 2(4) by (auto simp: search_ok_def)
  show ?case
  proof (cases "length (neighbours adj n) \<le> idx")
    case True
    have D: "done_set (hm_insert st n MDone) = insert n (done_set st)"
      by (auto simp: done_set_def)
    have "adj_rel adj `` {n} \<subseteq> done_set st"
      using path(1,2) True by (auto simp: adj_rel_def in_set_conv_nth)
    with set have "settled (adj_rel adj) (insert n (done_set st))" by (rule settled_insert)
    moreover have "mark_of (hm_insert st n MDone) x = MVisiting \<longleftrightarrow> x \<in> fst ` set stack" for x
      using vis [of x] dist(1) by auto
    ultimately have "search_ok adj stack (hm_insert st n MDone)"
      using path_ok_pop [OF path(3)] dist by (simp add: search_ok_def D)
    with 2(1) [OF True] True D show ?thesis
      by (auto simp: dfs_stack.simps(2) [of adj n idx] split: sum.splits)
  next
    case False
    let ?x = "neighbours adj n ! idx"
    have edge: "(n, ?x) \<in> adj_rel adj" using False by (simp add: adj_rel_def)
    show ?thesis
    proof (cases "mark_of st ?x")
      case MVisiting
      have "(?x, n) \<in> (adj_rel adj)\<^sup>*"
        using vis [of ?x] MVisiting path_reaches [OF path(3)] by (auto intro: trancl_into_rtrancl)
      with edge have "(n, n) \<in> (adj_rel adj)\<^sup>+" by (rule rtrancl_into_trancl2)
      with False MVisiting show ?thesis
        by (auto simp: acyclic_def dfs_stack.simps(2) [of adj n idx] Let_def)
    next
      case MDone
      have "search_ok adj ((n, Suc idx) # stack) st"
        using path dist vis set False MDone
        by (auto simp: search_ok_def less_Suc_eq) (simp add: done_set_def)
      with 2(3) [OF False refl refl MDone] False MDone show ?thesis
        by (simp add: dfs_stack.simps(2) [of adj n idx] Let_def split: sum.splits)
    next
      case MPending
      have nin: "?x \<notin> insert n (fst ` set stack)" using vis [of ?x] MPending by auto
      have D: "done_set (hm_insert st ?x MVisiting) = done_set st"
        using MPending by (auto simp: done_set_def)
      have "search_ok adj ((?x, 0) # (n, Suc idx) # stack) (hm_insert st ?x MVisiting)"
        using path dist vis set False nin by (auto simp: search_ok_def D)
      with 2(2) [OF False refl refl MPending] False MPending D show ?thesis
        by (simp add: dfs_stack.simps(2) [of adj n idx] Let_def split: sum.splits)
    qed
  qed
qed

lemma dfs_starts_correct:
  "search_ok adj [] st \<Longrightarrow> (case dfs_starts adj ks st of
     Inl e \<Rightarrow> \<not> acyclic (adj_rel adj)
   | Inr st' \<Rightarrow> search_ok adj [] st' \<and> done_set st \<union> set ks \<subseteq> done_set st')"
proof (induction ks arbitrary: st)
  case (Cons k ks)
  show ?case
  proof (cases "mark_of st k = MPending")
    case False
    then have "k \<in> done_set st" using Cons.prems by (cases "mark_of st k") (auto simp: search_ok_def done_set_def)
    with Cons.IH [OF Cons.prems] False show ?thesis by (auto split: sum.splits)
  next
    case True
    have D: "done_set (hm_insert st k MVisiting) = done_set st" using True by (auto simp: done_set_def)
    have "search_ok adj [(k, 0)] (hm_insert st k MVisiting)"
      using Cons.prems by (auto simp: search_ok_def D)
    from dfs_stack_correct [OF this] Cons.IH True D show ?thesis
      by (fastforce split: sum.splits)
  qed
qed simp

lemma dfs_starts_acyclic:
  assumes "Domain (adj_rel adj) \<subseteq> set ks"
  shows "(\<exists>st. dfs_starts adj ks (map (\<lambda>k. (k, MPending)) ks) = Inr st) \<longleftrightarrow> acyclic (adj_rel adj)"
proof -
  let ?st = "map (\<lambda>k. (k, MPending)) ks"
  have "mark_of ?st x = MPending" for x
    by (induction ks) (auto simp: mark_of_def hm_get_def split: if_splits)
  then have "search_ok adj [] ?st" by (simp add: search_ok_def done_set_def settled_empty)
  from dfs_starts_correct [OF this, of ks] show ?thesis
  proof (cases "dfs_starts adj ks ?st")
    case (Inr st)
    with dfs_starts_correct [OF \<open>search_ok adj [] ?st\<close>, of ks]
    have "settled (adj_rel adj) (done_set st)" "set ks \<subseteq> done_set st"
      by (auto simp: search_ok_def)
    with assms have "acyclic (adj_rel adj)" by (intro settled_acyclic [of _ "done_set st"]) auto
    with Inr show ?thesis by simp
  qed auto
qed

text \<open>The dependency relation among the subtasks.\<close>

definition plan_edges :: "subtask_plan \<Rightarrow> (string \<times> string) set" where
  "plan_edges p = {(sd_id s, d) | s d.
     s \<in> set (subtasks p) \<and> d \<in> set (sd_dependencies s) \<and> d \<in> set (subtask_ids p)}"

lemma get_collected:
  "distinct (map k xs) \<Longrightarrow> hm_get (foldl (\<lambda>m x. hm_insert m (k x) (v x)) m0 xs) i =
     (case find (\<lambda>x. k x = i) xs of Some x \<Rightarrow> Some (v x) | None \<Rightarrow> hm_get m0 i)"
proof (induction xs arbitrary: m0)
  case (Cons x xs)
  have "k x \<notin> k ` set xs" using Cons.prems by simp
  then have "k y \<noteq> k x" if "y \<in> set xs" for y using that by (metis imageI)
  then have "find (\<lambda>y. k y = k x) xs = None" by (auto simp: find_None_iff)
  with Cons show ?case by (auto simp: hm_simps split: option.split)
qed simp

lemma find_distinct:
  "distinct (map k xs) \<Longrightarrow> x \<in> set xs \<Longrightarrow> find (\<lambda>y. k y = k x) xs = Some x"
  by (induction xs) (auto simp: image_iff)

lemma get_adjacency:
  assumes "distinct (subtask_ids p)"
  shows "s \<in> set (subtasks p) \<Longrightarrow> hm_get (subtask_adjacency p) (sd_id s) =
      Some (filter (\<lambda>d. d \<in> set (subtask_ids p)) (sd_dependencies s))"
    and "i \<notin> set (subtask_ids p) \<Longrightarrow> hm_get (subtask_adjacency p) i = None"
proof -
  let ?v = "\<lambda>s. filter (\<lambda>d. d \<in> set (subtask_ids p)) (sd_dependencies s)"
  have g: "hm_get (subtask_adjacency p) i =
      (case find (\<lambda>s. sd_id s = i) (subtasks p) of Some s \<Rightarrow> Some (?v s) | None \<Rightarrow> None)" for i
    using get_collected [of sd_id "subtasks p" ?v "[]" i] assms
    by (simp add: subtask_adjacency_def subtask_ids_def hm_get_Nil split: option.split)
  show "hm_get (subtask_adjacency p) (sd_id s) = Some (?v s)" if "s \<in> set (subtasks p)"
    using find_distinct [of sd_id "subtasks p" s] that assms by (simp add: g subtask_ids_def)
  show "hm_get (subtask_adjacency p) i = None" if "i \<notin> set (subtask_ids p)"
  proof -
    have "find (\<lambda>s. sd_id s = i) (subtasks p) = None"
      using that by (auto simp: subtask_ids_def find_None_iff)
    then show ?thesis by (simp add: g)
  qed
qed

lemma keys_adjacency:
  assumes "distinct (subtask_ids p)"
  shows "set (hm_keys (subtask_adjacency p)) = set (subtask_ids p)"
proof (intro set_eqI iffI)
  fix x
  show "x \<in> set (subtask_ids p)" if "x \<in> set (hm_keys (subtask_adjacency p))"
    using get_adjacency(2) [OF assms, of x] that by (cases "x \<in> set (subtask_ids p)") (simp_all add: set_hm_keys)
  assume "x \<in> set (subtask_ids p)"
  then obtain s where "s \<in> set (subtasks p)" "sd_id s = x" by (auto simp: subtask_ids_def)
  then show "x \<in> set (hm_keys (subtask_adjacency p))"
    using get_adjacency(1) [OF assms, of s] by (simp add: set_hm_keys)
qed

lemma rel_adjacency:
  assumes "distinct (subtask_ids p)"
  shows "adj_rel (subtask_adjacency p) = plan_edges p"
proof -
  have "d \<in> set (neighbours (subtask_adjacency p) n) \<longleftrightarrow> (n, d) \<in> plan_edges p" for n d
  proof (cases "n \<in> set (subtask_ids p)")
    case True
    then obtain s where s: "s \<in> set (subtasks p)" "sd_id s = n" by (auto simp: subtask_ids_def)
    have u: "t = s" if "t \<in> set (subtasks p)" "sd_id t = n" for t
      using assms s that by (auto simp: subtask_ids_def distinct_map dest: inj_onD)
    have "neighbours (subtask_adjacency p) n =
        filter (\<lambda>d. d \<in> set (subtask_ids p)) (sd_dependencies s)"
      using get_adjacency(1) [OF assms s(1)] s(2) by (simp add: neighbours_def)
    then have "d \<in> set (neighbours (subtask_adjacency p) n) \<longleftrightarrow>
        d \<in> set (sd_dependencies s) \<and> d \<in> set (subtask_ids p)" by auto
    also have "\<dots> \<longleftrightarrow> (n, d) \<in> plan_edges p"
      unfolding plan_edges_def using u s by blast
    finally show ?thesis .
  next
    case False
    then have "neighbours (subtask_adjacency p) n = []"
      using get_adjacency(2) [OF assms False] by (simp add: neighbours_def)
    with False show ?thesis by (auto simp: plan_edges_def subtask_ids_def)
  qed
  then show ?thesis by (auto simp: adj_rel_def)
qed

lemma check_subtasks_None:
  "check_subtasks ss seen = None \<longleftrightarrow> distinct (map sd_id ss) \<and> sd_id ` set ss \<inter> seen = {}
     \<and> (\<forall>s\<in>set ss. trim (sd_id s) \<noteq> []
          \<and> (trim (sd_instructions s) \<noteq> [] \<or> trim (sd_description s) \<noteq> []))"
  by (induction ss arbitrary: seen) auto

lemma check_dep_names_None:
  "check_dep_names i ks kt ds = None \<longleftrightarrow> (\<forall>d\<in>set ds. trim d \<noteq> [] \<and> (trim d \<in> ks \<or> trim d \<in> kt))"
  by (induction ds) auto

lemma check_all_deps_None:
  "check_all_deps ks kt ss = None \<longleftrightarrow> (\<forall>s\<in>set ss. \<forall>d\<in>set (sd_dependencies s).
     trim d \<noteq> [] \<and> (trim d \<in> ks \<or> trim d \<in> kt))"
proof (induction ss)
  case (Cons s ss)
  show ?case
    using Cons check_dep_names_None [of "sd_id s" ks kt "sd_dependencies s"]
    by (cases "check_dep_names (sd_id s) ks kt (sd_dependencies s)") auto
qed simp

section \<open>Properties\<close>

text \<open>
  C12: the plan check accepts a plan exactly when it has between one and \<open>max\<close> subtasks with
  distinct, non-blank ids, each with instructions or a description, every dependency names
  (up to surrounding white space) a subtask or a static node, and the dependencies among the
  subtasks have no cycle.
\<close>

theorem validate_subtask_plan_iff:
  "validate_subtask_plan p static_ids max_subtasks = Inr () \<longleftrightarrow>
     subtasks p \<noteq> [] \<and> length (subtasks p) \<le> max_subtasks \<and> distinct (subtask_ids p)
   \<and> (\<forall>s\<in>set (subtasks p). trim (sd_id s) \<noteq> []
        \<and> (trim (sd_instructions s) \<noteq> [] \<or> trim (sd_description s) \<noteq> []))
   \<and> (\<forall>s\<in>set (subtasks p). \<forall>d\<in>set (sd_dependencies s). trim d \<noteq> []
        \<and> (trim d \<in> set static_ids \<or> trim d \<in> set (subtask_ids p)))
   \<and> acyclic (plan_edges p)"
proof (cases "subtasks p \<noteq> [] \<and> length (subtasks p) \<le> max_subtasks
    \<and> check_subtasks (subtasks p) {} = None
    \<and> check_all_deps (set static_ids) (set (subtask_ids p)) (subtasks p) = None")
  case False
  then show ?thesis
    by (auto simp: validate_subtask_plan_def check_subtasks_None check_all_deps_None subtask_ids_def
        split: option.split)
next
  case True
  let ?adj = "subtask_adjacency p"
  have dist: "distinct (subtask_ids p)" using True by (simp add: check_subtasks_None subtask_ids_def)
  have "Domain (adj_rel ?adj) \<subseteq> set (hm_keys ?adj)"
    by (auto simp: adj_rel_def neighbours_def set_hm_keys split: option.splits dest: sym)
  from dfs_starts_acyclic [OF this]
  have "validate_subtask_plan p static_ids max_subtasks = Inr () \<longleftrightarrow> acyclic (plan_edges p)"
    using True by (auto simp: validate_subtask_plan_def Let_def rel_adjacency [OF dist]
        split: sum.splits)
  with True show ?thesis
    by (auto simp: check_subtasks_None check_all_deps_None subtask_ids_def)
qed

definition sample_subtask :: "string \<Rightarrow> string list \<Rightarrow> subtask_definition" where
  "sample_subtask i deps = \<lparr>sd_id = i, sd_description = ''do it'', sd_role = Coder,
     sd_dependencies = deps, sd_mcp_tools = [], sd_instructions = ''''\<rparr>"

theorem validate_subtask_plan_iff_witness:
  "validate_subtask_plan \<lparr>subtasks = [sample_subtask ''b'' [''a''], sample_subtask ''a'' [''plan'']]\<rparr>
     [''plan''] 50 = Inr ()
   \<and> acyclic (plan_edges \<lparr>subtasks = [sample_subtask ''b'' [''a''], sample_subtask ''a'' [''plan'']]\<rparr>)"
proof -
  let ?p = "\<lparr>subtasks = [sample_subtask ''b'' [''a''], sample_subtask ''a'' [''plan'']]\<rparr>"
  have "validate_subtask_plan ?p [''plan''] 50 = Inr ()" by code_simp
  with validate_subtask_plan_iff [of ?p "[''plan'']" 50] show ?thesis by blast
qed

end
