(* ===== verification/Graph_Builder.thy ===== *)
theory Graph_Builder
  imports Runtime
begin

text \<open>
  Construction of execution graphs: \<^verbatim>\<open>src/orchestrator/graph_builder.rs\<close>, with
  \<^verbatim>\<open>trim_for_context\<close> of \<^verbatim>\<open>context_builder.rs\<close> and \<^verbatim>\<open>ValidationConfig\<close> of \<^verbatim>\<open>types.rs\<close>.

  The task type comes from the classifier (keywords or a model call) and is an argument, as
  are the text of the system state snapshot and the answer of \<^verbatim>\<open>is_local_workspace_task\<close>.
  Main result: for every task type the builder succeeds on a depth limit of at least four,
  with a well-formed, untouched graph of a known set of nodes.
\<close>

section \<open>Configuration\<close>

record validation_config =
  lint_commands :: "string list"
  build_commands :: "string list"
  test_commands :: "string list"
  vc_working_dir :: "string option"
  max_fix_iterations :: u8
  lint_timeout_ms :: u64
  test_timeout_ms :: u64
  git_auto_commit :: bool
  git_auto_push :: bool
  git_branch_prefix :: "string option"
  git_protect_dirty :: bool

definition default_validation_config :: validation_config where
  "default_validation_config = \<lparr>lint_commands = [], build_commands = [], test_commands = [],
     vc_working_dir = None, max_fix_iterations = 3, lint_timeout_ms = 60000,
     test_timeout_ms = 120000, git_auto_commit = False, git_auto_push = False,
     git_branch_prefix = None, git_protect_dirty = True\<rparr>"

definition has_lint :: "validation_config \<Rightarrow> bool" where
  "has_lint c \<longleftrightarrow> lint_commands c \<noteq> [] \<or> build_commands c \<noteq> []"

definition has_test :: "validation_config \<Rightarrow> bool" where
  "has_test c \<longleftrightarrow> test_commands c \<noteq> []"

definition lint_and_build_commands :: "validation_config \<Rightarrow> string list" where
  "lint_and_build_commands c = lint_commands c @ build_commands c"

text \<open>
  What the builder reads of the orchestrator: the depth limit, the timeout of the configured
  CLI model, if any, and the validation settings.
\<close>

record builder_env =
  max_graph_depth :: u8
  cli_timeout_ms :: "u64 option"
  validation :: validation_config

section \<open>Text\<close>

definition nl :: string where
  "nl = [CHR 0x0A]"

definition trim_for_context :: "string \<Rightarrow> nat \<Rightarrow> string" where
  "trim_for_context text max_chars =
     (let normalized = trim text in
      if length normalized \<le> max_chars then normalized
      else
        let head_len = max_chars div 2;
            tail_len = max_chars - head_len
        in take head_len normalized @ nl @ ''... [trimmed] ...'' @ nl
           @ rev (take tail_len (rev normalized)))"

text \<open>\<^verbatim>\<open>slice::join\<close>.\<close>

fun join :: "string \<Rightarrow> string list \<Rightarrow> string" where
  "join sep [] = ''''"
| "join sep [x] = x"
| "join sep (x # xs) = x @ sep @ join sep xs"

section \<open>Policies\<close>

definition role_extra_ms :: "agent_role \<Rightarrow> u64" where
  "role_extra_ms r = (case r of ToolCaller \<Rightarrow> 120000 | Coder \<Rightarrow> 120000 | Validator \<Rightarrow> 0
     | _ \<Rightarrow> 30000)"

definition normalize_node_policy_for_runtime :: "builder_env \<Rightarrow> agent_node \<Rightarrow> agent_node" where
  "normalize_node_policy_for_runtime env n =
     (if role n = Validator then n
      else (case cli_timeout_ms env of
        None \<Rightarrow> n
      | Some t \<Rightarrow> n\<lparr>policy := (policy n)
          \<lparr>timeout_ms := max (timeout_ms (policy n)) (sat_add t (role_extra_ms (role n)))\<rparr>\<rparr>))"

definition add_graph_node ::
    "builder_env \<Rightarrow> execution_graph \<Rightarrow> agent_node \<Rightarrow> (graph_error + unit) \<times> execution_graph" where
  "add_graph_node env g n = add_node g (normalize_node_policy_for_runtime env n)"

definition normalize_dynamic_nodes_for_runtime ::
    "builder_env \<Rightarrow> agent_node list \<Rightarrow> agent_node list" where
  "normalize_dynamic_nodes_for_runtime env ns = map (normalize_node_policy_for_runtime env) ns"

text \<open>A sequence of \<^verbatim>\<open>self.add_graph_node(&mut graph, ..)?\<close>.\<close>

fun add_graph_nodes ::
    "builder_env \<Rightarrow> execution_graph \<Rightarrow> agent_node list \<Rightarrow> graph_error + execution_graph" where
  "add_graph_nodes env g [] = Inr g"
| "add_graph_nodes env g (n # ns) =
     (case add_graph_node env g n of
        (Inl e, g') \<Rightarrow> Inl e | (Inr u, g') \<Rightarrow> add_graph_nodes env g' ns)"

text \<open>\<^verbatim>\<open>Orchestrator::default_policy\<close>, which is not the default of \<^verbatim>\<open>ExecutionPolicy\<close>.\<close>

definition orch_default_policy :: execution_policy where
  "orch_default_policy = \<lparr>max_parallelism = 1, retry = 1, timeout_ms = 120000,
     circuit_breaker = 3, on_dependency_failure = ContinueOnError, fallback_node = None\<rparr>"

definition static_node ::
    "string \<Rightarrow> agent_role \<Rightarrow> string \<Rightarrow> string list \<Rightarrow> u8 \<Rightarrow> execution_policy \<Rightarrow> agent_node" where
  "static_node i r instr deps d pol =
     (new_node i r instr)\<lparr>dependencies := deps, depth := d, policy := pol\<rparr>"

section \<open>Graphs from templates, for recovery and for follow-up\<close>

text \<open>
  The policy of a template node is JSON; what \<^verbatim>\<open>serde_json::from_value\<close> yields of it is
  \<open>None\<close> when it is null or malformed.
\<close>

record workflow_node_template =
  wn_id :: string
  wn_role :: agent_role
  wn_instructions :: string
  wn_dependencies :: "string list"
  wn_mcp_tools :: "string list"
  wn_git_commands :: "string list"
  wn_policy :: "execution_policy option"

definition workflow_node_to_agent_node :: "workflow_node_template \<Rightarrow> string + agent_node" where
  "workflow_node_to_agent_node wn =
     (if wn_git_commands wn \<noteq> [] \<and> wn_role wn \<noteq> Validator
      then Inl (''workflow node '' @ [CHR 0x27] @ wn_id wn @ [CHR 0x27]
             @ '' uses git_commands but role '' @ [CHR 0x27] @ agent_role_display (wn_role wn)
             @ [CHR 0x27] @ '' is not validator'')
      else
        let n = (new_node (wn_id wn) (wn_role wn) (wn_instructions wn))
                  \<lparr>dependencies := wn_dependencies wn, mcp_tools := wn_mcp_tools wn,
                   git_commands := wn_git_commands wn\<rparr>
        in Inr (case wn_policy wn of None \<Rightarrow> n | Some p \<Rightarrow> n\<lparr>policy := p\<rparr>))"

fun build_workflow_loop ::
    "builder_env \<Rightarrow> execution_graph \<Rightarrow> workflow_node_template list \<Rightarrow> string + execution_graph" where
  "build_workflow_loop env g [] = Inr g"
| "build_workflow_loop env g (wn # wns) =
     (case workflow_node_to_agent_node wn of
        Inl e \<Rightarrow> Inl e
      | Inr n \<Rightarrow> (case add_graph_node env g n of
          (Inl e, g') \<Rightarrow> Inl (show_graph_error e)
        | (Inr u, g') \<Rightarrow> build_workflow_loop env g' wns))"

definition build_workflow_graph_from_template ::
    "builder_env \<Rightarrow> workflow_node_template list \<Rightarrow> string + execution_graph" where
  "build_workflow_graph_from_template env wns =
     build_workflow_loop env (new_graph (max_graph_depth env)) wns"

definition summarize_results_for_followup :: "node_execution_result list \<Rightarrow> string" where
  "summarize_results_for_followup results = join (nl @ ''---'' @ nl)
     (map (\<lambda>r. ''['' @ res_node_id r @ '':'' @ agent_role_display (res_role r) @ '']'' @ nl
             @ trim_for_context (res_output r) 700)
       (filter (\<lambda>r. res_succeeded r \<and> trim (res_output r) \<noteq> []) results))"

definition replan_policy :: execution_policy where
  "replan_policy = \<lparr>max_parallelism = 1, retry = 1, timeout_ms = 120000, circuit_breaker = 2,
     on_dependency_failure = FailFast, fallback_node = None\<rparr>"

definition build_failure_recovery_graph ::
    "builder_env \<Rightarrow> string \<Rightarrow> node_execution_result list \<Rightarrow> node_execution_result list \<Rightarrow> u8
      \<Rightarrow> graph_error + execution_graph" where
  "build_failure_recovery_graph env original_task failed_results successful_results attempt =
    (let failed_summary = join nl (map (\<lambda>r. ''['' @ res_node_id r @ ''] error: ''
            @ (case res_error r of Some e \<Rightarrow> e | None \<Rightarrow> ''unknown error'')) failed_results);
         success_summary = summarize_results_for_followup successful_results;
         text = ''One or more agents failed during execution. Your job is to recover.'' @ nl @ nl
     @ ''ORIGINAL TASK:'' @ nl
     @ trim_for_context original_task 1000 @ nl @ nl
     @ ''FAILED AGENTS (with errors):'' @ nl
     @ trim_for_context failed_summary 800 @ nl @ nl
     @ ''SUCCESSFUL OUTPUTS SO FAR:'' @ nl
     @ trim_for_context success_summary 3000 @ nl @ nl
     @ ''Return a JSON SubtaskPlan that addresses the failed work:'' @ nl
     @ ''{\"subtasks\":[{\"id\":\"string\",\"description\":\"string\",\"agent_role\":\"planner''
     @ ''|extractor|coder|summarizer|fallback|tool_caller|analyzer|reviewer|scheduler|config_m''
     @ ''anager|validator\",\"dependencies\":[\"node_id\"],\"instructions\":\"string\",\"mcp_t''
     @ ''ools\":[\"server/tool\"]}]}'' @ nl @ nl
     @ ''Rules:'' @ nl
     @ ''- Focus only on what failed; do not repeat succeeded work.'' @ nl
     @ ''- If an agent failed due to a transient error, retry it with clearer instructions.'' @ nl
     @ ''- If an agent failed due to a design flaw, replace it with a different approach.'' @ nl
     @ ''- Do not wrap the JSON in markdown fences.''
     in add_graph_nodes env (new_graph (max_graph_depth env))
          [(new_node (''recovery_plan_'' @ show_nat (unat attempt)) Planner text)\<lparr>policy := replan_policy\<rparr>])"

definition build_completion_followup_graph ::
    "builder_env \<Rightarrow> bool \<Rightarrow> string \<Rightarrow> string \<Rightarrow> node_execution_result list \<Rightarrow> u8
      \<Rightarrow> graph_error + execution_graph" where
  "build_completion_followup_graph env local_task original_task incomplete_reason results attempt =
    (let prior_summary = summarize_results_for_followup results;
         local_first_hint = (if local_task then nl
     @ ''- The remaining work must stay local-first and CLI-compatible.'' @ nl
     @ ''- Prefer filesystem and local workspace actions; do not require UI-only steps.'' else '''');
         text = ''Reviewer marked the run incomplete.'' @ nl @ nl
     @ ''ORIGINAL TASK:'' @ nl
     @ trim_for_context original_task 1000 @ nl @ nl
     @ ''REMAINING GAP:'' @ nl
     @ trim_for_context incomplete_reason 600 @ nl @ nl
     @ ''PREVIOUS SUCCESSFUL OUTPUTS:'' @ nl
     @ trim_for_context prior_summary 4000 @ nl @ nl
     @ ''Return a JSON SubtaskPlan object matching exactly this schema:'' @ nl
     @ ''{\"subtasks\":[{\"id\":\"string\",\"description\":\"string\",\"agent_role\":\"planner''
     @ ''|extractor|coder|summarizer|fallback|tool_caller|analyzer|reviewer|scheduler|config_m''
     @ ''anager|validator\",\"dependencies\":[\"node_id\"],\"instructions\":\"string\",\"mcp_t''
     @ ''ools\":[\"server/tool\"]}]}'' @ nl @ nl
     @ ''Rules:'' @ nl
     @ ''- Cover only the remaining requirements.'' @ nl
     @ ''- Split independent remaining work into separate subtasks so they can run in ''
     @ ''parallel.'' @ nl
     @ ''- Use dependencies only when sequencing is truly required.'' @ nl
     @ ''- Reuse the smallest set of sub-agents needed to fully complete the request.'' @ nl
     @ ''- If only one focused step remains, still return a single-item subtasks array.'' @ nl
     @ ''- Do not wrap the JSON in markdown fences.''
     @ local_first_hint
     in add_graph_nodes env (new_graph (max_graph_depth env))
          [(new_node (''replan_plan_'' @ show_nat (unat attempt)) Planner text)\<lparr>policy := replan_policy\<rparr>])"

section \<open>The graph of a task\<close>

text \<open>
  The instructions of the plan node: the tool list, the descriptions of the MCP servers, the
  local-first policy and the plan of a previous run. The em dash of the source's text is
  written as its three UTF-8 bytes.
\<close>

definition em_dash :: string where
  "em_dash = [CHR 0xE2, CHR 0x80, CHR 0x94]"

definition planner_instructions ::
    "string list \<Rightarrow> (string \<times> string) list \<Rightarrow> bool \<Rightarrow> string option \<Rightarrow> string" where
  "planner_instructions tool_names server_descs local_task previous_plan =
    (let guide = (if server_descs \<noteq> [] then nl @ ''Server guide:'' @ nl
            @ join nl (map (\<lambda>(n, d). ''  - '' @ n @ '': '' @ d) server_descs) else '''');
         local_first_hint = (if local_task then nl @ nl
     @ ''STRICT LOCAL-FIRST POLICY:'' @ nl
     @ ''- You MUST plan filesystem/* tools for any task involving local files, directories, ''
     @ ''or project workspace contents.'' @ nl
     @ ''- NEVER plan github/* or remote API calls for reading/writing local files.'' @ nl
     @ ''- Only plan github/* when the user explicitly asks for remote repository operations ''
     @ ''(e.g., creating PRs, checking remote issues).'' @ nl
     @ ''- For file edits and commits on local projects, use filesystem/* tools (read, ''
     @ ''write, edit).'' else '''');
         base = (if tool_names \<noteq> [] then ''Plan work and constraints. Available MCP tools: [''
     @ join '', '' (take 30 tool_names)
     @ '']. If the task requires external data or operations, plan to use these tools via ''
     @ ''the tool_call node. For non-trivial work, output a JSON SubtaskPlan so sub-agents ''
     @ ''can execute independent work in parallel and continue until the request is fully ''
     @ ''completed.''
     @ guide
     @ local_first_hint
           else ''Plan work and constraints. For non-trivial work, output a JSON SubtaskPlan so ''
     @ ''sub-agents can execute independent work in parallel and continue until the request ''
     @ ''is fully completed.'')
     in (case previous_plan of
           None \<Rightarrow> base
         | Some prev_plan \<Rightarrow> base @ nl @ nl
     @ ''PREVIOUS PLAN (from prior run in this session '' @ em_dash @ '' continue execution from here):'' @ nl
     @ trim_for_context prev_plan 800))"

definition plan_node :: "string \<Rightarrow> agent_node" where
  "plan_node instr = static_node ''plan'' Planner instr [] 0
     (orch_default_policy\<lparr>timeout_ms := 120000, on_dependency_failure := FailFast\<rparr>)"

text \<open>One definition per arm of the \<^verbatim>\<open>match task_type\<close>: the nodes it adds, in order.\<close>

definition simple_query_nodes :: "agent_node list" where
  "simple_query_nodes =
     [static_node ''summarize'' Summarizer ''Summarize the planner output into a concise answer.''
        [''plan''] 0 orch_default_policy]"

definition analysis_nodes :: "agent_node list" where
  "analysis_nodes =
     [static_node ''extract'' Extractor
        ''Extract structured facts from user task and planner output.''
        [''plan''] 0 orch_default_policy,
      static_node ''analyze'' Analyzer
        ''Analyze the extracted data, identify patterns and insights.''
        [''extract''] 0 (orch_default_policy\<lparr>timeout_ms := 120000\<rparr>),
      static_node ''summarize'' Summarizer ''Consolidate analysis results into a concise report.''
        [''analyze''] 0 orch_default_policy]"

definition config_query_nodes :: "string \<Rightarrow> agent_node list" where
  "config_query_nodes state_snapshot =
     [static_node ''summarize'' Summarizer
        (''Answer the user's question about system configuration using the information below.'' @ nl @ nl
     @ ''CURRENT SYSTEM STATE:'' @ nl
     @ state_snapshot @ nl @ nl
     @ ''Provide a clear, human-readable answer. Do not output raw JSON.'')
        [''plan''] 0 orch_default_policy]"

definition configuration_nodes :: "string \<Rightarrow> agent_node list" where
  "configuration_nodes state_snapshot =
     [static_node ''config_manage'' ConfigManager
        (''Execute the configuration changes requested by the user.'' @ nl @ nl
     @ ''CURRENT SYSTEM STATE (before changes):'' @ nl
     @ state_snapshot)
        [''plan''] 0 (orch_default_policy\<lparr>timeout_ms := 120000\<rparr>),
      static_node ''summarize'' Summarizer ''Summarize the configuration changes made.''
        [''config_manage''] 0 orch_default_policy]"

definition tool_operation_nodes :: "agent_node list" where
  "tool_operation_nodes =
     [static_node ''tool_call'' ToolCaller ''Execute MCP tool calls as planned.''
        [''plan''] 0 (orch_default_policy\<lparr>timeout_ms := 180000, retry := 2\<rparr>),
      static_node ''summarize'' Summarizer ''Summarize tool execution results.''
        [''tool_call''] 0 orch_default_policy]"

definition code_policy :: "u64 \<Rightarrow> execution_policy" where
  "code_policy t = \<lparr>max_parallelism = 2, retry = 2, timeout_ms = t, circuit_breaker = 2,
     on_dependency_failure = FailFast, fallback_node = Some ''fallback_code''\<rparr>"

definition lint_policy :: "u64 \<Rightarrow> execution_policy" where
  "lint_policy t = orch_default_policy\<lparr>timeout_ms := t, retry := 0,
     on_dependency_failure := FallbackNode, fallback_node := Some ''fallback_code''\<rparr>"

definition external_project_nodes :: "agent_node list" where
  "external_project_nodes =
     [static_node ''repo_analyze'' Analyzer ''Clone and analyze the external repository.''
        [''plan''] 1 (orch_default_policy\<lparr>timeout_ms := 300000, retry := 1\<rparr>),
      static_node ''extract'' Extractor
        ''Extract structured facts from the repo analysis and user task.''
        [''repo_analyze''] 2 (orch_default_policy\<lparr>max_parallelism := 2\<rparr>),
      static_node ''context_probe'' Extractor
        ''Probe repo map for high-value code areas to focus modification.''
        [''repo_analyze''] 2 (orch_default_policy\<lparr>max_parallelism := 2, timeout_ms := 60000\<rparr>),
      static_node ''code'' Coder
        ''Modify the external repository code based on plan and repo context.''
        [''extract'', ''context_probe''] 3 (code_policy 300000),
      static_node ''fallback_code'' Fallback ''Recover from coding failures in external repo.''
        [''code''] 4 orch_default_policy,
      static_node ''validate_lint'' Validator ''external_lint''
        [''code''] 4 (lint_policy 120000)]"

definition interactive_nodes :: "agent_node list" where
  "interactive_nodes =
     [static_node ''interactive'' ToolCaller
        ''Execute interactive ReAct loop to complete the task.''
        [''plan''] 0 (default_policy\<lparr>timeout_ms := 600000, retry := 0\<rparr>),
      static_node ''summarize'' Summarizer ''Summarize the interactive session results.''
        [''interactive''] 0 default_policy]"

definition code_generation_nodes :: "validation_config \<Rightarrow> agent_node list" where
  "code_generation_nodes vc =
     [static_node ''extract'' Extractor
        ''Extract structured facts from user task and planner output.''
        [''plan''] 0 (orch_default_policy\<lparr>max_parallelism := 2\<rparr>),
      static_node ''context_probe'' Extractor
        ''Probe memory and context windows for high-value retrieval candidates.''
        [''plan''] 0 (orch_default_policy\<lparr>max_parallelism := 2, timeout_ms := 60000\<rparr>),
      static_node ''code'' Coder
        ''Generate implementation-level output from extracted and contextualized plan.''
        [''extract'', ''context_probe''] 0 (code_policy 180000),
      static_node ''fallback_code'' Fallback
        ''Recover from coding node failures using robust conservative strategy.''
        [''code''] 0 orch_default_policy,
      if has_lint vc
      then static_node ''validate_lint'' Validator ''lint''
        [''code''] 0 (lint_policy (lint_timeout_ms vc))
      else static_node ''summarize'' Summarizer
        ''Summarize outcomes and produce checkpoint summary for context compaction.''
        [''code'', ''fallback_code''] 0 orch_default_policy]"

definition webhook_nodes :: "bool \<Rightarrow> agent_node list" where
  "webhook_nodes mentions_webhook =
     (if mentions_webhook
      then [static_node ''webhook_validation'' Extractor
        ''Validate webhook contract and integration constraints.''
        [''plan''] 1 (orch_default_policy\<lparr>timeout_ms := 60000\<rparr>)]
      else [])"

definition task_nodes :: "builder_env \<Rightarrow> task_type \<Rightarrow> string \<Rightarrow> bool \<Rightarrow> agent_node list" where
  "task_nodes env ty state_snapshot mentions_webhook = (case ty of
     SimpleQuery \<Rightarrow> simple_query_nodes
   | Analysis \<Rightarrow> analysis_nodes
   | ConfigQuery \<Rightarrow> config_query_nodes state_snapshot
   | Configuration \<Rightarrow> configuration_nodes state_snapshot
   | ToolOperation \<Rightarrow> tool_operation_nodes
   | ExternalProject \<Rightarrow> external_project_nodes
   | Interactive \<Rightarrow> interactive_nodes
   | CodeGeneration \<Rightarrow> code_generation_nodes (validation env) @ webhook_nodes mentions_webhook
   | Complex \<Rightarrow> code_generation_nodes (validation env) @ webhook_nodes mentions_webhook)"

text \<open>
  \<^verbatim>\<open>build_graph\<close>, for the classified task type; \<open>mentions_webhook\<close> is
  \<^verbatim>\<open>task.to_lowercase().contains("webhook")\<close>.
\<close>

definition build_graph ::
    "builder_env \<Rightarrow> task_type \<Rightarrow> string \<Rightarrow> string \<Rightarrow> bool \<Rightarrow> graph_error + execution_graph" where
  "build_graph env ty plan_instructions state_snapshot mentions_webhook =
     add_graph_nodes env (new_graph (max_graph_depth env))
       (plan_node plan_instructions # task_nodes env ty state_snapshot mentions_webhook)"

lemma normalize_simps [simp]:
  "node_id (normalize_node_policy_for_runtime env n) = node_id n"
  "dependencies (normalize_node_policy_for_runtime env n) = dependencies n"
  "depth (normalize_node_policy_for_runtime env n) = depth n"
  "role (normalize_node_policy_for_runtime env n) = role n"
  "instructions (normalize_node_policy_for_runtime env n) = instructions n"
  "fallback_node (policy (normalize_node_policy_for_runtime env n)) = fallback_node (policy n)"
  by (simp_all add: normalize_node_policy_for_runtime_def split: option.split)

lemma add_graph_nodes_addable:
  "fresh_graph g \<Longrightarrow> (case add_graph_nodes env g ns of
     Inl e \<Rightarrow> \<not> addable (set (hm_keys (nodes g))) (max_depth g) ns
   | Inr g' \<Rightarrow> addable (set (hm_keys (nodes g))) (max_depth g) ns \<and> fresh_graph g'
       \<and> hm_keys (nodes g') = hm_keys (nodes g) @ map node_id ns)"
proof (induction ns arbitrary: g)
  case (Cons n ns)
  let ?n = "normalize_node_policy_for_runtime env n"
  have wf: "graph_wf g" using Cons.prems by (simp add: fresh_graph_def)
  obtain r g1 where a: "add_node g ?n = (r, g1)" by fastforce
  have ok: "r = Inr () \<longleftrightarrow> addable (set (hm_keys (nodes g))) (max_depth g) [n]"
    using add_node_addable [OF wf, of ?n] a by simp
  show ?case
  proof (cases r)
    case (Inl e)
    then show ?thesis using a ok by (auto simp: add_graph_node_def)
  next
    case (Inr u)
    have g1: "fresh_graph g1" "max_depth g1 = max_depth g"
      "hm_keys (nodes g1) = hm_keys (nodes g) @ [node_id n]"
      using a Inr add_node_Inr [OF wf, of ?n g1] fresh_add_node [OF Cons.prems, of ?n] by simp_all
    show ?thesis using Cons.IH [OF g1(1)] g1(2,3) a Inr ok
      by (auto simp: add_graph_node_def split: sum.splits)
  qed
qed simp

section \<open>Properties\<close>

definition depth_allows :: "builder_env \<Rightarrow> task_type \<Rightarrow> bool \<Rightarrow> bool" where
  "depth_allows env ty wh \<longleftrightarrow> (if ty = ExternalProject then 4 \<le> max_graph_depth env
     else if (ty = CodeGeneration \<or> ty = Complex) \<and> wh then 1 \<le> max_graph_depth env
     else True)"

lemma addable_append:
  "addable K md (ns @ ms) \<longleftrightarrow> addable K md ns \<and> addable (K \<union> node_id ` set ns) md ms"
  by (induction ns arbitrary: K) (auto simp: insert_commute)

lemma addable_task:
  "addable {} md (plan_node pinstr # task_nodes env ty snapshot wh) \<longleftrightarrow>
     (if ty = ExternalProject then 4 \<le> md
      else if (ty = CodeGeneration \<or> ty = Complex) \<and> wh then 1 \<le> md else True)"
  by (cases ty; cases wh; cases "has_lint (validation env)")
    (auto simp: task_nodes_def plan_node_def static_node_def new_node_def simple_query_nodes_def
      analysis_nodes_def config_query_nodes_def configuration_nodes_def tool_operation_nodes_def
      external_project_nodes_def interactive_nodes_def code_generation_nodes_def webhook_nodes_def
      addable_append word_le_nat_alt)

text \<open>
  For every task type the graph builder succeeds exactly when the depth limit admits the
  nodes it adds (four levels for an external project, one for the webhook check, none
  otherwise), and the graph it answers is well formed and untouched, with the plan node and
  the nodes of the task type.
\<close>

theorem build_graph_spec:
  "case build_graph env ty pinstr snapshot wh of
     Inl e \<Rightarrow> \<not> depth_allows env ty wh
   | Inr g \<Rightarrow> depth_allows env ty wh \<and> fresh_graph g
       \<and> hm_keys (nodes g) = ''plan'' # map node_id (task_nodes env ty snapshot wh)"
proof -
  let ?ns = "plan_node pinstr # task_nodes env ty snapshot wh"
  have "depth_allows env ty wh \<longleftrightarrow> addable {} (max_graph_depth env) ?ns"
    using addable_task [of "max_graph_depth env" pinstr env ty snapshot wh]
    by (simp add: depth_allows_def del: addable.simps)
  moreover have "map node_id ?ns = ''plan'' # map node_id (task_nodes env ty snapshot wh)"
    by (simp add: plan_node_def static_node_def new_node_def)
  ultimately show ?thesis
    using add_graph_nodes_addable [OF fresh_new_graph [of "max_graph_depth env"], of ?ns env]
    by (simp add: build_graph_def new_graph_def hm_keys_Nil del: add_graph_nodes.simps addable.simps
        split: sum.splits)
qed

text \<open>
  Normalising a node for the runtime changes its timeout only, never lowers it, leaves
  validators alone, and gives every other node at least the timeout of the CLI model plus the
  allowance of its role (or the largest representable timeout).
\<close>

theorem normalize_timeout:
  "(let m = normalize_node_policy_for_runtime env n in
      m\<lparr>policy := (policy m)\<lparr>timeout_ms := timeout_ms (policy n)\<rparr>\<rparr> = n
    \<and> unat (timeout_ms (policy m)) = (if role n = Validator then unat (timeout_ms (policy n))
        else (case cli_timeout_ms env of
            None \<Rightarrow> unat (timeout_ms (policy n))
          | Some t \<Rightarrow> max (unat (timeout_ms (policy n)))
              (min (unat t + unat (role_extra_ms (role n))) (2 ^ 64 - 1)))))"
proof -
  have "unat (max a b) = max (unat a) (unat b)" for a b :: u64
    by (simp add: max_def word_le_nat_alt)
  then show ?thesis
    by (simp add: normalize_node_policy_for_runtime_def unat_sat_add Let_def split: option.split)
qed

text \<open>
  Trimming a text for the context keeps a text that fits, up to the white space around it,
  and otherwise keeps its first and last characters, \<open>max_chars\<close> in all, around a marker of 19
  characters.
\<close>

theorem trim_for_context_spec:
  "(if length (trim t) \<le> m then trim_for_context t m = trim t
    else \<exists>mid. trim t = take (m div 2) (trim t) @ mid @ drop (length (trim t) - (m - m div 2)) (trim t)
      \<and> trim_for_context t m = take (m div 2) (trim t) @ nl @ ''... [trimmed] ...'' @ nl
          @ drop (length (trim t) - (m - m div 2)) (trim t)
      \<and> length (trim_for_context t m) = m + 19)"
proof (cases "length (trim t) \<le> m")
  case False
  let ?s = "trim t" let ?h = "m div 2" let ?k = "length ?s - (m - m div 2)"
  have hk: "?h \<le> ?k" using False by linarith
  have "?s = take ?h ?s @ drop ?h (take ?k ?s) @ drop ?k ?s"
    using hk by (metis append_take_drop_id append_assoc drop_take min.absorb1 take_take)
  moreover have "trim_for_context t m = take ?h ?s @ nl @ ''... [trimmed] ...'' @ nl @ drop ?k ?s"
    using False by (simp add: trim_for_context_def Let_def take_rev)
  ultimately show ?thesis using False by (auto simp: nl_def)
qed (simp add: trim_for_context_def)

end
