(* ===== verification/Helpers.thy ===== *)
theory Helpers
  imports Text
begin

text \<open>
  The string functions of \<^verbatim>\<open>src/orchestrator/helpers.rs\<close> that the orchestrator's decisions
  rest on: word search, extraction of a JSON object from a model's answer, and the directory
  name of a clone. A string is a sequence of bytes; where the code counts characters the model
  counts bytes, which is the same on ASCII text.

  Main results: the word search finds exactly the occurrences with word boundaries; a JSON
  object embedded in prose is extracted whole; the clone directory is a safe path component.
\<close>

section \<open>Characters of UTF-8\<close>

text \<open>\<^verbatim>\<open>chars().take(n)\<close> on UTF-8: a byte that continues a character does not count.\<close>

definition continues :: "char \<Rightarrow> bool" where
  "continues c \<longleftrightarrow> 0x80 \<le> (of_char c :: nat) \<and> (of_char c :: nat) < 0xC0"

fun take_chars :: "nat \<Rightarrow> string \<Rightarrow> string" where
  "take_chars n [] = []"
| "take_chars n (c # cs) =
     (if continues c then c # take_chars n cs
      else (case n of 0 \<Rightarrow> [] | Suc m \<Rightarrow> c # take_chars m cs))"

section \<open>Substrings\<close>

text \<open>\<^verbatim>\<open>str::find\<close> with a string pattern, \<^verbatim>\<open>contains\<close>, \<^verbatim>\<open>starts_with\<close>, \<^verbatim>\<open>strip_prefix\<close>.\<close>

fun str_find :: "string \<Rightarrow> string \<Rightarrow> nat option" where
  "str_find [] pat = (if pat = [] then Some 0 else None)"
| "str_find (c # cs) pat =
     (if take (length pat) (c # cs) = pat then Some 0 else map_option Suc (str_find cs pat))"

definition str_contains :: "string \<Rightarrow> string \<Rightarrow> bool" where
  "str_contains s pat \<longleftrightarrow> str_find s pat \<noteq> None"

definition starts_with :: "string \<Rightarrow> string \<Rightarrow> bool" where
  "starts_with s pat \<longleftrightarrow> take (length pat) s = pat"

definition strip_prefix :: "string \<Rightarrow> string \<Rightarrow> string option" where
  "strip_prefix s pat = (if starts_with s pat then Some (drop (length pat) s) else None)"

lemma str_find_Some:
  "str_find s pat = Some i \<Longrightarrow> s = take i s @ pat @ drop (i + length pat) s"
proof (induction s arbitrary: i)
  case (Cons c cs)
  show ?case
  proof (cases "take (length pat) (c # cs) = pat")
    case True
    then have "i = 0" using Cons.prems by simp
    with True show ?thesis by (metis append_take_drop_id add_0 append_Nil take0)
  next
    case False
    then obtain k where "str_find cs pat = Some k" "i = Suc k" using Cons.prems by auto
    with Cons.IH show ?thesis by simp
  qed
qed (auto split: if_splits)

lemma str_find_None: "str_find s pat = None \<longleftrightarrow> (\<nexists>a b. s = a @ pat @ b)"
proof
  show "str_find s pat = None \<Longrightarrow> \<nexists>a b. s = a @ pat @ b"
  proof (induction s)
    case (Cons c cs)
    show ?case
    proof
      assume "\<exists>a b. c # cs = a @ pat @ b"
      then obtain a b where ab: "c # cs = a @ pat @ b" by blast
      show False
      proof (cases a)
        case Nil
        then have "take (length pat) (c # cs) = pat" using ab by simp
        with Cons.prems show False by simp
      next
        case (Cons d ds)
        with ab have "cs = ds @ pat @ b" by simp
        with Cons.IH Cons.prems show False by (auto split: if_splits)
      qed
    qed
  qed (auto split: if_splits)
  show "\<nexists>a b. s = a @ pat @ b \<Longrightarrow> str_find s pat = None"
    using str_find_Some by (metis not_None_eq)
qed

lemma str_contains_iff: "str_contains s pat \<longleftrightarrow> (\<exists>a b. s = a @ pat @ b)"
  by (simp add: str_contains_def str_find_None del: not_None_eq)

definition contains_any_keyword :: "string \<Rightarrow> string list \<Rightarrow> bool" where
  "contains_any_keyword haystack keywords \<longleftrightarrow> list_ex (str_contains haystack) keywords"

section \<open>Word search\<close>

definition is_word_byte :: "char \<Rightarrow> bool" where
  "is_word_byte b \<longleftrightarrow> is_alnum b \<or> b = CHR ''_''"

definition word_at :: "string \<Rightarrow> string \<Rightarrow> nat \<Rightarrow> bool" where
  "word_at h n i \<longleftrightarrow> map to_lower (take (length n) (drop i h)) = map to_lower n
     \<and> (i = 0 \<or> \<not> is_word_byte (h ! (i - 1)))
     \<and> (i + length n = length h \<or> \<not> is_word_byte (h ! (i + length n)))"

definition contains_word :: "string \<Rightarrow> string \<Rightarrow> bool" where
  "contains_word h n \<longleftrightarrow> n \<noteq> [] \<and> length n \<le> length h
     \<and> list_ex (word_at h n) [0..<Suc (length h - length n)]"

section \<open>JSON objects in text\<close>

definition fence :: string where
  "fence = ''```''"

definition fences :: "string list" where
  "fences = [fence @ ''json'' @ [CHR 0x0A], fence @ [CHR 0x0A], fence @ ''json '', fence]"

fun try_fences :: "string \<Rightarrow> string list \<Rightarrow> string option" where
  "try_fences text [] = None"
| "try_fences text (f # fs) =
     (case str_find text f of
        None \<Rightarrow> try_fences text fs
      | Some start \<Rightarrow>
          let after_fence = drop (start + length f) text in
          (case str_find after_fence fence of
             None \<Rightarrow> try_fences text fs
           | Some end_fence \<Rightarrow>
               let candidate = trim (take end_fence after_fence) in
               if starts_with candidate ''{'' then Some candidate else try_fences text fs))"

text \<open>
  The byte loop: it answers how many bytes the object takes. The bytes of the quote and of the
  backslash are written by their codes.
\<close>

fun json_scan :: "string \<Rightarrow> int \<Rightarrow> bool \<Rightarrow> bool \<Rightarrow> nat option" where
  "json_scan [] dep in_string escape_next = None"
| "json_scan (b # bs) dep in_string escape_next =
     (if escape_next then map_option Suc (json_scan bs dep in_string False)
      else if b = CHR 0x5C \<and> in_string then map_option Suc (json_scan bs dep in_string True)
      else if b = CHR 0x22 then map_option Suc (json_scan bs dep (\<not> in_string) False)
      else if b = CHR ''{'' \<and> \<not> in_string then map_option Suc (json_scan bs (dep + 1) in_string False)
      else if b = CHR ''}'' \<and> \<not> in_string then
        (if dep - 1 = 0 then Some 1 else map_option Suc (json_scan bs (dep - 1) in_string False))
      else map_option Suc (json_scan bs dep in_string False))"

definition extract_json_object :: "string \<Rightarrow> string option" where
  "extract_json_object text =
     (case try_fences text fences of
        Some c \<Rightarrow> Some c
      | None \<Rightarrow> (case str_find text ''{'' of
          None \<Rightarrow> None
        | Some start \<Rightarrow> map_option (\<lambda>k. take k (drop start text))
            (json_scan (drop start text) 0 False False)))"

lemma json_scan_length: "json_scan bs d s e = Some k \<Longrightarrow> k \<le> length bs"
  by (induction bs d s e arbitrary: k rule: json_scan.induct) (auto split: if_splits)

lemma json_scan_append: "json_scan bs d s e = Some k \<Longrightarrow> json_scan (bs @ cs) d s e = Some k"
  by (induction bs d s e arbitrary: k rule: json_scan.induct) (auto split: if_splits)

lemma try_fences_None: "str_find text fence = None \<Longrightarrow> try_fences text fences = None"
proof -
  assume "str_find text fence = None"
  then have no: "\<nexists>a b. text = a @ fence @ b" by (simp add: str_find_None)
  have "str_find text (fence @ x) = None" for x
    unfolding str_find_None using no by (metis append.assoc)
  then have "str_find text f = None" if "f \<in> set fences" for f
    using that \<open>str_find text fence = None\<close> by (auto simp: fences_def)
  then show ?thesis by (simp add: fences_def)
qed

section \<open>Directory of a clone\<close>

text \<open>\<^verbatim>\<open>trim_end_matches(".git")\<close>, on the reversed text.\<close>

fun strip_git :: "string \<Rightarrow> string" where
  "strip_git (a # b # c # d # s) =
     (if [a, b, c, d] = ''tig.'' then strip_git s else a # b # c # d # s)"
| "strip_git s = s"

definition dir_char :: "char \<Rightarrow> bool" where
  "dir_char c \<longleftrightarrow> is_alnum c \<or> c = CHR ''-'' \<or> c = CHR ''_'' \<or> c = CHR ''.''"

definition trim_dots :: "string \<Rightarrow> string" where
  "trim_dots s = rev (dropWhile (\<lambda>c. c = CHR ''.'') (rev (dropWhile (\<lambda>c. c = CHR ''.'') s)))"

definition infer_clone_target_dir :: "string \<Rightarrow> string" where
  "infer_clone_target_dir repo_url =
     (let stripped = dropWhile (\<lambda>c. c = CHR ''/'') (rev repo_url);
          segment = takeWhile (\<lambda>c. c \<noteq> CHR ''/'') stripped;
          name = trim (rev (strip_git segment));
          candidate = trim (trim_dots (take 80 (filter dir_char name)))
      in if candidate = [] then ''cloned-repo'' else candidate)"

section \<open>Properties\<close>

text \<open>
  C30: \<open>contains_word\<close> answers yes exactly when the needle is not empty and occurs in the
  haystack, up to ASCII case, with no word byte right before and none right after it.
\<close>

theorem contains_word_iff:
  "contains_word h n \<longleftrightarrow> n \<noteq> [] \<and> (\<exists>a m b. h = a @ m @ b \<and> map to_lower m = map to_lower n
     \<and> (a = [] \<or> \<not> is_word_byte (last a)) \<and> (b = [] \<or> \<not> is_word_byte (hd b)))"
    (is "_ \<longleftrightarrow> n \<noteq> [] \<and> ?occurs")
proof
  assume "contains_word h n"
  then obtain i where n: "n \<noteq> []" and i0: "i \<in> set [0..<Suc (length h - length n)]"
    and le: "length n \<le> length h" and w: "word_at h n i"
    by (auto simp: contains_word_def list_ex_iff simp del: upt_Suc)
  have i: "i + length n \<le> length h" "word_at h n i" using i0 le w by auto
  let ?a = "take i h" let ?m = "take (length n) (drop i h)" let ?b = "drop (i + length n) h"
  have "h = ?a @ ?m @ ?b" by (metis append_take_drop_id drop_drop add.commute)
  moreover have "?a = [] \<or> \<not> is_word_byte (last ?a)"
    using i by (auto simp: word_at_def last_conv_nth)
  moreover have "?b = [] \<or> \<not> is_word_byte (hd ?b)"
    using i by (auto simp: word_at_def hd_drop_conv_nth)
  moreover have "map to_lower ?m = map to_lower n" using i(2) by (simp add: word_at_def)
  ultimately show "n \<noteq> [] \<and> ?occurs" using n by blast
next
  assume "n \<noteq> [] \<and> ?occurs"
  then obtain a m b where n: "n \<noteq> []" and h: "h = a @ m @ b" "map to_lower m = map to_lower n"
    "a = [] \<or> \<not> is_word_byte (last a)" "b = [] \<or> \<not> is_word_byte (hd b)" by blast
  have len: "length m = length n" using h(2) by (rule map_eq_imp_length_eq)
  have "word_at h n (length a)"
    using h len unfolding word_at_def
    by (auto simp: nth_append last_conv_nth hd_conv_nth)
  with n len h(1) show "contains_word h n"
    by (auto simp: contains_word_def list_ex_iff intro!: bexI [of _ "length a"])
qed

theorem contains_word_iff_witness:
  "contains_word ''run CI'' ''ci'' \<and> \<not> is_word_byte (last ''run '')"
proof
  have e: "''run CI'' = ''run '' @ ''CI'' @ ([] :: string)" "map to_lower ''CI'' = map to_lower ''ci''"
    and w: "\<not> is_word_byte (last ''run '')" by code_simp+
  then show "contains_word ''run CI'' ''ci''"
    unfolding contains_word_iff by (metis list.distinct(1))
  show "\<not> is_word_byte (last ''run '')" by (rule w)
qed

text \<open>
  An object that the scan closes exactly at its end is extracted whole from surrounding
  prose, when there is no code fence in the text and no opening brace before the object.
\<close>

theorem extract_json_from_prose:
  assumes "j = CHR ''{'' # r" and "json_scan j 0 False False = Some (length j)"
    and "CHR ''{'' \<notin> set p" and "\<not> str_contains (p @ j @ q) fence"
  shows "extract_json_object (p @ j @ q) = Some j"
proof -
  have f: "str_find (p @ j @ q) ''{'' = Some (length p)"
    using assms(1,3) by (induction p) auto
  have "str_find (p @ j @ q) fence = None" using assms(4) by (simp add: str_contains_def)
  then have "try_fences (p @ j @ q) fences = None" by (rule try_fences_None)
  with f json_scan_append [OF assms(2), of q] show ?thesis
    by (simp add: extract_json_object_def)
qed

theorem extract_json_from_prose_witness:
  "extract_json_object (''Here: '' @ ''{a{b}c}'' @ '' done'') = Some ''{a{b}c}''"
  by (rule extract_json_from_prose) (simp_all add: str_contains_def fence_def)

lemma trim_part: "\<exists>a b. s = a @ trim s @ b"
proof -
  let ?t = "dropWhile is_space s"
  have "s = takeWhile is_space s @ ?t" by simp
  moreover have "?t = rev (dropWhile is_space (rev ?t)) @ rev (takeWhile is_space (rev ?t))"
    by (metis rev_append rev_rev_ident takeWhile_dropWhile_id)
  ultimately show ?thesis unfolding trim_def by metis
qed

lemma take_drop_part: "\<exists>a b. s = a @ take k (drop i s) @ b"
  by (metis append_take_drop_id)

lemma try_fences_part:
  "try_fences text fs = Some c \<Longrightarrow> starts_with c ''{'' \<and> (\<exists>a b. text = a @ c @ b)"
proof (induction fs)
  case (Cons f fs)
  show ?case
  proof (cases "try_fences text fs = Some c")
    case False
    with Cons.prems obtain start e where
      c: "c = trim (take e (drop (start + length f) text))" "starts_with c ''{''"
      by (auto simp: Let_def split: option.splits if_splits)
    obtain a b where "take e (drop (start + length f) text) = a @ c @ b"
      using trim_part c(1) by metis
    moreover obtain a' b' where "text = a' @ take e (drop (start + length f) text) @ b'"
      using take_drop_part by metis
    ultimately have "text = (a' @ a) @ c @ (b @ b')" by simp
    with c(2) show ?thesis by blast
  qed (use Cons.IH in blast)
qed simp

text \<open>
  Whatever \<open>extract_json_object\<close> answers is a contiguous part of the text and starts with
  an opening brace.
\<close>

theorem extract_json_part:
  assumes "extract_json_object text = Some s"
  shows "(\<exists>a b. text = a @ s @ b) \<and> hd s = CHR ''{'' \<and> s \<noteq> []"
proof (cases "try_fences text fences")
  case (Some c)
  with assms have "try_fences text fences = Some s" by (simp add: extract_json_object_def)
  from try_fences_part [OF this] show ?thesis
    by (cases s) (auto simp: starts_with_def)
next
  case None
  then obtain i k where i: "str_find text ''{'' = Some i" and k: "json_scan (drop i text) 0 False False = Some k"
    and s: "s = take k (drop i text)"
    using assms by (auto simp: extract_json_object_def split: option.splits)
  have "drop i text = CHR ''{'' # drop (Suc i) text"
  proof -
    have t: "text = take i text @ CHR ''{'' # drop (Suc i) text" using str_find_Some [OF i] by simp
    have "i < length text"
    proof (rule ccontr)
      assume "\<not> i < length text"
      then have "text = text @ [CHR ''{'']" using t by simp
      then show False by simp
    qed
    then show ?thesis by (subst t) (simp add: min_def)
  qed
  moreover have "k \<noteq> 0" using k calculation by (auto split: if_splits)
  ultimately have "s \<noteq> []" "hd s = CHR ''{''" using s by (cases k; simp)+
  moreover have "\<exists>a b. text = a @ s @ b" unfolding s by (rule take_drop_part)
  ultimately show ?thesis by blast
qed

theorem extract_json_part_witness:
  "\<exists>a b. ''x {y} z'' = a @ ''{y}'' @ (b :: string)"
proof -
  have "extract_json_object ''x {y} z'' = Some ''{y}''" by code_simp
  from extract_json_part [OF this] show ?thesis by blast
qed

lemma trim_dots_part: "\<exists>a b. s = a @ trim_dots s @ b"
proof -
  let ?dot = "\<lambda>c. c = CHR ''.''" let ?t = "dropWhile ?dot s"
  have "s = takeWhile ?dot s @ ?t" by simp
  moreover have "?t = rev (dropWhile ?dot (rev ?t)) @ rev (takeWhile ?dot (rev ?t))"
    by (metis rev_append rev_rev_ident takeWhile_dropWhile_id)
  ultimately show ?thesis unfolding trim_dots_def by metis
qed

lemma trim_dots_last: "trim_dots s = [] \<or> last (trim_dots s) \<noteq> CHR ''.''"
  using hd_dropWhile [of "\<lambda>c. c = CHR ''.''" "rev (dropWhile (\<lambda>c. c = CHR ''.'') s)"]
  by (auto simp: trim_dots_def last_rev)

lemma trim_dots_hd: "trim_dots s = [] \<or> hd (trim_dots s) \<noteq> CHR ''.''"
proof -
  let ?dot = "\<lambda>c. c = CHR ''.''" let ?t = "dropWhile ?dot s"
  have e: "?t = trim_dots s @ rev (takeWhile ?dot (rev ?t))"
    unfolding trim_dots_def by (metis rev_append rev_rev_ident takeWhile_dropWhile_id)
  show ?thesis
  proof (cases "trim_dots s")
    case (Cons c cs)
    with e have "hd ?t = c" "?t \<noteq> []" by (metis append_Cons list.sel(1), metis Nil_is_append_conv list.discI)
    with hd_dropWhile [of ?dot s] Cons show ?thesis by simp
  qed simp
qed

lemma trim_solid: "s \<noteq> [] \<Longrightarrow> \<not> is_space (hd s) \<Longrightarrow> \<not> is_space (last s) \<Longrightarrow> trim s = s"
proof -
  assume s: "s \<noteq> []" "\<not> is_space (hd s)" "\<not> is_space (last s)"
  have "dropWhile is_space s = s" using s by (simp add: dropWhile_eq_self_iff)
  moreover have "dropWhile is_space (rev s) = rev s" using s by (simp add: dropWhile_eq_self_iff hd_rev)
  ultimately show ?thesis by (simp add: trim_def)
qed

lemma trim_no_space:
  assumes "\<forall>c\<in>set s. \<not> is_space c"
  shows "trim s = s"
proof -
  have "dropWhile is_space s = s" using assms by (cases s) simp_all
  moreover have "dropWhile is_space (rev s) = rev s" using assms by (cases s rule: rev_cases) simp_all
  ultimately show ?thesis by (simp add: trim_def)
qed

text \<open>
  The directory inferred for a clone is a single safe path component: not empty, at most 80
  bytes, only alphanumeric bytes, dashes, underscores and dots, and no dot at either end, so
  never the current or the parent directory.
\<close>

theorem clone_dir_safe:
  "infer_clone_target_dir url \<noteq> [] \<and> length (infer_clone_target_dir url) \<le> 80
   \<and> list_all dir_char (infer_clone_target_dir url)
   \<and> hd (infer_clone_target_dir url) \<noteq> CHR ''.'' \<and> last (infer_clone_target_dir url) \<noteq> CHR ''.''"
proof -
  define n where "n = take 80 (filter dir_char (trim (rev (strip_git
    (takeWhile (\<lambda>c. c \<noteq> CHR ''/'') (dropWhile (\<lambda>c. c = CHR ''/'') (rev url)))))))"
  have n: "length n \<le> 80" "\<forall>c\<in>set n. dir_char c"
    by (auto simp: n_def dest: in_set_takeD)
  obtain a b where ab: "n = a @ trim_dots n @ b" using trim_dots_part by metis
  have len: "length (trim_dots n) \<le> length n" by (subst (2) ab) simp
  have chars: "\<forall>c\<in>set (trim_dots n). dir_char c" using n(2) ab by (metis Un_iff set_append)
  have "\<not> is_space c" if "dir_char c" for c
    using that by (auto simp: dir_char_def is_space_def is_alnum_def is_digit_def)
  with chars have "trim (trim_dots n) = trim_dots n" by (simp add: trim_no_space)
  then have e: "infer_clone_target_dir url =
      (if trim_dots n = [] then ''cloned-repo'' else trim_dots n)"
    by (simp add: infer_clone_target_dir_def Let_def n_def)
  have "list_all dir_char ''cloned-repo''" by code_simp
  then show ?thesis
    using trim_dots_hd [of n] trim_dots_last [of n] len chars n(1) by (auto simp: e list_all_iff)
qed

end
