(* ===== verification/Completion.thy ===== *)
theory Completion
  imports Plan Graph_Builder Helpers
begin

text \<open>
  \<^verbatim>\<open>src/orchestrator/completion.rs\<close>: the callback the run loop calls after each node that
  succeeded (\<^verbatim>\<open>build_on_completed_fn\<close>), which grows the graph from plans, reviews and
  validations, and the parsing of the reviewer's verdict.

  What the callback writes (memories, messages, action events, harness sessions) is not
  modelled: those calls discard their errors and their results. The JSON parsers of the
  \<^verbatim>\<open>serde_json\<close> crate, the choice of a persona and the detected commands of an external
  repository are fields of the environment.
\<close>

section \<open>Environment\<close>

record completion_env =
  ce_run_id :: string
  ce_task :: string
  ce_static_ids :: "string list"
  ce_builder :: builder_env
  ce_parse_plan :: "string \<Rightarrow> subtask_plan option"
  ce_persona :: "agent_node \<Rightarrow> string option"
  ce_external_test :: bool

definition dynamic_subtask_max_parallelism :: nat where
  "dynamic_subtask_max_parallelism = 4"

definition max_dynamic_subtasks_per_plan :: nat where
  "max_dynamic_subtasks_per_plan = 50"

text \<open>\<^verbatim>\<open>split_whitespace\<close>.\<close>

fun split_space :: "string \<Rightarrow> string \<Rightarrow> string list" where
  "split_space acc [] = (if acc = [] then [] else [rev acc])"
| "split_space acc (c # cs) =
     (if is_space c then (if acc = [] then split_space [] cs else rev acc # split_space [] cs)
      else split_space (c # acc) cs)"

definition split_whitespace :: "string \<Rightarrow> string list" where
  "split_whitespace s = split_space [] s"

text \<open>\<^verbatim>\<open>parse_fix_iteration\<close>: the number after the last underscore, 0 if there is none.\<close>

definition parse_fix_iteration :: "string \<Rightarrow> u8" where
  "parse_fix_iteration i =
     (case parse_unsigned 256 (rev (takeWhile (\<lambda>c. c \<noteq> CHR ''_'') (rev i))) of
        Some k \<Rightarrow> of_nat k | None \<Rightarrow> 0)"

section \<open>The nodes the callback adds\<close>

definition dynamic_policy :: "u64 \<Rightarrow> execution_policy" where
  "dynamic_policy t = \<lparr>max_parallelism = 1, retry = 1, timeout_ms = t, circuit_breaker = 2,
     on_dependency_failure = ContinueOnError, fallback_node = None\<rparr>"

definition subtask_policy :: execution_policy where
  "subtask_policy = \<lparr>max_parallelism = dynamic_subtask_max_parallelism, retry = 1,
     timeout_ms = 120000, circuit_breaker = 3, on_dependency_failure = ContinueOnError,
     fallback_node = None\<rparr>"

definition subtask_node :: "completion_env \<Rightarrow> agent_node \<Rightarrow> subtask_definition \<Rightarrow> agent_node" where
  "subtask_node env n s =
     (let instr = (if sd_instructions s = [] then sd_description s else sd_instructions s);
          sub = (new_node (sd_id s) (sd_role s) instr)
            \<lparr>dependencies := (if sd_dependencies s = [] then [node_id n] else sd_dependencies s),
             depth := depth n + 1, mcp_tools := sd_mcp_tools s, policy := subtask_policy\<rparr>
      in sub\<lparr>assigned_persona := ce_persona env sub\<rparr>)"

definition parse_planner_output :: "completion_env \<Rightarrow> string \<Rightarrow> subtask_plan option" where
  "parse_planner_output env out =
     (case Option.bind (extract_json_object out) (ce_parse_plan env) of
        Some p \<Rightarrow> Some p | None \<Rightarrow> ce_parse_plan env out)"

definition checkpoint_nodes :: "completion_env \<Rightarrow> agent_node \<Rightarrow> agent_node list" where
  "checkpoint_nodes env n =
     (if 20 < length (split_whitespace (ce_task env))
      then [(new_node (''dynamic_checkpoint_'' @ ce_run_id env) Summarizer
              ''Create checkpoint summary to reduce context pressure.'')
            \<lparr>dependencies := [node_id n], depth := depth n + 1, policy := dynamic_policy 60000\<rparr>]
      else [])"

definition max_review_iterations :: u8 where
  "max_review_iterations = 3"

definition review_nodes :: "agent_node \<Rightarrow> node_execution_result \<Rightarrow> agent_node list" where
  "review_nodes n r =
     (if role n = Reviewer \<and> res_succeeded r \<and> str_contains (res_output r) ''REQUEST_CHANGES''
         \<and> parse_fix_iteration (node_id n) < max_review_iterations
      then
        let next_iter = parse_fix_iteration (node_id n) + 1;
            fix_id = ''fix_review_'' @ show_nat (unat next_iter)
        in [(new_node fix_id Coder (''The reviewer requested changes. Address the feedback below and push fixes.'' @ nl @ nl
     @ take 3000 (res_output r)))
              \<lparr>dependencies := [node_id n], depth := depth n + 1,
               mcp_tools := [''github/push_files'', ''github/get_file_contents''],
               policy := dynamic_policy 180000\<rparr>,
            (new_node (''re_review_'' @ show_nat (unat next_iter)) Reviewer
               ''Review the updated code after fixes. Output APPROVE or REQUEST_CHANGES.'')
              \<lparr>dependencies := [fix_id], depth := depth n + 2,
               mcp_tools := [''github/pull_request_read'', ''github/pull_request_review_write''],
               policy := dynamic_policy 120000\<rparr>]
      else [])"

definition validation_failed_nodes ::
    "completion_env \<Rightarrow> agent_node \<Rightarrow> node_execution_result \<Rightarrow> agent_node list" where
  "validation_failed_nodes env n r =
     (if role n = Validator \<and> \<not> res_succeeded r
      then
        let vc = validation (ce_builder env);
            iteration = parse_fix_iteration (node_id n);
            phase = (if str_contains (instructions n) ''test'' then ''test'' else ''lint'')
        in if iteration < max_fix_iterations vc
        then
          let next_iter = iteration + 1;
              fix_id = ''fix_'' @ phase @ ''_'' @ show_nat (unat next_iter)
          in [(new_node fix_id Coder (''The previous ''
     @ phase
     @ '' validation failed. Fix ONLY the reported errors below.'' @ nl @ nl
     @ ''ERRORS:'' @ nl
     @ take 2000 (res_output r) @ nl @ nl
     @ ''Do not change unrelated code.''))
                \<lparr>dependencies := [node_id n], depth := depth n + 1,
                 retry_context := Some (res_output r),
                 policy := default_policy\<lparr>timeout_ms := 180000, retry := 1\<rparr>\<rparr>,
              (new_node (''validate_'' @ phase @ ''_'' @ show_nat (unat next_iter)) Validator phase)
                \<lparr>dependencies := [fix_id], depth := depth n + 2,
                 policy := default_policy
                   \<lparr>timeout_ms := (if phase = ''test'' then test_timeout_ms vc
                                   else lint_timeout_ms vc), retry := 0\<rparr>\<rparr>]
        else [(new_node ''summarize_failed'' Summarizer (''Validation failed after ''
     @ show_nat (unat (max_fix_iterations vc))
     @ '' fix attempts. Summarize the errors and partial results.'' @ nl @ nl
     @ ''LAST ERROR:'' @ nl
     @ (case res_error r of Some e \<Rightarrow> e | None \<Rightarrow> ''unknown'')))
                \<lparr>dependencies := [node_id n], depth := depth n + 1, policy := default_policy\<rparr>]
      else [])"

definition inject_git_and_summarize :: "completion_env \<Rightarrow> agent_node \<Rightarrow> agent_node list" where
  "inject_git_and_summarize env n =
     (let commit = git_auto_commit (validation (ce_builder env));
          last_dep = (if commit then ''git_commit'' else node_id n);
          d = (if commit then depth n + 2 else depth n + 1)
      in (if commit
          then [(new_node ''git_commit'' Validator ''git'')
                  \<lparr>dependencies := [node_id n], depth := depth n + 1,
                   policy := default_policy\<lparr>timeout_ms := 60000, retry := 0\<rparr>\<rparr>]
          else [])
         @ [(new_node (''summarize_final_'' @ ce_run_id env) Summarizer
               ''Summarize the code generation, validation, and commit results.'')
              \<lparr>dependencies := [last_dep], depth := d, policy := default_policy\<rparr>])"

definition test_node :: "completion_env \<Rightarrow> agent_node \<Rightarrow> string \<Rightarrow> string \<Rightarrow> execution_policy \<Rightarrow> agent_node" where
  "test_node env n i instr pol = (new_node i Validator instr)
     \<lparr>dependencies := [node_id n], depth := depth n + 1,
      policy := pol\<lparr>timeout_ms := test_timeout_ms (validation (ce_builder env)), retry := 0\<rparr>\<rparr>"

text \<open>
  The branch of a validator that succeeded. The two early returns of the source leave the same
  nodes as falling through, since the last branch of the callback is for reviewers only; the
  flag says which was taken.
\<close>

definition validation_passed_nodes ::
    "completion_env \<Rightarrow> agent_node \<Rightarrow> node_execution_result \<Rightarrow> agent_node list \<times> bool" where
  "validation_passed_nodes env n r =
     (if role n = Validator \<and> res_succeeded r
      then
        let ins = instructions n;
            is_test = str_contains ins ''test'';
            is_lint = (str_contains ins ''lint'' \<or> \<not> str_contains ins ''test'' \<and> \<not> str_contains ins ''git'')
        in if is_lint then
             if str_contains ins ''external'' then
               (if ce_external_test env
                then [test_node env n ''validate_test'' ''external_test'' orch_default_policy]
                else inject_git_and_summarize env n, True)
             else
               (if has_test (validation (ce_builder env))
                then [test_node env n
                        (if node_id n = ''validate_lint'' then ''validate_test''
                         else ''validate_test_'' @ show_nat (unat (parse_fix_iteration (node_id n))))
                        ''test'' default_policy]
                else inject_git_and_summarize env n, False)
           else if is_test then
             (inject_git_and_summarize env n, str_contains ins ''external'')
           else ([], False)
      else ([], False))"

definition replan_nodes ::
    "completion_env \<Rightarrow> agent_node \<Rightarrow> node_execution_result \<Rightarrow> agent_node list" where
  "replan_nodes env n r =
     (let content = trim (res_output r) in
      if role n = Reviewer \<and> res_succeeded r \<and> depth n < 4 \<and> starts_with content ''INCOMPLETE''
      then
        let reason = trim (case strip_prefix content ''INCOMPLETE:'' of Some x \<Rightarrow> x | None \<Rightarrow> content)
        in [(new_node (''replan_after_'' @ node_id n) Planner (''Reviewer flagged the previous work as incomplete.'' @ nl @ nl
     @ ''REASON:'' @ nl
     @ reason @ nl @ nl
     @ ''ORIGINAL TASK:'' @ nl
     @ ce_task env @ nl @ nl
     @ ''Create a JSON SubtaskPlan to address the remaining gap. Do not wrap the JSON in ''
     @ ''markdown fences.''))
              \<lparr>dependencies := [node_id n], depth := depth n + 1, policy := replan_policy\<rparr>]
      else [])"

text \<open>The callback: the nodes to add and the ids of the pending nodes to skip.\<close>

definition on_completed ::
    "completion_env \<Rightarrow> agent_node \<Rightarrow> node_execution_result \<Rightarrow> agent_node list \<times> string list" where
  "on_completed env n r =
     (let normalize = normalize_dynamic_nodes_for_runtime (ce_builder env);
          planning = (role n = Planner \<and> res_succeeded r \<and> depth n < 5);
          rest = (let dyn = (if planning then checkpoint_nodes env n else [])
                        @ review_nodes n r @ validation_failed_nodes env n r
                  in case validation_passed_nodes env n r of
                       (ns, True) \<Rightarrow> (normalize (dyn @ ns), [])
                     | (ns, False) \<Rightarrow> (normalize (dyn @ ns @ replan_nodes env n r), []))
      in if planning then
           (case parse_planner_output env (res_output r) of
              None \<Rightarrow> rest
            | Some plan \<Rightarrow>
                (case validate_subtask_plan plan (ce_static_ids env) max_dynamic_subtasks_per_plan of
                   Inl reason \<Rightarrow> ([], [])
                 | Inr u \<Rightarrow>
                     if subtasks plan \<noteq> []
                     then (normalize (map (subtask_node env n)
                             (take max_dynamic_subtasks_per_plan (subtasks plan))),
                           ce_static_ids env)
                     else rest))
         else rest)"

section \<open>The reviewer's verdict\<close>

datatype verification_verdict = VComplete | VIncomplete string | VAmbiguous string

text \<open>
  \<open>json_status\<close> is what \<^verbatim>\<open>serde_json\<close> finds in the candidate text: the string under \<^verbatim>\<open>status\<close>
  and the string under \<^verbatim>\<open>reason\<close>, if it is a JSON value that has them.
\<close>

definition verdict_of_status :: "string \<Rightarrow> string \<Rightarrow> verification_verdict option" where
  "verdict_of_status status_raw reason_raw =
     (let reason = trim reason_raw; st = map to_lower (trim status_raw) in
      if st \<in> {''complete'', ''completed'', ''success'', ''satisfied'', ''done''} then Some VComplete
      else if st \<in> {''incomplete'', ''not_complete'', ''fail'', ''failed'', ''not_done''}
      then Some (VIncomplete (if reason = [] then ''No reason provided'' else reason))
      else None)"

definition verdict_of_prefix :: "string \<Rightarrow> verification_verdict option" where
  "verdict_of_prefix content =
     (if starts_with content ''COMPLETE'' then Some VComplete
      else if starts_with content ''INCOMPLETE'' then
        let rest = (case strip_prefix content ''INCOMPLETE:'' of Some x \<Rightarrow> x
              | None \<Rightarrow> (case strip_prefix content ''INCOMPLETE'' of Some x \<Rightarrow> x | None \<Rightarrow> content));
            reason = trim rest
        in Some (VIncomplete (if reason = [] then ''No reason provided'' else reason))
      else None)"

definition verdict_of_keywords :: "string \<Rightarrow> verification_verdict" where
  "verdict_of_keywords content =
     (let lower = map to_lower content; preview = take 240 content in
      if contains_any_keyword lower
           [''incomplete'', ''not satisfied'', ''not complete'', ''not done'', ''missing'']
      then VIncomplete preview
      else if list_ex (contains_word lower) [''complete'', ''completed'', ''satisfied'', ''success'']
      then VComplete
      else VAmbiguous preview)"

definition parse_reviewer_verdict ::
    "(string \<Rightarrow> (string option \<times> string option) option) \<Rightarrow> string \<Rightarrow> verification_verdict" where
  "parse_reviewer_verdict json_status raw =
     (let content = trim raw in
      if content = [] then VAmbiguous ''<empty>''
      else
        let candidate = (case extract_json_object content of Some c \<Rightarrow> c | None \<Rightarrow> content);
            from_json = (case json_status candidate of
                Some (Some st, rs) \<Rightarrow> verdict_of_status st (case rs of Some x \<Rightarrow> x | None \<Rightarrow> '''')
              | _ \<Rightarrow> None)
        in case from_json of
             Some v \<Rightarrow> v
           | None \<Rightarrow> (case verdict_of_prefix content of
               Some v \<Rightarrow> v
             | None \<Rightarrow> verdict_of_keywords content))"

text \<open>
  \<^verbatim>\<open>verify_completion\<close>, over the answers of the two reviewer calls: the second is asked only
  when the first is ambiguous.
\<close>

definition verify_completion ::
    "string + verification_verdict \<Rightarrow> string + verification_verdict \<Rightarrow> bool \<times> string" where
  "verify_completion first_answer retry_answer =
     (case first_answer of
        Inl e \<Rightarrow> (False, ''Reviewer unavailable: '' @ e)
      | Inr VComplete \<Rightarrow> (True, ''Verified complete'')
      | Inr (VIncomplete reason) \<Rightarrow> (False, reason)
      | Inr (VAmbiguous p) \<Rightarrow> (case retry_answer of
            Inr VComplete \<Rightarrow> (True, ''Verified complete (on retry)'')
          | Inr (VIncomplete reason) \<Rightarrow> (False, reason)
          | Inr (VAmbiguous rp) \<Rightarrow> (False, ''Ambiguous reviewer response after retry: '' @ rp)
          | Inl e \<Rightarrow> (False, ''Reviewer unavailable on retry: '' @ e)))"

end
