(* ===== verification/Completion_Properties.thy ===== *)
theory Completion_Properties
  imports Completion Run_Properties
begin

text \<open>
  Properties of the completion callback of \<^verbatim>\<open>src/orchestrator/completion.rs\<close>: the nodes it
  adds are accepted by the graph when their ids are new and the depth limit allows, the review
  loop is bounded, and the places where the callback and the run loop do not fit together.
\<close>

section \<open>Adding the nodes of the callback\<close>

lemma add_dynamic_addable:
  "graph_wf (rt_graph s) \<Longrightarrow> fst (add_dynamic_nodes s f ds) = Inr () \<longleftrightarrow>
     addable (set (hm_keys (nodes (rt_graph s)))) (max_depth (rt_graph s)) ds"
proof (induction ds arbitrary: s)
  case (Cons d ds)
  obtain r g where a: "add_node (rt_graph s) d = (r, g)" by fastforce
  have ok: "r = Inr () \<longleftrightarrow> addable (set (hm_keys (nodes (rt_graph s)))) (max_depth (rt_graph s)) [d]"
    using add_node_addable [OF Cons.prems, of d] a by simp
  show ?case
  proof (cases r)
    case (Inl e)
    then show ?thesis using a ok by auto
  next
    case (Inr u)
    have g: "graph_wf g" "max_depth g = max_depth (rt_graph s)"
      "hm_keys (nodes g) = hm_keys (nodes (rt_graph s)) @ [node_id d]"
      using a Inr add_node_Inr [OF Cons.prems, of d g] add_node_wf_lemma [OF Cons.prems, of d]
      by simp_all
    have "fst (add_dynamic_nodes (emit (s\<lparr>rt_graph := g\<rparr>) e) f ds) = Inr () \<longleftrightarrow>
        addable (set (hm_keys (nodes g))) (max_depth g) ds" for e
      using Cons.IH [of "emit (s\<lparr>rt_graph := g\<rparr>) e"] g(1) by simp
    then show ?thesis using a Inr ok g(2,3) by simp
  qed
qed simp

lemma addable_normalize:
  "addable K md (normalize_dynamic_nodes_for_runtime b ns) \<longleftrightarrow> addable K md ns"
  by (induction ns arbitrary: K) (simp_all add: normalize_dynamic_nodes_for_runtime_def)

lemma ids_normalize [simp]:
  "node_id ` set (normalize_dynamic_nodes_for_runtime b ns) = node_id ` set ns"
  by (simp add: normalize_dynamic_nodes_for_runtime_def image_image)

section \<open>The number in a node id\<close>

lemma takeWhile_show_nat:
  "takeWhile (\<lambda>c. c \<noteq> CHR ''_'') (rev (p @ ''_'' @ show_nat k)) = rev (show_nat k)"
proof -
  have "\<forall>c\<in>set (rev (show_nat k)). c \<noteq> CHR ''_''"
    using show_nat_digits [of k] digit_not_underscore by (auto simp: list_all_iff)
  then have "takeWhile (\<lambda>c. c \<noteq> CHR ''_'') (rev (show_nat k) @ CHR ''_'' # rev p) = rev (show_nat k)"
    by (subst takeWhile_append2) auto
  then show ?thesis by simp
qed

text \<open>
  The iteration number written at the end of a node id is read back: the ids of the repair
  loops carry their counter faithfully.
\<close>

theorem parse_fix_iteration_roundtrip:
  assumes "k < 256"
  shows "parse_fix_iteration (p @ ''_'' @ show_nat k) = of_nat k"
  using parse_show_nat [OF assms] takeWhile_show_nat [of p k]
  unfolding parse_fix_iteration_def by simp

theorem parse_fix_iteration_roundtrip_witness:
  "parse_fix_iteration (''validate_test'' @ ''_'' @ show_nat 2) = 2"
  using parse_fix_iteration_roundtrip [of 2 "''validate_test''"] by simp

section \<open>The review loop\<close>

lemma unat_iteration: "k < 256 \<Longrightarrow> unat (of_nat k :: u8) = k"
  by (simp add: unat_of_nat)

text \<open>
  The review loop is bounded: a reviewer whose id ends in the number \<open>k\<close> and who requests
  changes gets a repair and a new review with the number \<open>k + 1\<close> when \<open>k\<close> is below 3, and
  nothing from then on.
\<close>

theorem review_loop_bounded:
  assumes "role n = Reviewer" "res_succeeded r" "str_contains (res_output r) ''REQUEST_CHANGES''"
    and "node_id n = p @ ''_'' @ show_nat k" "k < 256"
  shows "map node_id (review_nodes n r) =
    (if k < 3 then [''fix_review_'' @ show_nat (k + 1), ''re_review_'' @ show_nat (k + 1)] else [])"
proof -
  have it: "parse_fix_iteration (node_id n) = of_nat k"
    using takeWhile_show_nat [of p k] parse_show_nat [OF assms(5)] assms(4)
    by (simp add: parse_fix_iteration_def)
  have lt: "(of_nat k :: u8) < 3 \<longleftrightarrow> k < 3"
    using unat_iteration [OF assms(5)] by (simp add: word_less_nat_alt)
  have "unat ((of_nat k :: u8) + 1) = k + 1" if "k < 3"
    using that by (simp add: unat_word_ariths unat_iteration [OF assms(5)])
  then show ?thesis
    using assms(1-3) it lt by (simp add: review_nodes_def max_review_iterations_def Let_def new_node_def)
qed

definition review_result :: "string \<Rightarrow> node_execution_result" where
  "review_result i = result_success i Reviewer ''mock'' ''REQUEST_CHANGES: tests'' 1"

theorem review_loop_bounded_witness:
  "map node_id (review_nodes (new_node (''re_review'' @ ''_'' @ show_nat 3) Reviewer ''x'')
     (review_result ''re_review_3'')) = []"
proof -
  have "str_contains (res_output (review_result ''re_review_3'')) ''REQUEST_CHANGES''" by code_simp
  from review_loop_bounded [OF _ _ this, of "new_node (''re_review'' @ ''_'' @ show_nat 3) Reviewer ''x''"
      "''re_review''" 3]
  show ?thesis by (simp add: new_node_def review_result_def result_success_def)
qed

text \<open>
  The review loop does not look at the depth limit: when the new review would lie below the
  limit of the graph, adding the nodes fails, and with it the run.
\<close>

theorem review_depth_abort:
  assumes "graph_wf (rt_graph s)"
    and "role n = Reviewer" "res_succeeded r" "str_contains (res_output r) ''REQUEST_CHANGES''"
    and "parse_fix_iteration (node_id n) < 3"
    and "unat (depth n) < 254" "unat (max_depth (rt_graph s)) < unat (depth n) + 2"
  shows "\<exists>e. fst (add_dynamic_nodes s (node_id n) (fst (on_completed env n r))) = Inl e"
proof -
  have d: "unat (depth n + 2) = unat (depth n) + 2"
    using assms(6) by (simp add: unat_word_ariths)
  have ns: "fst (on_completed env n r) = normalize_dynamic_nodes_for_runtime (ce_builder env)
      (review_nodes n r @ replan_nodes env n r)"
    using assms(2) by (simp add: on_completed_def validation_failed_nodes_def validation_passed_nodes_def)
  obtain a b where rn: "review_nodes n r = [a, b]" "depth b = depth n + 2"
    using assms(2-5) by (simp add: review_nodes_def max_review_iterations_def Let_def)
  have "\<not> depth b \<le> max_depth (rt_graph s)"
    using assms(7) d rn(2) by (simp add: word_le_nat_alt)
  then have "\<not> addable (set (hm_keys (nodes (rt_graph s)))) (max_depth (rt_graph s))
      (fst (on_completed env n r))"
    by (simp add: ns addable_normalize rn)
  with add_dynamic_addable [OF assms(1)]
  have "fst (add_dynamic_nodes s (node_id n) (fst (on_completed env n r))) \<noteq> Inr ()" by blast
  then show ?thesis by (cases "fst (add_dynamic_nodes s (node_id n) (fst (on_completed env n r)))") auto
qed

definition sample_env :: completion_env where
  "sample_env = \<lparr>ce_run_id = ''r'', ce_task = ''t'', ce_static_ids = [''code''],
     ce_builder = \<lparr>max_graph_depth = 6, cli_timeout_ms = None, validation = default_validation_config\<rparr>,
     ce_parse_plan = (\<lambda>_. None), ce_persona = (\<lambda>_. None), ce_external_test = False\<rparr>"

definition deep_review :: agent_node where
  "deep_review = (new_node ''re_review_2'' Reviewer ''x'')\<lparr>depth := 5\<rparr>"

theorem review_depth_abort_witness:
  "\<exists>e. fst (add_dynamic_nodes (start_state (new_graph 6)) (node_id deep_review)
     (fst (on_completed sample_env deep_review (review_result ''re_review_2'')))) = Inl e"
proof (rule review_depth_abort)
  show "str_contains (res_output (review_result ''re_review_2'')) ''REQUEST_CHANGES''" by code_simp
  show "parse_fix_iteration (node_id deep_review) < 3" by code_simp
qed (simp_all add: deep_review_def new_node_def review_result_def result_success_def
    start_state_def graph_wf_new, simp add: new_graph_def)

section \<open>Nodes outside plans\<close>

lemma depth_plus:
  assumes "unat (depth n) + 3 \<le> unat (md :: u8)" "k \<le> 3"
  shows "depth n + of_nat k \<le> md"
proof -
  have "unat md < 256" using unsigned_less [of md, where 'a = nat] by simp
  then have "unat (depth n + of_nat k) = unat (depth n) + k"
    using assms by (simp add: unat_word_ariths unat_of_nat)
  with assms show ?thesis by (simp add: word_le_nat_alt)
qed

lemma depth_le:
  assumes "unat (depth n) + 3 \<le> unat (md :: u8)"
  shows "depth n + 1 \<le> md" "depth n + 2 \<le> md"
  using depth_plus [OF assms, of 1] depth_plus [OF assms, of 2] by simp_all

lemma checkpoint_below:
  assumes "node_id n \<in> K" "unat (depth n) + 3 \<le> unat md" "list_all (\<lambda>m. node_id m \<notin> K) (checkpoint_nodes env n)"
  shows "addable K md (checkpoint_nodes env n)"
  using assms depth_le [OF assms(2)] by (auto simp: checkpoint_nodes_def new_node_def split: if_splits)

lemma replan_below:
  assumes "node_id n \<in> K" "unat (depth n) + 3 \<le> unat md" "list_all (\<lambda>m. node_id m \<notin> K) (replan_nodes env n r)"
  shows "addable K md (replan_nodes env n r)"
  using assms depth_le [OF assms(2)] by (auto simp: replan_nodes_def Let_def new_node_def split: if_splits)

lemma review_below:
  assumes "node_id n \<in> K" "unat (depth n) + 3 \<le> unat md" "list_all (\<lambda>m. node_id m \<notin> K) (review_nodes n r)"
  shows "addable K md (review_nodes n r)"
  using assms depth_le [OF assms(2)] by (auto simp: review_nodes_def Let_def new_node_def split: if_splits)

lemma failed_below:
  assumes "node_id n \<in> K" "unat (depth n) + 3 \<le> unat md"
    "list_all (\<lambda>m. node_id m \<notin> K) (validation_failed_nodes env n r)"
  shows "addable K md (validation_failed_nodes env n r)"
  using assms depth_le [OF assms(2)]
  by (auto simp: validation_failed_nodes_def Let_def new_node_def split: if_splits)

lemma inject_below:
  assumes "node_id n \<in> K" "unat (depth n) + 3 \<le> unat md"
    "list_all (\<lambda>m. node_id m \<notin> K) (inject_git_and_summarize env n)"
  shows "addable K md (inject_git_and_summarize env n)"
  using assms depth_le [OF assms(2)]
  by (auto simp: inject_git_and_summarize_def Let_def new_node_def split: if_splits)

lemma test_below:
  assumes "node_id n \<in> K" "unat (depth n) + 3 \<le> unat md" "i \<notin> K"
  shows "addable K md [test_node env n i instr pol]"
  using assms depth_le [OF assms(2)] by (simp add: test_node_def new_node_def)

lemma review_replan_below:
  assumes "node_id n \<in> K" "unat (depth n) + 3 \<le> unat md"
    "list_all (\<lambda>m. node_id m \<notin> K) (review_nodes n r @ replan_nodes env n r)"
  shows "addable K md (review_nodes n r @ replan_nodes env n r)"
proof -
  have "list_all (\<lambda>m. node_id m = ''replan_after_'' @ node_id n) (replan_nodes env n r)"
    by (simp add: replan_nodes_def Let_def new_node_def)
  moreover have "list_all (\<lambda>m. node_id m \<noteq> ''replan_after_'' @ node_id n) (review_nodes n r)"
    by (simp add: review_nodes_def Let_def new_node_def)
  ultimately have "list_all (\<lambda>m. node_id m \<notin> K \<union> node_id ` set (review_nodes n r)) (replan_nodes env n r)"
    using assms(3) unfolding list_all_iff by fastforce
  then show ?thesis
    using replan_below [of n "K \<union> node_id ` set (review_nodes n r)" md env r] review_below [of n K md r] assms
    by (simp add: addable_append)
qed

lemma on_completed_no_plan:
  assumes "role n = Planner \<Longrightarrow> parse_planner_output env (res_output r) = None"
  obtains ns where "fst (on_completed env n r) = normalize_dynamic_nodes_for_runtime (ce_builder env) ns"
    and "ns = checkpoint_nodes env n \<or> ns = review_nodes n r @ replan_nodes env n r
      \<or> ns = validation_failed_nodes env n r \<or> ns = inject_git_and_summarize env n
      \<or> (\<exists>i instr pol. ns = [test_node env n i instr pol]) \<or> ns = []"
proof -
  obtain b ns2 where v: "validation_passed_nodes env n r = (ns2, b)" by fastforce
  have ns2: "ns2 = inject_git_and_summarize env n \<or> (\<exists>i instr pol. ns2 = [test_node env n i instr pol]) \<or> ns2 = []"
    "ns2 \<noteq> [] \<Longrightarrow> role n = Validator \<and> res_succeeded r"
    using v by (auto simp: validation_passed_nodes_def Let_def split: if_splits)
  define chk where "chk = (if role n = Planner \<and> res_succeeded r \<and> depth n < 5 then checkpoint_nodes env n else [])"
  have f: "fst (on_completed env n r) = normalize_dynamic_nodes_for_runtime (ce_builder env)
      (chk @ review_nodes n r @ validation_failed_nodes env n r @ ns2
        @ (if b then [] else replan_nodes env n r))"
    using assms v by (auto simp: on_completed_def Let_def chk_def split: bool.split)
  have e: "role n \<noteq> Reviewer \<Longrightarrow> review_nodes n r = [] \<and> replan_nodes env n r = []"
    "role n \<noteq> Validator \<or> res_succeeded r \<Longrightarrow> validation_failed_nodes env n r = []"
    "role n = Reviewer \<Longrightarrow> b = False"
    using v by (auto simp: review_nodes_def replan_nodes_def validation_failed_nodes_def
        validation_passed_nodes_def Let_def split: if_splits)
  show thesis
  proof (rule that [OF f])
    show "chk @ review_nodes n r @ validation_failed_nodes env n r @ ns2
        @ (if b then [] else replan_nodes env n r) = checkpoint_nodes env n \<or>
      chk @ review_nodes n r @ validation_failed_nodes env n r @ ns2
        @ (if b then [] else replan_nodes env n r) = review_nodes n r @ replan_nodes env n r \<or>
      chk @ review_nodes n r @ validation_failed_nodes env n r @ ns2
        @ (if b then [] else replan_nodes env n r) = validation_failed_nodes env n r \<or>
      chk @ review_nodes n r @ validation_failed_nodes env n r @ ns2
        @ (if b then [] else replan_nodes env n r) = inject_git_and_summarize env n \<or>
      (\<exists>i instr pol. chk @ review_nodes n r @ validation_failed_nodes env n r @ ns2
        @ (if b then [] else replan_nodes env n r) = [test_node env n i instr pol]) \<or>
      chk @ review_nodes n r @ validation_failed_nodes env n r @ ns2
        @ (if b then [] else replan_nodes env n r) = []"
    proof (cases "role n = Validator")
      case True
      then show ?thesis using e(1) e(2) ns2 by (cases "res_succeeded r") (auto simp: chk_def)
    next
      case False
      then have "ns2 = []" "validation_failed_nodes env n r = []" using ns2(2) e(2) by auto
      with False e show ?thesis by (cases "role n = Reviewer") (auto simp: chk_def)
    qed
  qed
qed

text \<open>
  The nodes the callback adds for a node of the graph, other than those of a plan, are all
  accepted by the graph when their ids are new and three more levels fit the depth limit:
  each depends on the completed node or on a node added before it.
\<close>

theorem dynamic_nodes_accepted:
  assumes "graph_wf (rt_graph s)" and "node (rt_graph s) (node_id n) = Some n"
    and "role n = Planner \<Longrightarrow> parse_planner_output env (res_output r) = None"
    and "\<forall>m\<in>set (fst (on_completed env n r)). node (rt_graph s) (node_id m) = None"
    and "unat (depth n) + 3 \<le> unat (max_depth (rt_graph s))"
  shows "fst (add_dynamic_nodes s (node_id n) (fst (on_completed env n r))) = Inr ()"
proof -
  let ?K = "set (hm_keys (nodes (rt_graph s)))"
  obtain ns where ns: "fst (on_completed env n r) = normalize_dynamic_nodes_for_runtime (ce_builder env) ns"
    "ns = checkpoint_nodes env n \<or> ns = review_nodes n r @ replan_nodes env n r
      \<or> ns = validation_failed_nodes env n r \<or> ns = inject_git_and_summarize env n
      \<or> (\<exists>i instr pol. ns = [test_node env n i instr pol]) \<or> ns = []"
    using on_completed_no_plan [OF assms(3)] by metis
  have n: "node_id n \<in> ?K" using assms(2) by (simp add: set_hm_keys node_def)
  have "node_id m \<notin> ?K" if "m \<in> set (fst (on_completed env n r))" for m
    using assms(4) that by (simp add: set_hm_keys node_def)
  then have "node_id ` set (normalize_dynamic_nodes_for_runtime (ce_builder env) ns) \<inter> ?K = {}"
    unfolding ns(1) by blast
  then have "node_id ` set ns \<inter> ?K = {}" by simp
  then have fresh: "list_all (\<lambda>m. node_id m \<notin> ?K) ns" by (auto simp: list_all_iff)
  have "addable ?K (max_depth (rt_graph s)) ns"
    using ns(2)
  proof (elim disjE exE)
    fix i instr pol
    assume t: "ns = [test_node env n i instr pol]"
    with fresh have "i \<notin> ?K" by (simp add: test_node_def new_node_def)
    with t test_below [OF n assms(5)] show ?thesis by simp
  qed (use fresh checkpoint_below [OF n assms(5)] review_replan_below [OF n assms(5)]
      failed_below [OF n assms(5)] inject_below [OF n assms(5)] in simp_all)
  with add_dynamic_addable [OF assms(1)] show ?thesis by (simp add: ns(1) addable_normalize)
qed

definition review_graph :: execution_graph where
  "review_graph = snd (add_nodes (new_graph 6) [new_node ''re_review_1'' Reviewer ''x''])"

theorem dynamic_nodes_accepted_witness:
  "fst (add_dynamic_nodes (start_state review_graph) ''re_review_1''
     (fst (on_completed sample_env (new_node ''re_review_1'' Reviewer ''x'') (review_result ''re_review_1''))))
   = Inr ()"
proof -
  let ?n = "new_node ''re_review_1'' Reviewer ''x''"
  have g: "graph_wf review_graph" unfolding review_graph_def by (intro wf_intros)
  have "node review_graph ''re_review_1'' = Some ?n" "max_depth review_graph = 6"
    "list_all (\<lambda>m. node review_graph (node_id m) = None)
      (fst (on_completed sample_env ?n (review_result ''re_review_1'')))"
    by code_simp+
  with g dynamic_nodes_accepted [of "start_state review_graph" ?n sample_env "review_result ''re_review_1''"]
  show ?thesis by (simp add: start_state_def new_node_def list_all_iff)
qed

section \<open>The nodes of a plan\<close>

text \<open>Subtasks listed after what they depend on, when the ids \<open>K\<close> are known before.\<close>

fun in_order :: "string set \<Rightarrow> subtask_definition list \<Rightarrow> bool" where
  "in_order K [] = True"
| "in_order K (s # ss) \<longleftrightarrow> set (sd_dependencies s) \<subseteq> K \<and> in_order (insert (sd_id s) K) ss"

lemma subtask_node_simps [simp]:
  "node_id (subtask_node env n s) = sd_id s"
  "depth (subtask_node env n s) = depth n + 1"
  "dependencies (subtask_node env n s) =
     (if sd_dependencies s = [] then [node_id n] else sd_dependencies s)"
  by (simp_all add: subtask_node_def new_node_def Let_def)

lemma addable_subtasks:
  "node_id n \<in> K \<Longrightarrow> distinct (map sd_id ss) \<Longrightarrow>
     addable K md (map (subtask_node env n) ss) \<longleftrightarrow>
       ss = [] \<or> depth n + 1 \<le> md \<and> sd_id ` set ss \<inter> K = {} \<and> in_order K ss"
  by (induction ss arbitrary: K) auto

text \<open>
  C14: for a plan that passed the check, the run loop accepts the subtasks exactly when one more
  level fits the depth limit, no subtask has the id of a node of the graph, and the plan lists
  every subtask after its dependencies, whose names match to the byte. The check itself demands
  none of the three.
\<close>

theorem plan_nodes_accepted:
  assumes "graph_wf (rt_graph s)" "node (rt_graph s) (node_id n) = Some n"
    and "role n = Planner" "res_succeeded r" "depth n < 5"
    and "parse_planner_output env (res_output r) = Some p"
    and "validate_subtask_plan p (ce_static_ids env) 50 = Inr ()"
  shows "fst (add_dynamic_nodes s (node_id n) (fst (on_completed env n r))) = Inr () \<longleftrightarrow>
      depth n + 1 \<le> max_depth (rt_graph s)
    \<and> (\<forall>t\<in>set (subtasks p). node (rt_graph s) (sd_id t) = None)
    \<and> in_order (set (hm_keys (nodes (rt_graph s)))) (subtasks p)"
proof -
  let ?K = "set (hm_keys (nodes (rt_graph s)))"
  have v: "subtasks p \<noteq> []" "length (subtasks p) \<le> 50" "distinct (map sd_id (subtasks p))"
    using assms(7) unfolding validate_subtask_plan_iff subtask_ids_def by blast+
  have "fst (on_completed env n r) = normalize_dynamic_nodes_for_runtime (ce_builder env)
      (map (subtask_node env n) (subtasks p))"
    using assms(3-7) v(1,2) by (simp add: on_completed_def max_dynamic_subtasks_per_plan_def)
  then have "fst (add_dynamic_nodes s (node_id n) (fst (on_completed env n r))) = Inr () \<longleftrightarrow>
      addable ?K (max_depth (rt_graph s)) (map (subtask_node env n) (subtasks p))"
    by (simp add: add_dynamic_addable [OF assms(1)] addable_normalize)
  moreover have "node_id n \<in> ?K" using assms(2) by (simp add: set_hm_keys node_def)
  ultimately show ?thesis
    using addable_subtasks [of n ?K "subtasks p" "max_depth (rt_graph s)" env] v(1,3)
    by (auto simp: set_hm_keys node_def)
qed

definition reversed_plan :: subtask_plan where
  "reversed_plan = \<lparr>subtasks = [sample_subtask ''b'' [''a''], sample_subtask ''a'' []]\<rparr>"

definition plan_env :: "subtask_plan \<Rightarrow> completion_env" where
  "plan_env p = sample_env\<lparr>ce_parse_plan := (\<lambda>_. Some p)\<rparr>"

definition plan_graph :: execution_graph where
  "plan_graph = snd (add_nodes (new_graph 6)
     [new_node ''plan'' Planner ''x'', (new_node ''code'' Coder ''y'')\<lparr>dependencies := [''plan'']\<rparr>])"

lemma plan_graph_wf: "graph_wf plan_graph"
  unfolding plan_graph_def by (intro wf_intros)

definition plan_result :: node_execution_result where
  "plan_result = result_success ''plan'' Planner ''mock'' ''{}'' 1"

theorem plan_nodes_accepted_witness:
  "fst (add_dynamic_nodes (start_state plan_graph) ''plan''
     (fst (on_completed (plan_env reversed_plan) (new_node ''plan'' Planner ''x'') plan_result))) \<noteq> Inr ()"
proof -
  let ?n = "new_node ''plan'' Planner ''x''"
  have "node plan_graph ''plan'' = Some ?n" "hm_keys (nodes plan_graph) = [''plan'', ''code'']"
    "parse_planner_output (plan_env reversed_plan) (res_output plan_result) = Some reversed_plan"
    "validate_subtask_plan reversed_plan (ce_static_ids (plan_env reversed_plan)) 50 = Inr ()"
    by code_simp+
  with plan_nodes_accepted [of "start_state plan_graph" ?n plan_result "plan_env reversed_plan" reversed_plan]
  show ?thesis
    by (simp add: start_state_def plan_graph_wf new_node_def plan_result_def result_success_def)
      (simp add: reversed_plan_def sample_subtask_def)
qed

definition plan_input :: "subtask_plan \<Rightarrow> loop_input" where
  "plan_input p = ok_input\<lparr>li_join := Inr (0, \<lambda>k. Returned plan_result),
     li_completed := Inr (on_completed (plan_env p) (new_node ''plan'' Planner ''x'') plan_result)\<rparr>"

text \<open>
  A plan the check accepts can abort the whole run: the plan that lists \<open>b\<close>, which depends
  on \<open>a\<close>, before \<open>a\<close> is accepted, and the run fails because \<open>a\<close> is not in the graph yet; with
  the two subtasks swapped the same run goes on.
\<close>

theorem plan_order_abort:
  "validate_subtask_plan reversed_plan [''code''] 50 = Inr ()
   \<and> (case execute_graph 2 [plan_input reversed_plan] plan_graph of
        Aborted e t \<Rightarrow> e = ''node b dependency a does not exist in graph'' | _ \<Rightarrow> False)
   \<and> (case execute_graph 2 [plan_input \<lparr>subtasks = rev (subtasks reversed_plan)\<rparr>] plan_graph of
        Continue t \<Rightarrow> True | _ \<Rightarrow> False)"
  by (intro conjI; code_simp)

section \<open>A failed validation\<close>

text \<open>The graph of a code generation task with a lint command configured.\<close>

definition lint_env :: builder_env where
  "lint_env = \<lparr>max_graph_depth = 6, cli_timeout_ms = None,
     validation = default_validation_config\<lparr>lint_commands := [''lint'']\<rparr>\<rparr>"

definition lint_graph :: execution_graph where
  "lint_graph = (case build_graph lint_env CodeGeneration ''p'' '''' False of
     Inr g \<Rightarrow> g | Inl e \<Rightarrow> new_graph 0)"

definition lint_input :: loop_input where
  "lint_input = ok_input\<lparr>li_join := Inr (0, \<lambda>k. Errored ''lint failed'')\<rparr>"

text \<open>
  A failed lint check ends the run without any repair: when the plan, the two extractions
  and the code succeed and \<open>validate_lint\<close> fails, the run finishes with the failure; its
  fallback was skipped when the code succeeded, and the callback that would add a repair node
  or a summary is only called for nodes that succeed.
\<close>

theorem lint_failure_dead_end:
  "case execute_graph 1 [ok_input, ok_input, ok_input, ok_input, lint_input, ok_input] lint_graph of
     Finished out t \<Rightarrow> length out = 5
       \<and> status (rt_graph t) ''code'' = Some Succeeded
       \<and> status (rt_graph t) ''validate_lint'' = Some Failed
       \<and> status (rt_graph t) ''fallback_code'' = Some Skipped
       \<and> length (hm_keys (nodes (rt_graph t))) = 6
   | _ \<Rightarrow> False"
  by code_simp

section \<open>The verdict\<close>

text \<open>
  A run is only taken as complete when a reviewer said so: the first answer is the verdict
  complete, or it is ambiguous and the answer to the stricter question is.
\<close>

theorem verify_completion_accepts:
  "fst (verify_completion a b) \<longleftrightarrow> a = Inr VComplete \<or> (\<exists>p. a = Inr (VAmbiguous p)) \<and> b = Inr VComplete"
  by (auto simp: verify_completion_def split: sum.splits verification_verdict.splits)

text \<open>The prefix is matched without a word boundary: a devastating review is read as complete.\<close>

lemma completely_accepted:
  "parse_reviewer_verdict (\<lambda>_. None) ''COMPLETELY WRONG: the output is missing'' = VComplete
   \<and> parse_reviewer_verdict (\<lambda>_. None) ''WRONG: the output is missing''
      = VIncomplete ''WRONG: the output is missing''"
  by code_simp

end
