(* ===== verification/Mentions.thy ===== *)
theory Mentions
  imports Helpers "HOL-Library.Sublist"
begin

text \<open>
  The parser of mentions of \<^verbatim>\<open>src/orchestrator/mentions.rs\<close>. Texts are sequences of bytes:
  the code scans \<^verbatim>\<open>as_bytes\<close>, and the bytes it stops at are ASCII, so its slices never cut a
  character.

  Main results: \<open>strip_code\<close> leaves no backtick and keeps the order of what it leaves; a mention
  is a registered name that occurs after an at sign of the stripped text, up to case; no name
  is reported twice; a name that is a prefix of the word written matches as well.
\<close>

section \<open>Stripping code\<close>

abbreviation backtick :: char where "backtick \<equiv> CHR 0x60"

text \<open>The inner loops: up to the closing fence, up to the closing backtick.\<close>

fun skip_fence :: "string \<Rightarrow> string" where
  "skip_fence (c # d # cs) =
     (if c = backtick \<and> d = backtick
      then (case cs of e # es \<Rightarrow> if e = backtick then es else skip_fence cs | [] \<Rightarrow> [])
      else skip_fence (d # cs))"
| "skip_fence _ = []"

fun skip_inline :: "string \<Rightarrow> string" where
  "skip_inline [] = []"
| "skip_inline (c # cs) = (if c = backtick then cs else skip_inline cs)"

lemma length_skip_fence: "length (skip_fence cs) \<le> length cs"
proof (induction cs rule: skip_fence.induct)
  case (1 c d cs)
  then show ?case by (cases cs) (auto intro: le_SucI)
qed simp_all

lemma length_skip_inline: "length (skip_inline cs) \<le> length cs"
  by (induction cs) auto

function strip_code :: "string \<Rightarrow> string" where
  "strip_code [] = []"
| "strip_code (ch # cs) =
     (if ch = backtick
      then if take 2 cs = [backtick, backtick] then strip_code (skip_fence (drop 2 cs))
           else strip_code (skip_inline cs)
      else ch # strip_code cs)"
  by pat_completeness auto
termination
  by (relation "measure length")
    (auto simp: less_Suc_eq_le length_skip_inline intro: order_trans [OF length_skip_fence])

section \<open>Scanning for names\<close>

definition mention_byte :: "char \<Rightarrow> bool" where
  "mention_byte c \<longleftrightarrow> is_alnum c \<or> c = CHR ''_'' \<or> c = CHR ''-'' \<or> c = CHR '' ''"

definition trim_end_spaces :: "string \<Rightarrow> string" where
  "trim_end_spaces s = rev (dropWhile (\<lambda>c. c = CHR '' '') (rev s))"

text \<open>The longest registered name that is a prefix of the candidate; the first of equals.\<close>

definition better_match :: "string \<Rightarrow> string option \<Rightarrow> string \<Rightarrow> string option" where
  "better_match lower best reg =
     (if starts_with lower (map to_lower reg)
         \<and> (case best of Some b \<Rightarrow> length b | None \<Rightarrow> 0) < length reg
      then Some reg else best)"

definition best_match :: "string \<Rightarrow> string list \<Rightarrow> string option" where
  "best_match lower registered = foldl (better_match lower) None registered"

definition matches :: "string \<Rightarrow> string \<Rightarrow> bool" where
  "matches lower reg \<longleftrightarrow> reg \<noteq> [] \<and> starts_with lower (map to_lower reg)"

lemma best_match_cases:
  "case best_match lower registered of
     None \<Rightarrow> (\<forall>r\<in>set registered. \<not> matches lower r)
   | Some i \<Rightarrow> i \<in> set registered \<and> matches lower i
       \<and> (\<forall>r\<in>set registered. matches lower r \<longrightarrow> length r \<le> length i)"
proof (induction registered rule: rev_induct)
  case Nil
  then show ?case by (simp add: best_match_def)
next
  case (snoc r rs)
  have "best_match lower (rs @ [r]) = better_match lower (best_match lower rs) r"
    by (simp add: best_match_def)
  with snoc show ?case
    by (auto simp: better_match_def matches_def split: option.splits if_splits)
qed

lemma best_match_SomeD:
  "best_match lower registered = Some i \<Longrightarrow> i \<in> set registered \<and> matches lower i"
  using best_match_cases [where lower = lower and registered = registered] by simp

lemma best_match_nonempty: "best_match lower registered = Some i \<Longrightarrow> 0 < length i"
  using best_match_SomeD [of lower registered i] by (simp add: matches_def)

definition starts_mention :: "string \<Rightarrow> nat \<Rightarrow> bool" where
  "starts_mention cleaned i \<longleftrightarrow> cleaned ! i = CHR ''@''
     \<and> \<not> (0 < i \<and> (is_alnum (cleaned ! (i - 1)) \<or> cleaned ! (i - 1) = CHR ''_''))"

definition candidate_at :: "string \<Rightarrow> nat \<Rightarrow> string" where
  "candidate_at cleaned i = trim_end_spaces (takeWhile mention_byte (drop (Suc i) cleaned))"

definition candidate_end :: "string \<Rightarrow> nat \<Rightarrow> nat" where
  "candidate_end cleaned i = Suc i + length (takeWhile mention_byte (drop (Suc i) cleaned))"

function mention_loop :: "string \<Rightarrow> string list \<Rightarrow> nat \<Rightarrow> string list \<Rightarrow> string list" where
  "mention_loop cleaned registered i out =
     (if length cleaned \<le> i then out
      else if \<not> starts_mention cleaned i then mention_loop cleaned registered (Suc i) out
      else if length (candidate_at cleaned i) < 2
      then mention_loop cleaned registered (candidate_end cleaned i) out
      else (case best_match (map to_lower (candidate_at cleaned i)) registered of
          Some reg \<Rightarrow> mention_loop cleaned registered (Suc i + length reg)
              (if reg \<in> set out then out else out @ [reg])
        | None \<Rightarrow> mention_loop cleaned registered (candidate_end cleaned i) out))"
  by pat_completeness auto
termination
  by (relation "measure (\<lambda>(cleaned, registered, i, out). length cleaned - i)")
    (auto simp: candidate_end_def dest: best_match_nonempty)

declare mention_loop.simps [simp del]

definition parse_mentions :: "string \<Rightarrow> string list \<Rightarrow> string list" where
  "parse_mentions txt registered = mention_loop (strip_code txt) registered 0 []"

section \<open>What the parser finds\<close>

lemma subseq_skip_fence: "subseq (skip_fence cs) cs"
proof (induction cs rule: skip_fence.induct)
  case (1 c d cs)
  then show ?case
    by (cases cs) (simp_all add: list_emb_Cons)
qed simp_all

lemma subseq_skip_inline: "subseq (skip_inline cs) cs"
  by (induction cs) (simp_all add: list_emb_Cons)

lemma strip_code_subseq: "subseq (strip_code cs) cs"
proof (induction cs rule: strip_code.induct)
  case (2 ch cs)
  have "subseq (skip_fence (drop 2 cs)) cs"
    using subseq_skip_fence suffix_imp_subseq [OF suffix_drop] by (rule subseq_order.trans)
  moreover have "subseq (strip_code (skip_inline cs)) cs" if "subseq (strip_code (skip_inline cs)) (skip_inline cs)"
    using that subseq_skip_inline by (rule subseq_order.trans)
  ultimately show ?case
    using 2 by (auto intro: list_emb_Cons subseq_order.trans [of _ "skip_fence (drop 2 cs)"])
qed simp

lemma strip_code_no_backtick: "backtick \<notin> set (strip_code cs)"
  by (induction cs rule: strip_code.induct) auto

text \<open>Where a mention of a name is written: after an at sign that no word precedes.\<close>

definition mentioned_at :: "string \<Rightarrow> string \<Rightarrow> nat \<Rightarrow> bool" where
  "mentioned_at cleaned reg i \<longleftrightarrow> i < length cleaned \<and> starts_mention cleaned i
     \<and> map to_lower (take (length reg) (drop (Suc i) cleaned)) = map to_lower reg"

lemma trim_end_spaces_prefix: "prefix (trim_end_spaces s) s"
proof -
  have "suffix (dropWhile (\<lambda>c. c = CHR '' '') (rev s)) (rev s)" by (rule suffix_dropWhile)
  then show ?thesis by (simp add: trim_end_spaces_def suffix_to_prefix)
qed

lemma candidate_prefix: "prefix (candidate_at cleaned i) (drop (Suc i) cleaned)"
  unfolding candidate_at_def
  by (rule prefix_order.trans [OF trim_end_spaces_prefix takeWhile_is_prefix])

lemma best_match_mentioned:
  assumes "i < length cleaned" "starts_mention cleaned i"
    and "best_match (map to_lower (candidate_at cleaned i)) registered = Some reg"
  shows "mentioned_at cleaned reg i"
proof -
  obtain zs where zs: "drop (Suc i) cleaned = candidate_at cleaned i @ zs"
    using candidate_prefix by (auto simp: prefix_def)
  from best_match_SomeD [OF assms(3)]
  have *: "take (length reg) (map to_lower (candidate_at cleaned i)) = map to_lower reg"
    by (simp add: matches_def starts_with_def)
  then have "length reg \<le> length (candidate_at cleaned i)"
    by (metis length_map length_take min.absorb_iff2)
  then show ?thesis using assms(1,2) * zs by (simp add: mentioned_at_def take_map)
qed

lemma mention_loop_sound:
  assumes "\<forall>r\<in>set out. r \<in> set registered \<and> (\<exists>i. mentioned_at cleaned r i)" "distinct out"
  shows "distinct (mention_loop cleaned registered i out)
    \<and> (\<forall>r\<in>set (mention_loop cleaned registered i out).
         r \<in> set registered \<and> (\<exists>i. mentioned_at cleaned r i))"
  using assms
proof (induction cleaned registered i out rule: mention_loop.induct)
  case (1 cleaned registered i out)
  consider (stop) "length cleaned \<le> i"
    | (other) "i < length cleaned" "\<not> starts_mention cleaned i"
    | (short) "i < length cleaned" "starts_mention cleaned i" "length (candidate_at cleaned i) < 2"
    | (name) "i < length cleaned" "starts_mention cleaned i" "2 \<le> length (candidate_at cleaned i)"
    by linarith
then show ?case
  proof cases
    case stop
    then show ?thesis using "1.prems" by (simp add: mention_loop.simps)
  next
    case other
    then have eq: "mention_loop cleaned registered i out = mention_loop cleaned registered (Suc i) out"
      by (subst mention_loop.simps) simp
    show ?thesis unfolding eq by (rule "1.IH"(1)) (use other "1.prems" in simp_all)
  next
    case short
    then have eq: "mention_loop cleaned registered i out
        = mention_loop cleaned registered (candidate_end cleaned i) out"
      by (subst mention_loop.simps) simp
    show ?thesis unfolding eq by (rule "1.IH"(2)) (use short "1.prems" in simp_all)
  next
    case name
    show ?thesis
    proof (cases "best_match (map to_lower (candidate_at cleaned i)) registered")
      case None
      with name have eq: "mention_loop cleaned registered i out
          = mention_loop cleaned registered (candidate_end cleaned i) out"
        by (subst mention_loop.simps) simp
      show ?thesis unfolding eq by (rule "1.IH"(3)) (use name None "1.prems" in simp_all)
    next
      case (Some reg)
      let ?out = "if reg \<in> set out then out else out @ [reg]"
      have "reg \<in> set registered \<and> (\<exists>i. mentioned_at cleaned reg i)"
        using best_match_SomeD [OF Some] best_match_mentioned [OF name(1,2) Some] by blast
      then have out: "\<forall>r\<in>set ?out. r \<in> set registered \<and> (\<exists>i. mentioned_at cleaned r i)" "distinct ?out"
        using "1.prems" by auto
      from name Some have eq: "mention_loop cleaned registered i out
          = mention_loop cleaned registered (Suc i + length reg) ?out"
        by (subst mention_loop.simps) simp
      show ?thesis unfolding eq by (rule "1.IH"(4)) (use name Some out in simp_all)
    qed
  qed
qed

text \<open>
  The parser reports each name once; every name it reports is registered and is written,
  up to ASCII case, after an at sign that no letter, digit or underscore precedes, in the
  text without its code.
\<close>

theorem mentions_sound:
  "distinct (parse_mentions txt registered) \<and>
   list_all (\<lambda>r. r \<in> set registered \<and> list_ex (mentioned_at (strip_code txt) r) [0..<length (strip_code txt)])
     (parse_mentions txt registered)"
  using mention_loop_sound [of "[]" registered "strip_code txt" 0]
  by (fastforce simp: parse_mentions_def list_all_iff list_ex_iff mentioned_at_def)

lemma strip_code_id: "backtick \<notin> set s \<Longrightarrow> strip_code s = s"
  by (induction s) auto

text \<open>
  Names inside backticks are inert: the parser's answer depends on the text without its
  code, which holds no backtick and is a subsequence of the text.
\<close>

theorem mentions_ignore_code:
  "backtick \<notin> set (strip_code txt) \<and> subseq (strip_code txt) txt
   \<and> parse_mentions txt registered = parse_mentions (strip_code txt) registered"
  by (simp add: strip_code_id strip_code_no_backtick strip_code_subseq parse_mentions_def)

text \<open>The match has no word boundary at the end: a longer handle addresses the shorter name.\<close>

lemma mention_prefix_match: "parse_mentions ''ping @Bobby'' [''Bob''] = [''Bob'']"
  by (simp add: parse_mentions_def mention_loop.simps starts_mention_def candidate_at_def
      candidate_end_def trim_end_spaces_def mention_byte_def is_alnum_def is_digit_def
      best_match_def better_match_def starts_with_def to_lower_def)

end
