(* ===== verification/Personas.thy ===== *)
theory Personas
  imports Helpers Graph
begin

text \<open>
  The Virtual Dev Team personas: the lookups of \<^verbatim>\<open>src/agents/mod.rs\<close>, the router of
  \<^verbatim>\<open>src/orchestrator/persona_router.rs\<close> that picks a persona for a node, pinning
  (\<^verbatim>\<open>resolve_persona_for_node\<close>, \<^verbatim>\<open>pin_personas_on_graph\<close> of \<^verbatim>\<open>src/orchestrator/mod.rs\<close>).
  Texts are sequences of bytes; case and character classes are those of ASCII.

  Main results: a pick is a registered candidate of the best score; ties rotate through all
  candidates; pinning changes nothing but the personas.
\<close>

section \<open>The registry\<close>

text \<open>The numeric traits of a persona are not modelled: nothing here reads them.\<close>

record agent_persona =
  display_name :: string
  persona_title :: string
  github_username :: string
  avatar_url :: "string option"
  bio :: string
  expertise :: "string list"
  communication_style :: string

record agent_definition =
  ad_name :: string
  ad_description :: string
  ad_role :: agent_role
  ad_task_profile :: task_profile
  capabilities :: "string list"
  ad_system_prompt :: string
  ad_instructions :: string
  persona :: "agent_persona option"

type_synonym registry = "(string, agent_definition) hashmap"

text \<open>\<^verbatim>\<open>build_personas_from_definitions\<close>: a later definition of a name replaces the earlier.\<close>

definition build_personas :: "agent_definition list \<Rightarrow> registry" where
  "build_personas defs = foldl (\<lambda>m d. hm_insert m (ad_name d) d) [] defs"

definition list_personas :: "registry \<Rightarrow> agent_definition list" where
  "list_personas reg = sort_key ad_name (hm_values reg)"

definition personas_for_role :: "registry \<Rightarrow> agent_role \<Rightarrow> string list" where
  "personas_for_role reg r = sort (map ad_name (filter (\<lambda>d. ad_role d = r) (hm_values reg)))"

definition persona_role :: "registry \<Rightarrow> string \<Rightarrow> agent_role option" where
  "persona_role reg i = map_option ad_role (hm_get reg i)"

definition persona_definition :: "registry \<Rightarrow> string \<Rightarrow> agent_definition option" where
  "persona_definition reg i = hm_get reg i"

text \<open>A registry is keyed by the names of its definitions.\<close>

definition registry_ok :: "registry \<Rightarrow> bool" where
  "registry_ok reg \<longleftrightarrow> hm_wf reg \<and> (\<forall>i d. hm_get reg i = Some d \<longrightarrow> ad_name d = i)"

lemma registry_ok_insert: "registry_ok reg \<Longrightarrow> registry_ok (hm_insert reg (ad_name d) d)"
  by (auto simp: registry_ok_def hm_simps wf_intros split: if_splits)

lemma registry_ok_build: "registry_ok (build_personas defs)"
proof -
  have "registry_ok reg \<Longrightarrow> registry_ok (foldl (\<lambda>m d. hm_insert m (ad_name d) d) reg defs)" for reg
    by (induction defs arbitrary: reg) (simp_all add: registry_ok_insert)
  moreover have "registry_ok []"
    by (simp add: registry_ok_def hm_get_Nil hm_wf_Nil)
  ultimately show ?thesis
    unfolding build_personas_def by blast
qed

lemma set_personas_for_role:
  "registry_ok reg \<Longrightarrow> i \<in> set (personas_for_role reg r) \<longleftrightarrow> persona_role reg i = Some r"
proof -
  assume ok: "registry_ok reg"
  then have wf: "hm_wf reg" by (simp add: registry_ok_def)
  have "i \<in> set (personas_for_role reg r) \<longleftrightarrow>
      (\<exists>d. d \<in> set (hm_values reg) \<and> ad_role d = r \<and> ad_name d = i)"
    by (auto simp: personas_for_role_def)
  also have "\<dots> \<longleftrightarrow> (\<exists>k d. hm_get reg k = Some d \<and> ad_role d = r \<and> ad_name d = i)"
    by (auto simp: hm_values_iff [OF wf])
  also have "\<dots> \<longleftrightarrow> persona_role reg i = Some r"
    using ok by (auto simp: persona_role_def registry_ok_def)
  finally show ?thesis .
qed

lemma map_ad_name_values: "registry_ok reg \<Longrightarrow> map ad_name (hm_values reg) = hm_keys reg"
  by (auto simp: hm_values_def hm_keys_def registry_ok_def hm_get_iff_mem)

lemma distinct_personas_for_role: "registry_ok reg \<Longrightarrow> distinct (personas_for_role reg r)"
  by (simp add: personas_for_role_def)
    (metis distinct_map_filter hm_wf_def map_ad_name_values registry_ok_def)

section \<open>Scores\<close>

text \<open>\<^verbatim>\<open>tokenize\<close>: the maximal runs of letters and digits, in lower case.\<close>

fun runs_of :: "(char \<Rightarrow> bool) \<Rightarrow> string \<Rightarrow> string \<Rightarrow> string list" where
  "runs_of p cur [] = (if cur = [] then [] else [cur])"
| "runs_of p cur (c # cs) =
     (if p c then runs_of p (cur @ [c]) cs
      else if cur = [] then runs_of p [] cs
      else cur # runs_of p [] cs)"

definition tokenize :: "string \<Rightarrow> string list" where
  "tokenize s = map (map to_lower) (runs_of is_alnum [] s)"

definition persona_tokens :: "agent_definition \<Rightarrow> string list" where
  "persona_tokens d = concat (map tokenize (capabilities d))
     @ (case persona d of Some p \<Rightarrow> concat (map tokenize (expertise p)) | None \<Rightarrow> [])"

definition score_persona :: "string list \<Rightarrow> agent_definition \<Rightarrow> nat" where
  "score_persona instr_tokens d =
     length (filter (\<lambda>t. t \<in> set (persona_tokens d)) instr_tokens)"

definition name_score :: "registry \<Rightarrow> string list \<Rightarrow> string \<Rightarrow> nat" where
  "name_score reg instr_tokens i =
     (case persona_definition reg i of Some d \<Rightarrow> score_persona instr_tokens d | None \<Rightarrow> 0)"

section \<open>Picking\<close>

text \<open>\<^verbatim>\<open>pick_for_role\<close>. The counters of the round robin are \<^verbatim>\<open>usize\<close> values that wrap around.\<close>

type_synonym router_state = "(agent_role, 64 word) hashmap"

definition pick_candidates :: "registry \<Rightarrow> agent_role \<Rightarrow> string list option \<Rightarrow> string list" where
  "pick_candidates reg r pool =
     (let role_candidates = personas_for_role reg r in
      case pool of
        Some p \<Rightarrow> filter (\<lambda>i. i \<in> set role_candidates) p
      | None \<Rightarrow> role_candidates)"

definition tied_candidates :: "registry \<Rightarrow> string list \<Rightarrow> string list \<Rightarrow> string list" where
  "tied_candidates reg instr_tokens candidates =
     (let scored = map (\<lambda>i. (name_score reg instr_tokens i, i)) candidates;
          max_score = foldr (max \<circ> fst) scored 0
      in if max_score = 0 then candidates
         else map snd (filter (\<lambda>(s, i). s = max_score) scored))"

definition round_robin :: "router_state \<Rightarrow> agent_role \<Rightarrow> string list \<Rightarrow> string option \<times> router_state" where
  "round_robin st r tied =
     (let idx = (case hm_get st r of Some c \<Rightarrow> c | None \<Rightarrow> 0)
      in (Some (tied ! (unat idx mod length tied)), hm_insert st r (idx + 1)))"

definition pick_for_role ::
    "registry \<Rightarrow> router_state \<Rightarrow> agent_role \<Rightarrow> string list option \<Rightarrow> string
      \<Rightarrow> string option \<times> router_state" where
  "pick_for_role reg st r pool instr =
     (let candidates = pick_candidates reg r pool in
      if candidates = [] then (None, st)
      else if length candidates = 1 then (Some (candidates ! 0), st)
      else
        let tied = tied_candidates reg (tokenize instr) candidates
        in if length tied = 1 then (Some (hd tied), st) else round_robin st r tied)"

definition resolve_persona_for_node ::
    "registry \<Rightarrow> router_state \<Rightarrow> agent_node \<Rightarrow> string option \<Rightarrow> string list option
      \<Rightarrow> string option \<times> router_state" where
  "resolve_persona_for_node reg st n assignee team_members =
     (case assignee of
        Some i \<Rightarrow> if persona_role reg i = Some (role n) then (Some i, st)
                  else pick_for_role reg st (role n) team_members (instructions n)
      | None \<Rightarrow> pick_for_role reg st (role n) team_members (instructions n))"

fun pin_loop ::
    "registry \<Rightarrow> string option \<Rightarrow> string list option \<Rightarrow> agent_node list
      \<Rightarrow> router_state \<Rightarrow> execution_graph \<Rightarrow> execution_graph \<times> router_state" where
  "pin_loop reg assignee team [] st g = (g, st)"
| "pin_loop reg assignee team (n # ns) st g =
     (case resolve_persona_for_node reg st n assignee team of
        (pinned, st') \<Rightarrow> pin_loop reg assignee team ns st' (pin_persona g (node_id n) pinned))"

definition pin_personas_on_graph ::
    "registry \<Rightarrow> router_state \<Rightarrow> execution_graph \<Rightarrow> string option \<Rightarrow> string list option
      \<Rightarrow> execution_graph \<times> router_state" where
  "pin_personas_on_graph reg st g assignee team_members =
     pin_loop reg assignee team_members (graph_nodes g) st g"

section \<open>What a pick is\<close>

lemma foldr_max_bound: "x \<in> set xs \<Longrightarrow> f x \<le> foldr (max \<circ> f) xs (0::nat)"
  by (induction xs) auto

lemma foldr_max_attained:
  "foldr (max \<circ> f) xs (0::nat) \<noteq> 0 \<Longrightarrow> \<exists>x\<in>set xs. f x = foldr (max \<circ> f) xs 0"
  by (induction xs) (auto simp: max_def)

lemma tied_best:
  assumes "i \<in> set (tied_candidates reg ts cs)"
  shows "i \<in> set cs \<and> (\<forall>j\<in>set cs. name_score reg ts j \<le> name_score reg ts i)"
proof -
  let ?scored = "map (\<lambda>i. (name_score reg ts i, i)) cs"
  let ?m = "foldr (max \<circ> fst) ?scored 0"
  have le: "name_score reg ts j \<le> ?m" if "j \<in> set cs" for j
    using foldr_max_bound [of "(name_score reg ts j, j)" ?scored fst] that by auto
  show ?thesis
  proof (cases "?m = 0")
    case True
    then have "i \<in> set cs" using assms by (simp add: tied_candidates_def Let_def)
    then show ?thesis using le True by (metis le_zero_eq)
  next
    case False
    then have "i \<in> set cs" "name_score reg ts i = ?m"
      using assms by (auto simp: tied_candidates_def Let_def)
    then show ?thesis using le by simp
  qed
qed

lemma tied_nonempty:
  assumes "cs \<noteq> []"
  shows "tied_candidates reg ts cs \<noteq> []"
proof (cases "foldr (max \<circ> fst) (map (\<lambda>i. (name_score reg ts i, i)) cs) 0 = 0")
  case True
  then show ?thesis using assms by (simp add: tied_candidates_def Let_def)
next
  case False
  from foldr_max_attained [OF this] False show ?thesis
    by (auto simp: tied_candidates_def Let_def filter_empty_conv)
qed

lemma set_pick_candidates:
  "registry_ok reg \<Longrightarrow> i \<in> set (pick_candidates reg r pool) \<longleftrightarrow>
     persona_role reg i = Some r \<and> (\<forall>p. pool = Some p \<longrightarrow> i \<in> set p)"
  by (cases pool) (auto simp: pick_candidates_def set_personas_for_role)

text \<open>Every pick, whatever its branch.\<close>

lemma pick_for_role_cases:
  obtains (none) "pick_candidates reg r pool = []" "pick_for_role reg st r pool instr = (None, st)"
  | (some) i st' where "pick_for_role reg st r pool instr = (Some i, st')"
      "i \<in> set (pick_candidates reg r pool)"
      "\<forall>j\<in>set (pick_candidates reg r pool).
         name_score reg (tokenize instr) j \<le> name_score reg (tokenize instr) i"
proof (cases "pick_candidates reg r pool = []")
  case True
  then show thesis using none by (simp add: pick_for_role_def)
next
  case ne: False
  let ?cs = "pick_candidates reg r pool"
  show thesis
  proof (cases "length ?cs = 1")
    case True
    then obtain c where "?cs = [c]" by (auto simp: length_Suc_conv)
    then show thesis using some [of c st] by (simp add: pick_for_role_def)
  next
    case False
    let ?tied = "tied_candidates reg (tokenize instr) ?cs"
    have t: "?tied \<noteq> []" using ne by (rule tied_nonempty)
    obtain i st' where i: "pick_for_role reg st r pool instr = (Some i, st')" "i \<in> set ?tied"
    proof (cases "length ?tied = 1")
      case True
      then show thesis using that [of "hd ?tied" st] ne False t
        by (simp add: pick_for_role_def Let_def)
    next
      case l: False
      then show thesis using ne False t
        by (auto simp: pick_for_role_def Let_def round_robin_def intro!: that nth_mem)
    qed
    from some [OF i(1)] tied_best [OF i(2)] show thesis by blast
  qed
qed

text \<open>
  A pick is a registered persona of the role, a member of the pool when there is one, and
  no candidate shares more words with the instructions; there is no pick exactly when the
  pool holds no candidate.
\<close>

theorem persona_pick_sound:
  "case fst (pick_for_role (build_personas defs) st r pool instr) of
     None \<Rightarrow> pick_candidates (build_personas defs) r pool = []
   | Some i \<Rightarrow> persona_role (build_personas defs) i = Some r
       \<and> (case pool of None \<Rightarrow> True | Some p \<Rightarrow> i \<in> set p)
       \<and> list_all (\<lambda>j. name_score (build_personas defs) (tokenize instr) j
             \<le> name_score (build_personas defs) (tokenize instr) i)
           (pick_candidates (build_personas defs) r pool)"
proof (cases rule: pick_for_role_cases [of "build_personas defs" r pool st instr])
  case none
  then show ?thesis by simp
next
  case (some i st')
  from some(2) have "persona_role (build_personas defs) i = Some r
      \<and> (\<forall>p. pool = Some p \<longrightarrow> i \<in> set p)"
    by (simp add: set_pick_candidates [OF registry_ok_build])
  with some(1,3) show ?thesis by (auto simp: list_all_iff split: option.split)
qed

section \<open>The round robin is fair\<close>

text \<open>The picks of \<open>k\<close> calls in a row with the same arguments.\<close>

fun pick_many ::
    "nat \<Rightarrow> registry \<Rightarrow> router_state \<Rightarrow> agent_role \<Rightarrow> string list option \<Rightarrow> string
      \<Rightarrow> string option list" where
  "pick_many 0 reg st r pool instr = []"
| "pick_many (Suc k) reg st r pool instr =
     (case pick_for_role reg st r pool instr of
        (i, st') \<Rightarrow> i # pick_many k reg st' r pool instr)"

definition rr_counter :: "router_state \<Rightarrow> agent_role \<Rightarrow> 64 word" where
  "rr_counter st r = (case hm_get st r of Some c \<Rightarrow> c | None \<Rightarrow> 0)"

lemma length_tied_le: "length (tied_candidates reg ts cs) \<le> length cs"
  by (simp add: tied_candidates_def Let_def)

lemma pick_for_role_tied:
  assumes "1 < length (tied_candidates reg (tokenize instr) (pick_candidates reg r pool))"
  shows "pick_for_role reg st r pool instr =
    round_robin st r (tied_candidates reg (tokenize instr) (pick_candidates reg r pool))"
proof -
  have "1 < length (pick_candidates reg r pool)"
    using assms length_tied_le [of reg "tokenize instr" "pick_candidates reg r pool"] by simp
  then show ?thesis using assms by (auto simp: pick_for_role_def Let_def)
qed

lemma pick_many_tied:
  assumes "tied = tied_candidates reg (tokenize instr) (pick_candidates reg r pool)"
    and "1 < length tied" "unat (rr_counter st r) + k \<le> 2 ^ 64"
  shows "pick_many k reg st r pool instr
    = map (\<lambda>j. Some (tied ! ((unat (rr_counter st r) + j) mod length tied))) [0..<k]"
  using assms(3)
proof (induction k arbitrary: st)
  case 0
  then show ?case by simp
next
  case (Suc k)
  let ?c = "rr_counter st r" and ?st = "snd (round_robin st r tied)"
  have step: "pick_for_role reg st r pool instr = (Some (tied ! (unat ?c mod length tied)), ?st)"
    using pick_for_role_tied [of reg instr r pool st] assms(1,2)
    by (simp add: round_robin_def rr_counter_def Let_def)
  have next_counter: "rr_counter ?st r = ?c + 1"
    by (simp add: round_robin_def rr_counter_def Let_def hm_get_insert)
  have shift: "map (\<lambda>j. Some (tied ! ((unat ?c + j) mod length tied))) [0..<Suc k]
      = Some (tied ! (unat ?c mod length tied))
        # map (\<lambda>j. Some (tied ! (Suc (unat ?c + j) mod length tied))) [0..<k]"
    by (simp add: upt_conv_Cons map_Suc_upt [symmetric] comp_def del: upt_Suc)
  show ?case
  proof (cases k)
    case 0
    then show ?thesis using step by simp
  next
    case k: (Suc k')
    have "unat ?c + 1 < 2 ^ 64" using Suc.prems k by simp
    then have u: "unat (?c + 1) = unat ?c + 1"
      by (subst unat_add_lem [THEN iffD1]) simp_all
    then have "unat (rr_counter ?st r) + k \<le> 2 ^ 64"
      using Suc.prems next_counter by simp
    from Suc.IH [OF this] show ?thesis
      unfolding shift using step next_counter u by simp
  qed
qed

text \<open>
  While the counter does not wrap around, as many picks in a row as there are tied
  candidates visit each of them once, in a rotation of their order.
\<close>

theorem round_robin_fair:
  assumes "tied = tied_candidates reg (tokenize instr) (pick_candidates reg r pool)"
    and "1 < length tied" "unat (rr_counter st r) + length tied \<le> 2 ^ 64"
  shows "pick_many (length tied) reg st r pool instr
    = map Some (rotate (unat (rr_counter st r)) tied)"
  unfolding pick_many_tied [OF assms]
  by (rule nth_equalityI) (simp_all add: nth_rotate)

definition sample_persona :: "string \<Rightarrow> string list \<Rightarrow> agent_definition" where
  "sample_persona i caps = \<lparr>ad_name = i, ad_description = '''', ad_role = Coder,
     ad_task_profile = Coding, capabilities = caps, ad_system_prompt = '''',
     ad_instructions = '''', persona = None\<rparr>"

definition sample_team :: registry where
  "sample_team = build_personas [sample_persona ''Minho'' [''rust''], sample_persona ''Yuna'' [''react'']]"

lemma sample_team_candidates: "pick_candidates sample_team Coder None = [''Minho'', ''Yuna'']"
  by code_simp

lemma sample_team_tied:
  "[''Minho'', ''Yuna''] = tied_candidates sample_team (tokenize ''write docs'')
     (pick_candidates sample_team Coder None)"
  unfolding sample_team_candidates by code_simp

theorem round_robin_fair_witness:
  "pick_many 2 sample_team [(Coder, 1)] Coder None ''write docs'' = [Some ''Yuna'', Some ''Minho'']"
proof -
  have "unat (rr_counter [(Coder, 1)] Coder) = 1" by (simp add: rr_counter_def hm_get_def)
  then show ?thesis
    using round_robin_fair [OF sample_team_tied, of "[(Coder, 1)]"]
    by (simp del: pick_many.simps) (simp add: numeral_2_eq_2 del: pick_many.simps)
qed

section \<open>Pinning\<close>

lemma resolve_persona_role:
  fixes reg :: registry and n :: agent_node
  assumes "registry_ok reg"
  shows "case fst (resolve_persona_for_node reg st n assignee team) of
    None \<Rightarrow> True | Some i \<Rightarrow> persona_role reg i = Some (role n)"
  by (cases rule: pick_for_role_cases [of reg "role n" team st "instructions n"])
    (auto simp: resolve_persona_for_node_def set_pick_candidates [OF assms]
      split: option.splits)

text \<open>What pinning may change: the personas of the nodes.\<close>

definition pinned_from :: "registry \<Rightarrow> execution_graph \<Rightarrow> execution_graph \<Rightarrow> string \<Rightarrow> bool" where
  "pinned_from reg g g' i =
     (case (node g i, node g' i) of
        (Some n, Some n') \<Rightarrow> n' = n\<lparr>assigned_persona := assigned_persona n'\<rparr>
          \<and> (case assigned_persona n' of None \<Rightarrow> True | Some p \<Rightarrow> persona_role reg p = Some (role n))
      | (None, None) \<Rightarrow> True
      | _ \<Rightarrow> False)"

lemma pin_persona_frame [simp]:
  "statuses (pin_persona g i p) = statuses g" "forced_ready (pin_persona g i p) = forced_ready g"
  "fallback_only (pin_persona g i p) = fallback_only g" "max_depth (pin_persona g i p) = max_depth g"
  by (simp_all add: pin_persona_def)

lemma node_pin_persona:
  "node (pin_persona g i p) j =
     (if j = i then map_option (\<lambda>n. n\<lparr>assigned_persona := p\<rparr>) (node g i) else node g j)"
  by (simp add: pin_persona_def node_def hm_get_modify)

lemma pin_loop_frame:
  "pin_loop reg a team ns st g = (g', st') \<Longrightarrow>
     statuses g' = statuses g \<and> forced_ready g' = forced_ready g \<and> max_depth g' = max_depth g
     \<and> fallback_only g' = fallback_only g \<and> deps_of g' = deps_of g"
  by (induction reg a team ns st g rule: pin_loop.induct)
    (auto split: prod.splits)

lemma pin_loop_other:
  "pin_loop reg a team ns st g = (g', st') \<Longrightarrow> i \<notin> node_id ` set ns \<Longrightarrow> node g' i = node g i"
  by (induction reg a team ns st g rule: pin_loop.induct)
    (auto split: prod.splits simp: node_pin_persona)

lemma pin_loop_pins:
  assumes "registry_ok reg" "pin_loop reg a team ns st g = (g', st')" "distinct (map node_id ns)"
    and "n \<in> set ns" "node g (node_id n) = Some n"
  shows "\<exists>p. node g' (node_id n) = Some (n\<lparr>assigned_persona := p\<rparr>)
    \<and> (case p of None \<Rightarrow> True | Some p \<Rightarrow> persona_role reg p = Some (role n))"
  using assms
proof (induction reg a team ns st g rule: pin_loop.induct)
  case (2 reg a team m ns st g)
  obtain p st1 where p: "resolve_persona_for_node reg st m a team = (p, st1)"
    by (cases "resolve_persona_for_node reg st m a team")
  let ?g = "pin_persona g (node_id m) p"
  from 2 p have rest: "pin_loop reg a team ns st1 ?g = (g', st')" by simp
  show ?case
  proof (cases "n = m")
    case True
    with 2(4) have "node_id n \<notin> node_id ` set ns" by simp
    from pin_loop_other [OF rest this] True 2(6)
    have "node g' (node_id n) = Some (n\<lparr>assigned_persona := p\<rparr>)"
      by (simp add: node_pin_persona)
    moreover have "case p of None \<Rightarrow> True | Some i \<Rightarrow> persona_role reg i = Some (role m)"
      using resolve_persona_role [OF 2(2), where n = m and st = st and assignee = a and team = team]
        p by simp
    ultimately show ?thesis using True by blast
  next
    case False
    then have n: "n \<in> set ns" using 2(5) by simp
    then have "node_id n \<noteq> node_id m" using 2(4) by (auto simp: image_iff)
    then have "node ?g (node_id n) = Some n"
      using 2(6) by (simp add: node_pin_persona)
    from 2(1) [OF p [symmetric] 2(2) rest _ n this] 2(4) show ?thesis by simp
  qed
qed simp

text \<open>
  Pinning keeps the graph's shape, its statuses and every field of its nodes but the
  persona, and a persona it pins is registered with the node's role.
\<close>

theorem pinning_preserves:
  assumes "graph_wf g"
  shows "let g' = fst (pin_personas_on_graph (build_personas defs) st g assignee team) in
    pinned_from (build_personas defs) g g' i \<and> statuses g' = statuses g
    \<and> deps_of g' = deps_of g \<and> forced_ready g' = forced_ready g
    \<and> fallback_only g' = fallback_only g"
proof -
  let ?reg = "build_personas defs"
  obtain g' st' where g': "pin_loop ?reg assignee team (graph_nodes g) st g = (g', st')"
    by (cases "pin_loop ?reg assignee team (graph_nodes g) st g")
  have wf: "hm_wf (nodes g)" and ids: "\<And>j n. hm_get (nodes g) j = Some n \<Longrightarrow> node_id n = j"
    using assms by (simp_all add: graph_wf_def)
  have keys: "map node_id (graph_nodes g) = hm_keys (nodes g)"
    using ids by (auto simp: graph_nodes_def hm_values_def hm_keys_def hm_get_iff_mem [OF wf])
  have "pinned_from ?reg g g' i"
  proof (cases "node g i")
    case None
    then have "i \<notin> node_id ` set (graph_nodes g)"
      using arg_cong [OF keys, of set] by (simp add: node_def set_hm_keys)
    from pin_loop_other [OF g' this] None show ?thesis by (simp add: pinned_from_def)
  next
    case (Some n)
    then have n: "node_id n = i" "n \<in> set (graph_nodes g)"
      using ids hm_values_iff [OF wf] by (auto simp: node_def graph_nodes_def)
    from pin_loop_pins [OF registry_ok_build g' _ n(2)] Some n(1) wf keys
    show ?thesis by (auto simp: pinned_from_def hm_wf_def)
  qed
  with pin_loop_frame [OF g'] g' show ?thesis by (simp add: pin_personas_on_graph_def Let_def)
qed

definition pin_graph :: execution_graph where
  "pin_graph = snd (add_nodes (new_graph 3) [new_node ''a'' Coder ''build react ui''])"

lemma pin_graph_wf: "graph_wf pin_graph"
  unfolding pin_graph_def by (intro graph_wf_add_nodes graph_wf_new)

theorem pinning_preserves_witness:
  "statuses (fst (pin_personas_on_graph sample_team [] pin_graph None None)) = [(''a'', Pending)]"
proof -
  have "statuses (fst (pin_personas_on_graph sample_team [] pin_graph None None)) = statuses pin_graph"
    using pinning_preserves [OF pin_graph_wf, where st = "[]" and assignee = None and team = None]
    unfolding sample_team_def Let_def by blast
  also have "\<dots> = [(''a'', Pending)]" by code_simp
  finally show ?thesis .
qed

end
