(* ===== verification/Lifecycle.thy ===== *)
theory Lifecycle
  imports Completion Personas
begin

text \<open>
  The life of a run: the record of \<^verbatim>\<open>src/types.rs\<close>, the operations of the API on it
  (\<^verbatim>\<open>cancel_run\<close>, \<^verbatim>\<open>pause_run\<close>, \<^verbatim>\<open>resume_run\<close>, \<^verbatim>\<open>delete_session\<close>), those of its executor
  (\<^verbatim>\<open>set_running\<close>, \<^verbatim>\<open>finish_run\<close>, \<^verbatim>\<open>mark_run_failed\<close> of \<^verbatim>\<open>src/orchestrator/mod.rs\<close>) and the
  executor itself, \<^verbatim>\<open>execute_run\<close> of \<^verbatim>\<open>src/orchestrator/run_manager.rs\<close>.

  Every call that can fail (the store, the session events, the webhook) takes its result from
  the environment; an error leaves the function at that point, with the state as it is then,
  as \<^verbatim>\<open>?\<close> does. An instant is its RFC 3339 text, read once per operation. Costs in dollars are
  floating-point numbers and are left out; their presence is kept.
\<close>

section \<open>Run records\<close>

record agent_execution_record =
  er_node_id :: string
  er_role :: agent_role
  er_model :: string
  er_output :: string
  er_duration_ms :: nat
  er_succeeded :: bool
  er_error :: "string option"
  er_token_usage :: "token_usage option"

record run_record =
  run_id :: string
  session_id :: string
  run_task :: string
  run_profile :: task_profile
  run_status :: run_status
  created_at :: string
  started_at :: "string option"
  finished_at :: "string option"
  run_outputs :: "agent_execution_record list"
  run_error :: "string option"
  timeline :: "string list"
  total_token_usage :: "token_usage option"
  cost_is_estimate :: bool

definition new_queued :: "string \<Rightarrow> string \<Rightarrow> string \<Rightarrow> string \<Rightarrow> task_profile \<Rightarrow> run_record" where
  "new_queued now rid sid task profile = \<lparr>run_id = rid, session_id = sid, run_task = task,
     run_profile = profile, run_status = RS_Queued, created_at = now, started_at = None,
     finished_at = None, run_outputs = [], run_error = None, timeline = [],
     total_token_usage = None, cost_is_estimate = False\<rparr>"

definition ends_with :: "string \<Rightarrow> string \<Rightarrow> bool" where
  "ends_with s pat \<longleftrightarrow> length pat \<le> length s \<and> drop (length s - length pat) s = pat"

text \<open>
  \<^verbatim>\<open>clean_llm_output\<close>. \<open>json_field txt key\<close> is the string under \<open>key\<close> of the JSON object \<open>txt\<close>,
  if \<^verbatim>\<open>serde_json\<close> parses it and it has one.
\<close>

definition strip_markdown_fence :: "string \<Rightarrow> string" where
  "strip_markdown_fence t =
     (if starts_with t fence then
        let t1 = (case str_find t nl of Some i \<Rightarrow> drop (Suc i) t | None \<Rightarrow> t);
            t2 = (if ends_with t1 fence then take (length t1 - 3) t1 else t1)
        in trim t2
      else t)"

definition clean_llm_output :: "(string \<Rightarrow> string \<Rightarrow> string option) \<Rightarrow> string \<Rightarrow> string" where
  "clean_llm_output json_field raw =
     (let t = strip_markdown_fence (trim raw) in
      if starts_with t ''{'' \<and> ends_with t ''}''
      then (case List.map_filter (json_field t)
              [''content'', ''answer'', ''response'', ''summary'', ''text'', ''message''] of
              v # vs \<Rightarrow> trim v
            | [] \<Rightarrow> t)
      else t)"

definition execution_record_of ::
    "(string \<Rightarrow> string \<Rightarrow> string option) \<Rightarrow> node_execution_result \<Rightarrow> agent_execution_record" where
  "execution_record_of json_field n = \<lparr>er_node_id = res_node_id n, er_role = res_role n,
     er_model = res_model n,
     er_output = (if res_role n = Summarizer then clean_llm_output json_field (res_output n)
        else res_output n),
     er_duration_ms = res_duration_ms n, er_succeeded = res_succeeded n,
     er_error = res_error n, er_token_usage = res_token_usage n\<rparr>"

section \<open>The orchestrator's tables\<close>

record run_control =
  cancel_requested :: bool
  pause_requested :: bool

definition new_control :: run_control where
  "new_control = \<lparr>cancel_requested = False, pause_requested = False\<rparr>"

text \<open>
  \<open>o_store\<close> holds the run records as the database has them; \<open>o_actions\<close>, \<open>o_events\<close> and
  \<open>o_webhooks\<close> are the logs of what was recorded and dispatched, oldest first.
\<close>

record orch =
  o_runs :: "(string, run_record) hashmap"
  o_controls :: "(string, run_control) hashmap"
  o_roots :: "(string, string) hashmap"
  o_graphs :: "(string, execution_graph) hashmap"
  o_router :: router_state
  o_store :: "(string, run_record) hashmap"
  o_actions :: "(string \<times> run_action_type) list"
  o_events :: "(string \<times> session_event_type) list"
  o_webhooks :: "(string \<times> string) list"

text \<open>What the environment answers to the calls of one operation.\<close>

record faults =
  f_now :: string
  f_upsert :: "string option"
  f_event :: "string option"
  f_webhook :: "string option"

text \<open>\<^verbatim>\<open>?\<close>: the continuation of a call that returned.\<close>

definition and_then ::
    "(string + 'a) \<times> 's \<Rightarrow> ('a \<Rightarrow> 's \<Rightarrow> (string + 'b) \<times> 's) \<Rightarrow> (string + 'b) \<times> 's" where
  "and_then r k = (case r of (Inl e, s) \<Rightarrow> (Inl e, s) | (Inr a, s) \<Rightarrow> k a s)"

lemma and_then_simps [simp]:
  "and_then (Inl e, s) k = (Inl e, s)" "and_then (Inr a, s) k = k a s"
  by (simp_all add: and_then_def)

definition put_run :: "string \<Rightarrow> run_record \<Rightarrow> orch \<Rightarrow> orch" where
  "put_run rid r s = s\<lparr>o_runs := hm_insert (o_runs s) rid r\<rparr>"

definition upsert_run :: "string option \<Rightarrow> run_record \<Rightarrow> orch \<Rightarrow> (string + unit) \<times> orch" where
  "upsert_run failure r s = (case failure of
     Some e \<Rightarrow> (Inl e, s)
   | None \<Rightarrow> (Inr (), s\<lparr>o_store := hm_insert (o_store s) (run_id r) r\<rparr>))"

text \<open>\<^verbatim>\<open>record_action_event\<close> reports an error to the log only.\<close>

definition record_action_event :: "string \<Rightarrow> run_action_type \<Rightarrow> orch \<Rightarrow> orch" where
  "record_action_event rid action s = s\<lparr>o_actions := o_actions s @ [(rid, action)]\<rparr>"

definition append_event ::
    "string option \<Rightarrow> string \<Rightarrow> session_event_type \<Rightarrow> orch \<Rightarrow> (string + unit) \<times> orch" where
  "append_event failure rid ty s = (case failure of
     Some e \<Rightarrow> (Inl e, s)
   | None \<Rightarrow> (Inr (), s\<lparr>o_events := o_events s @ [(rid, ty)]\<rparr>))"

definition send_webhook :: "string option \<Rightarrow> string \<Rightarrow> string \<Rightarrow> orch \<Rightarrow> (string + unit) \<times> orch" where
  "send_webhook failure rid event s = (case failure of
     Some e \<Rightarrow> (Inl e, s)
   | None \<Rightarrow> (Inr (), s\<lparr>o_webhooks := o_webhooks s @ [(rid, event)]\<rparr>))"

text \<open>The flag an executor reads; a run without a control has a flag of its own that is off.\<close>

definition cancel_flag :: "orch \<Rightarrow> string \<Rightarrow> bool" where
  "cancel_flag s rid = (case hm_get (o_controls s) rid of Some c \<Rightarrow> cancel_requested c | None \<Rightarrow> False)"

definition pause_flag :: "orch \<Rightarrow> string \<Rightarrow> bool" where
  "pause_flag s rid = (case hm_get (o_controls s) rid of Some c \<Rightarrow> pause_requested c | None \<Rightarrow> False)"

definition run_status_of :: "orch \<Rightarrow> string \<Rightarrow> run_status option" where
  "run_status_of s rid = map_option run_status (hm_get (o_runs s) rid)"

section \<open>Operations of the API\<close>

definition cancel_run :: "faults \<Rightarrow> string \<Rightarrow> orch \<Rightarrow> (string + bool) \<times> orch" where
  "cancel_run f rid s =
     (case hm_get (o_controls s) rid of
        None \<Rightarrow> (Inr False, s)
      | Some c \<Rightarrow>
          let s1 = s\<lparr>o_controls := hm_insert (o_controls s) rid (c\<lparr>cancel_requested := True\<rparr>)\<rparr> in
          (case hm_get (o_runs s1) rid of
             None \<Rightarrow> (Inr False, s1)
           | Some run \<Rightarrow>
               if run_is_terminal (run_status run) then (Inr False, s1)
               else
                 let run' = run\<lparr>run_status := RS_Cancelling,
                       timeline := timeline run @ [f_now f @ '' cancel requested'']\<rparr>
                 in and_then (upsert_run (f_upsert f) run' (put_run rid run' s1)) (\<lambda>u s2.
                      (Inr True, record_action_event rid RA_RunCancelRequested s2))))"

definition pause_run :: "faults \<Rightarrow> string \<Rightarrow> orch \<Rightarrow> (string + bool) \<times> orch" where
  "pause_run f rid s =
     (case hm_get (o_controls s) rid of
        None \<Rightarrow> (Inr False, s)
      | Some c \<Rightarrow>
          let s1 = s\<lparr>o_controls := hm_insert (o_controls s) rid (c\<lparr>pause_requested := True\<rparr>)\<rparr> in
          (case hm_get (o_runs s1) rid of
             None \<Rightarrow> (Inr False, s1)
           | Some run \<Rightarrow>
               if run_is_terminal (run_status run) \<or> run_status run = RS_Paused then (Inr False, s1)
               else
                 let run' = run\<lparr>run_status := RS_Paused,
                       timeline := timeline run @ [f_now f @ '' pause requested'']\<rparr>
                 in and_then (upsert_run (f_upsert f) run' (put_run rid run' s1)) (\<lambda>u s2.
                      (Inr True, record_action_event rid RA_RunPauseRequested s2))))"

definition resume_run :: "faults \<Rightarrow> string \<Rightarrow> orch \<Rightarrow> (string + bool) \<times> orch" where
  "resume_run f rid s =
     (case hm_get (o_controls s) rid of
        None \<Rightarrow> (Inr False, s)
      | Some c \<Rightarrow>
          let s1 = s\<lparr>o_controls := hm_insert (o_controls s) rid (c\<lparr>pause_requested := False\<rparr>)\<rparr> in
          (case hm_get (o_runs s1) rid of
             None \<Rightarrow> (Inr False, s1)
           | Some run \<Rightarrow>
               if run_is_terminal (run_status run) then (Inr False, s1)
               else
                 let run' = run\<lparr>run_status := (if cancel_requested c then RS_Cancelling else RS_Running),
                       timeline := timeline run @ [f_now f @ '' resumed'']\<rparr>
                 in and_then (upsert_run (f_upsert f) run' (put_run rid run' s1)) (\<lambda>u s2.
                      (Inr True, record_action_event rid RA_RunResumed s2))))"

text \<open>
  \<^verbatim>\<open>delete_session\<close>; \<open>failure\<close> is the error of removing the directory or the stored rows. The
  rows are gone from the database; the controls of the session's runs stay.
\<close>

definition delete_session :: "string option \<Rightarrow> string \<Rightarrow> orch \<Rightarrow> (string + unit) \<times> orch" where
  "delete_session failure sid s =
     (case failure of
        Some e \<Rightarrow> (Inl e, s)
      | None \<Rightarrow>
          let run_ids = map fst (filter (\<lambda>(k, r). session_id r = sid) (o_runs s));
              store = filter (\<lambda>(k, r). session_id r \<noteq> sid) (o_store s)
          in (Inr (), s\<lparr>o_store := store, o_runs := foldl hm_remove (o_runs s) run_ids\<rparr>))"

section \<open>Operations of the executor\<close>

definition set_running :: "faults \<Rightarrow> string \<Rightarrow> orch \<Rightarrow> (string + unit) \<times> orch" where
  "set_running f rid s =
     (case hm_get (o_runs s) rid of
        Some entry \<Rightarrow>
          let entry' = entry\<lparr>run_status := (if cancel_flag s rid then RS_Cancelling
                  else if pause_flag s rid then RS_Paused else RS_Running),
                started_at := Some (f_now f),
                timeline := timeline entry @ [f_now f @ '' run started'']\<rparr>
          in and_then (upsert_run (f_upsert f) entry' (put_run rid entry' s)) (\<lambda>u s2.
               (Inr (), record_action_event rid RA_RunStarted s2))
      | None \<Rightarrow> (Inl (''run '' @ rid @ '' not found''), s))"

definition final_event :: "run_status \<Rightarrow> session_event_type" where
  "final_event st = (case st of RS_Succeeded \<Rightarrow> RunCompleted | RS_Cancelled \<Rightarrow> RunCancelled
     | _ \<Rightarrow> RunFailed)"

definition final_webhook :: "run_status \<Rightarrow> string" where
  "final_webhook st = (case st of RS_Succeeded \<Rightarrow> ''run.completed'' | RS_Cancelled \<Rightarrow> ''run.cancelled''
     | _ \<Rightarrow> ''run.failed'')"

definition finished_record ::
    "(string \<Rightarrow> string \<Rightarrow> string option) \<Rightarrow> string \<Rightarrow> run_status \<Rightarrow> node_execution_result list
      \<Rightarrow> string option \<Rightarrow> run_record \<Rightarrow> run_record" where
  "finished_record json_field now st outputs err entry = entry\<lparr>
     run_status := st,
     run_outputs := map (execution_record_of json_field) outputs,
     total_token_usage := total_usage_of (map res_token_usage outputs),
     cost_is_estimate := list_ex (\<lambda>n. res_token_usage n \<noteq> None) outputs,
     run_error := err,
     finished_at := Some now,
     timeline := timeline entry @ [now @ '' run finished ('' @ run_status_display st @ '')'']\<rparr>"

definition finish_run ::
    "(string \<Rightarrow> string \<Rightarrow> string option) \<Rightarrow> faults \<Rightarrow> string \<Rightarrow> run_status
      \<Rightarrow> node_execution_result list \<Rightarrow> string option \<Rightarrow> orch \<Rightarrow> (string + unit) \<times> orch" where
  "finish_run json_field f rid st outputs err s =
     (case hm_get (o_runs s) rid of
        None \<Rightarrow> (Inl (''run '' @ rid @ '' not found''), s)
      | Some entry \<Rightarrow>
          let entry' = finished_record json_field (f_now f) st outputs err entry;
              s1 = (put_run rid entry' s)\<lparr>o_roots := hm_remove (o_roots s) rid\<rparr>
          in and_then (upsert_run (f_upsert f) entry' s1) (\<lambda>u s2.
             and_then (append_event (f_event f) rid (final_event st)
                 (record_action_event rid RA_RunFinished s2)) (\<lambda>u s3.
             and_then (send_webhook (f_webhook f) rid (final_webhook st) s3) (\<lambda>u s4.
               let s5 = record_action_event rid RA_WebhookDispatched s4
               in (Inr (), s5\<lparr>o_controls := hm_remove (o_controls s5) rid\<rparr>)))))"

definition mark_run_failed ::
    "(string \<Rightarrow> string \<Rightarrow> string option) \<Rightarrow> faults \<Rightarrow> string \<Rightarrow> string \<Rightarrow> orch
      \<Rightarrow> (string + unit) \<times> orch" where
  "mark_run_failed json_field f rid msg s = finish_run json_field f rid RS_Failed [] (Some msg) s"

section \<open>The executor\<close>

text \<open>
  Where the task of a run stands: not started; its run marked as running; about to execute a
  graph, with the results so far and the two counters; returned; over, after the handler of
  a crash.
\<close>

datatype exec_phase =
    Spawned
  | Marked
  | Staging execution_graph "node_execution_result list" u8 u8
  | Returned "string + unit"
  | Over

definition max_completion_continuations :: u8 where
  "max_completion_continuations = 2"

definition max_failure_retries :: u8 where
  "max_failure_retries = 2"

text \<open>
  What an executor is given: the settings, the registry, the parts of the request it reads,
  and the classification of the task.
\<close>

record exec_env =
  x_builder :: builder_env
  x_registry :: registry
  x_json_field :: "string \<Rightarrow> string \<Rightarrow> string option"
  x_parallelism :: nat
  x_task :: string
  x_assignee :: "string option"
  x_team :: "string list option"
  x_task_type :: task_type
  x_plan_text :: string
  x_snapshot :: string
  x_webhook_task :: bool
  x_local_task :: bool

definition pin_graph_of :: "exec_env \<Rightarrow> orch \<Rightarrow> execution_graph \<Rightarrow> execution_graph \<times> orch" where
  "pin_graph_of env s g =
     (case pin_personas_on_graph (x_registry env) (o_router s) g (x_assignee env) (x_team env) of
        (g', r) \<Rightarrow> (g', s\<lparr>o_router := r\<rparr>))"

definition returned :: "(string + unit) \<times> orch \<Rightarrow> exec_phase \<times> orch" where
  "returned r = (Returned (fst r), snd r)"

definition mark_phase :: "faults \<Rightarrow> string \<Rightarrow> orch \<Rightarrow> exec_phase \<times> orch" where
  "mark_phase f rid s =
     (case set_running f rid s of
        (Inl e, s') \<Rightarrow> (Returned (Inl e), s')
      | (Inr u, s') \<Rightarrow> (Marked, s'))"

text \<open>
  From the check of the cancel flag to the loop. \<open>root\<close> is the id of the new harness session,
  \<open>workspace\<close> the error of finding or making the working directory.
\<close>

definition prepare_phase ::
    "exec_env \<Rightarrow> faults \<Rightarrow> string \<Rightarrow> string option \<Rightarrow> string \<Rightarrow> orch \<Rightarrow> exec_phase \<times> orch" where
  "prepare_phase env f root workspace rid s =
     (if cancel_flag s rid
      then returned (finish_run (x_json_field env) f rid RS_Cancelled [] None s)
      else
        let s1 = s\<lparr>o_roots := hm_insert (o_roots s) rid root\<rparr> in
        (case and_then (append_event (f_event f) rid UserMessage s1)
                (\<lambda>u. send_webhook (f_webhook f) rid ''run.started'') of
           (Inl e, s2) \<Rightarrow> (Returned (Inl e), s2)
         | (Inr u, s2) \<Rightarrow>
             let (built, s3) = (case hm_get (o_graphs s2) rid of
                 Some g \<Rightarrow> (Inr g, s2\<lparr>o_graphs := hm_remove (o_graphs s2) rid\<rparr>)
               | None \<Rightarrow> ((case workspace of
                     Some e \<Rightarrow> Inl e
                   | None \<Rightarrow> map_sum show_graph_error id
                       (build_graph (x_builder env) (x_task_type env) (x_plan_text env)
                         (x_snapshot env) (x_webhook_task env))), s2))
             in (case built of
                   Inl e \<Rightarrow> (Returned (Inl e), s3)
                 | Inr g \<Rightarrow>
                     let (g', s4) = pin_graph_of env s3 g;
                         s5 = record_action_event rid RA_WebhookDispatched
                                (record_action_event rid RA_SubtaskPlanned
                                  (record_action_event rid RA_GraphInitialized s4))
                     in (Staging g' [] 0 0, s5))))"

text \<open>
  What a stage answers: the results or the error of \<^verbatim>\<open>execute_graph_with_pause_notify\<close>, for what
  the environment decides in its passes; nothing while it still runs.
\<close>

definition stage_outcome ::
    "exec_env \<Rightarrow> loop_input list \<Rightarrow> execution_graph \<Rightarrow> (string + node_execution_result list) option" where
  "stage_outcome env inps g =
     (case execute_graph (x_parallelism env) inps g of
        Continue t \<Rightarrow> None
      | Finished out t \<Rightarrow> Some (Inr out)
      | Aborted e t \<Rightarrow> Some (Inl e))"

definition next_stage ::
    "exec_env \<Rightarrow> faults \<Rightarrow> string \<Rightarrow> orch \<Rightarrow> graph_error + execution_graph
      \<Rightarrow> node_execution_result list \<Rightarrow> u8 \<Rightarrow> u8 \<Rightarrow> exec_phase \<times> orch" where
  "next_stage env f rid s built acc cont retries =
     (case built of
        Inl e \<Rightarrow> returned (finish_run (x_json_field env) f rid RS_Failed acc (Some (show_graph_error e)) s)
      | Inr g \<Rightarrow> (case pin_graph_of env s g of
          (g', s') \<Rightarrow> (Staging g' acc cont retries, record_action_event rid RA_GraphInitialized s')))"

definition replan_actions :: "string \<Rightarrow> orch \<Rightarrow> orch" where
  "replan_actions rid s =
     record_action_event rid RA_RecoveryPhaseStarted (record_action_event rid RA_ReplanTriggered s)"

text \<open>The branch of a stage with a failed node.\<close>

definition recovery_step ::
    "exec_env \<Rightarrow> faults \<Rightarrow> string \<Rightarrow> node_execution_result list \<Rightarrow> node_execution_result list
      \<Rightarrow> u8 \<Rightarrow> u8 \<Rightarrow> orch \<Rightarrow> exec_phase \<times> orch" where
  "recovery_step env f rid results acc cont retries s =
     (if max_failure_retries \<le> retries
      then returned (finish_run (x_json_field env) f rid RS_Failed acc
             (Some (''Stage failed after 2 recovery attempt(s)''))
             (record_action_event rid RA_RecoveryPhaseCompleted s))
      else
        let retries' = retries + 1 in
        next_stage env f rid (replan_actions rid s)
          (build_failure_recovery_graph (x_builder env) (x_task env)
            (filter (\<lambda>r. \<not> res_succeeded r) results) (filter res_succeeded acc) retries')
          acc cont retries')"

text \<open>The branch of a stage whose nodes all succeeded; \<open>verdict\<close> answers \<^verbatim>\<open>verify_completion\<close>.\<close>

definition verification_step ::
    "exec_env \<Rightarrow> faults \<Rightarrow> string \<Rightarrow> bool \<times> string \<Rightarrow> node_execution_result list
      \<Rightarrow> u8 \<Rightarrow> u8 \<Rightarrow> orch \<Rightarrow> exec_phase \<times> orch" where
  "verification_step env f rid verdict acc cont retries s =
     (if fst verdict then
        let s1 = (if 0 < retries then record_action_event rid RA_RecoveryPhaseCompleted s else s);
            s2 = (if 0 < cont then record_action_event rid RA_RecoveryPhaseCompleted s1 else s1)
        in returned (finish_run (x_json_field env) f rid RS_Succeeded acc None s2)
      else if max_completion_continuations \<le> cont
      then returned (finish_run (x_json_field env) f rid RS_Failed acc
             (Some (''Verification incomplete after 2 continuation attempts: '' @ snd verdict))
             (record_action_event rid RA_RecoveryPhaseCompleted s))
      else
        let cont' = cont + 1 in
        next_stage env f rid (replan_actions rid s)
          (build_completion_followup_graph (x_builder env) (x_local_task env) (x_task env)
            (snd verdict) acc cont')
          acc cont' retries)"

definition stage_step ::
    "exec_env \<Rightarrow> faults \<Rightarrow> string \<Rightarrow> string + node_execution_result list \<Rightarrow> bool \<times> string
      \<Rightarrow> node_execution_result list \<Rightarrow> u8 \<Rightarrow> u8 \<Rightarrow> orch \<Rightarrow> exec_phase \<times> orch" where
  "stage_step env f rid outcome verdict acc cont retries s =
     (case outcome of
        Inl e \<Rightarrow> returned (finish_run (x_json_field env) f rid RS_Failed acc (Some e) s)
      | Inr results \<Rightarrow>
          let acc' = acc @ results in
          if cancel_flag s rid
          then returned (finish_run (x_json_field env) f rid RS_Cancelled acc' None s)
          else if \<not> list_all res_succeeded results
          then recovery_step env f rid results acc' cont retries s
          else verification_step env f rid verdict acc' cont retries s)"

text \<open>The task that \<^verbatim>\<open>submit_run\<close> spawns handles an error of the executor.\<close>

definition crash_phase ::
    "exec_env \<Rightarrow> faults \<Rightarrow> string \<Rightarrow> string + unit \<Rightarrow> orch \<Rightarrow> exec_phase \<times> orch" where
  "crash_phase env f rid r s =
     (case r of
        Inr u \<Rightarrow> (Over, s)
      | Inl e \<Rightarrow> (Over, snd (mark_run_failed (x_json_field env) f rid e s)))"

end
