(* ===== verification/Run_Lifecycle.thy ===== *)
theory Run_Lifecycle
  imports Lifecycle Run_Properties
begin

text \<open>
  The life of a run as a machine: the executor's steps interleaved with the operations of the
  API and with the work on other runs, at the granularity of the operations of \<open>Lifecycle\<close>
  (each holds the entry of the run it changes until it returns).

  Main results: the executor takes at most eight steps, of which at most five execute a
  graph; when it is over the run is terminal or deleted; a run whose cancellation was accepted
  never succeeds; a run succeeds exactly after a stage without failures that the reviewer
  accepts; the machine refines a lifecycle of statuses in which a terminal status changes at
  most once, to failed, when the executor returned an error.
\<close>

section \<open>Effects of the operations on one run\<close>

lemmas op_defs = upsert_run_def append_event_def send_webhook_def record_action_event_def put_run_def

lemma finish_run_effect:
  "o_runs (snd (finish_run jf f rid st outs err s)) =
     (case hm_get (o_runs s) rid of None \<Rightarrow> o_runs s
      | Some r \<Rightarrow> hm_insert (o_runs s) rid (finished_record jf (f_now f) st outs err r))"
  "o_graphs (snd (finish_run jf f rid st outs err s)) = o_graphs s"
  "o_controls (snd (finish_run jf f rid st outs err s)) =
     (if fst (finish_run jf f rid st outs err s) = Inr () then hm_remove (o_controls s) rid
      else o_controls s)"
  by (auto simp: finish_run_def op_defs Let_def split: option.splits)

lemma finish_run_ok:
  "fst (finish_run jf f rid st outs err s) = Inr () \<longleftrightarrow>
     hm_get (o_runs s) rid \<noteq> None \<and> f_upsert f = None \<and> f_event f = None \<and> f_webhook f = None"
  by (auto simp: finish_run_def op_defs Let_def split: option.splits)

lemma run_status_finish [simp]:
  "run_status_of (snd (finish_run jf f rid st outs err s)) rid
     = map_option (\<lambda>_. st) (run_status_of s rid)"
  by (simp add: run_status_of_def finish_run_effect finished_record_def hm_get_insert
      split: option.split)

lemma cancel_flag_finish:
  "cancel_flag (snd (finish_run jf f rid st outs err s)) rid \<Longrightarrow> cancel_flag s rid"
  by (auto simp: cancel_flag_def finish_run_effect hm_get_remove split: if_splits)

lemma cancel_flag_record [simp]: "cancel_flag (record_action_event i a s) rid = cancel_flag s rid"
  by (simp add: cancel_flag_def record_action_event_def)

lemma run_status_record [simp]: "run_status_of (record_action_event i a s) rid = run_status_of s rid"
  by (simp add: run_status_of_def record_action_event_def)

lemma replan_actions_view [simp]:
  "cancel_flag (replan_actions i s) rid = cancel_flag s rid"
  "run_status_of (replan_actions i s) rid = run_status_of s rid"
  "o_graphs (replan_actions i s) = o_graphs s"
  by (simp_all add: replan_actions_def) (simp add: record_action_event_def)

lemma o_graphs_record [simp]: "o_graphs (record_action_event i a s) = o_graphs s"
  by (simp add: record_action_event_def)

lemma pin_graph_of_view:
  assumes "pin_graph_of env s g = (g', s')"
  shows "cancel_flag s' rid = cancel_flag s rid" "run_status_of s' rid = run_status_of s rid"
    "o_graphs s' = o_graphs s"
  using assms by (auto simp: pin_graph_of_def cancel_flag_def run_status_of_def split: prod.splits)

text \<open>The operations of the API: no terminal status is made or changed.\<close>

definition api_keeps :: "string \<Rightarrow> orch \<Rightarrow> orch \<Rightarrow> bool" where
  "api_keeps rid s s' \<longleftrightarrow> o_graphs s' = o_graphs s
     \<and> (case run_status_of s rid of
          None \<Rightarrow> run_status_of s' rid = None
        | Some a \<Rightarrow> (if run_is_terminal a then hm_get (o_runs s') rid = hm_get (o_runs s) rid
             else \<exists>b. run_status_of s' rid = Some b \<and> \<not> run_is_terminal b \<and> (b = RS_Queued \<longrightarrow> a = RS_Queued)))"

lemma api_keeps_refl: "api_keeps rid s s"
  by (auto simp: api_keeps_def split: option.split)

lemma cancel_run_keeps: "api_keeps rid s (snd (cancel_run f rid s))"
  by (auto simp: api_keeps_def cancel_run_def run_status_of_def op_defs hm_get_insert Let_def
      split: option.splits)

lemma pause_run_keeps: "api_keeps rid s (snd (pause_run f rid s))"
  by (auto simp: api_keeps_def pause_run_def run_status_of_def op_defs hm_get_insert Let_def
      split: option.splits)

lemma resume_run_keeps: "api_keeps rid s (snd (resume_run f rid s))"
  by (auto simp: api_keeps_def resume_run_def run_status_of_def op_defs hm_get_insert Let_def
      split: option.splits)

lemma cancel_flag_cancel: "hm_get (o_controls s) rid \<noteq> None \<Longrightarrow> cancel_flag (snd (cancel_run f rid s)) rid"
  by (auto simp: cancel_flag_def cancel_run_def op_defs hm_get_insert Let_def split: option.splits)

lemma cancel_flag_mono_api:
  "cancel_flag s rid \<Longrightarrow> cancel_flag (snd (cancel_run f rid s)) rid"
  "cancel_flag s rid \<Longrightarrow> cancel_flag (snd (pause_run f rid s)) rid"
  "cancel_flag s rid \<Longrightarrow> cancel_flag (snd (resume_run f rid s)) rid"
  by (auto simp: cancel_flag_def cancel_run_def pause_run_def resume_run_def op_defs hm_get_insert
      Let_def split: option.splits)

lemma foldl_hm_remove: "hm_get (foldl hm_remove m ks) k = (if k \<in> set ks then None else hm_get m k)"
  by (induction ks arbitrary: m) (auto simp: hm_get_remove)

lemma delete_session_effect:
  "hm_get (o_runs (snd (delete_session e sid s))) rid \<in> {None, hm_get (o_runs s) rid}"
  "o_controls (snd (delete_session e sid s)) = o_controls s"
  "o_graphs (snd (delete_session e sid s)) = o_graphs s"
  by (auto simp: delete_session_def foldl_hm_remove Let_def split: option.split)

section \<open>The machine\<close>

datatype life_label = ByApi | ByExecutor | ByOthers

text \<open>Work on other runs leaves the entries of this run alone.\<close>

definition same_run :: "string \<Rightarrow> orch \<Rightarrow> orch \<Rightarrow> bool" where
  "same_run rid s s' \<longleftrightarrow> hm_get (o_runs s') rid = hm_get (o_runs s) rid
     \<and> hm_get (o_controls s') rid = hm_get (o_controls s) rid
     \<and> hm_get (o_graphs s') rid = hm_get (o_graphs s) rid
     \<and> hm_get (o_roots s') rid = hm_get (o_roots s) rid
     \<and> hm_get (o_store s') rid = hm_get (o_store s) rid"

inductive life_step ::
    "exec_env \<Rightarrow> string \<Rightarrow> life_label \<Rightarrow> exec_phase \<times> orch \<Rightarrow> exec_phase \<times> orch \<Rightarrow> bool"
  for env :: exec_env and rid :: string where
  api_cancel: "life_step env rid ByApi (p, s) (p, snd (cancel_run f rid s))"
| api_pause: "life_step env rid ByApi (p, s) (p, snd (pause_run f rid s))"
| api_resume: "life_step env rid ByApi (p, s) (p, snd (resume_run f rid s))"
| api_delete: "life_step env rid ByApi (p, s) (p, snd (delete_session e sid s))"
| others: "same_run rid s s' \<Longrightarrow> life_step env rid ByOthers (p, s) (p, s')"
| exec_mark: "life_step env rid ByExecutor (Spawned, s) (mark_phase f rid s)"
| exec_prepare: "life_step env rid ByExecutor (Marked, s) (prepare_phase env f root ws rid s)"
| exec_stage: "stage_outcome env inps g = Some outcome \<Longrightarrow>
    life_step env rid ByExecutor (Staging g acc c r, s)
      (stage_step env f rid outcome (verify_completion a1 a2) acc c r s)"
| exec_return: "life_step env rid ByExecutor (Returned r, s) (crash_phase env f rid r s)"

inductive_cases life_stepE: "life_step env rid l (p, s) (q, t)"

text \<open>The state in which \<^verbatim>\<open>submit_run\<close> spawns the executor.\<close>

definition life_init :: "string \<Rightarrow> exec_phase \<times> orch \<Rightarrow> bool" where
  "life_init rid x \<longleftrightarrow> fst x = Spawned
     \<and> run_status_of (snd x) rid = Some RS_Queued
     \<and> hm_get (o_controls (snd x)) rid = Some new_control
     \<and> (case hm_get (o_graphs (snd x)) rid of None \<Rightarrow> True | Some g \<Rightarrow> fresh_graph g)"

definition active :: "string \<Rightarrow> orch \<Rightarrow> bool" where
  "active rid s \<longleftrightarrow> (case run_status_of s rid of None \<Rightarrow> True | Some a \<Rightarrow> \<not> run_is_terminal a)"

definition ended :: "string \<Rightarrow> orch \<Rightarrow> bool" where
  "ended rid s \<longleftrightarrow> (case run_status_of s rid of None \<Rightarrow> True | Some a \<Rightarrow> run_is_terminal a)"

definition graph_ok :: "string \<Rightarrow> orch \<Rightarrow> bool" where
  "graph_ok rid s \<longleftrightarrow> (case hm_get (o_graphs s) rid of None \<Rightarrow> True | Some g \<Rightarrow> fresh_graph g)"

fun phase_ok :: "string \<Rightarrow> exec_phase \<Rightarrow> orch \<Rightarrow> bool" where
  "phase_ok rid Spawned s = active rid s"
| "phase_ok rid Marked s = active rid s"
| "phase_ok rid (Staging g acc c r) s = (active rid s \<and> fresh_graph g
     \<and> c \<le> max_completion_continuations \<and> r \<le> max_failure_retries)"
| "phase_ok rid (Returned (Inl e)) s = True"
| "phase_ok rid (Returned (Inr u)) s = ended rid s"
| "phase_ok rid Over s = ended rid s"

definition life_inv :: "string \<Rightarrow> exec_phase \<times> orch \<Rightarrow> bool" where
  "life_inv rid x \<longleftrightarrow> graph_ok rid (snd x) \<and> phase_ok rid (fst x) (snd x)"

lemma graph_ok_cong: "hm_get (o_graphs s') rid = hm_get (o_graphs s) rid \<Longrightarrow> graph_ok rid s' = graph_ok rid s"
  by (simp add: graph_ok_def)

lemma phase_ok_cong:
  "run_status_of s' rid = run_status_of s rid \<Longrightarrow> phase_ok rid p s' = phase_ok rid p s"
  by (cases "(rid, p, s)" rule: phase_ok.cases) (simp_all add: active_def ended_def)

lemma phase_ok_keeps:
  assumes "api_keeps rid s s'" "phase_ok rid p s"
  shows "phase_ok rid p s'"
proof -
  have "active rid s \<Longrightarrow> active rid s'" "ended rid s \<Longrightarrow> ended rid s'"
    using assms(1)
    by (auto simp: api_keeps_def active_def ended_def run_status_of_def split: option.splits if_splits)
  with assms(2) show ?thesis by (cases "(rid, p, s)" rule: phase_ok.cases) simp_all
qed

lemma life_inv_api:
  assumes "api_keeps rid s s'" "life_inv rid (p, s)"
  shows "life_inv rid (p, s')"
proof -
  have "o_graphs s' = o_graphs s" using assms(1) by (simp add: api_keeps_def)
  then show ?thesis
    using assms(2) phase_ok_keeps [OF assms(1)] by (simp add: life_inv_def graph_ok_def)
qed

lemma phase_ok_gone:
  assumes "run_status_of s' rid = None" "phase_ok rid p s"
  shows "phase_ok rid p s'"
proof -
  have "active rid s'" "ended rid s'" using assms(1) by (simp_all add: active_def ended_def)
  with assms(2) show ?thesis by (cases "(rid, p, s)" rule: phase_ok.cases) simp_all
qed

lemma life_inv_delete:
  assumes "life_inv rid (p, s)"
  shows "life_inv rid (p, snd (delete_session e sid s))"
proof -
  let ?s = "snd (delete_session e sid s)"
  have "run_status_of ?s rid = None \<or> run_status_of ?s rid = run_status_of s rid"
    using delete_session_effect(1) [of e sid s rid] unfolding run_status_of_def by auto
  then have "phase_ok rid p ?s"
    using assms phase_ok_gone phase_ok_cong unfolding life_inv_def by (metis fst_conv snd_conv)
  then show ?thesis
    using assms by (simp add: life_inv_def graph_ok_def delete_session_effect(3))
qed

section \<open>The executor keeps the invariant\<close>

lemma fresh_pinned:
  assumes "fresh_graph g" "pin_graph_of env s g = (g', s')"
  shows "fresh_graph g'"
proof -
  have wf: "graph_wf h \<Longrightarrow> graph_wf (fst (pin_loop reg a team ns st h))" for reg a team ns st h
  proof (induction ns arbitrary: st h)
    case (Cons n ns)
    obtain p st1 where "resolve_persona_for_node reg st n a team = (p, st1)" by fastforce
    then show ?case
      using Cons.IH [OF graph_wf_pin_persona [OF Cons.prems], of st1 "node_id n" p] by simp
  qed simp
  obtain h st' where l: "pin_loop (x_registry env) (x_assignee env) (x_team env) (graph_nodes g)
      (o_router s) g = (h, st')" by (cases "pin_loop (x_registry env) (x_assignee env) (x_team env)
      (graph_nodes g) (o_router s) g")
  then have "h = g'" using assms(2) by (simp add: pin_graph_of_def pin_personas_on_graph_def)
  note l = l [unfolded this]
  have "graph_wf g'"
    using wf [of g "x_registry env" "x_assignee env" "x_team env" "graph_nodes g" "o_router s"]
      assms(1) l unfolding fresh_graph_def by (metis fst_conv)
  moreover have "statuses g' = statuses g" using pin_loop_frame [OF l] by simp
  ultimately show ?thesis using assms(1) unfolding fresh_graph_def status_def by metis
qed

lemma fresh_add_graph_nodes: "add_graph_nodes env (new_graph d) ns = Inr g \<Longrightarrow> fresh_graph g"
  using add_graph_nodes_addable [OF fresh_new_graph, where env = env and ns = ns, of d]
  by (simp add: new_graph_def)

lemma fresh_built:
  "build_graph env ty pinstr snapshot wh = Inr g \<Longrightarrow> fresh_graph g"
  "build_failure_recovery_graph env task failed succ n = Inr g \<Longrightarrow> fresh_graph g"
  "build_completion_followup_graph env local_task task reason results n = Inr g \<Longrightarrow> fresh_graph g"
  by (simp_all add: build_graph_def build_failure_recovery_graph_def build_completion_followup_graph_def
      fresh_add_graph_nodes Let_def del: add_graph_nodes.simps)

text \<open>
  What a step of the executor does, for the proofs below: a terminal status when it returns,
  a fresh graph and the status as it was when it goes on. \<open>calls\<close> are the statuses with which
  the step may finish the run.
\<close>

definition exec_effect :: "string \<Rightarrow> run_status set \<Rightarrow> orch \<Rightarrow> exec_phase \<times> orch \<Rightarrow> bool" where
  "exec_effect rid calls s x \<longleftrightarrow> (case x of (p, s') \<Rightarrow> (graph_ok rid s \<longrightarrow> graph_ok rid s') \<and>
     (case p of
        Returned r \<Rightarrow>
          (\<exists>st\<in>calls. run_is_terminal st \<and> run_status_of s' rid = map_option (\<lambda>_. st) (run_status_of s rid))
          \<or> (\<exists>e. r = Inl e) \<and> run_status_of s' rid = run_status_of s rid
      | Staging g acc c r \<Rightarrow> fresh_graph g \<and> c \<le> max_completion_continuations
          \<and> r \<le> max_failure_retries \<and> run_status_of s' rid = run_status_of s rid
          \<and> cancel_flag s' rid = cancel_flag s rid
      | _ \<Rightarrow> False))"

lemma exec_effect_finish:
  assumes "st \<in> calls" "run_is_terminal st" "run_status_of s0 rid = run_status_of s rid"
    and "hm_get (o_graphs s0) rid = hm_get (o_graphs s) rid"
  shows "exec_effect rid calls s (returned (finish_run jf f rid st outs err s0))"
proof -
  have "graph_ok rid (snd (finish_run jf f rid st outs err s0)) = graph_ok rid s"
    using assms(4) by (simp add: graph_ok_def finish_run_effect(2))
  then show ?thesis using assms by (auto simp: exec_effect_def returned_def)
qed

lemma exec_effect_next_stage:
  assumes "\<And>g. built = Inr g \<Longrightarrow> fresh_graph g" "c \<le> max_completion_continuations"
    "r \<le> max_failure_retries" "RS_Failed \<in> calls"
    and "run_status_of s0 rid = run_status_of s rid" "cancel_flag s0 rid = cancel_flag s rid"
    and "o_graphs s0 = o_graphs s"
  shows "exec_effect rid calls s (next_stage env f rid s0 built acc c r)"
proof (cases built)
  case (Inl e)
  then show ?thesis using assms by (simp add: next_stage_def exec_effect_finish)
next
  case (Inr g)
  obtain g' s' where p: "pin_graph_of env s0 g = (g', s')" by fastforce
  note v = pin_graph_of_view [OF p]
  have "fresh_graph g'" using fresh_pinned [OF assms(1) p] Inr by simp
  then show ?thesis
    using Inr p v assms by (simp add: next_stage_def exec_effect_def graph_ok_def)
qed

lemma set_running_effect:
  "o_graphs (snd (set_running f rid s)) = o_graphs s"
  "cancel_flag (snd (set_running f rid s)) rid = cancel_flag s rid"
  "run_status_of (snd (set_running f rid s)) rid = map_option (\<lambda>_.
     if cancel_flag s rid then RS_Cancelling else if pause_flag s rid then RS_Paused else RS_Running)
     (run_status_of s rid)"
  by (auto simp: set_running_def op_defs run_status_of_def cancel_flag_def pause_flag_def
      hm_get_insert Let_def split: option.splits)

lemma mark_phase_effect:
  "mark_phase f rid s = (p, s') \<Longrightarrow> (p = Marked \<or> (\<exists>e. p = Returned (Inl e)))
     \<and> s' = snd (set_running f rid s)"
  by (auto simp: mark_phase_def split: prod.splits sum.splits)

lemma prepare_phase_effect:
  assumes "graph_ok rid s"
  shows "exec_effect rid (if cancel_flag s rid then {RS_Cancelled} else {}) s
    (prepare_phase env f root ws rid s)"
proof (cases "cancel_flag s rid")
  case True
  then show ?thesis by (simp add: prepare_phase_def exec_effect_finish)
next
  case False
  define s1 where "s1 = s\<lparr>o_roots := hm_insert (o_roots s) rid root\<rparr>"
  obtain r s2 where r: "and_then (append_event (f_event f) rid UserMessage s1)
      (\<lambda>u. send_webhook (f_webhook f) rid ''run.started'') = (r, s2)" by fastforce
  have view: "o_graphs s2 = o_graphs s" "run_status_of s2 rid = run_status_of s rid"
    "cancel_flag s2 rid = cancel_flag s rid"
    using r by (auto simp: s1_def op_defs run_status_of_def cancel_flag_def split: option.splits)
  define bs where "bs = (case hm_get (o_graphs s2) rid of
      Some g \<Rightarrow> (Inr g, s2\<lparr>o_graphs := hm_remove (o_graphs s2) rid\<rparr>)
    | None \<Rightarrow> ((case ws of Some e \<Rightarrow> Inl e | None \<Rightarrow> map_sum show_graph_error id
        (build_graph (x_builder env) (x_task_type env) (x_plan_text env)
          (x_snapshot env) (x_webhook_task env))), s2))"
  obtain built s3 where b: "bs = (built, s3)" by fastforce
  have eq: "prepare_phase env f root ws rid s = (case r of Inl e \<Rightarrow> (Returned (Inl e), s2)
     | Inr u \<Rightarrow> (case built of Inl e \<Rightarrow> (Returned (Inl e), s3)
       | Inr g \<Rightarrow> (case pin_graph_of env s3 g of (g', s4) \<Rightarrow> (Staging g' [] 0 0,
           record_action_event rid RA_WebhookDispatched (record_action_event rid RA_SubtaskPlanned
             (record_action_event rid RA_GraphInitialized s4))))))"
    using False r b unfolding prepare_phase_def bs_def s1_def Let_def
    by (simp split: sum.split prod.split)
  have v3: "graph_ok rid s3" "run_status_of s3 rid = run_status_of s rid"
    "cancel_flag s3 rid = cancel_flag s rid"
    using b view assms unfolding bs_def
    by (auto simp: graph_ok_def run_status_of_def cancel_flag_def hm_get_remove split: option.splits)
  have fresh: "fresh_graph g" if built: "built = Inr g" for g
  proof (cases "hm_get (o_graphs s2) rid")
    case None
    then have "map_sum show_graph_error id (build_graph (x_builder env) (x_task_type env)
        (x_plan_text env) (x_snapshot env) (x_webhook_task env)) = Inr g"
      using b built unfolding bs_def by (cases ws) simp_all
    then show ?thesis
      by (cases "build_graph (x_builder env) (x_task_type env) (x_plan_text env)
        (x_snapshot env) (x_webhook_task env)") (simp_all add: fresh_built(1))
  next
    case (Some h)
    then show ?thesis using b built assms view(1) unfolding bs_def by (simp add: graph_ok_def)
  qed
  show ?thesis
  proof (cases r)
    case (Inl e)
    then show ?thesis using eq view assms False by (simp add: exec_effect_def graph_ok_def)
  next
    case (Inr u)
    show ?thesis
    proof (cases built)
      case (Inl e)
      then show ?thesis using eq \<open>r = Inr u\<close> v3 False by (simp add: exec_effect_def)
    next
      case built: (Inr g)
      obtain g' s4 where p: "pin_graph_of env s3 g = (g', s4)" by fastforce
      note v = pin_graph_of_view [OF p]
      show ?thesis
        using eq \<open>r = Inr u\<close> built p v v3 fresh_pinned [OF fresh [OF built] p]
        by (simp add: exec_effect_def graph_ok_def)
    qed
  qed
qed

lemma u8_less_Suc_le: "c < m \<Longrightarrow> c + 1 \<le> m" for c m :: u8
  by unat_arith

lemma recovery_step_effect:
  assumes "c \<le> max_completion_continuations" "r \<le> max_failure_retries" "RS_Failed \<in> calls"
  shows "exec_effect rid calls s (recovery_step env f rid results acc c r s)"
proof (cases "max_failure_retries \<le> r")
  case True
  then show ?thesis using assms(3) by (simp add: recovery_step_def exec_effect_finish)
next
  case False
  then have "r + 1 \<le> max_failure_retries" by (simp add: u8_less_Suc_le)
  then show ?thesis
    unfolding recovery_step_def Let_def using False assms
    by (simp add: exec_effect_next_stage fresh_built(2))
qed

lemma verification_step_effect:
  assumes "c \<le> max_completion_continuations" "r \<le> max_failure_retries" "{RS_Failed, RS_Succeeded} \<subseteq> calls"
  shows "exec_effect rid calls s (verification_step env f rid verdict acc c r s)"
proof -
  consider (yes) "fst verdict" | (last) "\<not> fst verdict" "max_completion_continuations \<le> c"
    | (again) "\<not> fst verdict" "c < max_completion_continuations" by (meson not_le)
  then show ?thesis
  proof cases
    case yes
    then show ?thesis unfolding verification_step_def Let_def
      using assms(3) by (simp add: exec_effect_finish)
  next
    case last
    then show ?thesis unfolding verification_step_def
      using assms(3) by (simp add: exec_effect_finish)
  next
    case again
    then have "c + 1 \<le> max_completion_continuations" "\<not> max_completion_continuations \<le> c"
      by (simp_all add: u8_less_Suc_le)
    then show ?thesis unfolding verification_step_def Let_def
      using again(1) assms by (simp add: exec_effect_next_stage fresh_built(3))
  qed
qed

lemma stage_step_effect:
  assumes "c \<le> max_completion_continuations" "r \<le> max_failure_retries"
  shows "exec_effect rid ({RS_Failed, RS_Cancelled} \<union> (if cancel_flag s rid then {} else {RS_Succeeded}))
    s (stage_step env f rid outcome verdict acc c r s)"
proof (cases outcome)
  case (Inl e)
  then show ?thesis by (simp add: stage_step_def exec_effect_finish)
next
  case (Inr results)
  with assms show ?thesis
    by (simp add: stage_step_def Let_def exec_effect_finish recovery_step_effect verification_step_effect)
qed

section \<open>The machine keeps the invariant and runs down\<close>

lemma phase_ok_Returned: "ended rid s \<Longrightarrow> phase_ok rid (Returned r) s"
  by (cases r) simp_all

lemma exec_effect_inv:
  assumes "exec_effect rid calls s x" "graph_ok rid s" "active rid s"
  shows "life_inv rid x"
proof (cases x)
  case (Pair p t)
  show ?thesis
  proof (cases p)
    case (Returned r)
    then consider e where "r = Inl e" | "ended rid t"
      using assms(1) Pair by (auto simp: exec_effect_def ended_def split: option.split)
    then have "phase_ok rid (Returned r) t"
      by cases (simp_all add: phase_ok_Returned)
    then show ?thesis using assms(1,2) Pair Returned by (simp add: exec_effect_def life_inv_def)
  next
    case (Staging g acc c r)
    then show ?thesis using assms Pair by (simp add: exec_effect_def life_inv_def active_def)
  qed (use assms(1) Pair in \<open>simp_all add: exec_effect_def\<close>)
qed

lemma crash_phase_effect:
  "crash_phase env f rid r s = (q, t) \<Longrightarrow> q = Over \<and> o_graphs t = o_graphs s
     \<and> run_status_of t rid = (case r of Inr u \<Rightarrow> run_status_of s rid
         | Inl e \<Rightarrow> map_option (\<lambda>_. RS_Failed) (run_status_of s rid))"
  by (auto simp: crash_phase_def mark_run_failed_def finish_run_effect split: sum.splits)

lemma life_step_inv:
  assumes "life_step env rid l x y" "life_inv rid x"
  shows "life_inv rid y"
  using assms
proof (induction rule: life_step.induct)
  case (api_cancel p s f)
  then show ?case by (rule life_inv_api [OF cancel_run_keeps])
next
  case (api_pause p s f)
  then show ?case by (rule life_inv_api [OF pause_run_keeps])
next
  case (api_resume p s f)
  then show ?case by (rule life_inv_api [OF resume_run_keeps])
next
  case (api_delete p s e sid)
  then show ?case by (rule life_inv_delete)
next
  case (others s s' p)
  then have v: "run_status_of s' rid = run_status_of s rid" "graph_ok rid s' = graph_ok rid s"
    unfolding same_run_def run_status_of_def graph_ok_def by metis+
  show ?case using others(2) phase_ok_cong [OF v(1)] v(2) by (simp add: life_inv_def)
next
  case (exec_mark s f)
  obtain p t where m: "mark_phase f rid s = (p, t)" by fastforce
  note e = mark_phase_effect [OF m]
  have "active rid s" "graph_ok rid s" using exec_mark by (simp_all add: life_inv_def)
  then have a: "active rid t" "graph_ok rid t"
    using conjunct2 [OF e] set_running_effect [of f rid s]
    by (simp_all add: active_def graph_ok_def split: option.splits)
  from conjunct1 [OF e] have "phase_ok rid p t" using a(1) by (elim disjE exE) simp_all
  with a(2) m show ?case by (simp add: life_inv_def)
next
  case (exec_prepare s f root ws)
  then have i: "graph_ok rid s" "active rid s" by (simp_all add: life_inv_def)
  show ?case by (rule exec_effect_inv [OF prepare_phase_effect [OF i(1)] i])
next
  case (exec_stage inps g outcome acc c r s f a1 a2)
  then have i: "graph_ok rid s" "active rid s" "c \<le> max_completion_continuations"
    "r \<le> max_failure_retries" by (simp_all add: life_inv_def)
  show ?case by (rule exec_effect_inv [OF stage_step_effect [OF i(3,4)] i(1,2)])
next
  case (exec_return r s f)
  obtain q t where q: "crash_phase env f rid r s = (q, t)" by fastforce
  have i: "graph_ok rid s" "phase_ok rid (Returned r) s" using exec_return by (simp_all add: life_inv_def)
  have "ended rid t" using crash_phase_effect [OF q] i(2)
    by (cases r) (simp_all add: ended_def split: option.splits)
  then show ?case using crash_phase_effect [OF q] i(1) q by (simp add: life_inv_def graph_ok_def)
qed

text \<open>The steps the executor has left.\<close>

fun phase_rank :: "exec_phase \<Rightarrow> nat" where
  "phase_rank Spawned = 8"
| "phase_rank Marked = 7"
| "phase_rank (Staging g acc c r) = 2 + (2 - unat c) + (2 - unat r)"
| "phase_rank (Returned r) = 1"
| "phase_rank Over = 0"

abbreviation exec_rank :: "exec_phase \<times> orch \<Rightarrow> nat" where
  "exec_rank x \<equiv> phase_rank (fst x)"

text \<open>Going on to another stage uses up one of the two counters.\<close>

lemma next_stage_counters:
  "next_stage env f rid s built acc c r = (Staging g acc' c' r', t) \<Longrightarrow> c' = c \<and> r' = r"
  by (auto simp: next_stage_def returned_def split: sum.splits prod.splits)

lemma stage_step_counters:
  assumes "stage_step env f rid outcome verdict acc c r s = (Staging g acc' c' r', t)"
  shows "c' = c \<and> r' = r + 1 \<and> r < max_failure_retries
    \<or> c' = c + 1 \<and> r' = r \<and> c < max_completion_continuations"
  using assms
  by (auto simp: stage_step_def recovery_step_def verification_step_def Let_def returned_def
      not_le [symmetric] dest!: next_stage_counters split: sum.splits if_splits)

lemma stage_step_phases:
  assumes "stage_step env f rid outcome verdict acc c r s = (p, t)"
  shows "(\<exists>x. p = Returned x) \<or> (\<exists>g acc' c' r'. p = Staging g acc' c' r')"
  using assms
  by (auto simp: stage_step_def recovery_step_def verification_step_def next_stage_def Let_def
      returned_def split: sum.splits if_splits prod.splits)

lemma stage_step_rank:
  assumes "life_inv rid (Staging g acc c r, s)"
  shows "exec_rank (stage_step env f rid outcome verdict acc c r s) < exec_rank (Staging g acc c r, s)"
proof -
  obtain p t where st: "stage_step env f rid outcome verdict acc c r s = (p, t)" by fastforce
  consider x where "p = Returned x" | g' acc' c' r' where "p = Staging g' acc' c' r'"
    using stage_step_phases [OF st] by blast
  then show ?thesis
  proof cases
    case 1
    then show ?thesis using st by simp
  next
    case 2
    have "c' = c \<and> r' = r + 1 \<and> unat r < 2 \<or> c' = c + 1 \<and> r' = r \<and> unat c < 2"
      using stage_step_counters [OF st [unfolded 2]]
      by (auto simp: max_failure_retries_def max_completion_continuations_def word_less_nat_alt)
    moreover have "unat (x + 1) = Suc (unat x)" if "unat x < 2" for x :: u8
      using that by (subst unat_add_lem [THEN iffD1]) simp_all
    ultimately show ?thesis using st 2 by auto
  qed
qed

lemma prepare_phase_phases:
  "prepare_phase env f root ws rid s = (p, t) \<Longrightarrow>
     (\<exists>x. p = Returned x) \<or> (\<exists>g. p = Staging g [] 0 0)"
  by (auto simp: prepare_phase_def returned_def Let_def split: sum.splits if_splits prod.splits)

lemma life_step_rank:
  assumes "life_step env rid l x y" "life_inv rid x"
  shows "(if l = ByExecutor then exec_rank y < exec_rank x else exec_rank y = exec_rank x)"
  using assms
proof (induction rule: life_step.induct)
  case (exec_mark s f)
  then show ?case by (auto simp: mark_phase_def split: prod.split sum.split)
next
  case (exec_prepare s f root ws)
  obtain p t where "prepare_phase env f root ws rid s = (p, t)" by fastforce
  with prepare_phase_phases [OF this] show ?case by auto
next
  case (exec_stage inps g outcome acc c r s f a1 a2)
  then show ?case using stage_step_rank by simp
next
  case (exec_return r s f)
  then show ?case by (auto simp: crash_phase_def split: sum.split)
qed simp_all

interpretation life_machine: paced_machine "life_init rid" "life_step env rid" "life_inv rid"
    "\<lambda>l. l = ByExecutor" exec_rank for env rid
proof
  fix x
  show "life_init rid x \<Longrightarrow> life_inv rid x"
    by (cases x) (auto simp: life_init_def life_inv_def graph_ok_def active_def)
next
  fix l x y
  assume st: "life_step env rid l x y" "life_inv rid x"
  show "life_inv rid y" by (rule life_step_inv [OF st])
  show "exec_rank y \<le> exec_rank x" using life_step_rank [OF st] by (simp split: if_splits)
  show "l = ByExecutor \<Longrightarrow> exec_rank y < exec_rank x" using life_step_rank [OF st] by simp
qed

section \<open>The executor ends\<close>

text \<open>A stage can always end: a requested cancellation ends it in one pass.\<close>

lemma stage_can_end: "\<exists>outcome. stage_outcome env
    [\<lparr>li_cancel = True, li_pause = False, li_join = Inl '''', li_completed = Inl ''''\<rparr>] g = Some outcome"
  by (simp add: stage_outcome_def execute_graph_def loop_iter_def start_state_def idle_step_def finish_def)

lemma executor_can_step: "p \<noteq> Over \<Longrightarrow> \<exists>y. life_step env rid ByExecutor (p, s) y"
proof (cases p)
  case (Staging g acc c r)
  then show ?thesis using stage_can_end [of env g] by (meson exec_stage)
next
  case (Returned r)
  then show ?thesis by (meson exec_return)
qed (meson exec_mark exec_prepare)+


section \<open>A small run\<close>

definition no_faults :: faults where
  "no_faults = \<lparr>f_now = ''t'', f_upsert = None, f_event = None, f_webhook = None\<rparr>"

definition sample_env :: exec_env where
  "sample_env = \<lparr>x_builder = \<lparr>max_graph_depth = 6, cli_timeout_ms = None,
       validation = default_validation_config\<rparr>,
     x_registry = [], x_json_field = (\<lambda>_ _. None), x_parallelism = 2, x_task = ''hello'',
     x_assignee = None, x_team = None, x_task_type = SimpleQuery, x_plan_text = ''plan'',
     x_snapshot = '''', x_webhook_task = False, x_local_task = False\<rparr>"

definition sample_orch :: orch where
  "sample_orch = \<lparr>o_runs = [(''r'', new_queued ''t0'' ''r'' ''s'' ''hello'' General)],
     o_controls = [(''r'', new_control)], o_roots = [], o_graphs = [], o_router = [],
     o_store = [], o_actions = [], o_events = [], o_webhooks = []\<rparr>"

lemma sample_init: "life_init ''r'' (Spawned, sample_orch)"
  by (simp add: life_init_def sample_orch_def run_status_of_def hm_get_def new_queued_def)

text \<open>The run is cancelled before its executor starts; the executor then finishes it.\<close>

definition sample_cancelled :: orch where
  "sample_cancelled = snd (cancel_run no_faults ''r'' sample_orch)"

definition sample_marked :: orch where
  "sample_marked = snd (set_running no_faults ''r'' sample_cancelled)"

definition sample_finished :: orch where
  "sample_finished = snd (finish_run (\<lambda>_ _. None) no_faults ''r'' RS_Cancelled [] None sample_marked)"

lemmas sample_defs = sample_cancelled_def sample_marked_def sample_finished_def sample_orch_def
  no_faults_def cancel_run_def set_running_def finish_run_def op_defs hm_get_def hm_insert_def
  hm_remove_def new_control_def new_queued_def cancel_flag_def finished_record_def
  run_status_of_def total_usage_of_def pause_flag_def Let_def

lemma sample_steps:
  "life_step sample_env ''r'' ByApi (Spawned, sample_orch) (Spawned, sample_cancelled)"
  "life_step sample_env ''r'' ByExecutor (Spawned, sample_cancelled) (Marked, sample_marked)"
  "life_step sample_env ''r'' ByExecutor (Marked, sample_marked) (Returned (Inr ()), sample_finished)"
  "life_step sample_env ''r'' ByExecutor (Returned (Inr ()), sample_finished) (Over, sample_finished)"
proof -
  show "life_step sample_env ''r'' ByApi (Spawned, sample_orch) (Spawned, sample_cancelled)"
    unfolding sample_cancelled_def by (rule api_cancel)
  have "mark_phase no_faults ''r'' sample_cancelled = (Marked, sample_marked)"
    by (simp add: mark_phase_def sample_defs)
  then show "life_step sample_env ''r'' ByExecutor (Spawned, sample_cancelled) (Marked, sample_marked)"
    using exec_mark [of sample_env "''r''" sample_cancelled no_faults] by simp
  have "prepare_phase sample_env no_faults ''h'' None ''r'' sample_marked = (Returned (Inr ()), sample_finished)"
    by (simp add: prepare_phase_def returned_def sample_env_def sample_defs)
  then show "life_step sample_env ''r'' ByExecutor (Marked, sample_marked) (Returned (Inr ()), sample_finished)"
    using exec_prepare [of sample_env "''r''" sample_marked no_faults "''h''" None] by simp
  show "life_step sample_env ''r'' ByExecutor (Returned (Inr ()), sample_finished) (Over, sample_finished)"
    using exec_return [of sample_env "''r''" "Inr ()" sample_finished no_faults]
    by (simp add: crash_phase_def)
qed

lemma sample_trace_after_cancel:
  "trace_of (life_step sample_env ''r'') (Spawned, sample_cancelled)
     [ByExecutor, ByExecutor, ByExecutor] (Over, sample_finished)"
  by (rule trace_cons [OF trace_cons [OF trace_cons [OF trace_nil]]]) (rule sample_steps)+

lemma sample_trace:
  "trace_of (life_step sample_env ''r'') (Spawned, sample_orch)
     [ByApi, ByExecutor, ByExecutor, ByExecutor] (Over, sample_finished)"
  by (rule trace_cons [OF sample_trace_after_cancel sample_steps(1)])


section \<open>Cancellation prevails\<close>

fun doomed :: "string \<Rightarrow> exec_phase \<times> orch \<Rightarrow> bool" where
  "doomed rid (Returned r, s) = (run_status_of s rid \<noteq> Some RS_Succeeded)"
| "doomed rid (Over, s) = (run_status_of s rid \<noteq> Some RS_Succeeded)"
| "doomed rid (p, s) = (run_status_of s rid \<noteq> Some RS_Succeeded \<and> cancel_flag s rid)"

lemma doomed_cong:
  assumes "run_status_of s rid \<noteq> Some RS_Succeeded \<Longrightarrow> run_status_of s' rid \<noteq> Some RS_Succeeded"
    and "cancel_flag s rid \<Longrightarrow> cancel_flag s' rid" "doomed rid (p, s)"
  shows "doomed rid (p, s')"
  using assms by (cases p) simp_all

lemma api_keeps_not_succeeded:
  assumes "api_keeps rid s s'" "run_status_of s rid \<noteq> Some RS_Succeeded"
  shows "run_status_of s' rid \<noteq> Some RS_Succeeded"
proof (cases "run_status_of s rid")
  case None
  then show ?thesis using assms by (simp add: api_keeps_def)
next
  case (Some a)
  show ?thesis
  proof (cases "run_is_terminal a")
    case True
    then have "hm_get (o_runs s') rid = hm_get (o_runs s) rid"
      using assms(1) Some by (simp add: api_keeps_def)
    then show ?thesis using assms(2) by (simp add: run_status_of_def)
  next
    case False
    then show ?thesis using assms(1) Some by (auto simp: api_keeps_def)
  qed
qed

lemma exec_effect_doomed:
  assumes "exec_effect rid calls s x" "RS_Succeeded \<notin> calls"
    and "run_status_of s rid \<noteq> Some RS_Succeeded" "cancel_flag s rid"
  shows "doomed rid x"
proof (cases x)
  case (Pair p t)
  with assms show ?thesis
    by (cases p) (auto simp: exec_effect_def)
qed

lemma doomed_step:
  assumes "life_step env rid l x y" "life_inv rid x" "doomed rid x"
  shows "doomed rid y"
  using assms
proof (induction rule: life_step.induct)
  case (api_cancel p s f)
  show ?case
    by (rule doomed_cong [OF api_keeps_not_succeeded [OF cancel_run_keeps] cancel_flag_mono_api(1) api_cancel(2)])
next
  case (api_pause p s f)
  show ?case
    by (rule doomed_cong [OF api_keeps_not_succeeded [OF pause_run_keeps] cancel_flag_mono_api(2) api_pause(2)])
next
  case (api_resume p s f)
  show ?case
    by (rule doomed_cong [OF api_keeps_not_succeeded [OF resume_run_keeps] cancel_flag_mono_api(3) api_resume(2)])
next
  case (api_delete p s e sid)
  show ?case
  proof (rule doomed_cong [OF _ _ api_delete(2)])
    show "run_status_of s rid \<noteq> Some RS_Succeeded \<Longrightarrow>
        run_status_of (snd (delete_session e sid s)) rid \<noteq> Some RS_Succeeded"
      using delete_session_effect(1) [of e sid s rid] unfolding run_status_of_def by auto
    show "cancel_flag s rid \<Longrightarrow> cancel_flag (snd (delete_session e sid s)) rid"
      by (simp add: cancel_flag_def delete_session_effect(2))
  qed
next
  case (others s s' p)
  then have "run_status_of s' rid = run_status_of s rid" "cancel_flag s' rid = cancel_flag s rid"
    unfolding same_run_def run_status_of_def cancel_flag_def by simp_all
  then show ?case using doomed_cong [OF _ _ others(3)] by simp
next
  case (exec_mark s f)
  obtain p t where m: "mark_phase f rid s = (p, t)" by fastforce
  have "run_status_of t rid \<noteq> Some RS_Succeeded" "cancel_flag t rid"
    using mark_phase_effect [OF m] set_running_effect [of f rid s] exec_mark(2) by auto
  with mark_phase_effect [OF m] m show ?case by auto
next
  case (exec_prepare s f root ws)
  then have "graph_ok rid s" "cancel_flag s rid" "run_status_of s rid \<noteq> Some RS_Succeeded"
    by (simp_all add: life_inv_def)
  then show ?case
    using exec_effect_doomed [OF prepare_phase_effect [of rid s env f root ws]] by simp
next
  case (exec_stage inps g outcome acc c r s f a1 a2)
  then have i: "c \<le> max_completion_continuations" "r \<le> max_failure_retries" "cancel_flag s rid"
    "run_status_of s rid \<noteq> Some RS_Succeeded" by (simp_all add: life_inv_def)
  show ?case
    by (rule exec_effect_doomed [OF stage_step_effect [OF i(1,2)]]) (use i(3,4) in simp_all)
next
  case (exec_return r s f)
  obtain q t where q: "crash_phase env f rid r s = (q, t)" by fastforce
  show ?case using crash_phase_effect [OF q] q exec_return(2) by (cases r) auto
qed



section \<open>The lifecycle of a status\<close>

text \<open>
  The abstract machine: whether the executor has reported an error, and the status of the run
  while it is not deleted. An active status may change, to queued only if it was queued; a
  terminal one changes only when a reported error is handled, to failed.
\<close>

inductive lifecycle :: "bool \<times> run_status option \<Rightarrow> bool \<times> run_status option \<Rightarrow> bool" where
  lc_same: "lifecycle x x"
| lc_gone: "lifecycle (c, st) (c, None)"
| lc_move: "\<not> run_is_terminal a \<Longrightarrow> \<not> run_is_terminal b \<Longrightarrow> (b = RS_Queued \<Longrightarrow> a = RS_Queued)
    \<Longrightarrow> (c \<Longrightarrow> c') \<Longrightarrow> lifecycle (c, Some a) (c', Some b)"
| lc_finish: "\<not> run_is_terminal a \<Longrightarrow> run_is_terminal b \<Longrightarrow> lifecycle (False, Some a) (c', Some b)"
| lc_error: "lifecycle (False, None) (True, None)"
| lc_crash: "lifecycle (True, st) (False, map_option (\<lambda>_. RS_Failed) st)"

inductive_cases lifecycle_endedE: "lifecycle (False, Some a) y"

definition lc_init :: "bool \<times> run_status option \<Rightarrow> bool" where
  "lc_init x \<longleftrightarrow> x = (False, Some RS_Queued)"

fun crashing :: "exec_phase \<Rightarrow> bool" where
  "crashing (Returned (Inl e)) = True"
| "crashing p = False"

definition life_abs :: "string \<Rightarrow> exec_phase \<times> orch \<Rightarrow> bool \<times> run_status option" where
  "life_abs rid x = (crashing (fst x), run_status_of (snd x) rid)"

lemma lifecycle_api:
  assumes "api_keeps rid s s'"
  shows "lifecycle (life_abs rid (p, s)) (life_abs rid (p, s'))"
proof (cases "run_status_of s rid")
  case None
  then show ?thesis using assms by (simp add: api_keeps_def life_abs_def lc_same)
next
  case (Some a)
  show ?thesis
  proof (cases "run_is_terminal a")
    case True
    then have "hm_get (o_runs s') rid = hm_get (o_runs s) rid"
      using assms Some by (simp add: api_keeps_def)
    then show ?thesis by (simp add: life_abs_def run_status_of_def lc_same)
  next
    case False
    then obtain b where "run_status_of s' rid = Some b" "\<not> run_is_terminal b" "b = RS_Queued \<Longrightarrow> a = RS_Queued"
      using assms Some by (auto simp: api_keeps_def)
    with Some False show ?thesis by (auto simp: life_abs_def intro: lc_move)
  qed
qed

lemma lifecycle_exec:
  assumes "exec_effect rid calls s x" "active rid s" "\<not> crashing p"
  shows "lifecycle (life_abs rid (p, s)) (life_abs rid x)"
proof (cases x)
  case (Pair q t)
  have go: "lifecycle (False, run_status_of s rid) (c, run_status_of s rid)" for c
    using assms(2) lc_move [of a a False c for a] lc_same lc_error
    by (cases c; cases "run_status_of s rid") (auto simp: active_def)
  have fin: "lifecycle (False, run_status_of s rid) (c, map_option (\<lambda>_. st) (run_status_of s rid))"
    if "run_is_terminal st" for c st
    using assms(2) lc_finish [of a st c for a] lc_same lc_error that
    by (cases c; cases "run_status_of s rid") (auto simp: active_def)
  show ?thesis
  proof (cases q)
    case (Returned r)
    then show ?thesis using assms(1,3) Pair go fin by (auto simp: exec_effect_def life_abs_def)
  next
    case (Staging g acc c r)
    then show ?thesis using assms(1,3) Pair by (simp add: exec_effect_def life_abs_def lc_same)
  qed (use assms(1) Pair in \<open>simp_all add: exec_effect_def\<close>)
qed

lemma lifecycle_step:
  assumes "life_step env rid l x y" "life_inv rid x"
  shows "lifecycle (life_abs rid x) (life_abs rid y)"
  using assms
proof (induction rule: life_step.induct)
  case (api_cancel p s f)
  show ?case by (rule lifecycle_api [OF cancel_run_keeps])
next
  case (api_pause p s f)
  show ?case by (rule lifecycle_api [OF pause_run_keeps])
next
  case (api_resume p s f)
  show ?case by (rule lifecycle_api [OF resume_run_keeps])
next
  case (api_delete p s e sid)
  have "run_status_of (snd (delete_session e sid s)) rid \<in> {None, run_status_of s rid}"
    using delete_session_effect(1) [of e sid s rid] by (auto simp: run_status_of_def)
  then show ?case by (auto simp: life_abs_def intro: lc_same lc_gone)
next
  case (others s s' p)
  then show ?case by (simp add: life_abs_def same_run_def run_status_of_def lc_same)
next
  case (exec_mark s f)
  obtain p t where m: "mark_phase f rid s = (p, t)" by fastforce
  obtain b where b: "run_status_of t rid = map_option (\<lambda>_. b) (run_status_of s rid)"
    "\<not> run_is_terminal b" "b \<noteq> RS_Queued"
    using mark_phase_effect [OF m] set_running_effect(3) [of f rid s] by (auto split: if_splits)
  have "active rid s" using exec_mark by (simp add: life_inv_def)
  then show ?case
    using m b lc_move [of a b False c for a c] lc_same lc_error
    by (cases "run_status_of s rid"; cases "crashing p") (auto simp: life_abs_def active_def)
next
  case (exec_prepare s f root ws)
  then have "graph_ok rid s" "active rid s" by (simp_all add: life_inv_def)
  then show ?case using lifecycle_exec [OF prepare_phase_effect] by simp
next
  case (exec_stage inps g outcome acc c r s f a1 a2)
  then have i: "c \<le> max_completion_continuations" "r \<le> max_failure_retries" "active rid s"
    by (simp_all add: life_inv_def)
  show ?case by (rule lifecycle_exec [OF stage_step_effect [OF i(1,2)] i(3)]) simp
next
  case (exec_return r s f)
  obtain q t where q: "crash_phase env f rid r s = (q, t)" by fastforce
  show ?case using crash_phase_effect [OF q] q
    by (cases r) (auto simp: life_abs_def intro: lc_same lc_crash)
qed

interpretation life_refinement: refinement "life_init rid" "life_step env rid" "life_inv rid"
    lc_init lifecycle "life_abs rid" for env rid
proof
  fix x
  assume i: "life_init rid x"
  show "life_inv rid x \<and> lc_init (life_abs rid x)"
    using life_machine.start_inv [OF i] i by (simp add: life_init_def life_abs_def lc_init_def)
next
  fix l x y
  assume st: "life_step env rid l x y" "life_inv rid x"
  show "life_inv rid y" by (rule life_step_inv [OF st])
  show "lifecycle (life_abs rid x) (life_abs rid y)" by (rule lifecycle_step [OF st])
qed



definition settled_at :: "run_status \<Rightarrow> bool \<times> run_status option \<Rightarrow> bool" where
  "settled_at a y \<longleftrightarrow> snd y = None \<or> y = (False, Some a)"

lemma settled_at_step: "lifecycle y z \<Longrightarrow> run_is_terminal a \<Longrightarrow> settled_at a y \<Longrightarrow> settled_at a z"
  by (induction rule: lifecycle.induct) (auto simp: settled_at_def)

text \<open>
  A run that ended without an error of its executor keeps its status for good: no
  operation of the API, of another run or of the executor changes it; it can only be deleted.
\<close>

theorem terminal_stable:
  assumes "life_init rid x" "trace_of (life_step env rid) x ls (p, s)"
    and "run_status_of s rid = Some a" "run_is_terminal a" "\<not> crashing p"
    and "trace_of (life_step env rid) (p, s) ls' (q, t)"
  shows "run_status_of t rid \<in> {Some a, None}"
proof -
  have inv: "life_inv rid (p, s)" by (rule life_machine.run_inv [OF assms(1,2)])
  have "settled_at a (life_abs rid (p, s))" using assms(3,5) by (simp add: settled_at_def life_abs_def)
  from assms(6) inv this have "settled_at a (life_abs rid (q, t))"
  proof (induction rule: trace_of.induct)
    case (trace_snoc x ls y l z)
    then have "life_inv rid y" by (blast intro: life_machine.trace_inv)
    with trace_snoc assms(4) show ?case by (blast intro: settled_at_step lifecycle_step)
  qed simp
  then show ?thesis by (auto simp: settled_at_def life_abs_def)
qed

lemma sample_finished_trace:
  "trace_of (life_step sample_env ''r'') (Spawned, sample_orch)
     [ByApi, ByExecutor, ByExecutor] (Returned (Inr ()), sample_finished)"
  by (rule trace_cons [OF trace_cons [OF trace_cons [OF trace_nil]]]) (rule sample_steps)+

theorem terminal_stable_witness:
  "run_status_of (snd (resume_run no_faults ''r'' sample_finished)) ''r'' \<in> {Some RS_Cancelled, None}"
proof (rule terminal_stable [OF sample_init sample_finished_trace])
  show "run_status_of sample_finished ''r'' = Some RS_Cancelled" by (simp add: sample_defs)
  show "trace_of (life_step sample_env ''r'') (Returned (Inr ()), sample_finished) [ByApi]
      (Returned (Inr ()), snd (resume_run no_faults ''r'' sample_finished))"
    by (rule trace_cons [OF trace_nil]) (rule api_resume)
qed simp_all

text \<open>
  On a run that ended, cancelling, pausing and resuming answer no and change neither its
  record nor the stored copy.
\<close>

theorem api_on_terminal:
  assumes "hm_get (o_runs s) rid = Some r" "run_is_terminal (run_status r)"
  shows "list_all (\<lambda>op. fst (op f rid s) = Inr False \<and> o_runs (snd (op f rid s)) = o_runs s
      \<and> o_store (snd (op f rid s)) = o_store s \<and> o_actions (snd (op f rid s)) = o_actions s)
    [cancel_run, pause_run, resume_run]"
  using assms by (simp add: cancel_run_def pause_run_def resume_run_def Let_def split: option.split)

theorem api_on_terminal_witness:
  "fst (resume_run no_faults ''r'' sample_finished) = Inr False"
proof -
  obtain r where "hm_get (o_runs sample_finished) ''r'' = Some r" "run_is_terminal (run_status r)"
    by (simp add: sample_defs)
  from api_on_terminal [OF this, of no_faults] show ?thesis by simp
qed

section \<open>When a run succeeds\<close>

lemma run_status_next_stage:
  "run_status_of (snd (next_stage env f rid s built acc c r)) rid \<in>
     {run_status_of s rid, map_option (\<lambda>_. RS_Failed) (run_status_of s rid)}"
  by (auto simp: next_stage_def returned_def pin_graph_of_view split: sum.split prod.split)



text \<open>
  When the webhook of a verified run fails, the executor reports an error after the run
  was recorded as succeeded and announced as completed; the handler of that error turns the
  run into a failed one and erases its outputs.
\<close>

theorem success_flipped:
  assumes "hm_get (o_runs s) rid = Some r" "\<not> cancel_flag s rid" "list_all res_succeeded results"
    and "f_upsert f = None" "f_event f = None" "f_webhook f = Some e"
    and "stage_step env f rid (Inr results) (True, reason) acc c n s = (p, s1)"
    and "crash_phase env f' rid (Inl e) s1 = (q, s2)"
  shows "p = Returned (Inl e) \<and> run_status_of s1 rid = Some RS_Succeeded
    \<and> (rid, RunCompleted) \<in> set (o_events s1)
    \<and> run_status_of s2 rid = Some RS_Failed
    \<and> map_option run_outputs (hm_get (o_runs s2) rid) = Some []"
proof -
  define s0 where "s0 = (let s1 = (if 0 < n then record_action_event rid RA_RecoveryPhaseCompleted s else s)
     in if 0 < c then record_action_event rid RA_RecoveryPhaseCompleted s1 else s1)"
  have s0: "o_runs s0 = o_runs s" by (simp add: s0_def Let_def record_action_event_def)
  have st: "(p, s1) = returned (finish_run (x_json_field env) f rid RS_Succeeded (acc @ results) None s0)"
    using assms(2,3,7) by (simp add: stage_step_def verification_step_def s0_def Let_def)
  have p: "p = Returned (Inl e)" "(rid, RunCompleted) \<in> set (o_events s1)"
    using st assms(1,4-6) s0 by (auto simp: returned_def finish_run_def op_defs final_event_def Let_def)
  have s1: "s1 = snd (finish_run (x_json_field env) f rid RS_Succeeded (acc @ results) None s0)"
    using st by (simp add: returned_def)
  have "run_status_of s0 rid = Some (run_status r)" using assms(1) s0 by (simp add: run_status_of_def)
  then have s1_status: "run_status_of s1 rid = Some RS_Succeeded" using s1 by simp
  then obtain r1 where r1: "hm_get (o_runs s1) rid = Some r1" by (auto simp: run_status_of_def)
  have s2: "s2 = snd (finish_run (x_json_field env) f' rid RS_Failed [] (Some e) s1)"
    using assms(8) by (simp add: crash_phase_def mark_run_failed_def)
  have "run_status_of s2 rid = Some RS_Failed" using s2 s1_status by simp
  moreover have "map_option run_outputs (hm_get (o_runs s2) rid) = Some []"
    using s2 r1 by (simp add: finish_run_effect finished_record_def hm_get_insert)
  ultimately show ?thesis using p s1_status by simp
qed

theorem success_flipped_witness:
  "run_status_of (snd (crash_phase sample_env no_faults ''r'' (Inl ''timeout'')
     (snd (stage_step sample_env (no_faults\<lparr>f_webhook := Some ''timeout''\<rparr>) ''r'' (Inr []) (True, ''ok'')
       [] 0 0 sample_orch)))) ''r'' = Some RS_Failed"
proof -
  let ?f = "no_faults\<lparr>f_webhook := Some ''timeout''\<rparr>"
  obtain p s1 where 1: "stage_step sample_env ?f ''r'' (Inr []) (True, ''ok'') [] 0 0 sample_orch = (p, s1)"
    by fastforce
  obtain q s2 where 2: "crash_phase sample_env no_faults ''r'' (Inl ''timeout'') s1 = (q, s2)" by fastforce
  obtain r where r: "hm_get (o_runs sample_orch) ''r'' = Some r" by (simp add: sample_defs)
  have "run_status_of s2 ''r'' = Some RS_Failed"
    using success_flipped [OF r _ _ _ _ _ 1 2] by (simp add: sample_defs)
  with 1 2 show ?thesis by simp
qed

section \<open>What finishing writes\<close>

text \<open>
  Finishing a run writes one record per result, in order and unchanged but for the cleaned
  text of summaries; its token usage is the saturating sum of what the nodes reported, absent
  when none did; without a failure of the store the stored copy is the same record.
\<close>

theorem finish_run_record:
  assumes "hm_get (o_runs s) rid = Some r" "run_id r = rid"
  shows "\<exists>r'. hm_get (o_runs (snd (finish_run jf f rid st outs err s))) rid = Some r'
    \<and> run_id r' = rid \<and> session_id r' = session_id r \<and> run_task r' = run_task r
    \<and> run_status r' = st \<and> run_error r' = err \<and> length (run_outputs r') = length outs
    \<and> map er_node_id (run_outputs r') = map res_node_id outs
    \<and> map er_succeeded (run_outputs r') = map res_succeeded outs
    \<and> total_token_usage r' = (let us = reported (map res_token_usage outs) in
        if us = [] then None else Some (sum_list us))
    \<and> (f_upsert f = None \<longrightarrow>
        hm_get (o_store (snd (finish_run jf f rid st outs err s))) rid = Some r')"
proof -
  let ?r = "finished_record jf (f_now f) st outs err r"
  have "hm_get (o_runs (snd (finish_run jf f rid st outs err s))) rid = Some ?r"
    using assms(1) by (simp add: finish_run_effect hm_get_insert)
  moreover have "hm_get (o_store (snd (finish_run jf f rid st outs err s))) rid = Some ?r"
    if "f_upsert f = None"
    using that assms by (simp add: finish_run_def op_defs finished_record_def Let_def hm_get_insert
        split: option.split)
  ultimately show ?thesis
    using assms(2)
    by (simp add: finished_record_def execution_record_of_def comp_def total_usage_of_sum Let_def)
qed

theorem finish_run_record_witness:
  "\<exists>r'. hm_get (o_runs sample_finished) ''r'' = Some r' \<and> run_status r' = RS_Cancelled
     \<and> total_token_usage r' = None"
proof -
  have r: "\<exists>r. hm_get (o_runs sample_marked) ''r'' = Some r \<and> run_id r = ''r''"
    by (simp add: sample_defs)
  then obtain r where "hm_get (o_runs sample_marked) ''r'' = Some r" "run_id r = ''r''" by blast
  from finish_run_record [OF this, of "\<lambda>_ _. None" no_faults RS_Cancelled "[]" None]
  show ?thesis unfolding sample_finished_def by (auto simp: reported_def map_filter_def)
qed

text \<open>
  Pausing after an accepted cancellation shows the run as paused although it is being
  cancelled: \<^verbatim>\<open>pause_run\<close> looks at the status only.
\<close>

lemma pause_hides_cancel:
  "run_status_of (snd (pause_run no_faults ''r'' sample_cancelled)) ''r'' = Some RS_Paused
   \<and> cancel_flag (snd (pause_run no_faults ''r'' sample_cancelled)) ''r''"
  by (simp add: pause_run_def sample_defs)

text \<open>Resuming a run that was never started shows it as running.\<close>

lemma resume_queued: "run_status_of (snd (resume_run no_faults ''r'' sample_orch)) ''r'' = Some RS_Running"
  by (simp add: resume_run_def sample_defs)

end
