(* ===== verification/Crypto.thy ===== *)
theory Crypto
  imports Helpers
begin

text \<open>
  \<^verbatim>\<open>src/crypto.rs\<close>: the comparison of secrets, the hexadecimal form of a digest, the checks of
  Slack and Discord signatures and the encryption of stored secrets. HMAC-SHA256, Ed25519, AES-256-GCM,
  SHA-256, hex and base64 are crates the code calls; they are arguments of the definitions.

  Main results: the comparison, which always reads all bytes, decides equality; the
  hexadecimal form is injective; decrypting what was encrypted gives the secret back, except
  for a secret that carries the marker of encrypted values.
\<close>

unbundle bit_operations_syntax

section \<open>Comparison and hexadecimal form\<close>

definition constant_time_eq :: "u8 list \<Rightarrow> u8 list \<Rightarrow> bool" where
  "constant_time_eq a b =
     (if length a \<noteq> length b then False
      else foldl (\<lambda>diff (x, y). diff OR (x XOR y)) 0 (zip a b) = 0)"

definition bytes_of :: "string \<Rightarrow> u8 list" where
  "bytes_of s = map of_char s"

definition hex_digit :: "nat \<Rightarrow> char" where
  "hex_digit d = (if d < 10 then char_of (48 + d) else char_of (87 + d))"

definition to_hex :: "u8 list \<Rightarrow> string" where
  "to_hex bytes = concat (map (\<lambda>b. [hex_digit (unat b div 16), hex_digit (unat b mod 16)]) bytes)"

text \<open>
  \<open>hmac\<close> is \<^verbatim>\<open>new_from_slice\<close>, \<^verbatim>\<open>update\<close> and \<^verbatim>\<open>finalize\<close> of \<^verbatim>\<open>Hmac<Sha256>\<close>: the digest of a
  message under a key, or the error of an unusable key.
\<close>

type_synonym mac = "string \<Rightarrow> string \<Rightarrow> string + u8 list"

definition hmac_sha256_hex :: "mac \<Rightarrow> string \<Rightarrow> string \<Rightarrow> string + string" where
  "hmac_sha256_hex hmac secret message = map_sum id to_hex (hmac secret message)"

lemma word_xor_zero_iff: "(a XOR b = 0) \<longleftrightarrow> a = b" for a b :: "'a::len word"
  by (metis xor.assoc xor.left_neutral xor_self_eq)

lemma foldl_diff_zero:
  "foldl (\<lambda>diff (x, y). diff OR (x XOR y)) d ps = (0::u8) \<longleftrightarrow> d = 0 \<and> (\<forall>(x, y)\<in>set ps. x = y)"
  by (induction ps arbitrary: d) (auto simp: or_eq_0_iff word_xor_zero_iff)

lemma constant_time_eq_eq: "constant_time_eq a b \<longleftrightarrow> a = b"
proof (cases "length a = length b")
  case True
  then have "(\<forall>(x, y)\<in>set (zip a b). x = y) \<longleftrightarrow> a = b"
    by (induction a b rule: list_induct2) auto
  with True show ?thesis by (simp add: constant_time_eq_def foldl_diff_zero)
qed (auto simp: constant_time_eq_def)

text \<open>C1: The comparison, which folds over all bytes, answers yes exactly on equal strings.\<close>

theorem constant_time_eq_iff: "constant_time_eq a b \<longleftrightarrow> a = b"
  by (rule constant_time_eq_eq)

lemma hex_digit_inject: "d < 16 \<Longrightarrow> e < 16 \<Longrightarrow> hex_digit d = hex_digit e \<Longrightarrow> d = e"
proof -
  assume "d < 16" "e < 16" "hex_digit d = hex_digit e"
  then have "(of_char (hex_digit d) :: nat) = of_char (hex_digit e)" by simp
  with \<open>d < 16\<close> \<open>e < 16\<close> show "d = e"
    by (simp add: hex_digit_def split: if_splits)
qed

lemma to_hex_inject: "to_hex a = to_hex b \<longleftrightarrow> a = b"
proof (induction a arbitrary: b)
  case Nil
  then show ?case by (cases b) (simp_all add: to_hex_def)
next
  case (Cons x a)
  show ?case
  proof (cases b)
    case Nil
    then show ?thesis by (simp add: to_hex_def)
  next
    case (Cons y b')
    have "unat z < 2 ^ LENGTH(8)" for z :: u8 by (rule unsigned_less)
    then have lt: "unat z div 16 < 16" "unat z mod 16 < 16" for z :: u8
      by (simp_all add: less_mult_imp_div_less)
    have "unat x = unat y" if "unat x div 16 = unat y div 16" "unat x mod 16 = unat y mod 16"
      using that by (metis div_mult_mod_eq)
    then have "hex_digit (unat x div 16) = hex_digit (unat y div 16)
        \<and> hex_digit (unat x mod 16) = hex_digit (unat y mod 16) \<longleftrightarrow> x = y"
      using hex_digit_inject [OF lt(1) lt(1)] hex_digit_inject [OF lt(2) lt(2)]
      by (metis unsigned_word_eqI)
    moreover have "to_hex (z # zs) = hex_digit (unat z div 16) # hex_digit (unat z mod 16) # to_hex zs" for z zs
      by (simp add: to_hex_def)
    ultimately show ?thesis using Cons Cons.IH [of b'] by auto
  qed
qed

section \<open>Timestamps\<close>

text \<open>
  \<^verbatim>\<open>i64\<close> values are integers; subtraction and \<^verbatim>\<open>abs\<close> wrap around, as in a build without overflow
  checks (a build with them panics where they would wrap).
\<close>

definition i64_wrap :: "int \<Rightarrow> int" where
  "i64_wrap i = signed_take_bit 63 i"

definition i64_abs :: "int \<Rightarrow> int" where
  "i64_abs i = (if i < 0 then i64_wrap (- i) else i)"

text \<open>\<^verbatim>\<open>parse::<i64>\<close>.\<close>

definition parse_i64 :: "string \<Rightarrow> int option" where
  "parse_i64 s =
     (let (neg, ds) = (case s of c # cs \<Rightarrow> if c = CHR ''-'' then (True, cs)
           else if c = CHR ''+'' then (False, cs) else (False, s) | [] \<Rightarrow> (False, []));
          v = (if neg then - int (read_digits ds) else int (read_digits ds))
      in if ds \<noteq> [] \<and> list_all is_digit ds \<and> - (2 ^ 63) \<le> v \<and> v < 2 ^ 63 then Some v else None)"

text \<open>\<^verbatim>\<open>(now - timestamp).abs() > max_drift_secs\<close>.\<close>

definition drift_exceeded :: "int \<Rightarrow> int \<Rightarrow> int \<Rightarrow> bool" where
  "drift_exceeded now ts max_drift \<longleftrightarrow> max_drift < i64_abs (i64_wrap (now - ts))"

lemma parse_i64_range: "parse_i64 s = Some v \<Longrightarrow> - (2 ^ 63) \<le> v \<and> v < 2 ^ 63"
  by (auto simp: parse_i64_def Let_def split: prod.splits if_splits)

lemma i64_wrap_id: "- (2 ^ 63) \<le> i \<Longrightarrow> i < 2 ^ 63 \<Longrightarrow> i64_wrap i = i"
  unfolding i64_wrap_def by (rule signed_take_bit_int_eq_self) simp_all

lemma i64_wrap_above: "2 ^ 63 \<le> i \<Longrightarrow> i < 2 ^ 64 \<Longrightarrow> i64_wrap i = i - 2 ^ 64"
proof -
  assume i: "2 ^ 63 \<le> i" "i < 2 ^ 64"
  have "i + 2 ^ 63 = (i - 2 ^ 63) + 2 ^ 64" by simp
  then have "(i + 2 ^ 63) mod 2 ^ 64 = (i - 2 ^ 63) mod 2 ^ 64" by (metis mod_add_self2)
  then have "i64_wrap i = signed_take_bit 63 (i - 2 ^ 64)"
    unfolding i64_wrap_def by (simp add: signed_take_bit_eq_take_bit_shift take_bit_eq_mod)
  also have "\<dots> = i - 2 ^ 64" using i by (intro signed_take_bit_int_eq_self) simp_all
  finally show ?thesis .
qed

text \<open>
  For a clock in range the check is the intended one, except at one point: a timestamp
  \<open>2 ^ 63\<close> seconds before the clock wraps to the least value, whose absolute value is negative.
\<close>

lemma drift_exceeded_iff:
  assumes "0 \<le> now" "now < 2 ^ 62" "0 \<le> d" "d < 2 ^ 61" "- (2 ^ 63) \<le> ts" "ts < 2 ^ 63"
  shows "drift_exceeded now ts d \<longleftrightarrow> d < \<bar>now - ts\<bar> \<and> now - ts \<noteq> 2 ^ 63"
proof (cases "now - ts < 2 ^ 63")
  case True
  then have w: "i64_wrap (now - ts) = now - ts" using assms by (intro i64_wrap_id) simp_all
  have "now - ts < 0 \<Longrightarrow> i64_wrap (ts - now) = ts - now"
    using assms by (intro i64_wrap_id) simp_all
  with w True show ?thesis by (auto simp: drift_exceeded_def i64_abs_def)
next
  case False
  then have w: "i64_wrap (now - ts) = now - ts - 2 ^ 64" using assms by (intro i64_wrap_above) simp_all
  have neg: "now - ts - 2 ^ 64 < 0" using assms by simp
  show ?thesis
  proof (cases "now - ts = 2 ^ 63")
    case True
    then have "i64_wrap (- (now - ts - 2 ^ 64)) = - (2 ^ 63)"
      using i64_wrap_above [of "2 ^ 63"] by simp
    then show ?thesis using w neg True assms by (simp add: drift_exceeded_def i64_abs_def)
  next
    case ne: False
    then have "i64_wrap (- (now - ts - 2 ^ 64)) = 2 ^ 64 - (now - ts)"
      using False assms by (subst i64_wrap_id) simp_all
    then show ?thesis using w neg ne False assms by (simp add: drift_exceeded_def i64_abs_def)
  qed
qed

section \<open>Slack requests\<close>

text \<open>
  A header map gives for a name the header's text, or \<^verbatim>\<open>None\<close> where \<^verbatim>\<open>to_str\<close> fails. The body
  is valid UTF-8, which \<^verbatim>\<open>from_utf8_lossy\<close> leaves as it is.
\<close>

type_synonym headers = "(string, string option) hashmap"

definition header_str :: "headers \<Rightarrow> string \<Rightarrow> string + string" where
  "header_str headers i = (case hm_get headers i of
     Some (Some v) \<Rightarrow> Inr v | _ \<Rightarrow> Inl (''missing '' @ i))"

record slack_verifier =
  signing_secret :: string
  slack_max_drift :: int

definition new_slack_verifier :: "string \<Rightarrow> slack_verifier" where
  "new_slack_verifier secret = \<lparr>signing_secret = secret, slack_max_drift = 300\<rparr>"

definition verify_slack :: "mac \<Rightarrow> int \<Rightarrow> slack_verifier \<Rightarrow> headers \<Rightarrow> string \<Rightarrow> string + unit" where
  "verify_slack hmac now v headers body =
     (case header_str headers ''X-Slack-Request-Timestamp'' of Inl e \<Rightarrow> Inl e | Inr timestamp \<Rightarrow>
      case header_str headers ''X-Slack-Signature'' of Inl e \<Rightarrow> Inl e | Inr signature \<Rightarrow>
      case parse_i64 timestamp of None \<Rightarrow> Inl ''invalid timestamp'' | Some ts \<Rightarrow>
      if drift_exceeded now ts (slack_max_drift v) then Inl ''timestamp too old''
      else (case hmac_sha256_hex hmac (signing_secret v) (''v0:'' @ timestamp @ '':'' @ body) of
          Inl e \<Rightarrow> Inl e
        | Inr digest \<Rightarrow>
            if \<not> constant_time_eq (bytes_of (''v0='' @ digest)) (bytes_of signature)
            then Inl ''signature mismatch'' else Inr ()))"

section \<open>Discord requests\<close>

text \<open>
  The crates: \<^verbatim>\<open>hex::decode\<close>, \<^verbatim>\<open>VerifyingKey::from_bytes\<close>, which refuses some keys, and the
  Ed25519 check of a signature of a message under a key.
\<close>

record ed25519_crates =
  hex_decode :: "string \<Rightarrow> u8 list option"
  key_valid :: "u8 list \<Rightarrow> bool"
  ed25519_ok :: "u8 list \<Rightarrow> u8 list \<Rightarrow> u8 list \<Rightarrow> bool"

definition verify_discord :: "ed25519_crates \<Rightarrow> string \<Rightarrow> headers \<Rightarrow> u8 list \<Rightarrow> string + unit" where
  "verify_discord cr public_key_hex headers body =
     (case header_str headers ''X-Signature-Ed25519'' of Inl e \<Rightarrow> Inl e | Inr signature_hex \<Rightarrow>
      case header_str headers ''X-Signature-Timestamp'' of Inl e \<Rightarrow> Inl e | Inr timestamp \<Rightarrow>
      case hex_decode cr public_key_hex of None \<Rightarrow> Inl ''invalid public key hex'' | Some key \<Rightarrow>
      if length key \<noteq> 32 then Inl ''public key must be 32 bytes''
      else if \<not> key_valid cr key then Inl ''invalid Ed25519 public key''
      else (case hex_decode cr signature_hex of None \<Rightarrow> Inl ''invalid signature hex'' | Some sig \<Rightarrow>
        if length sig \<noteq> 64 then Inl ''signature must be 64 bytes''
        else if ed25519_ok cr key (bytes_of timestamp @ body) sig then Inr ()
        else Inl ''Ed25519 signature verification failed''))"

text \<open>
  An accepted Discord request is signed under the key, but its timestamp is never compared with
  the clock: a captured request is accepted at any later time.
\<close>

lemma verify_discord_accepts:
  "verify_discord cr pk headers body = Inr () \<longleftrightarrow>
     (\<exists>sig_hex ts key sig. hm_get headers ''X-Signature-Ed25519'' = Some (Some sig_hex)
        \<and> hm_get headers ''X-Signature-Timestamp'' = Some (Some ts)
        \<and> hex_decode cr pk = Some key \<and> length key = 32 \<and> key_valid cr key
        \<and> hex_decode cr sig_hex = Some sig \<and> length sig = 64
        \<and> ed25519_ok cr key (bytes_of ts @ body) sig)"
  by (auto simp: verify_discord_def header_str_def split: option.splits sum.splits if_splits)

section \<open>Stored secrets\<close>

definition secret_prefix :: string where
  "secret_prefix = ''enc:v1:''"

text \<open>
  The crates: AES-256-GCM under a key and a nonce of 12 bytes, base64, SHA-256 as the key
  derivation. \<open>nonce\<close> are the bytes \<^verbatim>\<open>thread_rng\<close> gives.
\<close>

record crypto_crates =
  aes_encrypt :: "u8 list \<Rightarrow> u8 list \<Rightarrow> u8 list \<Rightarrow> string + u8 list"
  aes_decrypt :: "u8 list \<Rightarrow> u8 list \<Rightarrow> u8 list \<Rightarrow> string + u8 list"
  b64_encode :: "u8 list \<Rightarrow> string"
  b64_decode :: "string \<Rightarrow> string + u8 list"
  sha256 :: "u8 list \<Rightarrow> u8 list"

definition derive_key :: "crypto_crates \<Rightarrow> string \<Rightarrow> u8 list" where
  "derive_key cr passphrase = sha256 cr (bytes_of passphrase)"

definition text_of :: "u8 list \<Rightarrow> string" where
  "text_of bs = map (\<lambda>b. char_of (unat b)) bs"

definition encrypt_secret ::
    "crypto_crates \<Rightarrow> u8 list \<Rightarrow> string \<Rightarrow> string \<Rightarrow> string + string" where
  "encrypt_secret cr nonce plaintext passphrase =
     (if starts_with plaintext secret_prefix then Inr plaintext
      else (case aes_encrypt cr (derive_key cr passphrase) nonce (bytes_of plaintext) of
          Inl e \<Rightarrow> Inl (''aes encrypt failed: '' @ e)
        | Inr ciphertext \<Rightarrow> Inr (secret_prefix @ b64_encode cr (nonce @ ciphertext))))"

text \<open>The last step, \<^verbatim>\<open>String::from_utf8\<close>, is taken for plain texts that are valid UTF-8.\<close>

definition decrypt_secret :: "crypto_crates \<Rightarrow> string \<Rightarrow> string \<Rightarrow> string + string" where
  "decrypt_secret cr stored passphrase =
     (case strip_prefix stored secret_prefix of
        None \<Rightarrow> Inr stored
      | Some b64 \<Rightarrow> (case b64_decode cr b64 of
          Inl e \<Rightarrow> Inl (''base64 decode failed: '' @ e)
        | Inr payload \<Rightarrow>
            if length payload < 12 then Inl ''encrypted payload shorter than nonce''
            else (case aes_decrypt cr (derive_key cr passphrase) (take 12 payload) (drop 12 payload) of
                Inl e \<Rightarrow> Inl (''aes decrypt failed: '' @ e)
              | Inr plaintext \<Rightarrow> Inr (text_of plaintext))))"

text \<open>The documented behaviour of the crates: decoding and decryption undo their inverses.\<close>

definition crates_ok :: "crypto_crates \<Rightarrow> bool" where
  "crates_ok cr \<longleftrightarrow> (\<forall>bs. b64_decode cr (b64_encode cr bs) = Inr bs)
     \<and> (\<forall>k n p c. aes_encrypt cr k n p = Inr c \<longrightarrow> aes_decrypt cr k n c = Inr p)"

lemma strip_prefix_append: "strip_prefix (p @ s) p = Some s"
  by (simp add: strip_prefix_def starts_with_def)

lemma unat_of_char [simp]: "unat (of_char c :: u8) = of_char c"
proof -
  have "(of_char c :: nat) < 256" by simp
  then have "unat (of_nat (of_char c) :: u8) = of_char c" by (simp add: unat_of_nat)
  then show ?thesis by (simp only: of_nat_of_char)
qed

lemma of_char_unat [simp]: "of_char (char_of (unat b)) = (b :: u8)"
proof -
  have "unat b < 2 ^ LENGTH(8)" by (rule unsigned_less)
  then have "(of_char (char_of (unat b)) :: nat) = unat b" by simp
  then show ?thesis by (metis unat_of_char unsigned_word_eqI)
qed

lemma text_of_bytes [simp]: "text_of (bytes_of s) = s"
  by (simp add: text_of_def bytes_of_def comp_def)

lemma decrypt_encrypted:
  assumes "crates_ok cr" "length nonce = 12" "\<not> starts_with p secret_prefix"
    and "encrypt_secret cr nonce p key = Inr stored"
  shows "decrypt_secret cr stored key = Inr p"
proof -
  obtain c where c: "aes_encrypt cr (derive_key cr key) nonce (bytes_of p) = Inr c"
    "stored = secret_prefix @ b64_encode cr (nonce @ c)"
    using assms(3,4) by (auto simp: encrypt_secret_def split: sum.splits)
  have "aes_decrypt cr (derive_key cr key) nonce c = Inr (bytes_of p)"
    using assms(1) c(1) by (simp add: crates_ok_def)
  then show ?thesis
    using c(2) assms(1,2) by (simp add: decrypt_secret_def strip_prefix_append crates_ok_def)
qed

text \<open>
  What \<^verbatim>\<open>encrypt_secret\<close> stores for a secret, \<^verbatim>\<open>decrypt_secret\<close> reads back under the same
  passphrase; encrypting a stored value again changes nothing; a value without the marker
  passes through unchanged.
\<close>

theorem secret_roundtrip:
  assumes "crates_ok cr" "length nonce = 12" "\<not> starts_with p secret_prefix"
    and "encrypt_secret cr nonce p key = Inr stored"
  shows "decrypt_secret cr stored key = Inr p \<and> encrypt_secret cr nonce' stored key' = Inr stored
    \<and> decrypt_secret cr p key = Inr p"
proof -
  obtain c where c: "stored = secret_prefix @ c"
    using assms(3,4) by (auto simp: encrypt_secret_def split: sum.splits)
  have "decrypt_secret cr stored key = Inr p" using assms by (rule decrypt_encrypted)
  moreover have "encrypt_secret cr nonce' stored key' = Inr stored"
    using c by (simp add: encrypt_secret_def starts_with_def)
  moreover have "strip_prefix p secret_prefix = None"
    using assms(3) by (simp add: strip_prefix_def)
  ultimately show ?thesis by (simp add: decrypt_secret_def)
qed

text \<open>Crates that satisfy the contract: no encryption and a text of the bytes.\<close>

definition toy_crates :: crypto_crates where
  "toy_crates = \<lparr>aes_encrypt = \<lambda>k n p. Inr p, aes_decrypt = \<lambda>k n c. Inr c,
     b64_encode = text_of, b64_decode = \<lambda>s. Inr (bytes_of s), sha256 = \<lambda>bs. bs\<rparr>"

lemma bytes_of_text [simp]: "bytes_of (text_of bs) = bs"
  by (simp add: text_of_def bytes_of_def comp_def)

theorem secret_roundtrip_witness:
  "decrypt_secret toy_crates (secret_prefix @ text_of (replicate 12 7 @ bytes_of ''token'')) ''k''
     = Inr ''token''"
proof -
  have "encrypt_secret toy_crates (replicate 12 7) ''token'' ''k''
      = Inr (secret_prefix @ text_of (replicate 12 7 @ bytes_of ''token''))"
    by (simp add: encrypt_secret_def toy_crates_def starts_with_def secret_prefix_def)
  moreover have "crates_ok toy_crates" by (simp add: crates_ok_def toy_crates_def)
  moreover have "\<not> starts_with ''token'' secret_prefix"
    by (simp add: starts_with_def secret_prefix_def)
  ultimately show ?thesis using secret_roundtrip [of toy_crates "replicate 12 7" "''token''" "''k''"]
    by simp
qed

text \<open>
  A secret that itself starts with the marker is stored in plain text, and reading it fails or
  gives something else.
\<close>

lemma marked_secret_lost:
  "encrypt_secret toy_crates (replicate 12 7) ''enc:v1:pw'' ''k'' = Inr ''enc:v1:pw''
   \<and> decrypt_secret toy_crates ''enc:v1:pw'' ''k'' = Inl ''encrypted payload shorter than nonce''"
  by (simp add: encrypt_secret_def decrypt_secret_def strip_prefix_def starts_with_def
      secret_prefix_def toy_crates_def bytes_of_def)

end
