(* ===== verification/Auth.thy ===== *)
theory Auth
  imports Crypto
begin

text \<open>
  The \<^verbatim>\<open>AuthManager\<close> of \<^verbatim>\<open>src/webhook/mod.rs\<close>: API key, drift of the timestamp, replay cache and
  signature of a request, from headers or from query parameters. The clock is an argument of
  each call; calls come in the order of their clocks.

  Main results: a request is accepted exactly when key, drift, nonce and signature are right;
  no nonce is accepted twice under one timestamp, so a captured request cannot be replayed as
  it is; but the signed text does not mark where the nonce ends, so a request can be replayed
  with the boundary moved.
\<close>

section \<open>State\<close>

record auth_manager =
  api_key :: string
  api_secret :: string
  max_drift_secs :: int
  nonce_cache :: "(string, int) hashmap"

definition new_auth :: "string \<Rightarrow> string \<Rightarrow> int \<Rightarrow> auth_manager" where
  "new_auth key secret drift = \<lparr>api_key = key, api_secret = secret, max_drift_secs = drift,
     nonce_cache = []\<rparr>"

definition sign_payload :: "mac \<Rightarrow> string \<Rightarrow> string \<Rightarrow> string \<Rightarrow> string \<Rightarrow> string + string" where
  "sign_payload hmac secret timestamp nonce body =
     hmac_sha256_hex hmac secret (timestamp @ ''.'' @ nonce @ ''.'' @ body)"

text \<open>\<^verbatim>\<open>retain\<close> keeps the nonces of twice the drift.\<close>

definition cleanup_old_nonces :: "int \<Rightarrow> auth_manager \<Rightarrow> auth_manager" where
  "cleanup_old_nonces now a =
     a\<lparr>nonce_cache := filter (\<lambda>(k, ts). i64_wrap (now - i64_wrap (max_drift_secs a * 2)) \<le> ts)
       (nonce_cache a)\<rparr>"

section \<open>Verification\<close>

text \<open>\<^verbatim>\<open>header_value\<close>.\<close>

definition header_value :: "headers \<Rightarrow> string \<Rightarrow> string + string" where
  "header_value headers i = (case hm_get headers i of
     None \<Rightarrow> Inl (''missing header: '' @ i)
   | Some None \<Rightarrow> Inl (''invalid header encoding: '' @ i)
   | Some (Some v) \<Rightarrow> Inr v)"

text \<open>The part the two entry points share, from the drift check on.\<close>

definition verify_fresh ::
    "mac \<Rightarrow> int \<Rightarrow> int \<Rightarrow> string \<Rightarrow> string \<Rightarrow> string \<Rightarrow> string \<Rightarrow> auth_manager
      \<Rightarrow> (string + unit) \<times> auth_manager" where
  "verify_fresh hmac now timestamp timestamp_raw nonce signature body a =
     (if drift_exceeded now timestamp (max_drift_secs a) then (Inl ''timestamp drift exceeded'', a)
      else
        let a1 = cleanup_old_nonces now a in
        if hm_contains (nonce_cache a1) nonce then (Inl ''nonce reuse detected'', a1)
        else (case sign_payload hmac (api_secret a1) timestamp_raw nonce body of
            Inl e \<Rightarrow> (Inl e, a1)
          | Inr expected \<Rightarrow>
              if \<not> constant_time_eq (bytes_of expected) (bytes_of signature)
              then (Inl ''signature mismatch'', a1)
              else (Inr (), a1\<lparr>nonce_cache := hm_insert (nonce_cache a1) nonce now\<rparr>)))"

definition verify_query_params ::
    "mac \<Rightarrow> int \<Rightarrow> string \<Rightarrow> string \<Rightarrow> string \<Rightarrow> string \<Rightarrow> string \<Rightarrow> auth_manager
      \<Rightarrow> (string + unit) \<times> auth_manager" where
  "verify_query_params hmac now key signature timestamp_raw nonce body a =
     (if key \<noteq> api_key a then (Inl ''invalid api key'', a)
      else (case parse_i64 timestamp_raw of
          None \<Rightarrow> (Inl ''invalid timestamp'', a)
        | Some timestamp \<Rightarrow> verify_fresh hmac now timestamp timestamp_raw nonce signature body a))"

definition verify_headers ::
    "mac \<Rightarrow> int \<Rightarrow> headers \<Rightarrow> string \<Rightarrow> auth_manager \<Rightarrow> (string + unit) \<times> auth_manager" where
  "verify_headers hmac now headers body a =
     (case header_value headers ''X-API-Key'' of Inl e \<Rightarrow> (Inl e, a) | Inr key \<Rightarrow>
      if key \<noteq> api_key a then (Inl ''invalid api key'', a)
      else (case header_value headers ''X-Signature'' of Inl e \<Rightarrow> (Inl e, a) | Inr signature \<Rightarrow>
        case header_value headers ''X-Timestamp'' of Inl e \<Rightarrow> (Inl e, a) | Inr timestamp_raw \<Rightarrow>
        case header_value headers ''X-Nonce'' of Inl e \<Rightarrow> (Inl e, a) | Inr nonce \<Rightarrow>
        case parse_i64 timestamp_raw of
          None \<Rightarrow> (Inl ''invalid timestamp header'', a)
        | Some timestamp \<Rightarrow> verify_fresh hmac now timestamp timestamp_raw nonce signature body a))"

definition sign :: "mac \<Rightarrow> string \<Rightarrow> string \<Rightarrow> string \<Rightarrow> auth_manager \<Rightarrow> string + string" where
  "sign hmac timestamp nonce body a = sign_payload hmac (api_secret a) timestamp nonce body"

section \<open>What is accepted\<close>

lemma bytes_of_inject [simp]: "bytes_of s = bytes_of t \<longleftrightarrow> s = t"
  by (metis text_of_bytes)

lemma verify_fresh_cases:
  obtains (reject) e a' where "verify_fresh hmac now ts raw nonce sig body a = (Inl e, a')"
      "a' = a \<or> a' = cleanup_old_nonces now a"
    | (accept) "verify_fresh hmac now ts raw nonce sig body a
        = (Inr (), (cleanup_old_nonces now a)\<lparr>nonce_cache :=
             hm_insert (nonce_cache (cleanup_old_nonces now a)) nonce now\<rparr>)"
      "\<not> drift_exceeded now ts (max_drift_secs a)"
      "\<not> hm_contains (nonce_cache (cleanup_old_nonces now a)) nonce"
      "sign_payload hmac (api_secret a) raw nonce body = Inr sig"
proof -
  let ?a = "cleanup_old_nonces now a"
  have s: "api_secret ?a = api_secret a" by (simp add: cleanup_old_nonces_def)
  show thesis
  proof (cases "\<not> drift_exceeded now ts (max_drift_secs a) \<and> \<not> hm_contains (nonce_cache ?a) nonce
      \<and> sign_payload hmac (api_secret a) raw nonce body = Inr sig")
    case True
    then show thesis
      by (intro accept) (simp_all add: verify_fresh_def Let_def s constant_time_eq_eq)
  next
    case False
    then have "\<exists>e a'. verify_fresh hmac now ts raw nonce sig body a = (Inl e, a') \<and> (a' = a \<or> a' = ?a)"
      by (cases "sign_payload hmac (api_secret a) raw nonce body")
        (auto simp: verify_fresh_def Let_def s constant_time_eq_eq)
    then show thesis using reject by blast
  qed
qed

text \<open>The requests of both entry points.\<close>

datatype auth_call =
    ViaHeaders int headers string
  | ViaQuery int string string string string string

fun auth_step :: "mac \<Rightarrow> auth_call \<Rightarrow> auth_manager \<Rightarrow> (string + unit) \<times> auth_manager" where
  "auth_step hmac (ViaHeaders now headers body) a = verify_headers hmac now headers body a"
| "auth_step hmac (ViaQuery now key sig ts nonce body) a = verify_query_params hmac now key sig ts nonce body a"

fun call_now :: "auth_call \<Rightarrow> int" where
  "call_now (ViaHeaders now headers body) = now"
| "call_now (ViaQuery now key sig ts nonce body) = now"

text \<open>Key, signature, timestamp, nonce and body of a request.\<close>

definition header_or_empty :: "headers \<Rightarrow> string \<Rightarrow> string" where
  "header_or_empty headers i = (case header_value headers i of Inl e \<Rightarrow> [] | Inr v \<Rightarrow> v)"

fun call_parts :: "auth_call \<Rightarrow> string \<times> string \<times> string \<times> string \<times> string" where
  "call_parts (ViaHeaders now headers body) =
     (header_or_empty headers ''X-API-Key'', header_or_empty headers ''X-Signature'',
      header_or_empty headers ''X-Timestamp'', header_or_empty headers ''X-Nonce'', body)"
| "call_parts (ViaQuery now key sig ts nonce body) = (key, sig, ts, nonce, body)"

definition call_id :: "auth_call \<Rightarrow> string \<times> string" where
  "call_id c = (case call_parts c of (key, sig, ts, nonce, body) \<Rightarrow> (ts, nonce))"

text \<open>A step is a rejection, which at most cleans the cache, or the acceptance of a right request.\<close>

lemma auth_step_cases:
  obtains (reject) e a' where "auth_step hmac c a = (Inl e, a')"
      "a' = a \<or> a' = cleanup_old_nonces (call_now c) a"
    | (accept) key sig raw nonce body ts where "call_parts c = (key, sig, raw, nonce, body)"
      "auth_step hmac c a = (Inr (), (cleanup_old_nonces (call_now c) a)\<lparr>nonce_cache :=
         hm_insert (nonce_cache (cleanup_old_nonces (call_now c) a)) nonce (call_now c)\<rparr>)"
      "key = api_key a" "parse_i64 raw = Some ts"
      "\<not> drift_exceeded (call_now c) ts (max_drift_secs a)"
      "\<not> hm_contains (nonce_cache (cleanup_old_nonces (call_now c) a)) nonce"
      "sign_payload hmac (api_secret a) raw nonce body = Inr sig"
proof (cases c)
  case (ViaHeaders now headers body)
  show thesis
  proof (cases "\<exists>e. verify_headers hmac now headers body a = (Inl e, a)")
    case True
    then show thesis using reject ViaHeaders by auto
  next
    case False
    then obtain sig raw nonce ts where h:
      "header_value headers ''X-API-Key'' = Inr (api_key a)" "header_value headers ''X-Signature'' = Inr sig"
      "header_value headers ''X-Timestamp'' = Inr raw" "header_value headers ''X-Nonce'' = Inr nonce"
      "parse_i64 raw = Some ts"
      "verify_headers hmac now headers body a = verify_fresh hmac now ts raw nonce sig body a"
      by (auto simp: verify_headers_def split: sum.splits if_splits option.splits)
    have parts: "call_parts c = (api_key a, sig, raw, nonce, body)"
      using h(1-4) ViaHeaders by (simp add: header_or_empty_def)
    show thesis
      by (cases rule: verify_fresh_cases [of hmac now ts raw nonce sig body a])
        (use h(5,6) parts ViaHeaders reject accept in auto)
  qed
next
  case (ViaQuery now key sig raw nonce body)
  show thesis
  proof (cases "\<exists>e. verify_query_params hmac now key sig raw nonce body a = (Inl e, a)")
    case True
    then show thesis using reject ViaQuery by auto
  next
    case False
    then obtain ts where h: "key = api_key a" "parse_i64 raw = Some ts"
      "verify_query_params hmac now key sig raw nonce body a = verify_fresh hmac now ts raw nonce sig body a"
      by (auto simp: verify_query_params_def split: if_splits option.splits)
    show thesis
      by (cases rule: verify_fresh_cases [of hmac now ts raw nonce sig body a])
        (use h ViaQuery reject accept in auto)
  qed
qed

text \<open>
  A request is accepted exactly when its key is right, its timestamp parses and lies
  within the drift, its nonce is not remembered and its signature is the code of timestamp,
  nonce and body under the secret; a rejection remembers nothing.
\<close>

theorem verify_accepts_iff:
  "fst (verify_query_params hmac now key sig raw nonce body a) = Inr () \<longleftrightarrow>
     key = api_key a
     \<and> (case parse_i64 raw of None \<Rightarrow> False | Some ts \<Rightarrow> \<not> drift_exceeded now ts (max_drift_secs a))
     \<and> \<not> hm_contains (nonce_cache (cleanup_old_nonces now a)) nonce
     \<and> hmac_sha256_hex hmac (api_secret a) (raw @ ''.'' @ nonce @ ''.'' @ body) = Inr sig"
  unfolding sign_payload_def [symmetric]
  by (auto simp: verify_query_params_def verify_fresh_def Let_def constant_time_eq_eq
      cleanup_old_nonces_def split: option.splits sum.splits)

section \<open>No replay\<close>

fun accepted_ids :: "mac \<Rightarrow> auth_call list \<Rightarrow> auth_manager \<Rightarrow> (string \<times> string) list" where
  "accepted_ids hmac [] a = []"
| "accepted_ids hmac (c # cs) a = (case auth_step hmac c a of
     (Inl e, a') \<Rightarrow> accepted_ids hmac cs a'
   | (Inr u, a') \<Rightarrow> call_id c # accepted_ids hmac cs a')"

lemma hm_get_filter:
  "hm_wf m \<Longrightarrow> hm_get (filter (\<lambda>(k, v). P v) m) k = (case hm_get m k of
     None \<Rightarrow> None | Some v \<Rightarrow> if P v then Some v else None)"
  by (induction m) (auto simp: hm_get_def hm_wf_def hm_keys_def map_of_eq_None_iff
      split: option.splits if_splits)

lemma hm_wf_filter: "hm_wf m \<Longrightarrow> hm_wf (filter P m)"
  by (simp add: hm_wf_def hm_keys_def distinct_map_filter)

definition clock_ok :: "int \<Rightarrow> bool" where
  "clock_ok now \<longleftrightarrow> 0 \<le> now \<and> now < 2 ^ 62"

definition auth_ok :: "auth_manager \<Rightarrow> bool" where
  "auth_ok a \<longleftrightarrow> hm_wf (nonce_cache a) \<and> 0 \<le> max_drift_secs a \<and> max_drift_secs a < 2 ^ 60"

lemma cleanup_get:
  assumes "auth_ok a" "clock_ok now"
  shows "hm_get (nonce_cache (cleanup_old_nonces now a)) n =
    (case hm_get (nonce_cache a) n of None \<Rightarrow> None
     | Some t \<Rightarrow> if now - 2 * max_drift_secs a \<le> t then Some t else None)"
proof -
  have "i64_wrap (max_drift_secs a * 2) = 2 * max_drift_secs a"
    using assms(1) by (subst i64_wrap_id) (auto simp: auth_ok_def)
  moreover have "i64_wrap (now - 2 * max_drift_secs a) = now - 2 * max_drift_secs a"
    using assms by (intro i64_wrap_id) (auto simp: auth_ok_def clock_ok_def)
  ultimately show ?thesis
    using assms(1) by (simp add: cleanup_old_nonces_def hm_get_filter auth_ok_def)
qed

lemma cleanup_ok: "auth_ok a \<Longrightarrow> auth_ok (cleanup_old_nonces now a)"
  by (simp add: auth_ok_def cleanup_old_nonces_def hm_wf_filter)

text \<open>
  An accepted request is blocked from \<open>now\<close> on: its nonce is remembered, or so much time has
  passed that its timestamp is out of the drift for good.
\<close>

definition blocked :: "int \<Rightarrow> auth_manager \<Rightarrow> string \<times> string \<Rightarrow> bool" where
  "blocked now a q \<longleftrightarrow> (case q of (raw, n) \<Rightarrow> \<exists>ts t. parse_i64 raw = Some ts
     \<and> 0 \<le> t \<and> t \<le> now \<and> \<not> drift_exceeded t ts (max_drift_secs a)
     \<and> ((\<exists>t'. hm_get (nonce_cache a) n = Some t' \<and> t \<le> t') \<or> t + 2 * max_drift_secs a < now))"

lemma blocked_not_accepted:
  assumes "auth_ok a" "clock_ok now" "blocked now' a (raw, n)" "now' \<le> now"
    and "parse_i64 raw = Some ts" "\<not> drift_exceeded now ts (max_drift_secs a)"
  shows "hm_contains (nonce_cache (cleanup_old_nonces now a)) n"
proof -
  let ?d = "max_drift_secs a"
  have d: "0 \<le> ?d" "?d < 2 ^ 61" using assms(1) by (simp_all add: auth_ok_def)
  obtain t where t: "0 \<le> t" "t \<le> now'" "\<not> drift_exceeded t ts ?d"
    "(\<exists>t'. hm_get (nonce_cache a) n = Some t' \<and> t \<le> t') \<or> t + 2 * ?d < now'"
    using assms(3,5) by (auto simp: blocked_def)
  have r: "- (2 ^ 63) \<le> ts" "ts < 2 ^ 63" using parse_i64_range [OF assms(5)] by simp_all
  have c: "0 \<le> now" "now < 2 ^ 62" using assms(2) by (simp_all add: clock_ok_def)
  have near: "\<bar>t - ts\<bar> \<le> ?d \<or> t - ts = 2 ^ 63"
    using drift_exceeded_iff [OF t(1) _ d r] t(1,2,3) assms(4) c by fastforce
  have near': "\<bar>now - ts\<bar> \<le> ?d \<or> now - ts = 2 ^ 63"
    using drift_exceeded_iff [OF c d r] assms(6) by fastforce
  have "now \<le> t + 2 * ?d" using near near' d c t(1,2) assms(4) by simp linarith
  then obtain t' where "hm_get (nonce_cache a) n = Some t'" "t \<le> t'"
    using t(4) assms(4) by auto
  with \<open>now \<le> t + 2 * ?d\<close> show ?thesis
    by (simp add: hm_contains_def cleanup_get [OF assms(1,2)])
qed

lemma blocked_later:
  assumes "auth_ok a" "clock_ok now" "now' \<le> now" "blocked now' a q"
  shows "blocked now a q" "blocked now (cleanup_old_nonces now a) q"
proof -
  obtain raw n where q: "q = (raw, n)" by fastforce
  obtain ts t where t: "parse_i64 raw = Some ts" "0 \<le> t" "t \<le> now'"
    "\<not> drift_exceeded t ts (max_drift_secs a)"
    "(\<exists>t'. hm_get (nonce_cache a) n = Some t' \<and> t \<le> t') \<or> t + 2 * max_drift_secs a < now'"
    using assms(4) q by (auto simp: blocked_def)
  then show "blocked now a q" using assms(3) q unfolding blocked_def by fastforce
  have "max_drift_secs (cleanup_old_nonces now a) = max_drift_secs a"
    by (simp add: cleanup_old_nonces_def)
  with t show "blocked now (cleanup_old_nonces now a) q"
    using assms(3) q unfolding blocked_def cleanup_get [OF assms(1,2)] by fastforce
qed

lemma accepted_not_blocked:
  assumes "auth_ok a" "\<forall>c\<in>set cs. clock_ok (call_now c) \<and> now \<le> call_now c"
    and "sorted (map call_now cs)" "\<forall>q\<in>set old. blocked now a q"
  shows "distinct (accepted_ids hmac cs a) \<and> set old \<inter> set (accepted_ids hmac cs a) = {}"
  using assms
proof (induction cs arbitrary: a now old)
  case (Cons c cs)
  let ?now = "call_now c" and ?c = "cleanup_old_nonces (call_now c) a"
  have clk: "clock_ok ?now" "now \<le> ?now" using Cons.prems(2) by simp_all
  have cs: "\<forall>c'\<in>set cs. clock_ok (call_now c') \<and> ?now \<le> call_now c'" "sorted (map call_now cs)"
    using Cons.prems(2,3) by simp_all
  have old: "\<forall>q\<in>set old. blocked ?now a q" "\<forall>q\<in>set old. blocked ?now ?c q"
    using blocked_later [OF Cons.prems(1) clk] Cons.prems(4) by blast+
  show ?case
  proof (cases rule: auth_step_cases [of hmac c a])
    case (reject e a')
    have "auth_ok a'" "\<forall>q\<in>set old. blocked ?now a' q"
      using reject(2) Cons.prems(1) cleanup_ok old by auto
    from Cons.IH [OF this(1) cs this(2)] reject(1) show ?thesis by simp
  next
    case (accept key sig raw nonce body ts)
    let ?a = "?c\<lparr>nonce_cache := hm_insert (nonce_cache ?c) nonce ?now\<rparr>"
    have id: "call_id c = (raw, nonce)" using accept(1) by (simp add: call_id_def)
    have fresh: "call_id c \<notin> set old"
      using blocked_not_accepted [OF Cons.prems(1) clk(1) _ clk(2) accept(4,5)] Cons.prems(4)
        accept(6) id by auto
    have ok: "auth_ok ?a" using cleanup_ok [OF Cons.prems(1)] by (simp add: auth_ok_def hm_wf_insert)
    have "blocked ?now ?a (call_id c)"
      using accept(4,5) clk(1) id by (auto simp: blocked_def hm_get_insert clock_ok_def cleanup_old_nonces_def)
    moreover have "\<forall>q\<in>set old. blocked ?now ?a q"
    proof
      fix q assume "q \<in> set old"
      then have "blocked ?now ?c q" using old(2) by blast
      then show "blocked ?now ?a q"
        by (cases q) (fastforce simp: blocked_def hm_get_insert)
    qed
    ultimately have "\<forall>q\<in>set (call_id c # old). blocked ?now ?a q" by simp
    from Cons.IH [OF ok cs this] accept(2) fresh show ?thesis by auto
  qed
qed simp



text \<open>A toy code, the length of the signed text as one byte, for the concrete instances.\<close>

definition toy_mac :: mac where
  "toy_mac secret msg = Inr [of_nat (length msg)]"


section \<open>The boundary of the nonce\<close>

text \<open>The signed text does not say where the nonce ends.\<close>

lemma sign_payload_boundary:
  "sign_payload hmac secret ts (n @ ''.'' @ b1) b2 = sign_payload hmac secret ts n (b1 @ ''.'' @ b2)"
  by (simp add: sign_payload_def)

text \<open>
  A captured request whose body has a dot is accepted a second time, with the same
  signature and timestamp, when the text before the dot is moved from the body to the nonce.
\<close>

theorem boundary_replay:
  assumes "verify_query_params hmac now key sig raw n (b1 @ ''.'' @ b2) a = (Inr (), a')"
    and "\<not> hm_contains (nonce_cache a') (n @ ''.'' @ b1)"
  shows "fst (verify_query_params hmac now key sig raw (n @ ''.'' @ b1) b2 a') = Inr ()"
proof -
  obtain ts where k: "key = api_key a" "parse_i64 raw = Some ts"
    and v: "verify_fresh hmac now ts raw n sig (b1 @ ''.'' @ b2) a = (Inr (), a')"
    using assms(1) by (auto simp: verify_query_params_def split: if_splits option.splits)
  show ?thesis
  proof (cases rule: verify_fresh_cases [of hmac now ts raw n sig "b1 @ ''.'' @ b2" a])
    case accept
    have a': "api_key a' = api_key a" "api_secret a' = api_secret a" "max_drift_secs a' = max_drift_secs a"
      using accept(1) v by (auto simp: cleanup_old_nonces_def)
    have "\<not> hm_contains (nonce_cache (cleanup_old_nonces now a')) (n @ ''.'' @ b1)"
      using assms(2) by (auto simp: hm_contains_def hm_get_def cleanup_old_nonces_def map_of_eq_None_iff)
    then show ?thesis
      using k accept(2,4) a'
      by (simp add: verify_query_params_def verify_fresh_def Let_def constant_time_eq_eq
          sign_payload_boundary cleanup_old_nonces_def del: append.simps)
  qed (use v in auto)
qed

lemma boundary_replay_witness:
  "fst (verify_query_params toy_mac 1000 ''k'' ''0a'' ''1000'' (''n'' @ ''.'' @ ''x'') ''y''
     (snd (verify_query_params toy_mac 1000 ''k'' ''0a'' ''1000'' ''n'' (''x'' @ ''.'' @ ''y'')
       (new_auth ''k'' ''s'' 300)))) = Inr ()"
  by (rule boundary_replay [where a = "new_auth ''k'' ''s'' 300" and n = "''n''"]) code_simp+

text \<open>The subtraction can wrap around: one timestamp, 2^63 seconds back, always passes as fresh.\<close>

lemma drift_overflow:
  assumes "0 \<le> now" "now < 2 ^ 62" "0 \<le> d" "d < 2 ^ 61"
  shows "\<not> drift_exceeded now (now - 2 ^ 63) d"
  using assms by (subst drift_exceeded_iff) simp_all

end
