(* ===== verification/Webhooks.thy ===== *)
theory Webhooks
  imports Auth
begin

text \<open>
  The \<^verbatim>\<open>WebhookDispatcher\<close> of \<^verbatim>\<open>src/webhook/mod.rs\<close>: the choice of the endpoints of an event and
  the delivery to each, three attempts at most. The list of endpoints and the HTTP client
  answer from outside; so do the clock and the fresh identifiers. What the dispatcher stores
  through \<^verbatim>\<open>insert_webhook_delivery\<close> is its result; an error of that call is ignored by the code.

  Main results: each matching endpoint gets exactly one stored delivery, delivered within three
  attempts or a dead letter; a client that fails never makes the dispatch fail.
\<close>

section \<open>Data\<close>

record webhook_endpoint =
  wh_id :: string
  wh_url :: string
  wh_events :: "string list"
  wh_secret :: string
  wh_enabled :: bool

text \<open>The answer of the HTTP client: a status code or an error.\<close>

datatype send_result = Responded nat | SendFailed string

definition status_is_success :: "nat \<Rightarrow> bool" where
  "status_is_success c \<longleftrightarrow> 200 \<le> c \<and> c < 300"

record delivery =
  dl_endpoint :: string
  dl_event :: string
  dl_event_id :: string
  dl_url :: string
  dl_attempts :: nat
  dl_delivered :: bool
  dl_dead_letter :: bool
  dl_status :: "nat option"
  dl_error :: "string option"

text \<open>A signed request to an endpoint.\<close>

record webhook_request =
  rq_url :: string
  rq_api_key :: string
  rq_timestamp :: string
  rq_nonce :: string
  rq_signature :: string
  rq_idempotency_key :: string
  rq_body :: string

text \<open>
  What comes from outside while one endpoint is served: the identifier of the event, the
  serialised body, and for each attempt the timestamp, the nonce and the answer of the client.
\<close>

record attempt_env =
  at_timestamp :: string
  at_nonce :: string
  at_answer :: send_result

record endpoint_env =
  ee_event_id :: string
  ee_body :: "string + string"
  ee_attempts :: "nat \<Rightarrow> attempt_env"

section \<open>Delivery\<close>

definition delivery_of ::
    "webhook_endpoint \<Rightarrow> string \<Rightarrow> string \<Rightarrow> nat \<Rightarrow> bool \<Rightarrow> nat option \<Rightarrow> string option \<Rightarrow> delivery" where
  "delivery_of ep event event_id attempt delivered status err =
     \<lparr>dl_endpoint = wh_id ep, dl_event = event, dl_event_id = event_id, dl_url = wh_url ep,
      dl_attempts = attempt, dl_delivered = delivered, dl_dead_letter = \<not> delivered,
      dl_status = status, dl_error = err\<rparr>"

text \<open>
  The attempts from number \<open>attempt\<close> on, \<open>left\<close> of them; the requests sent are collected, and
  dropped from the result when signing fails. A
  status answer leaves its code in \<^verbatim>\<open>last_status\<close>; an error of the client leaves it as it was.
  The text of a status is its code and reason; \<open>show_status\<close> is \<^verbatim>\<open>StatusCode\<close>'s display.
\<close>

fun attempt_deliveries ::
    "mac \<Rightarrow> (nat \<Rightarrow> string) \<Rightarrow> auth_manager \<Rightarrow> webhook_endpoint \<Rightarrow> string \<Rightarrow> endpoint_env \<Rightarrow> string
      \<Rightarrow> nat \<Rightarrow> nat \<Rightarrow> nat option \<Rightarrow> string option \<Rightarrow> string + webhook_request list \<times> delivery" where
  "attempt_deliveries hmac show_status auth ep event env body attempt 0 last_status last_error =
     Inr ([], delivery_of ep event (ee_event_id env) 3 False last_status last_error)"
| "attempt_deliveries hmac show_status auth ep event env body attempt (Suc left) last_status last_error =
     (let a = ee_attempts env attempt in
      case sign_payload hmac (wh_secret ep) (at_timestamp a) (at_nonce a) body of
        Inl e \<Rightarrow> Inl e
      | Inr signature \<Rightarrow>
          let rq = \<lparr>rq_url = wh_url ep, rq_api_key = api_key auth, rq_timestamp = at_timestamp a,
                    rq_nonce = at_nonce a, rq_signature = signature,
                    rq_idempotency_key = ee_event_id env, rq_body = body\<rparr> in
          (case at_answer a of
             Responded c \<Rightarrow>
               if status_is_success c \<or> c = 409
               then Inr ([rq], delivery_of ep event (ee_event_id env) attempt True (Some c) None)
               else map_sum id (apfst (Cons rq)) (attempt_deliveries hmac show_status auth ep event env body
                      (attempt + 1) left (Some c) (Some (''status '' @ show_status c)))
           | SendFailed e \<Rightarrow>
               map_sum id (apfst (Cons rq)) (attempt_deliveries hmac show_status auth ep event env body
                      (attempt + 1) left last_status (Some e))))"

definition deliver ::
    "mac \<Rightarrow> (nat \<Rightarrow> string) \<Rightarrow> auth_manager \<Rightarrow> webhook_endpoint \<Rightarrow> string \<Rightarrow> endpoint_env
      \<Rightarrow> string + webhook_request list \<times> delivery" where
  "deliver hmac show_status auth ep event env = (case ee_body env of
     Inl e \<Rightarrow> Inl e
   | Inr body \<Rightarrow> attempt_deliveries hmac show_status auth ep event env body 1 3 None None)"

text \<open>
  The loop over the endpoints. The deliveries of the endpoints served so far stay stored when a
  later one fails; the second component is the result of the call.
\<close>

fun dispatch_with_endpoints ::
    "mac \<Rightarrow> (nat \<Rightarrow> string) \<Rightarrow> auth_manager \<Rightarrow> (webhook_endpoint \<times> endpoint_env) list \<Rightarrow> string
      \<Rightarrow> delivery list \<times> (string + unit)" where
  "dispatch_with_endpoints hmac show_status auth [] event = ([], Inr ())"
| "dispatch_with_endpoints hmac show_status auth ((ep, env) # eps) event =
     (case deliver hmac show_status auth ep event env of
        Inl e \<Rightarrow> ([], Inl e)
      | Inr (rqs, d) \<Rightarrow> apfst (Cons d) (dispatch_with_endpoints hmac show_status auth eps event))"

section \<open>The endpoints of an event\<close>

definition matching_endpoints :: "string \<Rightarrow> webhook_endpoint list \<Rightarrow> webhook_endpoint list" where
  "matching_endpoints event eps = filter (\<lambda>ep. wh_enabled ep \<and> list_ex (\<lambda>e. e = event) (wh_events ep)) eps"

text \<open>\<open>listed\<close> is the answer of \<^verbatim>\<open>list_webhooks\<close>, \<open>envs\<close> what happens while an endpoint is served.\<close>

definition dispatch ::
    "mac \<Rightarrow> (nat \<Rightarrow> string) \<Rightarrow> auth_manager \<Rightarrow> string + webhook_endpoint list
      \<Rightarrow> (webhook_endpoint \<Rightarrow> endpoint_env) \<Rightarrow> string \<Rightarrow> delivery list \<times> (string + unit)" where
  "dispatch hmac show_status auth listed envs event = (case listed of
     Inl e \<Rightarrow> ([], Inl e)
   | Inr endpoints \<Rightarrow>
       if endpoints = [] then ([], Inr ())
       else dispatch_with_endpoints hmac show_status auth
         (map (\<lambda>ep. (ep, envs ep)) (matching_endpoints event endpoints)) event)"

definition dispatch_to_endpoint ::
    "mac \<Rightarrow> (nat \<Rightarrow> string) \<Rightarrow> auth_manager \<Rightarrow> string + webhook_endpoint list
      \<Rightarrow> (webhook_endpoint \<Rightarrow> endpoint_env) \<Rightarrow> string \<Rightarrow> string \<Rightarrow> delivery list \<times> (string + unit)" where
  "dispatch_to_endpoint hmac show_status auth listed envs endpoint_id event = (case listed of
     Inl e \<Rightarrow> ([], Inl e)
   | Inr endpoints \<Rightarrow>
       let matched = filter (\<lambda>ep. wh_enabled ep \<and> wh_id ep = endpoint_id
             \<and> list_ex (\<lambda>registered. registered = event) (wh_events ep)) endpoints in
       if matched = []
       then ([], Inl (''no active webhook endpoint matched id='' @ endpoint_id @ '' event='' @ event))
       else dispatch_with_endpoints hmac show_status auth (map (\<lambda>ep. (ep, envs ep)) matched) event)"

section \<open>What is delivered\<close>

definition answer_ok :: "send_result \<Rightarrow> bool" where
  "answer_ok r \<longleftrightarrow> (case r of Responded c \<Rightarrow> status_is_success c \<or> c = 409 | SendFailed e \<Rightarrow> False)"

lemma attempt_deliveries_spec:
  assumes "attempt_deliveries hmac sh auth ep event env body n k ls le = Inr (rqs, d)"
  shows "dl_endpoint d = wh_id ep \<and> dl_event d = event \<and> dl_event_id d = ee_event_id env
    \<and> dl_url d = wh_url ep \<and> dl_dead_letter d = (\<not> dl_delivered d)
    \<and> (\<forall>rq\<in>set rqs. rq_idempotency_key rq = ee_event_id env \<and> rq_url rq = wh_url ep \<and> rq_body rq = body
         \<and> sign_payload hmac (wh_secret ep) (rq_timestamp rq) (rq_nonce rq) body = Inr (rq_signature rq))
    \<and> (if dl_delivered d
       then n \<le> dl_attempts d \<and> dl_attempts d < n + k \<and> length rqs = dl_attempts d - n + 1
         \<and> answer_ok (at_answer (ee_attempts env (dl_attempts d)))
         \<and> (\<forall>i. n \<le> i \<and> i < dl_attempts d \<longrightarrow> \<not> answer_ok (at_answer (ee_attempts env i)))
         \<and> dl_error d = None
       else dl_attempts d = 3 \<and> length rqs = k
         \<and> (\<forall>i. n \<le> i \<and> i < n + k \<longrightarrow> \<not> answer_ok (at_answer (ee_attempts env i))))"
  using assms
proof (induction k arbitrary: n ls le rqs d)
  case 0
  then show ?case by (auto simp: delivery_of_def)
next
  case (Suc k)
  obtain sg where sg: "sign_payload hmac (wh_secret ep) (at_timestamp (ee_attempts env n))
      (at_nonce (ee_attempts env n)) body = Inr sg"
    using Suc.prems by (auto simp: Let_def split: sum.splits)
  show ?case
  proof (cases "answer_ok (at_answer (ee_attempts env n))")
    case True
    then show ?thesis
      using Suc.prems sg
      by (auto simp: Let_def answer_ok_def delivery_of_def split: send_result.splits)
  next
    case False
    then obtain rqs' ls' le' rq where rec:
      "attempt_deliveries hmac sh auth ep event env body (Suc n) k ls' le' = Inr (rqs', d)"
      "rqs = rq # rqs'" "rq_idempotency_key rq = ee_event_id env" "rq_url rq = wh_url ep"
      "rq_body rq = body" "rq_timestamp rq = at_timestamp (ee_attempts env n)"
      "rq_nonce rq = at_nonce (ee_attempts env n)" "rq_signature rq = sg"
      using Suc.prems sg
      by (cases "at_answer (ee_attempts env n)")
        (fastforce simp: Let_def answer_ok_def map_sum_def apfst_def split: sum.splits if_splits)+
    have fst: "(\<forall>i. n \<le> i \<and> i < m \<longrightarrow> \<not> answer_ok (at_answer (ee_attempts env i)))"
      if "\<forall>i. Suc n \<le> i \<and> i < m \<longrightarrow> \<not> answer_ok (at_answer (ee_attempts env i))" for m
      using that False by (metis le_neq_implies_less Suc_leI)
    show ?thesis
      using Suc.IH [OF rec(1)] rec(2-) sg fst by (auto split: if_splits)
  qed
qed

lemma attempt_deliveries_total:
  assumes "\<And>s m. \<exists>d. hmac s m = Inr d"
  shows "\<exists>rqs d. attempt_deliveries hmac sh auth ep event env body n k ls le = Inr (rqs, d)"
proof (induction k arbitrary: n ls le)
  case (Suc k)
  obtain sg where "sign_payload hmac (wh_secret ep) (at_timestamp (ee_attempts env n))
      (at_nonce (ee_attempts env n)) body = Inr sg"
    using assms unfolding sign_payload_def hmac_sha256_hex_def by (metis map_sum.simps(2))
  moreover obtain rqs d where "attempt_deliveries hmac sh auth ep event env body (n + 1) k
      (case at_answer (ee_attempts env n) of Responded c \<Rightarrow> Some c | SendFailed e \<Rightarrow> ls)
      (case at_answer (ee_attempts env n) of Responded c \<Rightarrow> Some (''status '' @ sh c) | SendFailed e \<Rightarrow> Some e)
      = Inr (rqs, d)"
    using Suc.IH by blast
  ultimately show ?case
    by (cases "at_answer (ee_attempts env n)") (simp_all add: Let_def)
qed simp

text \<open>What the stored delivery of an endpoint says.\<close>

definition delivery_right :: "(webhook_endpoint \<Rightarrow> endpoint_env) \<Rightarrow> string \<Rightarrow> webhook_endpoint \<Rightarrow> delivery \<Rightarrow> bool" where
  "delivery_right envs event ep d \<longleftrightarrow>
     dl_endpoint d = wh_id ep \<and> dl_event d = event \<and> dl_event_id d = ee_event_id (envs ep)
     \<and> dl_delivered d = list_ex (\<lambda>i. answer_ok (at_answer (ee_attempts (envs ep) i))) [1, 2, 3]
     \<and> dl_dead_letter d = (\<not> dl_delivered d) \<and> 1 \<le> dl_attempts d \<and> dl_attempts d \<le> 3
     \<and> (\<forall>i. 1 \<le> i \<and> i < dl_attempts d \<longrightarrow> \<not> answer_ok (at_answer (ee_attempts (envs ep) i)))"

lemma deliver_right:
  assumes "\<And>s m. \<exists>d. hmac s m = Inr d" "ee_body (envs ep) = Inr body"
  obtains rqs d where "deliver hmac sh auth ep event (envs ep) = Inr (rqs, d)"
    "delivery_right envs event ep d"
proof -
  have "\<exists>rqs d. attempt_deliveries hmac sh auth ep event (envs ep) body 1 3 None None = Inr (rqs, d)"
    by (rule attempt_deliveries_total) (rule assms(1))
  then obtain rqs d where d: "attempt_deliveries hmac sh auth ep event (envs ep) body 1 3 None None = Inr (rqs, d)"
    by blast
  have range: "1 \<le> i \<and> i < 4 \<longleftrightarrow> i \<in> set [1, 2, 3]" for i :: nat by auto
  note spec = attempt_deliveries_spec [OF d]
  have "delivery_right envs event ep d"
  proof (cases "dl_delivered d")
    case True
    then have "1 \<le> dl_attempts d" "dl_attempts d < 4"
      "answer_ok (at_answer (ee_attempts (envs ep) (dl_attempts d)))"
      using spec by simp_all
    moreover from this have "list_ex (\<lambda>i. answer_ok (at_answer (ee_attempts (envs ep) i))) [1, 2, 3]"
      using range unfolding list_ex_iff by blast
    ultimately show ?thesis using True spec unfolding delivery_right_def by simp
  next
    case False
    then have no: "\<forall>i\<in>set [1, 2, 3]. \<not> answer_ok (at_answer (ee_attempts (envs ep) i))" "dl_attempts d = 3"
      using spec range by simp_all
    then have "\<forall>i. 1 \<le> i \<and> i < dl_attempts d \<longrightarrow> \<not> answer_ok (at_answer (ee_attempts (envs ep) i))"
      using spec False by simp
    then show ?thesis using no False spec unfolding delivery_right_def by simp
  qed
  with d assms(2) show thesis by (intro that) (simp_all add: deliver_def)
qed

lemma dispatch_loop_right:
  assumes "\<And>s m. \<exists>d. hmac s m = Inr d" "\<forall>ep\<in>set eps. \<exists>body. ee_body (envs ep) = Inr body"
  shows "\<exists>ds. dispatch_with_endpoints hmac sh auth (map (\<lambda>ep. (ep, envs ep)) eps) event = (ds, Inr ())
    \<and> list_all2 (delivery_right envs event) eps ds"
  using assms(2)
proof (induction eps)
  case (Cons ep eps)
  then obtain body where "ee_body (envs ep) = Inr body" by auto
  from deliver_right [where hmac = hmac and envs = envs and ep = ep, OF assms(1) this]
  obtain rqs d where
    "deliver hmac sh auth ep event (envs ep) = Inr (rqs, d)" "delivery_right envs event ep d" .
  with Cons show ?case by (auto simp: apfst_def)
qed simp

text \<open>
  When signing and serialising succeed, a dispatch succeeds whatever the HTTP client
  answers, and stores one delivery for each enabled endpoint of the event: delivered exactly
  when one of its first three attempts was answered by success or conflict, after the first
  such attempt, and a dead letter otherwise.
\<close>

theorem dispatch_delivers:
  assumes "\<And>s m. \<exists>d. hmac s m = Inr d" "\<And>ep. \<exists>body. ee_body (envs ep) = Inr body"
  shows "\<exists>ds. dispatch hmac sh auth (Inr eps) envs event = (ds, Inr ())
    \<and> list_all2 (delivery_right envs event) (matching_endpoints event eps) ds"
proof (cases "eps = []")
  case True
  then show ?thesis by (simp add: dispatch_def matching_endpoints_def)
next
  case False
  then show ?thesis
    using dispatch_loop_right [OF assms(1), of "matching_endpoints event eps" envs] assms(2)
    by (simp add: dispatch_def)
qed

text \<open>An endpoint that fails once and then reports a conflict, and a disabled one.\<close>

definition sample_endpoints :: "webhook_endpoint list" where
  "sample_endpoints = [\<lparr>wh_id = ''a'', wh_url = ''u'', wh_events = [''run.succeeded''], wh_secret = ''s'', wh_enabled = True\<rparr>,
     \<lparr>wh_id = ''b'', wh_url = ''v'', wh_events = [''run.succeeded''], wh_secret = ''s'', wh_enabled = False\<rparr>]"

definition sample_envs :: "webhook_endpoint \<Rightarrow> endpoint_env" where
  "sample_envs ep = \<lparr>ee_event_id = ''e'', ee_body = Inr ''{}'',
     ee_attempts = (\<lambda>n. \<lparr>at_timestamp = ''1'', at_nonce = ''n'',
       at_answer = (if n = 1 then SendFailed ''timeout'' else Responded 409)\<rparr>)\<rparr>"

theorem dispatch_delivers_witness:
  "\<exists>ds. dispatch toy_mac (\<lambda>c. ''409 Conflict'') (new_auth ''k'' ''s'' 300) (Inr sample_endpoints)
      sample_envs ''run.succeeded'' = (ds, Inr ())
    \<and> list_all2 (delivery_right sample_envs ''run.succeeded'')
       (matching_endpoints ''run.succeeded'' sample_endpoints) ds"
  by (rule dispatch_delivers) (simp_all add: toy_mac_def sample_envs_def)

lemma sample_dispatch:
  "map (\<lambda>d. (dl_endpoint d, dl_attempts d, dl_delivered d))
     (fst (dispatch toy_mac (\<lambda>c. ''409 Conflict'') (new_auth ''k'' ''s'' 300) (Inr sample_endpoints)
       sample_envs ''run.succeeded'')) = [(''a'', 2, True)]"
  by code_simp

end
