(* ===== verification/Harness.thy ===== *)
theory Harness
  imports Plan
begin

text \<open>
  The agent harness of \<^verbatim>\<open>src/harness/\<close>: the sessions with their parents and children
  (\<^verbatim>\<open>mod.rs\<close>), the mailboxes between sessions (\<^verbatim>\<open>message_bus.rs\<close>), the sub-agent manager
  (\<^verbatim>\<open>sub_agent.rs\<close>) and the metrics (\<^verbatim>\<open>metrics.rs\<close>).

  Sessions and mailboxes are concurrent maps; each access under a guard is one atomic step.
  \<^verbatim>\<open>spawn\<close> and \<^verbatim>\<open>send\<close> release the session while the model answers and are split there into
  a begin and an end, between which other operations run. New session identifiers are the
  argument \<open>id\<close>, as \<^verbatim>\<open>Uuid::new_v4\<close> gives them.
\<close>

section \<open>Mailboxes\<close>

datatype message_kind = Query | Feedback | Delegation | Status

record agent_message =
  from_session :: string
  to_session :: string
  msg_kind :: message_kind
  msg_body :: string

definition default_queue_cap :: nat where
  "default_queue_cap = 64"

text \<open>
  A mailbox is the queue of its channel, at most \<open>queue_cap\<close> long. Its receiver lives in the
  map beside the sender, so that a channel in the map is never closed.
\<close>

record message_bus =
  boxes :: "(string, agent_message list) hashmap"
  queue_cap :: nat

definition new_bus :: message_bus where
  "new_bus = \<lparr>boxes = [], queue_cap = default_queue_cap\<rparr>"

definition with_queue_cap :: "nat \<Rightarrow> message_bus" where
  "with_queue_cap cap = \<lparr>boxes = [], queue_cap = max cap 1\<rparr>"

definition ensure_mailbox :: "string \<Rightarrow> message_bus \<Rightarrow> message_bus" where
  "ensure_mailbox i b = (if hm_contains (boxes b) i then b
     else b\<lparr>boxes := hm_insert (boxes b) i []\<rparr>)"

text \<open>
  \<^verbatim>\<open>send\<close> waits while the queue is full: the answer \<^const>\<open>None\<close> is a call that has not
  returned yet, with the mailbox it created.
\<close>

definition bus_send :: "agent_message \<Rightarrow> message_bus \<Rightarrow> unit option \<times> message_bus" where
  "bus_send msg b =
     (let b1 = ensure_mailbox (to_session msg) b in
      case hm_get (boxes b1) (to_session msg) of
        None \<Rightarrow> (None, b1)
      | Some q \<Rightarrow>
          if length q < queue_cap b1
          then (Some (), b1\<lparr>boxes := hm_insert (boxes b1) (to_session msg) (q @ [msg])\<rparr>)
          else (None, b1))"

definition try_recv :: "string \<Rightarrow> message_bus \<Rightarrow> agent_message option \<times> message_bus" where
  "try_recv i b = (case hm_get (boxes b) i of
     Some (m # q) \<Rightarrow> (Some m, b\<lparr>boxes := hm_insert (boxes b) i q\<rparr>)
   | _ \<Rightarrow> (None, b))"

definition drain :: "string \<Rightarrow> message_bus \<Rightarrow> agent_message list \<times> message_bus" where
  "drain i b = (case hm_get (boxes b) i of
     None \<Rightarrow> ([], b)
   | Some q \<Rightarrow> (q, b\<lparr>boxes := hm_insert (boxes b) i []\<rparr>))"

definition close_mailbox :: "string \<Rightarrow> message_bus \<Rightarrow> message_bus" where
  "close_mailbox i b = b\<lparr>boxes := hm_remove (boxes b) i\<rparr>"

definition bus_len :: "message_bus \<Rightarrow> nat" where
  "bus_len b = length (boxes b)"

section \<open>Sessions\<close>

datatype agent_session_status = SIdle | SRunning | SReady | SFailed string | STerminated

record agent_output =
  out_model :: string
  out_content :: string
  out_usage :: "token_usage option"

record agent_session =
  session_id :: string
  session_role :: agent_role
  session_status :: agent_session_status
  total_usage :: "token_usage option"
  iteration_count :: u32
  parent_session :: "string option"
  child_sessions :: "string list"
  last_output :: "agent_output option"

definition new_session :: "string \<Rightarrow> agent_role \<Rightarrow> string option \<Rightarrow> agent_session" where
  "new_session i rl parent = \<lparr>session_id = i, session_role = rl, session_status = SIdle,
     total_usage = None, iteration_count = 0, parent_session = parent, child_sessions = [],
     last_output = None\<rparr>"

definition record_output_session :: "agent_output \<Rightarrow> agent_session \<Rightarrow> agent_session" where
  "record_output_session out s = s\<lparr>
     iteration_count := sat_add (iteration_count s) 1,
     session_status := SReady,
     total_usage := (case out_usage out of
        Some u \<Rightarrow> Some (case total_usage s of Some prev \<Rightarrow> token_merge prev u | None \<Rightarrow> u)
      | None \<Rightarrow> total_usage s),
     last_output := Some out\<rparr>"

record harness =
  sessions :: "(string, agent_session) hashmap"
  bus :: message_bus

definition new_harness :: harness where
  "new_harness = \<lparr>sessions = [], bus = new_bus\<rparr>"

definition modify_session :: "string \<Rightarrow> (agent_session \<Rightarrow> agent_session) \<Rightarrow> harness \<Rightarrow> harness" where
  "modify_session i f h = h\<lparr>sessions := hm_modify (sessions h) i f\<rparr>"

text \<open>The link to the parent and the insertion, shared by \<^verbatim>\<open>spawn\<close> and \<^verbatim>\<open>create_session\<close>.\<close>

definition link_parent :: "string \<Rightarrow> string option \<Rightarrow> harness \<Rightarrow> harness" where
  "link_parent i parent h = (case parent of
     None \<Rightarrow> h
   | Some p \<Rightarrow> modify_session p (\<lambda>s. s\<lparr>child_sessions := child_sessions s @ [i]\<rparr>) h)"

definition insert_session :: "agent_session \<Rightarrow> harness \<Rightarrow> harness" where
  "insert_session s h = h\<lparr>sessions := hm_insert (sessions h) (session_id s) s\<rparr>"

text \<open>\<open>result\<close> is the answer of \<^verbatim>\<open>run_role\<close>.\<close>

definition inference_begin :: "string \<Rightarrow> harness \<Rightarrow> harness" where
  "inference_begin i = modify_session i (\<lambda>s. s\<lparr>session_status := SRunning\<rparr>)"

definition inference_end :: "string \<Rightarrow> string + agent_output \<Rightarrow> harness \<Rightarrow> harness" where
  "inference_end i result = modify_session i (\<lambda>s. case result of
     Inr out \<Rightarrow> record_output_session out s
   | Inl e \<Rightarrow> s\<lparr>session_status := SFailed e\<rparr>)"

definition spawn_begin :: "string \<Rightarrow> agent_role \<Rightarrow> string option \<Rightarrow> harness \<Rightarrow> harness" where
  "spawn_begin i rl parent h =
     inference_begin i (insert_session (new_session i rl parent) (link_parent i parent h))"

definition spawn :: "string \<Rightarrow> agent_role \<Rightarrow> string option \<Rightarrow> string + agent_output \<Rightarrow> harness
    \<Rightarrow> (string + string) \<times> harness" where
  "spawn i rl parent result h =
     (map_sum id (\<lambda>_. i) result, inference_end i result (spawn_begin i rl parent h))"

definition send :: "string \<Rightarrow> string + agent_output \<Rightarrow> harness \<Rightarrow> (string + agent_output) \<times> harness" where
  "send i result h = (case hm_get (sessions h) i of
     None \<Rightarrow> (Inl (''unknown session id `'' @ i @ ''`''), h)
   | Some s \<Rightarrow> (result, inference_end i result (inference_begin i h)))"

definition session_status_of :: "string \<Rightarrow> harness \<Rightarrow> agent_session_status option" where
  "session_status_of i h = map_option session_status (hm_get (sessions h) i)"

definition terminate :: "string \<Rightarrow> harness \<Rightarrow> (string + unit) \<times> harness" where
  "terminate i h = (case hm_get (sessions h) i of
     None \<Rightarrow> (Inl (''unknown session id `'' @ i @ ''`''), h)
   | Some s \<Rightarrow>
       let h1 = modify_session i (\<lambda>s. s\<lparr>session_status := STerminated\<rparr>) h
       in (Inr (), h1\<lparr>bus := close_mailbox i (bus h1)\<rparr>))"

definition create_session :: "string \<Rightarrow> agent_role \<Rightarrow> string option \<Rightarrow> harness \<Rightarrow> harness" where
  "create_session i rl parent h =
     (let session = (new_session i rl parent)\<lparr>session_status := SRunning\<rparr>;
          h1 = insert_session session (link_parent i parent h)
      in h1\<lparr>bus := ensure_mailbox i (bus h1)\<rparr>)"

definition record_output :: "string \<Rightarrow> agent_output \<Rightarrow> harness \<Rightarrow> harness" where
  "record_output i out = modify_session i (record_output_session out)"

definition record_error :: "string \<Rightarrow> string \<Rightarrow> harness \<Rightarrow> harness" where
  "record_error i err = modify_session i (\<lambda>s. s\<lparr>session_status := SFailed err\<rparr>)"

section \<open>Session trees\<close>

text \<open>
  \<^verbatim>\<open>session_tree\<close> and \<^verbatim>\<open>hierarchy\<close> recurse along the children; the recursion takes fuel, and the
  outer option is the fuel running out. A child that is not registered is left out.
\<close>

datatype 'a tree_node = TreeNode (tree_label: 'a) (tree_children: "'a tree_node list")

fun collect_known :: "'a option option list \<Rightarrow> 'a list option" where
  "collect_known [] = Some []"
| "collect_known (None # xs) = None"
| "collect_known (Some None # xs) = collect_known xs"
| "collect_known (Some (Some x) # xs) = map_option (Cons x) (collect_known xs)"

fun walk_tree :: "(agent_session \<Rightarrow> 'a) \<Rightarrow> nat \<Rightarrow> harness \<Rightarrow> string \<Rightarrow> 'a tree_node option option" where
  "walk_tree lab 0 h i = None"
| "walk_tree lab (Suc k) h i = (case hm_get (sessions h) i of
     None \<Rightarrow> Some None
   | Some s \<Rightarrow> map_option (\<lambda>ts. Some (TreeNode (lab s) ts))
       (collect_known (map (walk_tree lab k h) (child_sessions s))))"

text \<open>The labels are the fields of \<^verbatim>\<open>SessionTree\<close> and of \<^verbatim>\<open>HierarchyNode\<close>.\<close>

definition session_tree :: "nat \<Rightarrow> harness \<Rightarrow> string
    \<Rightarrow> (string \<times> agent_role \<times> agent_session_status \<times> token_usage option \<times> u32) tree_node option option" where
  "session_tree = walk_tree (\<lambda>s. (session_id s, session_role s, session_status s, total_usage s, iteration_count s))"

definition hierarchy :: "nat \<Rightarrow> harness \<Rightarrow> string
    \<Rightarrow> (string \<times> agent_role \<times> agent_session_status \<times> u32) tree_node option option" where
  "hierarchy = walk_tree (\<lambda>s. (session_id s, session_role s, session_status s, iteration_count s))"

section \<open>Sub-agents\<close>

text \<open>\<open>ids\<close> are the fresh identifiers, one per subtask.\<close>

fun spawn_from_plan_loop :: "string \<Rightarrow> subtask_definition list \<Rightarrow> string list \<Rightarrow> harness
    \<Rightarrow> (string \<times> string) list \<times> harness" where
  "spawn_from_plan_loop p (s # ss) (i # ids) h =
     apfst (Cons (sd_id s, i)) (spawn_from_plan_loop p ss ids (create_session i (sd_role s) (Some p) h))"
| "spawn_from_plan_loop p _ _ h = ([], h)"

definition spawn_from_plan :: "string \<Rightarrow> subtask_plan \<Rightarrow> string list \<Rightarrow> harness
    \<Rightarrow> (string \<times> string) list \<times> harness" where
  "spawn_from_plan p plan ids h = spawn_from_plan_loop p (subtasks plan) ids h"

definition spawn_child :: "string \<Rightarrow> agent_role \<Rightarrow> string \<Rightarrow> harness \<Rightarrow> string \<times> harness" where
  "spawn_child p rl i h = (i, create_session i rl (Some p) h)"

definition collect_child_outputs :: "string \<Rightarrow> harness
    \<Rightarrow> (string \<times> agent_role \<times> string \<times> agent_session_status) list" where
  "collect_child_outputs p h = (case hm_get (sessions h) p of
     None \<Rightarrow> []
   | Some s \<Rightarrow> List.map_filter (\<lambda>c. Option.bind (hm_get (sessions h) c) (\<lambda>k.
       map_option (\<lambda>out. (c, session_role k, out_content out, session_status k)) (last_output k)))
       (child_sessions s))"

datatype recovery_action = RecContinue | RecEscalateToPlanner | RecAbortParent

definition is_failed :: "agent_session_status \<Rightarrow> bool" where
  "is_failed st \<longleftrightarrow> (case st of SFailed e \<Rightarrow> True | _ \<Rightarrow> False)"

fun count_children :: "harness \<Rightarrow> string list \<Rightarrow> nat \<times> nat" where
  "count_children h [] = (0, 0)"
| "count_children h (c # cs) = (case count_children h cs of (n, failed) \<Rightarrow>
     (case hm_get (sessions h) c of None \<Rightarrow> (n, failed)
      | Some s \<Rightarrow> (n + 1, failed + (if is_failed (session_status s) then 1 else 0))))"

definition classify_child_failure :: "string \<Rightarrow> string \<Rightarrow> string \<Rightarrow> harness
    \<Rightarrow> (string + recovery_action) \<times> harness" where
  "classify_child_failure p c err h =
     (let h1 = record_error c err h in
      (case hm_get (sessions h1) p of
         None \<Rightarrow> Inl (''parent session `'' @ p @ ''` not registered'')
       | Some s \<Rightarrow> (case count_children h1 (child_sessions s) of (n, failed) \<Rightarrow>
           Inr (if failed \<ge> n then RecAbortParent
                else if failed * 2 \<ge> n then RecEscalateToPlanner
                else RecContinue)),
       h1))"

section \<open>Metrics\<close>

record role_stats =
  rs_active :: u32
  rs_completed :: u32
  rs_failed :: u32
  rs_iterations :: u32
  rs_tokens :: token_usage

record harness_metrics =
  active_sessions :: u32
  idle_sessions :: u32
  completed_sessions :: u32
  failed_sessions :: u32
  terminated_sessions :: u32
  total_iterations :: u32
  total_tokens :: token_usage
  sub_agent_depth :: nat
  per_role :: "(string, role_stats) hashmap"

text \<open>\<^verbatim>\<open>format!("{role:?}").to_lowercase()\<close>: the \<^verbatim>\<open>Debug\<close> name, without underscores.\<close>

definition role_key :: "agent_role \<Rightarrow> string" where
  "role_key r = filter (\<lambda>c. c \<noteq> CHR ''_'') (agent_role_display r)"

fun session_depth :: "nat \<Rightarrow> harness \<Rightarrow> string \<Rightarrow> nat \<Rightarrow> nat option" where
  "session_depth 0 h i d = None"
| "session_depth (Suc k) h i d = (case hm_get (sessions h) i of
     None \<Rightarrow> Some d
   | Some s \<Rightarrow> if child_sessions s = [] then Some d
       else map_option (\<lambda>ds. foldr max ds d) (those (map (\<lambda>c. session_depth k h c (d + 1)) (child_sessions s))))"

definition zero_stats :: role_stats where
  "zero_stats = \<lparr>rs_active = 0, rs_completed = 0, rs_failed = 0, rs_iterations = 0, rs_tokens = TokenUsage 0 0\<rparr>"

definition zero_metrics :: harness_metrics where
  "zero_metrics = \<lparr>active_sessions = 0, idle_sessions = 0, completed_sessions = 0, failed_sessions = 0,
     terminated_sessions = 0, total_iterations = 0, total_tokens = TokenUsage 0 0, sub_agent_depth = 0,
     per_role = []\<rparr>"

definition count_status :: "agent_session_status \<Rightarrow> harness_metrics \<Rightarrow> harness_metrics" where
  "count_status st m = (case st of
     SIdle \<Rightarrow> m\<lparr>idle_sessions := idle_sessions m + 1\<rparr>
   | SRunning \<Rightarrow> m\<lparr>active_sessions := active_sessions m + 1\<rparr>
   | SReady \<Rightarrow> m\<lparr>completed_sessions := completed_sessions m + 1\<rparr>
   | SFailed e \<Rightarrow> m\<lparr>failed_sessions := failed_sessions m + 1\<rparr>
   | STerminated \<Rightarrow> m\<lparr>terminated_sessions := terminated_sessions m + 1\<rparr>)"

definition merge_reported :: "token_usage option \<Rightarrow> token_usage \<Rightarrow> token_usage" where
  "merge_reported u t = (case u of None \<Rightarrow> t | Some u \<Rightarrow> token_merge t u)"

definition count_role :: "agent_session \<Rightarrow> role_stats \<Rightarrow> role_stats" where
  "count_role s st =
     (let st1 = st\<lparr>rs_iterations := sat_add (rs_iterations st) (iteration_count s),
                   rs_tokens := merge_reported (total_usage s) (rs_tokens st)\<rparr>
      in case session_status s of
        SRunning \<Rightarrow> st1\<lparr>rs_active := rs_active st1 + 1\<rparr>
      | SReady \<Rightarrow> st1\<lparr>rs_completed := rs_completed st1 + 1\<rparr>
      | SFailed e \<Rightarrow> st1\<lparr>rs_failed := rs_failed st1 + 1\<rparr>
      | _ \<Rightarrow> st1)"

definition count_session :: "agent_session \<Rightarrow> harness_metrics \<Rightarrow> harness_metrics" where
  "count_session s m0 =
     (let m = count_status (session_status s) m0;
          key = role_key (session_role s);
          stats = (case hm_get (per_role m) key of Some x \<Rightarrow> x | None \<Rightarrow> zero_stats)
      in m\<lparr>total_iterations := sat_add (total_iterations m) (iteration_count s),
           total_tokens := merge_reported (total_usage s) (total_tokens m),
           per_role := hm_insert (per_role m) key (count_role s stats)\<rparr>)"

definition roots :: "harness \<Rightarrow> string list" where
  "roots h = map session_id (filter (\<lambda>s. parent_session s = None) (hm_values (sessions h)))"

definition snapshot :: "nat \<Rightarrow> harness \<Rightarrow> harness_metrics option" where
  "snapshot k h = map_option (\<lambda>ds. (foldl (\<lambda>m s. count_session s m) zero_metrics (hm_values (sessions h)))
       \<lparr>sub_agent_depth := foldr max ds 0\<rparr>)
     (those (map (\<lambda>r. session_depth k h r 0) (roots h)))"

end
