(* ===== verification/Harness_Properties.thy ===== *)
theory Harness_Properties
  imports Harness
begin

text \<open>
  Properties of the harness over all interleavings of its operations: the sessions stay a
  forest, a session tree lists each descendant once, messages are neither lost nor reordered,
  and the metrics count every session; with two behaviours the code does not intend, about
  sessions that are terminated while they are used.
\<close>

section \<open>Interleaved operations\<close>

datatype bus_op =
    BEnsure string | BSend agent_message | BTryRecv string | BDrain string | BClose string

fun bus_step :: "bus_op \<Rightarrow> message_bus \<Rightarrow> message_bus" where
  "bus_step (BEnsure i) b = ensure_mailbox i b"
| "bus_step (BSend m) b = snd (bus_send m b)"
| "bus_step (BTryRecv i) b = snd (try_recv i b)"
| "bus_step (BDrain i) b = snd (drain i b)"
| "bus_step (BClose i) b = close_mailbox i b"

datatype harness_op =
    HSpawnBegin string agent_role "string option"
  | HSendBegin string
  | HInferenceEnd string "string + agent_output"
  | HTerminate string
  | HCreate string agent_role "string option"
  | HOutput string agent_output
  | HError string string
  | HBus bus_op

fun harness_run :: "harness_op \<Rightarrow> harness \<Rightarrow> harness" where
  "harness_run (HSpawnBegin i r p) h = spawn_begin i r p h"
| "harness_run (HSendBegin i) h = inference_begin i h"
| "harness_run (HInferenceEnd i res) h = inference_end i res h"
| "harness_run (HTerminate i) h = snd (terminate i h)"
| "harness_run (HCreate i r p) h = create_session i r p h"
| "harness_run (HOutput i out) h = record_output i out h"
| "harness_run (HError i e) h = record_error i e h"
| "harness_run (HBus b) h = h\<lparr>bus := bus_step b (bus h)\<rparr>"

text \<open>An identifier no session has or names as its parent, as a new UUID is.\<close>

definition fresh_id :: "string \<Rightarrow> string option \<Rightarrow> harness \<Rightarrow> bool" where
  "fresh_id i p h \<longleftrightarrow> hm_get (sessions h) i = None \<and> p \<noteq> Some i
     \<and> list_all (\<lambda>s. parent_session s \<noteq> Some i) (hm_values (sessions h))"

fun op_fresh :: "harness_op \<Rightarrow> harness \<Rightarrow> bool" where
  "op_fresh (HSpawnBegin i r p) h = fresh_id i p h"
| "op_fresh (HCreate i r p) h = fresh_id i p h"
| "op_fresh _ h = True"

inductive harness_step :: "harness \<Rightarrow> harness \<Rightarrow> bool" where
  harness_op: "op_fresh op h \<Longrightarrow> harness_step h (harness_run op h)"

section \<open>The sessions are a forest\<close>

text \<open>What the topology depends on: identifier, parent and children of each session.\<close>

definition shape :: "harness \<Rightarrow> string \<Rightarrow> (string \<times> string option \<times> string list) option" where
  "shape h i = map_option (\<lambda>s. (session_id s, parent_session s, child_sessions s)) (hm_get (sessions h) i)"

definition shape_edges :: "(string \<Rightarrow> (string \<times> string option \<times> string list) option) \<Rightarrow> (string \<times> string) set" where
  "shape_edges S = {(p, c). \<exists>x pp cs. S p = Some (x, pp, cs) \<and> c \<in> set cs}"

definition shape_ok :: "(string \<Rightarrow> (string \<times> string option \<times> string list) option) \<Rightarrow> nat \<Rightarrow> bool" where
  "shape_ok S n \<longleftrightarrow>
     (\<forall>i x p cs. S i = Some (x, p, cs) \<longrightarrow> x = i \<and> distinct cs)
     \<and> (\<forall>p c. (p, c) \<in> shape_edges S \<longleftrightarrow> S p \<noteq> None \<and> (\<exists>x cs. S c = Some (x, Some p, cs)))
     \<and> (\<exists>r. (\<forall>(p, c) \<in> shape_edges S. r p < (r c :: nat)) \<and> (\<forall>i. r i \<le> n))"

definition harness_ok :: "harness \<Rightarrow> bool" where
  "harness_ok h \<longleftrightarrow> hm_wf (sessions h) \<and> shape_ok (shape h) (length (sessions h))"

lemma length_hm_insert: "hm_wf m \<Longrightarrow> length (hm_insert m k v) = (if hm_get m k = None then length m + 1 else length m)"
  by (cases "hm_get m k")
    (simp_all add: hm_insert_fresh, metis hm_keys_def hm_keys_insert_present length_map option.distinct(1))

lemma length_hm_modify: "hm_wf m \<Longrightarrow> length (hm_modify m k f) = length m"
  by (simp add: hm_modify_def length_hm_insert split: option.split)

lemma shape_modify:
  "shape (modify_session i f h) = (if hm_get (sessions h) i = None then shape h
     else (shape h)(i := map_option (\<lambda>s. (session_id (f s), parent_session (f s), child_sessions (f s)))
       (hm_get (sessions h) i)))"
  by (rule ext) (auto simp: shape_def modify_session_def hm_get_modify option.map_comp comp_def)

text \<open>Operations that keep the shape keep the forest.\<close>

lemma modify_ok:
  assumes "\<And>s. session_id (f s) = session_id s \<and> parent_session (f s) = parent_session s
      \<and> child_sessions (f s) = child_sessions s"
    and "harness_ok h"
  shows "harness_ok (modify_session i f h)"
proof -
  have "shape (modify_session i f h) = shape h"
    using assms(1) by (auto simp: shape_modify) (auto simp: shape_def)
  moreover have "length (sessions (modify_session i f h)) = length (sessions h)"
    using assms(2) by (simp add: modify_session_def harness_ok_def length_hm_modify)
  ultimately show ?thesis
    using assms(2) by (simp add: harness_ok_def) (simp add: modify_session_def hm_wf_modify)
qed

lemma bus_ok: "harness_ok (h\<lparr>bus := b\<rparr>) \<longleftrightarrow> harness_ok h"
proof -
  have "shape (h\<lparr>bus := b\<rparr>) = shape h" by (rule ext) (simp add: shape_def)
  then show ?thesis by (simp add: harness_ok_def)
qed

text \<open>Adding a session: the parent, if registered, gets it as its last child.\<close>

definition grow_shape where
  "grow_shape i p S = (\<lambda>j. if j = i then Some (i, p, [])
     else if p = Some j then map_option (\<lambda>(x, pp, cs). (x, pp, cs @ [i])) (S j) else S j)"

lemma shape_grow:
  assumes "hm_get (sessions h) i = None" "p \<noteq> Some i" "session_id s = i" "parent_session s = p" "child_sessions s = []"
  shows "shape (insert_session s (link_parent i p h)) = grow_shape i p (shape h)"
  using assms
  by (intro ext, cases p)
    (auto simp: shape_def insert_session_def link_parent_def modify_session_def hm_get_insert
      hm_get_modify grow_shape_def option.map_comp comp_def)

lemma edges_grow:
  assumes "S i = None" "p \<noteq> Some i"
  shows "shape_edges (grow_shape i p S) = shape_edges S \<union> {(q, i) |q. p = Some q \<and> S q \<noteq> None}"
proof -
  have "(a, b) \<in> shape_edges (grow_shape i p S) \<longleftrightarrow>
      (a, b) \<in> shape_edges S \<or> (p = Some a \<and> S a \<noteq> None \<and> b = i)" for a b
  proof (cases "S a")
    case None
    then show ?thesis by (auto simp: shape_edges_def grow_shape_def)
  next
    case (Some t)
    then have "a \<noteq> i" using assms(1) by auto
    with Some show ?thesis
      by (cases t) (auto simp: shape_edges_def grow_shape_def)
  qed
  then show ?thesis by auto
qed

lemma shape_ok_grow:
  assumes ok: "shape_ok S n" and i: "S i = None" "p \<noteq> Some i"
    and orphan: "\<And>j x cs. S j \<noteq> Some (x, Some i, cs)"
  shows "shape_ok (grow_shape i p S) (Suc n)"
proof -
  have E: "shape_edges (grow_shape i p S) = shape_edges S \<union> {(q, i) |q. p = Some q \<and> S q \<noteq> None}"
    by (rule edges_grow) (rule i)+
  have ids: "\<And>j x pp cs. S j = Some (x, pp, cs) \<Longrightarrow> x = j \<and> distinct cs"
    and edges: "\<And>a b. (a, b) \<in> shape_edges S \<longleftrightarrow> S a \<noteq> None \<and> (\<exists>x cs. S b = Some (x, Some a, cs))"
    using ok by (simp_all add: shape_ok_def)
  obtain r where r: "\<And>a b. (a, b) \<in> shape_edges S \<Longrightarrow> r a < (r b :: nat)" "\<And>j. r j \<le> n"
    using ok unfolding shape_ok_def by blast
  have noi: "(a, i) \<notin> shape_edges S" "(i, a) \<notin> shape_edges S" for a
    using edges i(1) by auto
  have "x = j \<and> distinct cs" if g: "grow_shape i p S j = Some (x, pp, cs)" for j x pp cs
  proof (cases "j = i")
    case False
    then obtain cs0 where "S j = Some (x, pp, cs0)" "cs = cs0 \<or> cs = cs0 @ [i]"
      using g by (auto simp: grow_shape_def split: if_splits)
    moreover from this have "i \<notin> set cs0" using noi(1) [of j] by (auto simp: shape_edges_def)
    ultimately show ?thesis using ids by auto
  qed (use g in \<open>simp add: grow_shape_def\<close>)
  moreover have "(a, b) \<in> shape_edges (grow_shape i p S) \<longleftrightarrow>
      grow_shape i p S a \<noteq> None \<and> (\<exists>x cs. grow_shape i p S b = Some (x, Some a, cs))" for a b
  proof (cases "b = i")
    case True
    then show ?thesis using noi i(2) by (simp add: E) (auto simp: grow_shape_def)
  next
    case False
    then have "(\<exists>x cs. grow_shape i p S b = Some (x, Some a, cs)) \<longleftrightarrow> (\<exists>x cs. S b = Some (x, Some a, cs))"
      by (auto simp: grow_shape_def)
    moreover have "grow_shape i p S a \<noteq> None \<longleftrightarrow> a = i \<or> S a \<noteq> None"
      by (cases "S a") (auto simp: grow_shape_def)
    moreover have "(a, b) \<in> shape_edges (grow_shape i p S) \<longleftrightarrow> (a, b) \<in> shape_edges S"
      using False by (simp add: E)
    ultimately show ?thesis using orphan [of b] edges [of a b] i(1) by metis
  qed
  moreover have "\<exists>r. (\<forall>(a, b)\<in>shape_edges (grow_shape i p S). r a < (r b :: nat)) \<and> (\<forall>j. r j \<le> Suc n)"
  proof (intro exI [of _ "r(i := Suc n)"] conjI allI)
    show "\<forall>(a, b)\<in>shape_edges (grow_shape i p S). (r(i := Suc n)) a < (r(i := Suc n)) b"
      using r noi i(2) by (auto simp: E less_Suc_eq_le)
    show "(r(i := Suc n)) j \<le> Suc n" for j using r(2) [of j] by (simp add: le_Suc_eq)
  qed
  ultimately show ?thesis unfolding shape_ok_def by blast
qed

lemma grow_ok:
  assumes "harness_ok h" "fresh_id i p h" "session_id s = i" "parent_session s = p" "child_sessions s = []"
  shows "harness_ok (insert_session s (link_parent i p h))"
proof -
  have wf: "hm_wf (sessions h)" using assms(1) by (simp add: harness_ok_def)
  have fresh: "hm_get (sessions h) i = None" "p \<noteq> Some i"
    using assms(2) by (simp_all add: fresh_id_def)
  have wf': "hm_wf (sessions (link_parent i p h))" "length (sessions (link_parent i p h)) = length (sessions h)"
    "hm_get (sessions (link_parent i p h)) i = None"
    using wf fresh by (auto simp: link_parent_def modify_session_def hm_wf_modify length_hm_modify hm_get_modify
        split: option.split)
  have "shape h j \<noteq> Some (x, Some i, cs)" for j x cs
    using assms(2) wf by (auto simp: shape_def fresh_id_def list_all_iff hm_values_iff)
  then have "shape_ok (grow_shape i p (shape h)) (Suc (length (sessions h)))"
    using assms(1) fresh by (intro shape_ok_grow) (simp_all add: harness_ok_def shape_def)
  then show ?thesis
    using wf' by (simp add: harness_ok_def shape_grow [OF fresh assms(3-5)])
      (simp add: insert_session_def assms(3) hm_wf_insert length_hm_insert)
qed

lemma harness_op_ok: "op_fresh op h \<Longrightarrow> harness_ok h \<Longrightarrow> harness_ok (harness_run op h)"
proof (cases op)
  case (HSpawnBegin i r p)
  assume "op_fresh op h" "harness_ok h"
  then have "harness_ok (insert_session (new_session i r p) (link_parent i p h))"
    using HSpawnBegin by (intro grow_ok) (simp_all add: new_session_def)
  then show ?thesis
    using HSpawnBegin by (simp add: spawn_begin_def inference_begin_def) (rule modify_ok; simp)
next
  case (HCreate i r p)
  assume "op_fresh op h" "harness_ok h"
  then show ?thesis
    using HCreate by (simp add: create_session_def Let_def bus_ok) (intro grow_ok; simp add: new_session_def)
next
  case (HInferenceEnd i res)
  assume "harness_ok h"
  then show ?thesis
    using HInferenceEnd
    by (simp add: inference_end_def) (rule modify_ok; simp add: record_output_session_def split: sum.split)
next
  case (HTerminate i)
  assume "harness_ok h"
  then have "harness_ok (modify_session i (\<lambda>s. s\<lparr>session_status := STerminated\<rparr>) h)" by (intro modify_ok) simp_all
  then show ?thesis
    using HTerminate \<open>harness_ok h\<close> by (auto simp: terminate_def Let_def bus_ok split: option.split)
next
  case (HOutput i out)
  assume "harness_ok h"
  then show ?thesis
    using HOutput by (simp add: record_output_def) (rule modify_ok; simp add: record_output_session_def)
qed (auto simp: inference_begin_def record_error_def bus_ok intro!: modify_ok)

lemma new_harness_ok: "harness_ok new_harness"
  by (auto simp: harness_ok_def new_harness_def shape_ok_def shape_def shape_edges_def hm_simps hm_wf_Nil)

interpretation harness_machine: state_machine "\<lambda>h. h = new_harness" harness_step harness_ok
  by unfold_locales (auto simp: new_harness_ok elim!: harness_step.cases intro: harness_op_ok)

section \<open>Session trees\<close>

definition edges :: "harness \<Rightarrow> (string \<times> string) set" where
  "edges h = shape_edges (shape h)"

lemma edges_iff:
  "harness_ok h \<Longrightarrow> (p, c) \<in> edges h \<longleftrightarrow> hm_get (sessions h) p \<noteq> None
     \<and> (\<exists>s. hm_get (sessions h) c = Some s \<and> parent_session s = Some p)"
proof -
  assume "harness_ok h"
  then have "(p, c) \<in> edges h \<longleftrightarrow> shape h p \<noteq> None \<and> (\<exists>x cs. shape h c = Some (x, Some p, cs))"
    unfolding edges_def harness_ok_def shape_ok_def by blast
  then show ?thesis by (auto simp: shape_def)
qed

lemma edges_children: "(p, c) \<in> edges h \<longleftrightarrow> (\<exists>s. hm_get (sessions h) p = Some s \<and> c \<in> set (child_sessions s))"
  by (auto simp: edges_def shape_edges_def shape_def)

lemma session_key: "harness_ok h \<Longrightarrow> hm_get (sessions h) i = Some s \<Longrightarrow> session_id s = i \<and> distinct (child_sessions s)"
proof -
  assume "harness_ok h" "hm_get (sessions h) i = Some s"
  then have "shape h i = Some (session_id s, parent_session s, child_sessions s)" by (simp add: shape_def)
  then show ?thesis using \<open>harness_ok h\<close> unfolding harness_ok_def shape_ok_def by blast
qed

lemma edges_rank:
  assumes "harness_ok h"
  obtains r :: "string \<Rightarrow> nat" where "\<And>a b. (a, b) \<in> edges h \<Longrightarrow> r a < r b" "\<And>i. r i \<le> length (sessions h)"
  using assms unfolding harness_ok_def shape_ok_def edges_def by blast

lemma edges_acyclic: "harness_ok h \<Longrightarrow> (a, a) \<notin> (edges h)\<^sup>+"
proof -
  assume "harness_ok h"
  then obtain r :: "string \<Rightarrow> nat" where r: "\<And>a b. (a, b) \<in> edges h \<Longrightarrow> r a < r b"
    by (rule edges_rank) blast
  have "r a < r b" if "(a, b) \<in> (edges h)\<^sup>+" for a b
    using that by (induction rule: trancl_induct) (auto dest: r)
  then show ?thesis by blast
qed

text \<open>Each session has one parent, so the descendants of two siblings are disjoint.\<close>

lemma siblings_disjoint:
  assumes ok: "harness_ok h" and "(p, c) \<in> edges h" "(p, d) \<in> edges h" "c \<noteq> d"
  shows "(edges h)\<^sup>* `` {c} \<inter> (edges h)\<^sup>* `` {d} = {}"
proof (rule ccontr)
  assume "\<not> ?thesis"
  then obtain x where x: "(c, x) \<in> (edges h)\<^sup>*" "(d, x) \<in> (edges h)\<^sup>*" by auto
  have single: "single_valued ((edges h)\<inverse>)"
    by (rule single_valuedI) (auto simp: edges_iff [OF ok])
  have "(c, d) \<in> (edges h)\<^sup>* \<or> (d, c) \<in> (edges h)\<^sup>*"
    using single_valued_confluent [OF single, of x c d] x by (auto simp: rtrancl_converse)
  moreover have "(a, b) \<notin> (edges h)\<^sup>*" if "(p, a) \<in> edges h" "(p, b) \<in> edges h" "a \<noteq> b" for a b
  proof
    assume "(a, b) \<in> (edges h)\<^sup>*"
    with that(3) obtain q where q: "(a, q) \<in> (edges h)\<^sup>*" "(q, b) \<in> edges h"
      by (meson rtranclE)
    then have "q = p" using that(2) by (auto simp: edges_iff [OF ok])
    with q(1) that(1) have "(p, p) \<in> (edges h)\<^sup>+" by (meson rtrancl_into_trancl2)
    with edges_acyclic [OF ok] show False by blast
  qed
  ultimately show False using assms(2-4) by blast
qed

fun tree_labels :: "'a tree_node \<Rightarrow> 'a list" where
  "tree_labels (TreeNode a ts) = a # concat (map tree_labels ts)"

lemma collect_known_Some: "collect_known (map (\<lambda>x. Some (Some (f x))) xs) = Some (map f xs)"
  by (induction xs) simp_all

lemma distinct_concat_map:
  "distinct xs \<Longrightarrow> (\<And>x. x \<in> set xs \<Longrightarrow> distinct (f x))
   \<Longrightarrow> (\<And>x y. x \<in> set xs \<Longrightarrow> y \<in> set xs \<Longrightarrow> x \<noteq> y \<Longrightarrow> set (f x) \<inter> set (f y) = {})
   \<Longrightarrow> distinct (concat (map f xs))"
proof (induction xs)
  case (Cons x xs)
  have "set (f x) \<inter> set (f y) = {}" if "y \<in> set xs" for y
    using Cons.prems(1) that by (intro Cons.prems(3)) auto
  moreover have "distinct (concat (map f xs))" by (rule Cons.IH) (use Cons.prems in auto)
  ultimately show ?case using Cons.prems(2) [of x] by auto
qed simp

lemma walk_tree_spec:
  assumes ok: "harness_ok h" and lab: "\<And>s. key (lab s) = session_id s"
    and r: "\<And>a b. (a, b) \<in> edges h \<Longrightarrow> r a < (r b :: nat)" "\<And>i. r i \<le> length (sessions h)"
  shows "length (sessions h) < k + r i \<Longrightarrow> hm_get (sessions h) i \<noteq> None \<Longrightarrow>
    \<exists>t. walk_tree lab k h i = Some (Some t) \<and> distinct (map key (tree_labels t))
      \<and> set (map key (tree_labels t)) = (edges h)\<^sup>* `` {i}"
proof (induction k arbitrary: i)
  case 0
  with r(2) [of i] show ?case by simp
next
  case (Suc k)
  then obtain s where s: "hm_get (sessions h) i = Some s" by auto
  define cs where "cs = child_sessions s"
  have sid: "session_id s = i" "distinct cs" using session_key [OF ok s] by (simp_all add: cs_def)
  have edge: "(i, c) \<in> edges h \<longleftrightarrow> c \<in> set cs" for c
    using s by (simp add: edges_children cs_def)
  let ?good = "\<lambda>c t. walk_tree lab k h c = Some (Some t) \<and> distinct (map key (tree_labels t))
      \<and> set (map key (tree_labels t)) = (edges h)\<^sup>* `` {c}"
  have "\<exists>t. ?good c t" if "c \<in> set cs" for c
  proof (rule Suc.IH)
    show "length (sessions h) < k + r c" using Suc.prems(1) r(1) [of i c] that edge by simp
    show "hm_get (sessions h) c \<noteq> None" using that edge by (auto simp: edges_iff [OF ok])
  qed
  then obtain T where T: "\<And>c. c \<in> set cs \<Longrightarrow> ?good c (T c)" by metis
  have eq: "map (walk_tree lab k h) cs = map (\<lambda>c. Some (Some (T c))) cs"
    using T by simp
  have walk: "walk_tree lab (Suc k) h i = Some (Some (TreeNode (lab s) (map T cs)))"
    using s by (simp add: cs_def [symmetric] eq collect_known_Some)
  have labels: "map key (tree_labels (TreeNode (lab s) (map T cs)))
      = i # concat (map (\<lambda>c. map key (tree_labels (T c))) cs)"
    using lab sid(1) by (simp add: map_concat comp_def)
  have sets: "set (concat (map (\<lambda>c. map key (tree_labels (T c))) cs)) = (edges h)\<^sup>+ `` {i}"
  proof -
    have "set (concat (map (\<lambda>c. map key (tree_labels (T c))) cs)) = (\<Union>c\<in>set cs. (edges h)\<^sup>* `` {c})"
      using T by simp
    also have "\<dots> = (edges h)\<^sup>+ `` {i}"
      using edge by (auto simp: trancl_unfold_left relcomp_unfold)
    finally show ?thesis .
  qed
  have "distinct (concat (map (\<lambda>c. map key (tree_labels (T c))) cs))"
  proof (rule distinct_concat_map [OF sid(2)])
    show "set (map key (tree_labels (T c))) \<inter> set (map key (tree_labels (T d))) = {}"
      if "c \<in> set cs" "d \<in> set cs" "c \<noteq> d" for c d
      using siblings_disjoint [OF ok, of i c d] that T edge by simp
  qed (use T in simp)
  then have "distinct (map key (tree_labels (TreeNode (lab s) (map T cs))))"
    unfolding labels using edges_acyclic [OF ok] sets by auto
  moreover have "set (map key (tree_labels (TreeNode (lab s) (map T cs)))) = (edges h)\<^sup>* `` {i}"
    unfolding labels using sets by (auto simp: rtrancl_eq_or_trancl)
  ultimately show ?case using walk by blast
qed


text \<open>A parent with two children, one of them with a child of its own.\<close>

definition sample_harness :: harness where
  "sample_harness = create_session ''d'' Reviewer (Some ''b'') (create_session ''c'' Coder (Some ''a'')
     (create_session ''b'' Coder (Some ''a'') (create_session ''a'' Planner None new_harness)))"

lemma create_reachable:
  "reachable (\<lambda>h. h = new_harness) harness_step h \<Longrightarrow> fresh_id i p h
   \<Longrightarrow> reachable (\<lambda>h. h = new_harness) harness_step (create_session i rl p h)"
proof -
  assume h: "reachable (\<lambda>h. h = new_harness) harness_step h" "fresh_id i p h"
  have "harness_step h (harness_run (HCreate i rl p) h)" by (rule harness_op) (simp add: h(2))
  with h(1) show ?thesis by (simp add: reach_step)
qed

lemma sample_reachable: "reachable (\<lambda>h. h = new_harness) harness_step sample_harness"
  unfolding sample_harness_def
  by (intro create_reachable) (rule reach_init, rule refl, code_simp+)


section \<open>Metrics\<close>

fun tree_height :: "'a tree_node \<Rightarrow> nat" where
  "tree_height (TreeNode a ts) = foldr max (map (\<lambda>t. Suc (tree_height t)) ts) 0"

lemma collect_known_map_Some:
  "collect_known (map f xs) = Some ts \<Longrightarrow> (\<And>x. x \<in> set xs \<Longrightarrow> \<exists>t. f x = Some (Some t))
   \<Longrightarrow> length ts = length xs \<and> (\<forall>i<length xs. f (xs ! i) = Some (Some (ts ! i)))"
proof (induction xs arbitrary: ts)
  case (Cons x xs)
  then obtain t ts' where "f x = Some (Some t)" "ts = t # ts'" "collect_known (map f xs) = Some ts'"
    by (metis (no_types, lifting) collect_known.simps(4) list.set_intros(1) list.simps(9) map_option_eq_Some)
  with Cons show ?case by (auto simp: nth_Cons split: nat.split)
qed simp

lemma collect_known_None: "collect_known xs = Some ts \<Longrightarrow> None \<notin> set xs"
  by (induction xs arbitrary: ts rule: collect_known.induct) auto

lemma walk_tree_missing: "walk_tree lab k h c = Some None \<Longrightarrow> hm_get (sessions h) c = None"
  by (cases k) (auto split: option.splits)

lemma those_map_Some: "those (map (\<lambda>x. Some (f x)) xs) = Some (map f xs)"
  by (induction xs) simp_all

lemma foldr_max_add: "foldr max (map (\<lambda>t. d + f t) ts) (d::nat) = d + foldr max (map f ts) 0"
  by (induction ts) auto

text \<open>The depth of a session is the height of its tree.\<close>

lemma session_depth_height:
  assumes ok: "harness_ok h"
  shows "walk_tree lab k h i = Some (Some t) \<Longrightarrow> session_depth k h i d = Some (d + tree_height t)"
proof (induction k arbitrary: i t d)
  case (Suc k)
  then obtain s ts where s: "hm_get (sessions h) i = Some s"
    "collect_known (map (walk_tree lab k h) (child_sessions s)) = Some ts" "t = TreeNode (lab s) ts"
    by (auto split: option.splits)
  have known: "\<exists>t. walk_tree lab k h c = Some (Some t)" if "c \<in> set (child_sessions s)" for c
  proof -
    have "hm_get (sessions h) c \<noteq> None"
      using that s(1) edges_iff [OF ok, of i c] edges_children [of i c h] by auto
    moreover have "walk_tree lab k h c \<noteq> None"
      using collect_known_None [OF s(2)] that by force
    ultimately show ?thesis using walk_tree_missing [of lab k h c] by fastforce
  qed
  note ts = collect_known_map_Some [OF s(2) known]
  have "map (\<lambda>c. session_depth k h c (d + 1)) (child_sessions s) = map (\<lambda>t. Some (d + Suc (tree_height t))) ts"
    using ts Suc.IH by (intro nth_equalityI) auto
  then have "those (map (\<lambda>c. session_depth k h c (d + 1)) (child_sessions s)) = Some (map (\<lambda>t. d + Suc (tree_height t)) ts)"
    by (simp only: those_map_Some)
  then show ?case
    using s ts foldr_max_add [of d "\<lambda>t. Suc (tree_height t)" ts]
    by (cases "child_sessions s = []") simp_all
qed simp

text \<open>The counters of a snapshot, over the sessions it walks.\<close>

abbreviation count_all :: "agent_session list \<Rightarrow> harness_metrics \<Rightarrow> harness_metrics" where
  "count_all ss m \<equiv> foldl (\<lambda>m s. count_session s m) m ss"

lemma count_session_counters:
  "idle_sessions (count_session s m) + active_sessions (count_session s m)
     + completed_sessions (count_session s m) + failed_sessions (count_session s m)
     + terminated_sessions (count_session s m)
   = idle_sessions m + active_sessions m + completed_sessions m + failed_sessions m + terminated_sessions m + 1"
  "total_tokens (count_session s m) = merge_reported (total_usage s) (total_tokens m)"
  "active_sessions (count_session s m) = active_sessions m + (if session_status s = SRunning then 1 else 0)"
  by (cases "session_status s"; simp add: count_session_def count_status_def Let_def)+

lemma count_all_counters:
  "idle_sessions (count_all ss m) + active_sessions (count_all ss m)
     + completed_sessions (count_all ss m) + failed_sessions (count_all ss m)
     + terminated_sessions (count_all ss m)
   = idle_sessions m + active_sessions m + completed_sessions m + failed_sessions m
     + terminated_sessions m + of_nat (length ss)"
proof (induction ss arbitrary: m)
  case (Cons s ss)
  then show ?case using count_session_counters(1) [of s m] by (simp add: algebra_simps)
qed simp

lemma count_all_active:
  "active_sessions (count_all ss m) = active_sessions m + of_nat (length (filter (\<lambda>s. session_status s = SRunning) ss))"
  by (induction ss arbitrary: m) (simp_all add: count_session_counters)

lemma merge_reported_sum: "merge_reported u t = t + (case u of None \<Rightarrow> 0 | Some u \<Rightarrow> u)"
  by (simp add: merge_reported_def plus_token_usage_def [symmetric] split: option.split)

lemma count_all_tokens: "total_tokens (count_all ss m) = total_tokens m + sum_list (reported (map total_usage ss))"
  by (induction ss arbitrary: m)
    (simp_all add: count_session_counters merge_reported_sum reported_def map_filter_def add.assoc
      split: option.split)

lemma those_all_Some: "(\<And>x. x \<in> set xs \<Longrightarrow> f x \<noteq> None) \<Longrightarrow> \<exists>ys. those (map f xs) = Some ys"
  by (induction xs) (auto split: option.split)

text \<open>
  C1: The metrics of a reachable harness are computed without running out of fuel; each session
  is counted under exactly one status, the active ones are those running, and the tokens are
  the saturating sum of all reported usages.
\<close>

theorem snapshot_counts:
  assumes "reachable (\<lambda>h. h = new_harness) harness_step h"
  shows "\<exists>m. snapshot (Suc (length (sessions h))) h = Some m
    \<and> idle_sessions m + active_sessions m + completed_sessions m + failed_sessions m + terminated_sessions m
        = of_nat (length (sessions h))
    \<and> active_sessions m = of_nat (length (filter (\<lambda>s. session_status s = SRunning) (hm_values (sessions h))))
    \<and> total_tokens m = sum_list (reported (map total_usage (hm_values (sessions h))))"
proof -
  have ok: "harness_ok h" by (rule harness_machine.reachable_inv [OF assms])
  obtain r :: "string \<Rightarrow> nat" where r: "\<And>a b. (a, b) \<in> edges h \<Longrightarrow> r a < r b"
    "\<And>i. r i \<le> length (sessions h)"
    using edges_rank [OF ok] by blast
  have "session_depth (Suc (length (sessions h))) h i 0 \<noteq> None" for i
  proof (cases "hm_get (sessions h) i")
    case (Some s)
    have "\<exists>t. walk_tree session_id (Suc (length (sessions h))) h i = Some (Some t)
      \<and> distinct (map id (tree_labels t)) \<and> set (map id (tree_labels t)) = (edges h)\<^sup>* `` {i}"
      by (rule walk_tree_spec [OF ok _ r]) (simp_all add: Some)
    then obtain t where "walk_tree session_id (Suc (length (sessions h))) h i = Some (Some t)" by blast
    from session_depth_height [OF ok this] show ?thesis by simp
  qed simp
  then obtain ds where ds: "those (map (\<lambda>i. session_depth (Suc (length (sessions h))) h i 0) (roots h)) = Some ds"
    using those_all_Some [of "roots h" "\<lambda>i. session_depth (Suc (length (sessions h))) h i 0"] by auto
  show ?thesis
    unfolding snapshot_def ds
    using count_all_counters [where ss = "hm_values (sessions h)" and m = zero_metrics]
      count_all_active [where ss = "hm_values (sessions h)" and m = zero_metrics]
      count_all_tokens [where ss = "hm_values (sessions h)" and m = zero_metrics]
    by (simp add: zero_metrics_def hm_values_def plus_token_usage_def token_merge_def)
qed

theorem snapshot_counts_witness:
  "\<exists>m. snapshot 5 sample_harness = Some m \<and> active_sessions m = 4"
proof -
  have "length (sessions sample_harness) = 4"
    "length (filter (\<lambda>s. session_status s = SRunning) (hm_values (sessions sample_harness))) = 4"
    by code_simp+
  with snapshot_counts [OF sample_reachable] show ?thesis by auto
qed

text \<open>The per-role keys are not the display names the comment promises.\<close>

lemma role_key_toolcaller: "role_key ToolCaller = ''toolcaller''" "agent_role_display ToolCaller = ''tool_caller''"
  by (simp_all add: role_key_def)

section \<open>Failed children\<close>

lemma count_children_lengths:
  "(\<And>c. c \<in> set cs \<Longrightarrow> hm_get (sessions h) c \<noteq> None) \<Longrightarrow>
   count_children h cs = (length cs, length (filter (\<lambda>c. case session_status_of c h of
      Some st \<Rightarrow> is_failed st | None \<Rightarrow> False) cs))"
  by (induction cs) (auto simp: session_status_of_def split: option.splits)

definition failed_in :: "harness \<Rightarrow> string \<Rightarrow> bool" where
  "failed_in h c \<longleftrightarrow> (case session_status_of c h of Some st \<Rightarrow> is_failed st | None \<Rightarrow> False)"

text \<open>
  After a child failed, the manager aborts the parent exactly when all its children have
  failed, escalates when at least half have, and goes on otherwise; the failed child counts.
\<close>

theorem classify_child_failure_spec:
  assumes "reachable (\<lambda>h. h = new_harness) harness_step h"
    and s: "hm_get (sessions h) p = Some s" and c: "c \<in> set (child_sessions s)"
  shows "case classify_child_failure p c e h of (answer, h') \<Rightarrow>
    let n = length (child_sessions s); f = length (filter (failed_in h') (child_sessions s)) in
    answer = Inr (if f = n then RecAbortParent else if n \<le> 2 * f then RecEscalateToPlanner else RecContinue)
    \<and> failed_in h' c \<and> 0 < f \<and> f \<le> n"
proof -
  have ok: "harness_ok h" by (rule harness_machine.reachable_inv [OF assms(1)])
  define h' where "h' = record_error c e h"
  have get': "hm_get (sessions h') i = (if i = c then map_option (\<lambda>s. s\<lparr>session_status := SFailed e\<rparr>)
      (hm_get (sessions h) i) else hm_get (sessions h) i)" for i
    by (simp add: h'_def record_error_def modify_session_def hm_get_modify)
  have known: "hm_get (sessions h) x \<noteq> None" if "x \<in> set (child_sessions s)" for x
    using that s edges_iff [OF ok, of p x] edges_children [of p x h] by auto
  then have known': "hm_get (sessions h') x \<noteq> None" if "x \<in> set (child_sessions s)" for x
    using known [OF that] by (auto simp: get')
  obtain s' where s': "hm_get (sessions h') p = Some s'" "child_sessions s' = child_sessions s"
    using s by (cases "p = c") (simp_all add: get')
  have fc: "failed_in h' c"
    using known [OF c] by (auto simp: failed_in_def session_status_of_def get' is_failed_def)
  let ?f = "length (filter (failed_in h') (child_sessions s))"
  have count: "count_children h' (child_sessions s) = (length (child_sessions s), ?f)"
    using count_children_lengths [OF known'] by (simp add: failed_in_def [abs_def])
  have "filter (failed_in h') (child_sessions s) \<noteq> []" using c fc by (auto simp: filter_empty_conv)
  moreover have "?f \<le> length (child_sessions s)" by (rule length_filter_le)
  ultimately show ?thesis
    using s' count fc
    by (simp add: classify_child_failure_def h'_def [symmetric] Let_def mult.commute le_antisym)
qed

theorem classify_child_failure_spec_witness:
  "fst (classify_child_failure ''a'' ''b'' ''boom'' sample_harness) = Inr RecEscalateToPlanner"
proof -
  obtain s where s: "hm_get (sessions sample_harness) ''a'' = Some s" "child_sessions s = [''b'', ''c'']"
    by (rule that [of "the (hm_get (sessions sample_harness) ''a'')"]) code_simp+
  have "filter (failed_in (snd (classify_child_failure ''a'' ''b'' ''boom'' sample_harness))) [''b'', ''c''] = [''b'']"
    by code_simp
  with classify_child_failure_spec [OF sample_reachable s(1), of "''b''" "''boom''"] s(2) show ?thesis
    by (simp add: Let_def split: prod.splits)
qed

section \<open>Messages\<close>

text \<open>
  A store of messages between its writers and its readers: what each operation takes in and
  gives out, against what is inside.
\<close>

fun op_log :: "('op \<Rightarrow> 's \<Rightarrow> 's) \<Rightarrow> ('op \<Rightarrow> 's \<Rightarrow> 'm list) \<Rightarrow> 'op list \<Rightarrow> 's \<Rightarrow> 'm list" where
  "op_log step f [] s = []"
| "op_log step f (op # ops) s = f op s @ op_log step f ops (step op s)"

locale message_store =
  fixes step :: "'op \<Rightarrow> 's \<Rightarrow> 's"
    and taken :: "'op \<Rightarrow> 's \<Rightarrow> 'm list" and given :: "'op \<Rightarrow> 's \<Rightarrow> 'm list"
    and content :: "'s \<Rightarrow> 'm list" and keeps :: "'op \<Rightarrow> bool"
  assumes conserve: "keeps op \<Longrightarrow> given op s @ content (step op s) = content s @ taken op s"
begin

lemma all_conserved:
  "list_all keeps ops \<Longrightarrow>
     op_log step given ops s @ content (fold step ops s) = content s @ op_log step taken ops s"
proof (induction ops arbitrary: s)
  case (Cons op ops)
  then have "given op s @ op_log step given ops (step op s) @ content (fold step ops (step op s))
      = given op s @ content (step op s) @ op_log step taken ops (step op s)"
    by simp
  also have "\<dots> = content s @ taken op s @ op_log step taken ops (step op s)"
    using conserve [of op s] Cons.prems by simp
  finally show ?case by simp
qed simp

end

definition mailbox :: "string \<Rightarrow> message_bus \<Rightarrow> agent_message list" where
  "mailbox i b = (case hm_get (boxes b) i of None \<Rightarrow> [] | Some q \<Rightarrow> q)"

text \<open>The messages an operation accepts for \<open>i\<close> (its \<^verbatim>\<open>send\<close> returned), and those it hands out.\<close>

fun accepted_for :: "string \<Rightarrow> bus_op \<Rightarrow> message_bus \<Rightarrow> agent_message list" where
  "accepted_for i (BSend m) b = (if to_session m = i \<and> fst (bus_send m b) = Some () then [m] else [])"
| "accepted_for i _ b = []"

fun received_by :: "string \<Rightarrow> bus_op \<Rightarrow> message_bus \<Rightarrow> agent_message list" where
  "received_by i (BTryRecv j) b = (if j = i then (case fst (try_recv j b) of Some m \<Rightarrow> [m] | None \<Rightarrow> []) else [])"
| "received_by i (BDrain j) b = (if j = i then fst (drain j b) else [])"
| "received_by i _ b = []"

definition not_close :: "string \<Rightarrow> bus_op \<Rightarrow> bool" where
  "not_close i op \<longleftrightarrow> op \<noteq> BClose i"

lemma mailbox_ensure [simp]: "mailbox i (ensure_mailbox j b) = mailbox i b"
  by (auto simp: mailbox_def ensure_mailbox_def hm_contains_def hm_get_insert split: option.splits)

lemma mailbox_put: "mailbox i (b\<lparr>boxes := hm_insert (boxes b) j q\<rparr>) = (if i = j then q else mailbox i b)"
  by (simp add: mailbox_def hm_get_insert)

lemma ensure_get: "hm_get (boxes (ensure_mailbox i b)) i = Some (mailbox i b)"
  by (auto simp: mailbox_def ensure_mailbox_def hm_contains_def hm_get_insert)

lemma bus_send_mailbox:
  "bus_send m b = (if length (mailbox (to_session m) b) < queue_cap b
     then (Some (), (ensure_mailbox (to_session m) b)\<lparr>boxes :=
        hm_insert (boxes (ensure_mailbox (to_session m) b)) (to_session m) (mailbox (to_session m) b @ [m])\<rparr>)
     else (None, ensure_mailbox (to_session m) b))"
  unfolding bus_send_def Let_def ensure_get by (simp add: ensure_mailbox_def)

interpretation mail: message_store bus_step "accepted_for i" "received_by i" "mailbox i" "not_close i" for i
proof
  fix op s assume keeps: "not_close i op"
  show "received_by i op s @ mailbox i (bus_step op s) = mailbox i s @ accepted_for i op s"
  proof (cases op)
    case (BSend m)
    then show ?thesis by (simp add: bus_send_mailbox mailbox_put)
  next
    case (BTryRecv j)
    then show ?thesis
      by (cases "hm_get (boxes s) j") (auto simp: try_recv_def hm_get_insert mailbox_def split: list.split)
  next
    case (BDrain j)
    then show ?thesis
      by (cases "hm_get (boxes s) j") (auto simp: drain_def hm_get_insert mailbox_def)
  next
    case (BClose j)
    then show ?thesis using keeps by (simp add: not_close_def close_mailbox_def mailbox_def hm_get_remove)
  qed simp
qed


definition sample_message :: "string \<Rightarrow> string \<Rightarrow> agent_message" where
  "sample_message to body = \<lparr>from_session = ''x'', to_session = to, msg_kind = Query, msg_body = body\<rparr>"


lemma mailbox_bounded:
  "(\<And>i. length (mailbox i b) \<le> queue_cap b) \<Longrightarrow> length (mailbox i (bus_step op b)) \<le> queue_cap (bus_step op b)"
proof -
  assume b: "\<And>i. length (mailbox i b) \<le> queue_cap b"
  have cap: "queue_cap (bus_step op b) = queue_cap b"
    by (cases op) (auto simp: ensure_mailbox_def bus_send_mailbox try_recv_def drain_def close_mailbox_def
        split: option.split list.split)
  show ?thesis
  proof (cases op)
    case (BSend m)
    then show ?thesis using b [of i] cap by (auto simp: bus_send_mailbox mailbox_put)
  next
    case (BTryRecv j)
    then show ?thesis using b [of i] b [of j] cap
      by (cases "hm_get (boxes b) j") (auto simp: try_recv_def hm_get_insert mailbox_def split: list.splits)
  next
    case (BDrain j)
    then show ?thesis using b [of i] cap by (cases "hm_get (boxes b) j") (auto simp: drain_def mailbox_put)
  next
    case (BClose j)
    then show ?thesis using b [of i] cap by (auto simp: close_mailbox_def mailbox_def hm_get_remove)
  qed (use b [of i] cap in simp_all)
qed

section \<open>Termination during use\<close>

text \<open>
  A session terminated while its model answers becomes ready again, without a mailbox; and a
  message to a terminated session is accepted into a mailbox nobody closes again.
\<close>

lemma terminated_revived:
  assumes "hm_get (sessions h) i \<noteq> None"
  shows "session_status_of i (inference_end i (Inr out) (snd (terminate i (inference_begin i h)))) = Some SReady"
    and "\<not> hm_contains (boxes (bus (inference_end i (Inr out) (snd (terminate i (inference_begin i h)))))) i"
  using assms
  by (auto simp: session_status_of_def inference_end_def terminate_def inference_begin_def Let_def
      modify_session_def hm_get_modify record_output_session_def close_mailbox_def hm_contains_def hm_get_remove)

lemma message_after_terminate:
  assumes "hm_get (sessions h) i \<noteq> None" "to_session m = i" "0 < queue_cap (bus h)"
  shows "fst (bus_send m (bus (snd (terminate i h)))) = Some ()"
    and "mailbox i (snd (bus_send m (bus (snd (terminate i h))))) = [m]"
  using assms
  by (auto simp: terminate_def Let_def bus_send_mailbox close_mailbox_def mailbox_def hm_get_remove
      modify_session_def hm_get_insert ensure_mailbox_def hm_contains_def)

end
