(* ===== verification/Trace.thy ===== *)
theory Trace
  imports Lifecycle
begin

text \<open>
  The trace of a run, as \<^verbatim>\<open>src/orchestrator/mod.rs\<close> rebuilds it from the stored action events
  (\<^verbatim>\<open>build_trace_graph\<close>) and measures it (\<^verbatim>\<open>build_behavior_view\<close>: lanes, peak parallelism,
  critical path, bottleneck), and the event sink of \<^verbatim>\<open>src/orchestrator/node_executor.rs\<close> that
  turns runtime events into action events.

  An instant is a number of nanoseconds. The payload of an event, a JSON value, is the fields
  the code reads from it, as \<^verbatim>\<open>get\<close> and \<^verbatim>\<open>as_str\<close>, \<^verbatim>\<open>as_u64\<close> or \<^verbatim>\<open>as_array\<close> give them.
\<close>

section \<open>Action events\<close>

record trace_payload =
  pl_nodes :: "(string option \<times> string option \<times> string list option) list option"
  pl_node_id :: "string option"
  pl_role :: "string option"
  pl_model :: "string option"
  pl_duration_ms :: "nat option"
  pl_dependencies :: "string list option"

definition empty_payload :: trace_payload where
  "empty_payload = \<lparr>pl_nodes = None, pl_node_id = None, pl_role = None, pl_model = None,
     pl_duration_ms = None, pl_dependencies = None\<rparr>"

record action_event =
  ae_timestamp :: int
  ae_action :: run_action_type
  ae_actor_id :: "string option"
  ae_payload :: trace_payload

text \<open>
  The event sink: the action, the actor and the payload of a runtime event. Token chunks go to
  another channel and give none.
\<close>

definition node_payload :: "string \<Rightarrow> trace_payload" where
  "node_payload i = empty_payload\<lparr>pl_node_id := Some i\<rparr>"

fun github_action :: "string \<Rightarrow> run_action_type" where
  "github_action t =
     (if t = ''issue_created'' then RA_GitHubIssueCreated
      else if t = ''issue_commented'' then RA_GitHubIssueCommented
      else if t = ''issue_closed'' then RA_GitHubIssueClosed
      else if t = ''pr_created'' then RA_GitHubPrCreated
      else if t = ''pr_reviewed'' then RA_GitHubPrReviewed
      else if t = ''pr_commented'' then RA_GitHubPrCommented
      else if t = ''pr_merged'' then RA_GitHubPrMerged
      else if t = ''branch_created'' then RA_GitHubBranchCreated
      else RA_GitHubIssueCreated)"

fun event_payload :: "runtime_event \<Rightarrow> trace_payload" where
  "event_payload (NodeStarted i r p) = (node_payload i)\<lparr>pl_role := Some (agent_role_display r)\<rparr>"
| "event_payload (NodeCompleted i r m d out tr u p) = (node_payload i)\<lparr>pl_role := Some (agent_role_display r),
     pl_model := Some m, pl_duration_ms := (if int d < 2 ^ 64 then Some d else None)\<rparr>"
| "event_payload (NodeFailed i r e p) = (node_payload i)\<lparr>pl_role := Some (agent_role_display r)\<rparr>"
| "event_payload (NodeSkipped i reason) = node_payload i"
| "event_payload (DynamicNodeAdded i from_node r deps p) = (node_payload i)\<lparr>pl_role := Some (agent_role_display r),
     pl_dependencies := Some deps\<rparr>"
| "event_payload (NodeTokenChunk i r t q) = empty_payload"
| "event_payload (CoderSessionStarted i s b) = node_payload i"
| "event_payload (CoderOutputChunk i s st c) = node_payload i"
| "event_payload (CoderFileChanged i s f) = node_payload i"
| "event_payload (CoderSessionCompleted i s f c) = node_payload i"
| "event_payload GraphCompleted = empty_payload"
| "event_payload (ValidationCompleted i ph b) = node_payload i"
| "event_payload (GitCommitCreated i h m b) = node_payload i"
| "event_payload (RepoCloned i p b) = node_payload i"
| "event_payload (RepoAnalyzed i l n) = node_payload i"
| "event_payload (InteractiveStep i n th a ob) = node_payload i"
| "event_payload (GitHubActivity i p t n u ti) = node_payload i"

fun event_action :: "runtime_event \<Rightarrow> (run_action_type \<times> string option) option" where
  "event_action (NodeStarted i r p) = Some (RA_NodeStarted, Some i)"
| "event_action (NodeCompleted i r m d out tr u p) = Some (RA_NodeCompleted, Some i)"
| "event_action (NodeFailed i r e p) = Some (RA_NodeFailed, Some i)"
| "event_action (NodeSkipped i reason) = Some (RA_NodeSkipped, Some i)"
| "event_action (DynamicNodeAdded i from_node r deps p) = Some (RA_DynamicNodeAdded, Some i)"
| "event_action (NodeTokenChunk i r t q) = None"
| "event_action (CoderSessionStarted i s b) = Some (RA_CoderSessionStarted, Some i)"
| "event_action (CoderOutputChunk i s st c) = Some (RA_NodeTokenChunk, Some i)"
| "event_action (CoderFileChanged i s f) = Some (RA_CoderSessionStarted, Some i)"
| "event_action (CoderSessionCompleted i s f c) = Some (RA_CoderSessionCompleted, Some i)"
| "event_action GraphCompleted = Some (RA_GraphCompleted, Some ''graph'')"
| "event_action (ValidationCompleted i ph passed) =
     Some (if passed then RA_ValidationPassed else RA_ValidationFailed, Some i)"
| "event_action (GitCommitCreated i h m b) = Some (RA_GitCommitCreated, Some i)"
| "event_action (RepoCloned i p b) = Some (RA_RepoCloneCompleted, Some i)"
| "event_action (RepoAnalyzed i l n) = Some (RA_RepoAnalysisCompleted, Some i)"
| "event_action (InteractiveStep i n th a ob) = Some (RA_InteractiveStep, Some i)"
| "event_action (GitHubActivity i p t n u ti) = Some (github_action t, Some i)"

fun event_session_type :: "runtime_event \<Rightarrow> session_event_type" where
  "event_session_type (NodeStarted i r p) = AgentStarted"
| "event_session_type (NodeCompleted i r m d out tr u p) = AgentOutput"
| "event_session_type (NodeFailed i r e p) = RunFailed"
| "event_session_type (RepoCloned i p b) = AgentOutput"
| "event_session_type (RepoAnalyzed i l n) = AgentOutput"
| "event_session_type _ = RunProgress"

text \<open>The stored event; each is written by a task of its own, at the instant \<open>now\<close>.\<close>

definition action_of_event :: "int \<Rightarrow> runtime_event \<Rightarrow> action_event option" where
  "action_of_event now e = (case event_action e of
     None \<Rightarrow> None
   | Some (a, actor) \<Rightarrow> Some \<lparr>ae_timestamp = now, ae_action = a, ae_actor_id = actor,
       ae_payload = event_payload e\<rparr>)"

text \<open>\<^verbatim>\<open>record_graph_initialized\<close>.\<close>

definition graph_initialized_event :: "int \<Rightarrow> execution_graph \<Rightarrow> action_event" where
  "graph_initialized_event now g = \<lparr>ae_timestamp = now, ae_action = RA_GraphInitialized,
     ae_actor_id = Some ''graph'', ae_payload = empty_payload\<lparr>pl_nodes := Some (map (\<lambda>n.
       (Some (node_id n), Some (agent_role_display (role n)), Some (dependencies n))) (graph_nodes g))\<rparr>\<rparr>"

section \<open>The trace graph\<close>

record node_trace_state =
  nt_node_id :: string
  nt_role :: "agent_role option"
  nt_dependencies :: "string list"
  nt_status :: string
  nt_started_at :: "int option"
  nt_finished_at :: "int option"
  nt_duration_ms :: "nat option"
  nt_retries :: u32
  nt_model :: "string option"

type_synonym trace_nodes = "(string, node_trace_state) hashmap"

text \<open>The states \<^verbatim>\<open>or_insert\<close> puts for a node that is not there yet.\<close>

definition blank_node :: "string \<Rightarrow> agent_role option \<Rightarrow> string \<Rightarrow> node_trace_state" where
  "blank_node i r st = \<lparr>nt_node_id = i, nt_role = r, nt_dependencies = [], nt_status = st,
     nt_started_at = None, nt_finished_at = None, nt_duration_ms = None, nt_retries = 0, nt_model = None\<rparr>"

definition entry_or_insert :: "trace_nodes \<Rightarrow> node_trace_state \<Rightarrow> trace_nodes" where
  "entry_or_insert m st = (if hm_contains m (nt_node_id st) then m else hm_insert m (nt_node_id st) st)"

definition with_entry :: "trace_nodes \<Rightarrow> node_trace_state \<Rightarrow> (node_trace_state \<Rightarrow> node_trace_state) \<Rightarrow> trace_nodes" where
  "with_entry m st f = hm_modify (entry_or_insert m st) (nt_node_id st) f"

definition role_or :: "agent_role option \<Rightarrow> node_trace_state \<Rightarrow> node_trace_state" where
  "role_or r n = (if nt_role n = None then n\<lparr>nt_role := r\<rparr> else n)"

definition deps_or :: "string list \<Rightarrow> node_trace_state \<Rightarrow> node_trace_state" where
  "deps_or deps n = (if nt_dependencies n = [] \<and> deps \<noteq> [] then n\<lparr>nt_dependencies := deps\<rparr> else n)"

definition output_node :: "agent_execution_record \<Rightarrow> node_trace_state" where
  "output_node out = (blank_node (er_node_id out) (Some (er_role out))
       (if er_succeeded out then ''succeeded'' else ''failed''))
     \<lparr>nt_duration_ms := Some (er_duration_ms out), nt_model := Some (er_model out)\<rparr>"

record trace_acc =
  ta_nodes :: trace_nodes
  ta_edges :: "(string \<times> string) list"
  ta_starts :: "(string, u32) hashmap"

definition parsed_role :: "trace_payload \<Rightarrow> agent_role option" where
  "parsed_role p = Option.bind (pl_role p) parse_agent_role"

definition payload_deps :: "string list option \<Rightarrow> string list" where
  "payload_deps d = (case d of None \<Rightarrow> [] | Some ds \<Rightarrow> ds)"

text \<open>An entry of \<^verbatim>\<open>GraphInitialized\<close>, and a node added dynamically; edges are a set.\<close>

definition add_edges :: "(string \<times> string) list \<Rightarrow> string \<Rightarrow> string list \<Rightarrow> (string \<times> string) list" where
  "add_edges es i deps = fold (\<lambda>d es. List.insert (d, i) es) deps es"

definition graph_item :: "trace_acc \<Rightarrow> string option \<times> string option \<times> string list option \<Rightarrow> trace_acc" where
  "graph_item acc item = (case item of
     (None, _, _) \<Rightarrow> acc
   | (Some i, r, ds) \<Rightarrow>
       let rl = Option.bind r parse_agent_role; deps = payload_deps ds in
       acc\<lparr>ta_nodes := with_entry (ta_nodes acc)
              ((blank_node i rl ''pending'')\<lparr>nt_dependencies := deps\<rparr>)
              (\<lambda>n. let n1 = deps_or deps (role_or rl n)
                   in if nt_status n1 = [] then n1\<lparr>nt_status := ''pending''\<rparr> else n1),
           ta_edges := add_edges (ta_edges acc) i deps\<rparr>)"

definition dynamic_item :: "trace_acc \<Rightarrow> string \<Rightarrow> agent_role option \<Rightarrow> string list \<Rightarrow> trace_acc" where
  "dynamic_item acc i rl deps = acc\<lparr>ta_nodes := with_entry (ta_nodes acc)
        ((blank_node i rl ''pending'')\<lparr>nt_dependencies := deps\<rparr>) (\<lambda>n. deps_or deps (role_or rl n)),
      ta_edges := add_edges (ta_edges acc) i deps\<rparr>"

definition trace_event :: "trace_acc \<Rightarrow> action_event \<Rightarrow> trace_acc" where
  "trace_event acc e = (let p = ae_payload e; t = ae_timestamp e; rl = parsed_role p in
     case ae_action e of
       RA_GraphInitialized \<Rightarrow> (case pl_nodes p of None \<Rightarrow> acc | Some items \<Rightarrow> foldl graph_item acc items)
     | RA_NodeStarted \<Rightarrow> (case pl_node_id p of None \<Rightarrow> acc | Some i \<Rightarrow>
         acc\<lparr>ta_nodes := with_entry (ta_nodes acc) ((blank_node i rl ''running'')\<lparr>nt_started_at := Some t\<rparr>)
               (\<lambda>n. role_or rl (n\<lparr>nt_started_at := (if nt_started_at n = None then Some t else nt_started_at n),
                                  nt_status := ''running''\<rparr>)),
             ta_starts := hm_insert (ta_starts acc) i
               (sat_add (case hm_get (ta_starts acc) i of Some c \<Rightarrow> c | None \<Rightarrow> 0) 1)\<rparr>)
     | RA_NodeCompleted \<Rightarrow> (case pl_node_id p of None \<Rightarrow> acc | Some i \<Rightarrow>
         acc\<lparr>ta_nodes := with_entry (ta_nodes acc) ((blank_node i rl ''succeeded'')\<lparr>nt_finished_at := Some t\<rparr>)
               (\<lambda>n. let n1 = role_or rl (n\<lparr>nt_status := ''succeeded'', nt_finished_at := Some t\<rparr>) in
                    n1\<lparr>nt_model := (if nt_model n1 = None then pl_model p else nt_model n1),
                       nt_duration_ms := (if nt_duration_ms n1 = None then pl_duration_ms p else nt_duration_ms n1)\<rparr>)\<rparr>)
     | RA_NodeFailed \<Rightarrow> (case pl_node_id p of None \<Rightarrow> acc | Some i \<Rightarrow>
         acc\<lparr>ta_nodes := with_entry (ta_nodes acc) ((blank_node i rl ''failed'')\<lparr>nt_finished_at := Some t\<rparr>)
               (\<lambda>n. role_or rl (n\<lparr>nt_status := ''failed'', nt_finished_at := Some t\<rparr>))\<rparr>)
     | RA_NodeSkipped \<Rightarrow> (case pl_node_id p of None \<Rightarrow> acc | Some i \<Rightarrow>
         acc\<lparr>ta_nodes := with_entry (ta_nodes acc) ((blank_node i None ''skipped'')\<lparr>nt_finished_at := Some t\<rparr>)
               (\<lambda>n. n\<lparr>nt_status := ''skipped'', nt_finished_at := Some t\<rparr>)\<rparr>)
     | RA_DynamicNodeAdded \<Rightarrow> (case pl_node_id p of None \<Rightarrow> acc | Some i \<Rightarrow>
         dynamic_item acc i rl (payload_deps (pl_dependencies p)))
     | RA_ModelSelected \<Rightarrow>
         (case (case pl_node_id p of Some i \<Rightarrow> Some i | None \<Rightarrow> ae_actor_id e) of None \<Rightarrow> acc | Some i \<Rightarrow>
         acc\<lparr>ta_nodes := with_entry (ta_nodes acc) ((blank_node i rl ''pending'')\<lparr>nt_model := pl_model p\<rparr>)
               (\<lambda>n. role_or rl (n\<lparr>nt_model := pl_model p\<rparr>))\<rparr>)
     | _ \<Rightarrow> acc)"

definition trace_output :: "trace_nodes \<Rightarrow> agent_execution_record \<Rightarrow> trace_nodes" where
  "trace_output m out = with_entry m (output_node out) (\<lambda>n.
     let n1 = n\<lparr>nt_role := Some (er_role out), nt_model := Some (er_model out),
                nt_duration_ms := Some (er_duration_ms out)\<rparr> in
     if er_succeeded out
     then (if nt_status n1 = ''pending'' \<or> nt_status n1 = ''running'' then n1\<lparr>nt_status := ''succeeded''\<rparr> else n1)
     else n1\<lparr>nt_status := ''failed''\<rparr>)"

definition set_retries :: "trace_nodes \<Rightarrow> (string, u32) hashmap \<Rightarrow> trace_nodes" where
  "set_retries m starts = fold (\<lambda>(i, c) m. hm_modify m i (\<lambda>n. n\<lparr>nt_retries := sat_sub c 1\<rparr>)) starts m"

record run_trace_graph =
  tg_nodes :: "node_trace_state list"
  tg_edges :: "(string \<times> string) list"
  tg_active_nodes :: "string list"
  tg_completed_nodes :: nat
  tg_failed_nodes :: nat

definition trace_nodes_of :: "agent_execution_record list \<Rightarrow> action_event list \<Rightarrow> trace_acc" where
  "trace_nodes_of outputs events =
     (let m0 = foldl (\<lambda>m out. entry_or_insert m (output_node out)) [] outputs;
          acc = foldl trace_event \<lparr>ta_nodes = m0, ta_edges = [], ta_starts = []\<rparr> events;
          m1 = foldl trace_output (ta_nodes acc) outputs
      in acc\<lparr>ta_nodes := set_retries m1 (ta_starts acc)\<rparr>)"

definition build_trace_graph :: "run_record \<Rightarrow> action_event list \<Rightarrow> run_trace_graph" where
  "build_trace_graph run events =
     (let acc = trace_nodes_of (run_outputs run) events;
          node_list = sort_key nt_node_id (hm_values (ta_nodes acc))
      in \<lparr>tg_nodes = node_list,
          tg_edges = sort (ta_edges acc),
          tg_active_nodes = map nt_node_id (filter (\<lambda>n. nt_status n = ''running'') node_list),
          tg_completed_nodes = length (filter (\<lambda>n. nt_status n = ''succeeded'' \<or> nt_status n = ''skipped'') node_list),
          tg_failed_nodes = length (filter (\<lambda>n. nt_status n = ''failed'') node_list)\<rparr>)"

section \<open>Lanes\<close>

definition sat_i64 :: "int \<Rightarrow> int" where
  "sat_i64 a = max (- (2 ^ 63)) (min a (2 ^ 63 - 1))"

definition sat_u128 :: "nat \<Rightarrow> nat \<Rightarrow> nat" where
  "sat_u128 a b = (if int a + int b < 2 ^ 128 then a + b else 2 ^ 128 - 1)"

lemma sat_u128_min: "sat_u128 a b = min (a + b) (2 ^ 128 - 1)"
  by (simp add: sat_u128_def min_def)

text \<open>\<^verbatim>\<open>estimate_node_end\<close>; adding the duration is taken not to leave the range of instants.\<close>

definition estimate_node_end :: "node_trace_state \<Rightarrow> int \<Rightarrow> int option" where
  "estimate_node_end n now = (case nt_finished_at n of
     Some t \<Rightarrow> Some t
   | None \<Rightarrow> (case (nt_started_at n, nt_duration_ms n) of
       (Some s, Some d) \<Rightarrow> Some (s + int (min d (2 ^ 63 - 1)) * 1000000)
     | _ \<Rightarrow> if nt_status n = ''running''
            then (case nt_started_at n of Some s \<Rightarrow> Some s | None \<Rightarrow> Some now)
            else None))"

text \<open>\<^verbatim>\<open>signed_duration_since(..).num_milliseconds().max(0)\<close>.\<close>

definition offset_ms :: "int \<Rightarrow> int \<Rightarrow> int" where
  "offset_ms t start = max ((t - start) div 1000000) 0"

record run_behavior_lane =
  ln_node_id :: string
  ln_role :: "agent_role option"
  ln_status :: string
  ln_dependencies :: "string list"
  ln_start_ms :: "int option"
  ln_end_ms :: "int option"
  ln_duration_ms :: "nat option"
  ln_retries :: u32
  ln_model :: "string option"

definition behavior_lane :: "int \<Rightarrow> int option \<Rightarrow> node_trace_state \<Rightarrow> run_behavior_lane" where
  "behavior_lane now window_start n =
     (let s = (case (window_start, nt_started_at n) of (Some w, Some t) \<Rightarrow> Some (offset_ms t w) | _ \<Rightarrow> None);
          e = (case (window_start, estimate_node_end n now) of (Some w, Some t) \<Rightarrow> Some (offset_ms t w) | _ \<Rightarrow> None);
          d = (case nt_duration_ms n of Some d \<Rightarrow> Some d
               | None \<Rightarrow> (case (s, e) of (Some a, Some b) \<Rightarrow> if a \<le> b then Some (nat (b - a)) else None | _ \<Rightarrow> None))
      in \<lparr>ln_node_id = nt_node_id n, ln_role = nt_role n, ln_status = nt_status n,
          ln_dependencies = nt_dependencies n, ln_start_ms = s, ln_end_ms = e, ln_duration_ms = d,
          ln_retries = nt_retries n, ln_model = nt_model n\<rparr>)"

definition lane_key :: "run_behavior_lane \<Rightarrow> bool \<times> int \<times> string" where
  "lane_key l = (ln_start_ms l = None, (case ln_start_ms l of Some s \<Rightarrow> s | None \<Rightarrow> 2 ^ 63 - 1), ln_node_id l)"

text \<open>The window: from the first event or start to the last event or end.\<close>

definition opt_min :: "int option \<Rightarrow> int \<Rightarrow> int option" where
  "opt_min w t = (case w of Some c \<Rightarrow> Some (min c t) | None \<Rightarrow> Some t)"

definition opt_max :: "int option \<Rightarrow> int \<Rightarrow> int option" where
  "opt_max w t = (case w of Some c \<Rightarrow> Some (max c t) | None \<Rightarrow> Some t)"

definition grow_window :: "int \<Rightarrow> int option \<times> int option \<Rightarrow> node_trace_state \<Rightarrow> int option \<times> int option" where
  "grow_window now w n =
     ((case nt_started_at n of Some t \<Rightarrow> opt_min (fst w) t | None \<Rightarrow> fst w),
      (case estimate_node_end n now of Some t \<Rightarrow> opt_max (snd w) t | None \<Rightarrow> snd w))"

definition trace_window :: "int \<Rightarrow> action_event list \<Rightarrow> node_trace_state list \<Rightarrow> int option \<times> int option" where
  "trace_window now events ns =
     (let w0 = (if events = [] then (None, None)
                else (Some (ae_timestamp (hd events)), Some (ae_timestamp (last events))));
          w = foldl (grow_window now) w0 ns
      in case w of (Some s, Some e) \<Rightarrow> if e < s then (Some s, Some s) else w | _ \<Rightarrow> w)"

definition action_mix :: "action_event list \<Rightarrow> (string \<times> nat) list" where
  "action_mix events = sort_key (\<lambda>(a, c). (- int c, a))
     (foldl (\<lambda>m e. let key = run_action_display (ae_action e) in
        hm_insert m key ((case hm_get m key of Some c \<Rightarrow> c | None \<Rightarrow> 0) + 1)) [] events)"

section \<open>Measures\<close>

text \<open>\<^verbatim>\<open>compute_peak_parallelism\<close>; \<^verbatim>\<open>i32\<close> counters are integers here.\<close>

definition lane_interval :: "run_behavior_lane \<Rightarrow> (int \<times> int) option" where
  "lane_interval l = (case ln_start_ms l of
     None \<Rightarrow> None
   | Some start \<Rightarrow>
       let e = (case ln_end_ms l of Some e \<Rightarrow> e
             | None \<Rightarrow> (case ln_duration_ms l of
                 Some d \<Rightarrow> sat_i64 (start + int (min d (2 ^ 63 - 1)))
               | None \<Rightarrow> sat_i64 (start + 1)))
       in Some (start, if e \<le> start then sat_i64 (start + 1) else e))"

definition lane_points :: "run_behavior_lane list \<Rightarrow> (int \<times> int) list" where
  "lane_points lanes = concat (map (\<lambda>(s, e). [(s, 1), (e, - 1)]) (List.map_filter lane_interval lanes))"

fun peak_loop :: "(int \<times> int) list \<Rightarrow> int \<Rightarrow> int \<Rightarrow> int" where
  "peak_loop [] current peak = peak"
| "peak_loop ((t, delta) # ps) current peak =
     (let c = max (current + delta) 0 in peak_loop ps c (max peak c))"

definition compute_peak_parallelism :: "run_behavior_lane list \<Rightarrow> nat" where
  "compute_peak_parallelism lanes = nat (peak_loop (sort (lane_points lanes)) 0 0)"

text \<open>\<^verbatim>\<open>compute_critical_path\<close>: Kahn's algorithm with the longest distance to each node.\<close>

definition dur_of :: "run_behavior_lane \<Rightarrow> nat" where
  "dur_of l = (case ln_duration_ms l of Some d \<Rightarrow> d | None \<Rightarrow> 0)"

definition get_or_0 :: "('k, nat) hashmap \<Rightarrow> 'k \<Rightarrow> nat" where
  "get_or_0 m k = (case hm_get m k of Some d \<Rightarrow> d | None \<Rightarrow> 0)"

definition duration_map :: "run_behavior_lane list \<Rightarrow> (string, nat) hashmap" where
  "duration_map lanes = foldl (\<lambda>m l. hm_insert m (ln_node_id l) (dur_of l)) [] lanes"

definition zero_indegree :: "run_behavior_lane list \<Rightarrow> (string, nat) hashmap" where
  "zero_indegree lanes = foldl (\<lambda>m l. hm_insert m (ln_node_id l) 0) [] lanes"

definition known_edges :: "run_behavior_lane list \<Rightarrow> (string \<times> string) list" where
  "known_edges lanes = concat (map (\<lambda>l. map (\<lambda>d. (d, ln_node_id l))
     (filter (\<lambda>d. d \<in> ln_node_id ` set lanes) (ln_dependencies l))) lanes)"

definition add_known_edge ::
    "(string, string list) hashmap \<times> (string, nat) hashmap \<Rightarrow> string \<times> string
      \<Rightarrow> (string, string list) hashmap \<times> (string, nat) hashmap" where
  "add_known_edge s e = (case (s, e) of ((adj, indeg), (d, i)) \<Rightarrow>
     (hm_insert adj d ((case hm_get adj d of Some xs \<Rightarrow> xs | None \<Rightarrow> []) @ [i]),
      hm_insert indeg i (get_or_0 indeg i + 1)))"

definition sorted_adjacency :: "(string, string list) hashmap \<Rightarrow> (string, string list) hashmap" where
  "sorted_adjacency adj = map (\<lambda>(k, cs). (k, remdups_adj (sort cs))) adj"

record kahn =
  kq :: "string list"
  kdist :: "(string, nat) hashmap"
  kprev :: "(string, string) hashmap"
  kindeg :: "(string, nat) hashmap"
  kvisited :: nat

definition relax :: "(string, nat) hashmap \<Rightarrow> string \<Rightarrow> nat \<Rightarrow> kahn \<Rightarrow> string \<Rightarrow> kahn" where
  "relax duration i base k child =
     (let candidate = sat_u128 base (get_or_0 duration child);
          k1 = (if get_or_0 (kdist k) child < candidate
                then k\<lparr>kdist := hm_insert (kdist k) child candidate, kprev := hm_insert (kprev k) child i\<rparr>
                else k)
      in case hm_get (kindeg k1) child of
           None \<Rightarrow> k1
         | Some c \<Rightarrow> let k2 = k1\<lparr>kindeg := hm_insert (kindeg k1) child (c - 1)\<rparr> in
             if c - 1 = 0 then k2\<lparr>kq := kq k2 @ [child]\<rparr> else k2)"

text \<open>The loop pops a node per pass; the fuel bounds the passes.\<close>

fun kahn_loop :: "nat \<Rightarrow> (string, nat) hashmap \<Rightarrow> (string, string list) hashmap \<Rightarrow> kahn \<Rightarrow> kahn option" where
  "kahn_loop fuel duration adj k = (case kq k of
     [] \<Rightarrow> Some k
   | i # q \<Rightarrow> (case fuel of
       0 \<Rightarrow> None
     | Suc f \<Rightarrow>
         let base = get_or_0 (kdist k) i;
             k1 = k\<lparr>kq := q, kvisited := kvisited k + 1\<rparr>
         in kahn_loop f duration adj (foldl (relax duration i base) k1
              (case hm_get adj i of Some cs \<Rightarrow> cs | None \<Rightarrow> []))))"

declare kahn_loop.simps [simp del]

fun walk_back :: "nat \<Rightarrow> (string, string) hashmap \<Rightarrow> string \<Rightarrow> string list option" where
  "walk_back 0 prev i = None"
| "walk_back (Suc f) prev i = (case hm_get prev i of
     None \<Rightarrow> Some [i]
   | Some p \<Rightarrow> map_option (Cons i) (walk_back f prev p))"

definition longest_first :: "(string \<times> nat) list \<Rightarrow> (string \<times> nat) list" where
  "longest_first xs = sort_key (\<lambda>(i, d). (- int d, i)) xs"

definition kahn_start :: "run_behavior_lane list \<Rightarrow> (string, nat) hashmap \<Rightarrow> kahn" where
  "kahn_start lanes indeg = \<lparr>kq = sort (map fst (filter (\<lambda>(i, c). c = 0) indeg)),
     kdist = duration_map lanes, kprev = [], kindeg = indeg, kvisited = 0\<rparr>"

definition compute_critical_path :: "run_behavior_lane list \<Rightarrow> (string list \<times> nat) option" where
  "compute_critical_path lanes =
     (if lanes = [] then Some ([], 0)
      else
        let duration = duration_map lanes;
            (adj0, indeg) = foldl add_known_edge ([], zero_indegree lanes) (known_edges lanes);
            fuel = length lanes
        in case kahn_loop fuel duration (sorted_adjacency adj0) (kahn_start lanes indeg) of
             None \<Rightarrow> None
           | Some k \<Rightarrow>
               if kvisited k \<noteq> length (remdups (map ln_node_id lanes)) then
                 (case longest_first (map (\<lambda>l. (ln_node_id l, dur_of l)) lanes) of
                    [] \<Rightarrow> Some ([], 0)
                  | (i, d) # _ \<Rightarrow> Some ([i], d))
               else
                 (case longest_first (kdist k) of
                    [] \<Rightarrow> Some ([], 0)
                  | (i, d) # _ \<Rightarrow> map_option (\<lambda>path. (rev path, d)) (walk_back (length lanes) (kprev k) i)))"

text \<open>\<^verbatim>\<open>compute_bottleneck\<close>.\<close>

definition bottleneck_step :: "string option \<times> nat \<times> bool \<Rightarrow> run_behavior_lane \<Rightarrow> string option \<times> nat \<times> bool" where
  "bottleneck_step s l = (case s of (best, best_dur, has) \<Rightarrow>
     (case ln_duration_ms l of
        None \<Rightarrow> s
      | Some d \<Rightarrow>
          if best_dur < d \<or> (d = best_dur \<and> (case best of Some i \<Rightarrow> ln_node_id l < i | None \<Rightarrow> True))
          then (Some (ln_node_id l), d, True)
          else (best, best_dur, True)))"

definition compute_bottleneck :: "run_behavior_lane list \<Rightarrow> string option \<times> nat option" where
  "compute_bottleneck lanes = (case foldl bottleneck_step (None, 0, False) lanes of
     (best, d, has) \<Rightarrow> if has then (best, Some d) else (None, None))"

section \<open>The view\<close>

record run_behavior_view =
  bv_window :: "int option \<times> int option"
  bv_active_nodes :: "string list"
  bv_lanes :: "run_behavior_lane list"
  bv_action_mix :: "(string \<times> nat) list"
  bv_total_duration_ms :: "nat option"
  bv_lane_count :: nat
  bv_completed_nodes :: nat
  bv_failed_nodes :: nat
  bv_critical_path :: "(string list \<times> nat) option"
  bv_bottleneck :: "string option \<times> nat option"
  bv_peak_parallelism :: nat

definition build_behavior_view :: "int \<Rightarrow> action_event list \<Rightarrow> run_trace_graph \<Rightarrow> run_behavior_view" where
  "build_behavior_view now events g =
     (let w = trace_window now events (tg_nodes g);
          lanes = sort_key lane_key (map (behavior_lane now (fst w)) (tg_nodes g))
      in \<lparr>bv_window = w,
          bv_active_nodes = tg_active_nodes g,
          bv_lanes = lanes,
          bv_action_mix = action_mix events,
          bv_total_duration_ms = (case w of
             (Some s, Some e) \<Rightarrow> if s \<le> e then Some (nat (offset_ms e s)) else None | _ \<Rightarrow> None),
          bv_lane_count = length (tg_nodes g),
          bv_completed_nodes = tg_completed_nodes g,
          bv_failed_nodes = tg_failed_nodes g,
          bv_critical_path = compute_critical_path lanes,
          bv_bottleneck = compute_bottleneck lanes,
          bv_peak_parallelism = compute_peak_parallelism lanes\<rparr>)"

end
