(* ===== verification/Trace_Properties.thy ===== *)
theory Trace_Properties
  imports Trace Run_Properties
begin

text \<open>
  What the measures of a trace mean: the peak parallelism is the largest number of lanes that
  overlap in an instant, the bottleneck is the longest lane, the critical path is a chain of
  dependencies of the largest total duration; and the statuses a trace graph reports.
\<close>

section \<open>Peak parallelism\<close>

definition dsum :: "(int \<times> int) list \<Rightarrow> int" where
  "dsum ps = sum_list (map snd ps)"

lemma dsum_simps [simp]: "dsum [] = 0" "dsum (p # ps) = snd p + dsum ps" "dsum (ps @ qs) = dsum ps + dsum qs"
  by (simp_all add: dsum_def)

lemma dsum_split: "dsum ps = dsum (filter P ps) + dsum (filter (\<lambda>p. \<not> P p) ps)"
  by (induction ps) auto

lemma dsum_sort: "dsum (sort ps) = dsum ps"
  unfolding dsum_def by (metis mset_map mset_sort sum_mset_sum_list)

text \<open>Where no prefix sum is negative, the loop takes the largest of them.\<close>

definition prefixes_ok :: "int \<Rightarrow> (int \<times> int) list \<Rightarrow> bool" where
  "prefixes_ok c ps \<longleftrightarrow> (\<forall>k\<le>length ps. 0 \<le> c + dsum (take k ps))"

lemma prefixes_ok_Cons:
  "prefixes_ok c (x # ps) \<Longrightarrow> 0 \<le> c + snd x \<and> prefixes_ok (c + snd x) ps"
  unfolding prefixes_ok_def
proof
  assume a: "\<forall>k\<le>length (x # ps). 0 \<le> c + dsum (take k (x # ps))"
  show "0 \<le> c + snd x" using spec [OF a, of 1] by simp
  show "\<forall>k\<le>length ps. 0 \<le> c + snd x + dsum (take k ps)"
  proof (intro allI impI)
    fix k assume "k \<le> length ps"
    then show "0 \<le> c + snd x + dsum (take k ps)" using spec [OF a, of "Suc k"] by simp
  qed
qed

lemma peak_loop_Cons:
  "prefixes_ok c (x # ps) \<Longrightarrow> peak_loop (x # ps) c p = peak_loop ps (c + snd x) (max p (c + snd x))"
  using prefixes_ok_Cons [of c x ps] by (cases x) (simp add: Let_def)

lemma peak_loop_start: "p \<le> peak_loop ps c p"
proof (induction ps arbitrary: c p)
  case (Cons x ps)
  obtain t d where "x = (t, d)" by fastforce
  then show ?case using Cons [of "max p (max (c + d) 0)" "max (c + d) 0"] by (simp add: Let_def)
qed simp

lemma peak_loop_upper:
  "prefixes_ok c ps \<Longrightarrow> c \<le> p \<Longrightarrow> k \<le> length ps \<Longrightarrow> c + dsum (take k ps) \<le> peak_loop ps c p"
proof (induction ps arbitrary: c p k)
  case (Cons x ps)
  show ?case
  proof (cases k)
    case 0
    then show ?thesis using Cons.prems(2) peak_loop_start [of p "x # ps" c] by simp
  next
    case (Suc j)
    then show ?thesis
      using Cons.IH [of "c + snd x" "max p (c + snd x)" j] prefixes_ok_Cons [OF Cons.prems(1)] Cons.prems(3)
      unfolding peak_loop_Cons [OF Cons.prems(1)] by simp
  qed
qed simp

lemma peak_loop_attained:
  "prefixes_ok c ps \<Longrightarrow> peak_loop ps c p = p \<or> (\<exists>k\<le>length ps. peak_loop ps c p = c + dsum (take k ps))"
proof (induction ps arbitrary: c p)
  case (Cons x ps)
  have "prefixes_ok (c + snd x) ps" using prefixes_ok_Cons [OF Cons.prems] by simp
  from Cons.IH [OF this, of "max p (c + snd x)"]
  show ?case
  proof
    assume "peak_loop ps (c + snd x) (max p (c + snd x)) = max p (c + snd x)"
    then have "peak_loop (x # ps) c p = p \<or> peak_loop (x # ps) c p = c + dsum (take 1 (x # ps))"
      unfolding peak_loop_Cons [OF Cons.prems] by (simp add: max_def)
    then show ?thesis by (metis One_nat_def Suc_leI length_greater_0_conv list.distinct(1))
  next
    assume "\<exists>k\<le>length ps. peak_loop ps (c + snd x) (max p (c + snd x)) = c + snd x + dsum (take k ps)"
    then obtain k where "k \<le> length ps" "peak_loop (x # ps) c p = c + dsum (take (Suc k) (x # ps))"
      unfolding peak_loop_Cons [OF Cons.prems] by auto
    then show ?thesis by (metis Suc_le_mono length_Cons)
  qed
qed simp

text \<open>The points of intervals, counted below a point.\<close>

definition points :: "(int \<times> int) list \<Rightarrow> (int \<times> int) list" where
  "points is = concat (map (\<lambda>(s, e). [(s, 1), (e, - 1)]) is)"

definition active_at :: "(int \<times> int) list \<Rightarrow> int \<Rightarrow> int" where
  "active_at is t = (\<Sum>(s, e)\<leftarrow>is. if s \<le> t \<and> t < e then 1 else 0)"

lemma points_simps [simp]: "points [] = []" "points ((s, e) # is) = (s, 1) # (e, - 1) # points is"
  by (simp_all add: points_def)

lemma points_delta: "x \<in> set (points is) \<Longrightarrow> snd x = 1 \<or> snd x = - 1"
  by (induction "is") auto

lemma active_at_points:
  "\<forall>(s, e)\<in>set is. s < e \<Longrightarrow> active_at is t = dsum (filter (\<lambda>p. fst p \<le> t) (points is))"
  by (induction "is") (auto simp: active_at_def)

lemma below_end:
  "\<forall>(s, e)\<in>set is. s < e \<Longrightarrow> dsum (filter (\<lambda>p. p < (t, - 1)) (points is)) = active_at is (t - 1)"
  by (induction "is") (auto simp: active_at_def)

lemma below_end_count:
  "\<forall>(s, e)\<in>set is. s < e \<Longrightarrow>
     int (length (filter (\<lambda>p. p = (t, - 1)) (points is))) \<le> dsum (filter (\<lambda>p. p < (t, - 1)) (points is))"
  by (induction "is") auto

lemma below_start:
  "\<forall>(s, e)\<in>set is. s < e \<Longrightarrow> 0 \<le> dsum (filter (\<lambda>p. p < (t, 1)) (points is))
   \<and> dsum (filter (\<lambda>p. p < (t, 1)) (points is)) + int (length (filter (\<lambda>p. p = (t, 1)) (points is))) = active_at is t"
  by (induction "is") (auto simp: active_at_def)

text \<open>A prefix of a sorted list: all elements below its last one, and some copies of that.\<close>

lemma dsum_prefix:
  assumes "sorted L" "k < length L" "x = L ! k"
  obtains j where "j \<le> length (filter (\<lambda>p. p = x) L)"
    "dsum (take (Suc k) L) = dsum (filter (\<lambda>p. p < x) L) + int j * snd x"
proof -
  have le: "p \<le> x" if "p \<in> set (take (Suc k) L)" for p
    using that assms by (auto simp: in_set_conv_nth sorted_iff_nth_mono less_Suc_eq_le)
  have ge: "\<not> p < x" if "p \<in> set (drop (Suc k) L)" for p
    using that assms by (auto simp: in_set_conv_nth sorted_iff_nth_mono not_less)
  have "filter (\<lambda>p. p < x) L = filter (\<lambda>p. p < x) (take (Suc k) L) @ filter (\<lambda>p. p < x) (drop (Suc k) L)"
    by (metis append_take_drop_id filter_append)
  also have "filter (\<lambda>p. p < x) (drop (Suc k) L) = []" using ge by (auto simp: filter_empty_conv)
  finally have below: "filter (\<lambda>p. p < x) (take (Suc k) L) = filter (\<lambda>p. p < x) L" by simp
  let ?e = "filter (\<lambda>p. p = x) (take (Suc k) L)"
  have "filter (\<lambda>p. \<not> p < x) (take (Suc k) L) = ?e"
    by (rule filter_cong) (use le in force)+
  moreover have "dsum (filter (\<lambda>p. p = x) ys) = int (length (filter (\<lambda>p. p = x) ys)) * snd x" for ys
    by (induction ys) (auto simp: algebra_simps)
  ultimately have "dsum (take (Suc k) L) = dsum (filter (\<lambda>p. p < x) L) + int (length ?e) * snd x"
    using dsum_split [of "take (Suc k) L" "\<lambda>p. p < x"] below by simp
  moreover have "length ?e \<le> length (filter (\<lambda>p. p = x) L)"
    by (metis append_take_drop_id filter_append le_add1 length_append)
  ultimately show thesis by (rule that [rotated])
qed

lemma filter_sorted_take:
  fixes L :: "(int \<times> int) list"
  assumes "sorted L"
  shows "filter (\<lambda>p. fst p \<le> t) L = take (length (filter (\<lambda>p. fst p \<le> t) L)) L"
  using assms
proof (induction L)
  case (Cons x L)
  show ?case
  proof (cases "fst x \<le> t")
    case False
    then have "\<not> fst p \<le> t" if "p \<in> set L" for p
      using Cons.prems that by (cases x; cases p) (auto simp: less_eq_prod_def)
    with False show ?thesis by (simp add: filter_empty_conv)
  qed (use Cons in simp)
qed simp

lemma prefix_between:
  assumes "\<forall>(s, e)\<in>set is. s < e" "k \<le> length (points is)"
  shows "0 \<le> dsum (take k (sort (points is)))" "\<exists>t. dsum (take k (sort (points is))) \<le> active_at is t"
proof -
  let ?L = "sort (points is)"
  have act: "0 \<le> active_at is t" for t unfolding active_at_def by (rule sum_list_nonneg) auto
  have "0 \<le> dsum (take k ?L) \<and> (\<exists>t. dsum (take k ?L) \<le> active_at is t)"
  proof (cases k)
    case 0
    then show ?thesis using act by auto
  next
    case (Suc m)
    define x where "x = ?L ! m"
    have m: "m < length ?L" using Suc assms(2) by simp
    obtain j where j: "j \<le> length (filter (\<lambda>p. p = x) ?L)"
      "dsum (take k ?L) = dsum (filter (\<lambda>p. p < x) ?L) + int j * snd x"
      using dsum_prefix [OF sorted_sort m x_def] Suc by metis
    have f: "dsum (filter P ?L) = dsum (filter P (points is))" for P
      by (simp add: filter_sort dsum_sort)
    have l: "length (filter (\<lambda>p. p = x) ?L) = length (filter (\<lambda>p. p = x) (points is))"
      by (simp add: filter_sort)
    have "x \<in> set (points is)" using m x_def by (metis nth_mem set_sort)
    then have "snd x = 1 \<or> snd x = - 1" by (rule points_delta)
    then consider t where "x = (t, 1)" | t where "x = (t, - 1)" by (metis prod.collapse)
    then show ?thesis
    proof cases
      case (1 t)
      then have "0 \<le> dsum (take k ?L)" "dsum (take k ?L) \<le> active_at is t"
        using j l below_start [OF assms(1), of t] by (simp_all add: f)
      then show ?thesis by blast
    next
      case (2 t)
      then have "0 \<le> dsum (take k ?L)" "dsum (take k ?L) \<le> active_at is (t - 1)"
        using j l below_end_count [OF assms(1), of t] below_end [OF assms(1), of t] by (simp_all add: f)
      then show ?thesis by blast
    qed
  qed
  then show "0 \<le> dsum (take k ?L)" "\<exists>t. dsum (take k ?L) \<le> active_at is t" by simp_all
qed

lemma peak_correct:
  assumes "\<forall>(s, e)\<in>set is. s < e"
  shows "active_at is t \<le> peak_loop (sort (points is)) 0 0"
    and "\<exists>t. peak_loop (sort (points is)) 0 0 = active_at is t"
proof -
  let ?L = "sort (points is)"
  have ok: "prefixes_ok 0 ?L" using prefix_between(1) [OF assms] by (simp add: prefixes_ok_def)
  have at: "\<exists>k\<le>length ?L. active_at is t = dsum (take k ?L)" for t
  proof (intro exI conjI)
    let ?k = "length (filter (\<lambda>p. fst p \<le> t) ?L)"
    show "?k \<le> length ?L" by (rule length_filter_le)
    have "dsum (take ?k ?L) = dsum (filter (\<lambda>p. fst p \<le> t) ?L)" using filter_sorted_take [OF sorted_sort] by metis
    then show "active_at is t = dsum (take ?k ?L)"
      by (simp add: active_at_points [OF assms] filter_sort dsum_sort)
  qed
  show up: "active_at is t \<le> peak_loop ?L 0 0" for t
    using at [of t] peak_loop_upper [OF ok, of 0] by auto
  have "\<exists>k\<le>length ?L. peak_loop ?L 0 0 = dsum (take k ?L)"
    using peak_loop_attained [OF ok, of 0] by (auto intro: exI [of _ 0])
  then obtain k where k: "k \<le> length (points is)" "peak_loop ?L 0 0 = dsum (take k ?L)" by auto
  obtain t where "peak_loop ?L 0 0 \<le> active_at is t"
    using prefix_between(2) [OF assms k(1)] k(2) by auto
  with up [of t] show "\<exists>t. peak_loop ?L 0 0 = active_at is t" by (intro exI [of _ t]) simp
qed

text \<open>Lanes whose start is not the last instant of \<^verbatim>\<open>i64\<close> have a proper interval.\<close>

definition lanes_in_range :: "run_behavior_lane list \<Rightarrow> bool" where
  "lanes_in_range lanes \<longleftrightarrow> list_all (\<lambda>l. case ln_start_ms l of None \<Rightarrow> True
     | Some s \<Rightarrow> 0 \<le> s \<and> s < 2 ^ 63 - 1) lanes"

lemma lane_interval_proper:
  "lane_interval l = Some (s, e) \<Longrightarrow> (case ln_start_ms l of None \<Rightarrow> True | Some s \<Rightarrow> 0 \<le> s \<and> s < 2 ^ 63 - 1)
   \<Longrightarrow> s < e"
  by (auto simp: lane_interval_def sat_i64_def Let_def split: option.splits if_splits)

text \<open>
  C18: The reported peak parallelism is the largest number of lanes that run in the same
  instant: no instant has more, and some instant has as many.
\<close>

theorem peak_parallelism_correct:
  assumes "lanes_in_range lanes"
  shows "(\<forall>t. length (filter (\<lambda>(s, e). s \<le> t \<and> t < e) (List.map_filter lane_interval lanes))
      \<le> compute_peak_parallelism lanes)
    \<and> (\<exists>t. length (filter (\<lambda>(s, e). s \<le> t \<and> t < e) (List.map_filter lane_interval lanes))
      = compute_peak_parallelism lanes)"
proof -
  let ?is = "List.map_filter lane_interval lanes"
  have proper: "\<forall>(s, e)\<in>set ?is. s < e"
    using assms lane_interval_proper
    by (force simp: lanes_in_range_def list_all_iff map_filter_def)
  have act: "active_at is t = int (length (filter (\<lambda>(s, e). s \<le> t \<and> t < e) is))" for "is" t
    by (induction "is") (auto simp: active_at_def split: if_splits)
  have peak: "compute_peak_parallelism lanes = nat (peak_loop (sort (points ?is)) 0 0)"
    by (simp add: compute_peak_parallelism_def lane_points_def points_def)
  show ?thesis
  proof (intro conjI allI)
    show "length (filter (\<lambda>(s, e). s \<le> t \<and> t < e) ?is) \<le> compute_peak_parallelism lanes" for t
      using peak_correct(1) [OF proper, of t] unfolding act peak by simp
    obtain t where "peak_loop (sort (points ?is)) 0 0 = active_at ?is t"
      using peak_correct(2) [OF proper] by blast
    then show "\<exists>t. length (filter (\<lambda>(s, e). s \<le> t \<and> t < e) ?is) = compute_peak_parallelism lanes"
      unfolding act peak by (intro exI [of _ t]) simp
  qed
qed

definition sample_lane :: "string \<Rightarrow> string list \<Rightarrow> int \<Rightarrow> int \<Rightarrow> run_behavior_lane" where
  "sample_lane i deps s e = \<lparr>ln_node_id = i, ln_role = None, ln_status = ''succeeded'', ln_dependencies = deps,
     ln_start_ms = Some s, ln_end_ms = Some e, ln_duration_ms = Some (nat (e - s)), ln_retries = 0, ln_model = None\<rparr>"

text \<open>A diamond whose lower branch is the longer one.\<close>

definition diamond :: "run_behavior_lane list" where
  "diamond = [sample_lane ''a'' [] 0 10, sample_lane ''b'' [''a''] 10 20, sample_lane ''c'' [''a''] 10 40,
     sample_lane ''d'' [''b'', ''c''] 40 45]"

theorem peak_parallelism_correct_witness:
  "length (filter (\<lambda>(s, e). s \<le> 15 \<and> 15 < e) (List.map_filter lane_interval diamond)) \<le> compute_peak_parallelism diamond
   \<and> compute_peak_parallelism diamond = 2"
proof
  have "lanes_in_range diamond" by (simp add: lanes_in_range_def diamond_def sample_lane_def)
  from peak_parallelism_correct [OF this]
  show "length (filter (\<lambda>(s, e). s \<le> 15 \<and> 15 < e) (List.map_filter lane_interval diamond)) \<le> compute_peak_parallelism diamond"
    by blast
  show "compute_peak_parallelism diamond = 2" by code_simp
qed

section \<open>The bottleneck\<close>

definition lane_better :: "run_behavior_lane \<Rightarrow> run_behavior_lane \<Rightarrow> bool" where
  "lane_better a b \<longleftrightarrow> dur_of b < dur_of a \<or> (dur_of a = dur_of b \<and> ln_node_id a \<le> ln_node_id b)"

definition timed :: "run_behavior_lane list \<Rightarrow> run_behavior_lane list" where
  "timed lanes = filter (\<lambda>l. ln_duration_ms l \<noteq> None) lanes"

lemma timed_snoc: "timed (lanes @ [l]) = timed lanes @ (if ln_duration_ms l = None then [] else [l])"
  by (simp add: timed_def)

lemma bottleneck_step_None: "ln_duration_ms l = None \<Longrightarrow> bottleneck_step s l = s"
  by (simp add: bottleneck_step_def split: prod.split)

lemma bottleneck_step_Some:
  "ln_duration_ms l = Some e \<Longrightarrow> bottleneck_step (best, d, has) l =
     (if d < e \<or> (e = d \<and> (case best of Some i \<Rightarrow> ln_node_id l < i | None \<Rightarrow> True))
      then (Some (ln_node_id l), e, True) else (best, d, True))"
  by (simp add: bottleneck_step_def)

lemma bottleneck_loop:
  "case foldl bottleneck_step (None, 0, False) lanes of (best, d, has) \<Rightarrow>
     (case best of None \<Rightarrow> d = 0 \<and> \<not> has \<and> timed lanes = []
      | Some i \<Rightarrow> has \<and> (\<exists>l\<in>set (timed lanes). ln_node_id l = i \<and> dur_of l = d \<and> (\<forall>m\<in>set (timed lanes). lane_better l m)))"
proof (induction lanes rule: rev_induct)
  case Nil
  then show ?case by (simp add: timed_def)
next
  case (snoc l lanes)
  obtain best d has where st: "foldl bottleneck_step (None, 0, False) lanes = (best, d, has)"
    by (metis prod_cases3)
  show ?case
  proof (cases "ln_duration_ms l")
    case None
    then show ?thesis using snoc st by (cases best) (simp_all add: bottleneck_step_None timed_snoc)
  next
    case (Some e)
    then have e: "dur_of l = e" by (simp add: dur_of_def)
    show ?thesis
    proof (cases best)
      case None
      then show ?thesis using snoc st Some e
        by (auto simp: bottleneck_step_Some timed_snoc lane_better_def)
    next
      case best: (Some i)
      then obtain m where m: "m \<in> set (timed lanes)" "ln_node_id m = i" "dur_of m = d"
        "\<forall>n\<in>set (timed lanes). lane_better m n" "has"
        using snoc st by auto
      show ?thesis
      proof (cases "d < e \<or> (e = d \<and> ln_node_id l < i)")
        case True
        have "lane_better l n" if "n \<in> set (timed lanes)" for n
          using m(4) that True m(2,3) e by (fastforce simp: lane_better_def)
        then show ?thesis using st best Some e True
          by (auto simp: bottleneck_step_Some timed_snoc lane_better_def)
      next
        case False
        then have "lane_better m l" using m(2,3) e by (auto simp: lane_better_def not_less)
        then show ?thesis using st best Some e False m
          by (auto simp: bottleneck_step_Some timed_snoc)
      qed
    qed
  qed
qed

text \<open>
  C1: The bottleneck is a lane of the largest reported duration, the first by identifier among
  those; there is none exactly when no lane has a duration.
\<close>

theorem bottleneck_correct:
  "case compute_bottleneck lanes of
     (None, d) \<Rightarrow> d = None \<and> (\<forall>l\<in>set lanes. ln_duration_ms l = None)
   | (Some i, d) \<Rightarrow> \<exists>l\<in>set lanes. ln_node_id l = i \<and> ln_duration_ms l = d \<and> d \<noteq> None
       \<and> (\<forall>m\<in>set lanes. ln_duration_ms m \<noteq> None \<longrightarrow> lane_better l m)"
proof -
  obtain best d has where st: "foldl bottleneck_step (None, 0, False) lanes = (best, d, has)"
    by (metis prod_cases3)
  have timed: "l \<in> set (timed lanes) \<longleftrightarrow> l \<in> set lanes \<and> ln_duration_ms l \<noteq> None" for l
    by (auto simp: timed_def)
  show ?thesis
  proof (cases best)
    case None
    then show ?thesis using bottleneck_loop [of lanes] st
      by (auto simp: compute_bottleneck_def timed_def filter_empty_conv)
  next
    case (Some i)
    then obtain l where "l \<in> set (timed lanes)" "ln_node_id l = i" "dur_of l = d" "has"
      "\<forall>m\<in>set (timed lanes). lane_better l m"
      using bottleneck_loop [of lanes] st by auto
    then show ?thesis using Some st
      by (auto simp: compute_bottleneck_def timed dur_of_def intro!: bexI [of _ l])
  qed
qed

theorem bottleneck_correct_witness:
  "\<exists>l\<in>set diamond. ln_node_id l = ''c'' \<and> (\<forall>m\<in>set diamond. ln_duration_ms m \<noteq> None \<longrightarrow> lane_better l m)"
proof -
  have "compute_bottleneck diamond = (Some ''c'', Some 30)" by code_simp
  with bottleneck_correct [of diamond] show ?thesis by auto
qed

section \<open>The trace graph\<close>

definition trace_statuses :: "string list" where
  "trace_statuses = [''pending'', ''running'', ''succeeded'', ''failed'', ''skipped'']"

definition node_fine :: "node_trace_state \<Rightarrow> bool" where
  "node_fine n \<longleftrightarrow> nt_status n \<in> set trace_statuses \<and> nt_retries n = 0"

definition nodes_ok :: "trace_nodes \<Rightarrow> bool" where
  "nodes_ok m \<longleftrightarrow> hm_wf m \<and> (\<forall>i n. hm_get m i = Some n \<longrightarrow> nt_node_id n = i \<and> node_fine n)"

text \<open>The updates of a node keep its identifier and leave it with a known status.\<close>

definition keeps_node :: "(node_trace_state \<Rightarrow> node_trace_state) \<Rightarrow> bool" where
  "keeps_node f \<longleftrightarrow> (\<forall>n. nt_node_id (f n) = nt_node_id n \<and> (node_fine n \<longrightarrow> node_fine (f n)))"

lemma nodes_ok_insert: "nodes_ok m \<Longrightarrow> node_fine st \<Longrightarrow> nodes_ok (entry_or_insert m st)"
  by (auto simp: nodes_ok_def entry_or_insert_def hm_wf_insert hm_get_insert)

lemma nodes_ok_modify: "nodes_ok m \<Longrightarrow> keeps_node f \<Longrightarrow> nodes_ok (hm_modify m i f)"
  by (auto simp: nodes_ok_def keeps_node_def hm_wf_modify hm_get_modify)

lemma nodes_ok_with_entry: "nodes_ok m \<Longrightarrow> node_fine st \<Longrightarrow> keeps_node f \<Longrightarrow> nodes_ok (with_entry m st f)"
  by (simp add: with_entry_def nodes_ok_insert nodes_ok_modify)

lemma node_fine_blank: "node_fine (blank_node i r st) \<longleftrightarrow> st \<in> set trace_statuses"
  by (simp add: node_fine_def blank_node_def)

lemma node_fine_update [simp]:
  "node_fine (n\<lparr>nt_started_at := x\<rparr>) = node_fine n" "node_fine (n\<lparr>nt_finished_at := x\<rparr>) = node_fine n"
  "node_fine (n\<lparr>nt_model := y\<rparr>) = node_fine n" "node_fine (n\<lparr>nt_duration_ms := d\<rparr>) = node_fine n"
  "node_fine (n\<lparr>nt_role := r\<rparr>) = node_fine n" "node_fine (n\<lparr>nt_dependencies := ds\<rparr>) = node_fine n"
  by (simp_all add: node_fine_def)

lemma node_fine_status: "node_fine n \<Longrightarrow> st \<in> set trace_statuses \<Longrightarrow> node_fine (n\<lparr>nt_status := st\<rparr>)"
  by (simp add: node_fine_def)

lemma statuses_known [simp]:
  "''pending'' \<in> set trace_statuses" "''running'' \<in> set trace_statuses" "''succeeded'' \<in> set trace_statuses"
  "''failed'' \<in> set trace_statuses" "''skipped'' \<in> set trace_statuses"
  by (simp_all add: trace_statuses_def)

lemma role_deps_keep [simp]:
  "nt_node_id (role_or r n) = nt_node_id n" "node_fine (role_or r n) = node_fine n"
  "nt_node_id (deps_or ds n) = nt_node_id n" "node_fine (deps_or ds n) = node_fine n"
  by (simp_all add: role_or_def deps_or_def)

lemma output_node_fine: "node_fine (output_node out)"
  by (simp add: output_node_def node_fine_blank)

lemma nodes_ok_item: "nodes_ok (ta_nodes acc) \<Longrightarrow> nodes_ok (ta_nodes (graph_item acc item))"
  by (auto simp: graph_item_def Let_def keeps_node_def node_fine_blank node_fine_status
      intro!: nodes_ok_with_entry split: prod.split option.split)

lemma nodes_ok_items: "nodes_ok (ta_nodes acc) \<Longrightarrow> nodes_ok (ta_nodes (foldl graph_item acc items))"
  by (induction items arbitrary: acc) (simp_all add: nodes_ok_item)

lemma nodes_ok_event: "nodes_ok (ta_nodes acc) \<Longrightarrow> nodes_ok (ta_nodes (trace_event acc e))"
  unfolding trace_event_def Let_def
  by (cases "ae_action e")
    (auto simp: keeps_node_def node_fine_blank node_fine_status nodes_ok_items dynamic_item_def
      intro!: nodes_ok_with_entry split: option.split)

lemma nodes_ok_output: "nodes_ok m \<Longrightarrow> nodes_ok (trace_output m out)"
  by (auto simp: trace_output_def Let_def keeps_node_def output_node_fine node_fine_status intro!: nodes_ok_with_entry)

lemma nodes_ok_folds:
  "nodes_ok m \<Longrightarrow> nodes_ok (foldl (\<lambda>m out. entry_or_insert m (output_node out)) m outs)"
  "nodes_ok (ta_nodes acc) \<Longrightarrow> nodes_ok (ta_nodes (foldl trace_event acc es))"
  "nodes_ok m \<Longrightarrow> nodes_ok (foldl trace_output m outs)"
proof -
  show "nodes_ok m \<Longrightarrow> nodes_ok (foldl (\<lambda>m out. entry_or_insert m (output_node out)) m outs)"
    by (induction outs arbitrary: m) (simp_all add: nodes_ok_insert output_node_fine)
  show "nodes_ok (ta_nodes acc) \<Longrightarrow> nodes_ok (ta_nodes (foldl trace_event acc es))"
    by (induction es arbitrary: acc) (simp_all add: nodes_ok_event)
  show "nodes_ok m \<Longrightarrow> nodes_ok (foldl trace_output m outs)"
    by (induction outs arbitrary: m) (simp_all add: nodes_ok_output)
qed

text \<open>The retries are set last; they change neither identifiers nor statuses.\<close>

definition statuses_ok :: "trace_nodes \<Rightarrow> bool" where
  "statuses_ok m \<longleftrightarrow> hm_wf m \<and> (\<forall>i n. hm_get m i = Some n \<longrightarrow> nt_node_id n = i \<and> nt_status n \<in> set trace_statuses)"

lemma set_retries_ok: "statuses_ok m \<Longrightarrow> statuses_ok (set_retries m starts)"
proof (unfold set_retries_def, induction starts arbitrary: m)
  case (Cons p starts)
  have "statuses_ok (hm_modify m (fst p) (\<lambda>n. n\<lparr>nt_retries := sat_sub (snd p) 1\<rparr>))"
    using Cons.prems by (auto simp: statuses_ok_def hm_wf_modify hm_get_modify)
  from Cons.IH [OF this] show ?case by (simp add: split_beta)
qed simp

lemma trace_nodes_ok:
  "nodes_ok (foldl trace_output (ta_nodes (foldl trace_event \<lparr>ta_nodes =
     foldl (\<lambda>m out. entry_or_insert m (output_node out)) [] outs, ta_edges = [], ta_starts = []\<rparr> es)) outs)"
proof -
  have "nodes_ok []" by (simp add: nodes_ok_def hm_wf_Nil hm_get_Nil)
  then show ?thesis by (intro nodes_ok_folds(3,2)) (simp only: trace_acc.select_convs nodes_ok_folds(1))
qed

lemma trace_statuses_ok: "statuses_ok (ta_nodes (trace_nodes_of outs es))"
proof -
  have "nodes_ok m \<Longrightarrow> statuses_ok m" for m by (auto simp: nodes_ok_def node_fine_def statuses_ok_def)
  from set_retries_ok [OF this [OF trace_nodes_ok [of outs es]]] show ?thesis
    by (simp add: trace_nodes_of_def Let_def)
qed

text \<open>
  C23: In every trace graph the nodes are listed once each, in the order of their identifiers,
  and each is in one of five states, so that the counts of the summary leave out exactly the
  pending nodes.
\<close>

theorem trace_graph_wellformed:
  "sorted_wrt (<) (map nt_node_id (tg_nodes (build_trace_graph run events)))
   \<and> list_all (\<lambda>n. nt_status n \<in> set trace_statuses) (tg_nodes (build_trace_graph run events))
   \<and> length (tg_nodes (build_trace_graph run events)) =
       length (tg_active_nodes (build_trace_graph run events)) + tg_completed_nodes (build_trace_graph run events)
       + tg_failed_nodes (build_trace_graph run events)
       + length (filter (\<lambda>n. nt_status n = ''pending'') (tg_nodes (build_trace_graph run events)))"
proof -
  let ?m = "ta_nodes (trace_nodes_of (run_outputs run) events)"
  let ?ns = "sort_key nt_node_id (hm_values ?m)"
  have ok: "statuses_ok ?m" by (rule trace_statuses_ok)
  have nodes: "tg_nodes (build_trace_graph run events) = ?ns" by (simp add: build_trace_graph_def Let_def)
  have st: "nt_status n \<in> set trace_statuses" if "n \<in> set ?ns" for n
    using that ok hm_values_iff [of ?m n] by (auto simp: statuses_ok_def)
  have "map nt_node_id (hm_values ?m) = hm_keys ?m"
    using ok hm_get_iff_mem [of ?m] by (auto simp: statuses_ok_def hm_values_def hm_keys_def)
  then have "distinct (map nt_node_id (hm_values ?m))" using ok by (simp add: statuses_ok_def hm_wf_def)
  moreover have "mset (map nt_node_id ?ns) = mset (map nt_node_id (hm_values ?m))" by simp
  ultimately have "distinct (map nt_node_id ?ns)" by (metis mset_eq_imp_distinct_iff)
  then have sorted: "sorted_wrt (<) (map nt_node_id ?ns)" by (simp add: strict_sorted_iff)
  have counts: "length ns = length (filter (\<lambda>n. nt_status n = ''running'') ns)
      + length (filter (\<lambda>n. nt_status n = ''succeeded'' \<or> nt_status n = ''skipped'') ns)
      + length (filter (\<lambda>n. nt_status n = ''failed'') ns) + length (filter (\<lambda>n. nt_status n = ''pending'') ns)"
    if "\<forall>n\<in>set ns. nt_status n \<in> set trace_statuses" for ns
    using that by (induction ns) (auto simp: trace_statuses_def)
  have fields: "tg_active_nodes (build_trace_graph run events) = map nt_node_id (filter (\<lambda>n. nt_status n = ''running'') ?ns)"
    "tg_completed_nodes (build_trace_graph run events)
       = length (filter (\<lambda>n. nt_status n = ''succeeded'' \<or> nt_status n = ''skipped'') ?ns)"
    "tg_failed_nodes (build_trace_graph run events) = length (filter (\<lambda>n. nt_status n = ''failed'') ?ns)"
    by (simp_all add: build_trace_graph_def Let_def)
  have "\<forall>n\<in>set ?ns. nt_status n \<in> set trace_statuses" using st by blast
  with sorted counts [OF this] show ?thesis unfolding nodes fields length_map list_all_iff by blast
qed

section \<open>The trace of an execution\<close>

text \<open>
  The action events of an execution, in the order the run loop reported them; \<open>clock\<close> gives
  the instants at which they are stored.
\<close>

definition stored_events :: "(nat \<Rightarrow> int) \<Rightarrow> runtime_event list \<Rightarrow> action_event list" where
  "stored_events clock es = List.map_filter (\<lambda>(k, e). action_of_event (clock k) e) (zip [0..<length es] es)"

definition event_starts :: "action_event \<Rightarrow> string option" where
  "event_starts e = (if ae_action e = RA_NodeStarted then pl_node_id (ae_payload e) else None)"

lemma started_of_action: "Option.bind (action_of_event t e) event_starts = started_of e"
  by (cases e) (auto simp: action_of_event_def event_starts_def node_payload_def empty_payload_def)

lemma map_filter_bind: "List.map_filter f (List.map_filter g xs) = List.map_filter (\<lambda>x. Option.bind (g x) f) xs"
  by (induction xs) (auto simp: map_filter_def)

lemma stored_starts: "List.map_filter event_starts (stored_events clock es) = List.map_filter started_of es"
proof -
  have "List.map_filter event_starts (stored_events clock es)
      = List.map_filter (\<lambda>(k, e). started_of e) (zip [0..<length es] es)"
    unfolding stored_events_def map_filter_bind by (simp add: started_of_action split_def)
  also have "List.map_filter (\<lambda>(k, e). started_of e) zs = List.map_filter started_of (map snd zs)" for zs :: "(nat \<times> _) list"
    by (induction zs) (auto simp: map_filter_def)
  finally show ?thesis by simp
qed

lemma ta_starts_item: "ta_starts (foldl graph_item acc items) = ta_starts acc"
  by (induction items arbitrary: acc) (auto simp: graph_item_def Let_def split: prod.split option.split)

lemma ta_starts_event:
  "ta_starts (trace_event acc e) = (case event_starts e of None \<Rightarrow> ta_starts acc
     | Some i \<Rightarrow> hm_insert (ta_starts acc) i (sat_add (case hm_get (ta_starts acc) i of Some c \<Rightarrow> c | None \<Rightarrow> 0) 1))"
  unfolding trace_event_def Let_def event_starts_def
  by (cases "ae_action e") (simp_all add: ta_starts_item dynamic_item_def split: option.split)

lemma ta_starts_once:
  "distinct (List.map_filter event_starts es) \<Longrightarrow>
   hm_get (ta_starts (foldl trace_event \<lparr>ta_nodes = m, ta_edges = [], ta_starts = []\<rparr> es)) i
     = (if i \<in> set (List.map_filter event_starts es) then Some 1 else None)"
proof (induction es arbitrary: i rule: rev_induct)
  case Nil
  then show ?case by (simp add: hm_get_Nil map_filter_def)
next
  case (snoc e es)
  have split: "List.map_filter event_starts (es @ [e]) = List.map_filter event_starts es
      @ (case event_starts e of None \<Rightarrow> [] | Some i \<Rightarrow> [i])"
    by (simp add: map_filter_def split: option.split)
  have "distinct (List.map_filter event_starts es)" using snoc.prems by (simp add: split)
  note IH = snoc.IH [OF this]
  show ?case
  proof (cases "event_starts e")
    case None
    then show ?thesis using IH [of i] by (simp add: split ta_starts_event)
  next
    case (Some j)
    then have "j \<notin> set (List.map_filter event_starts es)" using snoc.prems by (simp add: split)
    then show ?thesis using Some IH [of i] IH [of j] by (simp add: split ta_starts_event hm_get_insert)
  qed
qed

lemma set_retries_one:
  "\<forall>p\<in>set starts. snd p = 1 \<Longrightarrow> nodes_ok m \<Longrightarrow> nodes_ok (set_retries m starts)"
proof (unfold set_retries_def, induction starts arbitrary: m)
  case (Cons p starts)
  have "snd p = 1" using Cons.prems(1) by simp
  then have "nodes_ok (hm_modify m (fst p) (\<lambda>n. n\<lparr>nt_retries := sat_sub (snd p) 1\<rparr>))"
    using Cons.prems(2) by (intro nodes_ok_modify) (auto simp: keeps_node_def node_fine_def sat_sub_def)
  from Cons.IH [OF _ this] Cons.prems(1) show ?case by (simp add: split_beta)
qed simp

lemma ta_starts_wf: "hm_wf (ta_starts acc) \<Longrightarrow> hm_wf (ta_starts (foldl trace_event acc es))"
  by (induction es arbitrary: acc) (simp_all add: ta_starts_event hm_wf_insert split: option.split)

text \<open>
  In the trace of an execution every node shows zero retries, although the retry policy
  repeats attempts within a node: the run loop starts a node once, and the attempts of a node
  report nothing.
\<close>

theorem trace_shows_no_retries:
  assumes "reachable run_init (run_step mx) s"
    and "n \<in> set (tg_nodes (build_trace_graph run (stored_events clock (rt_events s))))"
  shows "nt_retries n = 0"
proof -
  let ?es = "stored_events clock (rt_events s)" and ?outs = "run_outputs run"
  let ?acc = "foldl trace_event \<lparr>ta_nodes = foldl (\<lambda>m out. entry_or_insert m (output_node out)) [] ?outs,
      ta_edges = [], ta_starts = []\<rparr> ?es"
  have "distinct (List.map_filter started_of (rt_events s))"
    using reachable_rt_inv [OF assms(1)] by (simp add: rt_inv_def status_ok_def started_def)
  then have d: "distinct (List.map_filter event_starts ?es)" by (simp add: stored_starts)
  have "hm_wf (ta_starts ?acc)" by (rule ta_starts_wf) (simp add: hm_wf_Nil)
  then have "\<forall>p\<in>set (ta_starts ?acc). snd p = 1"
    using hm_get_iff_mem [of "ta_starts ?acc"] ta_starts_once [OF d]
    by (metis option.distinct(1) option.inject prod.collapse)
  from set_retries_one [OF this trace_nodes_ok [of ?outs ?es]]
  have ok: "nodes_ok (ta_nodes (trace_nodes_of ?outs ?es))" by (simp add: trace_nodes_of_def Let_def)
  have "n \<in> set (hm_values (ta_nodes (trace_nodes_of ?outs ?es)))"
    using assms(2) by (simp add: build_trace_graph_def Let_def)
  then show ?thesis using ok hm_values_iff [of "ta_nodes (trace_nodes_of ?outs ?es)" n]
    by (auto simp: nodes_ok_def node_fine_def)
qed

theorem trace_shows_no_retries_witness:
  "list_all (\<lambda>n. nt_retries n = 0) (tg_nodes (build_trace_graph (new_queued ''now'' ''r'' ''s'' ''t'' General)
     (stored_events int (rt_events pair_state))))"
  unfolding list_all_iff using trace_shows_no_retries [OF pair_state_reachable] by blast

text \<open>
  Each event is stored by a task of its own, so that events can be stored in another order: a
  node whose start is stored after its completion shows as running. And a node that failed in
  one stage and succeeded in the next shows as failed.
\<close>

definition sample_record :: "bool \<Rightarrow> agent_execution_record" where
  "sample_record ok = \<lparr>er_node_id = ''a'', er_role = Coder, er_model = ''m'', er_output = '''', er_duration_ms = 1,
     er_succeeded = ok, er_error = None, er_token_usage = None\<rparr>"

lemma trace_reordered:
  "map nt_status (tg_nodes (build_trace_graph (new_queued ''now'' ''r'' ''s'' ''t'' General)
     [the (action_of_event 2 (NodeCompleted ''a'' Coder ''m'' 1 '''' False None None)),
      the (action_of_event 1 (NodeStarted ''a'' Coder None))])) = [''running'']"
  by code_simp

lemma trace_recovered_failed:
  "map nt_status (tg_nodes (build_trace_graph
     ((new_queued ''now'' ''r'' ''s'' ''t'' General)\<lparr>run_outputs := [sample_record False, sample_record True]\<rparr>) []))
   = [''failed'']"
  by code_simp

text \<open>The role of a node is lost in the trace when the parser of roles does not know it.\<close>

lemma trace_role_lost:
  "map nt_role (tg_nodes (build_trace_graph (new_queued ''now'' ''r'' ''s'' ''t'' General)
     [the (action_of_event 1 (NodeStarted ''a'' Reviewer None))])) = [None]"
  by code_simp

end
