(* ===== verification/Critical_Path.thy ===== *)
theory Critical_Path
  imports Trace_Properties
begin

text \<open>
  \<^verbatim>\<open>compute_critical_path\<close>: on lanes with distinct identifiers, acyclic and without repeated
  dependencies, Kahn's algorithm with distances answers a chain of dependencies of the largest
  total duration. The loop is proved over the list of the nodes popped so far.
\<close>

section \<open>Adjacency and indegree\<close>

definition lane_ids :: "run_behavior_lane list \<Rightarrow> string set" where
  "lane_ids lanes = ln_node_id ` set lanes"

definition lane_edges :: "run_behavior_lane list \<Rightarrow> (string \<times> string) set" where
  "lane_edges lanes = set (known_edges lanes)"

definition list_or_nil :: "('k, 'v list) hashmap \<Rightarrow> 'k \<Rightarrow> 'v list" where
  "list_or_nil m k = (case hm_get m k of Some xs \<Rightarrow> xs | None \<Rightarrow> [])"

lemma get_or_0_insert: "get_or_0 (hm_insert m k v) k' = (if k' = k then v else get_or_0 m k')"
  by (simp add: get_or_0_def hm_get_insert)

lemma list_or_nil_insert: "list_or_nil (hm_insert m k v) k' = (if k' = k then v else list_or_nil m k')"
  by (simp add: list_or_nil_def hm_get_insert)

lemma add_known_edges:
  assumes "foldl add_known_edge (adj, ind) es = (adj', ind')"
  shows "list_or_nil adj' d = list_or_nil adj d @ map snd (filter (\<lambda>e. fst e = d) es)"
    and "get_or_0 ind' i = get_or_0 ind i + length (filter (\<lambda>e. snd e = i) es)"
    and "hm_get ind' i \<noteq> None \<longleftrightarrow> hm_get ind i \<noteq> None \<or> i \<in> snd ` set es"
    and "hm_wf ind \<Longrightarrow> hm_wf ind'"
  using assms
proof (induction es arbitrary: adj ind)
  case (Cons e es)
  obtain a b where e: "e = (a, b)" by fastforce
  {
    case 1
    then show ?case using Cons.IH(1) [where adj = "hm_insert adj a (list_or_nil adj a @ [b])" and ind = "hm_insert ind b (get_or_0 ind b + 1)"] e
      by (simp add: add_known_edge_def list_or_nil_insert list_or_nil_def [symmetric])
  }
  {
    case 2
    then show ?case using Cons.IH(2) [where adj = "hm_insert adj a (list_or_nil adj a @ [b])" and ind = "hm_insert ind b (get_or_0 ind b + 1)"] e
      by (simp add: add_known_edge_def get_or_0_insert list_or_nil_def [symmetric])
  }
  {
    case 3
    then show ?case using Cons.IH(3) [where adj = "hm_insert adj a (list_or_nil adj a @ [b])" and ind = "hm_insert ind b (get_or_0 ind b + 1)"] e
      by (auto simp: add_known_edge_def hm_get_insert list_or_nil_def [symmetric])
  }
  {
    case 4
    then show ?case using Cons.IH(4) [where adj = "hm_insert adj a (list_or_nil adj a @ [b])" and ind = "hm_insert ind b (get_or_0 ind b + 1)"] e
      by (simp add: add_known_edge_def hm_wf_insert list_or_nil_def [symmetric])
  }
qed simp_all

lemma get_sorted_adjacency: "list_or_nil (sorted_adjacency adj) k = remdups_adj (sort (list_or_nil adj k))"
proof -
  have "hm_get (sorted_adjacency adj) k = map_option (\<lambda>cs. remdups_adj (sort cs)) (hm_get adj k)"
    unfolding sorted_adjacency_def hm_get_def by (induction adj) auto
  then show ?thesis by (simp add: list_or_nil_def split: option.split)
qed

lemma hm_foldl_insert:
  "hm_get (foldl (\<lambda>m l. hm_insert m (f l) (g l)) m ls) k = (case hm_get m k of x \<Rightarrow>
     (if k \<in> f ` set ls then Some (g (last (filter (\<lambda>l. f l = k) ls))) else x))"
  by (induction ls arbitrary: m) (auto simp: hm_get_insert filter_empty_conv)

lemma hm_foldl_insert_wf: "hm_wf m \<Longrightarrow> hm_wf (foldl (\<lambda>m l. hm_insert m (f l) (g l)) m ls)"
  by (induction ls arbitrary: m) (simp_all add: hm_wf_insert)

lemma known_edges_ids: "(d, i) \<in> lane_edges lanes \<Longrightarrow> d \<in> lane_ids lanes \<and> i \<in> lane_ids lanes"
  by (auto simp: lane_edges_def known_edges_def lane_ids_def)

lemma distinct_known_edges:
  assumes "distinct (map ln_node_id lanes)" "\<forall>l\<in>set lanes. distinct (ln_dependencies l)"
  shows "distinct (known_edges lanes)"
proof -
  have "distinct (concat (map (\<lambda>l. map (\<lambda>d. (d, ln_node_id l)) (filter P (ln_dependencies l))) ls))"
    if "distinct (map ln_node_id ls)" "\<forall>l\<in>set ls. distinct (ln_dependencies l)" for P ls
    using that by (induction ls) (auto simp: distinct_map inj_on_def)
  then show ?thesis unfolding known_edges_def using assms by blast
qed

section \<open>One node popped\<close>

definition dist_of :: "kahn \<Rightarrow> string \<Rightarrow> nat" where
  "dist_of k i = get_or_0 (kdist k) i"

text \<open>What relaxing a list of distinct children does, relative to the state before.\<close>

definition relaxed :: "(string, nat) hashmap \<Rightarrow> string \<Rightarrow> nat \<Rightarrow> kahn \<Rightarrow> string list \<Rightarrow> kahn \<Rightarrow> bool" where
  "relaxed duration i base k cs k' \<longleftrightarrow>
     (\<forall>c. dist_of k' c = (if c \<in> set cs then max (dist_of k c) (sat_u128 base (get_or_0 duration c)) else dist_of k c))
     \<and> (\<forall>c. hm_get (kprev k') c = (if c \<in> set cs \<and> dist_of k c < sat_u128 base (get_or_0 duration c)
           then Some i else hm_get (kprev k) c))
     \<and> (\<forall>c. hm_get (kindeg k') c = (if c \<in> set cs then map_option (\<lambda>x. x - 1) (hm_get (kindeg k) c)
           else hm_get (kindeg k) c))
     \<and> kq k' = kq k @ filter (\<lambda>c. map_option (\<lambda>x. x - 1) (hm_get (kindeg k) c) = Some 0) cs
     \<and> kvisited k' = kvisited k
     \<and> (hm_wf (kdist k) \<longrightarrow> hm_wf (kdist k'))
     \<and> ((\<forall>c\<in>set cs. hm_get (kdist k) c \<noteq> None) \<longrightarrow>
          (\<forall>c. hm_get (kdist k') c = None \<longleftrightarrow> hm_get (kdist k) c = None))"

lemma relaxed_one: "relaxed duration i base k [c] (relax duration i base k c)"
  unfolding relaxed_def dist_of_def
  by (cases "hm_get (kindeg k) c")
    (simp_all add: relax_def Let_def get_or_0_insert hm_get_insert hm_wf_insert)

lemma relaxed_append:
  assumes "relaxed duration i base k cs k'" "relaxed duration i base k' [c] k''" "c \<notin> set cs"
  shows "relaxed duration i base k (cs @ [c]) k''"
proof -
  have d: "dist_of k' c = dist_of k c" "hm_get (kindeg k') c = hm_get (kindeg k) c"
    using assms(1,3) unfolding relaxed_def by simp_all
  show ?thesis
    unfolding relaxed_def
  proof (intro conjI allI impI)
    show "dist_of k'' x = (if x \<in> set (cs @ [c]) then max (dist_of k x) (sat_u128 base (get_or_0 duration x))
        else dist_of k x)" for x
      using assms d unfolding relaxed_def by simp
    show "hm_get (kprev k'') x = (if x \<in> set (cs @ [c]) \<and> dist_of k x < sat_u128 base (get_or_0 duration x)
        then Some i else hm_get (kprev k) x)" for x
    proof -
      have "hm_get (kprev k'') x = (if x = c \<and> dist_of k' x < sat_u128 base (get_or_0 duration x)
          then Some i else hm_get (kprev k') x)"
        using assms(2) unfolding relaxed_def by simp
      moreover have "hm_get (kprev k') x = (if x \<in> set cs \<and> dist_of k x < sat_u128 base (get_or_0 duration x)
          then Some i else hm_get (kprev k) x)"
        using assms(1) unfolding relaxed_def by simp
      ultimately show ?thesis using d(1) assms(3) by auto
    qed
    show "hm_get (kindeg k'') x = (if x \<in> set (cs @ [c]) then map_option (\<lambda>x. x - 1) (hm_get (kindeg k) x)
        else hm_get (kindeg k) x)" for x
      using assms d unfolding relaxed_def by simp
    show "kq k'' = kq k @ filter (\<lambda>c. map_option (\<lambda>x. x - 1) (hm_get (kindeg k) c) = Some 0) (cs @ [c])"
      using assms d unfolding relaxed_def by simp
    show "kvisited k'' = kvisited k" using assms unfolding relaxed_def by simp
    show "hm_wf (kdist k) \<Longrightarrow> hm_wf (kdist k'')" using assms unfolding relaxed_def by blast
    show "hm_get (kdist k'') x = None \<longleftrightarrow> hm_get (kdist k) x = None"
      if "\<forall>c\<in>set (cs @ [c]). hm_get (kdist k) c \<noteq> None" for x
      using assms(1,2) that unfolding relaxed_def by simp
  qed
qed

lemma relaxed_nil: "relaxed duration i base k [] k"
  by (simp add: relaxed_def)

lemma relax_children: "distinct cs \<Longrightarrow> relaxed duration i base k cs (foldl (relax duration i base) k cs)"
proof (induction cs rule: rev_induct)
  case (snoc c cs)
  then show ?case using relaxed_append [OF _ relaxed_one] by simp
qed (simp add: relaxed_nil)

section \<open>The loop\<close>

definition parents :: "(string \<times> string) set \<Rightarrow> string \<Rightarrow> string set" where
  "parents E i = {d. (d, i) \<in> E}"

definition adj_ok :: "string set \<Rightarrow> (string \<times> string) set \<Rightarrow> (string, string list) hashmap \<Rightarrow> bool" where
  "adj_ok V E adj \<longleftrightarrow> finite V \<and> E \<subseteq> V \<times> V
     \<and> (\<forall>i. distinct (list_or_nil adj i) \<and> set (list_or_nil adj i) = {c. (i, c) \<in> E})"

definition kahn_inv :: "string set \<Rightarrow> (string \<times> string) set \<Rightarrow> (string \<Rightarrow> nat) \<Rightarrow> string list \<Rightarrow> kahn \<Rightarrow> bool" where
  "kahn_inv V E D P k \<longleftrightarrow>
     kvisited k = length P \<and> distinct (P @ kq k)
     \<and> set P \<union> set (kq k) = {i \<in> V. parents E i \<subseteq> set P}
     \<and> (\<forall>i. hm_get (kindeg k) i = (if i \<in> V then Some (card (parents E i - set P)) else None))
     \<and> (\<forall>i p. hm_get (kprev k) i = Some p \<longrightarrow>
          p \<in> set P \<and> (p, i) \<in> E \<and> dist_of k i = sat_u128 (dist_of k p) (D i))
     \<and> (\<forall>i. hm_get (kprev k) i = None \<longrightarrow> dist_of k i = D i)
     \<and> (\<forall>p i. p \<in> set P \<longrightarrow> (p, i) \<in> E \<longrightarrow> sat_u128 (dist_of k p) (D i) \<le> dist_of k i)
     \<and> (\<forall>i. D i \<le> dist_of k i)
     \<and> hm_wf (kdist k) \<and> (\<forall>i. hm_get (kdist k) i = None \<longleftrightarrow> i \<notin> V)"

lemma kahn_step:
  assumes adj: "adj_ok V E adj" and inv: "kahn_inv V E (get_or_0 duration) P k" and q: "kq k = i # q"
    and k': "k' = foldl (relax duration i (dist_of k i)) (k\<lparr>kq := q, kvisited := kvisited k + 1\<rparr>) (list_or_nil adj i)"
  shows "kahn_inv V E (get_or_0 duration) (P @ [i]) k'"
proof -
  let ?D = "get_or_0 duration" and ?cs = "list_or_nil adj i"
  define k1 where "k1 = k\<lparr>kq := q, kvisited := kvisited k + 1\<rparr>"
  have k1: "kq k1 = q" "kvisited k1 = kvisited k + 1" "kdist k1 = kdist k" "kprev k1 = kprev k"
    "kindeg k1 = kindeg k" "dist_of k1 = dist_of k"
    by (simp_all add: k1_def dist_of_def [abs_def])
  have cs: "distinct ?cs" "c \<in> set ?cs \<longleftrightarrow> (i, c) \<in> E" for c using adj unfolding adj_ok_def by auto
  have fin: "finite (parents E j)" and EV: "(a, b) \<in> E \<Longrightarrow> a \<in> V \<and> b \<in> V" for j a b
  proof -
    show "finite (parents E j)"
      by (rule finite_subset [of _ V]) (use adj in \<open>auto simp: adj_ok_def parents_def\<close>)
    show "(a, b) \<in> E \<Longrightarrow> a \<in> V \<and> b \<in> V" using adj by (auto simp: adj_ok_def)
  qed
  have rx: "relaxed duration i (dist_of k i) k1 ?cs k'"
    unfolding k' k1_def [symmetric] by (rule relax_children [OF cs(1)])
  have vis: "kvisited k = length P" and dst: "distinct (P @ i # q)"
    and sets: "set P \<union> set (i # q) = {j \<in> V. parents E j \<subseteq> set P}"
    and indeg: "\<And>j. hm_get (kindeg k) j = (if j \<in> V then Some (card (parents E j - set P)) else None)"
    and prev: "\<And>j p. hm_get (kprev k) j = Some p \<Longrightarrow> p \<in> set P \<and> (p, j) \<in> E \<and> dist_of k j = sat_u128 (dist_of k p) (?D j)"
    and root: "\<And>j. hm_get (kprev k) j = None \<Longrightarrow> dist_of k j = ?D j"
    and upper: "\<And>p j. p \<in> set P \<Longrightarrow> (p, j) \<in> E \<Longrightarrow> sat_u128 (dist_of k p) (?D j) \<le> dist_of k j"
    and lower: "\<And>j. ?D j \<le> dist_of k j"
    and keys: "hm_wf (kdist k)" "\<And>j. hm_get (kdist k) j = None \<longleftrightarrow> j \<notin> V"
    using inv q unfolding kahn_inv_def by auto
  have i: "i \<in> V" "parents E i \<subseteq> set P" "i \<notin> set P" using sets dst by auto
  have child: "c \<notin> set P" "c \<noteq> i" "c \<notin> set q" "i \<in> parents E c - set P" "c \<in> V" if "(i, c) \<in> E" for c
  proof -
    show "i \<in> parents E c - set P" using that i(3) by (simp add: parents_def)
    then have "\<not> parents E c \<subseteq> set P" by blast
    then show "c \<notin> set P" "c \<noteq> i" "c \<notin> set q" using sets by auto
    show "c \<in> V" using EV that by blast
  qed
  have dist': "dist_of k' c = (if (i, c) \<in> E then max (dist_of k c) (sat_u128 (dist_of k i) (?D c)) else dist_of k c)"
    and prev': "hm_get (kprev k') c = (if (i, c) \<in> E \<and> dist_of k c < sat_u128 (dist_of k i) (?D c) then Some i
        else hm_get (kprev k) c)"
    and indeg': "hm_get (kindeg k') c = (if (i, c) \<in> E then map_option (\<lambda>x. x - 1) (hm_get (kindeg k) c)
        else hm_get (kindeg k) c)"
    and q': "kq k' = q @ filter (\<lambda>c. map_option (\<lambda>x. x - 1) (hm_get (kindeg k) c) = Some 0) ?cs"
    and vis': "kvisited k' = kvisited k + 1"
    and wf': "hm_wf (kdist k')" for c
    using rx keys(1) unfolding relaxed_def k1 cs(2) by simp_all
  have keys': "hm_get (kdist k') j = None \<longleftrightarrow> j \<notin> V" for j
  proof -
    have "\<forall>c\<in>set ?cs. hm_get (kdist k1) c \<noteq> None" using child(5) cs(2) keys(2) k1 by auto
    then show ?thesis using rx keys(2) unfolding relaxed_def k1 by simp
  qed
  have same: "dist_of k' p = dist_of k p" if "p \<in> set P \<or> p = i" for p
    using child [of p] that by (auto simp: dist')
  have card: "parents E c - set (P @ [i]) = parents E c - set P - {i}" for c by auto
  have card': "card (parents E c - set (P @ [i])) = card (parents E c - set P) - 1" if "(i, c) \<in> E" for c
    unfolding card using child(4) [OF that] fin [of c] by simp
  have pushed: "c \<in> set (kq k') \<longleftrightarrow> c \<in> set q \<or> ((i, c) \<in> E \<and> parents E c \<subseteq> set (P @ [i]))" for c
  proof -
    have "map_option (\<lambda>x. x - 1) (hm_get (kindeg k) c) = Some 0 \<longleftrightarrow> parents E c \<subseteq> set (P @ [i])" if "(i, c) \<in> E"
    proof -
      have "map_option (\<lambda>x. x - 1) (hm_get (kindeg k) c) = Some (card (parents E c - set (P @ [i])))"
        using child(5) [OF that] card' [OF that] by (simp add: indeg)
      also have "\<dots> = Some 0 \<longleftrightarrow> parents E c - set (P @ [i]) = {}" using fin [of c] by (auto simp: card_eq_0_iff)
      finally show ?thesis by blast
    qed
    then show ?thesis by (auto simp: q' cs(2))
  qed
  show ?thesis
    unfolding kahn_inv_def
  proof (intro conjI allI impI)
    show "kvisited k' = length (P @ [i])" using vis vis' by simp
    show "distinct ((P @ [i]) @ kq k')" using dst cs(1) child by (auto simp: q' cs(2))
    show "set (P @ [i]) \<union> set (kq k') = {j \<in> V. parents E j \<subseteq> set (P @ [i])}"
    proof (rule set_eqI)
      fix c
      have "c \<in> set P \<union> set (i # q) \<longleftrightarrow> c \<in> V \<and> parents E c \<subseteq> set P" using sets by auto
      moreover have "(i, c) \<notin> E \<Longrightarrow> parents E c \<subseteq> set (P @ [i]) \<longleftrightarrow> parents E c \<subseteq> set P"
        by (auto simp: parents_def)
      moreover have "parents E c \<subseteq> set P \<Longrightarrow> parents E c \<subseteq> set (P @ [i])" by auto
      ultimately show "c \<in> set (P @ [i]) \<union> set (kq k') \<longleftrightarrow> c \<in> {j \<in> V. parents E j \<subseteq> set (P @ [i])}"
        using pushed [of c] child(5) [of c] by auto
    qed
    show "hm_get (kindeg k') j = (if j \<in> V then Some (card (parents E j - set (P @ [i]))) else None)" for j
    proof (cases "(i, j) \<in> E")
      case True
      then show ?thesis using child(5) [OF True] card' [OF True] by (simp add: indeg' indeg)
    next
      case False
      then have "parents E j - set (P @ [i]) = parents E j - set P" by (auto simp: parents_def)
      with False show ?thesis by (simp add: indeg' indeg)
    qed
    show "p \<in> set (P @ [i])" "(p, j) \<in> E" "dist_of k' j = sat_u128 (dist_of k' p) (?D j)"
      if "hm_get (kprev k') j = Some p" for j p
    proof -
      have "p \<in> set (P @ [i]) \<and> (p, j) \<in> E \<and> dist_of k' j = sat_u128 (dist_of k' p) (?D j)"
      proof (cases "(i, j) \<in> E \<and> dist_of k j < sat_u128 (dist_of k i) (?D j)")
        case True
        then have "p = i" using that by (simp add: prev')
        with True show ?thesis using same [of i] by (simp add: dist')
      next
        case False
        then have p: "hm_get (kprev k) j = Some p" using that by (auto simp: prev' split: if_splits)
        have "dist_of k' j = dist_of k j" using False by (auto simp: dist')
        with prev [OF p] same [of p] show ?thesis by auto
      qed
      then show "p \<in> set (P @ [i])" "(p, j) \<in> E" "dist_of k' j = sat_u128 (dist_of k' p) (?D j)" by simp_all
    qed
    show "dist_of k' j = ?D j" if "hm_get (kprev k') j = None" for j
    proof -
      have n: "\<not> ((i, j) \<in> E \<and> dist_of k j < sat_u128 (dist_of k i) (?D j))" "hm_get (kprev k) j = None"
        using that by (auto simp: prev' split: if_splits)
      then have "dist_of k' j = dist_of k j" by (auto simp: dist')
      with root [OF n(2)] show ?thesis by simp
    qed
    show "sat_u128 (dist_of k' p) (?D j) \<le> dist_of k' j" if p: "p \<in> set (P @ [i])" "(p, j) \<in> E" for p j
    proof (cases "p = i")
      case True
      then show ?thesis using p same [of i] by (simp add: dist')
    next
      case False
      then have "p \<in> set P" using p by simp
      with upper [OF this p(2)] same [of p] show ?thesis by (auto simp: dist' [of j] le_max_iff_disj)
    qed
    show "?D j \<le> dist_of k' j" for j using lower [of j] by (simp add: dist' le_max_iff_disj)
    show "hm_wf (kdist k')" by (rule wf')
    show "hm_get (kdist k') j = None \<longleftrightarrow> j \<notin> V" for j by (rule keys')
  qed
qed

lemma kahn_loop_spec:
  assumes adj: "adj_ok V E adj"
  shows "kahn_inv V E (get_or_0 duration) P k \<Longrightarrow> card V \<le> length P + fuel \<Longrightarrow>
    \<exists>P' k'. kahn_loop fuel duration adj k = Some k' \<and> kahn_inv V E (get_or_0 duration) P' k' \<and> kq k' = []"
proof (induction fuel arbitrary: P k)
  case fuel: 0
  have "kq k = []"
  proof (rule ccontr)
    assume "kq k \<noteq> []"
    then have "length P < length (P @ kq k)" by simp
    also have "\<dots> = card (set (P @ kq k))" using fuel.prems(1) unfolding kahn_inv_def by (metis distinct_card)
    also have "\<dots> \<le> card V"
    proof (rule card_mono)
      show "finite V" using adj by (simp add: adj_ok_def)
      have "set P \<union> set (kq k) = {j \<in> V. parents E j \<subseteq> set P}"
        using fuel.prems(1) unfolding kahn_inv_def by blast
      then show "set (P @ kq k) \<subseteq> V" by auto
    qed
    finally show False using fuel.prems(2) by simp
  qed
  then show ?case using fuel.prems(1) by (auto simp: kahn_loop.simps)
next
  case (Suc fuel)
  show ?case
  proof (cases "kq k")
    case Nil
    then show ?thesis using Suc.prems(1) by (auto simp: kahn_loop.simps)
  next
    case (Cons i q)
    let ?k' = "foldl (relax duration i (dist_of k i)) (k\<lparr>kq := q, kvisited := kvisited k + 1\<rparr>) (list_or_nil adj i)"
    have "kahn_inv V E (get_or_0 duration) (P @ [i]) ?k'" by (rule kahn_step [OF adj Suc.prems(1) Cons refl])
    moreover have "kahn_loop (Suc fuel) duration adj k = kahn_loop fuel duration adj ?k'"
      by (subst kahn_loop.simps) (simp add: Cons Let_def dist_of_def list_or_nil_def)
    ultimately show ?thesis using Suc.IH [of "P @ [i]" ?k'] Suc.prems(2) by simp
  qed
qed

section \<open>The longest chain\<close>

definition chain_weight :: "(string \<Rightarrow> nat) \<Rightarrow> string list \<Rightarrow> nat" where
  "chain_weight D ns = min (sum_list (map D ns)) (2 ^ 128 - 1)"

lemma chain_weight_snoc: "ns \<noteq> [] \<Longrightarrow> chain_weight D (ns @ [x]) = sat_u128 (chain_weight D ns) (D x)"
  by (simp add: chain_weight_def sat_u128_min)

lemma sat_u128_mono: "a \<le> b \<Longrightarrow> sat_u128 a c \<le> sat_u128 b c"
  by (simp add: sat_u128_min)

text \<open>When the loop ends on an acyclic graph, all nodes were popped.\<close>

lemma kahn_all_popped:
  assumes adj: "adj_ok V E adj" and "acyclic E" and inv: "kahn_inv V E D P k" and "kq k = []"
  shows "set P = V"
proof
  have sets: "set P = {j \<in> V. parents E j \<subseteq> set P}" using inv assms(4) unfolding kahn_inv_def by auto
  then show "set P \<subseteq> V" by blast
  have "finite E" by (rule finite_subset [of _ "V \<times> V"]) (use adj in \<open>auto simp: adj_ok_def\<close>)
  then have wf: "wf E" using assms(2) by (rule finite_acyclic_wf)
  show "V \<subseteq> set P"
  proof
    fix i assume "i \<in> V"
    with wf show "i \<in> set P"
    proof (induction i rule: wf_induct_rule)
      case (less i)
      have "parents E i \<subseteq> set P" using less adj by (auto simp: parents_def adj_ok_def)
      then show ?case using less.prems sets by blast
    qed
  qed
qed

lemma chain_le_dist:
  assumes inv: "kahn_inv V E D P k" and all: "set P = V" and D: "\<And>i. D i < 2 ^ 128"
  shows "ns \<noteq> [] \<Longrightarrow> set ns \<subseteq> V \<Longrightarrow> successively (\<lambda>a b. (a, b) \<in> E) ns \<Longrightarrow> chain_weight D ns \<le> dist_of k (last ns)"
proof (induction ns rule: rev_induct)
  case (snoc x ns)
  have lower: "D x \<le> dist_of k x" using inv unfolding kahn_inv_def by blast
  show ?case
  proof (cases "ns = []")
    case True
    then show ?thesis using lower by (simp add: chain_weight_def)
  next
    case False
    then have e: "(last ns, x) \<in> E" "successively (\<lambda>a b. (a, b) \<in> E) ns"
      using snoc.prems(3) by (simp_all add: successively_append_iff)
    have "last ns \<in> set P" using snoc.prems(2) False all by (auto dest: last_in_set)
    then have "sat_u128 (dist_of k (last ns)) (D x) \<le> dist_of k x" using inv e(1) unfolding kahn_inv_def by blast
    moreover have "chain_weight D ns \<le> dist_of k (last ns)" using snoc False e(2) by simp
    ultimately show ?thesis
      using sat_u128_mono [of "chain_weight D ns" "dist_of k (last ns)" "D x"] False by (simp add: chain_weight_snoc)
  qed
qed simp

lemma chain_distinct: "acyclic E \<Longrightarrow> successively (\<lambda>a b. (a, b) \<in> E) ns \<Longrightarrow> distinct ns"
proof -
  assume E: "acyclic E" "successively (\<lambda>a b. (a, b) \<in> E) ns"
  have "successively (\<lambda>a b. (a, b) \<in> E\<^sup>+) ns" using E(2) by (rule successively_mono) auto
  then have "sorted_wrt (\<lambda>a b. (a, b) \<in> E\<^sup>+) ns"
    by (subst (asm) successively_conv_sorted_wrt) (auto simp: transp_def)
  then show "distinct ns" using E(1) by (induction ns) (auto simp: acyclic_def)
qed

text \<open>Walking back gives a chain whose weight is the distance.\<close>

lemma walk_back_chain:
  assumes adj: "adj_ok V E adj" and ac: "acyclic E" and inv: "kahn_inv V E D P k" and all: "set P = V"
    and D: "\<And>i. D i < 2 ^ 128" and i: "i \<in> V"
  shows "\<exists>ns. ns \<noteq> [] \<and> last ns = i \<and> set ns \<subseteq> V \<and> successively (\<lambda>a b. (a, b) \<in> E) ns
    \<and> chain_weight D ns = dist_of k i \<and> (\<forall>f\<ge>length ns. walk_back f (kprev k) i = Some (rev ns))"
proof -
  have "finite E" by (rule finite_subset [of _ "V \<times> V"]) (use adj in \<open>auto simp: adj_ok_def\<close>)
  then have "wf E" using ac by (rule finite_acyclic_wf)
  then show ?thesis using i
  proof (induction i rule: wf_induct_rule)
    case (less i)
    show ?case
    proof (cases "hm_get (kprev k) i")
      case None
      then have "dist_of k i = D i" using inv unfolding kahn_inv_def by blast
      moreover have "walk_back f (kprev k) i = Some [i]" if "Suc 0 \<le> f" for f
        using that None by (cases f) simp_all
      ultimately show ?thesis using less.prems D [of i]
        by (intro exI [of _ "[i]"]) (simp add: chain_weight_def)
    next
      case (Some p)
      then have p: "p \<in> V" "(p, i) \<in> E" "dist_of k i = sat_u128 (dist_of k p) (D i)"
        using inv all unfolding kahn_inv_def by blast+
      from less.IH [OF p(2,1)] obtain ns where ns: "ns \<noteq> []" "last ns = p" "set ns \<subseteq> V"
        "successively (\<lambda>a b. (a, b) \<in> E) ns" "chain_weight D ns = dist_of k p"
        "\<forall>f\<ge>length ns. walk_back f (kprev k) p = Some (rev ns)" by blast
      have "walk_back f (kprev k) i = Some (rev (ns @ [i]))" if "length (ns @ [i]) \<le> f" for f
        using that Some ns(6) by (cases f) simp_all
      then show ?thesis using ns p less.prems
        by (intro exI [of _ "ns @ [i]"]) (simp add: chain_weight_snoc successively_append_iff)
    qed
  qed
qed

section \<open>The critical path\<close>

definition dependency_chain :: "run_behavior_lane list \<Rightarrow> string list \<Rightarrow> bool" where
  "dependency_chain lanes ns \<longleftrightarrow> ns \<noteq> [] \<and> set ns \<subseteq> lane_ids lanes
     \<and> successively (\<lambda>a b. (a, b) \<in> lane_edges lanes) ns"

definition lane_duration :: "run_behavior_lane list \<Rightarrow> string \<Rightarrow> nat" where
  "lane_duration lanes i = (case map_of (map (\<lambda>l. (ln_node_id l, dur_of l)) lanes) i of Some d \<Rightarrow> d | None \<Rightarrow> 0)"

lemma duration_map_eq:
  assumes "distinct (map ln_node_id lanes)"
  shows "get_or_0 (duration_map lanes) = lane_duration lanes"
    and "hm_get (duration_map lanes) i = None \<longleftrightarrow> i \<notin> lane_ids lanes" "hm_wf (duration_map lanes)"
proof -
  have uniq: "filter (\<lambda>l. ln_node_id l = ln_node_id m) lanes = [m]" if "m \<in> set lanes" for m
    using assms that by (induction lanes) (auto simp: filter_empty_conv image_iff)
  have m: "map_of (map (\<lambda>l. (ln_node_id l, dur_of l)) lanes) (ln_node_id m) = Some (dur_of m)" if "m \<in> set lanes" for m
    using assms that by (subst map_of_eq_Some_iff) (auto simp: comp_def)
  show "get_or_0 (duration_map lanes) = lane_duration lanes"
  proof
    fix i
    show "get_or_0 (duration_map lanes) i = lane_duration lanes i"
    proof (cases "i \<in> ln_node_id ` set lanes")
      case True
      then obtain l where "l \<in> set lanes" "i = ln_node_id l" by auto
      then show ?thesis using uniq [of l] m [of l]
        by (simp add: get_or_0_def duration_map_def hm_foldl_insert lane_duration_def)
    next
      case False
      then have "map_of (map (\<lambda>l. (ln_node_id l, dur_of l)) lanes) i = None"
        by (auto simp: map_of_eq_None_iff)
      with False show ?thesis
        by (simp add: get_or_0_def duration_map_def hm_foldl_insert lane_duration_def hm_get_Nil)
    qed
  qed
  show "hm_get (duration_map lanes) i = None \<longleftrightarrow> i \<notin> lane_ids lanes"
    by (simp add: duration_map_def hm_foldl_insert hm_get_Nil lane_ids_def)
  show "hm_wf (duration_map lanes)" by (simp add: duration_map_def hm_foldl_insert_wf hm_wf_Nil)
qed

lemma edge_counts:
  assumes "distinct (known_edges lanes)"
  shows "length (filter (\<lambda>e. snd e = i) (known_edges lanes)) = card (parents (lane_edges lanes) i)"
proof -
  have "length (filter (\<lambda>e. snd e = i) (known_edges lanes)) = card (set (filter (\<lambda>e. snd e = i) (known_edges lanes)))"
    using assms by (metis distinct_card distinct_filter)
  also have "set (filter (\<lambda>e. snd e = i) (known_edges lanes)) = (\<lambda>d. (d, i)) ` parents (lane_edges lanes) i"
    by (auto simp: parents_def lane_edges_def)
  also have "card \<dots> = card (parents (lane_edges lanes) i)" by (rule card_image) (simp add: inj_on_def)
  finally show ?thesis .
qed

lemma kahn_started:
  assumes "distinct (map ln_node_id lanes)" "\<forall>l\<in>set lanes. distinct (ln_dependencies l)"
    and f: "foldl add_known_edge ([], zero_indegree lanes) (known_edges lanes) = (adj, ind)"
  shows "adj_ok (lane_ids lanes) (lane_edges lanes) (sorted_adjacency adj)"
    and "kahn_inv (lane_ids lanes) (lane_edges lanes) (get_or_0 (duration_map lanes)) [] (kahn_start lanes ind)"
proof -
  let ?V = "lane_ids lanes" and ?E = "lane_edges lanes"
  have dk: "distinct (known_edges lanes)" by (rule distinct_known_edges [OF assms(1,2)])
  note ak = add_known_edges [OF f]
  show "adj_ok ?V ?E (sorted_adjacency adj)"
    unfolding adj_ok_def
  proof (intro conjI allI)
    show "finite ?V" by (simp add: lane_ids_def)
    show "?E \<subseteq> ?V \<times> ?V" using known_edges_ids by auto
    have l: "list_or_nil (sorted_adjacency adj) i = remdups_adj (sort (map snd (filter (\<lambda>e. fst e = i) (known_edges lanes))))" for i
      unfolding get_sorted_adjacency ak(1) by (simp add: list_or_nil_def hm_get_Nil)
    have "distinct (remdups_adj xs)" if "sorted xs" for xs :: "string list"
      using that by (induction xs rule: remdups_adj.induct) (auto simp: order.antisym)
    then show "distinct (list_or_nil (sorted_adjacency adj) i)" for i by (simp add: l)
    show "set (list_or_nil (sorted_adjacency adj) i) = {c. (i, c) \<in> ?E}" for i
      by (force simp: l lane_edges_def)
  qed
  have zero: "hm_get (zero_indegree lanes) i = (if i \<in> ?V then Some 0 else None)" for i
    by (simp add: zero_indegree_def hm_foldl_insert hm_get_Nil lane_ids_def)
  have indeg: "hm_get ind i = (if i \<in> ?V then Some (card (parents ?E i)) else None)" for i
  proof -
    have "get_or_0 ind i = card (parents ?E i)"
      using ak(2) [of i] edge_counts [OF dk, of i] zero [of i] by (simp add: get_or_0_def)
    moreover have "hm_get ind i \<noteq> None \<longleftrightarrow> i \<in> ?V"
      using ak(3) [of i] zero [of i] known_edges_ids by (fastforce simp: lane_edges_def split: if_splits)
    ultimately show ?thesis by (cases "hm_get ind i") (auto simp: get_or_0_def)
  qed
  have wf: "hm_wf ind" using ak(4) by (simp add: zero_indegree_def hm_foldl_insert_wf hm_wf_Nil)
  have fin: "finite (parents ?E i)" for i
    by (rule finite_subset [of _ ?V]) (use known_edges_ids in \<open>auto simp: parents_def lane_ids_def\<close>)
  let ?roots = "map fst (filter (\<lambda>(i, c). c = 0) ind)"
  have roots: "i \<in> set ?roots \<longleftrightarrow> i \<in> ?V \<and> parents ?E i = {}" for i
  proof -
    have "i \<in> set ?roots \<longleftrightarrow> hm_get ind i = Some 0"
      using hm_get_iff_mem [OF wf] by force
    then show ?thesis using fin [of i] by (auto simp: indeg)
  qed
  have "distinct ?roots" using wf by (simp add: hm_wf_def hm_keys_def distinct_map_filter)
  moreover have "set ?roots = {i \<in> ?V. parents ?E i \<subseteq> {}}" using roots by blast
  ultimately show "kahn_inv ?V ?E (get_or_0 (duration_map lanes)) [] (kahn_start lanes ind)"
    using indeg duration_map_eq(2,3) [OF assms(1)]
    by (simp add: kahn_inv_def kahn_start_def hm_get_Nil dist_of_def)
qed

lemma longest_first_max:
  "longest_first xs = (i, d) # ys \<Longrightarrow> (i, d) \<in> set xs \<and> (\<forall>(j, e)\<in>set xs. e \<le> d)"
proof -
  assume a: "longest_first xs = (i, d) # ys"
  have "sorted (map (\<lambda>(i, d). (- int d, i)) (longest_first xs))" by (simp add: longest_first_def)
  then have le: "e \<le> d" if "(j, e) \<in> set ((i, d) # ys)" for j e
    using that a by (auto simp: less_eq_prod_def)
  have s: "set xs = set ((i, d) # ys)" by (metis a longest_first_def set_sort)
  show ?thesis unfolding s using le by auto
qed

text \<open>
  C15: For lanes with distinct identifiers, acyclic and without repeated dependencies, the
  critical path is a chain of dependencies, its reported duration is the sum of the durations
  of its lanes, and no chain of dependencies lasts longer.
\<close>

theorem critical_path_correct:
  assumes ids: "distinct (map ln_node_id lanes)" and deps: "\<forall>l\<in>set lanes. distinct (ln_dependencies l)"
    and ac: "acyclic (lane_edges lanes)" and dur: "\<And>i. lane_duration lanes i < 2 ^ 128" and ne: "lanes \<noteq> []"
  shows "\<exists>path total. compute_critical_path lanes = Some (path, total)
    \<and> dependency_chain lanes path \<and> chain_weight (lane_duration lanes) path = total
    \<and> (\<forall>ns. dependency_chain lanes ns \<longrightarrow> chain_weight (lane_duration lanes) ns \<le> total)"
proof -
  let ?V = "lane_ids lanes" and ?E = "lane_edges lanes" and ?D = "lane_duration lanes"
  obtain adj ind where f: "foldl add_known_edge ([], zero_indegree lanes) (known_edges lanes) = (adj, ind)"
    by fastforce
  note start = kahn_started [OF ids deps f]
  have cV: "card ?V = length lanes" using ids by (metis lane_ids_def distinct_card length_map set_map)
  obtain P k where k: "kahn_loop (length lanes) (duration_map lanes) (sorted_adjacency adj) (kahn_start lanes ind) = Some k"
    "kahn_inv ?V ?E ?D P k" "kq k = []"
    using kahn_loop_spec [OF start(1,2), of "length lanes"] cV by (auto simp: duration_map_eq(1) [OF ids])
  have all: "set P = ?V" by (rule kahn_all_popped [OF start(1) ac k(2,3)])
  have "kvisited k = length lanes"
    using k(2) all cV unfolding kahn_inv_def by (metis distinct_append distinct_card)
  then have vis: "kvisited k = length (remdups (map ln_node_id lanes))"
    by (simp add: distinct_remdups_id [OF ids])
  have keys: "hm_wf (kdist k)" "hm_get (kdist k) j = None \<longleftrightarrow> j \<notin> ?V" for j
    using k(2) unfolding kahn_inv_def by auto
  have "?V \<noteq> {}" using ne by (simp add: lane_ids_def)
  then have "kdist k \<noteq> []" using keys(2) by (auto simp: hm_get_Nil)
  then have "longest_first (kdist k) \<noteq> []" by (metis longest_first_def set_empty set_sort)
  then obtain i d ys where top: "longest_first (kdist k) = (i, d) # ys" by (metis neq_Nil_conv surj_pair)
  have id: "hm_get (kdist k) i = Some d" "\<And>j. j \<in> ?V \<Longrightarrow> dist_of k j \<le> d"
  proof -
    show "hm_get (kdist k) i = Some d" using longest_first_max [OF top] hm_get_iff_mem [OF keys(1)] by blast
    show "dist_of k j \<le> d" if j: "j \<in> ?V" for j
    proof -
      obtain e where "hm_get (kdist k) j = Some e" using j keys(2) [of j] by auto
      then show ?thesis using longest_first_max [OF top] hm_get_iff_mem [OF keys(1)]
        by (fastforce simp: dist_of_def get_or_0_def)
    qed
  qed
  have iV: "i \<in> ?V" "dist_of k i = d" using id(1) keys(2) [of i] by (auto simp: dist_of_def get_or_0_def)
  obtain ns where ns: "ns \<noteq> []" "set ns \<subseteq> ?V" "successively (\<lambda>a b. (a, b) \<in> ?E) ns"
    "chain_weight ?D ns = dist_of k i" "\<forall>f\<ge>length ns. walk_back f (kprev k) i = Some (rev ns)"
    using walk_back_chain [OF start(1) ac k(2) all dur iV(1)] by blast
  have "length ns \<le> length lanes"
    using distinct_card [OF chain_distinct [OF ac ns(3)]] card_mono [OF _ ns(2)] cV by (simp add: lane_ids_def)
  then have "compute_critical_path lanes = Some (ns, d)"
    using ns(5) vis k(1) top ne by (simp add: compute_critical_path_def f Let_def)
  moreover have "dependency_chain lanes ns" using ns by (simp add: dependency_chain_def)
  moreover have "chain_weight ?D cs \<le> d" if "dependency_chain lanes cs" for cs
  proof -
    have cs: "cs \<noteq> []" "set cs \<subseteq> ?V" "successively (\<lambda>a b. (a, b) \<in> ?E) cs"
      using that by (simp_all add: dependency_chain_def)
    have "last cs \<in> ?V" using cs(1,2) by auto
    with chain_le_dist [OF k(2) all dur cs] id(2) show ?thesis by (meson order_trans)
  qed
  ultimately show ?thesis using ns(4) iV(2) by blast
qed

theorem critical_path_correct_witness:
  "dependency_chain diamond [''a'', ''c'', ''d''] \<and> chain_weight (lane_duration diamond) [''a'', ''c'', ''d''] = 45
   \<and> chain_weight (lane_duration diamond) [''a'', ''b'', ''d''] \<le> 45"
proof -
  have path: "compute_critical_path diamond = Some ([''a'', ''c'', ''d''], 45)" by code_simp
  have ids: "distinct (map ln_node_id diamond)" "\<forall>l\<in>set diamond. distinct (ln_dependencies l)" "diamond \<noteq> []"
    by code_simp+
  have E: "lane_edges diamond = {(''a'', ''b''), (''a'', ''c''), (''b'', ''d''), (''c'', ''d'')}"
    by (auto simp: lane_edges_def known_edges_def diamond_def sample_lane_def)
  have "acyclic (lane_edges diamond)"
    by (rule acyclicI_order [where f = "\<lambda>i. if i = ''a'' then 2 else if i = ''d'' then 0 else (1 :: nat)"])
      (auto simp: E)
  moreover have "lane_duration diamond i < 2 ^ 128" for i
    by (simp add: lane_duration_def diamond_def sample_lane_def dur_of_def)
  moreover have "dependency_chain diamond [''a'', ''b'', ''d'']"
    by (simp add: dependency_chain_def E) (simp add: lane_ids_def diamond_def sample_lane_def)
  ultimately show ?thesis using critical_path_correct [OF ids(1,2) _ _ ids(3)] path by auto
qed

text \<open>
  A dependency listed twice counts twice in the indegree and once in the adjacency: the node is
  never reached, and the measure falls back to the longest single lane.
\<close>

lemma critical_path_duplicate:
  "compute_critical_path [sample_lane ''a'' [] 0 10, sample_lane ''b'' [''a''] 10 20] = Some ([''a'', ''b''], 20)"
  "compute_critical_path [sample_lane ''a'' [] 0 10, sample_lane ''b'' [''a'', ''a''] 10 20] = Some ([''a''], 10)"
  by code_simp+

end
