(* ===== verification/Sql.thy ===== *)
theory Sql
  imports Helpers
begin

text \<open>
  The part of SQL that the statements of \<^verbatim>\<open>src/memory/store.rs\<close> use, on tables that are lists of
  rows in the order of their insertion: keys, \<^verbatim>\<open>INSERT\<close>, upserts, \<^verbatim>\<open>UPDATE\<close> and \<^verbatim>\<open>DELETE\<close> with a
  condition, \<^verbatim>\<open>ORDER BY\<close>, \<^verbatim>\<open>LIMIT\<close>, \<^verbatim>\<open>LIKE\<close>, \<^verbatim>\<open>GROUP_CONCAT\<close>. A statement that violates a constraint
  changes nothing. Rows that \<^verbatim>\<open>ORDER BY\<close> does not separate keep their order in the table.

  Main results: what a table contains after an upsert (interface \<open>upsert_table\<close>), what \<^verbatim>\<open>LIKE\<close>
  matches with and without wildcards, and when a concatenated group is split back.
\<close>

section \<open>Constraints\<close>

datatype sql_error =
    Unique_violation
  | Foreign_key_violation
  | Decode_error string

definition has_key :: "('r \<Rightarrow> 'k) \<Rightarrow> 'k \<Rightarrow> 'r list \<Rightarrow> bool" where
  "has_key key k t \<longleftrightarrow> k \<in> set (map key t)"

definition row_of :: "('r \<Rightarrow> 'k) \<Rightarrow> 'k \<Rightarrow> 'r list \<Rightarrow> 'r option" where
  "row_of key k t = find (\<lambda>r. key r = k) t"

definition insert_row :: "('r \<Rightarrow> 'k) \<Rightarrow> 'r \<Rightarrow> 'r list \<Rightarrow> sql_error + 'r list" where
  "insert_row key r t = (if has_key key (key r) t then Inl Unique_violation else Inr (t @ [r]))"

definition update_where :: "('r \<Rightarrow> bool) \<Rightarrow> ('r \<Rightarrow> 'r) \<Rightarrow> 'r list \<Rightarrow> 'r list" where
  "update_where p f t = map (\<lambda>r. if p r then f r else r) t"

definition delete_where :: "('r \<Rightarrow> bool) \<Rightarrow> 'r list \<Rightarrow> 'r list" where
  "delete_where p t = filter (\<lambda>r. \<not> p r) t"

definition affected :: "('r \<Rightarrow> bool) \<Rightarrow> 'r list \<Rightarrow> nat" where
  "affected p t = length (filter p t)"

text \<open>\<^verbatim>\<open>INSERT ... ON CONFLICT DO UPDATE\<close>: \<open>f r x\<close> is the row \<open>x\<close> updated from the excluded row \<open>r\<close>.\<close>

definition upsert :: "('r \<Rightarrow> 'k) \<Rightarrow> ('r \<Rightarrow> 'r \<Rightarrow> 'r) \<Rightarrow> 'r \<Rightarrow> 'r list \<Rightarrow> 'r list" where
  "upsert key f r t =
     (if has_key key (key r) t then update_where (\<lambda>x. key x = key r) (f r) t else t @ [r])"

text \<open>\<^verbatim>\<open>INSERT OR REPLACE\<close> deletes the row in conflict and inserts the new one.\<close>

definition replace_row :: "('r \<Rightarrow> 'k) \<Rightarrow> 'r \<Rightarrow> 'r list \<Rightarrow> 'r list" where
  "replace_row key r t = delete_where (\<lambda>x. key x = key r) t @ [r]"

section \<open>Rows after a statement\<close>

named_theorems sql_simps

lemma set_update_where [sql_simps]:
  "set (update_where p f t) = {r \<in> set t. \<not> p r} \<union> f ` {r \<in> set t. p r}"
  by (auto simp: update_where_def)

lemma set_delete_where [sql_simps]: "set (delete_where p t) = {r \<in> set t. \<not> p r}"
  by (simp add: delete_where_def)

lemma update_where_id: "(\<And>r. r \<in> set t \<Longrightarrow> \<not> p r) \<Longrightarrow> update_where p f t = t"
  by (simp add: update_where_def map_idI)

lemma delete_where_id: "(\<And>r. r \<in> set t \<Longrightarrow> \<not> p r) \<Longrightarrow> delete_where p t = t"
  by (simp add: delete_where_def)

lemma map_update_where: "(\<And>r. g (f r) = g r) \<Longrightarrow> map g (update_where p f t) = map g t"
  by (simp add: update_where_def)

lemma distinct_map_delete_where: "distinct (map g t) \<Longrightarrow> distinct (map g (delete_where p t))"
  unfolding delete_where_def by (rule distinct_map_filter)

lemma sorted_map_delete_where: "sorted_wrt P (map g t) \<Longrightarrow> sorted_wrt P (map g (delete_where p t))"
  by (simp add: delete_where_def sorted_wrt_map sorted_wrt_filter)

lemma filter_update_where:
  "(\<And>r. q (f r) = q r) \<Longrightarrow> filter q (update_where p f t) = update_where p f (filter q t)"
  by (induction t) (auto simp: update_where_def)

lemma filter_delete_where: "filter q (delete_where p t) = delete_where p (filter q t)"
  by (simp add: delete_where_def conj_commute)

lemma insert_row_InrD:
  "insert_row key r t = Inr t' \<Longrightarrow> t' = t @ [r] \<and> key r \<notin> key ` set t"
  by (auto simp: insert_row_def has_key_def split: if_splits)

lemma insert_row_distinct:
  "insert_row key r t = Inr t' \<Longrightarrow> distinct (map key t) \<Longrightarrow> distinct (map key t')"
  by (auto dest!: insert_row_InrD)

lemma row_of_Some: "row_of key k t = Some r \<Longrightarrow> r \<in> set t \<and> key r = k"
  by (auto simp: row_of_def find_Some_iff)

lemma row_of_None: "row_of key k t = None \<longleftrightarrow> k \<notin> key ` set t"
  by (auto simp: row_of_def find_None_iff)

lemma row_of_mem: "distinct (map key t) \<Longrightarrow> r \<in> set t \<Longrightarrow> row_of key (key r) t = Some r"
  by (induction t) (auto simp: row_of_def)

lemma row_of_append: "row_of key k (s @ t) = (case row_of key k s of None \<Rightarrow> row_of key k t | r \<Rightarrow> r)"
  by (induction s) (auto simp: row_of_def)

lemma row_of_Nil [simp]: "row_of key k [] = None"
  by (simp add: row_of_def)

lemma row_of_Cons: "row_of key k (r # t) = (if key r = k then Some r else row_of key k t)"
  by (simp add: row_of_def)

lemma row_of_update_where:
  "(\<And>r. key (f r) = key r) \<Longrightarrow>
   row_of key k (update_where (\<lambda>x. key x = k') f t) =
     (if k = k' then map_option f (row_of key k t) else row_of key k t)"
  by (induction t) (auto simp: row_of_def update_where_def)

lemma row_of_delete_where:
  "row_of key k (delete_where (\<lambda>x. key x = k') t) = (if k = k' then None else row_of key k t)"
  by (induction t) (auto simp: row_of_def delete_where_def)

lemma upsert_keys:
  "(\<And>r x. key (f r x) = key x) \<Longrightarrow>
   map key (upsert key f r t) = (if has_key key (key r) t then map key t else map key t @ [key r])"
  by (simp add: upsert_def map_update_where)

lemma upsert_distinct:
  "(\<And>r x. key (f r x) = key x) \<Longrightarrow> distinct (map key t) \<Longrightarrow> distinct (map key (upsert key f r t))"
  by (simp add: upsert_keys has_key_def)

lemma row_of_upsert:
  assumes "\<And>r x. key (f r x) = key x"
  shows "row_of key k (upsert key f r t) =
    (if k = key r then Some (case row_of key k t of None \<Rightarrow> r | Some x \<Rightarrow> f r x) else row_of key k t)"
proof (cases "has_key key (key r) t")
  case True
  then have "row_of key (key r) t \<noteq> None" by (auto simp: has_key_def row_of_None)
  with True show ?thesis by (auto simp: upsert_def row_of_update_where assms)
next
  case False
  then have "row_of key (key r) t = None" by (auto simp: has_key_def row_of_None)
  with False show ?thesis
    by (auto simp: upsert_def row_of_append row_of_Cons split: option.splits)
qed

lemma replace_row_distinct:
  "distinct (map key t) \<Longrightarrow> distinct (map key (replace_row key r t))"
  by (auto simp: replace_row_def sql_simps distinct_map_delete_where)

lemma row_of_replace_row:
  "row_of key k (replace_row key r t) = (if k = key r then Some r else row_of key k t)"
  by (auto simp: replace_row_def row_of_append row_of_delete_where row_of_Cons split: option.split)

text \<open>The contract of a table under upserts, as seen through a view that an update replaces.\<close>

locale upsert_table =
  fixes get :: "'t \<Rightarrow> 'k \<Rightarrow> 'r option"
    and put :: "'r \<Rightarrow> 't \<Rightarrow> 't"
    and key :: "'r \<Rightarrow> 'k"
    and view :: "'r \<Rightarrow> 'v"
  assumes get_other: "k \<noteq> key r \<Longrightarrow> get (put r t) k = get t k"
    and get_same: "map_option view (get (put r t) (key r)) = Some (view r)"
begin

lemma last_write:
  "map_option view (get (fold put rs t) k) =
     (case find (\<lambda>r. key r = k) (rev rs) of Some r \<Rightarrow> Some (view r) | None \<Rightarrow> map_option view (get t k))"
proof (induction rs rule: rev_induct)
  case (snoc r rs)
  then show ?case by (cases "k = key r") (auto simp: get_same get_other)
qed simp

end

lemma upsert_table_upsert:
  assumes "\<And>r x. key (f r x) = key x" and "\<And>r x. view (f r x) = view r"
  shows "upsert_table (\<lambda>t k. row_of key k t) (upsert key f) key view"
proof
  fix k r and t :: "'a list"
  show "k \<noteq> key r \<Longrightarrow> row_of key k (upsert key f r t) = row_of key k t"
    by (simp add: row_of_upsert assms)
  show "map_option view (row_of key (key r) (upsert key f r t)) = Some (view r)"
    by (simp add: row_of_upsert assms split: option.split)
qed

lemma upsert_table_replace: "upsert_table (\<lambda>t k. row_of key k t) (replace_row key) key id"
  by unfold_locales (simp_all add: row_of_replace_row)

section \<open>Order and limit\<close>

definition order_asc :: "('r \<Rightarrow> 'k::linorder) \<Rightarrow> 'r list \<Rightarrow> 'r list" where
  "order_asc k t = sort_key k t"

definition order_desc :: "('r \<Rightarrow> 'k::linorder) \<Rightarrow> 'r list \<Rightarrow> 'r list" where
  "order_desc k t = rev (sort_key k (rev t))"

lemma set_order [sql_simps]: "set (order_asc k t) = set t" "set (order_desc k t) = set t"
  by (simp_all add: order_asc_def order_desc_def)

lemma mset_order: "mset (order_asc k t) = mset t" "mset (order_desc k t) = mset t"
  by (simp_all add: order_asc_def order_desc_def)

lemma length_order [sql_simps]: "length (order_asc k t) = length t" "length (order_desc k t) = length t"
  by (simp_all add: order_asc_def order_desc_def)

lemma sorted_order_asc: "sorted (map k (order_asc k t))"
  by (simp add: order_asc_def)

lemma sorted_order_desc: "sorted_wrt (\<ge>) (map k (order_desc k t))"
  using sorted_sort_key [of k "rev t"]
  by (simp add: order_desc_def sorted_wrt_rev flip: rev_map)

lemma order_asc_sorted: "sorted (map k t) \<Longrightarrow> order_asc k t = t"
  by (simp add: order_asc_def sort_key_id_if_sorted)

lemma order_desc_sorted: "sorted (map k t) \<Longrightarrow> distinct (map k t) \<Longrightarrow> order_desc k t = rev t"
proof -
  assume srt: "sorted (map k t)" and dist: "distinct (map k t)"
  have "mset (sort_key k (rev t)) = mset t" by simp
  moreover have "inj_on k (set t)" using dist by (simp add: distinct_map)
  ultimately have "sort_key k (rev t) = t"
    using srt by (intro sort_key_inj_key_eq) simp_all
  then show ?thesis by (simp add: order_desc_def)
qed

section \<open>LIKE\<close>

text \<open>\<open>%\<close> matches any text, \<open>_\<close> any character; letters match in both cases.\<close>

fun sql_like :: "string \<Rightarrow> string \<Rightarrow> bool" where
  "sql_like [] s \<longleftrightarrow> s = []"
| "sql_like (p # ps) s \<longleftrightarrow>
     (if p = CHR ''%'' then sql_like ps s \<or> (case s of [] \<Rightarrow> False | _ # s' \<Rightarrow> sql_like (p # ps) s')
      else case s of [] \<Rightarrow> False
        | c # s' \<Rightarrow> (p = CHR ''_'' \<or> to_lower p = to_lower c) \<and> sql_like ps s')"

lemma sql_like_step [simp]:
  "sql_like (CHR ''%'' # ps) [] \<longleftrightarrow> sql_like ps []"
  "sql_like (CHR ''%'' # ps) (c # s) \<longleftrightarrow> sql_like ps (c # s) \<or> sql_like (CHR ''%'' # ps) s"
  "p \<noteq> CHR ''%'' \<Longrightarrow> \<not> sql_like (p # ps) []"
  "p \<noteq> CHR ''%'' \<Longrightarrow>
     sql_like (p # ps) (c # s) \<longleftrightarrow> (p = CHR ''_'' \<or> to_lower p = to_lower c) \<and> sql_like ps s"
  using sql_like.simps(2) [of "CHR ''%''" ps "[]"] sql_like.simps(2) [of "CHR ''%''" ps "c # s"]
    sql_like.simps(2) [of p ps "[]"] sql_like.simps(2) [of p ps "c # s"]
  by (simp_all del: sql_like.simps)

declare sql_like.simps(2) [simp del]

definition plain_pattern :: "string \<Rightarrow> bool" where
  "plain_pattern p \<longleftrightarrow> CHR ''%'' \<notin> set p \<and> CHR ''_'' \<notin> set p"

lemma sql_like_any [simp]: "sql_like ''%'' s"
  by (induction s) auto

lemma sql_like_percent: "sql_like (CHR ''%'' # ps) s \<longleftrightarrow> (\<exists>a b. s = a @ b \<and> sql_like ps b)"
proof (induction s)
  case (Cons c s)
  have "(\<exists>a b. c # s = a @ b \<and> sql_like ps b) \<longleftrightarrow>
      sql_like ps (c # s) \<or> (\<exists>a b. s = a @ b \<and> sql_like ps b)"
    by (metis append_Cons append_Nil append_eq_Cons_conv)
  with Cons show ?case by simp
qed simp

lemma sql_like_skip: "sql_like ps s \<Longrightarrow> sql_like (CHR ''%'' # ps) s"
  by (cases s) simp_all

text \<open>A pattern with a final \<open>%\<close> matches every text that begins with it, wildcards included.\<close>

lemma sql_like_prefix: "sql_like (p @ ''%'') (p @ s)"
proof (induction p)
  case (Cons c p)
  show ?case
  proof (cases "c = CHR ''%''")
    case True
    with Cons show ?thesis by (simp add: sql_like_skip)
  next
    case False
    with Cons show ?thesis by simp
  qed
qed simp

text \<open>Without wildcards it matches nothing else, up to the case of letters.\<close>

lemma sql_like_plain_prefix:
  "plain_pattern p \<Longrightarrow> sql_like (p @ ''%'') s \<longleftrightarrow>
     length p \<le> length s \<and> map to_lower (take (length p) s) = map to_lower p"
proof (induction p arbitrary: s)
  case (Cons c p)
  then have "plain_pattern p" "c \<noteq> CHR ''%''" "c \<noteq> CHR ''_''" by (auto simp: plain_pattern_def)
  with Cons.IH show ?case by (cases s) auto
qed (simp add: plain_pattern_def)

lemma sql_like_contains:
  assumes "plain_pattern q"
  shows "sql_like (''%'' @ q @ ''%'') s \<longleftrightarrow> str_contains (map to_lower s) (map to_lower q)"
proof -
  have "sql_like (''%'' @ q @ ''%'') s \<longleftrightarrow>
      (\<exists>a b. s = a @ b \<and> length q \<le> length b \<and> map to_lower (take (length q) b) = map to_lower q)"
    using assms by (simp only: append_Cons append_Nil sql_like_percent sql_like_plain_prefix)
  also have "\<dots> \<longleftrightarrow> (\<exists>a b. map to_lower s = a @ map to_lower q @ b)"
  proof
    assume "\<exists>a b. s = a @ b \<and> length q \<le> length b \<and> map to_lower (take (length q) b) = map to_lower q"
    then obtain a b where "s = a @ b" "map to_lower (take (length q) b) = map to_lower q" by blast
    then have "map to_lower s = map to_lower a @ map to_lower q @ map to_lower (drop (length q) b)"
      by (metis append_take_drop_id map_append)
    then show "\<exists>a b. map to_lower s = a @ map to_lower q @ b" by blast
  next
    assume "\<exists>a b. map to_lower s = a @ map to_lower q @ b"
    then obtain a b where ab: "map to_lower s = a @ map to_lower q @ b" by blast
    let ?b = "drop (length a) s"
    have "map to_lower ?b = map to_lower q @ b" using ab by (simp add: drop_map[symmetric])
    then have "length q \<le> length ?b" "map to_lower (take (length q) ?b) = map to_lower q"
      by (metis length_append length_map le_add1, metis append_eq_conv_conj length_map take_map)
    then show "\<exists>a b. s = a @ b \<and> length q \<le> length b \<and> map to_lower (take (length q) b) = map to_lower q"
      by (metis append_take_drop_id)
  qed
  finally show ?thesis by (simp add: str_contains_iff)
qed

section \<open>Concatenated groups\<close>

text \<open>\<^verbatim>\<open>COALESCE(GROUP_CONCAT(x, sep), '')\<close> over the rows of a group, and \<^verbatim>\<open>str::split\<close>.\<close>

fun group_concat :: "char \<Rightarrow> string list \<Rightarrow> string" where
  "group_concat sep [] = []"
| "group_concat sep [s] = s"
| "group_concat sep (s # t # ss) = s @ sep # group_concat sep (t # ss)"

fun split_at :: "char \<Rightarrow> string \<Rightarrow> string list" where
  "split_at sep [] = [[]]"
| "split_at sep (c # cs) =
     (if c = sep then [] # split_at sep cs
      else (case split_at sep cs of [] \<Rightarrow> [[c]] | p # ps \<Rightarrow> (c # p) # ps))"

lemma split_at_free: "sep \<notin> set s \<Longrightarrow> split_at sep s = [s]"
  by (induction s) auto

lemma split_at_append: "sep \<notin> set s \<Longrightarrow> split_at sep (s @ sep # t) = s # split_at sep t"
  by (induction s) auto

lemma split_group_concat:
  "ss \<noteq> [] \<Longrightarrow> (\<And>s. s \<in> set ss \<Longrightarrow> sep \<notin> set s) \<Longrightarrow> split_at sep (group_concat sep ss) = ss"
  by (induction sep ss rule: group_concat.induct) (simp_all add: split_at_free split_at_append)

lemma group_concat_empty: "group_concat sep ss = [] \<longleftrightarrow> ss = [] \<or> ss = [[]]"
  by (cases "(sep, ss)" rule: group_concat.cases) auto

end
