(* ===== verification/Store.thy ===== *)
theory Store
  imports Complex_Main Sql Lifecycle
begin

text \<open>
  The database of \<^verbatim>\<open>src/memory/store.rs\<close>: the tables of the migrations, and the methods of
  \<^verbatim>\<open>SqliteStore\<close> on sessions, messages, runs, action events and memory items. Each method is
  its SQL statements; a method in a transaction is one step.

  An identifier of type \<^verbatim>\<open>Uuid\<close> is its text, an instant its RFC 3339 text, in which the order
  of texts is the order of time; fresh identifiers and the clock are arguments. \<^verbatim>\<open>AUTOINCREMENT\<close>
  takes the successor of the largest number the table ever had. Foreign keys are enforced, as
  is the default of \<^verbatim>\<open>sqlx\<close>. The \<^verbatim>\<open>CHECK\<close> constraints hold because the texts come from the
  enumerations. Failures of the database itself are not modelled. Costs in dollars are left
  out; the importance of an item is a number that is only stored and compared.
\<close>

section \<open>Tables\<close>

record session_row =
  se_id :: string
  se_created :: string
  se_kind :: string
  se_workspace :: "string option"

record message_row =
  ms_id :: nat
  ms_session :: string
  ms_role :: string
  ms_content :: string
  ms_created :: string
  ms_run :: "string option"
  ms_node :: "string option"
  ms_persona :: "string option"

record memory_row =
  mi_id :: string
  mi_session :: string
  mi_content :: string
  mi_importance :: rat
  mi_scope :: string
  mi_created :: string
  mi_updated :: string
  mi_embedding :: "u8 list option"

record link_row =
  ln_id :: nat
  ln_item :: string
  ln_ref :: string
  ln_created :: string

record agent_run_row =
  ar_run :: string
  ar_session :: string
  ar_status :: string
  ar_profile :: string
  ar_task :: string
  ar_json :: string
  ar_error :: "string option"
  ar_created :: string
  ar_updated :: string
  ar_input :: int
  ar_output :: int

record event_row =
  ev_seq :: nat
  ev_event :: string
  ev_run :: string
  ev_session :: string
  ev_timestamp :: string
  ev_action :: string
  ev_actor_type :: "string option"
  ev_actor :: "string option"
  ev_cause :: "string option"
  ev_payload :: string

record webhook_row =
  we_id :: string
  we_url :: string
  we_events :: string
  we_secret :: string
  we_enabled :: int
  we_created :: string

record delivery_row =
  wd_id :: nat
  wd_endpoint :: string
  wd_event :: string
  wd_event_id :: string
  wd_url :: string
  wd_attempts :: int
  wd_delivered :: int
  wd_dead_letter :: int
  wd_status :: "int option"
  wd_error :: "string option"
  wd_payload :: string
  wd_created :: string

record workflow_row =
  wf_id :: string
  wf_name :: string
  wf_description :: string
  wf_source_run :: "string option"
  wf_graph :: string
  wf_parameters :: string
  wf_created :: string
  wf_updated :: string

record schedule_row =
  cs_id :: string
  cs_workflow :: string
  cs_expr :: string
  cs_enabled :: int
  cs_parameters :: "string option"
  cs_last_run :: "string option"
  cs_next_run :: "string option"
  cs_created :: string

record knowledge_row =
  kb_id :: string
  kb_topic :: string
  kb_content :: string
  kb_importance :: rat
  kb_access :: int
  kb_created :: string
  kb_updated :: string

record coder_row =
  cd_id :: string
  cd_run :: string
  cd_node :: string
  cd_backend :: string
  cd_terminal :: "string option"
  cd_dir :: "string option"
  cd_branch :: "string option"
  cd_status :: string
  cd_exit :: "int option"
  cd_files :: "string option"
  cd_started :: string
  cd_ended :: "string option"

record github_row =
  gh_id :: string
  gh_run :: string
  gh_session :: string
  gh_persona :: string
  gh_type :: string
  gh_url :: "string option"
  gh_target :: "int option"
  gh_title :: string
  gh_preview :: string
  gh_metadata :: string
  gh_created :: string

record workspace_row =
  wr_id :: string
  wr_slug :: string
  wr_name :: string
  wr_kind :: string
  wr_root :: string
  wr_description :: "string option"
  wr_created :: string
  wr_updated :: string

record file_row =
  fr_id :: string
  fr_workspace :: string
  fr_session :: "string option"
  fr_path :: string
  fr_size :: int
  fr_mime :: "string option"
  fr_sha256 :: "string option"
  fr_created_by :: string
  fr_persona :: "string option"
  fr_created :: string
  fr_updated :: string

record meeting_row =
  mt_id :: string
  mt_workspace :: string
  mt_session :: "string option"
  mt_topic :: string
  mt_participants :: string
  mt_status :: string
  mt_created_by :: string
  mt_created :: string
  mt_closed :: "string option"

record meeting_message_row =
  mm_id :: nat
  mm_meeting :: string
  mm_speaker_kind :: string
  mm_speaker :: string
  mm_content :: string
  mm_created :: string

text \<open>The database. The numbers are the largest keys the \<^verbatim>\<open>AUTOINCREMENT\<close> tables ever had.\<close>

record db =
  t_sessions :: "session_row list"
  t_messages :: "message_row list"
  t_memory :: "memory_row list"
  t_links :: "link_row list"
  t_runs :: "agent_run_row list"
  t_events :: "event_row list"
  t_webhooks :: "webhook_row list"
  t_deliveries :: "delivery_row list"
  t_workflows :: "workflow_row list"
  t_schedules :: "schedule_row list"
  t_knowledge :: "knowledge_row list"
  t_settings :: "(string \<times> string) option"
  t_coders :: "coder_row list"
  t_github :: "github_row list"
  t_workspaces :: "workspace_row list"
  t_files :: "file_row list"
  t_meetings :: "meeting_row list"
  t_meeting_messages :: "meeting_message_row list"
  seq_messages :: nat
  seq_links :: nat
  seq_events :: nat
  seq_deliveries :: nat
  seq_meeting_messages :: nat

definition empty_db :: db where
  "empty_db = \<lparr>t_sessions = [], t_messages = [], t_memory = [], t_links = [], t_runs = [],
     t_events = [], t_webhooks = [], t_deliveries = [], t_workflows = [], t_schedules = [],
     t_knowledge = [], t_settings = None, t_coders = [], t_github = [], t_workspaces = [],
     t_files = [], t_meetings = [], t_meeting_messages = [], seq_messages = 0, seq_links = 0,
     seq_events = 0, seq_deliveries = 0, seq_meeting_messages = 0\<rparr>"

text \<open>A value with its serialisation, as \<^verbatim>\<open>serde_json\<close> gives it for the types of the program.\<close>

record 'a codec =
  enc :: "'a \<Rightarrow> string"
  dec :: "string \<Rightarrow> 'a option"

definition codec_ok :: "'a codec \<Rightarrow> bool" where
  "codec_ok c \<longleftrightarrow> (\<forall>x. dec c (enc c x) = Some x)"

text \<open>\<^verbatim>\<open>?\<close> after \<^verbatim>\<open>from_str\<close>, and the collection of decoded rows.\<close>

definition decoded :: "'a codec \<Rightarrow> string \<Rightarrow> sql_error + 'a" where
  "decoded c s = (case dec c s of None \<Rightarrow> Inl (Decode_error s) | Some x \<Rightarrow> Inr x)"

fun collect_rows :: "('r \<Rightarrow> sql_error + 'a) \<Rightarrow> 'r list \<Rightarrow> sql_error + 'a list" where
  "collect_rows f [] = Inr []"
| "collect_rows f (r # rs) = (case f r of Inl e \<Rightarrow> Inl e
     | Inr x \<Rightarrow> (case collect_rows f rs of Inl e \<Rightarrow> Inl e | Inr xs \<Rightarrow> Inr (x # xs)))"

lemma collect_rows_all: "(\<And>r. r \<in> set rs \<Longrightarrow> f r = Inr (g r)) \<Longrightarrow> collect_rows f rs = Inr (map g rs)"
  by (induction rs) auto

lemma collect_rows_Inl: "r \<in> set rs \<Longrightarrow> isl (f r) \<Longrightarrow> isl (collect_rows f rs)"
  by (induction rs) (auto split: sum.splits)

lemma collect_rows_Inr: "collect_rows f rs = Inr xs \<Longrightarrow> list_all2 (\<lambda>r x. f r = Inr x) rs xs"
  by (induction rs arbitrary: xs) (auto split: sum.splits)

section \<open>Sessions and messages\<close>

definition db_create_session :: "string \<Rightarrow> string \<Rightarrow> string \<Rightarrow> db \<Rightarrow> db" where
  "db_create_session now sid kind d =
     (case insert_row se_id \<lparr>se_id = sid, se_created = now, se_kind = kind, se_workspace = None\<rparr>
        (t_sessions d) of
        Inl _ \<Rightarrow> d
      | Inr t \<Rightarrow> d\<lparr>t_sessions := t\<rparr>)"

definition db_record_message :: "string \<Rightarrow> string \<Rightarrow> string \<Rightarrow> string \<Rightarrow> db \<Rightarrow> db" where
  "db_record_message now sid who content d = d\<lparr>
     t_messages := t_messages d @ [\<lparr>ms_id = Suc (seq_messages d), ms_session = sid, ms_role = who,
       ms_content = content, ms_created = now, ms_run = None, ms_node = None, ms_persona = None\<rparr>],
     seq_messages := Suc (seq_messages d)\<rparr>"

text \<open>
  The upsert of an agent's message: its conflict target is the partial unique index on rows
  that have a run.
\<close>

definition same_reply :: "string \<Rightarrow> string \<Rightarrow> string \<Rightarrow> message_row \<Rightarrow> bool" where
  "same_reply sid rid nid m \<longleftrightarrow> ms_session m = sid \<and> ms_run m = Some rid \<and> ms_node m = Some nid"

definition db_record_agent_message ::
    "string \<Rightarrow> string \<Rightarrow> string \<Rightarrow> string \<Rightarrow> string option \<Rightarrow> string \<Rightarrow> db \<Rightarrow> db" where
  "db_record_agent_message now sid rid nid who content d =
     (if \<exists>m \<in> set (t_messages d). same_reply sid rid nid m then
        d\<lparr>t_messages := update_where (same_reply sid rid nid)
          (\<lambda>m. m\<lparr>ms_content := content, ms_persona := who, ms_created := now\<rparr>) (t_messages d)\<rparr>
      else d\<lparr>
        t_messages := t_messages d @ [\<lparr>ms_id = Suc (seq_messages d), ms_session = sid,
          ms_role = ''agent'', ms_content = content, ms_created = now, ms_run = Some rid,
          ms_node = Some nid, ms_persona = who\<rparr>],
        seq_messages := Suc (seq_messages d)\<rparr>)"

definition db_list_session_messages :: "string \<Rightarrow> nat \<Rightarrow> db \<Rightarrow> message_row list" where
  "db_list_session_messages sid limit d =
     rev (take limit (order_desc ms_id (filter (\<lambda>m. ms_session m = sid) (t_messages d))))"

section \<open>Runs\<close>

definition run_row :: "run_record codec \<Rightarrow> string \<Rightarrow> run_record \<Rightarrow> agent_run_row" where
  "run_row c now r = \<lparr>ar_run = run_id r, ar_session = session_id r,
     ar_status = run_status_display (run_status r), ar_profile = task_profile_display (run_profile r),
     ar_task = run_task r, ar_json = enc c r, ar_error = run_error r, ar_created = created_at r,
     ar_updated = now,
     ar_input = (case total_token_usage r of None \<Rightarrow> 0 | Some u \<Rightarrow> uint (input_tokens u)),
     ar_output = (case total_token_usage r of None \<Rightarrow> 0 | Some u \<Rightarrow> uint (output_tokens u))\<rparr>"

definition excluded_run :: "agent_run_row \<Rightarrow> agent_run_row \<Rightarrow> agent_run_row" where
  "excluded_run r x = x\<lparr>ar_status := ar_status r, ar_json := ar_json r, ar_error := ar_error r,
     ar_updated := ar_updated r, ar_input := ar_input r, ar_output := ar_output r\<rparr>"

definition db_upsert_run :: "run_record codec \<Rightarrow> string \<Rightarrow> run_record \<Rightarrow> db \<Rightarrow> db" where
  "db_upsert_run c now r d = d\<lparr>t_runs := upsert ar_run excluded_run (run_row c now r) (t_runs d)\<rparr>"

definition db_get_run :: "run_record codec \<Rightarrow> string \<Rightarrow> db \<Rightarrow> sql_error + run_record option" where
  "db_get_run c rid d = (case row_of ar_run rid (t_runs d) of
       None \<Rightarrow> Inr None
     | Some row \<Rightarrow> (case decoded c (ar_json row) of Inl e \<Rightarrow> Inl e | Inr r \<Rightarrow> Inr (Some r)))"

definition db_list_recent_runs ::
    "run_record codec \<Rightarrow> nat \<Rightarrow> db \<Rightarrow> sql_error + run_record list" where
  "db_list_recent_runs c limit d =
     collect_rows (\<lambda>r. decoded c (ar_json r)) (take limit (order_desc ar_created (t_runs d)))"

definition db_list_session_runs ::
    "run_record codec \<Rightarrow> string \<Rightarrow> nat \<Rightarrow> db \<Rightarrow> sql_error + run_record list" where
  "db_list_session_runs c sid limit d =
     collect_rows (\<lambda>r. decoded c (ar_json r))
       (take limit (order_desc ar_created (filter (\<lambda>r. ar_session r = sid) (t_runs d))))"

section \<open>Action events\<close>

text \<open>A JSON value is its text: \<^verbatim>\<open>from_str\<close> gives back what \<^verbatim>\<open>to_string\<close> wrote.\<close>

record event_input =
  ei_run :: string
  ei_session :: string
  ei_action :: run_action_type
  ei_actor_type :: "string option"
  ei_actor :: "string option"
  ei_cause :: "string option"
  ei_payload :: string

record run_action_event =
  re_seq :: nat
  re_event :: string
  re_run :: string
  re_session :: string
  re_timestamp :: string
  re_action :: run_action_type
  re_actor_type :: "string option"
  re_actor :: "string option"
  re_cause :: "string option"
  re_payload :: string

definition event_row_of :: "nat \<Rightarrow> string \<Rightarrow> string \<Rightarrow> event_input \<Rightarrow> event_row" where
  "event_row_of n eid now e = \<lparr>ev_seq = n, ev_event = eid, ev_run = ei_run e,
     ev_session = ei_session e, ev_timestamp = now, ev_action = run_action_display (ei_action e),
     ev_actor_type = ei_actor_type e, ev_actor = ei_actor e, ev_cause = ei_cause e,
     ev_payload = ei_payload e\<rparr>"

definition insert_event :: "string \<Rightarrow> string \<Rightarrow> event_input \<Rightarrow> db \<Rightarrow> db" where
  "insert_event eid now e d = d\<lparr>
     t_events := t_events d @ [event_row_of (Suc (seq_events d)) eid now e],
     seq_events := Suc (seq_events d)\<rparr>"

definition db_batch_insert_run_action_events :: "(string \<times> string \<times> event_input) list \<Rightarrow> db \<Rightarrow> db" where
  "db_batch_insert_run_action_events es d = fold (\<lambda>(eid, now, e). insert_event eid now e) es d"

definition db_append_run_action_event ::
    "string \<Rightarrow> string \<Rightarrow> event_input \<Rightarrow> db \<Rightarrow> run_action_event \<times> db" where
  "db_append_run_action_event eid now e d =
     (\<lparr>re_seq = Suc (seq_events d), re_event = eid, re_run = ei_run e, re_session = ei_session e,
        re_timestamp = now, re_action = ei_action e, re_actor_type = ei_actor_type e,
        re_actor = ei_actor e, re_cause = ei_cause e, re_payload = ei_payload e\<rparr>,
      insert_event eid now e d)"

text \<open>The table of \<^verbatim>\<open>parse_run_action\<close>.\<close>

definition parsed_actions :: "run_action_type list" where
  "parsed_actions = [RA_RunQueued, RA_RunStarted, RA_RunCancelRequested, RA_RunPauseRequested,
     RA_RunResumed, RA_GraphInitialized, RA_NodeProgress, RA_NodeStarted, RA_NodeCompleted,
     RA_NodeFailed, RA_NodeSkipped, RA_DynamicNodeAdded, RA_GraphCompleted, RA_ModelSelected,
     RA_RunFinished, RA_WebhookDispatched, RA_McpToolCalled, RA_NodeTokenChunk, RA_SubtaskPlanned,
     RA_VerificationStarted, RA_VerificationComplete, RA_ReplanTriggered,
     RA_RecoveryPhaseStarted, RA_RecoveryPhaseCompleted, RA_TerminalSuggested,
     RA_CoderSessionStarted, RA_CoderSessionCompleted, RA_ValidationPassed, RA_ValidationFailed,
     RA_GitCommitCreated, RA_GitPushCompleted, RA_RepoCloneCompleted, RA_RepoAnalysisCompleted,
     RA_InteractiveStep, RA_GitHubIssueCreated, RA_GitHubIssueCommented, RA_GitHubIssueClosed,
     RA_GitHubPrCreated, RA_GitHubPrReviewed, RA_GitHubPrCommented, RA_GitHubPrMerged,
     RA_GitHubBranchCreated]"

definition parse_run_action :: "string \<Rightarrow> sql_error + run_action_type" where
  "parse_run_action s = (case find (\<lambda>a. run_action_display a = s) parsed_actions of
       None \<Rightarrow> Inl (Decode_error (''unknown run action event type: '' @ s))
     | Some a \<Rightarrow> Inr a)"

definition event_of_row :: "event_row \<Rightarrow> sql_error + run_action_event" where
  "event_of_row r = (case parse_run_action (ev_action r) of
       Inl e \<Rightarrow> Inl e
     | Inr a \<Rightarrow> Inr \<lparr>re_seq = ev_seq r, re_event = ev_event r, re_run = ev_run r,
         re_session = ev_session r, re_timestamp = ev_timestamp r, re_action = a,
         re_actor_type = ev_actor_type r, re_actor = ev_actor r, re_cause = ev_cause r,
         re_payload = ev_payload r\<rparr>)"

definition db_list_run_action_events ::
    "string \<Rightarrow> nat \<Rightarrow> db \<Rightarrow> sql_error + run_action_event list" where
  "db_list_run_action_events rid limit d = collect_rows event_of_row
     (take limit (order_asc ev_seq (filter (\<lambda>r. ev_run r = rid) (t_events d))))"

definition db_list_run_action_events_since ::
    "string \<Rightarrow> int \<Rightarrow> nat \<Rightarrow> db \<Rightarrow> sql_error + run_action_event list" where
  "db_list_run_action_events_since rid after limit d = collect_rows event_of_row
     (take limit (order_asc ev_seq
        (filter (\<lambda>r. ev_run r = rid \<and> after < int (ev_seq r)) (t_events d))))"

section \<open>Session summaries\<close>

record session_summary =
  ss_session :: string
  ss_created :: string
  ss_run_count :: nat
  ss_last_run :: "string option"
  ss_last_task :: "string option"
  ss_usage :: "token_usage option"

definition build_session_totals :: "int \<Rightarrow> int \<Rightarrow> token_usage option" where
  "build_session_totals total_in total_out =
     (if total_in > 0 \<or> total_out > 0 then
        Some (TokenUsage (of_int (min (max total_in 0) (2 ^ 32 - 1)))
                         (of_int (min (max total_out 0) (2 ^ 32 - 1))))
      else None)"

definition session_runs :: "string \<Rightarrow> db \<Rightarrow> agent_run_row list" where
  "session_runs sid d = filter (\<lambda>r. ar_session r = sid) (t_runs d)"

definition last_run_at :: "agent_run_row list \<Rightarrow> string option" where
  "last_run_at rs = (if rs = [] then None else Some (Max (set (map ar_created rs))))"

definition summary_of :: "db \<Rightarrow> session_row \<Rightarrow> session_summary" where
  "summary_of d s =
     (let rs = session_runs (se_id s) d
      in \<lparr>ss_session = se_id s, ss_created = se_created s, ss_run_count = length rs,
          ss_last_run = last_run_at rs,
          ss_last_task = (case order_desc ar_created rs of [] \<Rightarrow> None | r # _ \<Rightarrow> Some (ar_task r)),
          ss_usage = build_session_totals (sum_list (map ar_input rs)) (sum_list (map ar_output rs))\<rparr>)"

definition db_list_sessions :: "nat \<Rightarrow> string option \<Rightarrow> db \<Rightarrow> session_summary list" where
  "db_list_sessions limit kind d =
     take limit (order_desc (\<lambda>s. case ss_last_run s of None \<Rightarrow> ss_created s | Some t \<Rightarrow> t)
       (map (summary_of d)
         (filter (\<lambda>s. case kind of None \<Rightarrow> True | Some k \<Rightarrow> se_kind s = k) (t_sessions d))))"

definition db_get_session :: "string \<Rightarrow> db \<Rightarrow> session_summary option" where
  "db_get_session sid d = map_option (summary_of d) (row_of se_id sid (t_sessions d))"

section \<open>Deleting a session\<close>

text \<open>The last statement also clears the references to the session (\<^verbatim>\<open>ON DELETE SET NULL\<close>).\<close>

definition delete_session_row :: "string \<Rightarrow> db \<Rightarrow> db" where
  "delete_session_row sid d =
     (if has_key se_id sid (t_sessions d) then d\<lparr>
        t_sessions := delete_where (\<lambda>s. se_id s = sid) (t_sessions d),
        t_files := update_where (\<lambda>f. fr_session f = Some sid) (\<lambda>f. f\<lparr>fr_session := None\<rparr>) (t_files d),
        t_meetings := update_where (\<lambda>m. mt_session m = Some sid) (\<lambda>m. m\<lparr>mt_session := None\<rparr>)
          (t_meetings d)\<rparr>
      else d)"

definition db_delete_session :: "string \<Rightarrow> db \<Rightarrow> db" where
  "db_delete_session sid d =
     (let items = map mi_id (filter (\<lambda>i. mi_session i = sid) (t_memory d));
          d = d\<lparr>t_links := delete_where (\<lambda>l. ln_item l \<in> set items) (t_links d)\<rparr>;
          d = d\<lparr>t_memory := delete_where (\<lambda>i. mi_session i = sid) (t_memory d)\<rparr>;
          d = d\<lparr>t_messages := delete_where (\<lambda>m. ms_session m = sid) (t_messages d)\<rparr>;
          d = d\<lparr>t_runs := delete_where (\<lambda>r. ar_session r = sid) (t_runs d)\<rparr>;
          d = d\<lparr>t_events := delete_where (\<lambda>e. ev_session e = sid) (t_events d)\<rparr>
      in delete_session_row sid d)"

section \<open>Memory items\<close>

record session_memory_item =
  sm_id :: string
  sm_session :: string
  sm_scope :: string
  sm_content :: string
  sm_importance :: rat
  sm_refs :: "string list"
  sm_created :: string
  sm_updated :: string

definition db_insert_memory_item ::
    "string \<Rightarrow> string \<Rightarrow> string \<Rightarrow> string \<Rightarrow> string \<Rightarrow> rat \<Rightarrow> db \<Rightarrow> sql_error + db" where
  "db_insert_memory_item uid now sid scope content importance d =
     (case insert_row mi_id \<lparr>mi_id = uid, mi_session = sid, mi_content = content,
          mi_importance = importance, mi_scope = scope, mi_created = now, mi_updated = now,
          mi_embedding = None\<rparr> (t_memory d) of
        Inl e \<Rightarrow> Inl e
      | Inr t \<Rightarrow> Inr (d\<lparr>t_memory := t\<rparr>))"

definition db_update_memory_embedding :: "string \<Rightarrow> u8 list \<Rightarrow> db \<Rightarrow> db" where
  "db_update_memory_embedding mid bytes d = d\<lparr>t_memory :=
     update_where (\<lambda>i. mi_id i = mid) (\<lambda>i. i\<lparr>mi_embedding := Some bytes\<rparr>) (t_memory d)\<rparr>"

definition db_link_memory :: "string \<Rightarrow> string \<Rightarrow> string \<Rightarrow> db \<Rightarrow> db" where
  "db_link_memory now mid source_ref d = d\<lparr>
     t_links := t_links d @ [\<lparr>ln_id = Suc (seq_links d), ln_item = mid, ln_ref = source_ref,
       ln_created = now\<rparr>],
     seq_links := Suc (seq_links d)\<rparr>"

text \<open>
  \<^verbatim>\<open>search_memory\<close>. \<open>rank q i\<close> is the score of an item for the normalised query, a computation in
  floating-point numbers over embeddings or words, age and importance; \<^verbatim>\<open>None\<close> skips the item.
\<close>

record memory_hit =
  mh_id :: string
  mh_content :: string
  mh_importance :: rat
  mh_created :: string
  mh_score :: rat

definition db_search_memory ::
    "(string \<Rightarrow> memory_row \<Rightarrow> rat option) \<Rightarrow> string \<Rightarrow> string \<Rightarrow> nat \<Rightarrow> db \<Rightarrow> memory_hit list" where
  "db_search_memory rank sid query limit d =
     (let q = map to_lower (trim query)
      in if q = [] then []
         else let rows = take (max limit 10 * 20)
                (order_desc mi_updated (filter (\<lambda>i. mi_session i = sid) (t_memory d)));
              hits = List.map_filter (\<lambda>i. map_option (\<lambda>s. \<lparr>mh_id = mi_id i, mh_content = mi_content i,
                mh_importance = mi_importance i, mh_created = mi_created i, mh_score = s\<rparr>) (rank q i)) rows
         in take limit (order_desc mh_score hits))"

definition unit_sep :: char where
  "unit_sep = CHR 0x1F"

definition refs_column :: "db \<Rightarrow> string \<Rightarrow> string" where
  "refs_column d mid = group_concat unit_sep (map ln_ref (filter (\<lambda>l. ln_item l = mid) (t_links d)))"

definition split_refs :: "string \<Rightarrow> string list" where
  "split_refs raw = (if raw = [] then [] else split_at unit_sep raw)"

definition memory_item_of :: "string list \<Rightarrow> memory_row \<Rightarrow> session_memory_item" where
  "memory_item_of refs i = \<lparr>sm_id = mi_id i, sm_session = mi_session i, sm_scope = mi_scope i,
     sm_content = mi_content i, sm_importance = mi_importance i, sm_refs = refs,
     sm_created = mi_created i, sm_updated = mi_updated i\<rparr>"

definition contains_pattern :: "string \<Rightarrow> string" where
  "contains_pattern q = ''%'' @ q @ ''%''"

definition db_list_session_memory_items ::
    "string \<Rightarrow> string option \<Rightarrow> nat \<Rightarrow> db \<Rightarrow> session_memory_item list" where
  "db_list_session_memory_items sid query limit d =
     (let q = map to_lower (trim (case query of None \<Rightarrow> '''' | Some s \<Rightarrow> s));
          pat = contains_pattern q
      in map (\<lambda>i. memory_item_of (split_refs (refs_column d (mi_id i))) i)
           (take limit (order_desc mi_updated
             (filter (\<lambda>i. mi_session i = sid \<and> (q = '''' \<or> sql_like pat (map to_lower (mi_content i))
                \<or> sql_like pat (map to_lower (mi_scope i)))) (t_memory d)))))"

definition db_update_memory_item ::
    "string \<Rightarrow> string \<Rightarrow> string option \<Rightarrow> rat option \<Rightarrow> string option \<Rightarrow> db \<Rightarrow> bool \<times> db" where
  "db_update_memory_item now mid content importance scope d =
     (if content = None \<and> importance = None \<and> scope = None then (False, d)
      else (affected (\<lambda>i. mi_id i = mid) (t_memory d) > 0,
        d\<lparr>t_memory := update_where (\<lambda>i. mi_id i = mid)
          (\<lambda>i. i\<lparr>mi_content := case_option (mi_content i) id content,
                mi_importance := case_option (mi_importance i) id importance,
                mi_scope := case_option (mi_scope i) id scope,
                mi_updated := now\<rparr>) (t_memory d)\<rparr>))"

definition db_delete_memory_item :: "string \<Rightarrow> db \<Rightarrow> bool \<times> db" where
  "db_delete_memory_item mid d =
     (let d' = d\<lparr>t_links := delete_where (\<lambda>l. ln_item l = mid) (t_links d)\<rparr>
      in (affected (\<lambda>i. mi_id i = mid) (t_memory d') > 0,
          d'\<lparr>t_memory := delete_where (\<lambda>i. mi_id i = mid) (t_memory d')\<rparr>))"

definition db_list_memory_by_scope_prefix :: "string \<Rightarrow> nat \<Rightarrow> db \<Rightarrow> session_memory_item list" where
  "db_list_memory_by_scope_prefix pre limit d =
     map (memory_item_of []) (take limit (order_desc mi_updated
       (filter (\<lambda>i. sql_like (pre @ ''%'') (mi_scope i)) (t_memory d))))"

text \<open>\<^verbatim>\<open>compact_session\<close>: the latest 25 messages, cut to 1,500 characters, become a memory item.\<close>

definition db_compact_session :: "string \<Rightarrow> string \<Rightarrow> string \<Rightarrow> db \<Rightarrow> sql_error + db" where
  "db_compact_session uid now sid d =
     (let rows = take 25 (order_desc ms_id (filter (\<lambda>m. ms_session m = sid) (t_messages d)))
      in if rows = [] then Inr d
         else db_insert_memory_item uid now sid ''session_summary''
           (take 1500 (join [CHR 0x0A] (map ms_content rows))) (4 / 5) d)"

end
