(* ===== verification/Config_Types.thy ===== *)
theory Config_Types
  imports Graph_Builder
begin

text \<open>
  More of \<^verbatim>\<open>src/types.rs\<close>: workflow templates and the settings of the application.
\<close>

section \<open>Workflow templates\<close>

datatype skill_source = Source_File | Source_Run | Source_Api

definition default_skill_source :: skill_source where
  "default_skill_source = Source_Api"

record workflow_parameter =
  wp_name :: string
  wp_description :: string
  wp_default :: "string option"

record workflow_template =
  wt_id :: string
  wt_name :: string
  wt_description :: string
  wt_created :: string
  wt_updated :: string
  wt_source_run :: "string option"
  wt_nodes :: "workflow_node_template list"
  wt_parameters :: "workflow_parameter list"
  wt_source :: skill_source

section \<open>Settings\<close>

datatype cli_model_backend = ClaudeCode_Backend | Codex_Backend

record app_settings =
  st_profile :: task_profile
  st_preferred_model :: "string option"
  st_disabled_models :: "string list"
  st_disabled_providers :: "string list"
  st_cli_enabled :: bool
  st_cli_backend :: "cli_model_backend option"
  st_cli_command :: string
  st_cli_args :: "string list"
  st_cli_timeout_ms :: u64
  st_cli_only :: bool
  st_terminal_command :: string
  st_terminal_args :: "string list"
  st_terminal_auto_spawn :: bool
  st_vllm_base_url :: string
  st_vllm_custom_model :: "string option"

end
