(* ===== verification/Store_Tables.thy ===== *)
theory Store_Tables
  imports Store Crypto Config_Types
begin

text \<open>
  The remaining methods of \<^verbatim>\<open>src/memory/store.rs\<close>: workspaces with their files and meetings,
  webhooks and their deliveries, knowledge, schedules, workflow templates, settings, coder
  sessions and GitHub activities, with the functions that read a row back.
\<close>

section \<open>Workspaces\<close>

datatype workspace_kind = WK_General | WK_Team

fun workspace_kind_display :: "workspace_kind \<Rightarrow> string" where
  "workspace_kind_display WK_General = ''general''"
| "workspace_kind_display WK_Team = ''team''"

definition workspace_kind_parse :: "string \<Rightarrow> workspace_kind option" where
  "workspace_kind_parse s = (if s = ''general'' then Some WK_General
     else if s = ''team'' then Some WK_Team else None)"

record workspace =
  ws_id :: string
  ws_slug :: string
  ws_name :: string
  ws_kind :: workspace_kind
  ws_root :: string
  ws_description :: "string option"
  ws_created :: string
  ws_updated :: string

definition workspace_from_row :: "workspace_row \<Rightarrow> workspace option" where
  "workspace_from_row r = map_option (\<lambda>k. \<lparr>ws_id = wr_id r, ws_slug = wr_slug r, ws_name = wr_name r,
     ws_kind = k, ws_root = wr_root r, ws_description = wr_description r, ws_created = wr_created r,
     ws_updated = wr_updated r\<rparr>) (workspace_kind_parse (wr_kind r))"

definition workspace_row_of :: "workspace \<Rightarrow> workspace_row" where
  "workspace_row_of w = \<lparr>wr_id = ws_id w, wr_slug = ws_slug w, wr_name = ws_name w,
     wr_kind = workspace_kind_display (ws_kind w), wr_root = ws_root w,
     wr_description = ws_description w, wr_created = ws_created w, wr_updated = ws_updated w\<rparr>"

definition db_insert_workspace :: "workspace \<Rightarrow> db \<Rightarrow> sql_error + db" where
  "db_insert_workspace w d =
     (if has_key wr_slug (ws_slug w) (t_workspaces d) then Inl Unique_violation
      else (case insert_row wr_id (workspace_row_of w) (t_workspaces d) of
          Inl e \<Rightarrow> Inl e
        | Inr t \<Rightarrow> Inr (d\<lparr>t_workspaces := t\<rparr>)))"

definition db_get_workspace :: "string \<Rightarrow> db \<Rightarrow> workspace option" where
  "db_get_workspace wid d = Option.bind (row_of wr_id wid (t_workspaces d)) workspace_from_row"

definition db_get_workspace_by_slug :: "string \<Rightarrow> db \<Rightarrow> workspace option" where
  "db_get_workspace_by_slug slug d =
     Option.bind (row_of wr_slug slug (t_workspaces d)) workspace_from_row"

definition db_list_workspaces :: "string option \<Rightarrow> db \<Rightarrow> workspace list" where
  "db_list_workspaces kind d = List.map_filter workspace_from_row (order_desc wr_created
     (filter (\<lambda>r. case kind of None \<Rightarrow> True | Some k \<Rightarrow> wr_kind r = k) (t_workspaces d)))"

definition db_update_workspace ::
    "string \<Rightarrow> string \<Rightarrow> string option \<Rightarrow> string option option \<Rightarrow> db \<Rightarrow> db" where
  "db_update_workspace now wid name desc d =
     (let here = (\<lambda>r. wr_id r = wid);
          d = (case name of None \<Rightarrow> d | Some n \<Rightarrow> d\<lparr>t_workspaces :=
            update_where here (\<lambda>r. r\<lparr>wr_name := n, wr_updated := now\<rparr>) (t_workspaces d)\<rparr>)
      in (case desc of None \<Rightarrow> d | Some x \<Rightarrow> d\<lparr>t_workspaces :=
            update_where here (\<lambda>r. r\<lparr>wr_description := x, wr_updated := now\<rparr>) (t_workspaces d)\<rparr>))"

text \<open>
  Deleting a workspace clears the reference of its sessions and deletes its files, its
  meetings and their messages (\<^verbatim>\<open>ON DELETE SET NULL\<close> and \<^verbatim>\<open>CASCADE\<close>).
\<close>

definition db_delete_workspace :: "string \<Rightarrow> db \<Rightarrow> db" where
  "db_delete_workspace wid d =
     (if has_key wr_id wid (t_workspaces d) then
        let gone = map mt_id (filter (\<lambda>m. mt_workspace m = wid) (t_meetings d))
        in d\<lparr>t_workspaces := delete_where (\<lambda>r. wr_id r = wid) (t_workspaces d),
             t_sessions := update_where (\<lambda>s. se_workspace s = Some wid) (\<lambda>s. s\<lparr>se_workspace := None\<rparr>)
               (t_sessions d),
             t_files := delete_where (\<lambda>f. fr_workspace f = wid) (t_files d),
             t_meetings := delete_where (\<lambda>m. mt_workspace m = wid) (t_meetings d),
             t_meeting_messages := delete_where (\<lambda>m. mm_meeting m \<in> set gone) (t_meeting_messages d)\<rparr>
      else d)"

definition fk_ok :: "('r \<Rightarrow> string) \<Rightarrow> string option \<Rightarrow> 'r list \<Rightarrow> bool" where
  "fk_ok key ref t = (case ref of None \<Rightarrow> True | Some k \<Rightarrow> has_key key k t)"

definition db_set_session_workspace :: "string \<Rightarrow> string option \<Rightarrow> db \<Rightarrow> sql_error + db" where
  "db_set_session_workspace sid wid d =
     (if has_key se_id sid (t_sessions d) \<and> \<not> fk_ok wr_id wid (t_workspaces d) then Inl Foreign_key_violation
      else Inr (d\<lparr>t_sessions := update_where (\<lambda>s. se_id s = sid) (\<lambda>s. s\<lparr>se_workspace := wid\<rparr>)
        (t_sessions d)\<rparr>))"

definition db_list_workspace_sessions :: "string \<Rightarrow> nat \<Rightarrow> db \<Rightarrow> string list" where
  "db_list_workspace_sessions wid limit d = map se_id
     (take limit (order_desc se_created (filter (\<lambda>s. se_workspace s = Some wid) (t_sessions d))))"

section \<open>Workspace files\<close>

datatype file_creator = FC_User | FC_Persona | FC_System

fun file_creator_display :: "file_creator \<Rightarrow> string" where
  "file_creator_display FC_User = ''user''"
| "file_creator_display FC_Persona = ''persona''"
| "file_creator_display FC_System = ''system''"

definition file_creator_parse :: "string \<Rightarrow> file_creator option" where
  "file_creator_parse s = (if s = ''user'' then Some FC_User else if s = ''persona'' then Some FC_Persona
     else if s = ''system'' then Some FC_System else None)"

record workspace_file =
  wf_file_id :: string
  wf_workspace :: string
  wf_session :: "string option"
  wf_path :: string
  wf_size :: nat
  wf_mime :: "string option"
  wf_sha256 :: "string option"
  wf_created_by :: file_creator
  wf_persona :: "string option"
  wf_file_created :: string
  wf_file_updated :: string

text \<open>A session column that is empty text reads as none.\<close>

definition some_text :: "string option \<Rightarrow> string option" where
  "some_text s = (if s = Some '''' then None else s)"

definition workspace_file_from_row :: "file_row \<Rightarrow> workspace_file option" where
  "workspace_file_from_row r = map_option (\<lambda>by. \<lparr>wf_file_id = fr_id r, wf_workspace = fr_workspace r,
     wf_session = some_text (fr_session r), wf_path = fr_path r, wf_size = nat (fr_size r),
     wf_mime = fr_mime r, wf_sha256 = fr_sha256 r, wf_created_by = by, wf_persona = fr_persona r,
     wf_file_created = fr_created r, wf_file_updated = fr_updated r\<rparr>) (file_creator_parse (fr_created_by r))"

definition file_row_of :: "workspace_file \<Rightarrow> file_row" where
  "file_row_of f = \<lparr>fr_id = wf_file_id f, fr_workspace = wf_workspace f, fr_session = wf_session f,
     fr_path = wf_path f, fr_size = int (wf_size f), fr_mime = wf_mime f, fr_sha256 = wf_sha256 f,
     fr_created_by = file_creator_display (wf_created_by f), fr_persona = wf_persona f,
     fr_created = wf_file_created f, fr_updated = wf_file_updated f\<rparr>"

definition excluded_file :: "file_row \<Rightarrow> file_row \<Rightarrow> file_row" where
  "excluded_file r x = x\<lparr>fr_size := fr_size r, fr_mime := fr_mime r, fr_sha256 := fr_sha256 r,
     fr_created_by := fr_created_by r, fr_persona := fr_persona r, fr_updated := fr_updated r\<rparr>"

definition file_key :: "file_row \<Rightarrow> string \<times> string" where
  "file_key r = (fr_workspace r, fr_path r)"

text \<open>
  The upsert resolves conflicts of workspace and path; a new row with the identifier of
  another file is an error, as is one without its workspace or session.
\<close>

definition db_upsert_workspace_file :: "workspace_file \<Rightarrow> db \<Rightarrow> sql_error + db" where
  "db_upsert_workspace_file f d =
     (let r = file_row_of f in
      if has_key file_key (file_key r) (t_files d) then
        Inr (d\<lparr>t_files := upsert file_key excluded_file r (t_files d)\<rparr>)
      else if has_key fr_id (fr_id r) (t_files d) then Inl Unique_violation
      else if \<not> has_key wr_id (fr_workspace r) (t_workspaces d) \<or> \<not> fk_ok se_id (fr_session r) (t_sessions d)
      then Inl Foreign_key_violation
      else Inr (d\<lparr>t_files := upsert file_key excluded_file r (t_files d)\<rparr>))"

definition db_get_workspace_file :: "string \<Rightarrow> string \<Rightarrow> db \<Rightarrow> workspace_file option" where
  "db_get_workspace_file wid path d =
     Option.bind (row_of file_key (wid, path) (t_files d)) workspace_file_from_row"

definition db_list_workspace_files ::
    "string \<Rightarrow> string option \<Rightarrow> string option \<Rightarrow> db \<Rightarrow> workspace_file list" where
  "db_list_workspace_files wid sid pre d = List.map_filter workspace_file_from_row
     (order_asc fr_path (filter (\<lambda>f. fr_workspace f = wid
        \<and> (case sid of None \<Rightarrow> True | Some s \<Rightarrow> fr_session f = Some s)
        \<and> (case pre of None \<Rightarrow> True | Some p \<Rightarrow> sql_like (p @ ''%'') (fr_path f))) (t_files d)))"

definition db_delete_workspace_file :: "string \<Rightarrow> string \<Rightarrow> db \<Rightarrow> bool \<times> db" where
  "db_delete_workspace_file wid path d =
     (let here = (\<lambda>f. fr_workspace f = wid \<and> fr_path f = path)
      in (affected here (t_files d) > 0, d\<lparr>t_files := delete_where here (t_files d)\<rparr>))"

section \<open>Meetings\<close>

datatype meeting_status = Meeting_Open | Meeting_Closed

fun meeting_status_display :: "meeting_status \<Rightarrow> string" where
  "meeting_status_display Meeting_Open = ''open''"
| "meeting_status_display Meeting_Closed = ''closed''"

definition meeting_status_parse :: "string \<Rightarrow> meeting_status option" where
  "meeting_status_parse s = (if s = ''open'' then Some Meeting_Open
     else if s = ''closed'' then Some Meeting_Closed else None)"

datatype speaker_kind = Speaker_User | Speaker_Persona | Speaker_System

fun speaker_kind_display :: "speaker_kind \<Rightarrow> string" where
  "speaker_kind_display Speaker_User = ''user''"
| "speaker_kind_display Speaker_Persona = ''persona''"
| "speaker_kind_display Speaker_System = ''system''"

definition speaker_kind_parse :: "string \<Rightarrow> speaker_kind option" where
  "speaker_kind_parse s = (if s = ''user'' then Some Speaker_User
     else if s = ''persona'' then Some Speaker_Persona
     else if s = ''system'' then Some Speaker_System else None)"

record meeting =
  mg_id :: string
  mg_workspace :: string
  mg_session :: "string option"
  mg_topic :: string
  mg_participants :: "string list"
  mg_status :: meeting_status
  mg_created_by :: string
  mg_created :: string
  mg_closed :: "string option"

record meeting_message =
  me_id :: nat
  me_meeting :: string
  me_kind :: speaker_kind
  me_speaker :: string
  me_content :: string
  me_created :: string

definition meeting_from_row :: "string list codec \<Rightarrow> meeting_row \<Rightarrow> meeting option" where
  "meeting_from_row c r = map_option (\<lambda>st. \<lparr>mg_id = mt_id r, mg_workspace = mt_workspace r,
     mg_session = some_text (mt_session r), mg_topic = mt_topic r,
     mg_participants = (case dec c (mt_participants r) of None \<Rightarrow> [] | Some ps \<Rightarrow> ps),
     mg_status = st, mg_created_by = mt_created_by r, mg_created = mt_created r,
     mg_closed = mt_closed r\<rparr>) (meeting_status_parse (mt_status r))"

definition meeting_row_of :: "string list codec \<Rightarrow> meeting \<Rightarrow> meeting_row" where
  "meeting_row_of c m = \<lparr>mt_id = mg_id m, mt_workspace = mg_workspace m, mt_session = mg_session m,
     mt_topic = mg_topic m, mt_participants = enc c (mg_participants m),
     mt_status = meeting_status_display (mg_status m), mt_created_by = mg_created_by m,
     mt_created = mg_created m, mt_closed = mg_closed m\<rparr>"

definition meeting_message_from_row :: "meeting_message_row \<Rightarrow> meeting_message option" where
  "meeting_message_from_row r = map_option (\<lambda>k. \<lparr>me_id = mm_id r, me_meeting = mm_meeting r,
     me_kind = k, me_speaker = mm_speaker r, me_content = mm_content r, me_created = mm_created r\<rparr>)
     (speaker_kind_parse (mm_speaker_kind r))"

definition db_insert_meeting :: "string list codec \<Rightarrow> meeting \<Rightarrow> db \<Rightarrow> sql_error + db" where
  "db_insert_meeting c m d =
     (if \<not> has_key wr_id (mg_workspace m) (t_workspaces d) \<or> \<not> fk_ok se_id (mg_session m) (t_sessions d)
      then Inl Foreign_key_violation
      else (case insert_row mt_id (meeting_row_of c m) (t_meetings d) of
          Inl e \<Rightarrow> Inl e
        | Inr t \<Rightarrow> Inr (d\<lparr>t_meetings := t\<rparr>)))"

definition db_close_meeting :: "string \<Rightarrow> string \<Rightarrow> db \<Rightarrow> db" where
  "db_close_meeting now mid d = d\<lparr>t_meetings := update_where (\<lambda>m. mt_id m = mid)
     (\<lambda>m. m\<lparr>mt_status := ''closed'', mt_closed := Some now\<rparr>) (t_meetings d)\<rparr>"

definition db_get_meeting :: "string list codec \<Rightarrow> string \<Rightarrow> db \<Rightarrow> meeting option" where
  "db_get_meeting c mid d = Option.bind (row_of mt_id mid (t_meetings d)) (meeting_from_row c)"

definition db_list_workspace_meetings ::
    "string list codec \<Rightarrow> string \<Rightarrow> nat \<Rightarrow> db \<Rightarrow> meeting list" where
  "db_list_workspace_meetings c wid limit d = List.map_filter (meeting_from_row c)
     (take limit (order_desc mt_created (filter (\<lambda>m. mt_workspace m = wid) (t_meetings d))))"

definition db_append_meeting_message ::
    "string \<Rightarrow> string \<Rightarrow> speaker_kind \<Rightarrow> string \<Rightarrow> string \<Rightarrow> db \<Rightarrow> sql_error + nat \<times> db" where
  "db_append_meeting_message now mid kind speaker content d =
     (if \<not> has_key mt_id mid (t_meetings d) then Inl Foreign_key_violation
      else Inr (Suc (seq_meeting_messages d), d\<lparr>
        t_meeting_messages := t_meeting_messages d @ [\<lparr>mm_id = Suc (seq_meeting_messages d),
          mm_meeting = mid, mm_speaker_kind = speaker_kind_display kind, mm_speaker = speaker,
          mm_content = content, mm_created = now\<rparr>],
        seq_meeting_messages := Suc (seq_meeting_messages d)\<rparr>))"

definition db_list_meeting_messages :: "string \<Rightarrow> nat \<Rightarrow> db \<Rightarrow> meeting_message list" where
  "db_list_meeting_messages mid limit d = List.map_filter meeting_message_from_row
     (take limit (order_asc mm_id (filter (\<lambda>m. mm_meeting m = mid) (t_meeting_messages d))))"

section \<open>Webhooks\<close>

text \<open>
  The plain secret is returned, the encrypted one stored; \<open>key\<close> is the passphrase of
  \<^verbatim>\<open>webhook_secret_passphrase\<close>, \<open>nonce\<close> the bytes drawn for the encryption.
\<close>

record stored_webhook =
  sw_id :: string
  sw_url :: string
  sw_events :: "string list"
  sw_secret :: string
  sw_enabled :: bool
  sw_created :: string

definition webhook_secret_passphrase :: "string option \<Rightarrow> string" where
  "webhook_secret_passphrase env = (case env of None \<Rightarrow> ''cli-agent-dev-key'' | Some k \<Rightarrow> k)"

definition db_register_webhook ::
    "crypto_crates \<Rightarrow> string list codec \<Rightarrow> string \<Rightarrow> u8 list \<Rightarrow> string \<Rightarrow> string
      \<Rightarrow> string \<Rightarrow> string list \<Rightarrow> string \<Rightarrow> db \<Rightarrow> (string + sql_error) + stored_webhook \<times> db" where
  "db_register_webhook cr c key nonce uid now url events secret d =
     (case encrypt_secret cr nonce secret key of
        Inl e \<Rightarrow> Inl (Inl e)
      | Inr hidden \<Rightarrow> (case insert_row we_id \<lparr>we_id = uid, we_url = url, we_events = enc c events,
            we_secret = hidden, we_enabled = 1, we_created = now\<rparr> (t_webhooks d) of
          Inl e \<Rightarrow> Inl (Inr e)
        | Inr t \<Rightarrow> Inr (\<lparr>sw_id = uid, sw_url = url, sw_events = events, sw_secret = secret,
            sw_enabled = True, sw_created = now\<rparr>, d\<lparr>t_webhooks := t\<rparr>)))"

definition webhook_from_row ::
    "crypto_crates \<Rightarrow> string list codec \<Rightarrow> string \<Rightarrow> webhook_row \<Rightarrow> sql_error + stored_webhook" where
  "webhook_from_row cr c key r = (case decoded c (we_events r) of
       Inl e \<Rightarrow> Inl e
     | Inr evs \<Rightarrow> Inr \<lparr>sw_id = we_id r, sw_url = we_url r, sw_events = evs,
         sw_secret = (case decrypt_secret cr (we_secret r) key of Inl _ \<Rightarrow> we_secret r | Inr s \<Rightarrow> s),
         sw_enabled = (we_enabled r \<noteq> 0), sw_created = we_created r\<rparr>)"

definition db_list_webhooks ::
    "crypto_crates \<Rightarrow> string list codec \<Rightarrow> string \<Rightarrow> db \<Rightarrow> sql_error + stored_webhook list" where
  "db_list_webhooks cr c key d = collect_rows (webhook_from_row cr c key)
     (order_asc we_created (filter (\<lambda>w. we_enabled w = 1) (t_webhooks d)))"

record delivery_record =
  dr_id :: nat
  dr_endpoint :: string
  dr_event :: string
  dr_event_id :: string
  dr_url :: string
  dr_attempts :: u32
  dr_delivered :: bool
  dr_dead_letter :: bool
  dr_status :: "16 word option"
  dr_error :: "string option"
  dr_payload :: string
  dr_created :: string

definition db_insert_webhook_delivery ::
    "string \<Rightarrow> string \<Rightarrow> string \<Rightarrow> string \<Rightarrow> string \<Rightarrow> u32 \<Rightarrow> bool \<Rightarrow> bool \<Rightarrow> 16 word option
      \<Rightarrow> string option \<Rightarrow> string \<Rightarrow> db \<Rightarrow> delivery_record \<times> db" where
  "db_insert_webhook_delivery now endpoint event event_id url attempts delivered dead code err payload d =
     (\<lparr>dr_id = Suc (seq_deliveries d), dr_endpoint = endpoint, dr_event = event,
        dr_event_id = event_id, dr_url = url, dr_attempts = attempts, dr_delivered = delivered,
        dr_dead_letter = dead, dr_status = code, dr_error = err, dr_payload = payload,
        dr_created = now\<rparr>,
      d\<lparr>t_deliveries := t_deliveries d @ [\<lparr>wd_id = Suc (seq_deliveries d), wd_endpoint = endpoint,
          wd_event = event, wd_event_id = event_id, wd_url = url, wd_attempts = uint attempts,
          wd_delivered = (if delivered then 1 else 0), wd_dead_letter = (if dead then 1 else 0),
          wd_status = map_option uint code, wd_error = err, wd_payload = payload,
          wd_created = now\<rparr>],
        seq_deliveries := Suc (seq_deliveries d)\<rparr>)"

text \<open>\<^verbatim>\<open>as u32\<close> and \<^verbatim>\<open>as u16\<close> keep the low bits.\<close>

definition delivery_from_row :: "delivery_row \<Rightarrow> delivery_record" where
  "delivery_from_row r = \<lparr>dr_id = wd_id r, dr_endpoint = wd_endpoint r, dr_event = wd_event r,
     dr_event_id = wd_event_id r, dr_url = wd_url r, dr_attempts = of_int (max (wd_attempts r) 0),
     dr_delivered = (wd_delivered r \<noteq> 0), dr_dead_letter = (wd_dead_letter r \<noteq> 0),
     dr_status = map_option of_int (wd_status r), dr_error = wd_error r, dr_payload = wd_payload r,
     dr_created = wd_created r\<rparr>"

definition db_list_webhook_deliveries :: "bool \<Rightarrow> nat \<Rightarrow> db \<Rightarrow> delivery_record list" where
  "db_list_webhook_deliveries dead_only limit d = map delivery_from_row (take limit
     (order_desc wd_created
       (if dead_only then filter (\<lambda>r. wd_dead_letter r = 1) (t_deliveries d) else t_deliveries d)))"

definition db_get_webhook_delivery :: "nat \<Rightarrow> db \<Rightarrow> delivery_record option" where
  "db_get_webhook_delivery n d = map_option delivery_from_row (row_of wd_id n (t_deliveries d))"

section \<open>Knowledge\<close>

record knowledge_item =
  ki_id :: string
  ki_topic :: string
  ki_content :: string
  ki_importance :: rat
  ki_access :: nat
  ki_created :: string
  ki_updated :: string

definition db_insert_knowledge ::
    "string \<Rightarrow> string \<Rightarrow> string \<Rightarrow> string \<Rightarrow> rat \<Rightarrow> db \<Rightarrow> sql_error + db" where
  "db_insert_knowledge uid now topic content importance d =
     (case insert_row kb_id \<lparr>kb_id = uid, kb_topic = topic, kb_content = content,
          kb_importance = importance, kb_access = 0, kb_created = now, kb_updated = now\<rparr>
        (t_knowledge d) of
        Inl e \<Rightarrow> Inl e
      | Inr t \<Rightarrow> Inr (d\<lparr>t_knowledge := t\<rparr>))"

definition knowledge_matches :: "string \<Rightarrow> knowledge_row \<Rightarrow> bool" where
  "knowledge_matches pat k \<longleftrightarrow> sql_like pat (map to_lower (kb_content k))
     \<or> sql_like pat (map to_lower (kb_topic k))"

text \<open>Each row found is counted; \<open>stamp\<close> gives the clock at the update of a row.\<close>

definition bump_access :: "string \<Rightarrow> string \<Rightarrow> knowledge_row list \<Rightarrow> knowledge_row list" where
  "bump_access now kid = update_where (\<lambda>k. kb_id k = kid)
     (\<lambda>k. k\<lparr>kb_access := kb_access k + 1, kb_updated := now\<rparr>)"

definition db_search_knowledge ::
    "(string \<Rightarrow> string) \<Rightarrow> string \<Rightarrow> nat \<Rightarrow> db \<Rightarrow> (string \<times> string \<times> string \<times> rat) list \<times> db" where
  "db_search_knowledge stamp query limit d =
     (let found = take limit (order_desc (\<lambda>k. (kb_importance k, kb_access k))
            (filter (knowledge_matches (contains_pattern (map to_lower query))) (t_knowledge d)))
      in (map (\<lambda>k. (kb_id k, kb_topic k, kb_content k, kb_importance k)) found,
          d\<lparr>t_knowledge := fold (\<lambda>k. bump_access (stamp (kb_id k)) (kb_id k)) found (t_knowledge d)\<rparr>))"

definition knowledge_of_row :: "knowledge_row \<Rightarrow> knowledge_item" where
  "knowledge_of_row k = \<lparr>ki_id = kb_id k, ki_topic = kb_topic k, ki_content = kb_content k,
     ki_importance = kb_importance k, ki_access = nat (max (kb_access k) 0),
     ki_created = kb_created k, ki_updated = kb_updated k\<rparr>"

definition db_list_knowledge_items :: "string option \<Rightarrow> nat \<Rightarrow> db \<Rightarrow> knowledge_item list" where
  "db_list_knowledge_items query limit d =
     (let q = map to_lower (trim (case query of None \<Rightarrow> '''' | Some s \<Rightarrow> s))
      in map knowledge_of_row (take limit (order_desc (\<lambda>k. (kb_importance k, kb_updated k))
           (filter (\<lambda>k. q = '''' \<or> knowledge_matches (contains_pattern q) k) (t_knowledge d)))))"

definition db_update_knowledge_item ::
    "string \<Rightarrow> string \<Rightarrow> string option \<Rightarrow> string option \<Rightarrow> rat option \<Rightarrow> db \<Rightarrow> bool \<times> db" where
  "db_update_knowledge_item now kid topic content importance d =
     (if topic = None \<and> content = None \<and> importance = None then (False, d)
      else (affected (\<lambda>k. kb_id k = kid) (t_knowledge d) > 0,
        d\<lparr>t_knowledge := update_where (\<lambda>k. kb_id k = kid)
          (\<lambda>k. k\<lparr>kb_topic := case_option (kb_topic k) id topic,
                kb_content := case_option (kb_content k) id content,
                kb_importance := case_option (kb_importance k) id importance,
                kb_updated := now\<rparr>) (t_knowledge d)\<rparr>))"

section \<open>Schedules\<close>

record cron_schedule =
  cr_id :: string
  cr_workflow :: string
  cr_expr :: string
  cr_enabled :: bool
  cr_parameters :: "string option"
  cr_last_run :: "string option"
  cr_next_run :: "string option"
  cr_created :: string

definition schedule_row_of :: "cron_schedule \<Rightarrow> schedule_row" where
  "schedule_row_of s = \<lparr>cs_id = cr_id s, cs_workflow = cr_workflow s, cs_expr = cr_expr s,
     cs_enabled = (if cr_enabled s then 1 else 0), cs_parameters = cr_parameters s,
     cs_last_run = cr_last_run s, cs_next_run = cr_next_run s, cs_created = cr_created s\<rparr>"

text \<open>\<open>parse_schedule_row\<close> reads empty texts of the parameters and of the next run as none.\<close>

definition parse_schedule_row :: "schedule_row \<Rightarrow> cron_schedule" where
  "parse_schedule_row r = \<lparr>cr_id = cs_id r, cr_workflow = cs_workflow r, cr_expr = cs_expr r,
     cr_enabled = (cs_enabled r \<noteq> 0), cr_parameters = some_text (cs_parameters r),
     cr_last_run = cs_last_run r, cr_next_run = some_text (cs_next_run r),
     cr_created = cs_created r\<rparr>"

definition db_create_schedule :: "cron_schedule \<Rightarrow> db \<Rightarrow> sql_error + db" where
  "db_create_schedule s d = (case insert_row cs_id (schedule_row_of s) (t_schedules d) of
       Inl e \<Rightarrow> Inl e
     | Inr t \<Rightarrow> Inr (d\<lparr>t_schedules := t\<rparr>))"

definition db_list_schedules :: "nat \<Rightarrow> db \<Rightarrow> cron_schedule list" where
  "db_list_schedules limit d =
     map parse_schedule_row (take limit (order_desc cs_created (t_schedules d)))"

definition db_get_schedule :: "string \<Rightarrow> db \<Rightarrow> cron_schedule option" where
  "db_get_schedule sid d = map_option parse_schedule_row (row_of cs_id sid (t_schedules d))"

text \<open>
  The dynamic update: each given column is set; parameters and a next run that are given as
  none are stored as the empty text.
\<close>

definition or_empty :: "string option \<Rightarrow> string" where
  "or_empty s = (case s of None \<Rightarrow> '''' | Some t \<Rightarrow> t)"

definition schedule_patch ::
    "string option \<Rightarrow> bool option \<Rightarrow> string option option \<Rightarrow> string option option
      \<Rightarrow> schedule_row \<Rightarrow> schedule_row" where
  "schedule_patch expr enabled params nxt r = r\<lparr>
     cs_expr := case_option (cs_expr r) id expr,
     cs_enabled := (case enabled of None \<Rightarrow> cs_enabled r | Some e \<Rightarrow> if e then 1 else 0),
     cs_parameters := (case params of None \<Rightarrow> cs_parameters r | Some p \<Rightarrow> Some (or_empty p)),
     cs_next_run := (case nxt of None \<Rightarrow> cs_next_run r | Some t \<Rightarrow> Some (or_empty t))\<rparr>"

definition db_update_schedule ::
    "string \<Rightarrow> string option \<Rightarrow> bool option \<Rightarrow> string option option \<Rightarrow> string option option
      \<Rightarrow> db \<Rightarrow> db" where
  "db_update_schedule sid expr enabled params nxt d =
     (if expr = None \<and> enabled = None \<and> params = None \<and> nxt = None then d
      else d\<lparr>t_schedules := update_where (\<lambda>s. cs_id s = sid)
        (schedule_patch expr enabled params nxt) (t_schedules d)\<rparr>)"

definition db_update_schedule_last_run :: "string \<Rightarrow> string \<Rightarrow> string option \<Rightarrow> db \<Rightarrow> db" where
  "db_update_schedule_last_run sid last_run nxt d = d\<lparr>t_schedules := update_where (\<lambda>s. cs_id s = sid)
     (\<lambda>s. s\<lparr>cs_last_run := Some last_run, cs_next_run := nxt\<rparr>) (t_schedules d)\<rparr>"

definition db_delete_schedule :: "string \<Rightarrow> db \<Rightarrow> db" where
  "db_delete_schedule sid d = d\<lparr>t_schedules := delete_where (\<lambda>s. cs_id s = sid) (t_schedules d)\<rparr>"

definition due_row :: "string \<Rightarrow> schedule_row \<Rightarrow> bool" where
  "due_row now s \<longleftrightarrow> cs_enabled s = 1 \<and> (case cs_next_run s of None \<Rightarrow> False | Some t \<Rightarrow> t \<le> now)"

definition db_list_due_schedules :: "string \<Rightarrow> db \<Rightarrow> cron_schedule list" where
  "db_list_due_schedules now d = map parse_schedule_row
     (order_asc (\<lambda>s. or_empty (cs_next_run s)) (filter (due_row now) (t_schedules d)))"

section \<open>Workflow templates and settings\<close>

text \<open>Where a template came from is not stored; a template that is read is from the API.\<close>

record workflow_codec =
  nodes_codec :: "workflow_node_template list codec"
  parameters_codec :: "workflow_parameter list codec"

definition workflow_row_of :: "workflow_codec \<Rightarrow> workflow_template \<Rightarrow> workflow_row" where
  "workflow_row_of c w = \<lparr>wf_id = wt_id w, wf_name = wt_name w, wf_description = wt_description w,
     wf_source_run = wt_source_run w, wf_graph = enc (nodes_codec c) (wt_nodes w),
     wf_parameters = enc (parameters_codec c) (wt_parameters w),
     wf_created = wt_created w, wf_updated = wt_updated w\<rparr>"

definition parse_workflow_row :: "workflow_codec \<Rightarrow> workflow_row \<Rightarrow> sql_error + workflow_template" where
  "parse_workflow_row c r = (case decoded (nodes_codec c) (wf_graph r) of
       Inl e \<Rightarrow> Inl e
     | Inr ns \<Rightarrow> (case decoded (parameters_codec c) (wf_parameters r) of
         Inl e \<Rightarrow> Inl e
       | Inr ps \<Rightarrow> Inr \<lparr>wt_id = wf_id r, wt_name = wf_name r, wt_description = wf_description r,
           wt_created = wf_created r, wt_updated = wf_updated r, wt_source_run = wf_source_run r,
           wt_nodes = ns, wt_parameters = ps, wt_source = default_skill_source\<rparr>))"

definition db_save_workflow :: "workflow_codec \<Rightarrow> workflow_template \<Rightarrow> db \<Rightarrow> db" where
  "db_save_workflow c w d = d\<lparr>t_workflows := replace_row wf_id (workflow_row_of c w) (t_workflows d)\<rparr>"

definition db_get_workflow ::
    "workflow_codec \<Rightarrow> string \<Rightarrow> db \<Rightarrow> sql_error + workflow_template option" where
  "db_get_workflow c wid d = (case row_of wf_id wid (t_workflows d) of
       None \<Rightarrow> Inr None
     | Some r \<Rightarrow> (case parse_workflow_row c r of Inl e \<Rightarrow> Inl e | Inr w \<Rightarrow> Inr (Some w)))"

definition db_list_workflows ::
    "workflow_codec \<Rightarrow> nat \<Rightarrow> db \<Rightarrow> sql_error + workflow_template list" where
  "db_list_workflows c limit d = collect_rows (parse_workflow_row c)
     (take (min limit 500) (order_desc wf_updated (t_workflows d)))"

definition db_delete_workflow :: "string \<Rightarrow> db \<Rightarrow> db" where
  "db_delete_workflow wid d = d\<lparr>t_workflows := delete_where (\<lambda>w. wf_id w = wid) (t_workflows d)\<rparr>"

definition db_save_settings :: "app_settings codec \<Rightarrow> string \<Rightarrow> app_settings \<Rightarrow> db \<Rightarrow> db" where
  "db_save_settings c now s d = d\<lparr>t_settings := Some (enc c s, now)\<rparr>"

definition db_load_settings :: "app_settings codec \<Rightarrow> db \<Rightarrow> sql_error + app_settings option" where
  "db_load_settings c d = (case t_settings d of
       None \<Rightarrow> Inr None
     | Some (txt, _) \<Rightarrow> (case decoded c txt of Inl e \<Rightarrow> Inl e | Inr s \<Rightarrow> Inr (Some s)))"

section \<open>Coder sessions and GitHub activities\<close>

definition db_insert_coder_session ::
    "string \<Rightarrow> string \<Rightarrow> string \<Rightarrow> string \<Rightarrow> string \<Rightarrow> string option \<Rightarrow> string option \<Rightarrow> string
      \<Rightarrow> db \<Rightarrow> sql_error + db" where
  "db_insert_coder_session now cid rid nid backend term dir st d =
     (case insert_row cd_id \<lparr>cd_id = cid, cd_run = rid, cd_node = nid, cd_backend = backend,
          cd_terminal = term, cd_dir = dir, cd_branch = None, cd_status = st, cd_exit = None,
          cd_files = None, cd_started = now, cd_ended = None\<rparr> (t_coders d) of
        Inl e \<Rightarrow> Inl e
      | Inr t \<Rightarrow> Inr (d\<lparr>t_coders := t\<rparr>))"

definition db_update_coder_session_completed ::
    "string \<Rightarrow> string \<Rightarrow> string \<Rightarrow> int option \<Rightarrow> string option \<Rightarrow> db \<Rightarrow> db" where
  "db_update_coder_session_completed now cid st code files d = d\<lparr>t_coders :=
     update_where (\<lambda>c. cd_id c = cid)
       (\<lambda>c. c\<lparr>cd_status := st, cd_exit := code, cd_files := files, cd_ended := Some now\<rparr>) (t_coders d)\<rparr>"

definition db_list_coder_sessions_for_run :: "string \<Rightarrow> db \<Rightarrow> coder_row list" where
  "db_list_coder_sessions_for_run rid d =
     order_asc cd_started (filter (\<lambda>c. cd_run c = rid) (t_coders d))"

text \<open>
  The slice of the preview panics when its byte 200 is inside a character: \<open>char_boundary s n\<close>
  is \<^verbatim>\<open>str::is_char_boundary\<close>, a byte outside \<open>0x80 .. 0xBF\<close> or the end.
\<close>

definition char_boundary :: "string \<Rightarrow> nat \<Rightarrow> bool" where
  "char_boundary s n \<longleftrightarrow> n = length s \<or> (n < length s
     \<and> \<not> (128 \<le> (of_char (s ! n) :: nat) \<and> (of_char (s ! n) :: nat) < 192))"

datatype github_error = Slice_panic | Github_sql sql_error

definition db_record_github_activity ::
    "string \<Rightarrow> string \<Rightarrow> string \<Rightarrow> string \<Rightarrow> string \<Rightarrow> string \<Rightarrow> string option \<Rightarrow> int option
      \<Rightarrow> string \<Rightarrow> string \<Rightarrow> string \<Rightarrow> db \<Rightarrow> github_error + db" where
  "db_record_github_activity now gid rid sid who kind url target title preview meta d =
     (let n = min (length preview) 200 in
      if \<not> char_boundary preview n then Inl Slice_panic
      else (case insert_row gh_id \<lparr>gh_id = gid, gh_run = rid, gh_session = sid, gh_persona = who,
          gh_type = kind, gh_url = url, gh_target = target, gh_title = title,
          gh_preview = take n preview, gh_metadata = meta, gh_created = now\<rparr> (t_github d) of
        Inl e \<Rightarrow> Inl (Github_sql e)
      | Inr t \<Rightarrow> Inr (d\<lparr>t_github := t\<rparr>)))"

text \<open>The condition is built as text; doubled quotes make it compare with the names as given.\<close>

definition db_list_github_activities ::
    "string option \<Rightarrow> string option \<Rightarrow> nat \<Rightarrow> db \<Rightarrow> github_row list" where
  "db_list_github_activities who rid limit d = take limit (order_desc gh_created
     (filter (\<lambda>g. (case who of None \<Rightarrow> True | Some p \<Rightarrow> gh_persona g = p)
        \<and> (case rid of None \<Rightarrow> True | Some r \<Rightarrow> gh_run g = r)) (t_github d)))"

definition db_github_activity_stats :: "db \<Rightarrow> (string \<times> string \<times> nat) list" where
  "db_github_activity_stats d =
     (let groups = remdups (map (\<lambda>g. (gh_persona g, gh_type g)) (t_github d));
          count = (\<lambda>(p, k). length (filter (\<lambda>g. gh_persona g = p \<and> gh_type g = k) (t_github d)))
      in sort_key (\<lambda>(p, k, n). (p, - int n)) (map (\<lambda>(p, k). (p, k, count (p, k))) groups))"

end
