(* ===== verification/Store_Invariant.thy ===== *)
theory Store_Invariant
  imports Store_Tables
begin

text \<open>
  The reachable databases: a step is one method of \<^verbatim>\<open>SqliteStore\<close> that succeeded, with any
  arguments. In every reachable database the keys are unique, the numbered rows are in the
  order of their numbers, references lead to rows that exist, and every enumeration is stored
  as a text that is read back.
\<close>

section \<open>Steps\<close>

inductive db_step :: "db \<Rightarrow> db \<Rightarrow> bool" where
  "db_step d (db_create_session now sid kind d)"
| "db_step d (db_record_message now sid who content d)"
| "db_step d (db_record_agent_message now sid rid nid speaker content d)"
| "db_step d (db_upsert_run c now r d)"
| "db_step d (snd (db_append_run_action_event eid now e d))"
| "db_step d (db_batch_insert_run_action_events es d)"
| "db_step d (db_delete_session sid d)"
| "db_insert_memory_item uid now sid scope content imp d = Inr d' \<Longrightarrow> db_step d d'"
| "db_step d (db_update_memory_embedding mid bytes d)"
| "db_step d (db_link_memory now mid source_ref d)"
| "db_step d (snd (db_update_memory_item now mid mcontent mimp mscope d))"
| "db_step d (snd (db_delete_memory_item mid d))"
| "db_compact_session uid now sid d = Inr d' \<Longrightarrow> db_step d d'"
| "db_register_webhook cr lc key nonce uid now url events secret d = Inr (w, d') \<Longrightarrow> db_step d d'"
| "db_step d (snd (db_insert_webhook_delivery now ep ev evid url attempts dl dead code err payload d))"
| "db_insert_knowledge uid now topic content imp d = Inr d' \<Longrightarrow> db_step d d'"
| "db_step d (snd (db_search_knowledge stamp query limit d))"
| "db_step d (snd (db_update_knowledge_item now kid ktopic mcontent mimp d))"
| "db_create_schedule s d = Inr d' \<Longrightarrow> db_step d d'"
| "db_step d (db_update_schedule cid expr enabled params nxt d)"
| "db_step d (db_update_schedule_last_run cid last_run nrun d)"
| "db_step d (db_delete_schedule cid d)"
| "db_step d (db_save_workflow wc w d)"
| "db_step d (db_delete_workflow wid d)"
| "db_step d (db_save_settings sc now st d)"
| "db_insert_coder_session now cid rid nid backend term dir cst d = Inr d' \<Longrightarrow> db_step d d'"
| "db_step d (db_update_coder_session_completed now cid cst ecode files d)"
| "db_record_github_activity now gid rid sid who kind gurl target title preview meta d = Inr d'
     \<Longrightarrow> db_step d d'"
| "db_insert_workspace wsp d = Inr d' \<Longrightarrow> db_step d d'"
| "db_step d (db_update_workspace now wid name desc d)"
| "db_step d (db_delete_workspace wid d)"
| "db_set_session_workspace sid ws d = Inr d' \<Longrightarrow> db_step d d'"
| "db_upsert_workspace_file f d = Inr d' \<Longrightarrow> db_step d d'"
| "db_step d (snd (db_delete_workspace_file wid path d))"
| "db_insert_meeting lc m d = Inr d' \<Longrightarrow> db_step d d'"
| "db_step d (db_close_meeting now mid d)"
| "db_append_meeting_message now mid spk speaker content d = Inr (n, d') \<Longrightarrow> db_step d d'"

definition db_reachable :: "db \<Rightarrow> bool" where
  "db_reachable d \<longleftrightarrow> db_step\<^sup>*\<^sup>* empty_db d"

section \<open>The invariant\<close>

definition numbered :: "('r \<Rightarrow> nat) \<Rightarrow> nat \<Rightarrow> 'r list \<Rightarrow> bool" where
  "numbered idf n t \<longleftrightarrow> sorted_wrt (<) (map idf t) \<and> (\<forall>r \<in> set t. 0 < idf r \<and> idf r \<le> n)"

definition refers :: "('r \<Rightarrow> 'k option) \<Rightarrow> ('q \<Rightarrow> 'k) \<Rightarrow> 'r list \<Rightarrow> 'q list \<Rightarrow> bool" where
  "refers ref key s t \<longleftrightarrow> (\<forall>r \<in> set s. \<forall>k. ref r = Some k \<longrightarrow> k \<in> key ` set t)"

text \<open>At most one message per session, run and node (the partial unique index).\<close>

definition replies_unique :: "message_row list \<Rightarrow> bool" where
  "replies_unique t \<longleftrightarrow> distinct (map (\<lambda>m. (ms_session m, ms_run m, ms_node m))
     (filter (\<lambda>m. ms_run m \<noteq> None) t))"

definition numbers_wf :: "db \<Rightarrow> bool" where
  "numbers_wf d \<longleftrightarrow> numbered ms_id (seq_messages d) (t_messages d)
     \<and> numbered ln_id (seq_links d) (t_links d)
     \<and> numbered ev_seq (seq_events d) (t_events d)
     \<and> numbered wd_id (seq_deliveries d) (t_deliveries d)
     \<and> numbered mm_id (seq_meeting_messages d) (t_meeting_messages d)
     \<and> replies_unique (t_messages d)"

definition keys_wf :: "db \<Rightarrow> bool" where
  "keys_wf d \<longleftrightarrow> distinct (map se_id (t_sessions d)) \<and> distinct (map mi_id (t_memory d))
     \<and> distinct (map ar_run (t_runs d)) \<and> distinct (map we_id (t_webhooks d))
     \<and> distinct (map wf_id (t_workflows d)) \<and> distinct (map cs_id (t_schedules d))
     \<and> distinct (map kb_id (t_knowledge d)) \<and> distinct (map cd_id (t_coders d))
     \<and> distinct (map gh_id (t_github d)) \<and> distinct (map wr_id (t_workspaces d))
     \<and> distinct (map wr_slug (t_workspaces d)) \<and> distinct (map fr_id (t_files d))
     \<and> distinct (map file_key (t_files d)) \<and> distinct (map mt_id (t_meetings d))"

definition refs_wf :: "db \<Rightarrow> bool" where
  "refs_wf d \<longleftrightarrow> refers se_workspace wr_id (t_sessions d) (t_workspaces d)
     \<and> refers (Some \<circ> fr_workspace) wr_id (t_files d) (t_workspaces d)
     \<and> refers fr_session se_id (t_files d) (t_sessions d)
     \<and> refers (Some \<circ> mt_workspace) wr_id (t_meetings d) (t_workspaces d)
     \<and> refers mt_session se_id (t_meetings d) (t_sessions d)
     \<and> refers (Some \<circ> mm_meeting) mt_id (t_meeting_messages d) (t_meetings d)"

definition texts_wf :: "db \<Rightarrow> bool" where
  "texts_wf d \<longleftrightarrow> list_all (\<lambda>r. workspace_kind_parse (wr_kind r) \<noteq> None) (t_workspaces d)
     \<and> list_all (\<lambda>r. file_creator_parse (fr_created_by r) \<noteq> None \<and> 0 \<le> fr_size r) (t_files d)
     \<and> list_all (\<lambda>r. meeting_status_parse (mt_status r) \<noteq> None) (t_meetings d)
     \<and> list_all (\<lambda>r. speaker_kind_parse (mm_speaker_kind r) \<noteq> None) (t_meeting_messages d)
     \<and> list_all (\<lambda>r. \<exists>a. ev_action r = run_action_display a) (t_events d)"

definition db_wf :: "db \<Rightarrow> bool" where
  "db_wf d \<longleftrightarrow> numbers_wf d \<and> keys_wf d \<and> refs_wf d \<and> texts_wf d"

section \<open>Numbered tables and references\<close>

lemma numbered_Nil [simp]: "numbered idf n []"
  by (simp add: numbered_def)

lemma numbered_append [intro]:
  "numbered idf n t \<Longrightarrow> idf r = Suc n \<Longrightarrow> numbered idf (Suc n) (t @ [r])"
  by (fastforce simp: numbered_def sorted_wrt_append)

lemma numbered_delete [intro]: "numbered idf n t \<Longrightarrow> numbered idf n (delete_where p t)"
  by (auto simp: numbered_def sql_simps sorted_map_delete_where)

lemma numbered_update: "(\<And>r. idf (f r) = idf r) \<Longrightarrow> numbered idf n t \<Longrightarrow> numbered idf n (update_where p f t)"
  by (auto simp: numbered_def map_update_where sql_simps)

lemma refers_Nil [simp]: "refers ref key [] t"
  by (simp add: refers_def)

lemma refers_append [simp]:
  "refers ref key (s @ [r]) t \<longleftrightarrow> refers ref key s t \<and> (\<forall>k. ref r = Some k \<longrightarrow> k \<in> key ` set t)"
  by (auto simp: refers_def)

lemma refers_grow: "refers ref key s t \<Longrightarrow> set (map key t) \<subseteq> set (map key t') \<Longrightarrow> refers ref key s t'"
  by (fastforce simp: refers_def)

lemma refers_delete [intro]: "refers ref key s t \<Longrightarrow> refers ref key (delete_where p s) t"
  by (auto simp: refers_def sql_simps)

lemma refers_update: "(\<And>r. ref (f r) = ref r) \<Longrightarrow> refers ref key s t \<Longrightarrow> refers ref key (update_where p f s) t"
  by (auto simp: refers_def sql_simps)

lemma refers_target_update:
  "(\<And>r. key (f r) = key r) \<Longrightarrow> refers ref key s (update_where p f t) \<longleftrightarrow> refers ref key s t"
proof -
  assume "\<And>r. key (f r) = key r"
  then have "key ` set (update_where p f t) = key ` set t"
    using arg_cong [OF map_update_where, of key f set p t] by simp
  then show ?thesis by (simp add: refers_def)
qed

lemma refers_clear:
  assumes "refers ref key s t" and "\<And>r. ref (f r) = None" and "\<And>r. p r \<longleftrightarrow> ref r = Some k"
  shows "refers ref key (update_where p f s) (delete_where (\<lambda>x. key x = k) t)"
  using assms by (fastforce simp: refers_def sql_simps)

lemma refers_cascade:
  assumes "refers ref key s t" and "\<And>r. p r \<longleftrightarrow> ref r = Some k"
  shows "refers ref key (delete_where p s) (delete_where (\<lambda>x. key x = k) t)"
  using assms by (fastforce simp: refers_def sql_simps)

lemma refers_target_append: "refers ref key s t \<Longrightarrow> refers ref key s (t @ [r])"
  by (auto simp: refers_def)

lemma refers_update_to:
  assumes "refers ref key s t" and "\<And>r. ref (f r) = v" and "\<And>k. v = Some k \<Longrightarrow> k \<in> key ` set t"
  shows "refers ref key (update_where p f s) t"
  using assms by (auto simp: refers_def sql_simps)

lemma fk_ok_iff: "fk_ok key ref t \<longleftrightarrow> (\<forall>k. ref = Some k \<longrightarrow> k \<in> key ` set t)"
  by (simp add: fk_ok_def has_key_def split: option.split)

lemma list_all_delete: "list_all q t \<Longrightarrow> list_all q (delete_where p t)"
  by (simp add: list_all_iff sql_simps)

lemma list_all_update: "list_all q t \<Longrightarrow> (\<And>r. q r \<Longrightarrow> p r \<Longrightarrow> q (f r)) \<Longrightarrow> list_all q (update_where p f t)"
  by (auto simp: list_all_iff sql_simps)

lemma replies_unique_delete: "replies_unique t \<Longrightarrow> replies_unique (delete_where p t)"
  by (simp add: replies_unique_def filter_delete_where distinct_map_delete_where)

text \<open>The texts of the enumerations are read back.\<close>

lemma workspace_kind_text [simp]: "workspace_kind_parse (workspace_kind_display k) = Some k"
  by (cases k) (simp_all add: workspace_kind_parse_def)

lemma file_creator_text [simp]: "file_creator_parse (file_creator_display c) = Some c"
  by (cases c) (simp_all add: file_creator_parse_def)

lemma meeting_status_text [simp]: "meeting_status_parse (meeting_status_display m) = Some m"
  by (cases m) (simp_all add: meeting_status_parse_def)

lemma closed_text [simp]: "meeting_status_parse ''closed'' = Some Meeting_Closed"
  by (simp add: meeting_status_parse_def)

lemma speaker_kind_text [simp]: "speaker_kind_parse (speaker_kind_display s) = Some s"
  by (cases s) (simp_all add: speaker_kind_parse_def)

section \<open>What a method changes\<close>

lemma insert_event_fields:
  "\<exists>ts n. insert_event eid now e d = d\<lparr>t_events := ts, seq_events := n\<rparr>"
  by (auto simp: insert_event_def)

lemma batch_fields:
  "\<exists>ts n. db_batch_insert_run_action_events es d = d\<lparr>t_events := ts, seq_events := n\<rparr>"
proof -
  have "\<exists>ts n. fold (\<lambda>(eid, now, e). insert_event eid now e) es d = d\<lparr>t_events := ts, seq_events := n\<rparr>"
  proof (induction es arbitrary: d)
    case Nil
    have "d = d\<lparr>t_events := t_events d, seq_events := seq_events d\<rparr>" by simp
    then show ?case by (metis fold_simps(1))
  next
    case (Cons x es)
    obtain eid now e where x: "x = (eid, now, e)" by (cases x)
    obtain ts n where "insert_event eid now e d = d\<lparr>t_events := ts, seq_events := n\<rparr>"
      using insert_event_fields by blast
    with Cons [of "insert_event eid now e d"] show ?case by (auto simp: x)
  qed
  then show ?thesis by (simp add: db_batch_insert_run_action_events_def)
qed

lemma insert_event_numbered:
  "numbered ev_seq (seq_events d) (t_events d) \<Longrightarrow>
   numbered ev_seq (seq_events (insert_event eid now e d)) (t_events (insert_event eid now e d))"
  by (auto simp: insert_event_def event_row_of_def)

lemma batch_numbered:
  "numbered ev_seq (seq_events d) (t_events d) \<Longrightarrow>
   numbered ev_seq (seq_events (db_batch_insert_run_action_events es d))
     (t_events (db_batch_insert_run_action_events es d))"
proof -
  have "numbered ev_seq (seq_events d) (t_events d) \<Longrightarrow>
      let d' = fold (\<lambda>(eid, now, e). insert_event eid now e) es d
      in numbered ev_seq (seq_events d') (t_events d')"
    by (induction es arbitrary: d) (auto simp: Let_def insert_event_numbered split_def)
  then show "numbered ev_seq (seq_events d) (t_events d) \<Longrightarrow> ?thesis"
    by (simp add: Let_def db_batch_insert_run_action_events_def)
qed

lemma bump_keys: "map kb_id (fold (\<lambda>k. bump_access (stamp (kb_id k)) (kb_id k)) found t) = map kb_id t"
  by (induction found arbitrary: t) (simp_all add: bump_access_def map_update_where)

lemma delete_session_fields:
  "t_links (db_delete_session sid d) = delete_where (\<lambda>l. ln_item l \<in> mi_id ` {i \<in> set (t_memory d). mi_session i = sid}) (t_links d)"
  "t_memory (db_delete_session sid d) = delete_where (\<lambda>i. mi_session i = sid) (t_memory d)"
  "t_messages (db_delete_session sid d) = delete_where (\<lambda>m. ms_session m = sid) (t_messages d)"
  "t_runs (db_delete_session sid d) = delete_where (\<lambda>r. ar_session r = sid) (t_runs d)"
  "t_events (db_delete_session sid d) = delete_where (\<lambda>e. ev_session e = sid) (t_events d)"
  "t_sessions (db_delete_session sid d) = delete_where (\<lambda>s. se_id s = sid) (t_sessions d)"
  by (auto simp: db_delete_session_def delete_session_row_def Let_def has_key_def image_iff
      intro!: delete_where_id [symmetric])

lemma delete_session_refs:
  "t_files (db_delete_session sid d) = (if has_key se_id sid (t_sessions d)
     then update_where (\<lambda>f. fr_session f = Some sid) (\<lambda>f. f\<lparr>fr_session := None\<rparr>) (t_files d) else t_files d)"
  "t_meetings (db_delete_session sid d) = (if has_key se_id sid (t_sessions d)
     then update_where (\<lambda>m. mt_session m = Some sid) (\<lambda>m. m\<lparr>mt_session := None\<rparr>) (t_meetings d) else t_meetings d)"
  by (simp_all add: db_delete_session_def delete_session_row_def Let_def)

lemma delete_session_rest:
  "t_webhooks (db_delete_session sid d) = t_webhooks d" "t_deliveries (db_delete_session sid d) = t_deliveries d"
  "t_workflows (db_delete_session sid d) = t_workflows d" "t_schedules (db_delete_session sid d) = t_schedules d"
  "t_knowledge (db_delete_session sid d) = t_knowledge d" "t_settings (db_delete_session sid d) = t_settings d"
  "t_coders (db_delete_session sid d) = t_coders d" "t_github (db_delete_session sid d) = t_github d"
  "t_workspaces (db_delete_session sid d) = t_workspaces d"
  "t_meeting_messages (db_delete_session sid d) = t_meeting_messages d"
  "seq_messages (db_delete_session sid d) = seq_messages d" "seq_links (db_delete_session sid d) = seq_links d"
  "seq_events (db_delete_session sid d) = seq_events d" "seq_deliveries (db_delete_session sid d) = seq_deliveries d"
  "seq_meeting_messages (db_delete_session sid d) = seq_meeting_messages d"
  by (simp_all add: db_delete_session_def delete_session_row_def Let_def)

text \<open>The other methods, by what they assign.\<close>

lemmas session_methods = db_create_session_def db_record_message_def db_upsert_run_def
  db_append_run_action_event_def db_insert_memory_item_def db_update_memory_embedding_def
  db_link_memory_def db_update_memory_item_def db_delete_memory_item_def db_compact_session_def

lemmas table_methods = db_register_webhook_def db_insert_webhook_delivery_def db_insert_knowledge_def
  db_search_knowledge_def db_update_knowledge_item_def db_create_schedule_def db_update_schedule_def
  db_update_schedule_last_run_def db_delete_schedule_def db_save_workflow_def db_delete_workflow_def
  db_save_settings_def db_insert_coder_session_def db_update_coder_session_completed_def
  db_record_github_activity_def db_insert_workspace_def db_update_workspace_def
  db_set_session_workspace_def db_upsert_workspace_file_def db_delete_workspace_file_def
  db_insert_meeting_def db_close_meeting_def db_append_meeting_message_def

section \<open>Preservation\<close>

lemma replies_unique_reply:
  assumes "replies_unique t"
  shows "replies_unique (update_where p (\<lambda>m. m\<lparr>ms_content := c, ms_persona := w, ms_created := n\<rparr>) t)"
  using assms by (simp add: replies_unique_def filter_update_where map_update_where)

lemma record_agent_message_numbers:
  assumes "numbers_wf d"
  shows "numbers_wf (db_record_agent_message now sid rid nid who content d)"
proof (cases "\<exists>m \<in> set (t_messages d). same_reply sid rid nid m")
  case True
  with assms show ?thesis
    by (simp add: numbers_wf_def db_record_agent_message_def numbered_update replies_unique_reply)
next
  case False
  then have "(sid, Some rid, Some nid) \<notin> (\<lambda>m. (ms_session m, ms_run m, ms_node m)) ` set (t_messages d)"
    by (auto simp: same_reply_def)
  with assms False show ?thesis
    by (auto simp: numbers_wf_def db_record_agent_message_def replies_unique_def)
qed

lemma numbers_wf_step:
  assumes "db_step d d'" and "numbers_wf d"
  shows "numbers_wf d'"
  using assms
proof (induction rule: db_step.induct)
  case (3 d now sid rid nid speaker content)
  then show ?case by (rule record_agent_message_numbers)
next
  case (6 d es)
  then show ?case
    using batch_fields [of es d] batch_numbered [of d es] by (auto simp: numbers_wf_def)
next
  case (7 d sid)
  then show ?case
    by (simp add: numbers_wf_def delete_session_fields delete_session_rest numbered_delete replies_unique_delete)
next
  case (5 d eid now e)
  then show ?case
    using insert_event_numbered [of d eid now e]
    by (auto simp: numbers_wf_def db_append_run_action_event_def insert_event_def)
qed (auto simp: numbers_wf_def session_methods table_methods db_delete_workspace_def replies_unique_def Let_def
    split: sum.splits if_splits option.splits)

lemma keys_wf_step:
  assumes "db_step d d'" and "keys_wf d"
  shows "keys_wf d'"
  using assms
proof (induction rule: db_step.induct)
  case (6 d es)
  then show ?case using batch_fields [of es d] by (auto simp: keys_wf_def)
next
  case (7 d sid)
  then show ?case
    by (auto simp: keys_wf_def delete_session_fields delete_session_rest delete_session_refs
        distinct_map_delete_where map_update_where file_key_def)
next
  case (4 d c now r)
  then show ?case
    by (auto simp: keys_wf_def db_upsert_run_def upsert_distinct excluded_run_def)
next
  case (17 d stamp query limit)
  then show ?case by (simp add: keys_wf_def db_search_knowledge_def Let_def bump_keys)
next
  case (33 f d d')
  then show ?case
    by (auto simp: keys_wf_def db_upsert_workspace_file_def Let_def upsert_distinct excluded_file_def
        file_key_def upsert_def has_key_def map_update_where split: if_splits)
next
  case (29 wsp d d')
  then show ?case
    by (auto simp: keys_wf_def db_insert_workspace_def has_key_def workspace_row_of_def
        dest!: insert_row_InrD split: sum.splits if_splits)
qed (auto simp: keys_wf_def session_methods table_methods db_record_agent_message_def insert_event_def
    db_delete_workspace_def Let_def map_update_where distinct_map_delete_where replace_row_distinct
    schedule_patch_def workspace_row_of_def has_key_def file_key_def
    dest: insert_row_distinct split: sum.splits if_splits option.splits)

lemma delete_session_refs_wf:
  assumes "refs_wf d"
  shows "refs_wf (db_delete_session sid d)"
proof (cases "has_key se_id sid (t_sessions d)")
  case True
  with assms show ?thesis
    by (auto simp: refs_wf_def delete_session_fields delete_session_rest delete_session_refs
        refers_target_update refers_update intro!: refers_delete refers_clear)
next
  case False
  then have "delete_where (\<lambda>s. se_id s = sid) (t_sessions d) = t_sessions d"
    by (auto simp: has_key_def intro!: delete_where_id)
  with assms False show ?thesis
    by (simp add: refs_wf_def delete_session_fields delete_session_rest delete_session_refs)
qed

lemma delete_workspace_refs_wf:
  assumes "refs_wf d"
  shows "refs_wf (db_delete_workspace wid d)"
proof (cases "has_key wr_id wid (t_workspaces d)")
  case True
  let ?gone = "map mt_id (filter (\<lambda>m. mt_workspace m = wid) (t_meetings d))"
  have "refers (Some \<circ> mm_meeting) mt_id (delete_where (\<lambda>m. mm_meeting m \<in> set ?gone) (t_meeting_messages d))
      (delete_where (\<lambda>m. mt_workspace m = wid) (t_meetings d))"
    using assms by (fastforce simp: refs_wf_def refers_def sql_simps)
  moreover have "refers (Some \<circ> fr_workspace) wr_id (delete_where (\<lambda>f. fr_workspace f = wid) (t_files d))
      (delete_where (\<lambda>r. wr_id r = wid) (t_workspaces d))"
    using assms by (intro refers_cascade) (auto simp: refs_wf_def)
  moreover have "refers (Some \<circ> mt_workspace) wr_id (delete_where (\<lambda>m. mt_workspace m = wid) (t_meetings d))
      (delete_where (\<lambda>r. wr_id r = wid) (t_workspaces d))"
    using assms by (intro refers_cascade) (auto simp: refs_wf_def)
  moreover have "refers se_workspace wr_id
      (update_where (\<lambda>s. se_workspace s = Some wid) (\<lambda>s. s\<lparr>se_workspace := None\<rparr>) (t_sessions d))
      (delete_where (\<lambda>r. wr_id r = wid) (t_workspaces d))"
    using assms by (intro refers_clear) (auto simp: refs_wf_def)
  ultimately show ?thesis
    using assms True
    by (simp add: refs_wf_def db_delete_workspace_def Let_def refers_target_update refers_delete)
next
  case False
  with assms show ?thesis by (simp add: db_delete_workspace_def)
qed

lemma refs_wf_step:
  assumes "db_step d d'" and "refs_wf d"
  shows "refs_wf d'"
  using assms
proof (induction rule: db_step.induct)
  case (6 d es)
  then show ?case using batch_fields [of es d] by (auto simp: refs_wf_def)
next
  case (7 d sid)
  then show ?case by (rule delete_session_refs_wf [rotated])
next
  case (31 d wid)
  then show ?case by (rule delete_workspace_refs_wf [rotated])
next
  case (32 sid ws d d')
  then have d': "d' = d\<lparr>t_sessions := update_where (\<lambda>s. se_id s = sid) (\<lambda>s. s\<lparr>se_workspace := ws\<rparr>) (t_sessions d)\<rparr>"
    by (auto simp: db_set_session_workspace_def split: if_splits)
  have "refers se_workspace wr_id (t_sessions d') (t_workspaces d)"
    using 32 by (auto simp: d' db_set_session_workspace_def refs_wf_def refers_def sql_simps fk_ok_iff
        has_key_def split: if_splits)
  with 32 show ?case by (simp add: refs_wf_def d' refers_target_update)
next
  case (33 f d d')
  then show ?case
    by (auto simp: refs_wf_def db_upsert_workspace_file_def Let_def upsert_def fk_ok_iff has_key_def
        refers_update excluded_file_def split: if_splits)
qed (auto simp: refs_wf_def fk_ok_iff has_key_def meeting_row_of_def session_methods table_methods db_record_agent_message_def insert_event_def
    Let_def refers_target_update refers_update refers_target_append refers_delete
    dest!: insert_row_InrD split: sum.splits if_splits option.splits)

lemma insert_event_texts:
  "list_all (\<lambda>r. \<exists>a. ev_action r = run_action_display a) (t_events d) \<Longrightarrow>
   list_all (\<lambda>r. \<exists>a. ev_action r = run_action_display a) (t_events (insert_event eid now e d))"
  by (auto simp: insert_event_def event_row_of_def)

lemma batch_texts:
  "list_all (\<lambda>r. \<exists>a. ev_action r = run_action_display a) (t_events d) \<Longrightarrow>
   list_all (\<lambda>r. \<exists>a. ev_action r = run_action_display a) (t_events (db_batch_insert_run_action_events es d))"
  unfolding db_batch_insert_run_action_events_def
proof (induction es arbitrary: d)
  case (Cons x es)
  then show ?case by (cases x) (simp add: insert_event_texts)
qed simp

lemma texts_wf_step:
  assumes "db_step d d'" and "texts_wf d"
  shows "texts_wf d'"
  using assms
proof (induction rule: db_step.induct)
  case (6 d es)
  then show ?case using batch_fields [of es d] batch_texts [of d es] by (auto simp: texts_wf_def)
next
  case (5 d eid now e)
  then show ?case
    using insert_event_texts [of d eid now e]
    by (auto simp: texts_wf_def db_append_run_action_event_def insert_event_def)
next
  case (7 d sid)
  then show ?case
    by (auto simp: texts_wf_def delete_session_fields delete_session_rest delete_session_refs
        intro!: list_all_update list_all_delete)
qed (auto simp: texts_wf_def session_methods table_methods db_record_agent_message_def insert_event_def
    db_delete_workspace_def Let_def upsert_def excluded_file_def file_row_of_def workspace_row_of_def
    meeting_row_of_def
    intro!: list_all_update list_all_delete dest!: insert_row_InrD
    split: sum.splits if_splits option.splits)

section \<open>The theorem\<close>

lemma db_wf_empty: "db_wf empty_db"
  by (simp add: db_wf_def empty_db_def numbers_wf_def keys_wf_def refs_wf_def texts_wf_def replies_unique_def)

lemma db_wf_step: "db_step d d' \<Longrightarrow> db_wf d \<Longrightarrow> db_wf d'"
  by (simp add: db_wf_def numbers_wf_step keys_wf_step refs_wf_step texts_wf_step)

lemma db_reachable_wfI: "db_reachable d \<Longrightarrow> db_wf d"
  unfolding db_reachable_def by (induction rule: rtranclp_induct) (auto simp: db_wf_empty db_wf_step)


lemma db_reachable_empty: "db_reachable empty_db"
  by (simp add: db_reachable_def)

lemma db_reachable_step: "db_reachable d \<Longrightarrow> db_step d d' \<Longrightarrow> db_reachable d'"
  unfolding db_reachable_def by (rule rtranclp.rtrancl_into_rtrancl)

definition sample_db :: db where
  "sample_db = db_record_agent_message ''t3'' ''s'' ''r'' ''n'' None ''second''
     (db_record_agent_message ''t2'' ''s'' ''r'' ''n'' None ''first''
       (db_record_message ''t1'' ''s'' ''user'' ''hello'' (db_create_session ''t0'' ''s'' ''general'' empty_db)))"

lemma sample_db_reachable: "db_reachable sample_db"
  unfolding sample_db_def by (intro db_reachable_step [OF _ db_step.intros(3)]
      db_reachable_step [OF _ db_step.intros(2)] db_reachable_step [OF _ db_step.intros(1)] db_reachable_empty)


end
