(* ===== verification/Store_Properties.thy ===== *)
theory Store_Properties
  imports Store_Invariant "HOL-Library.Countable"
begin

text \<open>
  What the methods of the store answer: a run that was written is read back as it was last
  written; the events of a run are listed in order exactly when all their actions are known to
  the parser; deleting a session removes its rows; messages, replies, memory scopes, webhooks,
  schedules.
\<close>

section \<open>Runs are a map of last writes\<close>

interpretation runs_table: upsert_table
  "\<lambda>t k. row_of ar_run k t" "upsert ar_run excluded_run" ar_run ar_json
  by (rule upsert_table_upsert) (simp_all add: excluded_run_def)

interpretation files_table: upsert_table
  "\<lambda>t k. row_of file_key k t" "upsert file_key excluded_file" file_key
  "\<lambda>r. (fr_size r, fr_mime r, fr_sha256 r, fr_created_by r, fr_persona r, fr_updated r)"
  by (rule upsert_table_upsert) (simp_all add: excluded_file_def file_key_def)

interpretation workflows_table: upsert_table
  "\<lambda>t k. row_of wf_id k t" "replace_row wf_id" wf_id id
  by (rule upsert_table_replace)

definition write_runs :: "run_record codec \<Rightarrow> (string \<times> run_record) list \<Rightarrow> db \<Rightarrow> db" where
  "write_runs c ws d = fold (\<lambda>(now, r). db_upsert_run c now r) ws d"

lemma write_runs_table:
  "t_runs (write_runs c ws d) =
     fold (upsert ar_run excluded_run) (map (\<lambda>(now, r). run_row c now r) ws) (t_runs d)"
  unfolding write_runs_def by (induction ws arbitrary: d) (auto simp: db_upsert_run_def)

lemma find_map: "find P (map f xs) = map_option f (find (P \<circ> f) xs)"
  by (induction xs) auto

lemma get_run_json:
  "db_get_run c rid d = (case map_option ar_json (row_of ar_run rid (t_runs d)) of
     None \<Rightarrow> Inr None | Some s \<Rightarrow> (case dec c s of None \<Rightarrow> Inl (Decode_error s) | Some r \<Rightarrow> Inr (Some r)))"
  by (simp add: db_get_run_def decoded_def split: option.split)

text \<open>
  After any sequence of writes a run is read back as its last record written; a run that
  was not written reads as before.
\<close>

theorem get_run_last_write:
  assumes "codec_ok c"
  shows "db_get_run c rid (write_runs c ws d) =
    (case find (\<lambda>(now, r). run_id r = rid) (rev ws) of
       Some (now, r) \<Rightarrow> Inr (Some r) | None \<Rightarrow> db_get_run c rid d)"
proof -
  let ?f = "\<lambda>(now, r). run_row c now r"
  have "(\<lambda>r. ar_run r = rid) \<circ> ?f = (\<lambda>(now, r). run_id r = rid)"
    by (auto simp: run_row_def)
  then have "find (\<lambda>r. ar_run r = rid) (rev (map ?f ws)) =
      map_option ?f (find (\<lambda>(now, r). run_id r = rid) (rev ws))"
    by (simp add: rev_map find_map)
  then show ?thesis
    using assms runs_table.last_write [of rid "map ?f ws" "t_runs d"]
    by (auto simp: get_run_json write_runs_table run_row_def codec_ok_def split: option.split)
qed

text \<open>A lawful codec for the countable types of the program.\<close>

instance task_profile :: countable by countable_datatype
instance agent_role :: countable by countable_datatype
instance run_status :: countable by countable_datatype
instance token_usage :: countable by countable_datatype

definition count_codec :: "'a::countable codec" where
  "count_codec = \<lparr>enc = \<lambda>x. replicate (to_nat x) CHR 0x31, dec = \<lambda>s. Some (from_nat (length s))\<rparr>"

lemma count_codec_ok: "codec_ok count_codec"
  by (simp add: codec_ok_def count_codec_def)

definition exec_tuple :: "agent_execution_record \<Rightarrow> string \<times> agent_role \<times> string \<times> string \<times> nat \<times> bool
    \<times> string option \<times> token_usage option" where
  "exec_tuple r = (er_node_id r, er_role r, er_model r, er_output r, er_duration_ms r, er_succeeded r,
     er_error r, er_token_usage r)"

definition tuple_exec where
  "tuple_exec = (\<lambda>(a, b, c, d, e, f, g, h). \<lparr>er_node_id = a, er_role = b, er_model = c, er_output = d,
     er_duration_ms = e, er_succeeded = f, er_error = g, er_token_usage = h\<rparr>)"

definition run_codec :: "run_record codec" where
  "run_codec = \<lparr>
     enc = \<lambda>r. enc count_codec (run_id r, session_id r, run_task r, run_profile r, run_status r,
       created_at r, started_at r, finished_at r, map exec_tuple (run_outputs r), run_error r,
       timeline r, total_token_usage r, cost_is_estimate r),
     dec = \<lambda>s. map_option (\<lambda>(a, b, c, d, e, f, g, h, i, j, k, l, m). \<lparr>run_id = a, session_id = b,
       run_task = c, run_profile = d, run_status = e, created_at = f, started_at = g, finished_at = h,
       run_outputs = map tuple_exec i, run_error = j, timeline = k, total_token_usage = l,
       cost_is_estimate = m\<rparr>) (dec count_codec s)\<rparr>"

lemma run_codec_ok: "codec_ok run_codec"
proof -
  have "tuple_exec \<circ> exec_tuple = id"
    by (simp add: fun_eq_iff tuple_exec_def exec_tuple_def)
  then show ?thesis by (simp add: codec_ok_def run_codec_def count_codec_def)
qed

theorem get_run_last_write_witness:
  "db_get_run run_codec ''r'' (write_runs run_codec
      [(''t1'', new_queued ''t0'' ''r'' ''s'' ''task'' General),
       (''t2'', (new_queued ''t0'' ''r'' ''s'' ''task'' General)\<lparr>run_status := RS_Running\<rparr>)] empty_db) =
    Inr (Some ((new_queued ''t0'' ''r'' ''s'' ''task'' General)\<lparr>run_status := RS_Running\<rparr>))"
  using get_run_last_write [OF run_codec_ok, of "''r''"
      "[(''t1'', new_queued ''t0'' ''r'' ''s'' ''task'' General),
       (''t2'', (new_queued ''t0'' ''r'' ''s'' ''task'' General)\<lparr>run_status := RS_Running\<rparr>)]" empty_db]
  by (simp add: new_queued_def)

section \<open>Events\<close>

definition unparsed_actions :: "run_action_type list" where
  "unparsed_actions = [RA_PersonaMessage, RA_MentionReceived, RA_NoteCreated, RA_NoteUpdated,
     RA_MeetingStarted, RA_MeetingMessage, RA_MeetingEnded, RA_TeamMemoryWritten]"

lemma actions_listed: "a \<in> set (parsed_actions @ unparsed_actions)"
  by (cases a) (simp_all add: parsed_actions_def unparsed_actions_def)

lemma actions_distinct:
  "distinct (map run_action_display (parsed_actions @ unparsed_actions))"
  by (simp add: parsed_actions_def unparsed_actions_def)

lemma run_action_display_inj: "run_action_display a = run_action_display b \<Longrightarrow> a = b"
  using actions_distinct actions_listed [of a] actions_listed [of b]
  unfolding distinct_map inj_on_def by blast

lemma parse_run_action_display:
  "parse_run_action (run_action_display a) =
     (if a \<in> set parsed_actions then Inr a
      else Inl (Decode_error (''unknown run action event type: '' @ run_action_display a)))"
proof (cases "a \<in> set parsed_actions")
  case True
  moreover have "find (\<lambda>b. run_action_display b = run_action_display a) xs = (if a \<in> set xs then Some a else None)" for xs
    by (induction xs) (auto dest: run_action_display_inj)
  ultimately show ?thesis by (simp add: parse_run_action_def)
next
  case False
  then have "find (\<lambda>b. run_action_display b = run_action_display a) parsed_actions = None"
    by (auto simp: find_None_iff dest: run_action_display_inj)
  with False show ?thesis by (simp add: parse_run_action_def)
qed

text \<open>
  The parser of stored actions undoes their display, except for eight actions of
  collaboration, which it does not know.
\<close>

theorem action_text_roundtrip:
  "parse_run_action (run_action_display a) =
     (if a \<in> set unparsed_actions
      then Inl (Decode_error (''unknown run action event type: '' @ run_action_display a)) else Inr a)"
proof -
  have "a \<in> set unparsed_actions \<longleftrightarrow> a \<notin> set parsed_actions"
    using actions_listed [of a] actions_distinct by (auto simp: distinct_map)
  then show ?thesis by (simp add: parse_run_action_display)
qed

definition run_events :: "string \<Rightarrow> db \<Rightarrow> event_row list" where
  "run_events rid d = filter (\<lambda>r. ev_run r = rid) (t_events d)"

lemma numbered_filter: "numbered idf n t \<Longrightarrow> numbered idf n (filter p t)"
  by (auto simp: numbered_def sorted_wrt_map sorted_wrt_filter)

lemma numbered_sorted: "numbered idf n t \<Longrightarrow> sorted (map idf t) \<and> distinct (map idf t)"
  by (auto simp: numbered_def strict_sorted_iff)

lemma numbered_order:
  "numbered idf n t \<Longrightarrow> order_asc idf t = t" "numbered idf n t \<Longrightarrow> order_desc idf t = rev t"
  by (simp_all add: order_asc_sorted order_desc_sorted numbered_sorted)

lemma events_numbered: "db_reachable d \<Longrightarrow> numbered ev_seq (seq_events d) (t_events d)"
  using db_reachable_wfI by (auto simp: db_wf_def numbers_wf_def)

lemma list_events_eq:
  "db_reachable d \<Longrightarrow>
   db_list_run_action_events rid limit d = collect_rows event_of_row (take limit (run_events rid d))"
  using numbered_order(1) [OF numbered_filter [OF events_numbered]]
  by (simp add: db_list_run_action_events_def run_events_def)

lemma list_events_since_eq:
  "db_reachable d \<Longrightarrow>
   db_list_run_action_events_since rid after limit d =
     collect_rows event_of_row (take limit (filter (\<lambda>r. after < int (ev_seq r)) (run_events rid d)))"
  using numbered_order(1) [OF numbered_filter [OF events_numbered]]
  by (simp add: db_list_run_action_events_since_def run_events_def conj_commute)

text \<open>
  Recording an action the parser does not know makes every listing of the run's events
  that reaches it fail, and with it the trace of the run.
\<close>

theorem unparsed_action_breaks_listing:
  assumes "db_reachable d" and "ei_action e \<in> set unparsed_actions"
    and "length (run_events (ei_run e) d) < limit"
  shows "isl (db_list_run_action_events (ei_run e) limit (snd (db_append_run_action_event eid now e d)))"
proof -
  let ?d = "snd (db_append_run_action_event eid now e d)"
  let ?r = "event_row_of (Suc (seq_events d)) eid now e"
  have "run_events (ei_run e) ?d = run_events (ei_run e) d @ [?r]"
    by (simp add: run_events_def db_append_run_action_event_def insert_event_def event_row_of_def)
  then have "?r \<in> set (take limit (run_events (ei_run e) ?d))" using assms(3) by simp
  moreover have "isl (event_of_row ?r)"
    using assms(2) actions_listed [of "ei_action e"] actions_distinct
    by (auto simp: event_of_row_def event_row_of_def parse_run_action_display distinct_map)
  moreover have "db_reachable ?d"
    using assms(1) db_step.intros(5) by (rule db_reachable_step)
  ultimately show ?thesis by (metis collect_rows_Inl list_events_eq)
qed

theorem unparsed_action_breaks_listing_witness:
  "isl (db_list_run_action_events ''r'' 500 (snd (db_append_run_action_event ''e'' ''t''
     \<lparr>ei_run = ''r'', ei_session = ''s'', ei_action = RA_MentionReceived, ei_actor_type = None,
       ei_actor = None, ei_cause = None, ei_payload = ''null''\<rparr> empty_db)))"
  using unparsed_action_breaks_listing [OF db_reachable_empty, of
      "\<lparr>ei_run = ''r'', ei_session = ''s'', ei_action = RA_MentionReceived, ei_actor_type = None,
       ei_actor = None, ei_cause = None, ei_payload = ''null''\<rparr>" 500 "''e''" "''t''"]
  by (simp add: unparsed_actions_def run_events_def empty_db_def)

section \<open>Messages\<close>

lemma messages_numbered: "db_reachable d \<Longrightarrow> numbered ms_id (seq_messages d) (t_messages d)"
  using db_reachable_wfI by (auto simp: db_wf_def numbers_wf_def)

definition session_messages :: "string \<Rightarrow> db \<Rightarrow> message_row list" where
  "session_messages sid d = filter (\<lambda>m. ms_session m = sid) (t_messages d)"

lemma list_session_messages_eq:
  "db_reachable d \<Longrightarrow>
   db_list_session_messages sid limit d =
     drop (length (session_messages sid d) - limit) (session_messages sid d)"
  using numbered_order(2) [OF numbered_filter [OF messages_numbered]]
  by (simp add: db_list_session_messages_def session_messages_def take_rev)

lemma distinct_map_const:
  assumes "distinct (map f xs)" and "xs \<noteq> []" and "\<And>x. x \<in> set xs \<Longrightarrow> f x = c"
  shows "\<exists>x. xs = [x]"
proof (cases xs)
  case (Cons y ys)
  with assms have "ys = []" by (cases ys) auto
  with Cons show ?thesis by simp
qed (use assms in simp)

lemma filter_update_same:
  assumes "\<And>r. p r \<Longrightarrow> p (f r)"
  shows "filter p (update_where p f t) = map f (filter p t)"
    and "filter (\<lambda>r. \<not> p r) (update_where p f t) = filter (\<lambda>r. \<not> p r) t"
  using assms by (induction t) (auto simp: update_where_def)

text \<open>
  Recording a reply again replaces its text: the chat shows one message per session, run
  and node, with the latest text, and every other message as before and in the same order.
\<close>

theorem reply_recorded_once:
  assumes "db_reachable d" and d': "d' = db_record_agent_message now sid rid nid who content d"
  shows "map (\<lambda>m. (ms_content m, ms_persona m)) (filter (same_reply sid rid nid) (t_messages d')) = [(content, who)]
     \<and> filter (\<lambda>m. \<not> same_reply sid rid nid m) (t_messages d') =
         filter (\<lambda>m. \<not> same_reply sid rid nid m) (t_messages d)"
proof (cases "\<exists>m \<in> set (t_messages d). same_reply sid rid nid m")
  case True
  have "filter (same_reply sid rid nid) (t_messages d) =
      filter (same_reply sid rid nid) (filter (\<lambda>m. ms_run m \<noteq> None) (t_messages d))"
    by (auto simp: same_reply_def intro!: filter_cong)
  then have dist: "distinct (map (\<lambda>m. (ms_session m, ms_run m, ms_node m)) (filter (same_reply sid rid nid) (t_messages d)))"
    using db_reachable_wfI [OF assms(1)]
    by (simp only: db_wf_def numbers_wf_def replies_unique_def distinct_map_filter)
  have "\<exists>m. filter (same_reply sid rid nid) (t_messages d) = [m]"
    using dist by (rule distinct_map_const) (use True in \<open>auto simp: same_reply_def filter_empty_conv\<close>)
  then obtain m where one: "filter (same_reply sid rid nid) (t_messages d) = [m]" by blast
  let ?f = "\<lambda>m. m\<lparr>ms_content := content, ms_persona := who, ms_created := now\<rparr>"
  have "t_messages d' = update_where (same_reply sid rid nid) ?f (t_messages d)"
    using True by (simp add: d' db_record_agent_message_def)
  moreover have "same_reply sid rid nid r \<Longrightarrow> same_reply sid rid nid (?f r)" for r
    by (simp add: same_reply_def)
  ultimately show ?thesis by (simp add: filter_update_same one)
next
  case False
  then show ?thesis
    by (auto simp: d' db_record_agent_message_def same_reply_def filter_empty_conv)
qed

theorem reply_recorded_once_witness:
  "map (\<lambda>m. (ms_content m, ms_persona m)) (filter (same_reply ''s'' ''r'' ''n'')
     (t_messages (db_record_agent_message ''t4'' ''s'' ''r'' ''n'' (Some ''Ann'') ''third'' sample_db))) = [(''third'', Some ''Ann'')]"
  using reply_recorded_once [OF sample_db_reachable refl] by blast

section \<open>Deletion of a session\<close>

lemma filter_other: "(\<And>r. q r \<Longrightarrow> \<not> p r) \<Longrightarrow> filter q (delete_where p t) = filter q t"
  by (auto simp: delete_where_def intro!: filter_cong)

lemma filter_deleted: "(\<And>r. q r \<Longrightarrow> p r) \<Longrightarrow> filter q (delete_where p t) = []"
  by (auto simp: delete_where_def filter_empty_conv)

lemma row_of_other: "(\<And>r. key r = k \<Longrightarrow> \<not> p r) \<Longrightarrow> row_of key k (delete_where p t) = row_of key k t"
  by (induction t) (auto simp: row_of_def delete_where_def)

lemma session_runs_delete:
  "session_runs sid' (db_delete_session sid d) = (if sid' = sid then [] else session_runs sid' d)"
  by (simp add: session_runs_def delete_session_fields filter_other filter_deleted)

lemma summary_delete: "se_id s \<noteq> sid \<Longrightarrow> summary_of (db_delete_session sid d) s = summary_of d s"
  by (simp add: summary_of_def session_runs_delete)

lemma refs_delete:
  assumes "distinct (map mi_id (t_memory d))" and "i \<in> set (t_memory d)" and "mi_session i \<noteq> sid"
  shows "refs_column (db_delete_session sid d) (mi_id i) = refs_column d (mi_id i)"
proof -
  have "mi_id i \<notin> mi_id ` {j \<in> set (t_memory d). mi_session j = sid}"
    using assms by (auto simp: distinct_map dest!: inj_onD)
  then have "filter (\<lambda>l. ln_item l = mi_id i) (t_links (db_delete_session sid d)) =
      filter (\<lambda>l. ln_item l = mi_id i) (t_links d)"
    unfolding delete_session_fields by (intro filter_other) auto
  then show ?thesis by (simp add: refs_column_def)
qed

lemma order_desc_Nil [simp]: "order_desc k [] = []"
  by (simp add: order_desc_def)

text \<open>What the API shows of a session: its summary, messages, runs, memory and one run's events.\<close>

definition session_view ::
    "run_record codec \<Rightarrow> string \<Rightarrow> nat \<Rightarrow> db \<Rightarrow> session_summary option \<times> message_row list
      \<times> (sql_error + run_record list) \<times> session_memory_item list" where
  "session_view c sid limit d = (db_get_session sid d, db_list_session_messages sid limit d,
     db_list_session_runs c sid limit d, db_list_session_memory_items sid None limit d)"

text \<open>
  Deleting a session empties every view of it and leaves the views of all other sessions
  as they are.
\<close>

theorem delete_session_views:
  assumes "db_reachable d"
  shows "session_view c sid' limit (db_delete_session sid d) =
    (if sid' = sid then (None, [], Inr [], []) else session_view c sid' limit d)"
proof (cases "sid' = sid")
  case True
  have "row_of se_id sid (delete_where (\<lambda>s. se_id s = sid) (t_sessions d)) = None"
    by (simp add: row_of_delete_where)
  moreover have "filter (\<lambda>i. mi_session i = sid \<and> q i) (delete_where (\<lambda>i. mi_session i = sid) (t_memory d)) = []" for q
    by (rule filter_deleted) simp
  ultimately show ?thesis using True
    by (simp add: session_view_def db_get_session_def delete_session_fields db_list_session_messages_def
        db_list_session_runs_def db_list_session_memory_items_def filter_deleted Let_def)
next
  case False
  have "row_of se_id sid' (delete_where (\<lambda>s. se_id s = sid) (t_sessions d)) = row_of se_id sid' (t_sessions d)"
    using False by (simp add: row_of_delete_where)
  then have "db_get_session sid' (db_delete_session sid d) = db_get_session sid' d"
    using False by (auto simp: db_get_session_def delete_session_fields summary_delete
        dest: row_of_Some split: option.split intro!: option.map_cong)
  moreover have "db_list_session_messages sid' limit (db_delete_session sid d) = db_list_session_messages sid' limit d"
    using False by (simp add: db_list_session_messages_def delete_session_fields filter_other)
  moreover have "db_list_session_runs c sid' limit (db_delete_session sid d) = db_list_session_runs c sid' limit d"
    using False by (simp add: db_list_session_runs_def delete_session_fields filter_other)
  moreover have "db_list_session_memory_items sid' None limit (db_delete_session sid d) =
      db_list_session_memory_items sid' None limit d"
  proof -
    have "distinct (map mi_id (t_memory d))"
      using db_reachable_wfI [OF assms] by (simp add: db_wf_def keys_wf_def)
    moreover have "filter (\<lambda>i. mi_session i = sid' \<and> q i) (delete_where (\<lambda>i. mi_session i = sid) (t_memory d)) =
        filter (\<lambda>i. mi_session i = sid' \<and> q i) (t_memory d)" for q
      using False by (intro filter_other) auto
    ultimately show ?thesis using False
      by (auto simp: db_list_session_memory_items_def delete_session_fields Let_def
          sql_simps refs_delete dest!: in_set_takeD)
  qed
  ultimately show ?thesis using False by (simp add: session_view_def)
qed

theorem delete_session_views_witness:
  "session_view run_codec ''s'' 10 (db_delete_session ''s'' sample_db) = (None, [], Inr [], [])"
  using delete_session_views [OF sample_db_reachable, of run_codec "''s''"] by simp

text \<open>
  Not everything of a session goes with it: the coder sessions and GitHub activities of its
  runs and its webhook deliveries stay.
\<close>

lemma delete_session_keeps:
  "t_coders (db_delete_session sid d) = t_coders d" "t_github (db_delete_session sid d) = t_github d"
  "t_deliveries (db_delete_session sid d) = t_deliveries d"
  by (simp_all add: delete_session_rest)

section \<open>Webhook secrets\<close>

lemma list_all2_member:
  assumes "r \<in> set rs" and "list_all2 (\<lambda>r x. f r = Inr x) rs xs" and "f r = Inr x"
  shows "x \<in> set xs"
proof -
  obtain i where "i < length rs" "rs ! i = r" using assms(1) by (auto simp: in_set_conv_nth)
  then have "i < length xs" "Inr (xs ! i) = f r" using assms(2) by (auto simp: list_all2_conv_all_nth)
  then show ?thesis using assms(3) by (metis Inr_inject nth_mem)
qed

text \<open>
  A registered webhook is listed with the secret and the events it was registered with,
  although only the encrypted secret is stored.
\<close>

theorem webhook_registered_listed:
  assumes "crates_ok cr" and "codec_ok c" and "length nonce = 12" and "\<not> starts_with secret secret_prefix"
    and reg: "db_register_webhook cr c key nonce uid now url events secret d = Inr (w, d')"
    and list: "db_list_webhooks cr c key d' = Inr ws"
  shows "w \<in> set ws \<and> sw_secret w = secret \<and> sw_events w = events"
proof -
  from reg obtain hidden where hidden: "encrypt_secret cr nonce secret key = Inr hidden"
    by (auto simp: db_register_webhook_def split: sum.splits)
  let ?r = "\<lparr>we_id = uid, we_url = url, we_events = enc c events, we_secret = hidden,
    we_enabled = 1, we_created = now\<rparr>"
  from reg hidden have d': "t_webhooks d' = t_webhooks d @ [?r]"
    and w: "w = \<lparr>sw_id = uid, sw_url = url, sw_events = events, sw_secret = secret,
      sw_enabled = True, sw_created = now\<rparr>"
    by (auto simp: db_register_webhook_def dest!: insert_row_InrD split: sum.splits)
  have "decrypt_secret cr hidden key = Inr secret"
    using assms(1,3,4) hidden by (rule decrypt_encrypted)
  then have row: "webhook_from_row cr c key ?r = Inr w"
    using assms(2) by (simp add: webhook_from_row_def decoded_def codec_ok_def w)
  have "?r \<in> set (order_asc we_created (filter (\<lambda>w. we_enabled w = 1) (t_webhooks d')))"
    by (simp add: d' sql_simps)
  then have "w \<in> set ws"
    using collect_rows_Inr [OF list [unfolded db_list_webhooks_def]] row by (rule list_all2_member)
  with w show ?thesis by simp
qed

theorem webhook_registered_listed_witness:
  "\<exists>w d'. db_register_webhook toy_crates count_codec ''k'' (replicate 12 7) ''w'' ''t'' ''url'' [''run.completed'']
       ''token'' empty_db = Inr (w, d')
     \<and> db_list_webhooks toy_crates count_codec ''k'' d' = Inr [w] \<and> sw_secret w = ''token''"
proof -
  let ?reg = "db_register_webhook toy_crates count_codec ''k'' (replicate 12 7) ''w'' ''t'' ''url'' [''run.completed''] ''token'' empty_db"
  have ok: "crates_ok toy_crates" "\<not> starts_with ''token'' secret_prefix"
    by (simp_all add: crates_ok_def toy_crates_def starts_with_def secret_prefix_def)
  obtain w d' where reg: "?reg = Inr (w, d')"
    by (simp add: db_register_webhook_def encrypt_secret_def toy_crates_def starts_with_def secret_prefix_def
        insert_row_def has_key_def empty_db_def)
  then obtain r where rows: "t_webhooks d' = [r]" "we_enabled r = 1" "we_events r = enc count_codec [''run.completed'']"
    by (auto simp: db_register_webhook_def empty_db_def dest!: insert_row_InrD split: sum.splits)
  then obtain x where "db_list_webhooks toy_crates count_codec ''k'' d' = Inr [x]"
    using count_codec_ok [where 'a = "string list"]
    by (auto simp: db_list_webhooks_def order_asc_def webhook_from_row_def decoded_def codec_ok_def)
  with webhook_registered_listed [OF ok(1) count_codec_ok _ ok(2) reg, of "[x]"] reg show ?thesis by auto
qed

end
