(* ===== verification/Streaming.thy ===== *)
theory Streaming
  imports Store_Properties "HOL-Library.Sublist"
begin

text \<open>
  The two streams of a run's events, \<^verbatim>\<open>handle_run_ws\<close> and \<^verbatim>\<open>stream_run_handler\<close> of
  \<^verbatim>\<open>src/interface/handlers/runs.rs\<close>: a loop that polls the store for the events after the last
  one it sent, and the run for its status. A poll is what one pass of the loop meets: the
  database at the time of its query, the answer of \<^verbatim>\<open>get_run\<close>, and how many frames reach the
  client before it is gone.

  Main results: while the run's session is not deleted, the frames are the events of the run in
  order, none lost or repeated in between; but the streams stop when the run is over, whether
  they have caught up or not.
\<close>

section \<open>The loops\<close>

datatype frame =
    Action_frame run_action_event
  | Behavior_frame
  | Terminal_frame run_status
  | Error_frame string

record poll =
  po_db :: db
  po_run :: "string + run_status option"
  po_gone :: "nat option"
  po_behavior :: bool

definition show_sql_error :: "sql_error \<Rightarrow> string" where
  "show_sql_error e = (case e of Unique_violation \<Rightarrow> ''UNIQUE constraint failed''
     | Foreign_key_violation \<Rightarrow> ''FOREIGN KEY constraint failed'' | Decode_error s \<Rightarrow> s)"

definition page_size :: nat where
  "page_size = 500"

definition next_seq :: "int \<Rightarrow> run_action_event list \<Rightarrow> int" where
  "next_seq last_seq evs = (if evs = [] then last_seq else int (re_seq (last evs)))"

fun ws_loop :: "string \<Rightarrow> int \<Rightarrow> poll list \<Rightarrow> frame list" where
  "ws_loop rid last_seq [] = []"
| "ws_loop rid last_seq (p # ps) =
     (case db_list_run_action_events_since rid last_seq page_size (po_db p) of
        Inl e \<Rightarrow> [Error_frame (show_sql_error e)]
      | Inr evs \<Rightarrow>
          (case po_gone p of
             Some k \<Rightarrow> take k (map Action_frame evs)
           | None \<Rightarrow> map Action_frame evs @
              (case po_run p of
                 Inr (Some st) \<Rightarrow> if run_is_terminal st then [Terminal_frame st]
                   else ws_loop rid (next_seq last_seq evs) ps
               | Inr None \<Rightarrow> [Error_frame ''run_not_found'']
               | Inl err \<Rightarrow> [Error_frame err])))"

definition handle_run_ws :: "string \<Rightarrow> poll list \<Rightarrow> frame list" where
  "handle_run_ws rid ps = ws_loop rid 0 ps"

definition stream_snapshot :: "bool \<Rightarrow> poll \<Rightarrow> frame list" where
  "stream_snapshot wanted p = (if wanted \<and> po_behavior p then [Behavior_frame] else [])"

fun sse_loop :: "string \<Rightarrow> bool \<Rightarrow> int \<Rightarrow> u8 \<Rightarrow> poll list \<Rightarrow> frame list" where
  "sse_loop rid include_behavior last_seq ticks [] = []"
| "sse_loop rid include_behavior last_seq ticks (p # ps) =
     (case db_list_run_action_events_since rid last_seq page_size (po_db p) of
        Inl e \<Rightarrow> [Error_frame (show_sql_error e)]
      | Inr evs \<Rightarrow>
          (case po_gone p of
             Some k \<Rightarrow> take k (map Action_frame evs)
           | None \<Rightarrow>
              (let seq' = next_seq last_seq evs
               in map Action_frame evs @ stream_snapshot (include_behavior \<and> evs \<noteq> []) p @
                  (case po_run p of
                     Inr (Some st) \<Rightarrow>
                       if run_is_terminal st then
                         stream_snapshot include_behavior p @
                         (if seq' > 0 then
                            (let ticks' = sat_add ticks 1
                             in if ticks' \<ge> 2 then [Terminal_frame st]
                                else sse_loop rid include_behavior seq' ticks' ps)
                          else [Terminal_frame st])
                       else sse_loop rid include_behavior seq' 0 ps
                   | Inr None \<Rightarrow> [Error_frame ''run_not_found'']
                   | Inl err \<Rightarrow> [Error_frame err]))))"

definition stream_run :: "string \<Rightarrow> int option \<Rightarrow> bool option \<Rightarrow> poll list \<Rightarrow> frame list" where
  "stream_run rid after behavior ps =
     sse_loop rid (case behavior of None \<Rightarrow> False | Some b \<Rightarrow> b)
       (max (case after of None \<Rightarrow> 0 | Some n \<Rightarrow> n) 0) 0 ps"

section \<open>What is sent\<close>

definition sent :: "frame list \<Rightarrow> run_action_event list" where
  "sent fs = List.map_filter (\<lambda>f. case f of Action_frame e \<Rightarrow> Some e | _ \<Rightarrow> None) fs"

lemma sent_simps [simp]:
  "sent [] = []" "sent (fs @ gs) = sent fs @ sent gs" "sent (map Action_frame es) = es"
  "sent (Action_frame e # fs) = e # sent fs" "sent (Terminal_frame st # fs) = sent fs"
  "sent (Error_frame m # fs) = sent fs" "sent (stream_snapshot b p) = []"
  by (simp_all add: sent_def List.map_filter_def stream_snapshot_def o_def)

lemma sent_take: "sent (take k (map Action_frame es)) = take k es"
  by (simp add: take_map)

definition event_of :: "event_row \<Rightarrow> run_action_event" where
  "event_of r = projr (event_of_row r)"

lemma collect_events:
  assumes "collect_rows event_of_row rs = Inr es"
  shows "es = map event_of rs" and "\<And>r. r \<in> set rs \<Longrightarrow> re_seq (event_of r) = ev_seq r"
proof -
  have all2: "length rs = length es" "\<And>i. i < length rs \<Longrightarrow> event_of_row (rs ! i) = Inr (es ! i)"
    using collect_rows_Inr [OF assms] by (auto simp: list_all2_conv_all_nth)
  then show "es = map event_of rs"
    by (auto simp: event_of_def intro!: nth_equalityI)
  fix r assume "r \<in> set rs"
  then obtain i where "i < length rs" "r = rs ! i" by (auto simp: in_set_conv_nth)
  with all2 have "event_of_row r = Inr (es ! i)" by blast
  then show "re_seq (event_of r) = ev_seq r"
    by (auto simp: event_of_def event_of_row_def split: sum.splits dest!: arg_cong [where f = re_seq])
qed

text \<open>The rows after a number, and the number of the last row among the first \<open>k\<close>.\<close>

definition later :: "int \<Rightarrow> event_row list \<Rightarrow> event_row list" where
  "later n rs = filter (\<lambda>r. n < int (ev_seq r)) rs"

definition seq_at :: "int \<Rightarrow> event_row list \<Rightarrow> nat \<Rightarrow> int" where
  "seq_at n rs k = (if k = 0 then n else int (ev_seq (rs ! (k - 1))))"

lemma filter_after:
  assumes "sorted_wrt (<) (map ev_seq rs)" and "j < length rs"
  shows "filter (\<lambda>r. ev_seq (rs ! j) < ev_seq r) rs = drop (Suc j) rs"
  using assms
proof (induction rs arbitrary: j)
  case (Cons r rs)
  show ?case
  proof (cases j)
    case 0
    then show ?thesis using Cons.prems by (auto intro: filter_True)
  next
    case (Suc i)
    then have "r \<notin> {x. ev_seq (rs ! i) < ev_seq x}"
      using Cons.prems by (auto simp: not_less less_imp_le)
    then show ?thesis using Cons Suc by simp
  qed
qed simp

lemma drop_later:
  assumes "sorted_wrt (<) (map ev_seq rs)" and "k \<le> length (later n rs)"
  shows "later (seq_at n (later n rs) k) rs = drop k (later n rs)"
proof (cases k)
  case 0
  then show ?thesis by (simp add: seq_at_def)
next
  case (Suc j)
  let ?R = "later n rs"
  let ?s = "ev_seq (?R ! j)"
  have srt: "sorted_wrt (<) (map ev_seq ?R)"
    using assms(1) by (simp add: later_def sorted_wrt_map sorted_wrt_filter)
  have j: "j < length ?R" using assms(2) Suc by simp
  then have "n < int ?s" using nth_mem [OF j] by (simp add: later_def)
  then have "later (int ?s) rs = filter (\<lambda>r. ?s < ev_seq r) ?R"
    by (auto simp: later_def intro: filter_cong)
  also have "\<dots> = drop (Suc j) ?R"
    using srt j by (rule filter_after)
  finally show ?thesis by (simp add: Suc seq_at_def)
qed

lemma nth_last_page:
  assumes "drop k xs = ys @ zs" and "ys \<noteq> []"
  shows "xs ! (k + length ys - 1) = last ys"
proof -
  have "k \<le> length xs" using assms by (metis append_is_Nil_conv drop_all nat_le_linear)
  then have "xs ! (k + (length ys - 1)) = (ys @ zs) ! (length ys - 1)"
    using assms(1) by (metis nth_drop)
  then show ?thesis using assms(2) by (simp add: nth_append last_conv_nth Suc_leI)
qed

text \<open>The polls of a stream see the run's events grow.\<close>

definition growing :: "string \<Rightarrow> poll list \<Rightarrow> event_row list \<Rightarrow> bool" where
  "growing rid ps rows \<longleftrightarrow> list_all (\<lambda>p. db_reachable (po_db p)) ps
     \<and> sorted_wrt prefix (map (\<lambda>p. run_events rid (po_db p)) ps @ [rows])"

lemma growing_Cons:
  "growing rid (p # ps) rows \<longleftrightarrow> db_reachable (po_db p) \<and> growing rid ps rows
     \<and> (\<forall>q \<in> set ps. prefix (run_events rid (po_db p)) (run_events rid (po_db q)))
     \<and> prefix (run_events rid (po_db p)) rows"
  by (auto simp: growing_def)

lemma later_prefix: "prefix xs ys \<Longrightarrow> prefix (later n xs) (later n ys)"
  by (auto simp: later_def prefix_def)

text \<open>One page: what is read after \<open>k\<close> rows were sent.\<close>

lemma page_of:
  assumes "db_reachable d" and "prefix (run_events rid d) rows"
    and "k \<le> length (later n (run_events rid d))"
    and "db_list_run_action_events_since rid (seq_at n (later n rows) k) page_size d = Inr evs"
  obtains page where "evs = map event_of page"
    and "drop k (later n rows) = page @ drop (k + length page) (later n rows)"
    and "k + length page \<le> length (later n (run_events rid d))"
    and "next_seq (seq_at n (later n rows) k) evs = seq_at n (later n rows) (k + length page)"
proof -
  let ?R = "later n (run_events rid d)" and ?E = "later n rows"
  obtain page where page: "page = take page_size (drop k ?R)" by blast
  have R: "prefix ?R ?E" using assms(2) by (rule later_prefix)
  then have at: "seq_at n ?E k = seq_at n ?R k"
    using assms(3) by (auto simp: seq_at_def prefix_def nth_append)
  have "sorted_wrt (<) (map ev_seq (run_events rid d))"
    using numbered_filter [OF events_numbered [OF assms(1)]] by (auto simp: numbered_def run_events_def)
  then have "collect_rows event_of_row page = Inr evs"
    using assms(4) drop_later [OF _ assms(3)]
    by (simp add: page list_events_since_eq [OF assms(1)] at later_def [symmetric])
  note evs = collect_events [OF this]
  have len: "k + length page \<le> length ?R" using assms(3) by (simp add: page)
  have dropE: "drop k ?E = page @ drop (k + length page) ?E"
  proof -
    obtain zs where E: "?E = ?R @ zs" using R by (auto simp: prefix_def)
    have "drop k ?R = page @ drop (k + length page) ?R"
      using append_take_drop_id [of page_size "drop k ?R"] by (cases "page_size \<le> length (drop k ?R)") (auto simp: page add.commute)
    then show ?thesis using assms(3) len by (simp add: E)
  qed
  moreover have "next_seq (seq_at n ?E k) evs = seq_at n ?E (k + length page)"
  proof (cases "page = []")
    case False
    then have "int (ev_seq (last page)) = seq_at n ?E (k + length page)"
      unfolding seq_at_def using nth_last_page [OF dropE] by simp
    then show ?thesis
      using False evs by (simp add: next_seq_def last_map)
  next
    case True
    then show ?thesis using evs(1) by (simp add: next_seq_def)
  qed
  ultimately show ?thesis using that evs(1) len by blast
qed

lemma growing_weaken:
  assumes "growing rid (p # ps) rows" and "k \<le> length (later n (run_events rid (po_db p)))"
  shows "list_all (\<lambda>q. k \<le> length (later n (run_events rid (po_db q)))) ps"
proof -
  have "length (later n (run_events rid (po_db p))) \<le> length (later n (run_events rid (po_db q)))"
    if "q \<in> set ps" for q
    using assms(1) that by (auto simp: growing_Cons intro: prefix_length_le later_prefix)
  with assms(2) show ?thesis by (fastforce simp: list_all_iff)
qed

lemma sent_prefix_take: "prefix xs ys \<Longrightarrow> prefix (take k xs) ys"
  by (meson prefix_order.trans take_is_prefix)

lemma ws_loop_prefix:
  assumes "growing rid ps rows"
    and "list_all (\<lambda>p. k \<le> length (later n (run_events rid (po_db p)))) ps"
  shows "prefix (sent (ws_loop rid (seq_at n (later n rows) k) ps)) (map event_of (drop k (later n rows)))"
  using assms
proof (induction ps arbitrary: k)
  case (Cons p ps)
  let ?last = "seq_at n (later n rows) k"
  from Cons.prems have p: "db_reachable (po_db p)" "prefix (run_events rid (po_db p)) rows"
    "k \<le> length (later n (run_events rid (po_db p)))" and ps: "growing rid ps rows"
    by (auto simp: growing_Cons)
  show ?case
  proof (cases "db_list_run_action_events_since rid ?last page_size (po_db p)")
    case (Inr evs)
    from page_of [OF p this] obtain page where page: "evs = map event_of page"
      "drop k (later n rows) = page @ drop (k + length page) (later n rows)"
      "k + length page \<le> length (later n (run_events rid (po_db p)))"
      "next_seq ?last evs = seq_at n (later n rows) (k + length page)" .
    have "prefix evs (map event_of (drop k (later n rows)))"
      by (subst page(2)) (simp add: page(1))
    moreover have "prefix (sent (ws_loop rid (next_seq ?last evs) ps))
        (map event_of (drop (k + length page) (later n rows)))"
      unfolding page(4) using ps growing_weaken [OF Cons.prems(1) page(3)] by (rule Cons.IH)
    moreover have "map event_of (drop k (later n rows)) = evs @ map event_of (drop (k + length page) (later n rows))"
      by (subst page(2)) (simp add: page(1))
    ultimately show ?thesis
      by (auto simp: Inr sent_take sent_prefix_take split: option.splits sum.splits)
  qed simp
qed simp

lemma sse_loop_prefix:
  assumes "growing rid ps rows"
    and "list_all (\<lambda>p. k \<le> length (later n (run_events rid (po_db p)))) ps"
  shows "prefix (sent (sse_loop rid b (seq_at n (later n rows) k) ticks ps))
    (map event_of (drop k (later n rows)))"
  using assms
proof (induction ps arbitrary: k ticks)
  case (Cons p ps)
  let ?last = "seq_at n (later n rows) k"
  from Cons.prems have p: "db_reachable (po_db p)" "prefix (run_events rid (po_db p)) rows"
    "k \<le> length (later n (run_events rid (po_db p)))" and ps: "growing rid ps rows"
    by (auto simp: growing_Cons)
  show ?case
  proof (cases "db_list_run_action_events_since rid ?last page_size (po_db p)")
    case (Inr evs)
    from page_of [OF p this] obtain page where page: "evs = map event_of page"
      "drop k (later n rows) = page @ drop (k + length page) (later n rows)"
      "k + length page \<le> length (later n (run_events rid (po_db p)))"
      "next_seq ?last evs = seq_at n (later n rows) (k + length page)" .
    have "prefix evs (map event_of (drop k (later n rows)))"
      by (subst page(2)) (simp add: page(1))
    moreover have "prefix (sent (sse_loop rid b (next_seq ?last evs) t ps))
        (map event_of (drop (k + length page) (later n rows)))" for t
      unfolding page(4) using ps growing_weaken [OF Cons.prems(1) page(3)] by (rule Cons.IH)
    moreover have "map event_of (drop k (later n rows)) = evs @ map event_of (drop (k + length page) (later n rows))"
      by (subst page(2)) (simp add: page(1))
    ultimately show ?thesis
      by (auto simp: Inr sent_take sent_prefix_take Let_def split: option.splits sum.splits)
  qed simp
qed simp

text \<open>
  C21: while the events of the run only grow, both streams send its events after the given
  number in the order of their numbers, without loss or repetition, up to where they stop.
\<close>

theorem streams_send_in_order:
  assumes "growing rid ps rows"
  shows "prefix (sent (handle_run_ws rid ps)) (map event_of (later 0 rows))
     \<and> prefix (sent (stream_run rid after behavior ps))
         (map event_of (later (max (case after of None \<Rightarrow> 0 | Some n \<Rightarrow> n) 0) rows))"
proof -
  have *: "list_all (\<lambda>p. 0 \<le> length (later n (run_events rid (po_db p)))) ps" for n
    by (simp add: list_all_iff)
  have "prefix (sent (ws_loop rid 0 ps)) (map event_of (later 0 rows))"
    using ws_loop_prefix [OF assms *, of 0] by (simp add: seq_at_def)
  moreover have "prefix (sent (sse_loop rid b n 0 ps)) (map event_of (later n rows))" for b n
    using sse_loop_prefix [OF assms *, of b n 0] by (simp add: seq_at_def)
  ultimately show ?thesis by (simp add: handle_run_ws_def stream_run_def)
qed

section \<open>Growth and truncation\<close>

lemma batch_events: "\<exists>xs. t_events (db_batch_insert_run_action_events es d) = t_events d @ xs"
  unfolding db_batch_insert_run_action_events_def
proof (induction es arbitrary: d)
  case (Cons x es)
  obtain eid now e where x: "x = (eid, now, e)" by (cases x)
  have "\<exists>xs. t_events (insert_event eid now e d) = t_events d @ xs"
    by (simp add: insert_event_def)
  with Cons [of "insert_event eid now e d"] show ?case by (fastforce simp: x)
qed simp

text \<open>Only the deletion of a session takes events away.\<close>

lemma run_events_grow:
  assumes "db_step d d'" and "\<And>sid. d' \<noteq> db_delete_session sid d"
  shows "prefix (run_events rid d) (run_events rid d')"
proof -
  have "\<exists>xs. t_events d' = t_events d @ xs"
    using assms
  proof (induction rule: db_step.induct)
    case (6 d es)
    show ?case by (rule batch_events)
  qed (auto simp: session_methods table_methods db_record_agent_message_def insert_event_def
      db_delete_workspace_def Let_def split: sum.splits if_splits option.splits)
  then show ?thesis by (auto simp: run_events_def)
qed

definition known_row :: "event_row \<Rightarrow> bool" where
  "known_row r \<longleftrightarrow> (\<exists>a \<in> set parsed_actions. ev_action r = run_action_display a)"

lemma collect_known: "list_all known_row rs \<Longrightarrow> collect_rows event_of_row rs = Inr (map event_of rs)"
proof (rule collect_rows_all)
  fix r assume "list_all known_row rs" "r \<in> set rs"
  then obtain a where "a \<in> set parsed_actions" "ev_action r = run_action_display a"
    by (auto simp: known_row_def list_all_iff)
  then show "event_of_row r = Inr (event_of r)"
    by (simp add: event_of_def event_of_row_def parse_run_action_display)
qed

lemma list_all_take: "list_all p xs \<Longrightarrow> list_all p (take n xs)"
  by (auto simp: list_all_iff dest: in_set_takeD)

lemma later_0: "db_reachable d \<Longrightarrow> later 0 (run_events rid d) = run_events rid d"
  using numbered_filter [OF events_numbered, of d "\<lambda>r. ev_run r = rid"]
  by (auto simp: later_def run_events_def numbered_def intro!: filter_cong)

text \<open>
  A client that follows a run that is already over gets its first 500 events and the end
  of the stream, however many events there are.
\<close>

theorem finished_stream_truncated:
  assumes "db_reachable (po_db p)" and "list_all known_row (run_events rid (po_db p))"
    and "po_gone p = None" and "po_run p = Inr (Some st)" and "run_is_terminal st"
  shows "handle_run_ws rid (p # ps) =
    map Action_frame (map event_of (take 500 (run_events rid (po_db p)))) @ [Terminal_frame st]"
  using assms later_0 [OF assms(1), of rid]
    collect_known [OF list_all_take [OF assms(2)], of 500]
  by (simp add: handle_run_ws_def list_events_since_eq later_def page_size_def)

definition plain_event :: event_input where
  "plain_event = \<lparr>ei_run = ''r'', ei_session = ''s'', ei_action = RA_NodeStarted, ei_actor_type = None,
     ei_actor = None, ei_cause = None, ei_payload = ''null''\<rparr>"

definition long_run_db :: "nat \<Rightarrow> db" where
  "long_run_db n = db_batch_insert_run_action_events (replicate n (''e'', ''t'', plain_event)) empty_db"

lemma long_run:
  "db_reachable (long_run_db n)"
  "length (run_events ''r'' (long_run_db n)) = n"
  "list_all known_row (run_events ''r'' (long_run_db n))"
proof -
  show "db_reachable (long_run_db n)"
    unfolding long_run_db_def by (rule db_reachable_step [OF db_reachable_empty db_step.intros(6)])
  let ?f = "fold (\<lambda>(eid, now, e). insert_event eid now e)"
  have "length (run_events ''r'' (?f (replicate n (''e'', ''t'', plain_event)) d)) = n + length (run_events ''r'' d)
      \<and> (list_all known_row (run_events ''r'' d) \<longrightarrow>
         list_all known_row (run_events ''r'' (?f (replicate n (''e'', ''t'', plain_event)) d)))" for d
    by (induction n arbitrary: d)
      (auto simp: insert_event_def run_events_def event_row_of_def plain_event_def known_row_def parsed_actions_def)
  then show "length (run_events ''r'' (long_run_db n)) = n"
    and "list_all known_row (run_events ''r'' (long_run_db n))"
    by (simp_all add: long_run_db_def db_batch_insert_run_action_events_def run_events_def empty_db_def)
qed

theorem finished_stream_truncated_witness:
  "length (sent (handle_run_ws ''r'' [\<lparr>po_db = long_run_db 501, po_run = Inr (Some RS_Succeeded),
      po_gone = None, po_behavior = False\<rparr>])) = 500
     \<and> length (run_events ''r'' (long_run_db 501)) = 501"
  using finished_stream_truncated [of "\<lparr>po_db = long_run_db 501, po_run = Inr (Some RS_Succeeded),
      po_gone = None, po_behavior = False\<rparr>" "''r''" RS_Succeeded "[]"] long_run [of 501]
  by (simp del: map_map)

theorem streams_send_in_order_witness:
  "prefix (sent (handle_run_ws ''r'' [\<lparr>po_db = long_run_db 2, po_run = Inr None, po_gone = None, po_behavior = False\<rparr>]))
     (map event_of (later 0 (run_events ''r'' (long_run_db 2))))"
  using streams_send_in_order [of "''r''" "[\<lparr>po_db = long_run_db 2, po_run = Inr None, po_gone = None,
      po_behavior = False\<rparr>]" "run_events ''r'' (long_run_db 2)"] long_run(1) [of 2]
  by (simp add: growing_def)

end
