(* ===== verification/Memory.thy ===== *)
theory Memory
  imports Store_Properties Completion
begin

text \<open>
  The memory manager of \<^verbatim>\<open>src/memory/mod.rs\<close>: the store, the session logs of
  \<^verbatim>\<open>src/memory/session_log.rs\<close>, and the short-term items of each session with their time to
  live; \<^verbatim>\<open>src/memory/embedding.rs\<close> without its HTTP call. Methods that only pass a call on to the
  store are the methods of the store. Scores are computed in floating-point numbers: similarity,
  recency and their weighted sum are arguments.

  Main results: a session log is replayed as it was written; sweeping expired items changes no
  answer; what a retrieval answers; the namespaces of personas and teams, and where they leak.
\<close>

unbundle bit_operations_syntax

section \<open>Embeddings\<close>

text \<open>An \<^verbatim>\<open>f32\<close> is its 32 bits.\<close>

definition f32_bytes :: "u32 \<Rightarrow> u8 list" where
  "f32_bytes w = [ucast w, ucast (drop_bit 8 w), ucast (drop_bit 16 w), ucast (drop_bit 24 w)]"

definition f32_of_bytes :: "u8 \<Rightarrow> u8 \<Rightarrow> u8 \<Rightarrow> u8 \<Rightarrow> u32" where
  "f32_of_bytes a b c d = ucast a OR push_bit 8 (ucast b) OR push_bit 16 (ucast c) OR push_bit 24 (ucast d)"

definition encode_embedding :: "u32 list \<Rightarrow> u8 list" where
  "encode_embedding v = concat (map f32_bytes v)"

fun decode_embedding :: "u8 list \<Rightarrow> u32 list" where
  "decode_embedding (a # b # c # d # bs) = f32_of_bytes a b c d # decode_embedding bs"
| "decode_embedding bs = []"

section \<open>Session logs\<close>

record session_event =
  sv_session :: string
  sv_run :: "string option"
  sv_type :: session_event_type
  sv_timestamp :: string
  sv_payload :: string

text \<open>
  The log of a session is a file; \<open>None\<close> is no file. \<open>sl_encode\<close> is \<^verbatim>\<open>serde_json::to_string\<close>,
  \<open>sl_stream\<close> the values \<^verbatim>\<open>Deserializer::into_iter\<close> gives for a text, up to its first error.
\<close>

type_synonym logs = "(string, string) hashmap"

record log_crate =
  sl_encode :: "session_event \<Rightarrow> string"
  sl_stream :: "string \<Rightarrow> session_event list \<times> bool"

definition newline :: char where
  "newline = CHR 0x0A"

definition log_append :: "log_crate \<Rightarrow> string \<Rightarrow> session_event \<Rightarrow> logs \<Rightarrow> logs" where
  "log_append lc sid e logs =
     hm_insert logs sid ((case hm_get logs sid of None \<Rightarrow> '''' | Some txt \<Rightarrow> txt) @ sl_encode lc e @ [newline])"

text \<open>\<^verbatim>\<open>str::lines\<close>: a final newline ends the last line, and a return before it is cut.\<close>

definition strip_return :: "string \<Rightarrow> string" where
  "strip_return l = (if l \<noteq> [] \<and> last l = CHR 0x0D then butlast l else l)"

definition lines :: "string \<Rightarrow> string list" where
  "lines s = (let ls = split_at newline s
              in map strip_return (if last ls = [] then butlast ls else ls))"

fun replay_lines :: "log_crate \<Rightarrow> nat \<Rightarrow> string list \<Rightarrow> string + (nat \<times> session_event) list" where
  "replay_lines lc n [] = Inr []"
| "replay_lines lc n (l # ls) =
     (let t = trim l in
      if t = [] then replay_lines lc (Suc n) ls
      else (case sl_stream lc t of (es, failed) \<Rightarrow>
        if failed \<or> es = [] then Inl (''failed to decode jsonl line '' @ show_nat n)
        else (case replay_lines lc (Suc n) ls of
            Inl e \<Rightarrow> Inl e
          | Inr rest \<Rightarrow> Inr (map (\<lambda>e. (n, e)) es @ rest))))"

definition log_replay :: "log_crate \<Rightarrow> string \<Rightarrow> logs \<Rightarrow> string + (nat \<times> session_event) list" where
  "log_replay lc sid logs = (case hm_get logs sid of
       None \<Rightarrow> Inr []
     | Some txt \<Rightarrow> replay_lines lc 1 (lines txt))"

definition log_delete :: "string \<Rightarrow> logs \<Rightarrow> logs" where
  "log_delete sid logs = hm_remove logs sid"

section \<open>The manager\<close>

record short_term_item =
  si_content :: string
  si_importance :: rat
  si_inserted :: nat
  si_expires :: nat

record memory_manager =
  mm_db :: db
  mm_logs :: logs
  mm_short :: "(string, short_term_item list) hashmap"

text \<open>
  \<open>log_ok\<close> says whether the log file can be written, \<open>text\<close> is the string under \<^verbatim>\<open>text\<close> of the
  payload.
\<close>

definition mm_append_event ::
    "log_crate \<Rightarrow> bool \<Rightarrow> string \<Rightarrow> session_event \<Rightarrow> string option \<Rightarrow> memory_manager
      \<Rightarrow> (string + unit) \<times> memory_manager" where
  "mm_append_event lc log_ok now e txt m =
     (if \<not> log_ok then (Inl ''failed to open session log'', m)
      else let m = m\<lparr>mm_logs := log_append lc (sv_session e) e (mm_logs m)\<rparr>
        in (Inr (), case (sv_type e, txt) of
             (UserMessage, Some t) \<Rightarrow> m\<lparr>mm_db := db_record_message now (sv_session e) ''user'' t (mm_db m)\<rparr>
           | _ \<Rightarrow> m))"

definition mm_record_node_event ::
    "log_crate \<Rightarrow> bool \<Rightarrow> string \<Rightarrow> string \<Rightarrow> session_event \<Rightarrow> string option \<Rightarrow> event_input
      \<Rightarrow> memory_manager \<Rightarrow> memory_manager" where
  "mm_record_node_event lc log_ok now eid e txt action m =
     (let m = snd (mm_append_event lc log_ok now e txt m)
      in m\<lparr>mm_db := snd (db_append_run_action_event eid now action (mm_db m))\<rparr>)"

text \<open>Deleting: the rows, the short-term items, then the log, whose file may not be removable.\<close>

definition mm_delete_session ::
    "bool \<Rightarrow> string \<Rightarrow> memory_manager \<Rightarrow> (string + unit) \<times> memory_manager" where
  "mm_delete_session log_ok sid m =
     (let m = m\<lparr>mm_db := db_delete_session sid (mm_db m), mm_short := hm_remove (mm_short m) sid\<rparr>
      in if hm_get (mm_logs m) sid \<noteq> None \<and> \<not> log_ok then (Inl ''failed to remove session log'', m)
         else (Inr (), m\<lparr>mm_logs := log_delete sid (mm_logs m)\<rparr>))"

section \<open>Short-term items\<close>

definition live :: "nat \<Rightarrow> short_term_item \<Rightarrow> bool" where
  "live now i \<longleftrightarrow> now < si_expires i"

definition mm_remember_short :: "nat \<Rightarrow> string \<Rightarrow> string \<Rightarrow> rat \<Rightarrow> nat \<Rightarrow> memory_manager \<Rightarrow> memory_manager" where
  "mm_remember_short now sid content importance ttl m =
     m\<lparr>mm_short := hm_insert (mm_short m) sid
        ((case hm_get (mm_short m) sid of None \<Rightarrow> [] | Some is \<Rightarrow> is) @
          [\<lparr>si_content = content, si_importance = importance, si_inserted = now, si_expires = now + ttl\<rparr>])\<rparr>"

text \<open>One sweep, of \<^verbatim>\<open>gc_short_term\<close> as of the task of \<^verbatim>\<open>spawn_short_term_gc\<close>.\<close>

definition mm_gc_short_term :: "nat \<Rightarrow> memory_manager \<Rightarrow> (nat \<times> nat) \<times> memory_manager" where
  "mm_gc_short_term now m =
     (let swept = map (\<lambda>(sid, is). (sid, filter (live now) is)) (mm_short m);
          removed = sum_list (map (\<lambda>(sid, is). length is - length (filter (live now) is)) (mm_short m));
          empties = map fst (filter (\<lambda>(sid, is). is = []) swept)
      in ((removed, length empties),
          m\<lparr>mm_short := fold (\<lambda>sid s. hm_remove s sid) empties swept\<rparr>))"

section \<open>Namespaces\<close>

definition persona_prefix :: "string \<Rightarrow> string" where
  "persona_prefix who = ''persona:'' @ who @ '':''"

definition persona_scope :: "string \<Rightarrow> string \<Rightarrow> string" where
  "persona_scope who topic = ''persona:'' @ who @ '':'' @ topic"

definition team_prefix :: "string \<Rightarrow> string" where
  "team_prefix wid = ''team:'' @ wid @ '':''"

definition team_scope :: "string \<Rightarrow> string \<Rightarrow> string" where
  "team_scope wid topic = ''team:'' @ wid @ '':'' @ topic"

definition list_persona_memory :: "string \<Rightarrow> nat \<Rightarrow> memory_manager \<Rightarrow> session_memory_item list" where
  "list_persona_memory who limit m = db_list_memory_by_scope_prefix (persona_prefix who) limit (mm_db m)"

definition list_team_memory :: "string \<Rightarrow> nat \<Rightarrow> memory_manager \<Rightarrow> session_memory_item list" where
  "list_team_memory wid limit m = db_list_memory_by_scope_prefix (team_prefix wid) limit (mm_db m)"

text \<open>
  \<^verbatim>\<open>remember_long\<close>: the item, its link, and the event in the log, of which the first two stay
  when the last fails. \<open>uid\<close> is the fresh identifier; the embedding comes later, as a step of
  its own.
\<close>

definition mm_remember_long ::
    "log_crate \<Rightarrow> bool \<Rightarrow> string \<Rightarrow> string \<Rightarrow> session_event \<Rightarrow> string \<Rightarrow> string \<Rightarrow> string \<Rightarrow> rat
      \<Rightarrow> string option \<Rightarrow> memory_manager \<Rightarrow> (string + string) \<times> memory_manager" where
  "mm_remember_long lc log_ok uid now ev sid scope content importance source_ref m =
     (case db_insert_memory_item uid now sid scope content importance (mm_db m) of
        Inl e \<Rightarrow> (Inl ''UNIQUE constraint failed'', m)
      | Inr d \<Rightarrow>
          let d = (case source_ref of None \<Rightarrow> d | Some r \<Rightarrow> db_link_memory now uid r d);
              m = m\<lparr>mm_db := d\<rparr>
          in (case mm_append_event lc log_ok now (ev\<lparr>sv_session := sid, sv_run := None, sv_type := MemoryWrite\<rparr>) None m of
                (Inl e, m) \<Rightarrow> (Inl e, m)
              | (Inr _, m) \<Rightarrow> (Inr uid, m)))"

definition mm_store_embedding :: "string \<Rightarrow> u32 list \<Rightarrow> memory_manager \<Rightarrow> memory_manager" where
  "mm_store_embedding uid v m = m\<lparr>mm_db := db_update_memory_embedding uid (encode_embedding v) (mm_db m)\<rparr>"

definition remember_for_persona where
  "remember_for_persona lc log_ok uid now ev sid who topic content importance source_ref m =
     mm_remember_long lc log_ok uid now ev sid (persona_scope who topic) content importance source_ref m"

definition remember_for_team where
  "remember_for_team lc log_ok uid now ev sid wid topic content importance source_ref m =
     mm_remember_long lc log_ok uid now ev sid (team_scope wid topic) content importance source_ref m"

section \<open>Retrieval\<close>

text \<open>The markers of a follow-up; the Korean ones as the bytes of their UTF-8.\<close>

definition bytes_text :: "nat list \<Rightarrow> string" where
  "bytes_text bs = map char_of bs"

definition follow_up_markers :: "string list" where
  "follow_up_markers =
     [bytes_text [0xEA, 0xB7, 0xB8, 0xEA, 0xB1, 0xB0], bytes_text [0xEC, 0x9D, 0xB4, 0xEA, 0xB1, 0xB0],
      bytes_text [0xEC, 0xA0, 0x80, 0xEA, 0xB1, 0xB0], bytes_text [0xEA, 0xB1, 0xB0, 0xEA, 0xB8, 0xB0],
      bytes_text [0xEB, 0xA1, 0x9C, 0xEC, 0xBB, 0xAC], ''local'', ''that'', ''it'', ''there'',
      bytes_text [0xEC, 0x9D, 0xB4, 0xEC, 0x96, 0xB4], bytes_text [0xEA, 0xB3, 0x84, 0xEC, 0x86, 0x8D]]"

definition looks_like_short_follow_up :: "string \<Rightarrow> bool" where
  "looks_like_short_follow_up query =
     (let q = map to_lower (trim query)
      in if q = [] then False
         else length (split_whitespace q) \<le> 5 \<or> list_ex (str_contains q) follow_up_markers)"

record scoring =
  sc_rank :: "string \<Rightarrow> memory_row \<Rightarrow> rat option"
  sc_similarity :: "string \<Rightarrow> string \<Rightarrow> rat"
  sc_recency_short :: "nat \<Rightarrow> rat"
  sc_recency_long :: "string \<Rightarrow> rat"
  sc_weigh :: "rat \<Rightarrow> rat \<Rightarrow> rat \<Rightarrow> rat"

definition short_hit :: "scoring \<Rightarrow> bool \<Rightarrow> nat \<Rightarrow> string \<Rightarrow> string \<Rightarrow> string \<Rightarrow> short_term_item \<Rightarrow> memory_hit option" where
  "short_hit sc follow_up now uid stamp query i =
     (let recency = sc_recency_short sc (now - si_inserted i);
          similarity = sc_similarity sc (si_content i) query
      in if similarity > 0 \<or> follow_up \<and> recency > 2 / 5 then
           Some \<lparr>mh_id = ''short:'' @ uid, mh_content = si_content i, mh_importance = si_importance i,
             mh_created = stamp, mh_score = sc_weigh sc recency (si_importance i) similarity\<rparr>
         else None)"

definition rescore :: "scoring \<Rightarrow> string \<Rightarrow> memory_hit \<Rightarrow> memory_hit" where
  "rescore sc query h = h\<lparr>mh_score :=
     sc_weigh sc (sc_recency_long sc (mh_created h)) (mh_importance h) (sc_similarity sc (mh_content h) query)\<rparr>"

definition hit_of_item :: "session_memory_item \<Rightarrow> memory_hit" where
  "hit_of_item i = \<lparr>mh_id = sm_id i, mh_content = sm_content i, mh_importance = sm_importance i,
     mh_created = sm_created i, mh_score = 0\<rparr>"

definition long_hits :: "scoring \<Rightarrow> string \<Rightarrow> string \<Rightarrow> nat \<Rightarrow> memory_manager \<Rightarrow> memory_hit list" where
  "long_hits sc sid query limit m =
     (let hits = db_search_memory (sc_rank sc) sid query (limit * 2) (mm_db m)
      in if hits = [] \<and> looks_like_short_follow_up query then
           map hit_of_item (db_list_session_memory_items sid None (limit * 3) (mm_db m))
         else hits)"

text \<open>\<open>uid\<close> gives the fresh identifier of a hit from its item.\<close>

definition mm_retrieve ::
    "scoring \<Rightarrow> nat \<Rightarrow> string \<Rightarrow> (short_term_item \<Rightarrow> string) \<Rightarrow> string \<Rightarrow> string \<Rightarrow> nat \<Rightarrow> memory_manager
      \<Rightarrow> memory_hit list \<times> memory_manager" where
  "mm_retrieve sc now stamp uid sid query limit m =
     (let follow_up = looks_like_short_follow_up query;
          long = long_hits sc sid query limit m;
          m' = m\<lparr>mm_short := hm_modify (mm_short m) sid (filter (live now))\<rparr>;
          items = (case hm_get (mm_short m') sid of None \<Rightarrow> [] | Some is \<Rightarrow> is);
          short = List.map_filter (\<lambda>i. short_hit sc follow_up now (uid i) stamp query i) items;
          hits = short @ map (rescore sc query) long
      in (take limit (order_desc mh_score hits), m'))"

end
