(* ===== verification/Memory_Properties.thy ===== *)
theory Memory_Properties
  imports Memory
begin

text \<open>
  Theorems about the memory manager: embeddings and session logs are read back, sweeping is
  unobservable, retrieval is sound, and the memories of personas are separate up to wildcards
  in their names.
\<close>

section \<open>Embeddings and logs\<close>

lemma f32_bytes_roundtrip: "f32_of_bytes (ucast w) (ucast (drop_bit 8 w)) (ucast (drop_bit 16 w)) (ucast (drop_bit 24 w)) = w"
  for w :: u32
  unfolding f32_of_bytes_def
proof (rule bit_word_eqI)
  fix n assume "n < LENGTH(32)"
  consider "n < 8" | "8 \<le> n" "n < 16" | "16 \<le> n" "n < 24" | "24 \<le> n" by linarith
  then show "bit (ucast (ucast w :: u8) OR push_bit 8 (ucast (ucast (drop_bit 8 w) :: u8))
      OR push_bit 16 (ucast (ucast (drop_bit 16 w) :: u8))
      OR push_bit 24 (ucast (ucast (drop_bit 24 w) :: u8)) :: u32) n = bit w n"
    using \<open>n < LENGTH(32)\<close> by cases (auto simp: bit_simps)
qed

lemma embedding_roundtrip: "decode_embedding (encode_embedding v) = v"
  by (induction v) (simp_all add: encode_embedding_def f32_bytes_def f32_bytes_roundtrip)

text \<open>The documented behaviour of \<^verbatim>\<open>serde_json\<close>: an object on one line, read back as one value.\<close>

definition log_crate_ok :: "log_crate \<Rightarrow> bool" where
  "log_crate_ok lc \<longleftrightarrow> (\<forall>e. newline \<notin> set (sl_encode lc e) \<and> sl_encode lc e \<noteq> []
     \<and> hd (sl_encode lc e) = CHR 0x7B \<and> last (sl_encode lc e) = CHR 0x7D
     \<and> sl_stream lc (sl_encode lc e) = ([e], False))"

lemma encoded_line:
  assumes "log_crate_ok lc"
  shows "trim (sl_encode lc e) = sl_encode lc e" "strip_return (sl_encode lc e) = sl_encode lc e"
    "sl_encode lc e \<noteq> []" "newline \<notin> set (sl_encode lc e)" "sl_stream lc (sl_encode lc e) = ([e], False)"
proof -
  from assms have *: "newline \<notin> set (sl_encode lc e)" "sl_encode lc e \<noteq> []"
    "hd (sl_encode lc e) = CHR 0x7B" "last (sl_encode lc e) = CHR 0x7D"
    "sl_stream lc (sl_encode lc e) = ([e], False)"
    by (auto simp: log_crate_ok_def)
  then show "trim (sl_encode lc e) = sl_encode lc e" by (intro trim_solid) (simp_all add: is_space_def)
  from * show "strip_return (sl_encode lc e) = sl_encode lc e" by (simp add: strip_return_def)
  from * show "sl_encode lc e \<noteq> []" "newline \<notin> set (sl_encode lc e)"
    "sl_stream lc (sl_encode lc e) = ([e], False)" by blast+
qed

definition log_text :: "log_crate \<Rightarrow> session_event list \<Rightarrow> string" where
  "log_text lc es = concat (map (\<lambda>e. sl_encode lc e @ [newline]) es)"

lemma log_appends:
  "hm_get logs sid = Some (log_text lc es) \<Longrightarrow>
   hm_get (fold (log_append lc sid) fs logs) sid = Some (log_text lc (es @ fs))"
proof (induction fs arbitrary: logs es)
  case (Cons f fs)
  have "hm_get (log_append lc sid f logs) sid = Some (log_text lc (es @ [f]))"
    using Cons.prems by (simp add: log_append_def hm_simps log_text_def)
  from Cons.IH [OF this] show ?case by simp
qed simp

lemma split_log: "log_crate_ok lc \<Longrightarrow> split_at newline (log_text lc es) = map (sl_encode lc) es @ [[]]"
  by (induction es) (simp_all add: log_text_def split_at_append encoded_line)

lemma replay_encoded:
  "log_crate_ok lc \<Longrightarrow> replay_lines lc n (map (sl_encode lc) es) = Inr (zip [n..<n + length es] es)"
proof (induction es arbitrary: n)
  case (Cons e es)
  have "[n..<n + length (e # es)] = n # [Suc n..<Suc n + length es]" by (subst upt_conv_Cons) simp_all
  with Cons show ?case by (simp add: encoded_line Let_def del: upt_Suc)
qed simp

text \<open>
  A session log is replayed as the events that were appended, in order, each with the
  number of its line.
\<close>

theorem session_log_roundtrip:
  assumes "log_crate_ok lc" and "hm_get logs sid = None" and "es \<noteq> []"
  shows "log_replay lc sid (fold (log_append lc sid) es logs) = Inr (zip [1..<1 + length es] es)"
proof -
  obtain f fs where es: "es = f # fs" using assms(3) by (meson neq_Nil_conv)
  have "hm_get (log_append lc sid f logs) sid = Some (log_text lc [f])"
    using assms(2) by (simp add: log_append_def hm_simps log_text_def)
  then have "hm_get (fold (log_append lc sid) es logs) sid = Some (log_text lc es)"
    using log_appends [of "log_append lc sid f logs" sid lc "[f]" fs] by (simp add: es)
  moreover have "lines (log_text lc es) = map (sl_encode lc) es"
    using assms(1) by (simp add: lines_def split_log Let_def encoded_line cong: map_cong)
  ultimately show ?thesis
    using replay_encoded [OF assms(1), of 1 es] by (simp add: log_replay_def del: upt_Suc)
qed

text \<open>A lawful format: an event as a run of ones between braces.\<close>

instance session_event_type :: countable by countable_datatype

definition event_code :: "session_event \<Rightarrow> nat" where
  "event_code e = to_nat (sv_session e, sv_run e, sv_type e, sv_timestamp e, sv_payload e)"

lemma inj_event_code: "inj event_code"
  by (rule injI) (simp add: event_code_def)

definition ones_crate :: log_crate where
  "ones_crate = \<lparr>sl_encode = \<lambda>e. CHR 0x7B # replicate (event_code e) CHR 0x31 @ [CHR 0x7D],
     sl_stream = \<lambda>s. ([inv event_code (length s - 2)], False)\<rparr>"

lemma ones_crate_ok: "log_crate_ok ones_crate"
  by (simp add: log_crate_ok_def ones_crate_def newline_def inj_event_code)

theorem session_log_roundtrip_witness:
  "let e = \<lparr>sv_session = ''s'', sv_run = Some ''r'', sv_type = UserMessage, sv_timestamp = ''t'', sv_payload = ''p''\<rparr>
   in log_replay ones_crate ''s'' (fold (log_append ones_crate ''s'') [e, e\<lparr>sv_type := RunFailed\<rparr>] [])
        = Inr [(1, e), (2, e\<lparr>sv_type := RunFailed\<rparr>)]"
  unfolding Let_def by (subst session_log_roundtrip) (simp_all add: ones_crate_ok hm_get_def)

section \<open>Sweeping\<close>

lemma live_later: "now \<le> now' \<Longrightarrow> filter (live now') (filter (live now) is) = filter (live now') is"
  by (auto simp: live_def intro!: filter_cong)

lemma get_remove_all:
  "hm_get (fold (\<lambda>k m. hm_remove m k) ks m) k = (if k \<in> set ks then None else hm_get m k)"
  by (induction ks arbitrary: m) (auto simp: hm_simps)

lemma get_map_values: "hm_get (map (\<lambda>(k, v). (k, f v)) m) k = map_option f (hm_get m k)"
  by (induction m) (auto simp: hm_get_def)

text \<open>After a sweep a session has its live items, and no entry when it has none.\<close>

lemma gc_items:
  assumes "hm_wf (mm_short m)"
  shows "hm_get (mm_short (snd (mm_gc_short_term now m))) sid =
    (case hm_get (mm_short m) sid of None \<Rightarrow> None
       | Some is \<Rightarrow> if filter (live now) is = [] then None else Some (filter (live now) is))"
proof -
  let ?swept = "map (\<lambda>(sid, is). (sid, filter (live now) is)) (mm_short m)"
  have "hm_wf ?swept"
    using assms by (simp add: hm_wf_def hm_keys_def comp_def split_def)
  then have "sid \<in> fst ` {x \<in> set ?swept. (\<lambda>(sid, is). is = []) x} \<longleftrightarrow> hm_get ?swept sid = Some []"
    by (force simp: hm_get_iff_mem)
  then show ?thesis
    by (auto simp: mm_gc_short_term_def Let_def get_remove_all get_map_values split: option.split)
qed

text \<open>
  A sweep is unobservable: under a clock that does not go back, a retrieval answers the
  same with and without a sweep before it.
\<close>

theorem gc_unobservable:
  assumes "hm_wf (mm_short m)" and "now \<le> now'"
  shows "fst (mm_retrieve sc now' stamp uid sid query limit (snd (mm_gc_short_term now m))) =
    fst (mm_retrieve sc now' stamp uid sid query limit m)"
proof -
  let ?g = "snd (mm_gc_short_term now m)"
  have "mm_db ?g = mm_db m" by (simp add: mm_gc_short_term_def Let_def)
  then have "long_hits sc sid query limit ?g = long_hits sc sid query limit m"
    by (simp add: long_hits_def Let_def)
  moreover have "case_option [] (\<lambda>is. is) (hm_get (hm_modify (mm_short ?g) sid (filter (live now'))) sid) =
      case_option [] (\<lambda>is. is) (hm_get (hm_modify (mm_short m) sid (filter (live now'))) sid)"
  proof (cases "hm_get (mm_short m) sid")
    case (Some xs)
    have "filter (live now') xs = []" if "filter (live now) xs = []"
      using live_later [OF assms(2), of xs] that by simp
    then show ?thesis
      using Some live_later [OF assms(2), of xs] by (simp add: hm_simps gc_items [OF assms(1)])
  qed (simp add: hm_simps gc_items [OF assms(1)])
  ultimately show ?thesis by (simp add: mm_retrieve_def Let_def)
qed

definition forgetful :: memory_manager where
  "forgetful = mm_remember_short 10 ''s'' ''kept'' 1 100 (mm_remember_short 0 ''s'' ''old'' 1 5
     \<lparr>mm_db = empty_db, mm_logs = [], mm_short = []\<rparr>)"

definition flat_scoring :: scoring where
  "flat_scoring = \<lparr>sc_rank = \<lambda>q r. None, sc_similarity = \<lambda>s t. 1, sc_recency_short = \<lambda>n. 1,
     sc_recency_long = \<lambda>t. 1, sc_weigh = \<lambda>a b c. a\<rparr>"

lemma forgetful_short:
  "mm_short forgetful = [(''s'', [\<lparr>si_content = ''old'', si_importance = 1, si_inserted = 0, si_expires = 5\<rparr>,
     \<lparr>si_content = ''kept'', si_importance = 1, si_inserted = 10, si_expires = 110\<rparr>])]"
  by (simp add: forgetful_def mm_remember_short_def hm_insert_def hm_get_def)

theorem gc_unobservable_witness:
  "fst (mm_retrieve flat_scoring 60 ''t'' si_content ''s'' ''anything'' 5 (snd (mm_gc_short_term 50 forgetful))) =
     fst (mm_retrieve flat_scoring 60 ''t'' si_content ''s'' ''anything'' 5 forgetful)
   \<and> fst (mm_gc_short_term 50 forgetful) = (1, 0)"
proof
  have "hm_wf (mm_short forgetful)" by (simp add: forgetful_short hm_wf_def hm_keys_def)
  from gc_unobservable [OF this, of 50 60]
  show "fst (mm_retrieve flat_scoring 60 ''t'' si_content ''s'' ''anything'' 5 (snd (mm_gc_short_term 50 forgetful))) =
     fst (mm_retrieve flat_scoring 60 ''t'' si_content ''s'' ''anything'' 5 forgetful)" by simp
  show "fst (mm_gc_short_term 50 forgetful) = (1, 0)"
    by (simp add: mm_gc_short_term_def forgetful_short live_def)
qed

section \<open>Retrieval\<close>

lemma set_map_filter: "set (List.map_filter f xs) = {y. \<exists>x \<in> set xs. f x = Some y}"
  by (force simp: List.map_filter_def)

lemma long_hits_rows:
  "h \<in> set (long_hits sc sid query limit m) \<Longrightarrow>
   \<exists>r \<in> set (t_memory (mm_db m)). mi_session r = sid \<and> mh_id h = mi_id r \<and> mh_content h = mi_content r"
  by (auto simp: long_hits_def db_search_memory_def db_list_session_memory_items_def Let_def hit_of_item_def
      memory_item_of_def sql_simps set_map_filter dest!: in_set_takeD split: if_splits option.splits) blast+

text \<open>
  A retrieval answers at most as many hits as asked for, best first; each is a short-term
  item of the session that has not expired, or a stored item of the session, and expired items
  are gone afterwards.
\<close>

theorem retrieve_sound:
  assumes "mm_retrieve sc now stamp uid sid query limit m = (hits, m')"
  shows "length hits \<le> limit \<and> sorted_wrt (\<ge>) (map mh_score hits)
    \<and> (\<forall>h \<in> set hits.
         (\<exists>is i. hm_get (mm_short m) sid = Some is \<and> i \<in> set is \<and> now < si_expires i
            \<and> mh_content h = si_content i)
       \<or> (\<exists>r \<in> set (t_memory (mm_db m)). mi_session r = sid \<and> mh_id h = mi_id r \<and> mh_content h = mi_content r))
    \<and> (\<forall>is i. hm_get (mm_short m') sid = Some is \<longrightarrow> i \<in> set is \<longrightarrow> now < si_expires i)"
proof -
  let ?items = "case hm_get (hm_modify (mm_short m) sid (filter (live now))) sid of None \<Rightarrow> [] | Some is \<Rightarrow> is"
  let ?short = "List.map_filter (\<lambda>i. short_hit sc (looks_like_short_follow_up query) now (uid i) stamp query i) ?items"
  let ?all = "?short @ map (rescore sc query) (long_hits sc sid query limit m)"
  have hits: "hits = take limit (order_desc mh_score ?all)"
    and m': "m' = m\<lparr>mm_short := hm_modify (mm_short m) sid (filter (live now))\<rparr>"
    using assms by (auto simp: mm_retrieve_def Let_def)
  have "sorted_wrt (\<ge>) (map mh_score hits)"
    unfolding hits take_map [symmetric] by (rule sorted_wrt_take) (rule sorted_order_desc)
  moreover have "\<exists>is i. hm_get (mm_short m) sid = Some is \<and> i \<in> set is \<and> now < si_expires i \<and> mh_content h = si_content i"
    if "h \<in> set ?short" for h
    using that by (cases "hm_get (mm_short m) sid") (auto simp: set_map_filter short_hit_def hm_simps live_def Let_def split: option.splits if_splits)
  moreover have "\<exists>r \<in> set (t_memory (mm_db m)). mi_session r = sid \<and> mh_id h = mi_id r \<and> mh_content h = mi_content r"
    if "h \<in> set (map (rescore sc query) (long_hits sc sid query limit m))" for h
    using that by (auto simp: rescore_def dest!: long_hits_rows)
  moreover have "h \<in> set ?short \<or> h \<in> set (map (rescore sc query) (long_hits sc sid query limit m))"
    if "h \<in> set hits" for h
    using that in_set_takeD [of h limit] by (auto simp: hits sql_simps dest!: in_set_takeD)
  moreover have "length hits \<le> limit" by (simp add: hits)
  moreover have "\<forall>is i. hm_get (mm_short m') sid = Some is \<longrightarrow> i \<in> set is \<longrightarrow> now < si_expires i"
    by (auto simp: m' hm_simps live_def)
  ultimately show ?thesis by blast
qed

theorem retrieve_sound_witness:
  "length (fst (mm_retrieve flat_scoring 60 ''t'' si_content ''s'' ''anything'' 5 forgetful)) \<le> 5
   \<and> map mh_content (fst (mm_retrieve flat_scoring 60 ''t'' si_content ''s'' ''anything'' 5 forgetful)) = [''kept'']"
proof
  let ?r = "mm_retrieve flat_scoring 60 ''t'' si_content ''s'' ''anything'' 5 forgetful"
  show "length (fst ?r) \<le> 5"
    using retrieve_sound [of flat_scoring 60 "''t''" si_content "''s''" "''anything''" 5 forgetful "fst ?r" "snd ?r"]
    by simp
  have "mm_db forgetful = empty_db" by (simp add: forgetful_def mm_remember_short_def)
  then have "long_hits flat_scoring ''s'' ''anything'' 5 forgetful = []"
    by (simp add: long_hits_def db_search_memory_def db_list_session_memory_items_def empty_db_def Let_def
        order_desc_def List.map_filter_def)
  then show "map mh_content (fst ?r) = [''kept'']"
    by (simp add: mm_retrieve_def Let_def forgetful_short hm_modify_def hm_get_def hm_insert_def live_def
        List.map_filter_def short_hit_def flat_scoring_def order_desc_def)
qed

section \<open>Namespaces\<close>

lemma colon_lower [simp]: "to_lower c = CHR '':'' \<longleftrightarrow> c = CHR '':''"
proof
  assume l: "to_lower c = CHR '':''"
  show "c = CHR '':''"
  proof (rule ccontr)
    assume "c \<noteq> CHR '':''"
    with l have up: "65 \<le> (of_char c :: nat)" "(of_char c :: nat) \<le> 90" and eq: "char_of (of_char c + 32 :: nat) = CHR '':''"
      by (auto simp: to_lower_def split: if_splits)
    from eq have "(of_char (char_of (of_char c + 32 :: nat)) :: nat) = of_char CHR '':''" by simp
    with up show False by simp
  qed
qed (simp add: to_lower_def)

lemma colon_lower_sym [simp]: "CHR '':'' = to_lower c \<longleftrightarrow> c = CHR '':''"
  using colon_lower [of c] by metis

lemma lower_colon [simp]: "to_lower CHR '':'' = CHR '':''"
  by simp

lemma before_colon:
  assumes "a @ CHR '':'' # x = b @ CHR '':'' # y" and "CHR '':'' \<notin> set a" and "CHR '':'' \<notin> set b"
  shows "a = b"
proof -
  have "takeWhile (\<lambda>c. c \<noteq> CHR '':'') (a @ CHR '':'' # x) = a"
    "takeWhile (\<lambda>c. c \<noteq> CHR '':'') (b @ CHR '':'' # y) = b"
    using assms(2,3) by (auto simp: takeWhile_append)
  with assms(1) show ?thesis by simp
qed

lemma colon_map: "CHR '':'' \<notin> set s \<Longrightarrow> CHR '':'' \<notin> set (map to_lower s)"
  by auto

lemma scope_listed:
  assumes "i \<in> set (t_memory (mm_db m))" and "length (t_memory (mm_db m)) \<le> limit"
  shows "memory_item_of [] i \<in> set (list_persona_memory who limit m) \<longleftrightarrow>
    sql_like (persona_prefix who @ ''%'') (mi_scope i)"
proof -
  let ?p = "\<lambda>j. sql_like (persona_prefix who @ ''%'') (mi_scope j)"
  have short: "take limit (order_desc mi_updated (filter ?p (t_memory (mm_db m)))) =
      order_desc mi_updated (filter ?p (t_memory (mm_db m)))"
    using assms(2) order.trans [OF length_filter_le] by (intro take_all) (simp add: sql_simps)
  have listed: "set (list_persona_memory who limit m) = memory_item_of [] ` {j \<in> set (t_memory (mm_db m)). ?p j}"
    by (simp add: list_persona_memory_def db_list_memory_by_scope_prefix_def short sql_simps)
  show ?thesis
  proof
    assume "memory_item_of [] i \<in> set (list_persona_memory who limit m)"
    then obtain j where "?p j" "memory_item_of [] i = memory_item_of [] j"
      unfolding listed by blast
    then show "?p i" by (simp add: memory_item_of_def)
  qed (use assms(1) in \<open>simp add: listed\<close>)
qed

text \<open>
  The private memory of a persona whose name has no wildcard and no colon is separate: it
  lists no item of another persona without a colon in the name, unless the names differ in the
  case of letters only; and it lists every item of its own.
\<close>

theorem persona_memory_separate:
  assumes "plain_pattern who" and "CHR '':'' \<notin> set who" and "CHR '':'' \<notin> set other"
    and "length (t_memory (mm_db m)) \<le> limit"
    and i: "i \<in> set (t_memory (mm_db m))" "mi_scope i = persona_scope other topic"
  shows "memory_item_of [] i \<in> set (list_persona_memory who limit m)
    \<longleftrightarrow> map to_lower who = map to_lower other"
proof -
  have plain: "plain_pattern (persona_prefix who)"
    using assms(1) by (simp add: plain_pattern_def persona_prefix_def)
  let ?n = "length (persona_prefix who)" and ?s = "persona_scope other topic"
  have "map to_lower who = map to_lower other" if "map to_lower (take ?n ?s) = map to_lower (persona_prefix who)"
  proof -
    have "map to_lower ?s = map to_lower (take ?n ?s) @ map to_lower (drop ?n ?s)"
      by (simp flip: map_append)
    then have "map to_lower other @ CHR '':'' # map to_lower topic =
        map to_lower who @ CHR '':'' # map to_lower (drop ?n ?s)"
      unfolding that by (simp add: persona_prefix_def persona_scope_def)
    then show ?thesis
      by (rule before_colon [symmetric]) (rule colon_map, rule assms)+
  qed
  moreover have "?n \<le> length ?s \<and> map to_lower (take ?n ?s) = map to_lower (persona_prefix who)"
    if eq: "map to_lower who = map to_lower other"
  proof -
    have "length who = length other" using eq by (metis length_map)
    then have "take ?n ?s = persona_prefix other" "?n \<le> length ?s"
      by (simp_all add: persona_prefix_def persona_scope_def)
    with eq show ?thesis by (simp add: persona_prefix_def)
  qed
  ultimately have "sql_like (persona_prefix who @ ''%'') ?s \<longleftrightarrow> map to_lower who = map to_lower other"
    unfolding sql_like_plain_prefix [OF plain] by blast
  moreover have "memory_item_of [] i \<in> set (list_persona_memory who limit m) \<longleftrightarrow>
      sql_like (persona_prefix who @ ''%'') (mi_scope i)"
    using i(1) assms(4) by (rule scope_listed)
  ultimately show ?thesis by (simp add: i(2))
qed

text \<open>A name with an underscore lists the memory of the names it matches as a pattern.\<close>

lemma persona_memory_leak:
  "sql_like (persona_prefix ''dev_1'' @ ''%'') (persona_scope ''devs1'' topic)"
  by (simp add: persona_prefix_def persona_scope_def to_lower_def)

definition leaky :: memory_manager where
  "leaky = \<lparr>mm_db = empty_db\<lparr>t_memory := [\<lparr>mi_id = ''m'', mi_session = ''s'', mi_content = ''secret'',
     mi_importance = 1, mi_scope = persona_scope ''devs1'' ''notes'', mi_created = ''t'', mi_updated = ''t'',
     mi_embedding = None\<rparr>]\<rparr>, mm_logs = [], mm_short = []\<rparr>"

theorem persona_memory_separate_witness:
  "list_all (\<lambda>i. memory_item_of [] i \<notin> set (list_persona_memory ''ann'' 5 leaky)
     \<and> memory_item_of [] i \<in> set (list_persona_memory ''dev_1'' 5 leaky)) (t_memory (mm_db leaky))"
proof -
  obtain i where i: "t_memory (mm_db leaky) = [i]" "mi_scope i = persona_scope ''devs1'' ''notes''"
    by (simp add: leaky_def)
  have "map to_lower ''ann'' \<noteq> map to_lower ''devs1''" by (simp add: to_lower_def)
  then have "memory_item_of [] i \<notin> set (list_persona_memory ''ann'' 5 leaky)"
    using persona_memory_separate [of "''ann''" "''devs1''" leaky 5 i "''notes''"] i
    by (simp add: plain_pattern_def)
  moreover have "memory_item_of [] i \<in> set (list_persona_memory ''dev_1'' 5 leaky)"
    using i scope_listed [of i leaky 5 "''dev_1''"] persona_memory_leak [of "''notes''"] by simp
  ultimately show ?thesis by (simp add: i)
qed

end
