(* ===== verification/Workspaces.thy ===== *)
theory Workspaces
  imports Store_Properties
begin

text \<open>
  Workspaces: the paths and files of \<^verbatim>\<open>src/workspace.rs\<close>, the directories of sessions of
  \<^verbatim>\<open>src/session_workspace.rs\<close>, and the operations of \<^verbatim>\<open>src/orchestrator/workspaces.rs\<close> that keep
  the rows of the store and the files together.

  A path is its text; the file system maps the components of a path, without \<^verbatim>\<open>.\<close>, to a
  directory or the bytes of a file (no symbolic links, \<^verbatim>\<open>..\<close> unresolved), and refuses what
  \<open>fs_denied\<close> says. Each operation is one step.
\<close>

section \<open>Paths\<close>

text \<open>\<^verbatim>\<open>Path::components\<close> on Unix: empty segments go, as do dots but for a leading one.\<close>

datatype path_component = RootDir | CurDir | ParentDir | Normal string

definition slash :: char where
  "slash = CHR ''/''"

definition is_absolute :: "string \<Rightarrow> bool" where
  "is_absolute p \<longleftrightarrow> (case p of [] \<Rightarrow> False | c # _ \<Rightarrow> c = slash)"

definition segment_component :: "string \<Rightarrow> path_component" where
  "segment_component s = (if s = ''..'' then ParentDir else Normal s)"

definition components :: "string \<Rightarrow> path_component list" where
  "components p =
     (let segs = split_at slash p
      in (if is_absolute p then [RootDir] else if hd segs = ''.'' then [CurDir] else []) @
         map segment_component (filter (\<lambda>s. s \<noteq> [] \<and> s \<noteq> ''.'') segs))"

definition path_join :: "string \<Rightarrow> string \<Rightarrow> string" where
  "path_join p q = (if is_absolute q then q
     else if p = [] \<or> last p = slash then p @ q else p @ [slash] @ q)"

definition plain_component :: "path_component \<Rightarrow> bool" where
  "plain_component c \<longleftrightarrow> (case c of Normal _ \<Rightarrow> True | CurDir \<Rightarrow> True | _ \<Rightarrow> False)"

definition validate_relative_subpath :: "string \<Rightarrow> string + string" where
  "validate_relative_subpath raw =
     (let t = trim raw
      in if t = [] then Inl ''path must not be empty''
         else if is_absolute t then Inl (''workspace paths must be relative: '' @ raw)
         else if \<not> list_all plain_component (components t)
         then Inl (''workspace paths must not contain parent traversal: '' @ raw)
         else Inr t)"

definition relative_path_normalized :: "string \<Rightarrow> string option" where
  "relative_path_normalized p =
     (if list_all plain_component (components p)
      then Some (join [slash] (List.map_filter (\<lambda>c. case c of Normal s \<Rightarrow> Some s | _ \<Rightarrow> None) (components p)))
      else None)"

text \<open>\<^verbatim>\<open>workspace_slug\<close>: a fold over the characters with the flag \<^verbatim>\<open>prev_underscore\<close>.\<close>

fun slug_loop :: "string \<Rightarrow> bool \<Rightarrow> string \<Rightarrow> string" where
  "slug_loop out prev [] = out"
| "slug_loop out prev (c # cs) =
     (if is_alnum c then slug_loop (out @ [to_lower c]) False cs
      else if \<not> prev \<and> out \<noteq> [] then slug_loop (out @ ''_'') True cs
      else slug_loop out prev cs)"

definition pop_underscores :: "string \<Rightarrow> string" where
  "pop_underscores s = rev (dropWhile (\<lambda>c. c = CHR ''_'') (rev s))"

definition workspace_slug :: "string \<Rightarrow> string" where
  "workspace_slug name =
     (let out = pop_underscores (slug_loop [] False name)
      in if out = [] then ''workspace'' else out)"

text \<open>\<open>home\<close> is the variable \<^verbatim>\<open>HOME\<close>.\<close>

definition default_workspaces_root :: "string option \<Rightarrow> string" where
  "default_workspaces_root home = (case home of
       Some h \<Rightarrow> if h \<noteq> [] then path_join (path_join h ''.cli-agent'') ''workspaces''
         else path_join ''.cli-agent'' ''workspaces''
     | None \<Rightarrow> path_join ''.cli-agent'' ''workspaces'')"

section \<open>The file system\<close>

datatype fs_entry = Dir | File "u8 list"

type_synonym fs_path = "path_component list"

record fs =
  fs_entries :: "(fs_path, fs_entry) hashmap"
  fs_denied :: "fs_path \<Rightarrow> bool"

definition resolve :: "string \<Rightarrow> fs_path" where
  "resolve p = filter (\<lambda>c. c \<noteq> CurDir) (components p)"

definition entry :: "fs_path \<Rightarrow> fs \<Rightarrow> fs_entry option" where
  "entry p F = hm_get (fs_entries F) p"

definition set_entry :: "fs_path \<Rightarrow> fs_entry \<Rightarrow> fs \<Rightarrow> fs" where
  "set_entry p e F = F\<lparr>fs_entries := hm_insert (fs_entries F) p e\<rparr>"

fun make_dirs :: "fs_path list \<Rightarrow> fs \<Rightarrow> (string + unit) \<times> fs" where
  "make_dirs [] F = (Inr (), F)"
| "make_dirs (p # ps) F = (case entry p F of
       Some Dir \<Rightarrow> make_dirs ps F
     | Some (File _) \<Rightarrow> (Inl ''Not a directory'', F)
     | None \<Rightarrow> if fs_denied F p then (Inl ''Permission denied'', F)
         else make_dirs ps (set_entry p Dir F))"

definition ancestors :: "fs_path \<Rightarrow> fs_path list" where
  "ancestors p = map (\<lambda>n. take (Suc n) p) [0..<length p]"

definition create_dir_all :: "fs_path \<Rightarrow> fs \<Rightarrow> (string + unit) \<times> fs" where
  "create_dir_all p F = make_dirs (ancestors p) F"

definition fs_write :: "fs_path \<Rightarrow> u8 list \<Rightarrow> fs \<Rightarrow> (string + unit) \<times> fs" where
  "fs_write p bytes F =
     (if entry p F = Some Dir \<or> p = [] then (Inl ''Is a directory'', F)
      else if fs_denied F p then (Inl ''Permission denied'', F)
      else (Inr (), set_entry p (File bytes) F))"

definition fs_read :: "fs_path \<Rightarrow> fs \<Rightarrow> string + u8 list" where
  "fs_read p F = (case entry p F of
       Some (File bytes) \<Rightarrow> Inr bytes
     | Some Dir \<Rightarrow> Inl ''Is a directory''
     | None \<Rightarrow> Inl ''No such file or directory'')"

text \<open>\<^verbatim>\<open>remove_file\<close> and \<^verbatim>\<open>remove_dir_all\<close> under the code's treatment of \<^verbatim>\<open>NotFound\<close>.\<close>

definition remove_file :: "fs_path \<Rightarrow> fs \<Rightarrow> (string + unit) \<times> fs" where
  "remove_file p F = (case entry p F of
       Some (File _) \<Rightarrow> if fs_denied F p then (Inl ''Permission denied'', F)
         else (Inr (), F\<lparr>fs_entries := hm_remove (fs_entries F) p\<rparr>)
     | Some Dir \<Rightarrow> (Inl ''Is a directory'', F)
     | None \<Rightarrow> (Inr (), F))"

definition below :: "fs_path \<Rightarrow> fs_path \<Rightarrow> bool" where
  "below dir p \<longleftrightarrow> take (length dir) p = dir"

definition remove_dir_all :: "fs_path \<Rightarrow> fs \<Rightarrow> (string + unit) \<times> fs" where
  "remove_dir_all p F = (case entry p F of
       Some (File _) \<Rightarrow> (Inl ''Not a directory'', F)
     | Some Dir \<Rightarrow> if fs_denied F p then (Inl ''Permission denied'', F)
         else (Inr (), F\<lparr>fs_entries := filter (\<lambda>(q, _). \<not> below p q) (fs_entries F)\<rparr>)
     | None \<Rightarrow> (Inr (), F))"

section \<open>The workspace manager\<close>

definition sessions_root :: "workspace \<Rightarrow> string" where
  "sessions_root w = path_join (ws_root w) ''sessions''"

definition files_dir :: "workspace \<Rightarrow> string" where
  "files_dir w = path_join (ws_root w) ''files''"

definition ws_session_dir :: "workspace \<Rightarrow> string \<Rightarrow> string" where
  "ws_session_dir w sid = path_join (sessions_root w) sid"

definition ensure_workspace_dir :: "workspace \<Rightarrow> fs \<Rightarrow> (string + unit) \<times> fs" where
  "ensure_workspace_dir w F = (case create_dir_all (resolve (ws_root w)) F of
       (Inl e, F) \<Rightarrow> (Inl (''create workspace root '' @ ws_root w), F)
     | (Inr _, F) \<Rightarrow>
         let F = snd (create_dir_all (resolve (sessions_root w)) F);
             F = snd (create_dir_all (resolve (files_dir w)) F)
         in (Inr (), F))"

definition ws_ensure_session_dir :: "workspace \<Rightarrow> string \<Rightarrow> fs \<Rightarrow> (string + string) \<times> fs" where
  "ws_ensure_session_dir w sid F = (case ensure_workspace_dir w F of
       (Inl e, F) \<Rightarrow> (Inl e, F)
     | (Inr _, F) \<Rightarrow> (case create_dir_all (resolve (ws_session_dir w sid)) F of
           (Inl e, F) \<Rightarrow> (Inl e, F)
         | (Inr _, F) \<Rightarrow> (Inr (ws_session_dir w sid), F)))"

definition delete_workspace_dir :: "workspace \<Rightarrow> fs \<Rightarrow> (string + unit) \<times> fs" where
  "delete_workspace_dir w F = remove_dir_all (resolve (ws_root w)) F"

definition resolve_file_path :: "workspace \<Rightarrow> string \<Rightarrow> string + string" where
  "resolve_file_path w rel = (case validate_relative_subpath rel of
       Inl e \<Rightarrow> Inl e
     | Inr p \<Rightarrow> Inr (path_join (files_dir w) p))"

definition write_file :: "workspace \<Rightarrow> string \<Rightarrow> u8 list \<Rightarrow> fs \<Rightarrow> (string + unit) \<times> fs" where
  "write_file w rel bytes F = (case ensure_workspace_dir w F of
       (Inl e, F) \<Rightarrow> (Inl e, F)
     | (Inr _, F) \<Rightarrow> (case resolve_file_path w rel of
           Inl e \<Rightarrow> (Inl e, F)
         | Inr target \<Rightarrow> (case create_dir_all (butlast (resolve target)) F of
               (Inl e, F) \<Rightarrow> (Inl e, F)
             | (Inr _, F) \<Rightarrow> fs_write (resolve target) bytes F)))"

definition read_file :: "workspace \<Rightarrow> string \<Rightarrow> fs \<Rightarrow> string + u8 list" where
  "read_file w rel F = (case resolve_file_path w rel of
       Inl e \<Rightarrow> Inl e
     | Inr target \<Rightarrow> fs_read (resolve target) F)"

definition delete_file :: "workspace \<Rightarrow> string \<Rightarrow> fs \<Rightarrow> (string + unit) \<times> fs" where
  "delete_file w rel F = (case resolve_file_path w rel of
       Inl e \<Rightarrow> (Inl e, F)
     | Inr target \<Rightarrow> remove_file (resolve target) F)"

section \<open>Directories of sessions\<close>

definition session_dir :: "string \<Rightarrow> string \<Rightarrow> string" where
  "session_dir dir0 sid = path_join dir0 sid"

definition ensure_session_dir :: "string \<Rightarrow> string \<Rightarrow> fs \<Rightarrow> (string + string) \<times> fs" where
  "ensure_session_dir dir0 sid F = (case create_dir_all (resolve (session_dir dir0 sid)) F of
       (Inl e, F) \<Rightarrow> (Inl e, F)
     | (Inr _, F) \<Rightarrow> (Inr (session_dir dir0 sid), F))"

definition validate_session_subpath :: "string \<Rightarrow> string + string" where
  "validate_session_subpath raw =
     (if is_absolute raw then Inl (''session-scoped paths must be relative: '' @ raw)
      else if \<not> list_all plain_component (components raw)
      then Inl (''session-scoped paths must not contain parent traversal: '' @ raw)
      else Inr raw)"

definition scoped_path :: "string \<Rightarrow> string option \<Rightarrow> string + string" where
  "scoped_path dir requested = (case requested of
       None \<Rightarrow> Inr dir
     | Some r \<Rightarrow> if trim r = [] then Inr dir
         else (case validate_session_subpath (trim r) of
             Inl e \<Rightarrow> Inl e
           | Inr p \<Rightarrow> Inr (path_join dir p)))"

definition ensure_scoped_dir ::
    "string \<Rightarrow> string \<Rightarrow> string option \<Rightarrow> fs \<Rightarrow> (string + string) \<times> fs" where
  "ensure_scoped_dir dir0 sid requested F = (case ensure_session_dir dir0 sid F of
       (Inl e, F) \<Rightarrow> (Inl e, F)
     | (Inr dir, F) \<Rightarrow> (case scoped_path dir requested of
           Inl e \<Rightarrow> (Inl e, F)
         | Inr scoped \<Rightarrow> (case create_dir_all (resolve scoped) F of
               (Inl e, F) \<Rightarrow> (Inl e, F)
             | (Inr _, F) \<Rightarrow> (Inr scoped, F))))"

definition delete_session_dir :: "string \<Rightarrow> string \<Rightarrow> fs \<Rightarrow> (string + unit) \<times> fs" where
  "delete_session_dir dir0 sid F = remove_dir_all (resolve (session_dir dir0 sid)) F"

section \<open>The operations of the orchestrator\<close>

text \<open>The rows, the files, and the root of new workspaces.\<close>

record workspaces =
  wo_db :: db
  wo_fs :: fs
  wo_root :: string

record create_workspace_args =
  ca_name :: string
  ca_kind :: workspace_kind
  ca_root :: "string option"
  ca_description :: "string option"

text \<open>The search for a free slug; \<open>n\<close> is \<^verbatim>\<open>counter\<close>, which stays below 101.\<close>

function free_slug :: "string \<Rightarrow> string \<Rightarrow> nat \<Rightarrow> db \<Rightarrow> string option" where
  "free_slug base slug n d =
     (if db_get_workspace_by_slug slug d = None then Some slug
      else if Suc n > 100 then None
      else free_slug base (base @ ''_'' @ show_nat n) (Suc n) d)"
  by auto
termination by (relation "measure (\<lambda>(base, slug, n, d). 101 - n)") auto

declare free_slug.simps [simp del]

definition insert_and_ensure :: "workspace \<Rightarrow> workspaces \<Rightarrow> (string + workspace) \<times> workspaces" where
  "insert_and_ensure w st = (case db_insert_workspace w (wo_db st) of
       Inl e \<Rightarrow> (Inl ''UNIQUE constraint failed'', st)
     | Inr d \<Rightarrow> (case ensure_workspace_dir w (wo_fs st) of
           (Inl e, F) \<Rightarrow> (Inl e, st\<lparr>wo_db := d, wo_fs := F\<rparr>)
         | (Inr _, F) \<Rightarrow> (Inr w, st\<lparr>wo_db := d, wo_fs := F\<rparr>)))"

definition chosen_root :: "string option \<Rightarrow> string \<Rightarrow> string \<Rightarrow> string" where
  "chosen_root requested top_dir slug = (case requested of
       Some p \<Rightarrow> if trim p \<noteq> [] then trim p else path_join top_dir slug
     | None \<Rightarrow> path_join top_dir slug)"

definition create_workspace ::
    "string \<Rightarrow> string \<Rightarrow> create_workspace_args \<Rightarrow> workspaces \<Rightarrow> (string + workspace) \<times> workspaces" where
  "create_workspace uid now args st =
     (let name = trim (ca_name args)
      in if name = [] then (Inl ''workspace name must not be empty'', st)
         else let base = workspace_slug name
           in (case free_slug base base 2 (wo_db st) of
                None \<Rightarrow> (Inl (''could not allocate unique workspace slug for '' @ name), st)
              | Some slug \<Rightarrow> insert_and_ensure \<lparr>ws_id = uid, ws_slug = slug, ws_name = name,
                  ws_kind = ca_kind args, ws_root = chosen_root (ca_root args) (wo_root st) slug,
                  ws_description = (case ca_description args of
                     Some s \<Rightarrow> if trim s \<noteq> [] then Some s else None | None \<Rightarrow> None),
                  ws_created = now, ws_updated = now\<rparr> st))"

definition delete_workspace :: "string \<Rightarrow> workspaces \<Rightarrow> workspaces" where
  "delete_workspace wid st =
     (let ws = db_get_workspace wid (wo_db st);
          st = st\<lparr>wo_db := db_delete_workspace wid (wo_db st)\<rparr>
      in (case ws of None \<Rightarrow> st
          | Some w \<Rightarrow> st\<lparr>wo_fs := snd (delete_workspace_dir w (wo_fs st))\<rparr>))"

definition read_workspace_file ::
    "string \<Rightarrow> string \<Rightarrow> workspaces \<Rightarrow> string + (workspace_file \<times> u8 list) option" where
  "read_workspace_file wid rel st = (case db_get_workspace wid (wo_db st) of
       None \<Rightarrow> Inr None
     | Some w \<Rightarrow> (case db_get_workspace_file wid rel (wo_db st) of
           None \<Rightarrow> Inr None
         | Some meta \<Rightarrow> (case read_file w rel (wo_fs st) of
               Inl e \<Rightarrow> Inl e
             | Inr bytes \<Rightarrow> Inr (Some (meta, bytes)))))"

text \<open>\<open>digest\<close> is \<^verbatim>\<open>sha2_like_digest\<close>, the default hasher of the standard library in hexadecimal.\<close>

definition uploaded_file ::
    "(u8 list \<Rightarrow> string) \<Rightarrow> string \<Rightarrow> string \<Rightarrow> string \<Rightarrow> string option \<Rightarrow> string \<Rightarrow> u8 list \<Rightarrow> string option
      \<Rightarrow> file_creator \<Rightarrow> string option \<Rightarrow> db \<Rightarrow> workspace_file" where
  "uploaded_file digest uid now wid sid stored bytes mime by who d =
     (let existing = db_get_workspace_file wid stored d
      in \<lparr>wf_file_id = (case existing of Some f \<Rightarrow> wf_file_id f | None \<Rightarrow> uid), wf_workspace = wid,
          wf_session = sid, wf_path = stored, wf_size = length bytes, wf_mime = mime,
          wf_sha256 = Some (digest bytes), wf_created_by = by, wf_persona = who,
          wf_file_created = (case existing of Some f \<Rightarrow> wf_file_created f | None \<Rightarrow> now),
          wf_file_updated = now\<rparr>)"

definition upload_workspace_file ::
    "(u8 list \<Rightarrow> string) \<Rightarrow> string \<Rightarrow> string \<Rightarrow> string \<Rightarrow> string \<Rightarrow> string option \<Rightarrow> u8 list \<Rightarrow> string option
      \<Rightarrow> file_creator \<Rightarrow> string option \<Rightarrow> workspaces \<Rightarrow> (string + workspace_file) \<times> workspaces" where
  "upload_workspace_file digest uid now wid rel sid bytes mime by who st =
     (case db_get_workspace wid (wo_db st) of
        None \<Rightarrow> (Inl ''workspace not found'', st)
      | Some w \<Rightarrow> (case validate_relative_subpath rel of
            Inl e \<Rightarrow> (Inl e, st)
          | Inr normalized \<Rightarrow> (case relative_path_normalized normalized of
                None \<Rightarrow> (Inl ''invalid relative path'', st)
              | Some stored \<Rightarrow> (case write_file w stored bytes (wo_fs st) of
                    (Inl e, F) \<Rightarrow> (Inl e, st\<lparr>wo_fs := F\<rparr>)
                  | (Inr _, F) \<Rightarrow>
                      let st = st\<lparr>wo_fs := F\<rparr>;
                          f = uploaded_file digest uid now wid sid stored bytes mime by who (wo_db st)
                      in (case db_upsert_workspace_file f (wo_db st) of
                            Inl e \<Rightarrow> (Inl ''constraint failed'', st)
                          | Inr d \<Rightarrow> (Inr f, st\<lparr>wo_db := d\<rparr>))))))"

definition delete_workspace_file :: "string \<Rightarrow> string \<Rightarrow> workspaces \<Rightarrow> bool \<times> workspaces" where
  "delete_workspace_file wid rel st = (case db_get_workspace wid (wo_db st) of
       None \<Rightarrow> (False, st)
     | Some w \<Rightarrow> (case db_delete_workspace_file wid rel (wo_db st) of
           (removed, d) \<Rightarrow>
             let st = st\<lparr>wo_db := d\<rparr>
             in (removed, if removed then st\<lparr>wo_fs := snd (delete_file w rel (wo_fs st))\<rparr> else st)))"

definition ensure_default_workspace ::
    "string \<Rightarrow> string \<Rightarrow> workspaces \<Rightarrow> (string + workspace) \<times> workspaces" where
  "ensure_default_workspace uid now st = (case db_get_workspace_by_slug ''default'' (wo_db st) of
       Some w \<Rightarrow> (case ensure_workspace_dir w (wo_fs st) of
           (Inl e, F) \<Rightarrow> (Inl e, st\<lparr>wo_fs := F\<rparr>)
         | (Inr _, F) \<Rightarrow> (Inr w, st\<lparr>wo_fs := F\<rparr>))
     | None \<Rightarrow> insert_and_ensure \<lparr>ws_id = uid, ws_slug = ''default'', ws_name = ''Default'',
         ws_kind = WK_General, ws_root = path_join (wo_root st) ''default'',
         ws_description = Some ''Auto-created default workspace'',
         ws_created = now, ws_updated = now\<rparr> st)"

end
