(* ===== verification/Workspace_Properties.thy ===== *)
theory Workspace_Properties
  imports Workspaces
begin

text \<open>
  Theorems about workspaces: accepted paths stay below their directory, and so does every file
  an operation touches; the files of a workspace are a map from paths to contents, which an
  upload and a read agree on; slugs are unique and plain; directories of sessions are disjoint.
\<close>

section \<open>Components of a path\<close>

definition names :: "string \<Rightarrow> string list" where
  "names p = filter (\<lambda>s. s \<noteq> [] \<and> s \<noteq> ''.'') (split_at slash p)"

lemma split_at_nonempty [simp]: "split_at sep s \<noteq> []"
  by (induction s) (auto split: list.split)

lemma split_at_join: "split_at sep (s @ sep # t) = split_at sep s @ split_at sep t"
  by (induction s) (auto split: list.split)

lemma names_join: "names (p @ slash # q) = names p @ names q"
  by (simp add: names_def split_at_join)

lemma names_Nil [simp]: "names [] = []"
  by (simp add: names_def)

lemma names_slash [simp]: "names (p @ [slash]) = names p"
  using names_join [of p "[]"] by simp

lemma absolute_hd: "is_absolute p \<Longrightarrow> hd (split_at slash p) = []"
  by (cases p) (auto simp: is_absolute_def)

lemma components_eq: "components p =
    (if is_absolute p then [RootDir] else if hd (split_at slash p) = ''.'' then [CurDir] else [])
      @ map segment_component (names p)"
  by (simp add: components_def names_def Let_def)

lemma segment_component_simps [simp]:
  "segment_component s \<noteq> CurDir" "segment_component s \<noteq> RootDir"
  "segment_component s = ParentDir \<longleftrightarrow> s = ''..''" "segment_component s = Normal n \<longleftrightarrow> s = n \<and> s \<noteq> ''..''"
  by (auto simp: segment_component_def)

lemma resolve_eq: "resolve p = (if is_absolute p then [RootDir] else []) @ map segment_component (names p)"
  by (auto simp: resolve_def components_eq filter_id_conv)

lemma is_absolute_append [simp]: "p \<noteq> [] \<Longrightarrow> is_absolute (p @ q) = is_absolute p"
  by (cases p) (simp_all add: is_absolute_def)

lemma not_absolute_Nil [simp]: "\<not> is_absolute []"
  by (simp add: is_absolute_def)

lemma resolve_join:
  assumes "\<not> is_absolute q"
  shows "resolve (path_join p q) = resolve p @ resolve q"
proof -
  consider "p = []" | p' where "p = p' @ [slash]" | "p \<noteq> []" "last p \<noteq> slash"
    by (cases p rule: rev_cases) auto
  then show ?thesis
  proof cases
    case 1
    with assms show ?thesis by (simp add: path_join_def resolve_eq)
  next
    case 2
    then have "path_join p q = p' @ slash # q" "is_absolute p = is_absolute (p' @ slash # q)"
      using assms by (simp add: path_join_def, cases p') (simp_all add: is_absolute_def)
    with 2 assms show ?thesis by (simp add: resolve_eq names_join)
  next
    case 3
    then have "path_join p q = p @ slash # q" using assms by (simp add: path_join_def)
    with 3 assms show ?thesis by (simp add: resolve_eq names_join)
  qed
qed

lemma plain_components_iff:
  "list_all plain_component (components p) \<longleftrightarrow> \<not> is_absolute p \<and> ''..'' \<notin> set (split_at slash p)"
  by (auto simp: components_eq plain_component_def list_all_iff names_def segment_component_def)

lemma resolve_plain:
  "\<not> is_absolute p \<Longrightarrow> ''..'' \<notin> set (split_at slash p) \<Longrightarrow> resolve p = map Normal (names p)"
  by (auto simp: resolve_eq names_def segment_component_def)

lemma validate_cases:
  "validate_relative_subpath raw = Inr t \<longleftrightarrow>
     t = trim raw \<and> t \<noteq> [] \<and> \<not> is_absolute t \<and> ''..'' \<notin> set (split_at slash t)"
  by (auto simp: validate_relative_subpath_def Let_def plain_components_iff)

lemma validate_isl:
  "isl (validate_relative_subpath raw) \<longleftrightarrow>
     trim raw = [] \<or> is_absolute (trim raw) \<or> ''..'' \<in> set (split_at slash (trim raw))"
  by (simp add: validate_relative_subpath_def Let_def plain_components_iff)

lemma resolve_files_dir: "resolve (files_dir w) = resolve (ws_root w) @ [Normal ''files'']"
proof -
  have "resolve ''files'' = [Normal ''files'']"
    by (simp add: resolve_eq is_absolute_def slash_def names_def segment_component_def)
  then show ?thesis
    by (simp add: files_dir_def resolve_join is_absolute_def slash_def)
qed

lemma resolve_file_path_Inr:
  assumes "resolve_file_path w rel = Inr target"
  shows "resolve target = resolve (ws_root w) @ Normal ''files'' # map Normal (names (trim rel))"
proof -
  obtain t where "validate_relative_subpath rel = Inr t" and t: "target = path_join (files_dir w) t"
    using assms by (auto simp: resolve_file_path_def split: sum.splits)
  then have "t = trim rel" "\<not> is_absolute (trim rel)" "''..'' \<notin> set (split_at slash (trim rel))"
    by (auto simp: validate_cases)
  with t show ?thesis
    by (simp add: resolve_join resolve_plain resolve_files_dir)
qed

text \<open>
  C24: a path is accepted exactly when, trimmed, it is not empty, not absolute and without a
  parent segment; then it resolves to a path below the directory of files of its workspace,
  reached by ordinary names only.
\<close>

theorem resolve_file_path_confined:
  "case resolve_file_path w rel of
     Inl e \<Rightarrow> trim rel = [] \<or> is_absolute (trim rel) \<or> ''..'' \<in> set (split_at slash (trim rel))
   | Inr target \<Rightarrow> resolve target = resolve (ws_root w) @ Normal ''files'' # map Normal (names (trim rel))
       \<and> set (names (trim rel)) \<inter> {'''', ''.'', ''..''} = {}"
proof (cases "resolve_file_path w rel")
  case (Inl e)
  then have "isl (validate_relative_subpath rel)"
    by (auto simp: resolve_file_path_def split: sum.splits)
  with Inl show ?thesis by (simp add: validate_isl)
next
  case (Inr target)
  then have "''..'' \<notin> set (split_at slash (trim rel))"
    by (auto simp: resolve_file_path_def validate_cases split: sum.splits)
  with Inr show ?thesis
    by (auto simp: resolve_file_path_Inr names_def)
qed

section \<open>What the operations touch\<close>

named_theorems fs_simps

lemma entry_set_entry [fs_simps]: "entry q (set_entry p e F) = (if q = p then Some e else entry q F)"
  by (simp add: entry_def set_entry_def hm_simps)

lemma denied_set_entry [fs_simps]: "fs_denied (set_entry p e F) = fs_denied F"
  by (simp add: set_entry_def)

text \<open>Making directories leaves all files as they are and makes directories only where nothing was.\<close>

definition only_dirs :: "fs \<Rightarrow> fs \<Rightarrow> bool" where
  "only_dirs F F' \<longleftrightarrow> fs_denied F' = fs_denied F
     \<and> (\<forall>p. entry p F' = entry p F \<or> entry p F = None \<and> entry p F' = Some Dir)"

lemma only_dirs_refl [simp]: "only_dirs F F"
  by (simp add: only_dirs_def)

lemma only_dirs_trans: "only_dirs F F' \<Longrightarrow> only_dirs F' F'' \<Longrightarrow> only_dirs F F''"
  unfolding only_dirs_def by (metis option.distinct(1))

lemma make_dirs_only: "only_dirs F (snd (make_dirs ps F))"
proof (induction ps F rule: make_dirs.induct)
  case (2 p ps F)
  show ?case
  proof (cases "entry p F")
    case None
    show ?thesis
    proof (cases "fs_denied F p")
      case False
      have "only_dirs F (set_entry p Dir F)"
        using None by (simp add: only_dirs_def fs_simps)
      then have "only_dirs F (snd (make_dirs ps (set_entry p Dir F)))"
        using 2(1) [OF None False] by (rule only_dirs_trans)
      with False None show ?thesis by simp
    qed (simp add: None)
  next
    case (Some e)
    with 2(2) show ?thesis by (cases e) simp_all
  qed
qed simp

lemma create_dir_all_snd: "only_dirs F (snd (create_dir_all p F))"
  by (simp add: create_dir_all_def make_dirs_only)

lemma create_dir_all_only: "create_dir_all p F = (r, F') \<Longrightarrow> only_dirs F F'"
  using create_dir_all_snd [of F p] by simp

lemma ensure_workspace_dir_only: "ensure_workspace_dir w F = (r, F') \<Longrightarrow> only_dirs F F'"
  by (auto simp: ensure_workspace_dir_def Let_def split: prod.splits sum.splits
      dest!: create_dir_all_only intro: only_dirs_trans only_dirs_trans [OF _ create_dir_all_snd])

text \<open>The files, as a map from where they are to what they hold.\<close>

definition contents :: "fs \<Rightarrow> fs_path \<Rightarrow> u8 list option" where
  "contents F p = (case entry p F of Some (File b) \<Rightarrow> Some b | _ \<Rightarrow> None)"

lemma contents_only_dirs: "only_dirs F F' \<Longrightarrow> contents F' = contents F"
proof
  fix p assume "only_dirs F F'"
  then have "entry p F' = entry p F \<or> entry p F = None \<and> entry p F' = Some Dir"
    by (simp add: only_dirs_def)
  then show "contents F' p = contents F p" by (auto simp: contents_def)
qed

lemma contents_set_file [fs_simps]: "contents (set_entry p (File b) F) = (contents F)(p \<mapsto> b)"
  by (rule ext) (simp add: contents_def fs_simps)

lemma fs_read_contents: "fs_read p F = Inr b \<longleftrightarrow> contents F p = Some b"
  by (simp add: fs_read_def contents_def split: option.split fs_entry.split)

lemma contents_remove_file: "contents (snd (remove_file p F)) q = contents F q
    \<or> q = p \<and> contents (snd (remove_file p F)) q = None"
  by (auto simp: remove_file_def contents_def entry_def hm_simps split: option.split fs_entry.split)

lemma write_file_contents:
  assumes "write_file w rel bytes F = (r, F')"
  shows "case r of
      Inl e \<Rightarrow> contents F' = contents F
    | Inr _ \<Rightarrow> \<exists>target. resolve_file_path w rel = Inr target
        \<and> contents F' = (contents F)(resolve target \<mapsto> bytes)"
  using assms
  by (auto simp: write_file_def fs_write_def fs_simps split: prod.splits sum.splits if_splits
      dest!: ensure_workspace_dir_only create_dir_all_only contents_only_dirs)

lemma target_below: "resolve_file_path w rel = Inr target \<Longrightarrow> below (resolve (files_dir w)) (resolve target)"
  by (simp add: below_def resolve_file_path_Inr resolve_files_dir)

lemma write_file_below:
  assumes "write_file w rel bytes F = (r, F')" and "\<not> below (resolve (files_dir w)) p"
  shows "contents F' p = contents F p"
  using write_file_contents [OF assms(1)] assms(2) target_below
  by (auto split: sum.splits)

lemma delete_file_below:
  assumes "\<not> below (resolve (files_dir w)) p"
  shows "contents (snd (delete_file w rel F)) p = contents F p"
  using assms target_below contents_remove_file
  by (auto simp: delete_file_def split: sum.split; metis)

text \<open>
  Whatever path they are given, an upload to and a deletion from a workspace leave every
  file outside the directory of files of that workspace as it is.
\<close>

theorem workspace_files_confined:
  assumes "db_get_workspace wid (wo_db st) = Some w" and "\<not> below (resolve (files_dir w)) p"
  shows "contents (wo_fs (snd (upload_workspace_file digest uid now wid rel sid bytes mime by who st))) p
      = contents (wo_fs st) p
    \<and> contents (wo_fs (snd (delete_workspace_file wid rel st))) p = contents (wo_fs st) p"
proof
  show "contents (wo_fs (snd (upload_workspace_file digest uid now wid rel sid bytes mime by who st))) p
      = contents (wo_fs st) p"
    using assms(1) write_file_below [OF _ assms(2)]
    by (auto simp: upload_workspace_file_def Let_def split: sum.split option.split prod.split)
  show "contents (wo_fs (snd (delete_workspace_file wid rel st))) p = contents (wo_fs st) p"
    using assms(1) delete_file_below [OF assms(2)]
    by (simp add: delete_workspace_file_def Let_def split: prod.split)
qed

section \<open>The files of a workspace as a map\<close>

text \<open>A sequence of writes, with those that succeeded.\<close>

fun write_all :: "('n \<Rightarrow> 'b \<Rightarrow> 's \<Rightarrow> ('e + unit) \<times> 's) \<Rightarrow> ('n \<times> 'b) list \<Rightarrow> 's \<Rightarrow> ('n \<times> 'b) list \<times> 's" where
  "write_all put [] s = ([], s)"
| "write_all put ((n, b) # ws) s = (case put n b s of
       (Inl _, s) \<Rightarrow> write_all put ws s
     | (Inr _, s) \<Rightarrow> (case write_all put ws s of (oks, s) \<Rightarrow> ((n, b) # oks, s)))"

text \<open>
  What a client of a store of named contents relies on: a write that succeeds is read back
  under every name of the same place, and nothing else changes.
\<close>

locale file_store =
  fixes put :: "'n \<Rightarrow> 'b \<Rightarrow> 's \<Rightarrow> ('e + unit) \<times> 's"
    and content :: "'n \<Rightarrow> 's \<Rightarrow> 'b option"
    and same :: "'n \<Rightarrow> 'n \<Rightarrow> bool"
  assumes written: "put n b s = (Inr (), s') \<Longrightarrow> content m s' = (if same m n then Some b else content m s)"
    and failed: "put n b s = (Inl e, s') \<Longrightarrow> content m s' = content m s"
begin

text \<open>A name reads as the last successful write to its place.\<close>

lemma last_success:
  "write_all put ws s = (oks, s') \<Longrightarrow> content m s' =
     (case find (\<lambda>(n, b). same m n) (rev oks) of Some (n, b) \<Rightarrow> Some b | None \<Rightarrow> content m s)"
proof (induction ws arbitrary: s oks s')
  case (Cons nb ws)
  obtain n b where nb: "nb = (n, b)" by (cases nb)
  obtain r s1 where w: "put n b s = (r, s1)" by (cases "put n b s")
  show ?case
  proof (cases r)
    case (Inl e)
    with Cons nb w failed [of n b s e s1] show ?thesis by (auto split: option.split)
  next
    case (Inr u)
    obtain rest s2 where ws: "write_all put ws s1 = (rest, s2)" by (cases "write_all put ws s1")
    have "content m s2 = (case find (\<lambda>(n, b). same m n) (rev rest) of
        Some (n, b) \<Rightarrow> Some b | None \<Rightarrow> content m s1)"
      by (rule Cons.IH [OF ws])
    moreover have "content m s1 = (if same m n then Some b else content m s)"
      using written [of n b s s1] w Inr by simp
    moreover have "oks = (n, b) # rest" "s' = s2" using Cons.prems nb w Inr ws by simp_all
    moreover have "find P (xs @ [x]) = (case find P xs of Some y \<Rightarrow> Some y | None \<Rightarrow> find P [x])"
      for P :: "'n \<times> 'b \<Rightarrow> bool" and xs x
      by (induction xs) simp_all
    ultimately show ?thesis by (auto split: option.split)
  qed
qed simp

end

definition same_file :: "workspace \<Rightarrow> string \<Rightarrow> string \<Rightarrow> bool" where
  "same_file w m n \<longleftrightarrow> (case (resolve_file_path w m, resolve_file_path w n) of
       (Inr s, Inr t) \<Rightarrow> resolve s = resolve t | _ \<Rightarrow> False)"

definition file_content :: "workspace \<Rightarrow> string \<Rightarrow> fs \<Rightarrow> u8 list option" where
  "file_content w rel F = (case read_file w rel F of Inr b \<Rightarrow> Some b | Inl _ \<Rightarrow> None)"

lemma file_content_eq: "file_content w rel F =
    (case resolve_file_path w rel of Inr t \<Rightarrow> contents F (resolve t) | Inl _ \<Rightarrow> None)"
  by (auto simp: file_content_def read_file_def fs_read_def contents_def
      split: sum.split option.split fs_entry.split)

interpretation ws_files: file_store "write_file w" "file_content w" "same_file w" for w
proof
  fix n m b F F'
  assume "write_file w n b F = (Inr (), F')"
  from write_file_contents [OF this] obtain t where
    t: "resolve_file_path w n = Inr t" "contents F' = (contents F)(resolve t \<mapsto> b)" by auto
  then show "file_content w m F' = (if same_file w m n then Some b else file_content w m F)"
    by (auto simp: file_content_eq same_file_def split: sum.split)
next
  fix n m b F e F'
  assume "write_file w n b F = (Inl e, F')"
  from write_file_contents [OF this] show "file_content w m F' = file_content w m F"
    by (simp add: file_content_eq split: sum.split)
qed

text \<open>
  C25: after a sequence of writes to a workspace, reading a path gives what the last successful
  write to the same place wrote, and what was there before when there was none.
\<close>

theorem workspace_files_last_write:
  assumes "write_all (write_file w) ws F = (oks, F')"
  shows "file_content w rel F' = (case find (\<lambda>(n, b). same_file w rel n) (rev oks) of
      Some (n, b) \<Rightarrow> Some b | None \<Rightarrow> file_content w rel F)"
  using assms by (rule ws_files.last_success)

section \<open>Upload and read\<close>

lemma upload_Inr:
  assumes "upload_workspace_file digest uid now wid rel sid bytes mime by who st = (Inr f, st')"
  obtains w where "db_get_workspace wid (wo_db st) = Some w"
    "relative_path_normalized (trim rel) = Some (wf_path f)"
    "write_file w (wf_path f) bytes (wo_fs st) = (Inr (), wo_fs st')"
    "db_upsert_workspace_file f (wo_db st) = Inr (wo_db st')"
    "f = uploaded_file digest uid now wid sid (wf_path f) bytes mime by who (wo_db st)"
proof -
  obtain w where w: "db_get_workspace wid (wo_db st) = Some w"
    using assms by (cases "db_get_workspace wid (wo_db st)") (auto simp: upload_workspace_file_def)
  obtain t where t: "validate_relative_subpath rel = Inr t"
    using assms w by (cases "validate_relative_subpath rel") (auto simp: upload_workspace_file_def)
  obtain p where p: "relative_path_normalized t = Some p"
    using assms w t by (cases "relative_path_normalized t") (auto simp: upload_workspace_file_def)
  obtain r F where wr: "write_file w p bytes (wo_fs st) = (r, F)"
    by (cases "write_file w p bytes (wo_fs st)")
  have r: "r = Inr ()"
    using assms w t p wr by (cases r) (auto simp: upload_workspace_file_def)
  obtain g where g: "g = uploaded_file digest uid now wid sid p bytes mime by who (wo_db st)" by blast
  then have path: "wf_path g = p" by (simp add: uploaded_file_def Let_def)
  obtain d where d: "db_upsert_workspace_file g (wo_db st) = Inr d"
    using assms w t p wr r
    by (cases "db_upsert_workspace_file g (wo_db st)") (auto simp: upload_workspace_file_def g Let_def)
  have "f = g" "wo_fs st' = F" "wo_db st' = d"
    using assms w t p wr r d by (auto simp: upload_workspace_file_def g Let_def)
  moreover have "t = trim rel" using t by (simp add: validate_cases)
  ultimately show ?thesis
    using that [of w] w p wr r d g path by simp
qed

lemma upserted_workspaces:
  "db_upsert_workspace_file f d = Inr d' \<Longrightarrow> t_workspaces d' = t_workspaces d"
  by (auto simp: db_upsert_workspace_file_def Let_def split: if_splits)

lemma upserted_row:
  assumes "db_upsert_workspace_file f d = Inr d'"
  shows "row_of file_key (file_key (file_row_of f)) (t_files d') = Some
    (case row_of file_key (file_key (file_row_of f)) (t_files d) of
       None \<Rightarrow> file_row_of f | Some x \<Rightarrow> excluded_file (file_row_of f) x)"
proof -
  have "t_files d' = upsert file_key excluded_file (file_row_of f) (t_files d)"
    using assms by (auto simp: db_upsert_workspace_file_def Let_def split: if_splits)
  moreover have "file_key (excluded_file r x) = file_key x" for r x
    by (simp add: file_key_def excluded_file_def)
  ultimately show ?thesis by (simp add: row_of_upsert)
qed

text \<open>
  After an upload the file is read under the path it was stored with: its bytes are those
  uploaded, and its row gives their number and digest, and who created it.
\<close>

theorem upload_read_roundtrip:
  assumes "upload_workspace_file digest uid now wid rel sid bytes mime by who st = (Inr f, st')"
  shows "\<exists>meta. read_workspace_file wid (wf_path f) st' = Inr (Some (meta, bytes))
    \<and> wf_path meta = wf_path f \<and> wf_size meta = length bytes \<and> wf_sha256 meta = Some (digest bytes)
    \<and> wf_mime meta = mime \<and> wf_created_by meta = by \<and> wf_persona meta = who"
proof -
  obtain w where w: "db_get_workspace wid (wo_db st) = Some w"
    and wr: "write_file w (wf_path f) bytes (wo_fs st) = (Inr (), wo_fs st')"
    and up: "db_upsert_workspace_file f (wo_db st) = Inr (wo_db st')"
    and f: "f = uploaded_file digest uid now wid sid (wf_path f) bytes mime by who (wo_db st)"
    using upload_Inr [OF assms] by metis
  have w': "db_get_workspace wid (wo_db st') = Some w"
    using w upserted_workspaces [OF up] by (simp add: db_get_workspace_def)
  have key: "file_key (file_row_of f) = (wid, wf_path f)"
    by (subst f) (simp add: file_key_def file_row_of_def uploaded_file_def Let_def)
  have "same_file w (wf_path f) (wf_path f)"
    using write_file_contents [OF wr] by (auto simp: same_file_def)
  then have "file_content w (wf_path f) (wo_fs st') = Some bytes"
    using ws_files.written [OF wr, of "wf_path f"] by simp
  then have read: "read_file w (wf_path f) (wo_fs st') = Inr bytes"
    by (simp add: file_content_def split: sum.splits)
  have new: "wf_size f = length bytes" "wf_sha256 f = Some (digest bytes)" "wf_mime f = mime"
    "wf_created_by f = by" "wf_persona f = who"
    by (subst f, simp add: uploaded_file_def Let_def)+
  obtain r where r: "row_of file_key (wid, wf_path f) (t_files (wo_db st')) = Some r"
    "fr_path r = wf_path f" "fr_size r = int (wf_size f)" "fr_sha256 r = wf_sha256 f"
    "fr_mime r = wf_mime f" "fr_created_by r = file_creator_display (wf_created_by f)"
    "fr_persona r = wf_persona f"
  proof
    let ?x = "row_of file_key (wid, wf_path f) (t_files (wo_db st))"
    let ?r = "case ?x of None \<Rightarrow> file_row_of f | Some x \<Rightarrow> excluded_file (file_row_of f) x"
    show "row_of file_key (wid, wf_path f) (t_files (wo_db st')) = Some ?r"
      using upserted_row [OF up] by (simp add: key)
    show "fr_path ?r = wf_path f"
      by (auto simp: file_row_of_def excluded_file_def file_key_def dest!: row_of_Some split: option.split)
  qed (simp_all add: file_row_of_def excluded_file_def split: option.split)
  have "file_creator_parse (file_creator_display c) = Some c" for c
    by (cases c) (simp_all add: file_creator_parse_def)
  then have "\<exists>meta. db_get_workspace_file wid (wf_path f) (wo_db st') = Some meta
    \<and> wf_path meta = wf_path f \<and> wf_size meta = length bytes \<and> wf_sha256 meta = Some (digest bytes)
    \<and> wf_mime meta = mime \<and> wf_created_by meta = by \<and> wf_persona meta = who"
    using r new by (simp add: db_get_workspace_file_def workspace_file_from_row_def)
  then show ?thesis
    using w' read by (auto simp: read_workspace_file_def)
qed

section \<open>Examples\<close>

definition bare :: workspaces where
  "bare = \<lparr>wo_db = empty_db, wo_fs = \<lparr>fs_entries = [], fs_denied = \<lambda>_. False\<rparr>, wo_root = ''/data''\<rparr>"

definition demo_args :: create_workspace_args where
  "demo_args = \<lparr>ca_name = ''My Notes!'', ca_kind = WK_General, ca_root = None, ca_description = None\<rparr>"

definition demo :: workspace where
  "demo = \<lparr>ws_id = ''w'', ws_slug = ''my_notes'', ws_name = ''My Notes!'', ws_kind = WK_General,
     ws_root = ''/data/my_notes'', ws_description = None, ws_created = ''t'', ws_updated = ''t''\<rparr>"

definition with_demo :: workspaces where
  "with_demo = snd (create_workspace ''w'' ''t'' demo_args bare)"

definition put_file :: "string \<Rightarrow> string \<Rightarrow> u8 list \<Rightarrow> workspaces \<Rightarrow> (string + workspace_file) \<times> workspaces" where
  "put_file uid rel bytes st =
     upload_workspace_file (\<lambda>_. ''digest'') uid ''t1'' ''w'' rel None bytes None FC_User None st"

lemma with_demo: "db_get_workspace ''w'' (wo_db with_demo) = Some demo"
  by code_simp

lemma put_a: "map_sum id wf_path (fst (put_file ''f'' ''sub/./a.md'' [1, 2] with_demo)) = Inr ''sub/a.md''"
  by code_simp

theorem upload_read_roundtrip_witness:
  "\<exists>meta. read_workspace_file ''w'' ''sub/a.md'' (snd (put_file ''f'' ''sub/./a.md'' [1, 2] with_demo)) =
     Inr (Some (meta, [1, 2])) \<and> wf_size meta = 2"
proof -
  obtain f st where put: "put_file ''f'' ''sub/./a.md'' [1, 2] with_demo = (Inr f, st)"
    and f: "wf_path f = ''sub/a.md''"
    using put_a by (cases "put_file ''f'' ''sub/./a.md'' [1, 2] with_demo"; cases "fst (put_file ''f'' ''sub/./a.md'' [1, 2] with_demo)") auto
  from upload_read_roundtrip [OF put [unfolded put_file_def]] show ?thesis
    by (auto simp: put f)
qed

theorem workspace_files_confined_witness:
  "contents (wo_fs (snd (put_file ''f'' ''../../x'' [1] with_demo))) [RootDir, Normal ''x'']
     = contents (wo_fs with_demo) [RootDir, Normal ''x'']
   \<and> contents (wo_fs (snd (delete_workspace_file ''w'' ''/x'' with_demo))) [RootDir, Normal ''x'']
     = contents (wo_fs with_demo) [RootDir, Normal ''x'']"
proof -
  have "\<not> below (resolve (files_dir demo)) [RootDir, Normal ''x'']" by code_simp
  from workspace_files_confined [OF with_demo this] show ?thesis
    by (simp add: put_file_def)
qed

theorem workspace_files_last_write_witness:
  "file_content demo ''./a'' (snd (write_all (write_file demo) [(''a'', [1]), (''../b'', [2]), (''a'', [3])] (wo_fs with_demo)))
     = Some [3]"
proof -
  let ?ws = "[(''a'', [1]), (''../b'', [2]), (''a'', [3])]"
  obtain oks F' where r: "write_all (write_file demo) ?ws (wo_fs with_demo) = (oks, F')"
    by (cases "write_all (write_file demo) ?ws (wo_fs with_demo)")
  have "fst (write_all (write_file demo) ?ws (wo_fs with_demo)) = [(''a'', [1]), (''a'', [3])]" by code_simp
  then have "oks = [(''a'', [1]), (''a'', [3])]" unfolding r by simp
  moreover have "same_file demo ''./a'' ''a''" by code_simp
  ultimately show ?thesis
    using workspace_files_last_write [OF r, of "''./a''"] unfolding r by simp
qed

text \<open>
  A stored path that starts with a blank is trimmed when its file is written: an upload to
  \<^verbatim>\<open>./ a\<close> has a row of its own but replaces the bytes of \<^verbatim>\<open>a\<close>. And a path is stored normalised
  but looked up as given: what was uploaded as \<^verbatim>\<open>./a\<close> is not found under that path.
\<close>

lemma upload_clobbers:
  "let st = snd (put_file ''f'' ''a'' [1] with_demo); st' = snd (put_file ''g'' ''./ a'' [2] st)
   in map_sum id (map_option (map_prod wf_path id)) (read_workspace_file ''w'' ''a'' st) = Inr (Some (''a'', [1]))
    \<and> map_sum id (map_option (map_prod wf_path id)) (read_workspace_file ''w'' ''a'' st') = Inr (Some (''a'', [2]))"
  by code_simp

lemma upload_not_found:
  "isl (fst (put_file ''f'' ''./a'' [1] with_demo)) = False
   \<and> read_workspace_file ''w'' ''./a'' (snd (put_file ''f'' ''./a'' [1] with_demo)) = Inr None"
  by code_simp

section \<open>Slugs\<close>

definition slug_char :: "char \<Rightarrow> bool" where
  "slug_char c \<longleftrightarrow> c = CHR ''_'' \<or> is_alnum c \<and> to_lower c = c"

lemma slug_char_lower: "is_alnum c \<Longrightarrow> slug_char (to_lower c)"
proof -
  assume c: "is_alnum c"
  show ?thesis
  proof (cases "65 \<le> (of_char c :: nat) \<and> (of_char c :: nat) \<le> 90")
    case True
    then have "of_char (to_lower c) = (of_char c + 32 :: nat)"
      by (simp add: to_lower_def)
    with True show ?thesis
      by (simp add: slug_char_def is_alnum_def to_lower_def)
  next
    case False
    with c show ?thesis by (auto simp: slug_char_def to_lower_def)
  qed
qed

lemma slug_loop_chars: "list_all slug_char out \<Longrightarrow> list_all slug_char (slug_loop out prev cs)"
proof (induction out prev cs rule: slug_loop.induct)
  case (2 out prev c cs)
  have "slug_char CHR ''_''" by (simp add: slug_char_def)
  with 2 show ?case by (simp add: slug_char_lower)
qed simp

lemma find_SomeD: "find P xs = Some x \<Longrightarrow> P x \<and> x \<in> set xs"
  by (induction xs) (auto split: if_splits)

lemma workspace_slug_plain:
  "workspace_slug name \<noteq> []" "list_all slug_char (workspace_slug name)"
proof -
  have "set (pop_underscores s) \<subseteq> set s" for s
    by (auto simp: pop_underscores_def dest: set_dropWhileD)
  then have "list_all slug_char (pop_underscores (slug_loop [] False name))"
    using slug_loop_chars [of "[]" False name] by (auto simp: list_all_iff)
  moreover have "list_all slug_char ''workspace''" by code_simp
  ultimately show "workspace_slug name \<noteq> []" "list_all slug_char (workspace_slug name)"
    by (simp_all add: workspace_slug_def Let_def)
qed

text \<open>The slugs that are tried: the base, then the base with the numbers 2 to 99.\<close>

definition slug_candidates :: "string \<Rightarrow> nat \<Rightarrow> string list" where
  "slug_candidates base n = map (\<lambda>k. base @ ''_'' @ show_nat k) [n..<100]"

lemma free_slug_find:
  "n \<le> 100 \<Longrightarrow> free_slug base slug n d =
     find (\<lambda>s. db_get_workspace_by_slug s d = None) (slug # slug_candidates base n)"
proof (induction base slug n d rule: free_slug.induct)
  case (1 base slug n d)
  show ?case
  proof (cases "n = 100")
    case True
    then show ?thesis by (subst free_slug.simps) (simp add: slug_candidates_def)
  next
    case False
    with 1(2) have "n < 100" by simp
    then have "slug_candidates base n = (base @ ''_'' @ show_nat n) # slug_candidates base (Suc n)"
      by (simp add: slug_candidates_def upt_conv_Cons)
    with 1 \<open>n < 100\<close> show ?thesis by (subst free_slug.simps) simp
  qed
qed

lemma slug_free_iff:
  assumes "db_reachable d"
  shows "db_get_workspace_by_slug s d = None \<longleftrightarrow> \<not> has_key wr_slug s (t_workspaces d)"
proof -
  have "list_all (\<lambda>r. workspace_kind_parse (wr_kind r) \<noteq> None) (t_workspaces d)"
    using db_reachable_wfI [OF assms] by (simp add: db_wf_def texts_wf_def)
  then have "workspace_from_row r \<noteq> None" if "r \<in> set (t_workspaces d)" for r
    using that by (auto simp: list_all_iff workspace_from_row_def)
  then have "db_get_workspace_by_slug s d = None \<longleftrightarrow> row_of wr_slug s (t_workspaces d) = None"
    by (cases "row_of wr_slug s (t_workspaces d)")
      (auto simp: db_get_workspace_by_slug_def dest!: row_of_Some)
  then show ?thesis by (auto simp: row_of_None has_key_def)
qed

text \<open>
  With a name, a fresh identifier and a root that can be made, creating a workspace
  succeeds as long as one of the 99 slugs derived from the name is free, and takes the first
  free one; the row is stored, and a root that was not chosen is one plain name below the root
  of all workspaces.
\<close>

theorem create_workspace_outcome:
  assumes "db_reachable (wo_db st)" and "trim (ca_name args) \<noteq> []"
    and "\<not> has_key wr_id uid (t_workspaces (wo_db st))"
    and "create_workspace uid now args st = (r, st')"
  shows "case find (\<lambda>s. \<not> has_key wr_slug s (t_workspaces (wo_db st)))
      (workspace_slug (trim (ca_name args)) # slug_candidates (workspace_slug (trim (ca_name args))) 2) of
    None \<Rightarrow> isl r \<and> st' = st
  | Some slug \<Rightarrow> \<exists>w. ws_slug w = slug \<and> ws_root w = chosen_root (ca_root args) (wo_root st) slug
      \<and> db_get_workspace uid (wo_db st') = Some w \<and> list_all slug_char slug
      \<and> (r = Inr w \<or> isl (fst (create_dir_all (resolve (ws_root w)) (wo_fs st))))"
proof -
  let ?base = "workspace_slug (trim (ca_name args))"
  let ?find = "find (\<lambda>s. \<not> has_key wr_slug s (t_workspaces (wo_db st))) (?base # slug_candidates ?base 2)"
  have free: "free_slug ?base ?base 2 (wo_db st) = ?find"
    using slug_free_iff [OF assms(1)] by (simp add: free_slug_find)
  show ?thesis
  proof (cases ?find)
    case None
    with free assms(2,4) show ?thesis by (auto simp: create_workspace_def Let_def)
  next
    case (Some slug)
    then have new: "\<not> has_key wr_slug slug (t_workspaces (wo_db st))"
      and mem: "slug \<in> set (?base # slug_candidates ?base 2)"
      using find_SomeD [OF Some] by blast+
    obtain w where w: "insert_and_ensure w st = (r, st')" "ws_id w = uid" "ws_slug w = slug"
        "ws_root w = chosen_root (ca_root args) (wo_root st) slug"
      using assms(2,4) free Some by (simp add: create_workspace_def Let_def split: if_splits)
    have row: "db_insert_workspace w (wo_db st) =
        Inr (wo_db st\<lparr>t_workspaces := t_workspaces (wo_db st) @ [workspace_row_of w]\<rparr>)"
      using new assms(3) w(2,3)
      by (simp add: db_insert_workspace_def insert_row_def has_key_def workspace_row_of_def)
    have "workspace_kind_parse (workspace_kind_display (ws_kind w)) = Some (ws_kind w)"
      by (cases "ws_kind w") (simp_all add: workspace_kind_parse_def)
    then have from_row: "workspace_from_row (workspace_row_of w) = Some w"
      by (simp add: workspace_from_row_def workspace_row_of_def)
    have db: "wo_db st' = wo_db st\<lparr>t_workspaces := t_workspaces (wo_db st) @ [workspace_row_of w]\<rparr>"
      using w(1) row by (auto simp: insert_and_ensure_def split: prod.splits sum.splits)
    have "row_of wr_id uid (t_workspaces (wo_db st)) = None"
      using assms(3) by (auto simp: has_key_def row_of_None)
    then have "db_get_workspace uid (wo_db st') = Some w"
      using w(2) from_row by (simp add: db db_get_workspace_def row_of_append row_of_Cons workspace_row_of_def)
    moreover have "r = Inr w \<or> isl (fst (create_dir_all (resolve (ws_root w)) (wo_fs st)))"
      using w(1) row by (auto simp: insert_and_ensure_def ensure_workspace_dir_def Let_def
          split: prod.splits sum.splits)
    moreover have "list_all slug_char slug"
    proof -
      have "list_all slug_char (show_nat k)" for k
        using show_nat_digits [of k]
        by (auto simp: list_all_iff slug_char_def is_alnum_def is_digit_def to_lower_def)
      then have "list_all slug_char s" if "s \<in> set (slug_candidates ?base 2)" for s
        using that workspace_slug_plain(2) [of "trim (ca_name args)"]
        by (auto simp: slug_candidates_def slug_char_def list_all_append)
      with mem workspace_slug_plain(2) show ?thesis by auto
    qed
    ultimately show ?thesis unfolding Some option.case using w(3,4) by blast
  qed
qed

lemma bare_reachable: "db_reachable (wo_db bare)"
  by (simp add: bare_def db_reachable_empty)

theorem create_workspace_outcome_witness:
  "\<exists>w. db_get_workspace ''w'' (wo_db with_demo) = Some w \<and> ws_slug w = ''my_notes''"
proof -
  have f: "find (\<lambda>s. \<not> has_key wr_slug s (t_workspaces (wo_db bare)))
      (workspace_slug (trim (ca_name demo_args)) # slug_candidates (workspace_slug (trim (ca_name demo_args))) 2)
      = Some ''my_notes''"
    by (simp add: bare_def empty_db_def has_key_def, code_simp)
  have n: "trim (ca_name demo_args) \<noteq> []" by code_simp
  have u: "\<not> has_key wr_id ''w'' (t_workspaces (wo_db bare))"
    by (simp add: bare_def empty_db_def has_key_def)
  from create_workspace_outcome [OF bare_reachable n u, of "''t''" "fst (create_workspace ''w'' ''t'' demo_args bare)" with_demo]
  show ?thesis unfolding f by (auto simp: with_demo_def)
qed

section \<open>Directories of sessions\<close>

text \<open>An identifier of a session is a single name, as the text of a \<^verbatim>\<open>Uuid\<close> is.\<close>

definition single_name :: "string \<Rightarrow> bool" where
  "single_name s \<longleftrightarrow> s \<notin> {'''', ''.'', ''..''} \<and> slash \<notin> set s"

lemma single_name_resolve: "single_name s \<Longrightarrow> resolve s = [Normal s] \<and> \<not> is_absolute s"
  by (cases s) (auto simp: single_name_def resolve_eq names_def split_at_free is_absolute_def
      segment_component_def)

lemma scoped_dir_below:
  assumes "ensure_scoped_dir dir0 sid requested F = (Inr d, F')" and "single_name sid"
  shows "below (resolve dir0 @ [Normal sid]) (resolve d)"
proof -
  have s: "resolve (session_dir dir0 sid) = resolve dir0 @ [Normal sid]"
    using single_name_resolve [OF assms(2)] by (simp add: session_dir_def resolve_join)
  have "scoped_path (session_dir dir0 sid) requested = Inr d"
    using assms(1) by (auto simp: ensure_scoped_dir_def ensure_session_dir_def split: prod.splits sum.splits)
  then have "d = session_dir dir0 sid \<or> (\<exists>p. \<not> is_absolute p \<and> d = path_join (session_dir dir0 sid) p)"
    by (auto simp: scoped_path_def validate_session_subpath_def split: option.splits if_splits sum.splits)
  with s show ?thesis by (auto simp: below_def resolve_join)
qed

text \<open>
  Whatever directories two different sessions ask for, those they get are disjoint:
  nothing lies below both.
\<close>

theorem scoped_dirs_disjoint:
  assumes "ensure_scoped_dir dir0 sid requested F = (Inr d, F')" and "single_name sid"
    and "ensure_scoped_dir dir0 sid' requested' G = (Inr d', G')" and "single_name sid'"
    and "sid \<noteq> sid'"
  shows "\<not> (below (resolve d) p \<and> below (resolve d') p)"
proof
  assume p: "below (resolve d) p \<and> below (resolve d') p"
  have chain: "below a p" if "below a b" "below b p" for a b :: fs_path
    using that unfolding below_def by (metis min.absorb1 min_def nat_le_linear take_all take_take)
  have "below (resolve dir0 @ [Normal sid]) p" "below (resolve dir0 @ [Normal sid']) p"
    using chain p scoped_dir_below [OF assms(1,2)] scoped_dir_below [OF assms(3,4)] by blast+
  then have "[Normal sid] = [Normal sid']"
    unfolding below_def by (metis append_same_eq length_append length_Cons list.size(3) same_append_eq)
  with assms(5) show False by simp
qed

theorem scoped_dirs_disjoint_witness:
  "\<forall>p. \<not> (below (resolve ''/data/s1/a/b'') p \<and> below (resolve ''/data/s2'') p)"
proof
  fix p
  have "fst (ensure_scoped_dir ''/data'' ''s1'' (Some '' a/b'') (wo_fs bare)) = Inr ''/data/s1/a/b''"
    "fst (ensure_scoped_dir ''/data'' ''s2'' None (wo_fs bare)) = Inr ''/data/s2''" by code_simp+
  moreover have "single_name ''s1''" "single_name ''s2''" by code_simp+
  ultimately show "\<not> (below (resolve ''/data/s1/a/b'') p \<and> below (resolve ''/data/s2'') p)"
    using scoped_dirs_disjoint [of "''/data''" "''s1''" "Some '' a/b''" "wo_fs bare" "''/data/s1/a/b''"
        "snd (ensure_scoped_dir ''/data'' ''s1'' (Some '' a/b'') (wo_fs bare))"
        "''s2''" None "wo_fs bare" "''/data/s2''"
        "snd (ensure_scoped_dir ''/data'' ''s2'' None (wo_fs bare))" p]
    by (simp add: prod_eq_iff)
qed

end
