(* ===== verification/Skills.thy ===== *)
theory Skills
  imports Config_Types Store_Tables
begin

text \<open>
  Skills, the workflow templates that come from files: \<^verbatim>\<open>src/orchestrator/skill_loader.rs\<close>
  (loading and interpolation), \<^verbatim>\<open>src/orchestrator/skill_router.rs\<close> (which skill a task is routed
  to), \<^verbatim>\<open>src/orchestrator/workflow_composer.rs\<close> (chains of skills) and the lookup of a template
  in \<^verbatim>\<open>src/orchestrator/mod.rs\<close>. The parsers and printers of JSON and YAML are arguments.
\<close>

section \<open>JSON values\<close>

datatype json =
    J_Null
  | J_Bool bool
  | J_Number string
  | J_String string
  | J_Array "json list"
  | J_Object "(string \<times> json) list"

fun j_get :: "json \<Rightarrow> string \<Rightarrow> json option" where
  "j_get (J_Object fs) k = map_of fs k"
| "j_get _ k = None"

fun j_str :: "json \<Rightarrow> string option" where
  "j_str (J_String s) = Some s"
| "j_str _ = None"

fun j_array :: "json \<Rightarrow> json list option" where
  "j_array (J_Array xs) = Some xs"
| "j_array _ = None"

section \<open>Loading\<close>

record skill_node_definition =
  sn_id :: string
  sn_role :: agent_role
  sn_instructions :: string
  sn_dependencies :: "string list"
  sn_mcp_tools :: "string list"
  sn_git_commands :: "string list"
  sn_policy :: "execution_policy option"

record skill_definition =
  sk_name :: string
  sk_description :: string
  sk_parameters :: "workflow_parameter list"
  sk_nodes :: "skill_node_definition list"

text \<open>\<^verbatim>\<open>Path::extension\<close> and \<^verbatim>\<open>Path::file_stem\<close> of a file name: a leading dot starts no extension.\<close>

definition dot :: char where
  "dot = CHR ''.''"

definition file_extension :: "string \<Rightarrow> string option" where
  "file_extension name = (case split_at dot name of
       [] \<Rightarrow> None
     | p # ps \<Rightarrow> if ps = [] \<or> name = ''..'' \<or> p = [] \<and> length ps = 1 then None else Some (last ps))"

definition file_stem :: "string \<Rightarrow> string" where
  "file_stem name = (case file_extension name of
       None \<Rightarrow> name
     | Some e \<Rightarrow> take (length name - length e - 1) name)"

definition skill_node :: "skill_node_definition \<Rightarrow> workflow_node_template" where
  "skill_node n = \<lparr>wn_id = sn_id n, wn_role = sn_role n, wn_instructions = sn_instructions n,
     wn_dependencies = sn_dependencies n, wn_mcp_tools = sn_mcp_tools n,
     wn_git_commands = sn_git_commands n, wn_policy = sn_policy n\<rparr>"

text \<open>
  An entry of the directory is its name and its text, if it can be read; \<open>parse\<close> reads a
  definition from JSON (\<open>True\<close>) or YAML.
\<close>

definition load_skill ::
    "(bool \<Rightarrow> string \<Rightarrow> skill_definition option) \<Rightarrow> string \<Rightarrow> string \<times> string option \<Rightarrow> workflow_template option" where
  "load_skill parse now entry = (case entry of (name, content) \<Rightarrow>
     let ext = map to_lower (case file_extension name of None \<Rightarrow> [] | Some e \<Rightarrow> e)
     in if ext \<noteq> ''yaml'' \<and> ext \<noteq> ''yml'' \<and> ext \<noteq> ''json'' then None
        else (case content of
            None \<Rightarrow> None
          | Some c \<Rightarrow> map_option (\<lambda>d. \<lparr>wt_id = file_stem name, wt_name = sk_name d,
              wt_description = sk_description d, wt_created = now, wt_updated = now,
              wt_source_run = None, wt_nodes = map skill_node (sk_nodes d),
              wt_parameters = sk_parameters d, wt_source = Source_File\<rparr>) (parse (ext = ''json'') c)))"

definition load_skills_from_dir ::
    "(bool \<Rightarrow> string \<Rightarrow> skill_definition option) \<Rightarrow> string \<Rightarrow> (string \<times> string option) list option
      \<Rightarrow> workflow_template list" where
  "load_skills_from_dir parse now dir = (case dir of
       None \<Rightarrow> []
     | Some es \<Rightarrow> List.map_filter (load_skill parse now) es)"

section \<open>Interpolation\<close>

text \<open>\<^verbatim>\<open>str::replace\<close> with a pattern that is not empty.\<close>

function str_replace :: "string \<Rightarrow> string \<Rightarrow> string \<Rightarrow> string" where
  "str_replace pat to s =
     (if s = [] \<or> pat = [] then s
      else if starts_with s pat then to @ str_replace pat to (drop (length pat) s)
      else hd s # str_replace pat to (tl s))"
  by auto
termination by (relation "measure (\<lambda>(pat, to, s). length s)") (auto simp: neq_Nil_conv)

declare str_replace.simps [simp del]

definition placeholder :: "string \<Rightarrow> string" where
  "placeholder name = ''{{'' @ name @ ''}}''"

definition interpolate_one :: "(string, string) hashmap \<Rightarrow> workflow_parameter \<Rightarrow> string \<Rightarrow> string" where
  "interpolate_one params p text = (case hm_get params (wp_name p) of
       Some v \<Rightarrow> str_replace (placeholder (wp_name p)) v text
     | None \<Rightarrow> (case wp_default p of
         Some d \<Rightarrow> str_replace (placeholder (wp_name p)) d text
       | None \<Rightarrow> text))"

definition interpolate_template_text ::
    "string \<Rightarrow> workflow_parameter list \<Rightarrow> (string, string) hashmap \<Rightarrow> string" where
  "interpolate_template_text text parameters params = fold (interpolate_one params) parameters text"

definition interpolate_params :: "workflow_template \<Rightarrow> (string, string) hashmap \<Rightarrow> workflow_template" where
  "interpolate_params t params = t\<lparr>wt_nodes := map (\<lambda>n. n\<lparr>
       wn_instructions := interpolate_template_text (wn_instructions n) (wt_parameters t) params,
       wn_git_commands := map (\<lambda>c. interpolate_template_text c (wt_parameters t) params)
         (wn_git_commands n)\<rparr>) (wt_nodes t)\<rparr>"

section \<open>Tools of a node\<close>

record mcp_tool_definition =
  mt_name :: string
  mt_description :: string
  mt_schema :: json
  mt_server :: "string option"

definition tool_allowed :: "string \<Rightarrow> string \<Rightarrow> bool" where
  "tool_allowed name a \<longleftrightarrow> name = a \<or> ends_with name (''/'' @ a)
     \<or> ends_with a (''/'' @ last (split_at (CHR ''/'') name))"

definition filter_tools_for_node :: "mcp_tool_definition list \<Rightarrow> string list \<Rightarrow> mcp_tool_definition list" where
  "filter_tools_for_node tools allowed =
     (if allowed = [] then tools
      else filter (\<lambda>t. list_ex (tool_allowed (mt_name t)) allowed) tools)"

section \<open>Routing of a task\<close>

text \<open>\<^verbatim>\<open>split_whitespace\<close> and \<^verbatim>\<open>trim_matches\<close> of \<^verbatim>\<open>extract_repo_url_from_text\<close>.\<close>

definition url_char :: "char \<Rightarrow> bool" where
  "url_char c \<longleftrightarrow> is_alnum c \<or> c \<in> set ''/:.-_@''"

definition trim_to :: "(char \<Rightarrow> bool) \<Rightarrow> string \<Rightarrow> string" where
  "trim_to keep s = rev (dropWhile (\<lambda>c. \<not> keep c) (rev (dropWhile (\<lambda>c. \<not> keep c) s)))"

definition is_repo_url :: "string \<Rightarrow> bool" where
  "is_repo_url w \<longleftrightarrow> (starts_with w ''https://'' \<or> starts_with w ''git@'')
     \<and> (str_contains w ''github.com'' \<or> str_contains w ''gitlab.com'' \<or> str_contains w ''bitbucket.org''
        \<or> ends_with w ''.git'')"

definition extract_repo_url_from_text :: "string \<Rightarrow> string option" where
  "extract_repo_url_from_text text = find is_repo_url (map (trim_to url_char) (split_whitespace text))"

record skill_route =
  ro_workflow :: string
  ro_params :: "json option"
  ro_reason :: string

text \<open>The keywords; the Korean ones as the bytes of their UTF-8.\<close>

definition utf8 :: "nat list \<Rightarrow> string" where
  "utf8 bs = map char_of bs"

definition clone_keywords :: "string list" where
  "clone_keywords = [''clone'', ''clon'', ''fetch'', ''checkout'',
     utf8 [0xEB, 0xB3, 0xB5, 0xEC, 0xA0, 0x9C], utf8 [0xED, 0x81, 0xB4, 0xEB, 0xA1, 0xA0],
     utf8 [0xEA, 0xB0, 0x80, 0xEC, 0xA0, 0xB8, 0xEC, 0x99, 0x80]]"

definition remote_keywords :: "string list" where
  "remote_keywords = [''remote only'', ''without cloning'', ''without clone'', ''no clone'',
     ''clone '' @ utf8 [0xEC, 0x97, 0x86, 0xEC, 0x9D, 0xB4],
     utf8 [0xEC, 0x9B, 0x90, 0xEA, 0xB2, 0xA9, 0xEC, 0x9C, 0xBC, 0xEB, 0xA1, 0x9C, 0xEB, 0xA7, 0x8C],
     utf8 [0xEC, 0x9B, 0x90, 0xEA, 0xB2, 0xA9, 0xEB, 0xA7, 0x8C],
     ''readme only'', ''metadata'', ''issues'', ''issue'', ''pull request'', ''pr '', ''commits'',
     ''commit history'', ''release notes'']"

definition change_keywords :: "string list" where
  "change_keywords = [''clone'', ''checkout'', ''patch'', ''fix'', ''modify'', ''edit'',
     utf8 [0xEC, 0x88, 0x98, 0xEC, 0xA0, 0x95], utf8 [0xED, 0x81, 0xB4, 0xEB, 0xA1, 0xA0]]"

definition overview_keywords :: "string list" where
  "overview_keywords = [''analyze'', ''analysis'', ''overview'', ''summary'', ''summarize'', ''architecture'',
     ''structure'', ''stack'', ''repo'', ''repository'',
     utf8 [0xED, 0x94, 0x84, 0xEB, 0xA1, 0x9C, 0xEC, 0xA0, 0x9D, 0xED, 0x8A, 0xB8],
     utf8 [0xEB, 0xA6, 0xAC, 0xED, 0x8F, 0xAC, 0xEC, 0xA7, 0x80, 0xED, 0x86, 0xA0, 0xEB, 0xA6, 0xAC],
     utf8 [0xEB, 0xB6, 0x84, 0xEC, 0x84, 0x9D], utf8 [0xEC, 0x9A, 0x94, 0xEC, 0x95, 0xBD],
     utf8 [0xEA, 0xB0, 0x9C, 0xEC, 0x9A, 0x94], utf8 [0xEA, 0xB5, 0xAC, 0xEC, 0xA1, 0xB0]]"

definition clone_params :: "string \<Rightarrow> json" where
  "clone_params url = J_Object [(''repo_url'', J_String url), (''target_dir'', J_String (infer_clone_target_dir url))]"

definition overview_params :: "string \<Rightarrow> json" where
  "overview_params url = J_Object [(''repo_url'', J_String url)]"

definition explicit_params :: "string \<Rightarrow> string option \<Rightarrow> json option" where
  "explicit_params sid url =
     (if sid = ''git_clone_repo'' then map_option clone_params url
      else if sid = ''local_repo_overview'' \<or> sid = ''github_repo_overview'' then map_option overview_params url
      else Some (J_Object []))"

definition explicit_route :: "workflow_template list \<Rightarrow> string \<Rightarrow> string option \<Rightarrow> skill_route option" where
  "explicit_route skills lower url =
     (case find (\<lambda>s. contains_word lower (map to_lower (wt_id s)) \<or> contains_word lower (map to_lower (wt_name s))) skills of
        None \<Rightarrow> None
      | Some s \<Rightarrow> map_option (\<lambda>params. \<lparr>ro_workflow = wt_id s,
          ro_params = (if params = J_Object [] then None else Some params),
          ro_reason = ''explicit_skill_match''\<rparr>) (explicit_params (wt_id s) url))"

definition keyword_route :: "(string, workflow_template) hashmap \<Rightarrow> string \<Rightarrow> string \<Rightarrow> skill_route option" where
  "keyword_route skills lower url =
     (if hm_contains skills ''git_clone_repo'' \<and> contains_any_keyword lower clone_keywords then
        Some \<lparr>ro_workflow = ''git_clone_repo'', ro_params = Some (clone_params url),
          ro_reason = ''clone_skill_auto_route''\<rparr>
      else let wants_remote_only = contains_any_keyword lower remote_keywords in
        if hm_contains skills ''local_repo_overview'' \<and> \<not> wants_remote_only
          \<and> \<not> contains_any_keyword lower change_keywords \<and> contains_any_keyword lower overview_keywords then
          Some \<lparr>ro_workflow = ''local_repo_overview'', ro_params = Some (overview_params url),
            ro_reason = ''local_repo_overview_auto_route''\<rparr>
        else if hm_contains skills ''github_repo_overview'' \<and> wants_remote_only then
          Some \<lparr>ro_workflow = ''github_repo_overview'', ro_params = Some (overview_params url),
            ro_reason = ''github_repo_overview_auto_route''\<rparr>
        else None)"

text \<open>The order of the entries of the map is the order in which it is iterated.\<close>

definition auto_skill_route ::
    "(string, workflow_template) hashmap \<Rightarrow> string \<Rightarrow> string option \<Rightarrow> skill_route option" where
  "auto_skill_route skills task repo_url =
     (if skills = [] then None
      else let lower = map to_lower task;
          url = (case repo_url of Some u \<Rightarrow> Some u | None \<Rightarrow> extract_repo_url_from_text task)
        in (case explicit_route (hm_values skills) lower url of
              Some r \<Rightarrow> Some r
            | None \<Rightarrow> Option.bind url (keyword_route skills lower)))"

section \<open>Templates of a request\<close>

text \<open>\<open>render\<close> is the text of a JSON value.\<close>

definition param_map :: "(json \<Rightarrow> string) \<Rightarrow> json option \<Rightarrow> (string, string) hashmap" where
  "param_map render params = (case params of
       Some (J_Object fs) \<Rightarrow> fold (\<lambda>(k, v) m. hm_insert m k (case j_str v of Some s \<Rightarrow> s | None \<Rightarrow> render v)) fs []
     | _ \<Rightarrow> [])"

definition materialize_workflow_template ::
    "workflow_codec \<Rightarrow> (json \<Rightarrow> string) \<Rightarrow> (string, workflow_template) hashmap \<Rightarrow> db \<Rightarrow> string \<Rightarrow> json option
      \<Rightarrow> string + workflow_template" where
  "materialize_workflow_template c render skills d wid params =
     (case hm_get skills wid of
        Some t \<Rightarrow> Inr (interpolate_params t (param_map render params))
      | None \<Rightarrow> (case db_get_workflow c wid d of
            Inl e \<Rightarrow> Inl ''workflow row cannot be read''
          | Inr None \<Rightarrow> Inl (''workflow/skill not found: '' @ wid)
          | Inr (Some t) \<Rightarrow> Inr (interpolate_params t (param_map render params))))"

definition list_skills :: "(string, workflow_template) hashmap \<Rightarrow> workflow_template list" where
  "list_skills skills = sort_key wt_id (hm_values skills)"

section \<open>Chains of skills\<close>

definition namespaced :: "string \<Rightarrow> string \<Rightarrow> string" where
  "namespaced sid nid = sid @ ''__'' @ nid"

text \<open>The node of a chain: dependencies inside the skill are renamed, roots wait for \<open>lasts\<close>.\<close>

definition chain_node :: "string \<Rightarrow> string list \<Rightarrow> string list \<Rightarrow> workflow_node_template \<Rightarrow> workflow_node_template" where
  "chain_node sid ids lasts n = n\<lparr>wn_id := namespaced sid (wn_id n),
     wn_dependencies := (if wn_dependencies n = [] \<and> lasts \<noteq> [] then lasts
       else map (\<lambda>d. if d \<in> set ids then namespaced sid d else d) (wn_dependencies n))\<rparr>"

fun chain_skill_nodes ::
    "string \<Rightarrow> string list \<Rightarrow> string list \<Rightarrow> workflow_node_template list \<Rightarrow> string list
      \<Rightarrow> string + workflow_node_template list \<times> string list" where
  "chain_skill_nodes sid ids lasts [] seen = Inr ([], seen)"
| "chain_skill_nodes sid ids lasts (n # ns) seen =
     (let i = namespaced sid (wn_id n) in
      if i \<in> set seen then Inl (''duplicate node id `'' @ i @ ''` after namespacing'')
      else (case chain_skill_nodes sid ids lasts ns (i # seen) of
          Inl e \<Rightarrow> Inl e
        | Inr (cs, seen) \<Rightarrow> Inr (chain_node sid ids lasts n # cs, seen)))"

definition terminals :: "workflow_node_template list \<Rightarrow> string list" where
  "terminals ns = map wn_id (filter (\<lambda>n. wn_id n \<notin> set (concat (map wn_dependencies ns))) ns)"

fun merge_parameters :: "workflow_parameter list \<Rightarrow> workflow_parameter list \<Rightarrow> workflow_parameter list" where
  "merge_parameters merged [] = merged"
| "merge_parameters merged (p # ps) =
     (if wp_name p \<in> wp_name ` set merged then merge_parameters merged ps
      else merge_parameters (merged @ [p]) ps)"

record chain_state =
  cn_nodes :: "workflow_node_template list"
  cn_lasts :: "string list"
  cn_seen :: "string list"
  cn_params :: "workflow_parameter list"

fun chain_loop ::
    "(string, string) hashmap \<Rightarrow> workflow_template list \<Rightarrow> chain_state \<Rightarrow> string + chain_state" where
  "chain_loop params [] st = Inr st"
| "chain_loop params (s # ss) st =
     (let t = interpolate_params s params in
      case chain_skill_nodes (wt_id s) (map wn_id (wt_nodes t)) (cn_lasts st) (wt_nodes t) (cn_seen st) of
        Inl e \<Rightarrow> Inl e
      | Inr (cs, seen) \<Rightarrow> chain_loop params ss
          \<lparr>cn_nodes = cn_nodes st @ cs, cn_lasts = terminals cs, cn_seen = seen,
           cn_params = merge_parameters (cn_params st) (wt_parameters t)\<rparr>)"

definition chain_skills ::
    "string \<Rightarrow> string \<Rightarrow> workflow_template list \<Rightarrow> (string, string) hashmap \<Rightarrow> string \<Rightarrow> string
      \<Rightarrow> string + workflow_template" where
  "chain_skills uid now skills params name description =
     (if skills = [] then Inl ''cannot chain an empty list of skills''
      else (case chain_loop params skills \<lparr>cn_nodes = [], cn_lasts = [], cn_seen = [], cn_params = []\<rparr> of
          Inl e \<Rightarrow> Inl e
        | Inr st \<Rightarrow> Inr \<lparr>wt_id = uid, wt_name = name, wt_description = description, wt_created = now,
            wt_updated = now, wt_source_run = None, wt_nodes = cn_nodes st,
            wt_parameters = cn_params st, wt_source = Source_Api\<rparr>))"

text \<open>The answer of the model; an opening fence without a closing one leaves the text as it was.\<close>

definition strip_suffix :: "string \<Rightarrow> string \<Rightarrow> string option" where
  "strip_suffix s pat = (if ends_with s pat then Some (take (length s - length pat) s) else None)"

definition chain_response_text :: "string \<Rightarrow> string" where
  "chain_response_text raw =
     (let t = trim raw;
          opened = (case strip_prefix t (fence @ ''json'') of Some s \<Rightarrow> s
            | None \<Rightarrow> (case strip_prefix t fence of Some s \<Rightarrow> s | None \<Rightarrow> t))
      in (case strip_suffix opened fence of Some s \<Rightarrow> s | None \<Rightarrow> t))"

definition parse_skill_chain_response :: "(string \<Rightarrow> json option) \<Rightarrow> string \<Rightarrow> string list \<Rightarrow> string list" where
  "parse_skill_chain_response parse raw available =
     (case parse (chain_response_text raw) of
        None \<Rightarrow> []
      | Some v \<Rightarrow>
          let candidates = (case j_array (case j_get v ''skills'' of Some s \<Rightarrow> s | None \<Rightarrow> v) of
                Some xs \<Rightarrow> xs | None \<Rightarrow> [])
          in filter (\<lambda>s. s \<in> set available) (List.map_filter j_str candidates))"

end
