(* ===== verification/Submission.thy ===== *)
theory Submission
  imports Skills Mentions Workspaces
begin

text \<open>
  How runs come to be: \<^verbatim>\<open>submit_run\<close> of \<^verbatim>\<open>src/orchestrator/run_manager.rs\<close>, and
  \<^verbatim>\<open>execute_workflow\<close>, \<^verbatim>\<open>save_workflow_from_run\<close>, \<^verbatim>\<open>retry_run\<close>, \<^verbatim>\<open>clone_run\<close> and the lookups of
  runs of \<^verbatim>\<open>src/orchestrator/mod.rs\<close>. Fresh identifiers and the clock are arguments. A submission
  is one step: what it does is under a run identifier nobody knows yet.
\<close>

section \<open>Requests\<close>

record run_request =
  rq_task :: string
  rq_profile :: task_profile
  rq_session :: "string option"
  rq_workflow :: "string option"
  rq_params :: "json option"
  rq_repo_url :: "string option"
  rq_assignee :: "string option"
  rq_team :: "string list option"
  rq_workspace :: "string option"
  rq_mentions :: "string list option"

record run_submission =
  rs_run :: string
  rs_session :: string
  rs_status :: run_status

record run_assignment =
  as_run :: string
  as_assignee :: "string option"
  as_team :: "string list option"

text \<open>
  The parts of the orchestrator a submission uses: \<open>sb_orch\<close> is the state of the run
  lifecycle, \<open>sb_db\<close> the database, \<open>sb_spawned\<close> the executors spawned with their requests.
\<close>

record submitter =
  sb_orch :: orch
  sb_db :: db
  sb_fs :: fs
  sb_skills :: "(string, workflow_template) hashmap"
  sb_assignments :: "(string, run_assignment) hashmap"
  sb_spawned :: "(string \<times> run_request) list"

record submit_env =
  sv_runs :: "run_record codec"
  sv_workflows :: workflow_codec
  sv_render :: "json \<Rightarrow> string"
  sv_builder :: builder_env
  sv_personas :: "string list"
  sv_sessions_root :: string

section \<open>The store as the orchestrator uses it\<close>

definition sb_upsert_run :: "submit_env \<Rightarrow> faults \<Rightarrow> run_record \<Rightarrow> submitter \<Rightarrow> (string + unit) \<times> submitter" where
  "sb_upsert_run env f r st = (case upsert_run (f_upsert f) r (sb_orch st) of
       (Inl e, s) \<Rightarrow> (Inl e, st)
     | (Inr _, s) \<Rightarrow> (Inr (), st\<lparr>sb_orch := s, sb_db := db_upsert_run (sv_runs env) (f_now f) r (sb_db st)\<rparr>))"

definition sb_record_action ::
    "string \<Rightarrow> string \<Rightarrow> string \<Rightarrow> string \<Rightarrow> run_action_type \<Rightarrow> string \<Rightarrow> string \<Rightarrow> string \<Rightarrow> submitter \<Rightarrow> submitter" where
  "sb_record_action eid now rid sid action actor_type actor payload st = st\<lparr>
     sb_orch := record_action_event rid action (sb_orch st),
     sb_db := snd (db_append_run_action_event eid now
       \<lparr>ei_run = rid, ei_session = sid, ei_action = action, ei_actor_type = Some actor_type,
        ei_actor = Some actor, ei_cause = None, ei_payload = payload\<rparr> (sb_db st))\<rparr>"

definition orch_create_session :: "submit_env \<Rightarrow> string \<Rightarrow> string \<Rightarrow> string \<Rightarrow> submitter \<Rightarrow> (string + unit) \<times> submitter" where
  "orch_create_session env now sid kind st =
     (case ensure_session_dir (sv_sessions_root env) sid (sb_fs st) of
        (Inl e, F) \<Rightarrow> (Inl e, st\<lparr>sb_fs := F\<rparr>)
      | (Inr _, F) \<Rightarrow> (Inr (), st\<lparr>sb_fs := F, sb_db := db_create_session now sid kind (sb_db st)\<rparr>))"

section \<open>Submitting\<close>

definition first_of :: "'a list option \<Rightarrow> 'a option" where
  "first_of xs = (case xs of Some (x # _) \<Rightarrow> Some x | _ \<Rightarrow> None)"

definition resolve_request :: "string list \<Rightarrow> string \<Rightarrow> run_request \<Rightarrow> run_request" where
  "resolve_request personas sid req =
     (let req = req\<lparr>rq_session := Some sid, rq_repo_url := (case rq_repo_url req of
            Some u \<Rightarrow> Some u | None \<Rightarrow> extract_repo_url_from_text (rq_task req))\<rparr>;
          parsed = parse_mentions (rq_task req) personas;
          req = (if rq_mentions req = None \<and> personas \<noteq> [] \<and> parsed \<noteq> []
            then req\<lparr>rq_mentions := Some parsed\<rparr> else req)
      in (if rq_assignee req = None then req\<lparr>rq_assignee := first_of (rq_mentions req)\<rparr> else req))"

definition routed_request ::
    "(string, workflow_template) hashmap \<Rightarrow> run_request \<Rightarrow> skill_route option \<times> run_request" where
  "routed_request skills req =
     (case (if rq_workflow req = None then auto_skill_route skills (rq_task req) (rq_repo_url req) else None) of
        None \<Rightarrow> (None, req)
      | Some r \<Rightarrow> (Some r, req\<lparr>rq_workflow := Some (ro_workflow r), rq_params := ro_params r\<rparr>))"

definition template_graph ::
    "submit_env \<Rightarrow> submitter \<Rightarrow> string \<Rightarrow> json option \<Rightarrow> string + workflow_template \<times> execution_graph" where
  "template_graph env st wid params =
     (case materialize_workflow_template (sv_workflows env) (sv_render env) (sb_skills st) (sb_db st) wid params of
        Inl e \<Rightarrow> Inl e
      | Inr t \<Rightarrow> (case build_workflow_graph_from_template (sv_builder env) (wt_nodes t) of
          Inl e \<Rightarrow> Inl e
        | Inr g \<Rightarrow> Inr (t, g)))"

definition put_graph :: "string \<Rightarrow> execution_graph \<Rightarrow> submitter \<Rightarrow> submitter" where
  "put_graph rid g st = st\<lparr>sb_orch := (sb_orch st)\<lparr>o_graphs := hm_insert (o_graphs (sb_orch st)) rid g\<rparr>\<rparr>"

definition is_team_request :: "run_request \<Rightarrow> bool" where
  "is_team_request req \<longleftrightarrow> rq_assignee req \<noteq> None \<or> rq_team req \<noteq> None
     \<or> (case rq_mentions req of Some (_ # _) \<Rightarrow> True | _ \<Rightarrow> False)"

definition queued_record :: "string \<Rightarrow> string \<Rightarrow> string \<Rightarrow> run_request \<Rightarrow> string list \<Rightarrow> run_record" where
  "queued_record now rid sid req lines' =
     (new_queued now rid sid (rq_task req) (rq_profile req))\<lparr>timeline := lines'\<rparr>"

definition route_line :: "string \<Rightarrow> skill_route \<Rightarrow> string" where
  "route_line now r = now @ '' auto-routed to skill '' @ [CHR 0x27] @ ro_workflow r @ [CHR 0x27] @ '' ('' @ ro_reason r @ '')''"

definition put_control :: "string \<Rightarrow> submitter \<Rightarrow> submitter" where
  "put_control rid st = st\<lparr>sb_orch := (sb_orch st)\<lparr>o_controls := hm_insert (o_controls (sb_orch st)) rid new_control\<rparr>\<rparr>"

definition record_mentions ::
    "submit_env \<Rightarrow> (nat \<Rightarrow> string) \<Rightarrow> string \<Rightarrow> string \<Rightarrow> string \<Rightarrow> run_request \<Rightarrow> submitter \<Rightarrow> submitter" where
  "record_mentions env eid now rid sid req st =
     fold (\<lambda>(k, who). sb_record_action (eid k) now rid sid RA_MentionReceived ''user'' who
            (sv_render env (J_Object [(''persona_name'', J_String who), (''task'', J_String (rq_task req))])))
       (enumerate 0 (case rq_mentions req of None \<Rightarrow> [] | Some ms \<Rightarrow> ms)) st"

text \<open>The payload of the last event is \<open>queued_payload\<close>: the profile, the task and the routing.\<close>

definition spawn_run ::
    "string \<Rightarrow> string \<Rightarrow> string \<Rightarrow> string \<Rightarrow> string \<Rightarrow> run_request \<Rightarrow> submitter \<Rightarrow> (string + run_submission) \<times> submitter" where
  "spawn_run eid now queued_payload rid sid req st =
     (let st = put_control rid st;
          st = sb_record_action eid now rid sid RA_RunQueued ''run'' rid queued_payload st
      in (Inr \<lparr>rs_run = rid, rs_session = sid, rs_status = RS_Queued\<rparr>,
          st\<lparr>sb_spawned := sb_spawned st @ [(rid, req)]\<rparr>))"

definition enqueue_run :: "submit_env \<Rightarrow> faults \<Rightarrow> run_record \<Rightarrow> submitter \<Rightarrow> (string + unit) \<times> submitter" where
  "enqueue_run env f r st =
     sb_upsert_run env f r (st\<lparr>sb_orch := put_run (run_id r) r (sb_orch st)\<rparr>)"

definition opt_json :: "string option \<Rightarrow> json" where
  "opt_json s = (case s of None \<Rightarrow> J_Null | Some t \<Rightarrow> J_String t)"

definition queued_payload :: "run_request \<Rightarrow> skill_route option \<Rightarrow> json" where
  "queued_payload req route = J_Object [(''profile'', J_String (task_profile_display (rq_profile req))),
     (''task'', J_String (rq_task req)), (''workflow_id'', opt_json (rq_workflow req)),
     (''workflow_params'', case rq_params req of None \<Rightarrow> J_Null | Some p \<Rightarrow> p),
     (''routing'', case route of None \<Rightarrow> J_Null | Some r \<Rightarrow>
        J_Object [(''type'', J_String ''skill''), (''workflow_id'', J_String (ro_workflow r)), (''reason'', J_String (ro_reason r))])]"

definition bind_workspace :: "string \<Rightarrow> run_request \<Rightarrow> submitter \<Rightarrow> submitter" where
  "bind_workspace sid req st = (case rq_workspace req of
       None \<Rightarrow> st
     | Some w \<Rightarrow> (case db_set_session_workspace sid (Some w) (sb_db st) of
         Inl _ \<Rightarrow> st | Inr d \<Rightarrow> st\<lparr>sb_db := d\<rparr>))"

definition record_assignment :: "string \<Rightarrow> run_request \<Rightarrow> submitter \<Rightarrow> submitter" where
  "record_assignment rid req st = (if is_team_request req then st\<lparr>sb_assignments :=
       hm_insert (sb_assignments st) rid \<lparr>as_run = rid, as_assignee = rq_assignee req, as_team = rq_team req\<rparr>\<rparr>
     else st)"

text \<open>The part of \<^verbatim>\<open>submit_run\<close> after the graph of the workflow is stored.\<close>

definition submit_resolved ::
    "submit_env \<Rightarrow> (nat \<Rightarrow> string) \<Rightarrow> faults \<Rightarrow> string \<Rightarrow> string \<Rightarrow> run_request \<Rightarrow> skill_route option
      \<Rightarrow> submitter \<Rightarrow> (string + run_submission) \<times> submitter" where
  "submit_resolved env eid f rid sid req route st =
     (case orch_create_session env (f_now f) sid (if is_team_request req then ''team'' else ''general'') st of
        (Inl e, st) \<Rightarrow> (Inl e, st)
      | (Inr _, st) \<Rightarrow>
          let st = bind_workspace sid req st;
              r = queued_record (f_now f) rid sid req ((f_now f @ '' run queued'')
                # (case route of None \<Rightarrow> [] | Some x \<Rightarrow> [route_line (f_now f) x]))
          in (case enqueue_run env f r st of
                (Inl e, st) \<Rightarrow> (Inl e, st)
              | (Inr _, st) \<Rightarrow>
                  let st = record_assignment rid req st;
                      st = record_mentions env eid (f_now f) rid sid req st;
                      n = (case rq_mentions req of None \<Rightarrow> 0 | Some ms \<Rightarrow> length ms)
                  in spawn_run (eid n) (f_now f) (sv_render env (queued_payload req route)) rid sid req st))"

definition submit_run ::
    "submit_env \<Rightarrow> (nat \<Rightarrow> string) \<Rightarrow> faults \<Rightarrow> string \<Rightarrow> string \<Rightarrow> run_request \<Rightarrow> submitter
      \<Rightarrow> (string + run_submission) \<times> submitter" where
  "submit_run env eid f rid fresh_sid req st =
     (let sid = (case rq_session req of Some s \<Rightarrow> s | None \<Rightarrow> fresh_sid)
      in (case routed_request (sb_skills st) (resolve_request (sv_personas env) sid req) of
            (route, req) \<Rightarrow>
              (case rq_workflow req of
                 None \<Rightarrow> submit_resolved env eid f rid sid req route st
               | Some wid \<Rightarrow> (case template_graph env st wid (rq_params req) of
                     Inl e \<Rightarrow> (Inl e, st)
                   | Inr (t, g) \<Rightarrow> submit_resolved env eid f rid sid req route (put_graph rid g st)))))"

text \<open>The session under which \<^verbatim>\<open>execute_run\<close> acts and records; \<open>fresh\<close> is an identifier it makes.\<close>

definition executor_session :: "string \<Rightarrow> run_request \<Rightarrow> string" where
  "executor_session fresh req = (case rq_session req of Some s \<Rightarrow> s | None \<Rightarrow> fresh)"

section \<open>Workflows\<close>

definition workflow_task :: "submit_env \<Rightarrow> workflow_template \<Rightarrow> json option \<Rightarrow> string" where
  "workflow_task env t params = ''Workflow: '' @ wt_name t @ '' ('' @
     (case params of None \<Rightarrow> [] | Some p \<Rightarrow> sv_render env p) @ '')''"

definition execute_workflow ::
    "submit_env \<Rightarrow> string \<Rightarrow> faults \<Rightarrow> string \<Rightarrow> string \<Rightarrow> string \<Rightarrow> json option \<Rightarrow> string option \<Rightarrow> submitter
      \<Rightarrow> (string + run_submission) \<times> submitter" where
  "execute_workflow env eid f rid fresh_sid wid params session st =
     (case template_graph env st wid params of
        Inl e \<Rightarrow> (Inl e, st)
      | Inr (t, g) \<Rightarrow>
          let req = \<lparr>rq_task = workflow_task env t params, rq_profile = General, rq_session = session,
                rq_workflow = Some wid, rq_params = params, rq_repo_url = None, rq_assignee = None,
                rq_team = None, rq_workspace = None, rq_mentions = None\<rparr>;
              sid = (case session of Some s \<Rightarrow> s | None \<Rightarrow> fresh_sid);
              st = put_graph rid g st
          in (case orch_create_session env (f_now f) sid ''general'' st of
                (Inl e, st) \<Rightarrow> (Inl e, st)
              | (Inr _, st) \<Rightarrow>
                  (case enqueue_run env f (queued_record (f_now f) rid sid req [f_now f @ '' run queued (workflow)'']) st of
                     (Inl e, st) \<Rightarrow> (Inl e, st)
                   | (Inr _, st) \<Rightarrow> spawn_run eid (f_now f) (sv_render env (J_Object
                         [(''profile'', J_String (task_profile_display General)), (''task'', J_String (rq_task req)),
                          (''workflow_id'', J_String wid)])) rid sid req st)))"

text \<open>
  \<open>nodes_of\<close> reads the nodes of a template from the payload of an event; it is none when there
  are none, or when they lack a field of a template node.
\<close>

definition save_workflow_from_run ::
    "workflow_codec \<Rightarrow> (string \<Rightarrow> workflow_node_template list option) \<Rightarrow> string \<Rightarrow> string \<Rightarrow> string \<Rightarrow> string \<Rightarrow> string
      \<Rightarrow> db \<Rightarrow> (string + workflow_template) \<times> db" where
  "save_workflow_from_run c nodes_of uid now rid name description d =
     (case db_list_run_action_events rid 500 d of
        Inl e \<Rightarrow> (Inl ''event row cannot be read'', d)
      | Inr es \<Rightarrow> (case find (\<lambda>e. re_action e = RA_GraphInitialized) es of
            None \<Rightarrow> (Inl (''no graph found for run '' @ rid), d)
          | Some e \<Rightarrow>
              let t = \<lparr>wt_id = uid, wt_name = name, wt_description = description, wt_created = now,
                    wt_updated = now, wt_source_run = Some rid,
                    wt_nodes = (case nodes_of (re_payload e) of None \<Rightarrow> [] | Some ns \<Rightarrow> ns),
                    wt_parameters = [], wt_source = default_skill_source\<rparr>
              in (Inr t, db_save_workflow c t d)))"

section \<open>Looking up and repeating runs\<close>

definition orch_get_run :: "submit_env \<Rightarrow> string \<Rightarrow> submitter \<Rightarrow> string + run_record option" where
  "orch_get_run env rid st = (case hm_get (o_runs (sb_orch st)) rid of
       Some r \<Rightarrow> Inr (Some r)
     | None \<Rightarrow> (case db_get_run (sv_runs env) rid (sb_db st) of
         Inl e \<Rightarrow> Inl ''run row cannot be read'' | Inr r \<Rightarrow> Inr r))"

definition orch_list_recent_runs :: "submit_env \<Rightarrow> nat \<Rightarrow> submitter \<Rightarrow> string + run_record list" where
  "orch_list_recent_runs env limit st = (case db_list_recent_runs (sv_runs env) limit (sb_db st) of
       Inl e \<Rightarrow> Inl ''run row cannot be read''
     | Inr rs \<Rightarrow>
         let more = filter (\<lambda>r. run_id r \<notin> run_id ` set rs) (hm_values (o_runs (sb_orch st)))
         in Inr (take limit (order_desc created_at (rs @ more))))"

definition list_active_runs :: "submitter \<Rightarrow> run_record list" where
  "list_active_runs st = order_desc created_at
     (filter (\<lambda>r. run_status r \<in> {RS_Running, RS_Queued}) (hm_values (o_runs (sb_orch st))))"

definition request_again :: "run_record \<Rightarrow> string \<Rightarrow> run_request" where
  "request_again r sid = \<lparr>rq_task = run_task r, rq_profile = run_profile r, rq_session = Some sid,
     rq_workflow = None, rq_params = None, rq_repo_url = None, rq_assignee = None, rq_team = None,
     rq_workspace = None, rq_mentions = None\<rparr>"

definition clone_run ::
    "submit_env \<Rightarrow> (nat \<Rightarrow> string) \<Rightarrow> faults \<Rightarrow> string \<Rightarrow> string \<Rightarrow> string \<Rightarrow> string option \<Rightarrow> submitter
      \<Rightarrow> (string + run_submission) \<times> submitter" where
  "clone_run env eid f rid fresh_sid old target st = (case orch_get_run env old st of
       Inl e \<Rightarrow> (Inl e, st)
     | Inr None \<Rightarrow> (Inl ''run not found'', st)
     | Inr (Some r) \<Rightarrow> submit_run env eid f rid fresh_sid
         (request_again r (case target of Some s \<Rightarrow> s | None \<Rightarrow> session_id r)) st)"

definition retry_run ::
    "submit_env \<Rightarrow> (nat \<Rightarrow> string) \<Rightarrow> faults \<Rightarrow> string \<Rightarrow> string \<Rightarrow> string \<Rightarrow> submitter
      \<Rightarrow> (string + run_submission) \<times> submitter" where
  "retry_run env eid f rid fresh_sid old st = (case orch_get_run env old st of
       Inl e \<Rightarrow> (Inl e, st)
     | Inr None \<Rightarrow> (Inl ''run not found'', st)
     | Inr (Some r) \<Rightarrow> submit_run env eid f rid fresh_sid (request_again r (session_id r)) st)"

end
