(* ===== verification/Submission_Properties.thy ===== *)
theory Submission_Properties
  imports Submission Run_Lifecycle
begin

text \<open>
  Theorems about submissions: a submission that succeeds starts the run lifecycle with a queued
  run in a stored session, one that fails starts nothing; a mention makes the trace of its run
  unreadable; what is lost when a run is repeated or saved as a workflow.
\<close>

section \<open>What the steps change\<close>

lemma create_session_effect:
  assumes "orch_create_session env now sid kind st = (r, st1)"
  shows "sb_orch st1 = sb_orch st \<and> sb_spawned st1 = sb_spawned st
    \<and> (r = Inr () \<longrightarrow> sb_db st1 = db_create_session now sid kind (sb_db st))"
  using assms by (auto simp: orch_create_session_def split: prod.splits sum.splits)

lemma bind_workspace_effect:
  "sb_orch (bind_workspace sid req st) = sb_orch st" "sb_spawned (bind_workspace sid req st) = sb_spawned st"
  by (simp_all add: bind_workspace_def split: option.split sum.split)

lemma enqueue_effect:
  assumes "enqueue_run env f r st = (res, st1)"
  shows "sb_spawned st1 = sb_spawned st \<and> o_controls (sb_orch st1) = o_controls (sb_orch st)
    \<and> o_graphs (sb_orch st1) = o_graphs (sb_orch st)
    \<and> o_runs (sb_orch st1) = hm_insert (o_runs (sb_orch st)) (run_id r) r
    \<and> (case res of Inl e \<Rightarrow> f_upsert f = Some e \<and> sb_db st1 = sb_db st
        | Inr _ \<Rightarrow> sb_db st1 = db_upsert_run (sv_runs env) (f_now f) r (sb_db st))"
  using assms
  by (auto simp: enqueue_run_def sb_upsert_run_def upsert_run_def put_run_def split: option.splits)

lemma record_action_effect [simp]:
  "sb_spawned (sb_record_action eid now rid sid a t who p st) = sb_spawned st"
  "o_controls (sb_orch (sb_record_action eid now rid sid a t who p st)) = o_controls (sb_orch st)"
  "o_graphs (sb_orch (sb_record_action eid now rid sid a t who p st)) = o_graphs (sb_orch st)"
  "o_runs (sb_orch (sb_record_action eid now rid sid a t who p st)) = o_runs (sb_orch st)"
  "t_sessions (sb_db (sb_record_action eid now rid sid a t who p st)) = t_sessions (sb_db st)"
  "t_runs (sb_db (sb_record_action eid now rid sid a t who p st)) = t_runs (sb_db st)"
  by (simp_all add: sb_record_action_def record_action_event_def db_append_run_action_event_def insert_event_def)

lemma record_mentions_effect [simp]:
  "sb_spawned (record_mentions env eid now rid sid req st) = sb_spawned st"
  "o_controls (sb_orch (record_mentions env eid now rid sid req st)) = o_controls (sb_orch st)"
  "o_graphs (sb_orch (record_mentions env eid now rid sid req st)) = o_graphs (sb_orch st)"
  "o_runs (sb_orch (record_mentions env eid now rid sid req st)) = o_runs (sb_orch st)"
  "t_sessions (sb_db (record_mentions env eid now rid sid req st)) = t_sessions (sb_db st)"
  "t_runs (sb_db (record_mentions env eid now rid sid req st)) = t_runs (sb_db st)"
proof -
  have "sb_spawned (fold (\<lambda>(k, who). sb_record_action (eid k) now rid sid RA_MentionReceived ''user'' who (p who)) kms st)
        = sb_spawned st
      \<and> o_controls (sb_orch (fold (\<lambda>(k, who). sb_record_action (eid k) now rid sid RA_MentionReceived ''user'' who (p who)) kms st))
        = o_controls (sb_orch st)
      \<and> o_graphs (sb_orch (fold (\<lambda>(k, who). sb_record_action (eid k) now rid sid RA_MentionReceived ''user'' who (p who)) kms st))
        = o_graphs (sb_orch st)
      \<and> o_runs (sb_orch (fold (\<lambda>(k, who). sb_record_action (eid k) now rid sid RA_MentionReceived ''user'' who (p who)) kms st))
        = o_runs (sb_orch st)
      \<and> t_sessions (sb_db (fold (\<lambda>(k, who). sb_record_action (eid k) now rid sid RA_MentionReceived ''user'' who (p who)) kms st))
        = t_sessions (sb_db st)
      \<and> t_runs (sb_db (fold (\<lambda>(k, who). sb_record_action (eid k) now rid sid RA_MentionReceived ''user'' who (p who)) kms st))
        = t_runs (sb_db st)" for kms p
    by (induction kms arbitrary: st) auto
  then show "sb_spawned (record_mentions env eid now rid sid req st) = sb_spawned st"
    "o_controls (sb_orch (record_mentions env eid now rid sid req st)) = o_controls (sb_orch st)"
    "o_graphs (sb_orch (record_mentions env eid now rid sid req st)) = o_graphs (sb_orch st)"
    "o_runs (sb_orch (record_mentions env eid now rid sid req st)) = o_runs (sb_orch st)"
    "t_sessions (sb_db (record_mentions env eid now rid sid req st)) = t_sessions (sb_db st)"
    "t_runs (sb_db (record_mentions env eid now rid sid req st)) = t_runs (sb_db st)"
    by (simp_all add: record_mentions_def)
qed

lemma record_assignment_effect [simp]:
  "sb_orch (record_assignment rid req st) = sb_orch st" "sb_db (record_assignment rid req st) = sb_db st"
  "sb_spawned (record_assignment rid req st) = sb_spawned st"
  by (simp_all add: record_assignment_def)

lemma spawn_effect:
  assumes "spawn_run eid now p rid sid req st = (r, st1)"
  shows "r = Inr \<lparr>rs_run = rid, rs_session = sid, rs_status = RS_Queued\<rparr>
    \<and> sb_spawned st1 = sb_spawned st @ [(rid, req)]
    \<and> o_controls (sb_orch st1) = hm_insert (o_controls (sb_orch st)) rid new_control
    \<and> o_graphs (sb_orch st1) = o_graphs (sb_orch st) \<and> o_runs (sb_orch st1) = o_runs (sb_orch st)
    \<and> t_sessions (sb_db st1) = t_sessions (sb_db st) \<and> t_runs (sb_db st1) = t_runs (sb_db st)"
  using assms by (auto simp: spawn_run_def Let_def put_control_def)

lemma session_created: "has_key se_id sid (t_sessions (db_create_session now sid kind d))"
  by (auto simp: db_create_session_def insert_row_def has_key_def split: if_splits)

lemma session_bound:
  "has_key se_id s (t_sessions (sb_db (bind_workspace sid req st))) = has_key se_id s (t_sessions (sb_db st))"
  by (simp add: bind_workspace_def db_set_session_workspace_def has_key_def Let_def map_update_where
      del: set_map split: option.split sum.split)

lemma template_graph_fresh: "template_graph env st wid params = Inr (t, g) \<Longrightarrow> fresh_graph g"
proof -
  have loop: "fresh_graph g0 \<Longrightarrow> build_workflow_loop b g0 ns = Inr g \<Longrightarrow> fresh_graph g" for b g0 ns g
  proof (induction ns arbitrary: g0)
    case (Cons n ns)
    obtain a where a: "workflow_node_to_agent_node n = Inr a"
      using Cons.prems(2) by (auto split: sum.splits)
    obtain g1 where g1: "add_graph_node b g0 a = (Inr (), g1)" "build_workflow_loop b g1 ns = Inr g"
      using Cons.prems(2) a by (auto split: sum.splits prod.splits)
    have "fresh_graph g1"
      using fresh_add_node [OF Cons.prems(1), of "normalize_node_policy_for_runtime b a"] g1(1)
      by (simp add: add_graph_node_def)
    with Cons.IH g1(2) show ?case by blast
  qed simp
  assume "template_graph env st wid params = Inr (t, g)"
  then have "build_workflow_graph_from_template (sv_builder env) (wt_nodes t) = Inr g"
    by (auto simp: template_graph_def split: sum.splits)
  then show ?thesis
    unfolding build_workflow_graph_from_template_def by (rule loop [OF fresh_new_graph])
qed

section \<open>Submission\<close>

text \<open>What a submission leaves behind once its graph is in place.\<close>

definition started :: "submitter \<Rightarrow> string \<Rightarrow> run_submission \<Rightarrow> run_request \<Rightarrow> submitter \<Rightarrow> bool" where
  "started st rid sub req st' \<longleftrightarrow> rs_run sub = rid \<and> rs_status sub = RS_Queued
     \<and> sb_spawned st' = sb_spawned st @ [(rid, req)] \<and> rq_session req = Some (rs_session sub)
     \<and> life_init rid (Spawned, sb_orch st')
     \<and> has_key se_id (rs_session sub) (t_sessions (sb_db st'))"

lemma submit_resolved_Inr:
  assumes sub: "submit_resolved env eid f rid sid req route st = (Inr sub, st')"
    and g: "case hm_get (o_graphs (sb_orch st)) rid of None \<Rightarrow> True | Some g \<Rightarrow> fresh_graph g"
    and sid: "rq_session req = Some sid"
  shows "started st rid sub req st'"
proof -
  obtain st1 where st1: "orch_create_session env (f_now f) sid (if is_team_request req then ''team'' else ''general'') st = (Inr (), st1)"
    using sub by (auto simp: submit_resolved_def split: prod.splits sum.splits)
  obtain r where r: "r = queued_record (f_now f) rid sid req ((f_now f @ '' run queued'')
      # (case route of None \<Rightarrow> [] | Some x \<Rightarrow> [route_line (f_now f) x]))" by blast
  obtain st2 where st2: "enqueue_run env f r (bind_workspace sid req st1) = (Inr (), st2)"
    using sub st1 by (auto simp: submit_resolved_def r Let_def split: prod.splits sum.splits)
  obtain e p where sp: "spawn_run e (f_now f) p rid sid req
      (record_mentions env eid (f_now f) rid sid req (record_assignment rid req st2)) = (Inr sub, st')"
    using sub st1 st2 by (auto simp: submit_resolved_def r Let_def split: prod.splits sum.splits)
  note c = create_session_effect [OF st1]
  note q = enqueue_effect [OF st2]
  note s = spawn_effect [OF sp]
  have "run_id r = rid" "run_status r = RS_Queued" by (simp_all add: r queued_record_def new_queued_def)
  then have "run_status_of (sb_orch st') rid = Some RS_Queued"
    using s q by (simp add: run_status_of_def hm_simps)
  moreover have "o_graphs (sb_orch st') = o_graphs (sb_orch st)"
    using s q c by (simp add: bind_workspace_effect)
  moreover have "t_sessions (sb_db st') = t_sessions (sb_db (bind_workspace sid req st1))"
    using s q by (simp add: db_upsert_run_def)
  then have "has_key se_id sid (t_sessions (sb_db st'))"
    using c session_created by (simp add: session_bound)
  ultimately show ?thesis
    using s q c g sid by (simp add: started_def life_init_def bind_workspace_effect hm_simps)
qed

lemma resolve_request_session: "rq_session (resolve_request personas sid req) = Some sid"
  "rq_task (resolve_request personas sid req) = rq_task req"
  by (simp_all add: resolve_request_def Let_def)

lemma routed_request_session:
  "routed_request skills req = (route, req') \<Longrightarrow> rq_session req' = rq_session req \<and> rq_task req' = rq_task req"
  by (auto simp: routed_request_def split: option.splits if_splits)

lemma submit_run_cases:
  assumes "submit_run env eid f rid fresh_sid req st = (x, st')"
    and sid: "sid = (case rq_session req of Some s \<Rightarrow> s | None \<Rightarrow> fresh_sid)"
    and rr: "routed_request (sb_skills st) (resolve_request (sv_personas env) sid req) = (route, req')"
  obtains (failed) "isl x" "st' = st"
  | (plain) "submit_resolved env eid f rid sid req' route st = (x, st')"
  | (graph) g where "fresh_graph g" "submit_resolved env eid f rid sid req' route (put_graph rid g st) = (x, st')"
proof (cases "rq_workflow req'")
  case None
  then show thesis using assms plain by (simp add: submit_run_def Let_def)
next
  case (Some wid)
  show thesis
  proof (cases "template_graph env st wid (rq_params req')")
    case (Inl e)
    then show thesis using assms Some failed by (auto simp: submit_run_def Let_def)
  next
    case (Inr tg)
    obtain t g where "tg = (t, g)" by fastforce
    then show thesis
      using assms Some Inr graph [of g] template_graph_fresh [of env st wid "rq_params req'" t g]
      by (simp add: submit_run_def Let_def)
  qed
qed

text \<open>
  C27: a submission that succeeds answers with the fresh run, queued; spawns exactly one
  executor, with the request as it was completed; the session exists in the store; and the run
  is in the initial state of the run lifecycle, so that all theorems on its executor apply.
\<close>

theorem submit_starts_run:
  assumes "hm_get (o_graphs (sb_orch st)) rid = None"
    and "submit_run env eid f rid fresh_sid req st = (Inr sub, st')"
  shows "\<exists>req'. rq_task req' = rq_task req \<and> started st rid sub req' st'
    \<and> rs_session sub = (case rq_session req of Some s \<Rightarrow> s | None \<Rightarrow> fresh_sid)"
proof -
  let ?sid = "case rq_session req of Some s \<Rightarrow> s | None \<Rightarrow> fresh_sid"
  obtain route req' where rr: "routed_request (sb_skills st) (resolve_request (sv_personas env) ?sid req) = (route, req')"
    by fastforce
  have req': "rq_session req' = Some ?sid" "rq_task req' = rq_task req"
    using routed_request_session [OF rr] by (simp_all add: resolve_request_session)
  from assms(2) refl rr show ?thesis
  proof (cases rule: submit_run_cases)
    case plain
    from submit_resolved_Inr [OF this _ req'(1)] show ?thesis
      using assms(1) req' by (auto simp: started_def)
  next
    case (graph g)
    then have "started (put_graph rid g st) rid sub req' st'"
      by (intro submit_resolved_Inr [OF graph(2) _ req'(1)]) (simp add: put_graph_def hm_simps)
    then show ?thesis using req' by (auto simp: started_def put_graph_def)
  qed simp
qed

section \<open>The events of a submission\<close>

lemma record_action_events:
  "run_events rid (sb_db (sb_record_action eid now rid sid a t who p st)) =
     run_events rid (sb_db st) @ [event_row_of (Suc (seq_events (sb_db st))) eid now
       \<lparr>ei_run = rid, ei_session = sid, ei_action = a, ei_actor_type = Some t, ei_actor = Some who,
        ei_cause = None, ei_payload = p\<rparr>]"
  by (simp add: sb_record_action_def db_append_run_action_event_def insert_event_def run_events_def
      event_row_of_def)

lemma record_action_reachable:
  "db_reachable (sb_db st) \<Longrightarrow> db_reachable (sb_db (sb_record_action eid now rid sid a t who p st))"
  by (simp add: sb_record_action_def del: snd_conv) (blast intro: db_reachable_step db_step.intros(5))

lemma record_mentions_events:
  assumes "db_reachable (sb_db st)"
  shows "db_reachable (sb_db (record_mentions env eid now rid sid req st))
    \<and> map ev_action (run_events rid (sb_db (record_mentions env eid now rid sid req st))) =
        map ev_action (run_events rid (sb_db st)) @
        replicate (length (case rq_mentions req of None \<Rightarrow> [] | Some ms \<Rightarrow> ms)) (run_action_display RA_MentionReceived)"
proof -
  have "db_reachable (sb_db st) \<Longrightarrow>
      db_reachable (sb_db (fold (\<lambda>(k, who). sb_record_action (eid k) now rid sid RA_MentionReceived ''user'' who (p who)) kms st))
      \<and> map ev_action (run_events rid (sb_db (fold (\<lambda>(k, who). sb_record_action (eid k) now rid sid RA_MentionReceived ''user'' who (p who)) kms st))) =
        map ev_action (run_events rid (sb_db st)) @ replicate (length kms) (run_action_display RA_MentionReceived)" for kms p
    by (induction kms arbitrary: st)
      (auto simp: record_action_events event_row_of_def record_action_reachable)
  with assms show ?thesis by (simp add: record_mentions_def)
qed

lemma bind_workspace_reachable:
  "db_reachable (sb_db st) \<Longrightarrow> db_reachable (sb_db (bind_workspace sid req st))"
  unfolding bind_workspace_def
  by (auto intro: db_reachable_step db_step.intros(32) split: option.split sum.split)

lemma db_unrelated_events [simp]:
  "run_events rid (db_create_session now sid kind d) = run_events rid d"
  "run_events rid (db_upsert_run c now r d) = run_events rid d"
  "run_events rid (sb_db (bind_workspace sid req st)) = run_events rid (sb_db st)"
  by (auto simp: run_events_def db_create_session_def db_upsert_run_def bind_workspace_def
      db_set_session_workspace_def split: option.split sum.split)

lemma submit_resolved_events:
  assumes "db_reachable (sb_db st)"
    and sub: "submit_resolved env eid f rid sid req route st = (Inr sub, st')"
  shows "db_reachable (sb_db st')
    \<and> map ev_action (run_events rid (sb_db st')) = map ev_action (run_events rid (sb_db st)) @
        replicate (length (case rq_mentions req of None \<Rightarrow> [] | Some ms \<Rightarrow> ms)) (run_action_display RA_MentionReceived)
        @ [run_action_display RA_RunQueued]"
proof -
  obtain st1 where st1: "orch_create_session env (f_now f) sid (if is_team_request req then ''team'' else ''general'') st = (Inr (), st1)"
    using sub by (auto simp: submit_resolved_def split: prod.splits sum.splits)
  obtain r st2 where st2: "enqueue_run env f r (bind_workspace sid req st1) = (Inr (), st2)"
    and sp: "spawn_run (eid (case rq_mentions req of None \<Rightarrow> 0 | Some ms \<Rightarrow> length ms)) (f_now f) (sv_render env (queued_payload req route)) rid sid req
      (record_mentions env eid (f_now f) rid sid req (record_assignment rid req st2)) = (Inr sub, st')"
    using sub st1 by (auto simp: submit_resolved_def Let_def split: prod.splits sum.splits)
  have "sb_db st1 = db_create_session (f_now f) sid (if is_team_request req then ''team'' else ''general'') (sb_db st)"
    using create_session_effect [OF st1] by simp
  then have 1: "db_reachable (sb_db st1)" "run_events rid (sb_db st1) = run_events rid (sb_db st)"
    using assms(1) by (simp_all add: db_reachable_step [OF _ db_step.intros(1)])
  have "sb_db st2 = db_upsert_run (sv_runs env) (f_now f) r (sb_db (bind_workspace sid req st1))"
    using enqueue_effect [OF st2] by simp
  then have 2: "db_reachable (sb_db st2)" "run_events rid (sb_db st2) = run_events rid (sb_db st)"
    using 1 by (simp_all add: db_reachable_step [OF _ db_step.intros(4)] bind_workspace_reachable)
  show ?thesis
    using sp record_mentions_events [of "record_assignment rid req st2" env eid "f_now f" rid sid req] 2
    by (auto simp: spawn_run_def Let_def put_control_def record_action_events event_row_of_def
        intro!: record_action_reachable)
qed

lemma mention_row_unreadable:
  "ev_action r = run_action_display RA_MentionReceived \<Longrightarrow> isl (event_of_row r)"
  using parse_run_action_display [of RA_MentionReceived] by (simp add: event_of_row_def parsed_actions_def)

lemma queued_row_readable:
  "ev_action r = run_action_display RA_RunQueued \<Longrightarrow> \<exists>e. event_of_row r = Inr e \<and> re_action e = RA_RunQueued"
  using parse_run_action_display [of RA_RunQueued] by (simp add: event_of_row_def parsed_actions_def)

lemma resolved_mentions:
  assumes "db_reachable (sb_db st)" and "run_events rid (sb_db st) = []" and "0 < limit"
    and "submit_resolved env eid f rid sid req route st = (Inr sub, st')"
  shows "case rq_mentions req of
       Some (_ # _) \<Rightarrow> isl (db_list_run_action_events rid limit (sb_db st'))
     | _ \<Rightarrow> \<exists>e. db_list_run_action_events rid limit (sb_db st') = Inr [e] \<and> re_action e = RA_RunQueued"
proof -
  let ?es = "run_events rid (sb_db st')"
  let ?n = "length (case rq_mentions req of None \<Rightarrow> [] | Some ms \<Rightarrow> ms)"
  have reach: "db_reachable (sb_db st')"
    and acts: "map ev_action ?es = replicate ?n (run_action_display RA_MentionReceived) @ [run_action_display RA_RunQueued]"
    using submit_resolved_events [OF assms(1) assms(4)] assms(2) by simp_all
  obtain r rs where es: "?es = r # rs" using acts by (cases ?es) auto
  then have take: "r \<in> set (take limit ?es)" using assms(3) by (cases limit) auto
  show ?thesis
  proof (cases "?n = 0")
    case True
    then have "rs = []" "ev_action r = run_action_display RA_RunQueued" using acts es by auto
    moreover from this(2) obtain e where "event_of_row r = Inr e" "re_action e = RA_RunQueued"
      using queued_row_readable by blast
    ultimately show ?thesis
      using True es assms(3) by (auto simp: list_events_eq [OF reach] take_Cons' split: option.split list.split)
  next
    case False
    then have "ev_action r = run_action_display RA_MentionReceived" using acts es by (cases ?n) auto
    then have "isl (db_list_run_action_events rid limit (sb_db st'))"
      using collect_rows_Inl [OF take, of event_of_row] mention_row_unreadable by (simp add: list_events_eq [OF reach])
    with False show ?thesis by (auto split: option.split list.split)
  qed
qed

text \<open>
  A submission with a mention is accepted, but the events of its run can never be listed,
  because the first of them is one the store does not read back; without a mention the listing
  is the event of queueing.
\<close>

theorem mentions_break_trace:
  assumes "db_reachable (sb_db st)" and "run_events rid (sb_db st) = []" and "0 < limit"
    and "submit_run env eid f rid fresh_sid req st = (Inr sub, st')"
  shows "case rq_mentions (resolve_request (sv_personas env) (rs_session sub) req) of
       Some (_ # _) \<Rightarrow> isl (db_list_run_action_events rid limit (sb_db st'))
     | _ \<Rightarrow> \<exists>e. db_list_run_action_events rid limit (sb_db st') = Inr [e] \<and> re_action e = RA_RunQueued"
proof -
  let ?sid = "case rq_session req of Some s \<Rightarrow> s | None \<Rightarrow> fresh_sid"
  obtain route req' where rr: "routed_request (sb_skills st) (resolve_request (sv_personas env) ?sid req) = (route, req')"
    by fastforce
  have m: "rq_mentions req' = rq_mentions (resolve_request (sv_personas env) ?sid req)"
    using rr by (auto simp: routed_request_def split: option.splits)
  have sid: "rs_session sub = ?sid" if "submit_resolved env eid f rid ?sid req' route s0 = (Inr sub, st')" for s0
    using that by (auto simp: submit_resolved_def spawn_run_def Let_def split: prod.splits sum.splits)
  from assms(4) refl rr show ?thesis
  proof (cases rule: submit_run_cases)
    case plain
    from resolved_mentions [OF assms(1-3) this] sid [OF this] show ?thesis by (simp add: m)
  next
    case (graph g)
    have "db_reachable (sb_db (put_graph rid g st))" "run_events rid (sb_db (put_graph rid g st)) = []"
      using assms(1,2) by (simp_all add: put_graph_def)
    from resolved_mentions [OF this assms(3) graph(2)] sid [OF graph(2)] show ?thesis by (simp add: m)
  qed simp
qed

section \<open>Submissions that fail\<close>

definition not_started :: "submitter \<Rightarrow> string \<Rightarrow> string option \<Rightarrow> submitter \<Rightarrow> bool" where
  "not_started st rid refused st' \<longleftrightarrow> sb_spawned st' = sb_spawned st
     \<and> o_controls (sb_orch st') = o_controls (sb_orch st)
     \<and> (case refused of
          None \<Rightarrow> o_runs (sb_orch st') = o_runs (sb_orch st)
        | Some _ \<Rightarrow> o_runs (sb_orch st') = o_runs (sb_orch st)
            \<or> run_status_of (sb_orch st') rid = Some RS_Queued)"

lemma submit_resolved_Inl:
  assumes "submit_resolved env eid f rid sid req route st = (Inl e, st')"
  shows "not_started st rid (f_upsert f) st'"
proof (cases "orch_create_session env (f_now f) sid (if is_team_request req then ''team'' else ''general'') st")
  case (Pair x st1)
  note c = create_session_effect [OF Pair]
  show ?thesis
  proof (cases x)
    case (Inl e1)
    with Pair c assms show ?thesis
      by (auto simp: submit_resolved_def not_started_def split: option.split)
  next
    case (Inr u)
    obtain r where r: "r = queued_record (f_now f) rid sid req ((f_now f @ '' run queued'')
        # (case route of None \<Rightarrow> [] | Some x \<Rightarrow> [route_line (f_now f) x]))" by blast
    then have id: "run_id r = rid" "run_status r = RS_Queued" by (simp_all add: queued_record_def new_queued_def)
    obtain y st2 where st2: "enqueue_run env f r (bind_workspace sid req st1) = (y, st2)" by fastforce
    have "y = Inl e \<and> st' = st2"
      using assms Pair Inr st2 r by (cases y) (auto simp: submit_resolved_def spawn_run_def Let_def)
    then show ?thesis
      using enqueue_effect [OF st2] c id
      by (simp add: not_started_def bind_workspace_effect run_status_of_def hm_simps)
  qed
qed

text \<open>
  A submission that fails spawns no executor and registers no control. Unless the store
  refused the record, the runs in memory are as before; when it did, the run is left queued
  among them although nothing will execute it.
\<close>

theorem submit_failure_spawns_nothing:
  assumes "submit_run env eid f rid fresh_sid req st = (Inl e, st')"
  shows "not_started st rid (f_upsert f) st'"
proof -
  let ?sid = "case rq_session req of Some s \<Rightarrow> s | None \<Rightarrow> fresh_sid"
  obtain route req' where rr: "routed_request (sb_skills st) (resolve_request (sv_personas env) ?sid req) = (route, req')"
    by fastforce
  from assms refl rr show ?thesis
  proof (cases rule: submit_run_cases)
    case failed
    then show ?thesis by (simp add: not_started_def split: option.split)
  next
    case plain
    then show ?thesis by (rule submit_resolved_Inl)
  next
    case (graph g)
    from submit_resolved_Inl [OF graph(2)] show ?thesis
      by (cases "f_upsert f") (simp_all add: not_started_def put_graph_def)
  qed
qed

section \<open>A small submission\<close>

definition sample_submit_env :: submit_env where
  "sample_submit_env = \<lparr>sv_runs = \<lparr>enc = (\<lambda>_. ''row''), dec = (\<lambda>_. None)\<rparr>,
     sv_workflows = \<lparr>nodes_codec = \<lparr>enc = (\<lambda>_. ''nodes''), dec = (\<lambda>_. None)\<rparr>,
       parameters_codec = \<lparr>enc = (\<lambda>_. ''params''), dec = (\<lambda>_. None)\<rparr>\<rparr>,
     sv_render = (\<lambda>_. ''json''), sv_builder = x_builder sample_env, sv_personas = [''Minho''],
     sv_sessions_root = ''s''\<rparr>"

definition sample_submitter :: submitter where
  "sample_submitter = \<lparr>sb_orch = \<lparr>o_runs = [], o_controls = [], o_roots = [], o_graphs = [], o_router = [],
       o_store = [], o_actions = [], o_events = [], o_webhooks = []\<rparr>,
     sb_db = empty_db, sb_fs = \<lparr>fs_entries = [], fs_denied = (\<lambda>_. False)\<rparr>, sb_skills = [],
     sb_assignments = [], sb_spawned = []\<rparr>"

definition sample_request :: run_request where
  "sample_request = \<lparr>rq_task = ''@Minho fix it'', rq_profile = General, rq_session = None,
     rq_workflow = None, rq_params = None, rq_repo_url = None, rq_assignee = None, rq_team = None,
     rq_workspace = None, rq_mentions = None\<rparr>"

definition sample_submit :: "faults \<Rightarrow> (string + run_submission) \<times> submitter" where
  "sample_submit f = submit_run sample_submit_env (\<lambda>_. ''e'') f ''r'' ''s'' sample_request sample_submitter"

lemma sample_submit_ok: "fst (sample_submit no_faults) = Inr \<lparr>rs_run = ''r'', rs_session = ''s'', rs_status = RS_Queued\<rparr>"
  by code_simp

lemma sample_submit_refused: "fst (sample_submit (no_faults\<lparr>f_upsert := Some ''locked''\<rparr>)) = Inl ''locked''"
  by code_simp

theorem submit_failure_spawns_nothing_witness:
  "not_started sample_submitter ''r'' (Some ''locked'') (snd (sample_submit (no_faults\<lparr>f_upsert := Some ''locked''\<rparr>)))
     \<and> run_status_of (sb_orch (snd (sample_submit (no_faults\<lparr>f_upsert := Some ''locked''\<rparr>)))) ''r'' = Some RS_Queued"
proof
  let ?f = "no_faults\<lparr>f_upsert := Some ''locked''\<rparr>"
  have "sample_submit ?f = (Inl ''locked'', snd (sample_submit ?f))"
    using sample_submit_refused by (metis prod.collapse)
  from submit_failure_spawns_nothing [OF this [unfolded sample_submit_def]]
  show "not_started sample_submitter ''r'' (Some ''locked'') (snd (sample_submit ?f))"
    by (simp add: sample_submit_def)
  show "run_status_of (sb_orch (snd (sample_submit ?f))) ''r'' = Some RS_Queued" by code_simp
qed

theorem submit_starts_run_witness:
  "\<exists>req'. rq_task req' = ''@Minho fix it'' \<and> rq_assignee req' = Some ''Minho''
     \<and> started sample_submitter ''r'' \<lparr>rs_run = ''r'', rs_session = ''s'', rs_status = RS_Queued\<rparr> req'
         (snd (sample_submit no_faults))"
proof -
  have "sample_submit no_faults = (Inr \<lparr>rs_run = ''r'', rs_session = ''s'', rs_status = RS_Queued\<rparr>,
      snd (sample_submit no_faults))"
    using sample_submit_ok by (metis prod.collapse)
  moreover have "hm_get (o_graphs (sb_orch sample_submitter)) ''r'' = None"
    by (simp add: sample_submitter_def hm_simps)
  ultimately obtain req' where r: "rq_task req' = rq_task sample_request"
    "started sample_submitter ''r'' \<lparr>rs_run = ''r'', rs_session = ''s'', rs_status = RS_Queued\<rparr> req' (snd (sample_submit no_faults))"
    using submit_starts_run unfolding sample_submit_def by blast
  have "map (rq_assignee \<circ> snd) (sb_spawned (snd (sample_submit no_faults))) = [Some ''Minho'']"
    by code_simp
  with r show ?thesis by (auto simp: started_def sample_request_def sample_submitter_def)
qed

theorem mentions_break_trace_witness:
  "isl (db_list_run_action_events ''r'' 500 (sb_db (snd (sample_submit no_faults))))"
proof -
  have "sample_submit no_faults = (Inr \<lparr>rs_run = ''r'', rs_session = ''s'', rs_status = RS_Queued\<rparr>,
      snd (sample_submit no_faults))"
    using sample_submit_ok by (metis prod.collapse)
  moreover have "db_reachable (sb_db sample_submitter)" "run_events ''r'' (sb_db sample_submitter) = []"
    using db_reachable_empty by (simp_all add: sample_submitter_def run_events_def empty_db_def)
  moreover have "rq_mentions (resolve_request (sv_personas sample_submit_env) ''s'' sample_request) = Some [''Minho'']"
    by code_simp
  ultimately show ?thesis
    using mentions_break_trace [of sample_submitter "''r''" 500] unfolding sample_submit_def by fastforce
qed

section \<open>Workflows and their session\<close>

lemma submitted_session:
  assumes "started st rid sub req st'"
  shows "executor_session fresh req = rs_session sub"
  using assms by (simp add: started_def executor_session_def)

text \<open>
  A workflow that is executed without a session, as the scheduler does, is recorded and
  queued under a new session, but its executor acts under yet another one, which the store does
  not know.
\<close>

theorem workflow_session_lost:
  assumes "execute_workflow env eid f rid fresh_sid wid params None st = (Inr sub, st')"
  shows "rs_session sub = fresh_sid \<and> has_key se_id fresh_sid (t_sessions (sb_db st'))
    \<and> (\<exists>req. sb_spawned st' = sb_spawned st @ [(rid, req)]
        \<and> (\<forall>fresh. executor_session fresh req = fresh))
    \<and> map_option session_id (hm_get (o_runs (sb_orch st')) rid) = Some fresh_sid"
proof -
  obtain t g where "template_graph env st wid params = Inr (t, g)"
    using assms by (auto simp: execute_workflow_def split: sum.splits)
  note tg = this
  define req where "req = \<lparr>rq_task = workflow_task env t params, rq_profile = General, rq_session = None,
    rq_workflow = Some wid, rq_params = params, rq_repo_url = None, rq_assignee = None,
    rq_team = None, rq_workspace = None, rq_mentions = None\<rparr>"
  define r where "r = queued_record (f_now f) rid fresh_sid req [f_now f @ '' run queued (workflow)'']"
  have r: "rq_session req = None" "run_id r = rid" "session_id r = fresh_sid"
    by (simp_all add: req_def r_def queued_record_def new_queued_def)
  obtain st1 where c: "orch_create_session env (f_now f) fresh_sid ''general'' (put_graph rid g st) = (Inr (), st1)"
    using assms tg by (auto simp: execute_workflow_def Let_def split: sum.splits prod.splits)
  obtain st2 where q: "enqueue_run env f r st1 = (Inr (), st2)"
    using assms tg c unfolding r_def req_def
    by (auto simp: execute_workflow_def Let_def split: sum.splits prod.splits)
  obtain p where sp: "spawn_run eid (f_now f) p rid fresh_sid req st2 = (Inr sub, st')"
    using assms tg c q unfolding r_def req_def by (auto simp: execute_workflow_def Let_def)
  note c = create_session_effect [OF c] and q = enqueue_effect [OF q] and s = spawn_effect [OF sp]
  have "t_sessions (sb_db st') = t_sessions (sb_db st1)" using s q by (simp add: db_upsert_run_def)
  then have "has_key se_id fresh_sid (t_sessions (sb_db st'))" using c session_created by simp
  then show ?thesis
    using s q c r by (auto simp: executor_session_def put_graph_def hm_simps)
qed

text \<open>A skill of one node, executed without a session.\<close>

definition sample_skill :: workflow_template where
  "sample_skill = \<lparr>wt_id = ''report'', wt_name = ''report'', wt_description = [], wt_created = ''t'',
     wt_updated = ''t'', wt_source_run = None, wt_nodes = [\<lparr>wn_id = ''write'', wn_role = Planner,
       wn_instructions = ''Report'', wn_dependencies = [], wn_mcp_tools = [], wn_git_commands = [], wn_policy = None\<rparr>],
     wt_parameters = [], wt_source = Source_File\<rparr>"

definition sample_workflow :: "(string + run_submission) \<times> submitter" where
  "sample_workflow = execute_workflow sample_submit_env ''e'' no_faults ''r'' ''s'' ''report'' None None
     (sample_submitter\<lparr>sb_skills := [(''report'', sample_skill)]\<rparr>)"

lemma sample_workflow_ok: "fst sample_workflow = Inr \<lparr>rs_run = ''r'', rs_session = ''s'', rs_status = RS_Queued\<rparr>"
  by code_simp

theorem workflow_session_lost_witness:
  "map (executor_session ''x'' \<circ> snd) (sb_spawned (snd sample_workflow)) = [''x'']
     \<and> map_option session_id (hm_get (o_runs (sb_orch (snd sample_workflow))) ''r'') = Some ''s''"
proof -
  have "sample_workflow = (Inr \<lparr>rs_run = ''r'', rs_session = ''s'', rs_status = RS_Queued\<rparr>, snd sample_workflow)"
    using sample_workflow_ok by (metis prod.collapse)
  from workflow_session_lost [OF this [unfolded sample_workflow_def], folded sample_workflow_def]
  show ?thesis by (auto simp: sample_submitter_def)
qed

section \<open>Repeating a run\<close>

text \<open>
  A run is repeated by its task and profile alone: the request of the new run names neither the
  workflow and its parameters nor the assignee, the team and the workspace of the first.
\<close>

lemma retry_forgets_workflow:
  assumes "hm_get (o_runs (sb_orch st)) old = Some r"
  shows "retry_run env eid f rid fresh_sid old st = submit_run env eid f rid fresh_sid
      \<lparr>rq_task = run_task r, rq_profile = run_profile r, rq_session = Some (session_id r),
       rq_workflow = None, rq_params = None, rq_repo_url = None, rq_assignee = None, rq_team = None,
       rq_workspace = None, rq_mentions = None\<rparr> st"
    and "clone_run env eid f rid fresh_sid old None st = retry_run env eid f rid fresh_sid old st"
  using assms by (simp_all add: retry_run_def clone_run_def orch_get_run_def request_again_def)

end
