(* ===== verification/Skill_Properties.thy ===== *)
theory Skill_Properties
  imports Skills
begin

text \<open>
  Theorems about skills: which templates build a graph; a chain of skills that build builds and
  runs them one after the other; interpolation is substitution; a task is routed to a skill
  that exists; the tools of a node.
\<close>

section \<open>Templates that build\<close>

definition git_ok :: "workflow_node_template \<Rightarrow> bool" where
  "git_ok n \<longleftrightarrow> wn_git_commands n = [] \<or> wn_role n = Validator"

fun ordered :: "string set \<Rightarrow> workflow_node_template list \<Rightarrow> bool" where
  "ordered K [] \<longleftrightarrow> True"
| "ordered K (n # ns) \<longleftrightarrow> wn_id n \<notin> K \<and> set (wn_dependencies n) \<subseteq> K \<and> ordered (insert (wn_id n) K) ns"

definition agent_node_of :: "workflow_node_template \<Rightarrow> agent_node" where
  "agent_node_of n = (case workflow_node_to_agent_node n of Inr a \<Rightarrow> a | Inl _ \<Rightarrow> undefined)"

lemma converted:
  "git_ok n \<Longrightarrow> workflow_node_to_agent_node n = Inr (agent_node_of n)"
  "\<not> git_ok n \<Longrightarrow> isl (workflow_node_to_agent_node n)"
  by (auto simp: git_ok_def agent_node_of_def workflow_node_to_agent_node_def Let_def)

lemma agent_node_of_simps:
  "git_ok n \<Longrightarrow> node_id (agent_node_of n) = wn_id n"
  "git_ok n \<Longrightarrow> dependencies (agent_node_of n) = wn_dependencies n"
  "git_ok n \<Longrightarrow> depth (agent_node_of n) = 0"
  by (auto simp: git_ok_def agent_node_of_def workflow_node_to_agent_node_def Let_def new_node_def
      split: option.split)

lemma build_loop_converted:
  "list_all git_ok ns \<Longrightarrow> build_workflow_loop env g ns =
     map_sum show_graph_error id (add_graph_nodes env g (map agent_node_of ns))"
  by (induction ns arbitrary: g) (auto simp: converted split: sum.split prod.split)

lemma build_loop_unconverted: "\<not> list_all git_ok ns \<Longrightarrow> isl (build_workflow_loop env g ns)"
proof (induction ns arbitrary: g)
  case (Cons n ns)
  show ?case
  proof (cases "git_ok n")
    case True
    with Cons show ?thesis by (auto simp: converted split: sum.split prod.split)
  next
    case False
    then show ?thesis using converted(2) [of n] by (auto simp: isl_def)
  qed
qed simp

lemma addable_agent_nodes:
  "list_all git_ok ns \<Longrightarrow> addable K md (map agent_node_of ns) \<longleftrightarrow> ordered K ns"
  by (induction ns arbitrary: K) (auto simp: agent_node_of_simps)

definition builds :: "builder_env \<Rightarrow> workflow_node_template list \<Rightarrow> bool" where
  "builds env ns \<longleftrightarrow> \<not> isl (build_workflow_graph_from_template env ns)"

text \<open>
  A template builds exactly when git commands are left to validators, and each node has a new
  identifier and depends on earlier nodes only.
\<close>

lemma builds_iff: "builds env ns \<longleftrightarrow> list_all git_ok ns \<and> ordered {} ns"
proof (cases "list_all git_ok ns")
  case True
  have keys: "set (hm_keys (nodes (new_graph d))) = {}" "max_depth (new_graph d) = d" for d
    by (simp_all add: new_graph_def hm_keys_Nil)
  show ?thesis
    using add_graph_nodes_addable [OF fresh_new_graph [of "max_graph_depth env"], of "map agent_node_of ns" env]
    by (auto simp: True builds_def build_workflow_graph_from_template_def build_loop_converted keys
        addable_agent_nodes isl_def split: sum.splits)
next
  case False
  then show ?thesis
    by (simp add: builds_def build_workflow_graph_from_template_def build_loop_unconverted)
qed

section \<open>Chains\<close>

definition depends :: "workflow_node_template list \<Rightarrow> (string \<times> string) set" where
  "depends ns = {(wn_id n, d) | n d. n \<in> set ns \<and> d \<in> set (wn_dependencies n)}"

lemma depends_append [simp]: "depends (ns @ ms) = depends ns \<union> depends ms"
  by (auto simp: depends_def)

lemma depends_mono: "set ns \<subseteq> set ms \<Longrightarrow> depends ns \<subseteq> depends ms"
  by (auto simp: depends_def)

text \<open>In an ordered list every node leads down to a root, and some terminal leads down to it.\<close>

lemma terminal_above:
  assumes "ordered K ns" and "n \<in> set ns"
  shows "\<exists>t \<in> set (terminals ns). (t, wn_id n) \<in> (depends ns)\<^sup>*"
proof -
  have "n \<in> set ns \<Longrightarrow> \<exists>m \<in> set ns. (wn_id m, wn_id n) \<in> (depends ns)\<^sup>*
      \<and> (\<forall>k \<in> set ns. wn_id m \<notin> set (wn_dependencies k))"
    using assms(1)
  proof (induction ns arbitrary: K n)
    case (Cons a ns)
    let ?R = "(depends (a # ns))\<^sup>*"
    have sub: "(depends ns)\<^sup>* \<subseteq> ?R" by (rule rtrancl_mono, rule depends_mono) auto
    have down: "\<exists>m \<in> set (a # ns). (wn_id m, wn_id k) \<in> ?R \<and> (\<forall>j \<in> set (a # ns). wn_id m \<notin> set (wn_dependencies j))"
      if k: "k \<in> set ns" for k
    proof -
      have "ordered (insert (wn_id a) K) ns" using Cons.prems(2) by simp
      from Cons.IH [OF k this] obtain m where m: "m \<in> set ns" "(wn_id m, wn_id k) \<in> (depends ns)\<^sup>*"
          "\<forall>j \<in> set ns. wn_id m \<notin> set (wn_dependencies j)" by blast
      have "wn_id m \<notin> K" using m(1) Cons.prems(2)
      proof -
        have "ordered L ms \<Longrightarrow> x \<in> set ms \<Longrightarrow> wn_id x \<notin> L" for L ms x
          by (induction ms arbitrary: L) auto
        with m(1) Cons.prems(2) show ?thesis by auto
      qed
      then have "wn_id m \<notin> set (wn_dependencies a)" using Cons.prems(2) by auto
      with m sub show ?thesis by auto
    qed
    show ?case
    proof (cases "\<exists>k \<in> set ns. wn_id n \<in> set (wn_dependencies k)")
      case True
      then obtain k where k: "k \<in> set ns" "wn_id n \<in> set (wn_dependencies k)" by blast
      then have "(wn_id k, wn_id n) \<in> depends (a # ns)" by (auto simp: depends_def)
      with down [OF k(1)] show ?thesis by (meson rtrancl.rtrancl_into_rtrancl)
    next
      case False
      show ?thesis
      proof (cases "n \<in> set ns")
        case True
        with down show ?thesis by blast
      next
        case False
        with Cons.prems have "n = a" by simp
        moreover have "wn_id a \<notin> set (wn_dependencies a)" using Cons.prems(2) by auto
        ultimately show ?thesis using \<open>\<not> (\<exists>k \<in> set ns. _ k)\<close> by auto
      qed
    qed
  qed simp
  with assms(2) show ?thesis by (fastforce simp: terminals_def)
qed

text \<open>A list of nodes each of which depends on \<open>l\<close> or on a node before it.\<close>

fun anchored :: "string \<Rightarrow> string set \<Rightarrow> workflow_node_template list \<Rightarrow> bool" where
  "anchored l D [] \<longleftrightarrow> True"
| "anchored l D (n # ns) \<longleftrightarrow> (l \<in> set (wn_dependencies n) \<or> set (wn_dependencies n) \<inter> D \<noteq> {})
     \<and> anchored l (insert (wn_id n) D) ns"

lemma anchored_reach:
  "anchored l D ns \<Longrightarrow> depends ns \<subseteq> R \<Longrightarrow> (\<And>d. d \<in> D \<Longrightarrow> (d, l) \<in> R\<^sup>+) \<Longrightarrow> n \<in> set ns \<Longrightarrow> (wn_id n, l) \<in> R\<^sup>+"
proof (induction ns arbitrary: D n)
  case (Cons a ns)
  have edge: "(wn_id a, d) \<in> R" if "d \<in> set (wn_dependencies a)" for d
    using Cons.prems(2) that by (auto simp: depends_def)
  have a: "(wn_id a, l) \<in> R\<^sup>+"
    using Cons.prems(1,3) edge by (auto intro: trancl_into_trancl2)
  have "depends ns \<subseteq> R" using Cons.prems(2) by (auto simp: depends_def)
  moreover have "(d, l) \<in> R\<^sup>+" if "d \<in> insert (wn_id a) D" for d
    using that a Cons.prems(3) by auto
  ultimately have "(wn_id k, l) \<in> R\<^sup>+" if "k \<in> set ns" for k
    using Cons.IH [of "insert (wn_id a) D" k] Cons.prems(1) that by simp
  with a Cons.prems(4) show ?case by auto
qed simp

lemma chain_node_simps [simp]: "wn_id (chain_node sid ids lasts n) = namespaced sid (wn_id n)"
  by (simp add: chain_node_def)

lemma chain_anchored:
  "ordered K ns \<Longrightarrow> K \<subseteq> set ids \<Longrightarrow> wn_id ` set ns \<subseteq> set ids \<Longrightarrow> l \<in> set lasts \<Longrightarrow>
   anchored l (namespaced sid ` K) (map (chain_node sid ids lasts) ns)"
proof (induction ns arbitrary: K)
  case (Cons n ns)
  have "l \<in> set (wn_dependencies (chain_node sid ids lasts n))
      \<or> set (wn_dependencies (chain_node sid ids lasts n)) \<inter> namespaced sid ` K \<noteq> {}"
  proof (cases "wn_dependencies n")
    case Nil
    with Cons.prems(4) show ?thesis by (auto simp: chain_node_def)
  next
    case (Cons d ds)
    then have "d \<in> K" "d \<in> set ids" using Cons.prems by auto
    with Cons show ?thesis by (auto simp: chain_node_def)
  qed
  moreover have "anchored l (namespaced sid ` insert (wn_id n) K) (map (chain_node sid ids lasts) ns)"
    using Cons.prems by (intro Cons.IH) auto
  ultimately show ?case by simp
qed simp

lemma chain_ordered:
  "ordered K ns \<Longrightarrow> K \<subseteq> set ids \<Longrightarrow> wn_id ` set ns \<subseteq> set ids \<Longrightarrow> set lasts \<subseteq> set seen \<Longrightarrow>
   namespaced sid ` K \<subseteq> set seen \<Longrightarrow> chain_skill_nodes sid ids lasts ns seen = Inr (cs, seen') \<Longrightarrow>
   cs = map (chain_node sid ids lasts) ns \<and> ordered (set seen) cs
     \<and> set seen' = set seen \<union> wn_id ` set cs"
proof (induction ns arbitrary: K seen cs)
  case (Cons n ns)
  let ?i = "namespaced sid (wn_id n)"
  obtain ds where ds: "chain_skill_nodes sid ids lasts ns (?i # seen) = Inr (ds, seen')"
      "cs = chain_node sid ids lasts n # ds" and new: "?i \<notin> set seen"
    using Cons.prems(6) by (auto simp: Let_def split: if_splits sum.splits)
  have "ds = map (chain_node sid ids lasts) ns \<and> ordered (set (?i # seen)) ds
      \<and> set seen' = set (?i # seen) \<union> wn_id ` set ds"
    using Cons.prems by (intro Cons.IH [OF _ _ _ _ _ ds(1), of "insert (wn_id n) K"]) auto
  moreover have "namespaced sid d \<in> set seen \<and> d \<in> set ids" if "d \<in> set (wn_dependencies n)" for d
    using Cons.prems(1,2,5) that by auto
  then have "set (wn_dependencies (chain_node sid ids lasts n)) \<subseteq> set seen"
    using Cons.prems(4) by (auto simp: chain_node_def)
  ultimately show ?case using new ds(2) by auto
qed simp

text \<open>The invariant of a chain: every node so far lies below one of the last terminals.\<close>

definition chain_inv :: "chain_state \<Rightarrow> bool" where
  "chain_inv st \<longleftrightarrow> ordered {} (cn_nodes st) \<and> set (cn_seen st) = wn_id ` set (cn_nodes st)
     \<and> set (cn_lasts st) \<subseteq> set (cn_seen st)
     \<and> (\<forall>x \<in> set (cn_seen st). \<exists>l \<in> set (cn_lasts st). (l, x) \<in> (depends (cn_nodes st))\<^sup>*)"

definition skill_ok :: "workflow_template \<Rightarrow> bool" where
  "skill_ok s \<longleftrightarrow> wt_nodes s \<noteq> [] \<and> ordered {} (wt_nodes s)"

definition skill_ids :: "workflow_template \<Rightarrow> string set" where
  "skill_ids s = namespaced (wt_id s) ` wn_id ` set (wt_nodes s)"

lemma ordered_append: "ordered K (ns @ ms) \<longleftrightarrow> ordered K ns \<and> ordered (K \<union> wn_id ` set ns) ms"
  by (induction ns arbitrary: K) auto

lemma ordered_map:
  "(\<And>n. wn_id (f n) = wn_id n \<and> wn_dependencies (f n) = wn_dependencies n) \<Longrightarrow> ordered K (map f ns) = ordered K ns"
  by (induction ns arbitrary: K) auto

lemma ordered_interpolated: "ordered K (wt_nodes (interpolate_params s params)) = ordered K (wt_nodes s)"
  by (simp add: interpolate_params_def ordered_map)

lemma interpolated_ids:
  "map wn_id (wt_nodes (interpolate_params s params)) = map wn_id (wt_nodes s)"
  "wt_id (interpolate_params s params) = wt_id s"
  by (simp_all add: interpolate_params_def comp_def)

lemma ordered_mono_depends: "ordered K ns \<Longrightarrow> n \<in> set ns \<Longrightarrow> wn_id n \<notin> K"
  by (induction ns arbitrary: K) auto

lemma chain_step:
  fixes ps
  assumes inv: "chain_inv st" and ok: "skill_ok s"
    and cs: "chain_skill_nodes (wt_id s) (map wn_id (wt_nodes s')) (cn_lasts st) (wt_nodes s') (cn_seen st) = Inr (cs, seen)"
    and s': "s' = interpolate_params s params"
  defines "st' \<equiv> \<lparr>cn_nodes = cn_nodes st @ cs, cn_lasts = terminals cs, cn_seen = seen, cn_params = ps\<rparr>"
  shows "chain_inv st'" and "set (cn_seen st') = set (cn_seen st) \<union> skill_ids s"
    and "\<And>y x. y \<in> skill_ids s \<Longrightarrow> x \<in> set (cn_seen st) \<Longrightarrow> (y, x) \<in> (depends (cn_nodes st'))\<^sup>+"
proof -
  let ?ns = "wt_nodes s'" and ?R = "depends (cn_nodes st @ cs)"
  have ord: "ordered {} ?ns"
    using ok by (simp add: skill_ok_def s' ordered_interpolated)
  have ne: "?ns \<noteq> []"
    using ok by (simp add: skill_ok_def s' interpolate_params_def)
  have c: "cs = map (chain_node (wt_id s) (map wn_id ?ns) (cn_lasts st)) ?ns"
      "ordered (set (cn_seen st)) cs" "set seen = set (cn_seen st) \<union> wn_id ` set cs"
    using chain_ordered [OF ord _ _ _ _ cs] inv by (auto simp: chain_inv_def)
  have "wn_id ` set ?ns = wn_id ` set (wt_nodes s)"
    using interpolated_ids(1) [of s params] by (metis list.set_map s')
  moreover have "wn_id ` set cs = namespaced (wt_id s) ` wn_id ` set ?ns"
    by (simp add: c(1) image_image)
  ultimately have ids: "wn_id ` set cs = skill_ids s"
    by (simp only: skill_ids_def)
  show seen: "set (cn_seen st') = set (cn_seen st) \<union> skill_ids s"
    by (simp add: st'_def c(3) ids)
  show reach: "(y, x) \<in> (depends (cn_nodes st'))\<^sup>+" if y: "y \<in> skill_ids s" and x: "x \<in> set (cn_seen st)" for y x
  proof -
    have "\<forall>x \<in> set (cn_seen st). \<exists>l \<in> set (cn_lasts st). (l, x) \<in> (depends (cn_nodes st))\<^sup>*"
      using inv by (simp add: chain_inv_def)
    with x obtain l where l: "l \<in> set (cn_lasts st)" "(l, x) \<in> (depends (cn_nodes st))\<^sup>*" by blast
    obtain n where n: "n \<in> set cs" "y = wn_id n" using y ids by auto
    have "anchored l {} cs"
      using chain_anchored [OF ord, of "map wn_id ?ns" l] l(1) by (simp add: c(1))
    from anchored_reach [OF this _ _ n(1), of ?R] have "(y, l) \<in> ?R\<^sup>+" by (simp add: n(2))
    moreover have "(l, x) \<in> ?R\<^sup>*" using l(2) rtrancl_mono [of "depends (cn_nodes st)" ?R] by auto
    ultimately show ?thesis by (simp add: st'_def trancl_rtrancl_trancl)
  qed
  have "\<exists>l \<in> set (terminals cs). (l, x) \<in> ?R\<^sup>*" if x: "x \<in> set (cn_seen st')" for x
  proof -
    have above: "\<exists>t \<in> set (terminals cs). (t, wn_id n) \<in> ?R\<^sup>*" if "n \<in> set cs" for n
      using terminal_above [OF c(2) that] rtrancl_mono [of "depends cs" ?R] by auto
    have "cs \<noteq> []" using ne by (simp add: c(1))
    then obtain n0 where n0: "n0 \<in> set cs" by (meson last_in_set)
    show ?thesis
    proof (cases "x \<in> skill_ids s")
      case True
      then obtain n where "n \<in> set cs" "x = wn_id n" unfolding ids [symmetric] by blast
      with above show ?thesis by blast
    next
      case False
      then have "x \<in> set (cn_seen st)" using x seen by blast
      moreover have "wn_id n0 \<in> skill_ids s" using n0 ids by blast
      ultimately have "(wn_id n0, x) \<in> ?R\<^sup>+" using reach by (simp add: st'_def)
      with above [OF n0] show ?thesis by (meson rtrancl_trancl_trancl trancl_into_rtrancl)
    qed
  qed
  moreover have "set (terminals cs) \<subseteq> set seen"
    by (auto simp: terminals_def c(3))
  ultimately show "chain_inv st'"
    using inv c(2,3) by (auto simp: chain_inv_def st'_def ordered_append)
qed

lemma chain_loop_inv:
  "chain_loop params ss st = Inr st' \<Longrightarrow> chain_inv st \<Longrightarrow> \<forall>s \<in> set ss. skill_ok s \<Longrightarrow>
   chain_inv st' \<and> set (cn_seen st') = set (cn_seen st) \<union> \<Union> (skill_ids ` set ss)
     \<and> set (cn_nodes st) \<subseteq> set (cn_nodes st')
     \<and> (\<forall>y \<in> \<Union> (skill_ids ` set ss). \<forall>x \<in> set (cn_seen st). (y, x) \<in> (depends (cn_nodes st'))\<^sup>+)"
proof (induction params ss st rule: chain_loop.induct)
  case (2 params s ss st)
  let ?s = "interpolate_params s params"
  obtain cs seen where cs: "chain_skill_nodes (wt_id s) (map wn_id (wt_nodes ?s)) (cn_lasts st) (wt_nodes ?s)
      (cn_seen st) = Inr (cs, seen)"
    using 2(2) by (auto simp: Let_def split: sum.splits)
  obtain st1 where st1: "st1 = \<lparr>cn_nodes = cn_nodes st @ cs, cn_lasts = terminals cs, cn_seen = seen,
      cn_params = merge_parameters (cn_params st) (wt_parameters ?s)\<rparr>" by blast
  have loop: "chain_loop params ss st1 = Inr st'" using 2(2) cs by (simp add: Let_def st1)
  have ok: "skill_ok s" "\<forall>s \<in> set ss. skill_ok s" using 2(4) by simp_all
  note step = chain_step [OF 2(3) ok(1) cs refl,
      where ps = "merge_parameters (cn_params st) (wt_parameters ?s)", folded st1]
  have IH: "chain_inv st' \<and> set (cn_seen st') = set (cn_seen st1) \<union> \<Union> (skill_ids ` set ss)
     \<and> set (cn_nodes st1) \<subseteq> set (cn_nodes st')
     \<and> (\<forall>y \<in> \<Union> (skill_ids ` set ss). \<forall>x \<in> set (cn_seen st1). (y, x) \<in> (depends (cn_nodes st'))\<^sup>+)"
    using 2(1) [OF refl cs refl] loop step(1) ok(2) by (simp add: st1)
  have sub: "(depends (cn_nodes st1))\<^sup>+ \<subseteq> (depends (cn_nodes st'))\<^sup>+"
    using IH depends_mono trancl_mono by (metis subrelI)
  have "(y, x) \<in> (depends (cn_nodes st'))\<^sup>+" if "y \<in> \<Union> (skill_ids ` set (s # ss))" "x \<in> set (cn_seen st)" for y x
    using that IH step(2,3) sub by auto
  moreover have "set (cn_nodes st) \<subseteq> set (cn_nodes st1)" by (simp add: st1)
  ultimately show ?case using IH step(2) by auto
qed simp

lemma chain_loop_append: "chain_loop params (xs @ ys) st =
    (case chain_loop params xs st of Inl e \<Rightarrow> Inl e | Inr st' \<Rightarrow> chain_loop params ys st')"
  by (induction params xs st rule: chain_loop.induct) (auto simp: Let_def split: sum.split)

lemma chain_skills_loop:
  assumes "chain_skills uid now skills params name description = Inr t"
  obtains st where "chain_loop params skills \<lparr>cn_nodes = [], cn_lasts = [], cn_seen = [], cn_params = []\<rparr> = Inr st"
    "wt_nodes t = cn_nodes st" "skills \<noteq> []"
  using assms by (auto simp: chain_skills_def split: if_splits sum.splits)

lemma chain_inv_start: "chain_inv \<lparr>cn_nodes = [], cn_lasts = [], cn_seen = [], cn_params = []\<rparr>"
  by (simp add: chain_inv_def)

lemma chain_git_ok:
  "list_all git_ok (cn_nodes st) \<Longrightarrow> \<forall>s \<in> set ss. list_all git_ok (wt_nodes s) \<Longrightarrow>
   chain_loop params ss st = Inr st' \<Longrightarrow> list_all git_ok (cn_nodes st')"
proof (induction params ss st rule: chain_loop.induct)
  case (2 params s ss st)
  let ?s = "interpolate_params s params"
  obtain cs seen where cs: "chain_skill_nodes (wt_id s) (map wn_id (wt_nodes ?s)) (cn_lasts st) (wt_nodes ?s)
      (cn_seen st) = Inr (cs, seen)"
    using 2(4) by (auto simp: Let_def split: sum.splits)
  have nodes: "chain_skill_nodes sid ids lasts ns seen = Inr (cs, seen') \<Longrightarrow> list_all git_ok ns \<Longrightarrow> list_all git_ok cs"
    for sid ids lasts ns seen cs seen'
    by (induction ns arbitrary: seen cs)
      (auto simp: Let_def chain_node_def git_ok_def split: if_splits sum.splits)
  have "list_all git_ok (wt_nodes ?s)"
    using 2(3) by (auto simp: interpolate_params_def list_all_iff git_ok_def)
  from nodes [OF cs this] have "list_all git_ok (cn_nodes st @ cs)" using 2(2) by simp
  then show ?case
    using 2(1) [OF refl cs refl] 2(3,4) cs by (simp add: Let_def)
qed simp

text \<open>
  C26: a chain of skills that are not empty and build by themselves builds as well, and runs
  them strictly one after the other: every node of a later skill depends, through the
  dependencies of the chain, on every node of an earlier one.
\<close>

theorem chain_serialises:
  assumes "chain_skills uid now skills params name description = Inr t"
    and "\<forall>s \<in> set skills. wt_nodes s \<noteq> [] \<and> builds env (wt_nodes s)"
  shows "builds env (wt_nodes t)
    \<and> (\<forall>i j. i < j \<longrightarrow> j < length skills \<longrightarrow>
        (\<forall>n \<in> set (wt_nodes (skills ! i)). \<forall>m \<in> set (wt_nodes (skills ! j)).
          (namespaced (wt_id (skills ! j)) (wn_id m), namespaced (wt_id (skills ! i)) (wn_id n))
            \<in> (depends (wt_nodes t))\<^sup>+))"
proof -
  let ?st0 = "\<lparr>cn_nodes = [], cn_lasts = [], cn_seen = [], cn_params = []\<rparr>"
  obtain st where loop: "chain_loop params skills ?st0 = Inr st" and t: "wt_nodes t = cn_nodes st"
    using chain_skills_loop [OF assms(1)] by metis
  have ok: "\<forall>s \<in> set skills. skill_ok s" "\<forall>s \<in> set skills. list_all git_ok (wt_nodes s)"
    using assms(2) by (auto simp: skill_ok_def builds_iff)
  have "chain_inv st" using chain_loop_inv [OF loop chain_inv_start ok(1)] by blast
  then have "builds env (wt_nodes t)"
    using chain_git_ok [OF _ ok(2) loop] by (simp add: builds_iff t chain_inv_def)
  moreover have "(namespaced (wt_id (skills ! j)) (wn_id m), namespaced (wt_id (skills ! i)) (wn_id n))
      \<in> (depends (wt_nodes t))\<^sup>+"
    if ij: "i < j" "j < length skills" and n: "n \<in> set (wt_nodes (skills ! i))" and m: "m \<in> set (wt_nodes (skills ! j))"
    for i j n m
  proof -
    let ?xs = "take j skills" and ?ys = "drop j skills"
    obtain st1 where st1: "chain_loop params ?xs ?st0 = Inr st1" "chain_loop params ?ys st1 = Inr st"
      using loop chain_loop_append [of params ?xs ?ys ?st0] by (auto split: sum.splits)
    have x: "skills ! i \<in> set ?xs"
      using ij by (metis in_set_conv_nth length_take min_less_iff_conj nth_take order_less_trans)
    have y: "skills ! j \<in> set ?ys"
      using ij(2) by (metis Cons_nth_drop_Suc list.set_intros(1))
    have okx: "\<forall>s \<in> set ?xs. skill_ok s" and oky: "\<forall>s \<in> set ?ys. skill_ok s"
      using ok(1) by (meson in_set_takeD, meson in_set_dropD)
    note inv1 = chain_loop_inv [OF st1(1) chain_inv_start okx]
    then have inv: "chain_inv st1" by blast
    have "namespaced (wt_id (skills ! i)) (wn_id n) \<in> set (cn_seen st1)"
      using inv1 x n by (auto simp: skill_ids_def)
    moreover have "namespaced (wt_id (skills ! j)) (wn_id m) \<in> \<Union> (skill_ids ` set ?ys)"
      using y m by (auto simp: skill_ids_def)
    ultimately show ?thesis
      using chain_loop_inv [OF st1(2) inv oky] by (auto simp: t)
  qed
  ultimately show ?thesis by blast
qed

definition demo_node :: "string \<Rightarrow> string list \<Rightarrow> workflow_node_template" where
  "demo_node nid deps = \<lparr>wn_id = nid, wn_role = Planner, wn_instructions = ''Scan {{url}}'',
     wn_dependencies = deps, wn_mcp_tools = [], wn_git_commands = [], wn_policy = None\<rparr>"

definition demo_skill :: "string \<Rightarrow> workflow_node_template list \<Rightarrow> workflow_template" where
  "demo_skill sid ns = \<lparr>wt_id = sid, wt_name = sid, wt_description = [], wt_created = ''t'',
     wt_updated = ''t'', wt_source_run = None, wt_nodes = ns, wt_parameters = [], wt_source = Source_File\<rparr>"

definition scan :: workflow_template where
  "scan = demo_skill ''scan'' [demo_node ''plan'' [], demo_node ''a'' [''plan''], demo_node ''b'' [''plan'']]"

definition report :: workflow_template where
  "report = demo_skill ''report'' [demo_node ''write'' []]"

definition demo_chain :: "workflow_template list \<Rightarrow> string + workflow_template" where
  "demo_chain ss = chain_skills ''c'' ''t'' ss [] ''chain'' []"

theorem chain_serialises_witness:
  "\<exists>t. demo_chain [scan, report] = Inr t
     \<and> (''report__write'', ''scan__plan'') \<in> (depends (wt_nodes t))\<^sup>+"
proof -
  have "\<not> isl (demo_chain [scan, report])" by code_simp
  then obtain t where t: "demo_chain [scan, report] = Inr t"
    by (cases "demo_chain [scan, report]") simp_all
  have ok: "\<forall>s \<in> set [scan, report]. wt_nodes s \<noteq> [] \<and> builds undefined (wt_nodes s)"
    by (simp add: builds_iff scan_def report_def demo_skill_def demo_node_def git_ok_def)
  note all = chain_serialises [OF t [unfolded demo_chain_def] ok, THEN conjunct2, rule_format]
  have "(namespaced (wt_id ([scan, report] ! 1)) (wn_id (demo_node ''write'' [])),
      namespaced (wt_id ([scan, report] ! 0)) (wn_id (demo_node ''plan'' []))) \<in> (depends (wt_nodes t))\<^sup>+"
    by (rule all) (simp_all add: scan_def report_def demo_skill_def)
  with t show ?thesis
    by (simp add: namespaced_def scan_def report_def demo_skill_def demo_node_def)
qed

text \<open>A skill without nodes breaks the chain: what follows it waits for nothing.\<close>

lemma empty_skill_breaks_chain:
  "map_sum id (\<lambda>t. map (\<lambda>n. (wn_id n, wn_dependencies n)) (wt_nodes t))
     (demo_chain [scan, demo_skill ''none'' [], report]) =
   Inr [(''scan__plan'', []), (''scan__a'', [''scan__plan'']), (''scan__b'', [''scan__plan'']), (''report__write'', [])]"
  by code_simp

section \<open>Interpolation\<close>

text \<open>A text in parts: literal text, and the places of parameters.\<close>

datatype segment = Literal string | Place string

fun show_segment :: "segment \<Rightarrow> string" where
  "show_segment (Literal s) = s"
| "show_segment (Place p) = placeholder p"

definition show_segments :: "segment list \<Rightarrow> string" where
  "show_segments segs = concat (map show_segment segs)"

definition braceless :: "string \<Rightarrow> bool" where
  "braceless s \<longleftrightarrow> CHR ''{'' \<notin> set s \<and> CHR ''}'' \<notin> set s"

fun segment_ok :: "segment \<Rightarrow> bool" where
  "segment_ok (Literal s) \<longleftrightarrow> braceless s"
| "segment_ok (Place p) \<longleftrightarrow> braceless p"

definition put_value :: "string \<Rightarrow> string \<Rightarrow> segment \<Rightarrow> segment" where
  "put_value p v seg = (if seg = Place p then Literal v else seg)"

definition value_of :: "(string, string) hashmap \<Rightarrow> workflow_parameter \<Rightarrow> string option" where
  "value_of params p = (case hm_get params (wp_name p) of Some v \<Rightarrow> Some v | None \<Rightarrow> wp_default p)"

text \<open>The value a place gets: that of the first parameter of its name that has one.\<close>

definition fill :: "workflow_parameter list \<Rightarrow> (string, string) hashmap \<Rightarrow> segment \<Rightarrow> segment" where
  "fill parameters params seg = (case seg of
       Literal s \<Rightarrow> Literal s
     | Place name \<Rightarrow> (case List.map_filter (\<lambda>p. if wp_name p = name then value_of params p else None) parameters of
           v # _ \<Rightarrow> Literal v
         | [] \<Rightarrow> Place name))"

lemma str_replace_Nil [simp]: "str_replace pat to [] = []"
  by (subst str_replace.simps) simp

lemma str_replace_no_open:
  "CHR ''{'' \<notin> set s \<Longrightarrow> str_replace (placeholder p) v (s @ t) = s @ str_replace (placeholder p) v t"
proof (induction s)
  case (Cons c s)
  then have "\<not> starts_with (c # s @ t) (placeholder p)"
    by (auto simp: starts_with_def placeholder_def)
  with Cons show ?case by (subst str_replace.simps) (simp add: placeholder_def)
qed simp

lemma placeholder_prefix:
  assumes "braceless p" and "braceless q" and "starts_with (placeholder q @ t) (placeholder p)"
  shows "p = q"
proof -
  have *: "take (length (p @ ''}}'')) (q @ ''}}'' @ t) = p @ ''}}''"
    using assms(3) by (simp add: starts_with_def placeholder_def)
  then obtain r where r: "q @ ''}}'' @ t = p @ ''}}'' @ r"
    by (metis append.assoc append_take_drop_id)
  have "takeWhile (\<lambda>c. c \<noteq> CHR ''}'') (s @ ''}}'' @ u) = s" if "braceless s" for s u
    using that by (subst takeWhile_append2) (auto simp: braceless_def)
  then show ?thesis using assms(1,2) r by metis
qed

lemma str_replace_placeholder:
  assumes "braceless p" and "braceless q"
  shows "str_replace (placeholder p) v (placeholder q @ t) =
    (if q = p then v else placeholder q) @ str_replace (placeholder p) v t"
proof (cases "q = p")
  case True
  have "starts_with (placeholder p @ t) (placeholder p)" by (simp add: starts_with_def)
  with True show ?thesis by (subst str_replace.simps) (simp add: placeholder_def)
next
  case False
  then have "\<not> starts_with (placeholder q @ t) (placeholder p)"
    using placeholder_prefix [OF assms] by metis
  then have 1: "str_replace (placeholder p) v (placeholder q @ t) =
      CHR ''{'' # str_replace (placeholder p) v (CHR ''{'' # q @ ''}}'' @ t)"
    by (subst str_replace.simps) (simp add: placeholder_def)
  have "hd (q @ ''}}'' @ t) \<noteq> CHR ''{''"
    using assms(2) by (cases q) (auto simp: braceless_def)
  then have "\<not> starts_with (CHR ''{'' # q @ ''}}'' @ t) (placeholder p)"
    by (cases "q @ ''}}'' @ t") (auto simp: starts_with_def placeholder_def)
  then have 2: "str_replace (placeholder p) v (CHR ''{'' # q @ ''}}'' @ t) =
      CHR ''{'' # str_replace (placeholder p) v ((q @ ''}}'') @ t)"
    by (subst str_replace.simps) (simp add: placeholder_def)
  have "CHR ''{'' \<notin> set (q @ ''}}'')" using assms(2) by (auto simp: braceless_def)
  from str_replace_no_open [OF this] 1 2 False show ?thesis
    by (simp add: placeholder_def)
qed

lemma replace_segments:
  "list_all segment_ok segs \<Longrightarrow> braceless p \<Longrightarrow>
   str_replace (placeholder p) v (show_segments segs) = show_segments (map (put_value p v) segs)"
proof (induction segs)
  case (Cons seg segs)
  show ?case
  proof (cases seg)
    case (Literal s)
    with Cons show ?thesis
      by (simp add: show_segments_def put_value_def str_replace_no_open braceless_def)
  next
    case (Place q)
    with Cons show ?thesis
      by (simp add: show_segments_def put_value_def str_replace_placeholder)
  qed
qed (simp add: show_segments_def)

text \<open>
  On a text in which braces occur in placeholders only, and with values without braces,
  interpolation puts the value of its parameter at every place at once; places without a value
  stay.
\<close>

theorem interpolation_is_substitution:
  assumes "list_all segment_ok segs" and "\<forall>p \<in> set parameters. braceless (wp_name p)"
    and "\<forall>p \<in> set parameters. \<forall>v. value_of params p = Some v \<longrightarrow> braceless v"
  shows "interpolate_template_text (show_segments segs) parameters params =
    show_segments (map (fill parameters params) segs)"
  using assms
proof (induction parameters arbitrary: segs)
  case Nil
  have "fill [] params = id" by (rule ext) (auto simp: fill_def List.map_filter_def split: segment.split)
  then show ?case by (simp add: interpolate_template_text_def)
next
  case (Cons p ps)
  show ?case
  proof (cases "value_of params p")
    case None
    then have "interpolate_one params p s = s" for s
      by (simp add: interpolate_one_def value_of_def split: option.splits)
    moreover have "fill (p # ps) params = fill ps params"
      by (rule ext) (simp add: fill_def List.map_filter_simps None split: segment.split)
    ultimately show ?thesis using Cons by (simp add: interpolate_template_text_def)
  next
    case (Some v)
    then have "interpolate_one params p s = str_replace (placeholder (wp_name p)) v s" for s
      by (auto simp: interpolate_one_def value_of_def split: option.splits)
    then have "interpolate_template_text (show_segments segs) (p # ps) params =
        interpolate_template_text (show_segments (map (put_value (wp_name p) v) segs)) ps params"
      using Cons.prems by (simp add: interpolate_template_text_def replace_segments)
    also have "\<dots> = show_segments (map (fill ps params) (map (put_value (wp_name p) v) segs))"
    proof (rule Cons.IH)
      show "list_all segment_ok (map (put_value (wp_name p) v) segs)"
        using Cons.prems Some by (auto simp: list_all_iff put_value_def)
    qed (use Cons.prems in auto)
    also have "map (fill ps params) (map (put_value (wp_name p) v) segs) = map (fill (p # ps) params) segs"
      using Some by (auto simp: fill_def put_value_def List.map_filter_simps split: segment.split)
    finally show ?thesis .
  qed
qed

theorem interpolation_is_substitution_witness:
  "interpolate_template_text ''Clone {{url}} to {{dir}} for {{who}}''
     [\<lparr>wp_name = ''url'', wp_description = [], wp_default = None\<rparr>,
      \<lparr>wp_name = ''dir'', wp_description = [], wp_default = Some ''tmp''\<rparr>] [(''url'', ''u'')] =
   ''Clone u to tmp for {{who}}''"
proof -
  let ?segs = "[Literal ''Clone '', Place ''url'', Literal '' to '', Place ''dir'', Literal '' for '', Place ''who'']"
  let ?ps = "[\<lparr>wp_name = ''url'', wp_description = [], wp_default = None\<rparr>,
      \<lparr>wp_name = ''dir'', wp_description = [], wp_default = Some ''tmp''\<rparr>]"
  have "interpolate_template_text (show_segments ?segs) ?ps [(''url'', ''u'')] =
      show_segments (map (fill ?ps [(''url'', ''u'')]) ?segs)"
    by (rule interpolation_is_substitution) (simp_all add: braceless_def value_of_def hm_get_def)
  moreover have "show_segments ?segs = ''Clone {{url}} to {{dir}} for {{who}}''" by code_simp
  moreover have "show_segments (map (fill ?ps [(''url'', ''u'')]) ?segs) = ''Clone u to tmp for {{who}}''"
    by code_simp
  ultimately show ?thesis by simp
qed

section \<open>Routing\<close>

text \<open>The skills are kept under their identifiers.\<close>

definition skills_ok :: "(string, workflow_template) hashmap \<Rightarrow> bool" where
  "skills_ok skills \<longleftrightarrow> hm_wf skills \<and> (\<forall>k t. hm_get skills k = Some t \<longrightarrow> wt_id t = k)"

definition repo_skills :: "string list" where
  "repo_skills = [''git_clone_repo'', ''local_repo_overview'', ''github_repo_overview'']"

definition detected_url :: "string \<Rightarrow> string option \<Rightarrow> string option" where
  "detected_url task repo_url = (case repo_url of Some u \<Rightarrow> Some u | None \<Rightarrow> extract_repo_url_from_text task)"

lemma values_stored: "skills_ok skills \<Longrightarrow> t \<in> set (hm_values skills) \<Longrightarrow> hm_get skills (wt_id t) = Some t"
  by (auto simp: skills_ok_def hm_values_iff)

lemma param_map_url:
  "hm_get (param_map render (Some (clone_params u))) ''repo_url'' = Some u"
  "hm_get (param_map render (Some (overview_params u))) ''repo_url'' = Some u"
  by (simp_all add: param_map_def clone_params_def overview_params_def hm_simps)

lemma find_member: "find P xs = Some x \<Longrightarrow> P x \<and> x \<in> set xs"
  by (induction xs) (auto split: if_splits)

lemma explicit_route_cases:
  assumes "explicit_route skills lower url = Some r"
  obtains s where "s \<in> set skills" "ro_workflow r = wt_id s"
    "wt_id s \<in> set repo_skills \<Longrightarrow> \<exists>u. url = Some u \<and> ro_params r \<in> {Some (clone_params u), Some (overview_params u)}"
proof -
  obtain s ps where s: "s \<in> set skills" "explicit_params (wt_id s) url = Some ps"
    "r = \<lparr>ro_workflow = wt_id s, ro_params = (if ps = J_Object [] then None else Some ps), ro_reason = ''explicit_skill_match''\<rparr>"
    using assms by (auto simp: explicit_route_def dest!: find_member split: option.splits)
  show ?thesis
  proof (rule that [OF s(1)])
    show "ro_workflow r = wt_id s" by (simp add: s(3))
    assume "wt_id s \<in> set repo_skills"
    then show "\<exists>u. url = Some u \<and> ro_params r \<in> {Some (clone_params u), Some (overview_params u)}"
      using s(2,3) by (auto simp: repo_skills_def explicit_params_def clone_params_def overview_params_def
          split: if_splits)
  qed
qed

lemma keyword_route_cases:
  assumes "keyword_route skills lower u = Some r"
  shows "hm_contains skills (ro_workflow r) \<and> ro_params r \<in> {Some (clone_params u), Some (overview_params u)}"
  using assms by (auto simp: keyword_route_def Let_def split: if_splits)

text \<open>
  A task is only routed to a skill that is loaded, so looking up the template of the route
  succeeds; when it is one of the three skills for repositories, its parameter \<^verbatim>\<open>repo_url\<close> is
  the URL of the request, or one found in the task.
\<close>

theorem route_materializes:
  assumes "skills_ok skills" and "auto_skill_route skills task repo_url = Some r"
  shows "(\<exists>t. materialize_workflow_template c render skills d (ro_workflow r) (ro_params r) = Inr t
        \<and> wt_id t = ro_workflow r)
    \<and> (ro_workflow r \<in> set repo_skills \<longrightarrow>
        (\<exists>u. detected_url task repo_url = Some u
          \<and> hm_get (param_map render (ro_params r)) ''repo_url'' = Some u))"
proof -
  let ?url = "detected_url task repo_url" and ?lower = "map to_lower task"
  have route: "explicit_route (hm_values skills) ?lower ?url = Some r
      \<or> (\<exists>u. ?url = Some u \<and> keyword_route skills ?lower u = Some r)"
    using assms(2) by (auto simp: auto_skill_route_def Let_def detected_url_def bind_eq_Some_conv
        split: if_splits option.splits)
  have "(\<exists>t. hm_get skills (ro_workflow r) = Some t) \<and> (ro_workflow r \<in> set repo_skills \<longrightarrow>
      (\<exists>u. ?url = Some u \<and> ro_params r \<in> {Some (clone_params u), Some (overview_params u)}))"
    using route
  proof
    assume "explicit_route (hm_values skills) ?lower ?url = Some r"
    then show ?thesis using values_stored [OF assms(1)] by (elim explicit_route_cases) auto
  next
    assume "\<exists>u. ?url = Some u \<and> keyword_route skills ?lower u = Some r"
    then show ?thesis by (auto dest!: keyword_route_cases simp: hm_contains_def)
  qed
  moreover from this obtain t where t: "hm_get skills (ro_workflow r) = Some t" by blast
  moreover have "wt_id t = ro_workflow r" using assms(1) t by (simp add: skills_ok_def)
  ultimately show ?thesis
    by (auto simp: materialize_workflow_template_def interpolated_ids param_map_url)
qed

definition demo_skills :: "(string, workflow_template) hashmap" where
  "demo_skills = [(''git_clone_repo'', demo_skill ''git_clone_repo'' []), (''ci'', demo_skill ''ci'' [])]"

theorem route_materializes_witness:
  "case auto_skill_route demo_skills ''clone'' (Some ''u'') of
     None \<Rightarrow> False
   | Some r \<Rightarrow> ro_workflow r = ''git_clone_repo''
       \<and> (\<exists>u. hm_get (param_map (\<lambda>_. []) (ro_params r)) ''repo_url'' = Some u)"
proof -
  have ok: "skills_ok demo_skills"
    by (auto simp: skills_ok_def demo_skills_def demo_skill_def hm_wf_def hm_keys_def hm_get_def)
  have r: "map_option ro_workflow (auto_skill_route demo_skills ''clone'' (Some ''u'')) = Some ''git_clone_repo''"
    by code_simp
  then obtain r where r: "auto_skill_route demo_skills ''clone'' (Some ''u'') = Some r" "ro_workflow r = ''git_clone_repo''"
    by auto
  have "''git_clone_repo'' \<in> set repo_skills" by (simp add: repo_skills_def)
  then show ?thesis
    using route_materializes [OF ok r(1), of undefined "\<lambda>_. []" empty_db] r by auto
qed

text \<open>
  A node without a list of tools gets all tools; with one it gets those it names, by full name,
  by the end of the name, or by the same last part.
\<close>

lemma filter_tools_sound:
  "set (filter_tools_for_node tools allowed) \<subseteq> set tools"
  "filter_tools_for_node tools [] = tools"
  "t \<in> set (filter_tools_for_node tools allowed) \<Longrightarrow> allowed \<noteq> [] \<Longrightarrow> \<exists>a \<in> set allowed. tool_allowed (mt_name t) a"
  by (auto simp: filter_tools_for_node_def list_ex_iff split: if_splits)

text \<open>The last part alone decides: a list that names a tool of one server admits that of another.\<close>

lemma tool_of_other_server: "tool_allowed ''shell/run'' ''sandbox/run''"
  by code_simp

end
