(* ===== verification/Scheduler.thy ===== *)
theory Scheduler
  imports Submission_Properties Skill_Properties
begin

text \<open>
  Schedules of workflows: \<^verbatim>\<open>src/scheduler.rs\<close> and the schedule methods of
  \<^verbatim>\<open>src/orchestrator/mod.rs\<close> over the store. The \<^verbatim>\<open>cron\<close> crate is an argument: \<open>parse\<close> reads an
  expression, and answers the first time after a given one at which it fires. A tick is what
  the loop does each minute; the executor of a workflow is the submission of
  \<^verbatim>\<open>execute_workflow\<close>.

  Results: a tick executes every due schedule once, in the order of the times they were due, and
  no other; afterwards none is due before its next time. An update that gives an expression
  without a next time makes the schedule due at once, unlike a creation with that expression.
\<close>

section \<open>Operations\<close>

type_synonym cron_parser = "string \<Rightarrow> string + (string \<Rightarrow> string option)"

definition compute_next_run :: "cron_parser \<Rightarrow> string \<Rightarrow> string \<Rightarrow> string option" where
  "compute_next_run parse now expr = (case parse expr of Inl _ \<Rightarrow> None | Inr upcoming \<Rightarrow> upcoming now)"

record create_schedule_request =
  cq_workflow :: string
  cq_expr :: string
  cq_enabled :: bool
  cq_parameters :: "string option"

record update_schedule_request =
  uq_expr :: "string option"
  uq_enabled :: "bool option"
  uq_parameters :: "string option option"

definition default_true :: bool where
  "default_true = True"

definition create_schedule ::
    "cron_parser \<Rightarrow> string \<Rightarrow> string \<Rightarrow> create_schedule_request \<Rightarrow> db \<Rightarrow> (string + cron_schedule) \<times> db" where
  "create_schedule parse uid now req d = (case parse (cq_expr req) of
       Inl e \<Rightarrow> (Inl (''invalid cron expression: '' @ e), d)
     | Inr upcoming \<Rightarrow>
         let s = \<lparr>cr_id = uid, cr_workflow = cq_workflow req, cr_expr = cq_expr req,
               cr_enabled = cq_enabled req, cr_parameters = cq_parameters req, cr_last_run = None,
               cr_next_run = upcoming now, cr_created = now\<rparr>
         in (case db_create_schedule s d of
               Inl _ \<Rightarrow> (Inl ''UNIQUE constraint failed: cron_schedules.id'', d)
             | Inr d' \<Rightarrow> (Inr s, d')))"

definition update_schedule ::
    "cron_parser \<Rightarrow> string \<Rightarrow> string \<Rightarrow> update_schedule_request \<Rightarrow> db \<Rightarrow> (string + cron_schedule option) \<times> db" where
  "update_schedule parse now sid req d =
     (case (case uq_expr req of
          None \<Rightarrow> Inr None
        | Some e \<Rightarrow> (case parse e of
            Inl er \<Rightarrow> Inl (''invalid cron expression: '' @ er)
          | Inr upcoming \<Rightarrow> Inr (Some (upcoming now)))) of
        Inl e \<Rightarrow> (Inl e, d)
      | Inr nxt \<Rightarrow>
          let d = db_update_schedule sid (uq_expr req) (uq_enabled req) (uq_parameters req) nxt d
          in (Inr (db_get_schedule sid d), d))"

text \<open>
  One tick of the loop, with what it takes from outside: fresh identifiers and the clock per
  executed schedule, the reading of stored parameters, and whether a call to the store fails.
  The error of an execution is only logged; \<open>te_late\<close> is the time when the next run is computed.
\<close>

record tick_env =
  te_submit :: submit_env
  te_parse :: cron_parser
  te_read :: "string \<Rightarrow> json option"
  te_faults :: "nat \<Rightarrow> faults"
  te_run :: "nat \<Rightarrow> string"
  te_session :: "nat \<Rightarrow> string"
  te_event :: "nat \<Rightarrow> string"
  te_late :: "nat \<Rightarrow> string"
  te_list_fails :: bool
  te_update_fails :: "nat \<Rightarrow> bool"

definition run_schedule :: "tick_env \<Rightarrow> string \<Rightarrow> nat \<Rightarrow> cron_schedule \<Rightarrow> submitter \<Rightarrow> submitter" where
  "run_schedule te now k s st =
     (let st = snd (execute_workflow (te_submit te) (te_event te k) (te_faults te k) (te_run te k) (te_session te k)
            (cr_workflow s) (Option.bind (cr_parameters s) (te_read te)) None st)
      in if te_update_fails te k then st
         else st\<lparr>sb_db := db_update_schedule_last_run (cr_id s) now
            (compute_next_run (te_parse te) (te_late te k) (cr_expr s)) (sb_db st)\<rparr>)"

definition scheduler_tick :: "tick_env \<Rightarrow> string \<Rightarrow> submitter \<Rightarrow> submitter" where
  "scheduler_tick te now st = (if te_list_fails te then st
     else fold (\<lambda>(k, s). run_schedule te now k s)
       (enumerate 0 (db_list_due_schedules now (sb_db st))) st)"

section \<open>A tick\<close>

lemma execute_workflow_effect:
  assumes "execute_workflow env eid f rid fresh_sid wid params session st = (x, st')"
  shows "t_schedules (sb_db st') = t_schedules (sb_db st) \<and>
    (\<exists>new. sb_spawned st' = sb_spawned st @ new
      \<and> map (rq_workflow \<circ> snd) new = (case x of Inl _ \<Rightarrow> [] | Inr _ \<Rightarrow> [Some wid]))"
  using assms
  by (auto simp: execute_workflow_def Let_def put_graph_def spawn_run_def put_control_def
      orch_create_session_def enqueue_run_def sb_upsert_run_def sb_record_action_def
      db_append_run_action_event_def insert_event_def db_upsert_run_def db_create_session_def
      split: sum.splits prod.splits)

definition next_row :: "tick_env \<Rightarrow> string \<Rightarrow> nat \<Rightarrow> schedule_row \<Rightarrow> schedule_row" where
  "next_row te now k r = r\<lparr>cs_last_run := Some now,
     cs_next_run := compute_next_run (te_parse te) (te_late te k) (cs_expr r)\<rparr>"

lemma parse_schedule_row_fields [simp]:
  "cr_id (parse_schedule_row r) = cs_id r" "cr_expr (parse_schedule_row r) = cs_expr r"
  "cr_workflow (parse_schedule_row r) = cs_workflow r"
  by (simp_all add: parse_schedule_row_def)

lemma run_schedule_effect:
  assumes "\<not> te_update_fails te k"
  shows "t_schedules (sb_db (run_schedule te now k (parse_schedule_row r) st)) =
      update_where (\<lambda>x. cs_id x = cs_id r)
        (\<lambda>x. x\<lparr>cs_last_run := Some now, cs_next_run := compute_next_run (te_parse te) (te_late te k) (cs_expr r)\<rparr>)
        (t_schedules (sb_db st))"
    and "\<exists>new. sb_spawned (run_schedule te now k s st) = sb_spawned st @ new
      \<and> subseq (map (rq_workflow \<circ> snd) new) [Some (cr_workflow s)]"
proof -
  show "t_schedules (sb_db (run_schedule te now k (parse_schedule_row r) st)) =
      update_where (\<lambda>x. cs_id x = cs_id r)
        (\<lambda>x. x\<lparr>cs_last_run := Some now, cs_next_run := compute_next_run (te_parse te) (te_late te k) (cs_expr r)\<rparr>)
        (t_schedules (sb_db st))"
    using assms execute_workflow_effect [OF prod.collapse [symmetric]]
    by (simp add: run_schedule_def Let_def db_update_schedule_last_run_def)
  obtain x st1 where "execute_workflow (te_submit te) (te_event te k) (te_faults te k) (te_run te k) (te_session te k)
      (cr_workflow s) (Option.bind (cr_parameters s) (te_read te)) None st = (x, st1)" by fastforce
  with execute_workflow_effect [OF this]
  show "\<exists>new. sb_spawned (run_schedule te now k s st) = sb_spawned st @ new
      \<and> subseq (map (rq_workflow \<circ> snd) new) [Some (cr_workflow s)]"
    by (auto simp: run_schedule_def Let_def split: sum.splits)
qed

text \<open>What becomes of a row of the table when the schedules \<open>rs\<close> are run.\<close>

definition stepped :: "tick_env \<Rightarrow> string \<Rightarrow> schedule_row list \<Rightarrow> schedule_row \<Rightarrow> schedule_row \<Rightarrow> bool" where
  "stepped te now rs x y \<longleftrightarrow> (if x \<in> set rs then \<exists>k. y = next_row te now k x else y = x)"

lemma run_schedules_effect:
  assumes "\<And>k. \<not> te_update_fails te k"
    and "distinct (map cs_id (t_schedules (sb_db st)))" and "distinct (map cs_id rs)"
    and "set rs \<subseteq> set (t_schedules (sb_db st))"
  shows "let st' = fold (\<lambda>(k, s). run_schedule te now k s) (enumerate n (map parse_schedule_row rs)) st
    in list_all2 (stepped te now rs) (t_schedules (sb_db st)) (t_schedules (sb_db st'))
      \<and> (\<exists>new. sb_spawned st' = sb_spawned st @ new
          \<and> subseq (map (rq_workflow \<circ> snd) new) (map (Some \<circ> cs_workflow) rs))"
  using assms(2-)
proof (induction rs arbitrary: n st)
  case Nil
  then show ?case by (simp add: stepped_def list_all2_eq [symmetric] list_all2_refl)
next
  case (Cons r rs)
  let ?T = "t_schedules (sb_db st)"
  define st1 where "st1 = run_schedule te now n (parse_schedule_row r) st"
  define g where "g x = (if cs_id x = cs_id r then next_row te now n x else x)" for x
  have uniq: "x = r" if "x \<in> set ?T" "cs_id x = cs_id r" for x
    using Cons.prems that by (auto simp: distinct_map dest: inj_onD)
  have T1: "t_schedules (sb_db st1) = map g ?T"
    using run_schedule_effect(1) [of te n now r st, OF assms(1)] uniq
    by (auto simp: st1_def g_def update_where_def next_row_def)
  have ids: "map cs_id (map g ?T) = map cs_id ?T" by (simp add: g_def next_row_def)
  have g_other: "g x = x" if "x \<in> set rs" for x
    using Cons.prems(2) that by (auto simp: g_def rev_image_eqI)
  obtain new where new: "sb_spawned st1 = sb_spawned st @ new"
    "subseq (map (rq_workflow \<circ> snd) new) [Some (cs_workflow r)]"
    using run_schedule_effect(2) [of te n now "parse_schedule_row r" st, OF assms(1)] by (auto simp: st1_def)
  define st' where "st' = fold (\<lambda>(k, s). run_schedule te now k s) (enumerate (Suc n) (map parse_schedule_row rs)) st1"
  have "set rs \<subseteq> set (t_schedules (sb_db st1))"
  proof
    fix x assume "x \<in> set rs"
    then show "x \<in> set (t_schedules (sb_db st1))"
      using Cons.prems(3) g_other T1 by (auto simp: image_iff intro!: bexI [of _ x])
  qed
  moreover have "distinct (map cs_id (t_schedules (sb_db st1)))" "distinct (map cs_id rs)"
    using Cons.prems by (simp_all only: T1 ids list.map distinct.simps simp_thms)
  ultimately have IH: "list_all2 (stepped te now rs) (map g ?T) (t_schedules (sb_db st'))"
    "\<exists>new. sb_spawned st' = sb_spawned st1 @ new \<and> subseq (map (rq_workflow \<circ> snd) new) (map (Some \<circ> cs_workflow) rs)"
    using Cons.IH [of st1 "Suc n"] unfolding st'_def Let_def T1 by blast+
  have "list_all2 (stepped te now (r # rs)) ?T (t_schedules (sb_db st'))"
  proof (rule list.rel_mono_strong [OF IH(1) [unfolded list.rel_map]])
    fix x y assume x: "x \<in> set ?T" and y: "stepped te now rs (g x) y"
    show "stepped te now (r # rs) x y"
    proof (cases "x = r")
      case True
      moreover have "cs_id (g x) = cs_id r" using True by (simp add: g_def next_row_def)
      then have "g x \<notin> set rs" using Cons.prems(2) by (metis (no_types) distinct.simps(2) image_eqI list.simps(9) set_map)
      ultimately show ?thesis using y by (auto simp: stepped_def g_def)
    next
      case False
      then have "g x = x" using uniq x by (auto simp: g_def)
      then show ?thesis using y False by (simp add: stepped_def)
    qed
  qed
  moreover from IH(2) new obtain new' where "sb_spawned st' = sb_spawned st @ new @ new'"
    "subseq (map (rq_workflow \<circ> snd) new') (map (Some \<circ> cs_workflow) rs)" by auto
  with new(2) have "\<exists>new. sb_spawned st' = sb_spawned st @ new
      \<and> subseq (map (rq_workflow \<circ> snd) new) (map (Some \<circ> cs_workflow) (r # rs))"
    using list_emb_append_mono [OF new(2)] by (intro exI [of _ "new @ new'"]) fastforce
  ultimately show ?case by (simp add: Let_def st'_def st1_def comp_def)
qed

text \<open>The documented behaviour of \<^verbatim>\<open>upcoming\<close>: the times it answers are after the given one.\<close>

definition cron_ok :: "cron_parser \<Rightarrow> bool" where
  "cron_ok parse \<longleftrightarrow> (\<forall>e u t x. parse e = Inr u \<longrightarrow> u t = Some x \<longrightarrow> t < x)"

text \<open>
  C28: a tick executes the workflows of due schedules only, each at most once and in the order
  of their due times; every due schedule gets this tick as its last run, the others keep their
  rows; and none is due at the same time any more.
\<close>

theorem tick_runs_due_once:
  assumes "db_reachable (sb_db st)" and "cron_ok (te_parse te)"
    and "\<not> te_list_fails te" and "\<forall>k. \<not> te_update_fails te k \<and> now \<le> te_late te k"
  shows "list_all2 (\<lambda>x y. if due_row now x then \<exists>k. y = next_row te now k x else y = x)
        (t_schedules (sb_db st)) (t_schedules (sb_db (scheduler_tick te now st)))
    \<and> (\<exists>new. sb_spawned (scheduler_tick te now st) = sb_spawned st @ new
        \<and> subseq (map (rq_workflow \<circ> snd) new) (map (Some \<circ> cr_workflow) (db_list_due_schedules now (sb_db st))))
    \<and> db_list_due_schedules now (sb_db (scheduler_tick te now st)) = []"
proof -
  let ?T = "t_schedules (sb_db st)"
  let ?st = "scheduler_tick te now st"
  define rs where "rs = order_asc (\<lambda>s. or_empty (cs_next_run s)) (filter (due_row now) ?T)"
  have due: "db_list_due_schedules now (sb_db st) = map parse_schedule_row rs"
    by (simp add: db_list_due_schedules_def rs_def)
  have set_rs: "set rs = {x \<in> set ?T. due_row now x}" by (simp add: rs_def sql_simps)
  have ids: "distinct (map cs_id ?T)"
    using db_reachable_wfI [OF assms(1)] by (simp add: db_wf_def keys_wf_def)
  then have "distinct (map cs_id (filter (due_row now) ?T))" by (rule distinct_map_filter)
  then have "distinct (map cs_id rs)"
    using mset_eq_imp_distinct_iff [of "map cs_id rs" "map cs_id (filter (due_row now) ?T)"]
    by (simp add: rs_def mset_order)
  moreover have "?st = fold (\<lambda>(k, s). run_schedule te now k s) (enumerate 0 (map parse_schedule_row rs)) st"
    using assms(3) by (simp add: scheduler_tick_def due)
  ultimately have eff: "list_all2 (stepped te now rs) ?T (t_schedules (sb_db ?st))"
    "\<exists>new. sb_spawned ?st = sb_spawned st @ new
      \<and> subseq (map (rq_workflow \<circ> snd) new) (map (Some \<circ> cs_workflow) rs)"
    using run_schedules_effect [of te st rs now 0] ids assms(4) set_rs by (simp_all add: Let_def subset_eq)
  have rows: "list_all2 (\<lambda>x y. if due_row now x then \<exists>k. y = next_row te now k x else y = x)
      ?T (t_schedules (sb_db ?st))"
    by (rule list.rel_mono_strong [OF eff(1)]) (simp add: stepped_def set_rs)
  have "\<not> due_row now y" if y: "y \<in> set (t_schedules (sb_db ?st))" for y
  proof -
    obtain i where "i < length (t_schedules (sb_db ?st))" "y = t_schedules (sb_db ?st) ! i"
      using y by (auto simp: in_set_conv_nth)
    with list_all2_nthD2 [OF rows] obtain x where
      "if due_row now x then \<exists>k. y = next_row te now k x else y = x" by blast
    moreover have "\<not> due_row now (next_row te now k x)" for k
    proof (cases "cs_next_run (next_row te now k x)")
      case (Some t)
      then have "te_late te k < t"
        using assms(2) by (auto simp: next_row_def compute_next_run_def cron_ok_def split: sum.splits)
      moreover have "now \<le> te_late te k" using assms(4) by blast
      ultimately have "now < t" by (rule le_less_trans [rotated])
      then show ?thesis using Some by (simp add: due_row_def not_le)
    qed (simp add: due_row_def)
    ultimately show ?thesis by (auto split: if_splits)
  qed
  then have "db_list_due_schedules now (sb_db ?st) = []"
    by (simp add: db_list_due_schedules_def order_asc_def)
  with rows eff(2) show ?thesis by (simp add: due comp_def)
qed

text \<open>
  An expression that never fires again, given when a schedule is created, leaves it without
  a next run; given by an update of an enabled schedule it makes the schedule due at every time,
  so that the next tick executes it once more.
\<close>

theorem update_without_next_is_due:
  assumes "parse expr = Inr upcoming" and "upcoming now = None"
    and "row_of cs_id sid (t_schedules d) = Some r" and "cs_enabled r = 1"
    and "row_of cs_id uid (t_schedules d) = None"
  shows "sid \<in> cr_id ` set (db_list_due_schedules t (snd (update_schedule parse now sid
        \<lparr>uq_expr = Some expr, uq_enabled = None, uq_parameters = None\<rparr> d)))
    \<and> uid \<notin> cr_id ` set (db_list_due_schedules t (snd (create_schedule parse uid now
        \<lparr>cq_workflow = cs_workflow r, cq_expr = expr, cq_enabled = True, cq_parameters = None\<rparr> d)))"
proof
  let ?r = "schedule_patch (Some expr) None None (Some None) r"
  have r: "r \<in> set (t_schedules d)" "cs_id r = sid" using row_of_Some [OF assms(3)] by simp_all
  then have "?r \<in> set (t_schedules (snd (update_schedule parse now sid
      \<lparr>uq_expr = Some expr, uq_enabled = None, uq_parameters = None\<rparr> d)))"
    using assms(1,2) by (auto simp: update_schedule_def Let_def db_update_schedule_def sql_simps)
  moreover have "due_row t ?r" using assms(4) by (simp add: due_row_def schedule_patch_def or_empty_def)
  moreover have "cs_id ?r = sid" using r by (simp add: schedule_patch_def)
  ultimately show "sid \<in> cr_id ` set (db_list_due_schedules t (snd (update_schedule parse now sid
      \<lparr>uq_expr = Some expr, uq_enabled = None, uq_parameters = None\<rparr> d)))"
    by (force simp: db_list_due_schedules_def sql_simps image_image)
  have new: "uid \<notin> cs_id ` set (t_schedules d)" using assms(5) by (simp add: row_of_None)
  then show "uid \<notin> cr_id ` set (db_list_due_schedules t (snd (create_schedule parse uid now
        \<lparr>cq_workflow = cs_workflow r, cq_expr = expr, cq_enabled = True, cq_parameters = None\<rparr> d)))"
    using assms(1,2) by (auto simp: create_schedule_def Let_def db_create_schedule_def insert_row_def
        has_key_def schedule_row_of_def due_row_def db_list_due_schedules_def sql_simps)
qed

section \<open>A small schedule\<close>

definition demo_cron :: cron_parser where
  "demo_cron e = (if e = ''bad'' then Inl ''bad''
     else Inr (\<lambda>t. if e \<noteq> ''past'' \<and> t < ''9'' then Some ''9'' else None))"

definition demo_tick :: tick_env where
  "demo_tick = \<lparr>te_submit = sample_submit_env, te_parse = demo_cron, te_read = (\<lambda>_. None),
     te_faults = (\<lambda>_. no_faults), te_run = (\<lambda>k. CHR ''r'' # replicate k (CHR ''i'')),
     te_session = (\<lambda>k. CHR ''s'' # replicate k (CHR ''i'')), te_event = (\<lambda>_. ''e''),
     te_late = (\<lambda>_. ''5''), te_list_fails = False, te_update_fails = (\<lambda>_. False)\<rparr>"

definition demo_schedule :: "string \<Rightarrow> string \<Rightarrow> string \<Rightarrow> cron_schedule" where
  "demo_schedule sid wid t = \<lparr>cr_id = sid, cr_workflow = wid, cr_expr = ''daily'', cr_enabled = True,
     cr_parameters = None, cr_last_run = None, cr_next_run = Some t, cr_created = ''0''\<rparr>"

definition demo_db :: db where
  "demo_db = projr (db_create_schedule (demo_schedule ''b'' ''report'' ''6'')
     (projr (db_create_schedule (demo_schedule ''a'' ''report'' ''3'') empty_db)))"

definition demo_submitter :: submitter where
  "demo_submitter = sample_submitter\<lparr>sb_db := demo_db, sb_skills := [(''report'', report)]\<rparr>"

lemma demo_db_reachable: "db_reachable demo_db"
proof -
  let ?d = "projr (db_create_schedule (demo_schedule ''a'' ''report'' ''3'') empty_db)"
  have "db_create_schedule (demo_schedule ''a'' ''report'' ''3'') empty_db = Inr ?d"
    "db_create_schedule (demo_schedule ''b'' ''report'' ''6'') ?d = Inr demo_db"
    by (simp_all add: demo_db_def demo_schedule_def db_create_schedule_def insert_row_def has_key_def
        empty_db_def schedule_row_of_def)
  then show ?thesis by (blast intro: db_reachable_step db_step.intros(19) db_reachable_empty)
qed

theorem tick_runs_due_once_witness:
  "db_list_due_schedules ''4'' (sb_db (scheduler_tick demo_tick ''4'' demo_submitter)) = []
     \<and> map (rq_workflow \<circ> snd) (sb_spawned (scheduler_tick demo_tick ''4'' demo_submitter)) = [Some ''report'']
     \<and> map cr_id (db_list_due_schedules ''6'' (sb_db (scheduler_tick demo_tick ''4'' demo_submitter))) = [''b'']"
proof (intro conjI)
  have "db_reachable (sb_db demo_submitter)" using demo_db_reachable by (simp add: demo_submitter_def)
  moreover have "cron_ok (te_parse demo_tick)"
    by (auto simp: cron_ok_def demo_tick_def demo_cron_def split: if_splits)
  ultimately show "db_list_due_schedules ''4'' (sb_db (scheduler_tick demo_tick ''4'' demo_submitter)) = []"
    using tick_runs_due_once [of demo_submitter demo_tick "''4''"] by (simp add: demo_tick_def)
  show "map (rq_workflow \<circ> snd) (sb_spawned (scheduler_tick demo_tick ''4'' demo_submitter)) = [Some ''report'']"
    by code_simp
  show "map cr_id (db_list_due_schedules ''6'' (sb_db (scheduler_tick demo_tick ''4'' demo_submitter))) = [''b'']"
    by code_simp
qed

theorem update_without_next_is_due_witness:
  "''a'' \<in> cr_id ` set (db_list_due_schedules ''1'' (snd (update_schedule demo_cron ''0'' ''a''
        \<lparr>uq_expr = Some ''past'', uq_enabled = None, uq_parameters = None\<rparr> demo_db)))"
proof -
  have "row_of cs_id ''a'' (t_schedules demo_db) = Some (schedule_row_of (demo_schedule ''a'' ''report'' ''3''))"
    "row_of cs_id ''c'' (t_schedules demo_db) = None"
    by code_simp+
  with update_without_next_is_due [of demo_cron "''past''" "\<lambda>t. if ''past'' \<noteq> ''past'' \<and> t < ''9'' then Some ''9'' else None"
      "''0''" "''a''" demo_db _ "''c''" "''1''"]
  show ?thesis by (auto simp: demo_cron_def schedule_row_of_def demo_schedule_def)
qed

end
