(* ===== verification/Router.thy ===== *)
theory Router
  imports Skills Complex_Main
begin

text \<open>
  The model router, \<^verbatim>\<open>src/router/mod.rs\<close>: the catalogue, the scoring and choice of a model, the
  chain of fallbacks with its cache, the configuration of CLI backends, and the parsing of what
  providers report. Floating-point numbers are rationals with exact arithmetic; the calls of the
  providers, the hash of a prompt and the clock are arguments.
\<close>

section \<open>Providers and models\<close>

datatype provider_kind = P_OpenAi | P_Anthropic | P_Gemini | P_Vllm | P_ClaudeCode | P_Codex | P_Mock

fun provider_display :: "provider_kind \<Rightarrow> string" where
  "provider_display P_OpenAi = ''openai''"
| "provider_display P_Anthropic = ''anthropic''"
| "provider_display P_Gemini = ''gemini''"
| "provider_display P_Vllm = ''vllm''"
| "provider_display P_ClaudeCode = ''claude_code''"
| "provider_display P_Codex = ''codex''"
| "provider_display P_Mock = ''mock''"

text \<open>
  The names of \<^verbatim>\<open>#[serde(rename_all = "snake_case")]\<close>: an underscore before each capital letter
  but the first.
\<close>

fun provider_serde :: "provider_kind \<Rightarrow> string" where
  "provider_serde P_OpenAi = ''open_ai''"
| "provider_serde P_Anthropic = ''anthropic''"
| "provider_serde P_Gemini = ''gemini''"
| "provider_serde P_Vllm = ''vllm''"
| "provider_serde P_ClaudeCode = ''claude_code''"
| "provider_serde P_Codex = ''codex''"
| "provider_serde P_Mock = ''mock''"

definition all_providers :: "provider_kind list" where
  "all_providers = [P_OpenAi, P_Anthropic, P_Gemini, P_Vllm, P_ClaudeCode, P_Codex, P_Mock]"

definition provider_parse :: "string \<Rightarrow> provider_kind option" where
  "provider_parse s = find (\<lambda>p. provider_serde p = s) all_providers"

record model_spec =
  mo_provider :: provider_kind
  mo_id :: string
  mo_quality :: rat
  mo_latency :: rat
  mo_cost :: rat
  mo_context :: nat
  mo_tools :: rat
  mo_local :: bool

record routing_constraints =
  rc_quality_weight :: rat
  rc_latency_ms :: nat
  rc_cost_budget :: rat
  rc_min_context :: nat
  rc_tool_weight :: rat

fun for_profile :: "task_profile \<Rightarrow> routing_constraints" where
  "for_profile Planning = \<lparr>rc_quality_weight = 45 / 100, rc_latency_ms = 8000, rc_cost_budget = 8 / 100,
     rc_min_context = 24000, rc_tool_weight = 10 / 100\<rparr>"
| "for_profile Extraction = \<lparr>rc_quality_weight = 20 / 100, rc_latency_ms = 2000, rc_cost_budget = 2 / 100,
     rc_min_context = 12000, rc_tool_weight = 5 / 100\<rparr>"
| "for_profile Coding = \<lparr>rc_quality_weight = 35 / 100, rc_latency_ms = 5000, rc_cost_budget = 5 / 100,
     rc_min_context = 20000, rc_tool_weight = 15 / 100\<rparr>"
| "for_profile General = \<lparr>rc_quality_weight = 30 / 100, rc_latency_ms = 4000, rc_cost_budget = 4 / 100,
     rc_min_context = 16000, rc_tool_weight = 10 / 100\<rparr>"

fun provider_for_cli_backend :: "cli_model_backend \<Rightarrow> provider_kind" where
  "provider_for_cli_backend ClaudeCode_Backend = P_ClaudeCode"
| "provider_for_cli_backend Codex_Backend = P_Codex"

fun default_model_id :: "cli_model_backend \<Rightarrow> string" where
  "default_model_id ClaudeCode_Backend = ''claude-code-cli''"
| "default_model_id Codex_Backend = ''codex-cli''"

fun default_command :: "cli_model_backend \<Rightarrow> string" where
  "default_command ClaudeCode_Backend = ''claude''"
| "default_command Codex_Backend = ''codex''"

record cli_model_config =
  cm_backend :: cli_model_backend
  cm_command :: string
  cm_args :: "string list"
  cm_timeout_ms :: u64
  cm_cli_only :: bool

definition model :: "provider_kind \<Rightarrow> string \<Rightarrow> rat \<Rightarrow> rat \<Rightarrow> rat \<Rightarrow> nat \<Rightarrow> rat \<Rightarrow> bool \<Rightarrow> model_spec" where
  "model p i q l c w t loc = \<lparr>mo_provider = p, mo_id = i, mo_quality = q, mo_latency = l, mo_cost = c,
     mo_context = w, mo_tools = t, mo_local = loc\<rparr>"

definition cli_model_spec :: "cli_model_backend \<Rightarrow> model_spec" where
  "cli_model_spec b = (case b of
       ClaudeCode_Backend \<Rightarrow> model (provider_for_cli_backend b) (default_model_id b) (94 / 100) 2600 (1 / 1000) 200000 (90 / 100) True
     | Codex_Backend \<Rightarrow> model (provider_for_cli_backend b) (default_model_id b) (93 / 100) 2400 (1 / 1000) 200000 (88 / 100) True)"

definition default_catalog :: "model_spec list" where
  "default_catalog = [
     model P_OpenAi ''gpt-5.2'' (95 / 100) 3200 (7 / 100) 128000 (92 / 100) False,
     model P_OpenAi ''gpt-5.1'' (82 / 100) 1400 (15 / 1000) 128000 (85 / 100) False,
     model P_OpenAi ''gpt-5-mini'' (88 / 100) 4500 (4 / 100) 200000 (80 / 100) False,
     model P_Anthropic ''claude-sonnet-4-6'' (94 / 100) 2800 (6 / 100) 200000 (92 / 100) False,
     model P_Anthropic ''claude-opus-4-6'' (97 / 100) 5000 (12 / 100) 200000 (95 / 100) False,
     model P_Gemini ''gemini-3.1-pro-preview'' (93 / 100) 2400 (5 / 100) 1000000 (90 / 100) False,
     model P_Gemini ''gemini-3-flash-preview'' (82 / 100) 800 (8 / 1000) 1000000 (78 / 100) False,
     model P_Vllm ''qwen2.5:14b'' (78 / 100) 1700 (5 / 1000) 32000 (72 / 100) True,
     model P_Vllm ''qwen2.5:7b'' (68 / 100) 900 (2 / 1000) 32000 (60 / 100) True,
     model P_Mock ''mock-general'' (40 / 100) 50 (1 / 10000) 16000 (40 / 100) False,
     cli_model_spec ClaudeCode_Backend, cli_model_spec Codex_Backend]"

definition score_model :: "model_spec \<Rightarrow> routing_constraints \<Rightarrow> rat" where
  "score_model m c =
     (let latency_fit = min (of_nat (rc_latency_ms c) / max (mo_latency m) 1) (3 / 2) / (3 / 2);
          cost_fit = min (rc_cost_budget c / max (mo_cost m) (1 / 10000)) (3 / 2) / (3 / 2);
          context_fit = min (of_nat (mo_context m) / of_nat (max (rc_min_context c) 1)) (3 / 2) / (3 / 2);
          latency_w = max (30 / 100 - rc_quality_weight c / 4) (10 / 100)
      in rc_quality_weight c * mo_quality m + latency_w * latency_fit + 20 / 100 * cost_fit
         + 20 / 100 * context_fit + rc_tool_weight c * mo_tools m)"

section \<open>The state of the router\<close>

text \<open>
  \<open>ro_disabled\<close> and \<open>ro_disabled_models\<close> are sets, kept as lists in the order of their iteration.
\<close>

record cli_provider_config =
  cp_command :: string
  cp_args :: "string list"
  cp_timeout_ms :: u64

record cache_entry =
  ce_output :: string
  ce_model :: string
  ce_provider :: provider_kind
  ce_created :: nat
  ce_ttl :: nat
  ce_usage :: "token_usage option"

record model_router =
  ro_catalog :: "model_spec list"
  ro_vllm_url :: string
  ro_cli_providers :: "(provider_kind, cli_provider_config) hashmap"
  ro_disabled :: "provider_kind list"
  ro_disabled_models :: "string list"
  ro_preferred :: "string option"
  ro_cli_model :: "cli_model_config option"
  ro_cache :: "(nat, cache_entry) hashmap"

definition set_member :: "'a \<Rightarrow> bool \<Rightarrow> 'a list \<Rightarrow> 'a list" where
  "set_member x present xs =
     (if present then (if x \<in> set xs then xs else xs @ [x]) else removeAll x xs)"

definition set_provider_disabled :: "provider_kind \<Rightarrow> bool \<Rightarrow> model_router \<Rightarrow> model_router" where
  "set_provider_disabled p off r = r\<lparr>ro_disabled := set_member p off (ro_disabled r)\<rparr>"

definition set_model_disabled :: "string \<Rightarrow> bool \<Rightarrow> model_router \<Rightarrow> model_router" where
  "set_model_disabled i off r = r\<lparr>ro_disabled_models := set_member i off (ro_disabled_models r)\<rparr>"

definition is_model_disabled :: "string \<Rightarrow> model_router \<Rightarrow> bool" where
  "is_model_disabled i r \<longleftrightarrow> i \<in> set (ro_disabled_models r)"

definition set_preferred_model :: "string option \<Rightarrow> model_router \<Rightarrow> model_router" where
  "set_preferred_model i r = r\<lparr>ro_preferred := i\<rparr>"

definition client_set_cli :: "cli_model_config option \<Rightarrow> model_router \<Rightarrow> model_router" where
  "client_set_cli c r =
     (let r = r\<lparr>ro_cli_providers := hm_remove (hm_remove (ro_cli_providers r) P_ClaudeCode) P_Codex\<rparr>
      in (case c of
            Some c \<Rightarrow>
              let p = provider_for_cli_backend (cm_backend c);
                  r = r\<lparr>ro_cli_providers := hm_insert (ro_cli_providers r) p
                    \<lparr>cp_command = cm_command c, cp_args = cm_args c, cp_timeout_ms = cm_timeout_ms c\<rparr>\<rparr>;
                  r = set_provider_disabled p False r
              in (case p of
                    P_ClaudeCode \<Rightarrow> set_provider_disabled P_Codex True r
                  | P_Codex \<Rightarrow> set_provider_disabled P_ClaudeCode True r
                  | _ \<Rightarrow> r)
          | None \<Rightarrow> set_provider_disabled P_Codex True (set_provider_disabled P_ClaudeCode True r)))"

definition set_cli_model_config :: "cli_model_config option \<Rightarrow> model_router \<Rightarrow> model_router" where
  "set_cli_model_config c r = client_set_cli c (r\<lparr>ro_cli_model := c\<rparr>)"

definition apply_cli_model_bootstrap :: "cli_model_config \<Rightarrow> model_router \<Rightarrow> model_router" where
  "apply_cli_model_bootstrap c r =
     (let target = provider_for_cli_backend (cm_backend c);
          r = set_preferred_model (Some (default_model_id (cm_backend c))) r
      in if cm_cli_only c then fold (\<lambda>p. set_provider_disabled p (p \<noteq> target)) all_providers r
         else set_provider_disabled target False r)"

definition set_vllm_config :: "string \<Rightarrow> string option \<Rightarrow> model_router \<Rightarrow> model_router" where
  "set_vllm_config url custom r =
     (let kept = filter (\<lambda>m. \<not> (mo_provider m = P_Vllm \<and> starts_with (mo_id m) ''custom:'')) (ro_catalog r)
      in r\<lparr>ro_vllm_url := url, ro_catalog := (case custom of
           None \<Rightarrow> kept
         | Some i \<Rightarrow> kept @ [model P_Vllm (''custom:'' @ i) (75 / 100) 1500 (1 / 1000) 32000 (70 / 100) True])\<rparr>)"

definition with_catalog :: "string \<Rightarrow> cli_model_config option \<Rightarrow> model_spec list \<Rightarrow> model_router" where
  "with_catalog url c catalog =
     (let r = client_set_cli c \<lparr>ro_catalog = catalog, ro_vllm_url = url, ro_cli_providers = [], ro_disabled = [],
            ro_disabled_models = [], ro_preferred = None, ro_cli_model = c, ro_cache = []\<rparr>
      in (case c of None \<Rightarrow> r | Some c \<Rightarrow> apply_cli_model_bootstrap c r))"

definition new_router :: "string \<Rightarrow> cli_model_config option \<Rightarrow> model_router" where
  "new_router url c = with_catalog url c default_catalog"

section \<open>Choosing a model\<close>

record routing_decision =
  rd_profile :: task_profile
  rd_primary :: model_spec
  rd_fallbacks :: "model_spec list"
  rd_scored :: "(model_spec \<times> rat) list"

definition eligible :: "model_router \<Rightarrow> routing_constraints \<Rightarrow> model_spec \<Rightarrow> bool" where
  "eligible r c m \<longleftrightarrow> rc_min_context c \<le> mo_context m \<and> mo_provider m \<notin> set (ro_disabled r)
     \<and> \<not> is_model_disabled (mo_id m) r"

definition routed_score :: "model_router \<Rightarrow> routing_constraints \<Rightarrow> model_spec \<Rightarrow> rat" where
  "routed_score r c m = score_model m c + (if ro_preferred r = Some (mo_id m) then 15 / 100 else 0)"

definition select_model ::
    "task_profile \<Rightarrow> routing_constraints \<Rightarrow> model_router \<Rightarrow> string + routing_decision" where
  "select_model profile c r =
     (case order_desc snd (map (\<lambda>m. (m, routed_score r c m)) (filter (eligible r c) (ro_catalog r))) of
        [] \<Rightarrow> Inl ''no model satisfies routing constraints''
      | (m, s) # rest \<Rightarrow> Inr \<lparr>rd_profile = profile, rd_primary = m, rd_fallbacks = map fst rest,
          rd_scored = (m, s) # rest\<rparr>)"

section \<open>Inference\<close>

record inference_result =
  ir_provider :: provider_kind
  ir_model :: string
  ir_output :: string
  ir_used_fallback :: bool
  ir_usage :: "token_usage option"

type_synonym provider_call = "nat \<Rightarrow> model_spec \<Rightarrow> string + (string \<times> token_usage option)"

definition cache_ttl_secs :: "task_profile \<Rightarrow> nat" where
  "cache_ttl_secs p = (case p of Planning \<Rightarrow> 300 | Extraction \<Rightarrow> 900 | Coding \<Rightarrow> 600 | General \<Rightarrow> 600)"

text \<open>Times are in milliseconds; the age of an entry is compared in whole seconds.\<close>

definition is_expired :: "nat \<Rightarrow> cache_entry \<Rightarrow> bool" where
  "is_expired now e \<longleftrightarrow> (now - ce_created e) div 1000 > ce_ttl e"

text \<open>\<open>call k m\<close> answers for the provider of the model \<open>m\<close> at the \<open>k\<close>-th attempt.\<close>

definition generate :: "provider_call \<Rightarrow> nat \<Rightarrow> model_spec \<Rightarrow> model_router \<Rightarrow> string + (string \<times> token_usage option)" where
  "generate call k m r =
     (if mo_provider m \<in> set (ro_disabled r) then Inl (''provider '' @ provider_display (mo_provider m) @ '' is disabled'')
      else if is_model_disabled (mo_id m) r then Inl (''model '' @ mo_id m @ '' is disabled'')
      else call k m)"

definition attempt_line :: "model_spec \<Rightarrow> string \<Rightarrow> string" where
  "attempt_line m err = provider_display (mo_provider m) @ '':'' @ mo_id m @ '' => '' @ err"

text \<open>
  The chain; \<open>elapsed k\<close> is the number of seconds gone before the \<open>k\<close>-th attempt, \<open>limit\<close> the
  deadline and \<open>msg\<close> its error.
\<close>

fun try_chain ::
    "provider_call \<Rightarrow> (nat \<Rightarrow> nat) \<Rightarrow> nat \<Rightarrow> string \<Rightarrow> model_router \<Rightarrow> nat \<Rightarrow> model_spec list \<Rightarrow> string list
      \<Rightarrow> string list + inference_result" where
  "try_chain call elapsed limit msg r k [] errs = Inl errs"
| "try_chain call elapsed limit msg r k (m # ms) errs =
     (if elapsed k > limit then Inl (errs @ [msg])
      else (case generate call k m r of
          Inr (out, usage) \<Rightarrow> Inr \<lparr>ir_provider = mo_provider m, ir_model = mo_id m, ir_output = out,
            ir_used_fallback = k \<noteq> 0, ir_usage = usage\<rparr>
        | Inl e \<Rightarrow> try_chain call elapsed limit msg r (Suc k) ms (errs @ [attempt_line m e])))"

definition chain_failed :: "string list \<Rightarrow> string" where
  "chain_failed errs = ''all model candidates failed: '' @ join '' | '' errs"

definition chain_of :: "routing_decision \<Rightarrow> model_spec list" where
  "chain_of d = rd_primary d # rd_fallbacks d"

text \<open>The entry of an answer; \<open>done_at\<close> is the time at which the provider answered.\<close>

definition store_answer :: "task_profile \<Rightarrow> nat \<Rightarrow> nat \<Rightarrow> inference_result \<Rightarrow> model_router \<Rightarrow> model_router" where
  "store_answer profile hash done_at x r = r\<lparr>ro_cache := hm_insert (ro_cache r) hash
     \<lparr>ce_output = ir_output x, ce_model = ir_model x, ce_provider = ir_provider x, ce_created = done_at,
      ce_ttl = cache_ttl_secs profile, ce_usage = ir_usage x\<rparr>\<rparr>"

definition run_chain ::
    "provider_call \<Rightarrow> (nat \<Rightarrow> nat) \<Rightarrow> nat \<Rightarrow> string \<Rightarrow> task_profile \<Rightarrow> routing_constraints \<Rightarrow> nat \<Rightarrow> nat
      \<Rightarrow> model_router \<Rightarrow> (string + routing_decision \<times> inference_result) \<times> model_router" where
  "run_chain call elapsed limit msg profile c hash done_at r =
     (case select_model profile c r of
        Inl e \<Rightarrow> (Inl e, r)
      | Inr d \<Rightarrow> (case try_chain call elapsed limit msg r 0 (chain_of d) [] of
            Inl errs \<Rightarrow> (Inl (chain_failed errs), r)
          | Inr x \<Rightarrow> (Inr (d, x), store_answer profile hash done_at x r)))"

definition cached_result :: "cache_entry \<Rightarrow> inference_result" where
  "cached_result e = \<lparr>ir_provider = ce_provider e, ir_model = ce_model e, ir_output = ce_output e,
     ir_used_fallback = False, ir_usage = ce_usage e\<rparr>"

definition evict_expired :: "nat \<Rightarrow> model_router \<Rightarrow> model_router" where
  "evict_expired now r = (if length (ro_cache r) > 500
     then r\<lparr>ro_cache := filter (\<lambda>(_, e). \<not> is_expired now e) (ro_cache r)\<rparr> else r)"

definition infer_in_dir ::
    "provider_call \<Rightarrow> (nat \<Rightarrow> nat) \<Rightarrow> task_profile \<Rightarrow> routing_constraints \<Rightarrow> nat \<Rightarrow> nat \<Rightarrow> nat
      \<Rightarrow> model_router \<Rightarrow> (string + routing_decision \<times> inference_result) \<times> model_router" where
  "infer_in_dir call elapsed profile c hash now done_at r =
     (case hm_get (ro_cache r) hash of
        Some e \<Rightarrow>
          if \<not> is_expired now e then
            (case select_model profile c r of
               Inl err \<Rightarrow> (Inl err, r)
             | Inr d \<Rightarrow> (Inr (d, cached_result e), r))
          else run_chain call elapsed 300 ''fallback chain deadline exceeded (300s)'' profile c hash done_at
            (evict_expired now (r\<lparr>ro_cache := hm_remove (ro_cache r) hash\<rparr>))
      | None \<Rightarrow> run_chain call elapsed 300 ''fallback chain deadline exceeded (300s)'' profile c hash done_at
          (evict_expired now r))"

definition infer_stream_in_dir ::
    "provider_call \<Rightarrow> (nat \<Rightarrow> nat) \<Rightarrow> task_profile \<Rightarrow> routing_constraints \<Rightarrow> nat \<Rightarrow> nat
      \<Rightarrow> model_router \<Rightarrow> (string + routing_decision \<times> inference_result) \<times> model_router" where
  "infer_stream_in_dir call elapsed profile c hash done_at r =
     run_chain call elapsed 100 ''fallback chain deadline exceeded (100s)'' profile c hash done_at r"

section \<open>What providers report\<close>

text \<open>\<^verbatim>\<open>drain_sse_lines\<close> on the bytes of a buffer: the complete lines and what is left.\<close>

definition strip_cr :: "u8 list \<Rightarrow> u8 list" where
  "strip_cr l = (if l \<noteq> [] \<and> last l = 13 then butlast l else l)"

fun drain_sse_loop :: "u8 list \<Rightarrow> u8 list \<Rightarrow> u8 list list \<times> u8 list" where
  "drain_sse_loop line [] = ([], line)"
| "drain_sse_loop line (b # bs) =
     (if b = 10 then (case drain_sse_loop [] bs of (ls, rest) \<Rightarrow> (strip_cr line # ls, rest))
      else drain_sse_loop (line @ [b]) bs)"

definition drain_sse_lines :: "u8 list \<Rightarrow> u8 list list \<times> u8 list" where
  "drain_sse_lines buf = drain_sse_loop [] buf"

text \<open>\<open>as_u64\<close> reads a JSON number that is an unsigned integer of 64 bits.\<close>

definition read_token_count :: "(json \<Rightarrow> u64 option) \<Rightarrow> json \<Rightarrow> string \<Rightarrow> u32 option" where
  "read_token_count as_u64 v k =
     map_option (\<lambda>n. ucast (min n 0xFFFFFFFF)) (Option.bind (j_get v k) as_u64)"

definition parse_usage :: "(json \<Rightarrow> u64 option) \<Rightarrow> string \<Rightarrow> string \<Rightarrow> json \<Rightarrow> token_usage option" where
  "parse_usage as_u64 ik ok v = (case v of
       J_Object _ \<Rightarrow> (case read_token_count as_u64 v ik of
           None \<Rightarrow> None
         | Some n \<Rightarrow> Some (TokenUsage n (case read_token_count as_u64 v ok of None \<Rightarrow> 0 | Some m \<Rightarrow> m)))
     | _ \<Rightarrow> None)"

definition parse_openai_usage :: "(json \<Rightarrow> u64 option) \<Rightarrow> json \<Rightarrow> token_usage option" where
  "parse_openai_usage as_u64 v = parse_usage as_u64 ''prompt_tokens'' ''completion_tokens'' v"

definition parse_anthropic_usage :: "(json \<Rightarrow> u64 option) \<Rightarrow> json \<Rightarrow> token_usage option" where
  "parse_anthropic_usage as_u64 v = parse_usage as_u64 ''input_tokens'' ''output_tokens'' v"

definition parse_gemini_usage :: "(json \<Rightarrow> u64 option) \<Rightarrow> json \<Rightarrow> token_usage option" where
  "parse_gemini_usage as_u64 v = parse_usage as_u64 ''promptTokenCount'' ''candidatesTokenCount'' v"

definition mock_inference :: "model_spec \<Rightarrow> string \<Rightarrow> string" where
  "mock_inference m prompt =
     (let s = map (\<lambda>c. if c = CHR 0x0A then CHR '' '' else c) prompt
      in ''[provider='' @ provider_display (mo_provider m) @ '' model='' @ mo_id m @ ''] ''
         @ (if length s > 200 then take 200 s else s))"

end
