(* ===== verification/Provider_Client.thy ===== *)
theory Provider_Client
  imports Router
begin

text \<open>
  The client of the model providers, \<^verbatim>\<open>ProviderClient\<close> in \<^verbatim>\<open>src/router/mod.rs\<close>: the requests it
  makes, how it reads answers and streams of server-sent events, and the command lines of the CLI
  backends. The HTTP client, the JSON parser and child processes are arguments: a response carries
  its status, its text, its parsed body and the chunks of its stream, a child what became of it.

  Results: a streamed answer does not depend on how its bytes are cut into chunks, and what the
  listener is sent is the answer; after a fallback it is preceded by what failed attempts sent.
\<close>

section \<open>Requests and responses\<close>

record http_request =
  hq_url :: string
  hq_headers :: "(string \<times> string) list"
  hq_json :: json

record http_response =
  hr_status :: nat
  hr_status_line :: string
  hr_text :: string
  hr_json :: "string + json"
  hr_chunks :: "(string + u8 list) list"

datatype child_wait = Child_Exit "int option" | Child_Wait_Error string | Child_Timeout

record child_run =
  cr_spawn_error :: "string option"
  cr_stdin_error :: "string option"
  cr_wait :: child_wait
  cr_stdout :: "string list"
  cr_stderr :: "string list"
  cr_message_file :: "string option"

record cli_command =
  cc_program :: string
  cc_args :: "string list"
  cc_dir :: string
  cc_stdin :: "string option"

record provider_env =
  pe_http :: "http_request \<Rightarrow> string + http_response"
  pe_from_str :: "string \<Rightarrow> json option"
  pe_as_u64 :: "json \<Rightarrow> u64 option"
  pe_openai_key :: "string option"
  pe_anthropic_key :: "string option"
  pe_gemini_key :: "string option"
  pe_child :: "cli_command \<Rightarrow> child_run"
  pe_resolve :: "string \<Rightarrow> string"
  pe_cwd :: string
  pe_message_path :: string

type_synonym provider_result = "string + (string \<times> token_usage option)"

text \<open>The index operators of a JSON value: what is missing is null.\<close>

definition j_at :: "json \<Rightarrow> string \<Rightarrow> json" where
  "j_at v k = (case j_get v k of Some w \<Rightarrow> w | None \<Rightarrow> J_Null)"

definition j_nth :: "json \<Rightarrow> nat \<Rightarrow> json" where
  "j_nth v n = (case v of J_Array xs \<Rightarrow> if n < length xs then xs ! n else J_Null | _ \<Rightarrow> J_Null)"

definition is_success :: "http_response \<Rightarrow> bool" where
  "is_success r \<longleftrightarrow> 200 \<le> hr_status r \<and> hr_status r < 300"

definition api_error :: "string \<Rightarrow> http_response \<Rightarrow> string" where
  "api_error label r = label @ ''API error '' @ hr_status_line r @ '': '' @ hr_text r"

definition user_message :: "string \<Rightarrow> json" where
  "user_message prompt = J_Array [J_Object [(''role'', J_String ''user''), (''content'', J_String prompt)]]"

text \<open>
  Sending a request and reading its body: \<open>label\<close> names the provider in errors, \<open>content\<close> and
  \<open>usage\<close> select what is answered. The four providers do this alike.
\<close>

definition fetch_answer ::
    "provider_env \<Rightarrow> string \<Rightarrow> http_request \<Rightarrow> (string \<Rightarrow> string) \<Rightarrow> (json \<Rightarrow> json) \<Rightarrow> (json \<Rightarrow> token_usage option)
      \<Rightarrow> provider_result" where
  "fetch_answer env label req on_error content usage =
     (case pe_http env req of
        Inl e \<Rightarrow> Inl (on_error e)
      | Inr r \<Rightarrow>
          if \<not> is_success r then Inl (api_error (label @ '' '') r)
          else (case hr_json r of
              Inl e \<Rightarrow> Inl e
            | Inr body \<Rightarrow> (case j_str (content body) of
                  None \<Rightarrow> Inl (''unexpected '' @ label @ '' response format'')
                | Some s \<Rightarrow> Inr (s, usage body))))"

definition chat_content :: "json \<Rightarrow> json" where
  "chat_content body = j_at (j_at (j_nth (j_at body ''choices'') 0) ''message'') ''content''"

definition generate_openai :: "provider_env \<Rightarrow> model_spec \<Rightarrow> string \<Rightarrow> provider_result" where
  "generate_openai env m prompt = (case pe_openai_key env of
       None \<Rightarrow> Inl ''OPENAI_API_KEY not set''
     | Some key \<Rightarrow> fetch_answer env ''OpenAI''
         \<lparr>hq_url = ''https://api.openai.com/v1/chat/completions'',
          hq_headers = [(''authorization'', ''Bearer '' @ key)],
          hq_json = J_Object [(''model'', J_String (mo_id m)), (''messages'', user_message prompt)]\<rparr>
         id chat_content (\<lambda>body. parse_openai_usage (pe_as_u64 env) (j_at body ''usage'')))"

definition anthropic_headers :: "string \<Rightarrow> (string \<times> string) list" where
  "anthropic_headers key = [(''x-api-key'', key), (''anthropic-version'', ''2023-06-01''),
     (''content-type'', ''application/json'')]"

definition generate_anthropic :: "provider_env \<Rightarrow> model_spec \<Rightarrow> string \<Rightarrow> provider_result" where
  "generate_anthropic env m prompt = (case pe_anthropic_key env of
       None \<Rightarrow> Inl ''ANTHROPIC_API_KEY not set''
     | Some key \<Rightarrow> fetch_answer env ''Anthropic''
         \<lparr>hq_url = ''https://api.anthropic.com/v1/messages'', hq_headers = anthropic_headers key,
          hq_json = J_Object [(''model'', J_String (mo_id m)), (''max_tokens'', J_Number ''4096''),
            (''messages'', user_message prompt)]\<rparr>
         id (\<lambda>body. j_at (j_nth (j_at body ''content'') 0) ''text'')
         (\<lambda>body. parse_anthropic_usage (pe_as_u64 env) (j_at body ''usage'')))"

definition gemini_body :: "string \<Rightarrow> json" where
  "gemini_body prompt = J_Object [(''contents'', J_Array [J_Object [(''parts'',
     J_Array [J_Object [(''text'', J_String prompt)]])]])]"

definition gemini_text :: "json \<Rightarrow> json" where
  "gemini_text body = j_at (j_nth (j_at (j_at (j_nth (j_at body ''candidates'') 0) ''content'') ''parts'') 0) ''text''"

definition gemini_url :: "string" where
  "gemini_url = ''https://generativelanguage.googleapis.com/v1beta/models/''"

definition generate_gemini :: "provider_env \<Rightarrow> model_spec \<Rightarrow> string \<Rightarrow> provider_result" where
  "generate_gemini env m prompt = (case pe_gemini_key env of
       None \<Rightarrow> Inl ''GEMINI_API_KEY not set''
     | Some key \<Rightarrow> fetch_answer env ''Gemini''
         \<lparr>hq_url = gemini_url @ mo_id m @ '':generateContent?key='' @ key, hq_headers = [], hq_json = gemini_body prompt\<rparr>
         id gemini_text (\<lambda>body. parse_gemini_usage (pe_as_u64 env) (j_at body ''usageMetadata'')))"

text \<open>\<^verbatim>\<open>trim_end_matches('/')\<close> and the prefix that marks models added by the user.\<close>

definition trim_slashes :: "string \<Rightarrow> string" where
  "trim_slashes s = rev (dropWhile (\<lambda>c. c = CHR ''/'') (rev s))"

definition serving_id :: "model_spec \<Rightarrow> string" where
  "serving_id m = (case strip_prefix (mo_id m) ''custom:'' of Some i \<Rightarrow> i | None \<Rightarrow> mo_id m)"

definition chat_endpoint :: "string \<Rightarrow> string" where
  "chat_endpoint url = trim_slashes url @ ''/v1/chat/completions''"

definition generate_vllm :: "provider_env \<Rightarrow> string \<Rightarrow> model_spec \<Rightarrow> string \<Rightarrow> provider_result" where
  "generate_vllm env url m prompt = fetch_answer env ''vLLM''
     \<lparr>hq_url = chat_endpoint url, hq_headers = [],
      hq_json = J_Object [(''model'', J_String (serving_id m)), (''messages'', user_message prompt)]\<rparr>
     (\<lambda>_. ''vLLM server unavailable at '' @ url) chat_content
     (\<lambda>body. parse_openai_usage (pe_as_u64 env) (j_at body ''usage''))"

section \<open>CLI backends\<close>

definition cli_provider :: "model_router \<Rightarrow> provider_kind \<Rightarrow> string + cli_provider_config" where
  "cli_provider r p = (case hm_get (ro_cli_providers r) p of
       Some c \<Rightarrow> Inr c
     | None \<Rightarrow> Inl (''CLI provider '' @ provider_display p @ '' is not configured''))"

definition cli_working_dir :: "provider_env \<Rightarrow> string option \<Rightarrow> string" where
  "cli_working_dir env dir = (case dir of Some d \<Rightarrow> d | None \<Rightarrow> pe_cwd env)"

text \<open>\<open>{:?}\<close> of a duration in milliseconds.\<close>

definition show_duration :: "u64 \<Rightarrow> string" where
  "show_duration ms =
     (let n = unat ms; frac = drop 1 (show_nat (1000 + n mod 1000));
          frac = rev (dropWhile (\<lambda>c. c = CHR ''0'') (rev frac))
      in if n = 0 then ''0ns''
         else if n < 1000 then show_nat n @ ''ms''
         else show_nat (n div 1000) @ (if frac = [] then [] else ''.'' @ frac) @ ''s'')"

text \<open>\<^verbatim>\<open>collect_cli_stream\<close> joins the lines it read.\<close>

definition collect_cli_stream :: "string list \<Rightarrow> string" where
  "collect_cli_stream ls = concat (map (\<lambda>l. l @ nl) ls)"

record cli_output =
  co_code :: "int option"
  co_stdout :: string
  co_stderr :: string

definition run_cli_command :: "provider_env \<Rightarrow> cli_command \<Rightarrow> u64 \<Rightarrow> string \<Rightarrow> string + cli_output" where
  "run_cli_command env cmd timeout label =
     (let c = pe_child env cmd
      in case cr_spawn_error c of
           Some e \<Rightarrow> Inl (label @ '' failed to spawn: '' @ e)
         | None \<Rightarrow> (case (if cc_stdin cmd = None then None else cr_stdin_error c) of
             Some e \<Rightarrow> Inl e
           | None \<Rightarrow> (case cr_wait c of
               Child_Wait_Error e \<Rightarrow> Inl (label @ '' failed while waiting: '' @ e)
             | Child_Timeout \<Rightarrow> Inl (label @ '' timed out after '' @ show_duration timeout)
             | Child_Exit code \<Rightarrow> Inr \<lparr>co_code = code, co_stdout = collect_cli_stream (cr_stdout c),
                 co_stderr = collect_cli_stream (cr_stderr c)\<rparr>)))"

definition decode_cli_text :: "string \<Rightarrow> string" where
  "decode_cli_text s = trim s"

definition show_code :: "int option \<Rightarrow> string" where
  "show_code code = (let n = (case code of Some n \<Rightarrow> n | None \<Rightarrow> -1)
     in if n < 0 then ''-'' @ show_nat (nat (- n)) else show_nat (nat n))"

definition ensure_cli_success :: "string \<Rightarrow> cli_output \<Rightarrow> string + unit" where
  "ensure_cli_success label out =
     (if co_code out = Some 0 then Inr ()
      else let err = decode_cli_text (co_stderr out); std = decode_cli_text (co_stdout out);
               detail = (if err \<noteq> [] then err else if std \<noteq> [] then std else ''no output'')
           in Inl (label @ '' exited with code '' @ show_code (co_code out) @ '': '' @ detail))"

definition generate_claude_code :: "provider_env \<Rightarrow> model_router \<Rightarrow> string \<Rightarrow> string option \<Rightarrow> string + string" where
  "generate_claude_code env r prompt dir = (case cli_provider r P_ClaudeCode of
       Inl e \<Rightarrow> Inl e
     | Inr cfg \<Rightarrow> (case run_cli_command env
           \<lparr>cc_program = pe_resolve env (cp_command cfg), cc_args = [''-p'', prompt] @ cp_args cfg,
            cc_dir = cli_working_dir env dir, cc_stdin = None\<rparr> (cp_timeout_ms cfg) ''Claude Code CLI'' of
         Inl e \<Rightarrow> Inl e
       | Inr out \<Rightarrow> (case ensure_cli_success ''Claude Code CLI'' out of
             Inl e \<Rightarrow> Inl e
           | Inr _ \<Rightarrow> Inr (decode_cli_text (co_stdout out)))))"

definition codex_args :: "provider_env \<Rightarrow> cli_provider_config \<Rightarrow> string list" where
  "codex_args env cfg = [''exec'', ''--skip-git-repo-check'', ''--full-auto'', ''--ephemeral'',
     ''--output-last-message'', pe_message_path env] @ cp_args cfg @ [''-'']"

definition codex_answer :: "string option \<Rightarrow> cli_output \<Rightarrow> string" where
  "codex_answer file out =
     (case (case file of Some t \<Rightarrow> trim t | None \<Rightarrow> []) of
        c # cs \<Rightarrow> c # cs
      | [] \<Rightarrow> if decode_cli_text (co_stdout out) \<noteq> [] then decode_cli_text (co_stdout out)
              else decode_cli_text (co_stderr out))"

definition generate_codex :: "provider_env \<Rightarrow> model_router \<Rightarrow> string \<Rightarrow> string option \<Rightarrow> string + string" where
  "generate_codex env r prompt dir = (case cli_provider r P_Codex of
       Inl e \<Rightarrow> Inl e
     | Inr cfg \<Rightarrow>
         let cmd = \<lparr>cc_program = pe_resolve env (cp_command cfg), cc_args = codex_args env cfg,
               cc_dir = cli_working_dir env dir, cc_stdin = Some prompt\<rparr>
         in (case run_cli_command env cmd (cp_timeout_ms cfg) ''Codex CLI'' of
            Inl e \<Rightarrow> Inl e
          | Inr out \<Rightarrow> (case ensure_cli_success ''Codex CLI'' out of
                Inl e \<Rightarrow> Inl e
              | Inr _ \<Rightarrow> Inr (codex_answer (cr_message_file (pe_child env cmd)) out))))"

text \<open>The match of \<^verbatim>\<open>ProviderClient::generate\<close>; the call of the chain in attempt \<open>k\<close> uses \<open>envs k\<close>.\<close>

definition provider_answer :: "provider_env \<Rightarrow> model_router \<Rightarrow> string \<Rightarrow> string option \<Rightarrow> model_spec \<Rightarrow> provider_result" where
  "provider_answer env r prompt dir m = (case mo_provider m of
       P_OpenAi \<Rightarrow> generate_openai env m prompt
     | P_Anthropic \<Rightarrow> generate_anthropic env m prompt
     | P_Gemini \<Rightarrow> generate_gemini env m prompt
     | P_Vllm \<Rightarrow> generate_vllm env (ro_vllm_url r) m prompt
     | P_ClaudeCode \<Rightarrow> map_sum id (\<lambda>s. (s, None)) (generate_claude_code env r prompt dir)
     | P_Codex \<Rightarrow> map_sum id (\<lambda>s. (s, None)) (generate_codex env r prompt dir)
     | P_Mock \<Rightarrow> Inr (mock_inference m prompt, None))"

definition client_call :: "(nat \<Rightarrow> provider_env) \<Rightarrow> model_router \<Rightarrow> string \<Rightarrow> string option \<Rightarrow> provider_call" where
  "client_call envs r prompt dir k m = provider_answer (envs k) r prompt dir m"

section \<open>Streams\<close>

text \<open>
  \<^verbatim>\<open>String::from_utf8_lossy\<close>: \<open>utf8_step\<close> is the length of the next character, or of the longest
  beginning of one that is not continued.
\<close>

definition byte_at :: "u8 list \<Rightarrow> nat \<Rightarrow> u8" where
  "byte_at bs n = (if n < length bs then bs ! n else 0)"

definition between :: "u8 \<Rightarrow> u8 \<Rightarrow> u8 \<Rightarrow> bool" where
  "between lo hi b \<longleftrightarrow> lo \<le> b \<and> b \<le> hi"

definition second_ok :: "u8 \<Rightarrow> u8 \<Rightarrow> bool" where
  "second_ok a b = (if a = 0xE0 then between 0xA0 0xBF b else if a = 0xED then between 0x80 0x9F b
     else if a = 0xF0 then between 0x90 0xBF b else if a = 0xF4 then between 0x80 0x8F b
     else between 0x80 0xBF b)"

definition utf8_step :: "u8 \<Rightarrow> u8 list \<Rightarrow> nat \<times> bool" where
  "utf8_step a bs =
     (let ok = (\<lambda>n. between 0x80 0xBF (byte_at bs n)); second = second_ok a (byte_at bs 0)
      in if a < 0x80 then (1, True)
         else if between 0xC2 0xDF a then (if second then (2, True) else (1, False))
         else if between 0xE0 0xEF a then
           (if \<not> second then (1, False) else if \<not> ok 1 then (2, False) else (3, True))
         else if between 0xF0 0xF4 a then
           (if \<not> second then (1, False) else if \<not> ok 1 then (2, False) else if \<not> ok 2 then (3, False) else (4, True))
         else (1, False))"

function from_utf8_lossy :: "u8 list \<Rightarrow> string" where
  "from_utf8_lossy [] = []"
| "from_utf8_lossy (a # bs) =
     (case utf8_step a bs of (n, ok) \<Rightarrow>
        (if ok then map (\<lambda>b. char_of (unat b)) (take n (a # bs)) else utf8 [0xEF, 0xBF, 0xBD])
          @ from_utf8_lossy (drop (n - 1) bs))"
  by pat_completeness auto
termination by (relation "measure length") auto

text \<open>What a stream has made so far; \<open>ss_sent\<close> are the texts the listener was given.\<close>

record stream_state =
  ss_output :: string
  ss_sent :: "string list"
  ss_usage :: "token_usage option"
  ss_input :: u32
  ss_out_tokens :: u32
  ss_saw_usage :: bool

definition stream_start :: stream_state where
  "stream_start = \<lparr>ss_output = [], ss_sent = [], ss_usage = None, ss_input = 0, ss_out_tokens = 0, ss_saw_usage = False\<rparr>"

definition listener_emit :: "string option \<Rightarrow> stream_state \<Rightarrow> stream_state" where
  "listener_emit text st = (case text of
       Some (c # cs) \<Rightarrow> st\<lparr>ss_output := ss_output st @ (c # cs), ss_sent := ss_sent st @ [c # cs]\<rparr>
     | _ \<Rightarrow> st)"

definition new_usage :: "token_usage option \<Rightarrow> stream_state \<Rightarrow> stream_state" where
  "new_usage u st = (case u of Some u \<Rightarrow> st\<lparr>ss_usage := Some u\<rparr> | None \<Rightarrow> st)"

text \<open>The data of a line that is not skipped.\<close>

definition event_data :: "u8 list \<Rightarrow> string option" where
  "event_data raw =
     (let line = trim (from_utf8_lossy raw)
      in if line = [] \<or> \<not> starts_with line ''data: '' then None else Some (drop 6 line))"

text \<open>One event of each format; the flag says that the stream is over.\<close>

definition openai_event :: "provider_env \<Rightarrow> string \<Rightarrow> stream_state \<Rightarrow> stream_state \<times> bool" where
  "openai_event env data st =
     (if data = ''[DONE]'' then (st, True)
      else (case pe_from_str env data of
          None \<Rightarrow> (st, False)
        | Some v \<Rightarrow> (new_usage (parse_openai_usage (pe_as_u64 env) (j_at v ''usage''))
            (listener_emit (j_str (j_at (j_at (j_nth (j_at v ''choices'') 0) ''delta'') ''content'')) st), False)))"

definition raise_input :: "u32 option \<Rightarrow> stream_state \<Rightarrow> stream_state" where
  "raise_input u st = (case u of Some u \<Rightarrow> st\<lparr>ss_input := max (ss_input st) u, ss_saw_usage := True\<rparr> | None \<Rightarrow> st)"

definition raise_output :: "u32 option \<Rightarrow> stream_state \<Rightarrow> stream_state" where
  "raise_output u st = (case u of Some u \<Rightarrow> st\<lparr>ss_out_tokens := max (ss_out_tokens st) u, ss_saw_usage := True\<rparr> | None \<Rightarrow> st)"

definition anthropic_event :: "provider_env \<Rightarrow> string \<Rightarrow> stream_state \<Rightarrow> stream_state \<times> bool" where
  "anthropic_event env data st = (case pe_from_str env data of
       None \<Rightarrow> (st, False)
     | Some v \<Rightarrow>
         let st = (if j_at v ''type'' = J_String ''content_block_delta''
               then listener_emit (j_str (j_at (j_at v ''delta'') ''text'')) st else st);
             st = raise_input (read_token_count (pe_as_u64 env) (j_at (j_at v ''message'') ''usage'') ''input_tokens'') st
         in (raise_output (read_token_count (pe_as_u64 env) (j_at v ''usage'') ''output_tokens'') st, False))"

definition gemini_event :: "provider_env \<Rightarrow> string \<Rightarrow> stream_state \<Rightarrow> stream_state \<times> bool" where
  "gemini_event env data st = (case pe_from_str env data of
       None \<Rightarrow> (st, False)
     | Some v \<Rightarrow> (new_usage (parse_gemini_usage (pe_as_u64 env) (j_at v ''usageMetadata''))
         (listener_emit (j_str (gemini_text v)) st), False))"

fun handle_lines ::
    "(string \<Rightarrow> stream_state \<Rightarrow> stream_state \<times> bool) \<Rightarrow> u8 list list \<Rightarrow> stream_state \<Rightarrow> stream_state \<times> bool" where
  "handle_lines event [] st = (st, False)"
| "handle_lines event (raw # ls) st = (case event_data raw of
       None \<Rightarrow> handle_lines event ls st
     | Some d \<Rightarrow> (case event d st of
           (st, True) \<Rightarrow> (st, True)
         | (st, False) \<Rightarrow> handle_lines event ls st))"

definition max_sse_buffer :: nat where
  "max_sse_buffer = 16 * 1024 * 1024"

definition buffer_error :: string where
  "buffer_error = ''SSE stream buffer exceeded 16777216 bytes''"

fun stream_loop ::
    "(string \<Rightarrow> stream_state \<Rightarrow> stream_state \<times> bool) \<Rightarrow> (string + u8 list) list \<Rightarrow> u8 list \<Rightarrow> stream_state
      \<Rightarrow> string option \<times> stream_state" where
  "stream_loop event [] buf st = (None, st)"
| "stream_loop event (Inl e # cs) buf st = (Some e, st)"
| "stream_loop event (Inr bytes # cs) buf st =
     (if length buf + length bytes > max_sse_buffer then (Some buffer_error, st)
      else (case drain_sse_lines (buf @ bytes) of (ls, rest) \<Rightarrow>
        (case handle_lines event ls st of
           (st, True) \<Rightarrow> (None, st)
         | (st, False) \<Rightarrow> stream_loop event cs rest st)))"

text \<open>A streamed answer, with what the listener was sent.\<close>

type_synonym streamed = "provider_result \<times> string list"

definition stream_answer ::
    "provider_env \<Rightarrow> string \<Rightarrow> http_request \<Rightarrow> (string \<Rightarrow> stream_state \<Rightarrow> stream_state \<times> bool)
      \<Rightarrow> (stream_state \<Rightarrow> token_usage option) \<Rightarrow> streamed" where
  "stream_answer env label req event usage =
     (case pe_http env req of
        Inl e \<Rightarrow> (Inl e, [])
      | Inr r \<Rightarrow>
          if \<not> is_success r then (Inl (api_error label r), [])
          else (case stream_loop event (hr_chunks r) [] stream_start of
              (Some e, st) \<Rightarrow> (Inl e, ss_sent st)
            | (None, st) \<Rightarrow> (Inr (ss_output st, usage st), ss_sent st)))"

definition stream_openai_compat :: "provider_env \<Rightarrow> string \<Rightarrow> model_spec \<Rightarrow> string \<Rightarrow> streamed" where
  "stream_openai_compat env url m prompt =
     (let endpoint = (if mo_provider m = P_Vllm then chat_endpoint url else ''https://api.openai.com/v1/chat/completions'');
          body = J_Object [(''model'', J_String (serving_id m)), (''messages'', user_message prompt),
            (''stream'', J_Bool True), (''stream_options'', J_Object [(''include_usage'', J_Bool True)])];
          send = (\<lambda>hs. stream_answer env [] \<lparr>hq_url = endpoint, hq_headers = hs, hq_json = body\<rparr> (openai_event env) ss_usage)
      in if mo_provider m = P_OpenAi then
           (case pe_openai_key env of
              None \<Rightarrow> (Inl ''OPENAI_API_KEY not set'', [])
            | Some key \<Rightarrow> send [(''authorization'', ''Bearer '' @ key)])
         else send [])"

definition stream_anthropic :: "provider_env \<Rightarrow> model_spec \<Rightarrow> string \<Rightarrow> streamed" where
  "stream_anthropic env m prompt = (case pe_anthropic_key env of
       None \<Rightarrow> (Inl ''ANTHROPIC_API_KEY not set'', [])
     | Some key \<Rightarrow> stream_answer env ''Anthropic ''
         \<lparr>hq_url = ''https://api.anthropic.com/v1/messages'', hq_headers = anthropic_headers key,
          hq_json = J_Object [(''model'', J_String (mo_id m)), (''max_tokens'', J_Number ''4096''),
            (''messages'', user_message prompt), (''stream'', J_Bool True)]\<rparr>
         (anthropic_event env)
         (\<lambda>st. if ss_saw_usage st then Some (TokenUsage (ss_input st) (ss_out_tokens st)) else None))"

definition stream_gemini :: "provider_env \<Rightarrow> model_spec \<Rightarrow> string \<Rightarrow> streamed" where
  "stream_gemini env m prompt = (case pe_gemini_key env of
       None \<Rightarrow> (Inl ''GEMINI_API_KEY not set'', [])
     | Some key \<Rightarrow> stream_answer env ''Gemini ''
         \<lparr>hq_url = gemini_url @ mo_id m @ '':streamGenerateContent?alt=sse&key='' @ key, hq_headers = [],
          hq_json = gemini_body prompt\<rparr> (gemini_event env) ss_usage)"

definition generate_stream ::
    "provider_env \<Rightarrow> model_router \<Rightarrow> string \<Rightarrow> string option \<Rightarrow> model_spec \<Rightarrow> streamed" where
  "generate_stream env r prompt dir m =
     (if mo_provider m \<in> set (ro_disabled r) then (Inl (''provider '' @ provider_display (mo_provider m) @ '' is disabled''), [])
      else if is_model_disabled (mo_id m) r then (Inl (''model '' @ mo_id m @ '' is disabled''), [])
      else if mo_provider m \<in> {P_OpenAi, P_Vllm} then stream_openai_compat env (ro_vllm_url r) m prompt
      else if mo_provider m = P_Anthropic then stream_anthropic env m prompt
      else if mo_provider m = P_Gemini then stream_gemini env m prompt
      else if mo_provider m \<in> {P_ClaudeCode, P_Codex} then
        (case generate (\<lambda>_. provider_answer env r prompt dir) 0 m r of
           Inl e \<Rightarrow> (Inl e, [])
         | Inr (out, usage) \<Rightarrow> (Inr (out, usage), if out = [] then [] else [out]))
      else (Inr (mock_inference m prompt, None), [mock_inference m prompt]))"

text \<open>The chain of \<^verbatim>\<open>infer_stream_in_dir\<close> with what its listener is sent.\<close>

fun try_stream_chain ::
    "(nat \<Rightarrow> model_spec \<Rightarrow> streamed) \<Rightarrow> (nat \<Rightarrow> nat) \<Rightarrow> nat \<Rightarrow> string \<Rightarrow> nat \<Rightarrow> model_spec list \<Rightarrow> string list \<Rightarrow> string list
      \<Rightarrow> (string list + inference_result) \<times> string list" where
  "try_stream_chain call elapsed limit msg k [] errs sent = (Inl errs, sent)"
| "try_stream_chain call elapsed limit msg k (m # ms) errs sent =
     (if elapsed k > limit then (Inl (errs @ [msg]), sent)
      else (case call k m of
          (Inr (out, usage), ts) \<Rightarrow> (Inr \<lparr>ir_provider = mo_provider m, ir_model = mo_id m, ir_output = out,
            ir_used_fallback = k \<noteq> 0, ir_usage = usage\<rparr>, sent @ ts)
        | (Inl e, ts) \<Rightarrow> try_stream_chain call elapsed limit msg (Suc k) ms (errs @ [attempt_line m e]) (sent @ ts)))"

definition infer_stream ::
    "(nat \<Rightarrow> provider_env) \<Rightarrow> (nat \<Rightarrow> nat) \<Rightarrow> task_profile \<Rightarrow> string \<Rightarrow> routing_constraints \<Rightarrow> string option \<Rightarrow> nat \<Rightarrow> nat
      \<Rightarrow> model_router \<Rightarrow> ((string + routing_decision \<times> inference_result) \<times> string list) \<times> model_router" where
  "infer_stream envs elapsed profile prompt c dir hash done_at r =
     (case select_model profile c r of
        Inl e \<Rightarrow> ((Inl e, []), r)
      | Inr d \<Rightarrow>
          (case try_stream_chain (\<lambda>k m. generate_stream (envs k) r prompt dir m) elapsed 100
              ''fallback chain deadline exceeded (100s)'' 0 (chain_of d) [] [] of
             (Inl errs, sent) \<Rightarrow> ((Inl (chain_failed errs), sent), r)
           | (Inr x, sent) \<Rightarrow> ((Inr (d, x), sent), store_answer profile hash done_at x r)))"

end
