(* ===== verification/Settings.thy ===== *)
theory Settings
  imports Router
begin

text \<open>
  The settings of the application, \<^verbatim>\<open>src/orchestrator/settings.rs\<close>: what is reported, what a
  patch changes, what is persisted and how the router is configured from it. The environment
  variables and the serialisation of the persisted row are arguments.
\<close>

record settings_patch =
  sp_profile :: "task_profile option"
  sp_preferred_model :: "string option option"
  sp_disabled_models :: "string list option"
  sp_disabled_providers :: "string list option"
  sp_cli_enabled :: "bool option"
  sp_cli_backend :: "cli_model_backend option option"
  sp_cli_command :: "string option"
  sp_cli_args :: "string list option"
  sp_cli_timeout_ms :: "u64 option"
  sp_cli_only :: "bool option"
  sp_terminal_command :: "string option"
  sp_terminal_args :: "string list option"
  sp_terminal_auto_spawn :: "bool option"
  sp_vllm_base_url :: "string option"
  sp_vllm_custom_model :: "string option option"

record settings_env =
  sv_codec :: "app_settings codec"
  sv_shell :: "string option"
  sv_vllm_url :: "string option"

record settings_state =
  sg_router :: model_router
  sg_db :: db

definition default_terminal_command :: "string option \<Rightarrow> string" where
  "default_terminal_command shell = (case shell of
       Some s \<Rightarrow> if trim s \<noteq> [] then trim s else ''bash''
     | None \<Rightarrow> ''bash'')"

definition default_vllm_base_url :: "string option \<Rightarrow> string" where
  "default_vllm_base_url url = (case url of Some u \<Rightarrow> u | None \<Rightarrow> ''http://127.0.0.1:8000'')"

section \<open>Reading\<close>

definition get_settings :: "settings_env \<Rightarrow> model_router \<Rightarrow> app_settings" where
  "get_settings env r =
     (let base = \<lparr>st_profile = General, st_preferred_model = ro_preferred r,
        st_disabled_models = ro_disabled_models r,
        st_disabled_providers = map provider_display (ro_disabled r),
        st_cli_enabled = False, st_cli_backend = None, st_cli_command = [], st_cli_args = [],
        st_cli_timeout_ms = 300000, st_cli_only = False,
        st_terminal_command = default_terminal_command (sv_shell env), st_terminal_args = [],
        st_terminal_auto_spawn = False, st_vllm_base_url = default_vllm_base_url (sv_vllm_url env),
        st_vllm_custom_model = None\<rparr>
      in (case ro_cli_model r of
            None \<Rightarrow> base
          | Some c \<Rightarrow> base\<lparr>st_cli_enabled := True, st_cli_backend := Some (cm_backend c),
              st_cli_command := cm_command c, st_cli_args := cm_args c,
              st_cli_timeout_ms := cm_timeout_ms c, st_cli_only := cm_cli_only c\<rparr>))"

definition merge_persisted :: "app_settings \<Rightarrow> app_settings \<Rightarrow> app_settings" where
  "merge_persisted p s =
     (let s = s\<lparr>st_profile := st_profile p, st_terminal_command := st_terminal_command p,
            st_terminal_args := st_terminal_args p, st_terminal_auto_spawn := st_terminal_auto_spawn p,
            st_vllm_base_url := st_vllm_base_url p, st_vllm_custom_model := st_vllm_custom_model p\<rparr>
      in if \<not> st_cli_enabled s \<and> st_cli_enabled p
         then s\<lparr>st_cli_enabled := True, st_cli_backend := st_cli_backend p, st_cli_command := st_cli_command p,
           st_cli_args := st_cli_args p, st_cli_timeout_ms := st_cli_timeout_ms p, st_cli_only := st_cli_only p\<rparr>
         else s)"

definition current_settings :: "settings_env \<Rightarrow> settings_state \<Rightarrow> app_settings" where
  "current_settings env st =
     (let s = get_settings env (sg_router st)
      in (case db_load_settings (sv_codec env) (sg_db st) of
            Inr (Some p) \<Rightarrow> merge_persisted p s
          | _ \<Rightarrow> s))"

section \<open>Configuring the router\<close>

definition normalize_cli_model_config :: "app_settings \<Rightarrow> cli_model_config option" where
  "normalize_cli_model_config s =
     (if \<not> st_cli_enabled s then None
      else map_option (\<lambda>b. \<lparr>cm_backend = b,
        cm_command = (if trim (st_cli_command s) = [] then default_command b else st_cli_command s),
        cm_args = st_cli_args s, cm_timeout_ms = max (st_cli_timeout_ms s) 1000,
        cm_cli_only = st_cli_only s\<rparr>) (st_cli_backend s))"

definition is_cli_model_id :: "string \<Rightarrow> bool" where
  "is_cli_model_id i \<longleftrightarrow> i = ''claude-code-cli'' \<or> i = ''codex-cli''"

definition configure_cli :: "app_settings \<Rightarrow> model_router \<Rightarrow> model_router" where
  "configure_cli s r =
     (let r = set_cli_model_config (normalize_cli_model_config s) r
      in (case normalize_cli_model_config s of
            None \<Rightarrow> r
          | Some c \<Rightarrow> set_preferred_model (case st_preferred_model s of Some i \<Rightarrow> Some i
                | None \<Rightarrow> Some (default_model_id (cm_backend c))) (apply_cli_model_bootstrap c r)))"

definition disable_listed :: "app_settings \<Rightarrow> model_router \<Rightarrow> model_router" where
  "disable_listed s r =
     (if st_cli_enabled s \<and> st_cli_only s then r
      else fold (\<lambda>name r. case provider_parse name of None \<Rightarrow> r | Some p \<Rightarrow> set_provider_disabled p True r)
        (st_disabled_providers s) r)"

definition apply_settings_to_runtime :: "app_settings \<Rightarrow> model_router \<Rightarrow> model_router" where
  "apply_settings_to_runtime s r =
     (let r = set_preferred_model (st_preferred_model s) r;
          r = fold (\<lambda>m. set_model_disabled (mo_id m) False) (ro_catalog r) r;
          r = fold (\<lambda>p. set_provider_disabled p False) all_providers r;
          r = set_vllm_config (st_vllm_base_url s) (st_vllm_custom_model s) r;
          r = configure_cli s r;
          r = fold (\<lambda>i. set_model_disabled i True) (st_disabled_models s) r
      in disable_listed s r)"

section \<open>Changing and persisting\<close>

definition opt_set :: "'a option \<Rightarrow> 'a \<Rightarrow> 'a" where
  "opt_set new old = (case new of None \<Rightarrow> old | Some x \<Rightarrow> x)"

definition cli_patch_applied :: "settings_patch \<Rightarrow> bool" where
  "cli_patch_applied p \<longleftrightarrow> sp_cli_enabled p \<noteq> None \<or> sp_cli_backend p \<noteq> None \<or> sp_cli_command p \<noteq> None
     \<or> sp_cli_args p \<noteq> None \<or> sp_cli_timeout_ms p \<noteq> None \<or> sp_cli_only p \<noteq> None"

definition apply_patch :: "settings_patch \<Rightarrow> app_settings \<Rightarrow> app_settings" where
  "apply_patch p s = s\<lparr>
     st_profile := opt_set (sp_profile p) (st_profile s),
     st_preferred_model := opt_set (sp_preferred_model p) (st_preferred_model s),
     st_disabled_models := opt_set (sp_disabled_models p) (st_disabled_models s),
     st_disabled_providers := opt_set (sp_disabled_providers p) (st_disabled_providers s),
     st_cli_enabled := opt_set (sp_cli_enabled p) (st_cli_enabled s),
     st_cli_backend := opt_set (sp_cli_backend p)
       (if sp_cli_enabled p = Some False then None else st_cli_backend s),
     st_cli_command := opt_set (sp_cli_command p) (st_cli_command s),
     st_cli_args := opt_set (sp_cli_args p) (st_cli_args s),
     st_cli_timeout_ms := opt_set (sp_cli_timeout_ms p) (st_cli_timeout_ms s),
     st_cli_only := opt_set (sp_cli_only p) (st_cli_only s),
     st_terminal_command := opt_set (sp_terminal_command p) (st_terminal_command s),
     st_terminal_args := opt_set (sp_terminal_args p) (st_terminal_args s),
     st_terminal_auto_spawn := opt_set (sp_terminal_auto_spawn p) (st_terminal_auto_spawn s),
     st_vllm_base_url := opt_set (sp_vllm_base_url p) (st_vllm_base_url s),
     st_vllm_custom_model := opt_set (sp_vllm_custom_model p) (st_vllm_custom_model s)\<rparr>"

definition patched_preference :: "settings_patch \<Rightarrow> app_settings \<Rightarrow> app_settings" where
  "patched_preference p s =
     (if cli_patch_applied p then
        (case normalize_cli_model_config s of
           Some c \<Rightarrow> s\<lparr>st_preferred_model := Some (default_model_id (cm_backend c))\<rparr>
         | None \<Rightarrow> (case st_preferred_model s of
             Some i \<Rightarrow> if is_cli_model_id i then s\<lparr>st_preferred_model := None\<rparr> else s
           | None \<Rightarrow> s))
      else s)"

text \<open>\<open>save_fails\<close>: the store refuses the row, which is only logged.\<close>

definition persist :: "settings_env \<Rightarrow> string \<Rightarrow> bool \<Rightarrow> app_settings \<Rightarrow> settings_state \<Rightarrow> settings_state" where
  "persist env now save_fails s st =
     (if save_fails then st else st\<lparr>sg_db := db_save_settings (sv_codec env) now s (sg_db st)\<rparr>)"

definition persist_current_settings :: "settings_env \<Rightarrow> string \<Rightarrow> bool \<Rightarrow> settings_state \<Rightarrow> settings_state" where
  "persist_current_settings env now save_fails st = persist env now save_fails (current_settings env st) st"

definition update_settings :: "settings_env \<Rightarrow> string \<Rightarrow> bool \<Rightarrow> settings_patch \<Rightarrow> settings_state \<Rightarrow> settings_state" where
  "update_settings env now save_fails p st =
     (let s = patched_preference p (apply_patch p (current_settings env st))
      in persist env now save_fails s (st\<lparr>sg_router := apply_settings_to_runtime s (sg_router st)\<rparr>))"

definition load_persisted_settings :: "settings_env \<Rightarrow> settings_state \<Rightarrow> settings_state" where
  "load_persisted_settings env st =
     (case db_load_settings (sv_codec env) (sg_db st) of
        Inr (Some s) \<Rightarrow> st\<lparr>sg_router := apply_settings_to_runtime s (sg_router st)\<rparr>
      | _ \<Rightarrow> st)"

end
