(* ===== verification/Router_Properties.thy ===== *)
theory Router_Properties
  imports Settings Store_Properties
begin

text \<open>
  Theorems on the router and its configuration: what model is chosen, what the chain of fallbacks
  and the cache answer, which providers a setting leaves enabled, and which settings are lost
  between the router and the persisted row.
\<close>

section \<open>The choice of a model\<close>

lemma map_fst_order:
  "\<exists>rest. mset rest = mset xs \<and> map fst (order_desc snd (map (\<lambda>m. (m, f m)) xs)) = rest
     \<and> sorted_wrt (\<lambda>a b. f a \<ge> f b) rest"
proof -
  let ?ys = "order_desc snd (map (\<lambda>m. (m, f m)) xs)"
  have pairs: "snd y = f (fst y)" if "y \<in> set ?ys" for y using that by (auto simp: sql_simps)
  have "mset (map fst ?ys) = image_mset fst (mset (map (\<lambda>m. (m, f m)) xs))"
    by (simp add: mset_order)
  then have "mset (map fst ?ys) = mset xs" by (simp flip: mset_map add: comp_def)
  moreover have "sorted_wrt (\<lambda>a b. snd a \<ge> snd b) ?ys"
    using sorted_order_desc [of snd "map (\<lambda>m. (m, f m)) xs"] by (simp add: sorted_wrt_map)
  then have "sorted_wrt (\<lambda>a b. f (fst a) \<ge> f (fst b)) ?ys"
    by (rule sorted_wrt_mono_rel [rotated]) (simp add: pairs)
  ultimately show ?thesis by (simp add: sorted_wrt_map)
qed

lemma select_model_cases:
  assumes "select_model profile c r = x"
  shows "case x of Inl e \<Rightarrow> filter (eligible r c) (ro_catalog r) = []
    | Inr d \<Rightarrow> mset (chain_of d) = mset (filter (eligible r c) (ro_catalog r))
        \<and> sorted_wrt (\<lambda>a b. routed_score r c a \<ge> routed_score r c b) (chain_of d)"
proof (cases "order_desc snd (map (\<lambda>m. (m, routed_score r c m)) (filter (eligible r c) (ro_catalog r)))")
  case Nil
  then have "filter (eligible r c) (ro_catalog r) = []"
    using length_order(2) [of snd "map (\<lambda>m. (m, routed_score r c m)) (filter (eligible r c) (ro_catalog r))"]
    by simp
  with Nil assms show ?thesis by (auto simp: select_model_def)
next
  case (Cons y ys)
  obtain m s where "y = (m, s)" by fastforce
  with Cons assms have "x = Inr \<lparr>rd_profile = profile, rd_primary = m, rd_fallbacks = map fst ys, rd_scored = y # ys\<rparr>"
    by (simp add: select_model_def)
  then show ?thesis
    using map_fst_order [of "filter (eligible r c) (ro_catalog r)" "routed_score r c"] Cons \<open>y = (m, s)\<close>
    by (simp add: chain_of_def)
qed


section \<open>The chain of fallbacks\<close>

definition answer_of :: "nat \<Rightarrow> model_spec \<Rightarrow> string \<times> token_usage option \<Rightarrow> inference_result" where
  "answer_of k m a = \<lparr>ir_provider = mo_provider m, ir_model = mo_id m, ir_output = fst a,
     ir_used_fallback = (k \<noteq> 0), ir_usage = snd a\<rparr>"

text \<open>The answer of the first model that answers, and no answer only when all fail.\<close>

definition first_answer :: "provider_call \<Rightarrow> model_spec list \<Rightarrow> inference_result option \<Rightarrow> bool" where
  "first_answer call ms x \<longleftrightarrow> (case x of
       Some y \<Rightarrow> \<exists>k < length ms. \<exists>a. call k (ms ! k) = Inr a \<and> y = answer_of k (ms ! k) a
         \<and> list_all (\<lambda>j. isl (call j (ms ! j))) [0..<k]
     | None \<Rightarrow> list_all (\<lambda>j. isl (call j (ms ! j))) [0..<length ms])"

lemma try_chain_first:
  assumes "\<And>k. elapsed k \<le> limit" and "\<And>m. m \<in> set ms \<Longrightarrow> eligible r c m"
  shows "case try_chain call elapsed limit msg r k ms errs of
      Inr y \<Rightarrow> \<exists>i < length ms. \<exists>a. call (k + i) (ms ! i) = Inr a \<and> y = answer_of (k + i) (ms ! i) a
        \<and> list_all (\<lambda>j. isl (call (k + j) (ms ! j))) [0..<i]
    | Inl e \<Rightarrow> list_all (\<lambda>j. isl (call (k + j) (ms ! j))) [0..<length ms]"
  using assms(2)
proof (induction ms arbitrary: k errs)
  case (Cons m ms)
  have gen: "generate call k m r = call k m"
    using Cons.prems [of m] by (simp add: generate_def eligible_def)
  have upto: "list_all P [0..<n] \<longleftrightarrow> (\<forall>i < n. P i)" for P n by (auto simp: list_all_iff)
  have shift: "list_all P [0..<Suc n] \<longleftrightarrow> P 0 \<and> list_all (\<lambda>j. P (Suc j)) [0..<n]" for P n
    unfolding upto by (rule All_less_Suc2)
  show ?case
  proof (cases "call k m")
    case (Inr a)
    then show ?thesis
      using assms(1) [of k] gen
      by (auto simp: answer_of_def split: prod.splits intro!: exI [of _ 0])
  next
    case (Inl e)
    have ih: "case try_chain call elapsed limit msg r (Suc k) ms (errs @ [attempt_line m e]) of
      Inr y \<Rightarrow> \<exists>i < length ms. \<exists>a. call (Suc k + i) (ms ! i) = Inr a \<and> y = answer_of (Suc k + i) (ms ! i) a
        \<and> list_all (\<lambda>j. isl (call (Suc k + j) (ms ! j))) [0..<i]
    | Inl e \<Rightarrow> list_all (\<lambda>j. isl (call (Suc k + j) (ms ! j))) [0..<length ms]"
      using Cons.prems by (intro Cons.IH) auto
    have step: "try_chain call elapsed limit msg r k (m # ms) errs =
        try_chain call elapsed limit msg r (Suc k) ms (errs @ [attempt_line m e])"
      using assms(1) [of k] gen Inl by (simp add: leD)
    show ?thesis
    proof (cases "try_chain call elapsed limit msg r (Suc k) ms (errs @ [attempt_line m e])")
      case (Inl es)
      with ih step \<open>call k m = Inl e\<close> show ?thesis by (simp add: shift del: upt_Suc)
    next
      case (Inr y)
      with ih obtain i a where "i < length ms" "call (Suc k + i) (ms ! i) = Inr a"
        "y = answer_of (Suc k + i) (ms ! i) a" "list_all (\<lambda>j. isl (call (Suc k + j) (ms ! j))) [0..<i]"
        by auto
      with Inr step \<open>call k m = Inl e\<close> show ?thesis
        by (cases a) (auto simp: shift simp del: upt_Suc intro!: exI [of _ "Suc i"])
    qed
  qed
qed simp

lemma first_answer_chain:
  assumes "\<And>k. elapsed k \<le> limit" and "\<And>m. m \<in> set ms \<Longrightarrow> eligible r c m"
  shows "first_answer call ms (case try_chain call elapsed limit msg r 0 ms [] of Inl _ \<Rightarrow> None | Inr y \<Rightarrow> Some y)"
proof -
  have "case try_chain call elapsed limit msg r 0 ms [] of
      Inr y \<Rightarrow> \<exists>i < length ms. \<exists>a. call (0 + i) (ms ! i) = Inr a \<and> y = answer_of (0 + i) (ms ! i) a
        \<and> list_all (\<lambda>j. isl (call (0 + j) (ms ! j))) [0..<i]
    | Inl e \<Rightarrow> list_all (\<lambda>j. isl (call (0 + j) (ms ! j))) [0..<length ms]"
    by (rule try_chain_first [OF assms])
  then show ?thesis by (simp add: first_answer_def split: sum.splits)
qed


lemma select_model_view:
  "ro_catalog r' = ro_catalog r \<Longrightarrow> ro_disabled r' = ro_disabled r \<Longrightarrow> ro_disabled_models r' = ro_disabled_models r
   \<Longrightarrow> ro_preferred r' = ro_preferred r \<Longrightarrow> select_model profile c r' = select_model profile c r"
proof -
  assume v: "ro_catalog r' = ro_catalog r" "ro_disabled r' = ro_disabled r"
    "ro_disabled_models r' = ro_disabled_models r" "ro_preferred r' = ro_preferred r"
  then have "eligible r' c = eligible r c" "routed_score r' c = routed_score r c"
    by (auto simp: eligible_def routed_score_def is_model_disabled_def fun_eq_iff)
  with v show ?thesis by (simp add: select_model_def)
qed

lemma chain_eligible:
  assumes "select_model profile c r = Inr d" and "m \<in> set (chain_of d)"
  shows "eligible r c m"
proof -
  have "mset (chain_of d) = mset (filter (eligible r c) (ro_catalog r))"
    using select_model_cases [OF assms(1)] by simp
  then have "set (chain_of d) = set (filter (eligible r c) (ro_catalog r))" by (rule mset_eq_setD)
  with assms(2) show ?thesis by auto
qed

lemma run_chain_first:
  assumes "select_model profile c r = Inr d" and "\<And>k. elapsed k \<le> limit"
  shows "case run_chain call elapsed limit msg profile c hash done_at r of
      (Inl e, r') \<Rightarrow> r' = r \<and> first_answer call (chain_of d) None
    | (Inr (d', y), r') \<Rightarrow> d' = d \<and> r' = store_answer profile hash done_at y r
        \<and> first_answer call (chain_of d) (Some y)"
  using first_answer_chain [of elapsed limit "chain_of d" r c call msg, OF assms(2) chain_eligible [OF assms(1)]] assms(1)
  by (auto simp: run_chain_def split: sum.splits)

lemma evict_view [simp]:
  "ro_catalog (evict_expired now r) = ro_catalog r" "ro_disabled (evict_expired now r) = ro_disabled r"
  "ro_disabled_models (evict_expired now r) = ro_disabled_models r" "ro_preferred (evict_expired now r) = ro_preferred r"
  by (simp_all add: evict_expired_def)


text \<open>
  An answer is repeated from the cache, whatever the providers would answer, as long as it
  is not older than its time to live and any model is eligible, even one whose model or provider
  was disabled meanwhile; it is then never reported as a fallback.
\<close>

theorem infer_repeats_cached:
  assumes "run_chain call elapsed limit msg profile c hash done_at r = (Inr (d, y), r1)"
    and "ro_cache r2 = ro_cache r1" and "select_model profile c r2 = Inr d2"
    and "(now - done_at) div 1000 \<le> cache_ttl_secs profile"
  shows "infer_in_dir call2 elapsed2 profile c hash now done2 r2 = (Inr (d2, y\<lparr>ir_used_fallback := False\<rparr>), r2)"
proof -
  have "r1 = store_answer profile hash done_at y r"
    using assms(1) by (auto simp: run_chain_def split: sum.splits)
  then have "hm_get (ro_cache r2) hash = Some \<lparr>ce_output = ir_output y, ce_model = ir_model y,
      ce_provider = ir_provider y, ce_created = done_at, ce_ttl = cache_ttl_secs profile, ce_usage = ir_usage y\<rparr>"
    using assms(2) by (simp add: store_answer_def hm_simps)
  then show ?thesis using assms(3,4) by (simp add: infer_in_dir_def is_expired_def cached_result_def)
qed

section \<open>Which providers a setting disables\<close>

named_theorems router_simps \<open>the disabled providers after an operation of the router\<close>

lemma mem_set_member [router_simps]: "x \<in> set (set_member y b xs) \<longleftrightarrow> (if x = y then b else x \<in> set xs)"
  by (auto simp: set_member_def)

lemma disabled_set_provider [router_simps]:
  "x \<in> set (ro_disabled (set_provider_disabled p b r)) \<longleftrightarrow> (if x = p then b else x \<in> set (ro_disabled r))"
  by (simp add: set_provider_disabled_def mem_set_member)

lemma disabled_fold_provider [router_simps]:
  "x \<in> set (ro_disabled (fold (\<lambda>p. set_provider_disabled p (f p)) ps r)) \<longleftrightarrow>
     (if x \<in> set ps then f x else x \<in> set (ro_disabled r))"
  by (induction ps arbitrary: r) (auto simp: router_simps)

lemma disabled_other_ops [router_simps]:
  "ro_disabled (set_preferred_model i r) = ro_disabled r"
  "ro_disabled (set_vllm_config url custom r) = ro_disabled r"
  "ro_disabled (set_model_disabled m b r) = ro_disabled r"
  by (simp_all add: set_preferred_model_def set_vllm_config_def set_model_disabled_def Let_def)

lemma disabled_fold_models [router_simps]:
  "ro_disabled (fold (\<lambda>m. set_model_disabled (f m) b) ms r) = ro_disabled r"
  by (induction ms arbitrary: r) (simp_all add: router_simps)

lemma in_all_providers [router_simps]: "p \<in> set all_providers"
  by (cases p) (simp_all add: all_providers_def)

lemma disabled_client_set_cli [router_simps]:
  "x \<in> set (ro_disabled (client_set_cli c r)) \<longleftrightarrow>
     (if x \<in> {P_ClaudeCode, P_Codex} then (case c of None \<Rightarrow> True | Some c \<Rightarrow> x \<noteq> provider_for_cli_backend (cm_backend c))
      else x \<in> set (ro_disabled r))"
proof (cases c)
  case (Some a)
  then show ?thesis by (cases "cm_backend a") (auto simp: client_set_cli_def Let_def router_simps)
qed (auto simp: client_set_cli_def Let_def router_simps)

lemma disabled_set_cli [router_simps]:
  "x \<in> set (ro_disabled (set_cli_model_config c r)) \<longleftrightarrow>
     (if x \<in> {P_ClaudeCode, P_Codex} then (case c of None \<Rightarrow> True | Some c \<Rightarrow> x \<noteq> provider_for_cli_backend (cm_backend c))
      else x \<in> set (ro_disabled r))"
  by (simp add: set_cli_model_config_def disabled_client_set_cli)

lemma disabled_bootstrap [router_simps]:
  "x \<in> set (ro_disabled (apply_cli_model_bootstrap c r)) \<longleftrightarrow>
     (if cm_cli_only c then x \<noteq> provider_for_cli_backend (cm_backend c)
      else x \<noteq> provider_for_cli_backend (cm_backend c) \<and> x \<in> set (ro_disabled r))"
  by (simp add: apply_cli_model_bootstrap_def Let_def router_simps)

lemma provider_parse_iff: "provider_parse name = Some p \<longleftrightarrow> name = provider_serde p"
proof
  show "name = provider_serde p" if "provider_parse name = Some p"
    using that by (auto simp: provider_parse_def find_Some_iff)
  show "provider_parse name = Some p" if "name = provider_serde p"
    using that by (cases p) (simp_all add: provider_parse_def all_providers_def)
qed

lemma provider_parse_serde [simp]: "provider_parse (provider_serde p) = Some p"
  by (simp add: provider_parse_iff)

lemma provider_serde_inj: "provider_serde p = provider_serde q \<longleftrightarrow> p = q"
  by (cases p; cases q) simp_all

lemma disabled_listed:
  "x \<in> set (ro_disabled (fold (\<lambda>name r. case provider_parse name of None \<Rightarrow> r
       | Some p \<Rightarrow> set_provider_disabled p True r) names r)) \<longleftrightarrow>
     provider_serde x \<in> set names \<or> x \<in> set (ro_disabled r)"
proof (induction names arbitrary: r)
  case (Cons n ns)
  have "x \<in> set (ro_disabled (case provider_parse n of None \<Rightarrow> r | Some p \<Rightarrow> set_provider_disabled p True r))
      \<longleftrightarrow> provider_serde x = n \<or> x \<in> set (ro_disabled r)"
    using provider_parse_iff [of n x]
    by (auto simp: router_simps provider_parse_iff provider_serde_inj split: option.split)
  with Cons.IH show ?case by auto
qed simp

text \<open>The providers that are disabled once the settings are applied, whatever they were before.\<close>

definition disabled_by :: "app_settings \<Rightarrow> provider_kind \<Rightarrow> bool" where
  "disabled_by s p \<longleftrightarrow>
     (case normalize_cli_model_config s of
        None \<Rightarrow> p \<in> {P_ClaudeCode, P_Codex}
      | Some c \<Rightarrow> (cm_cli_only c \<or> p \<in> {P_ClaudeCode, P_Codex}) \<and> p \<noteq> provider_for_cli_backend (cm_backend c))
     \<or> \<not> (st_cli_enabled s \<and> st_cli_only s) \<and> provider_serde p \<in> set (st_disabled_providers s)"

lemma disabled_after_apply:
  "p \<in> set (ro_disabled (apply_settings_to_runtime s r)) \<longleftrightarrow> disabled_by s p"
proof -
  have cleared: "set (ro_disabled (fold (\<lambda>p. set_provider_disabled p False) all_providers r')) = {}" for r'
    by (rule equals0I) (simp add: router_simps)
  have cli: "x \<in> set (ro_disabled (configure_cli s r')) \<longleftrightarrow>
      (case normalize_cli_model_config s of
        None \<Rightarrow> x \<in> {P_ClaudeCode, P_Codex}
      | Some c \<Rightarrow> (cm_cli_only c \<or> x \<in> {P_ClaudeCode, P_Codex}) \<and> x \<noteq> provider_for_cli_backend (cm_backend c))"
    if "set (ro_disabled r') = {}" for r' x
    using that by (auto simp: configure_cli_def Let_def router_simps split: option.split)
  show ?thesis
    by (auto simp: apply_settings_to_runtime_def Let_def disable_listed_def disabled_listed disabled_by_def
        router_simps cli cleared)
qed

text \<open>
  After the settings are applied exactly these providers are disabled: the CLI providers
  other than the configured one; with CLI only, all others; and, without it, those listed under
  their serialised names.
\<close>

theorem settings_disable_exactly:
  "{p. p \<in> set (ro_disabled (apply_settings_to_runtime s r))} = {p. disabled_by s p}"
  by (simp add: disabled_after_apply)


section \<open>Settings that are lost\<close>

lemma provider_parse_display:
  "provider_parse (provider_display p) = (if p = P_OpenAi then None else Some p)"
  by (cases p) (simp_all add: provider_parse_def all_providers_def)

lemma listed_display:
  "provider_serde p \<in> set (map provider_display ps) \<longleftrightarrow> p \<noteq> P_OpenAi \<and> p \<in> set ps"
proof -
  have "provider_serde p = provider_display q \<longleftrightarrow> p \<noteq> P_OpenAi \<and> p = q" for q
    by (cases p; cases q) simp_all
  then show ?thesis by (auto simp: image_iff)
qed

lemma load_saved: "codec_ok c \<Longrightarrow> db_load_settings c (db_save_settings c now s d) = Inr (Some s)"
  by (simp add: db_load_settings_def db_save_settings_def decoded_def codec_ok_def)

text \<open>A router without a CLI backend, as it is after the start or after any settings without one.\<close>

definition no_cli :: "settings_state \<Rightarrow> bool" where
  "no_cli st \<longleftrightarrow> ro_cli_model (sg_router st) = None \<and> {P_ClaudeCode, P_Codex} \<subseteq> set (ro_disabled (sg_router st))
     \<and> t_settings (sg_db st) = None"

lemma current_without_row:
  "t_settings (sg_db st) = None \<Longrightarrow> current_settings env st = get_settings env (sg_router st)"
  by (simp add: current_settings_def db_load_settings_def Let_def)


definition empty_patch :: settings_patch where
  "empty_patch = \<lparr>sp_profile = None, sp_preferred_model = None, sp_disabled_models = None,
     sp_disabled_providers = None, sp_cli_enabled = None, sp_cli_backend = None, sp_cli_command = None,
     sp_cli_args = None, sp_cli_timeout_ms = None, sp_cli_only = None, sp_terminal_command = None,
     sp_terminal_args = None, sp_terminal_auto_spawn = None, sp_vllm_base_url = None, sp_vllm_custom_model = None\<rparr>"

lemma patched_preference_view [simp]:
  "st_disabled_providers (patched_preference p s) = st_disabled_providers s"
  "normalize_cli_model_config (patched_preference p s) = normalize_cli_model_config s"
  "st_cli_enabled (patched_preference p s) = st_cli_enabled s" "st_cli_only (patched_preference p s) = st_cli_only s"
  by (auto simp: patched_preference_def normalize_cli_model_config_def split: option.split)

lemma update_disabled:
  "p \<in> set (ro_disabled (sg_router (update_settings env now fails patch st))) \<longleftrightarrow>
     disabled_by (apply_patch patch (current_settings env st)) p"
proof -
  have "sg_router (update_settings env now fails patch st) =
      apply_settings_to_runtime (patched_preference patch (apply_patch patch (current_settings env st))) (sg_router st)"
    by (simp add: update_settings_def persist_def Let_def)
  then show ?thesis by (simp add: disabled_after_apply disabled_by_def)
qed

text \<open>
  Enabling a CLI backend by a patch of just these two settings leaves its provider disabled,
  because it is still listed among the disabled providers of the settings that are patched;
  with CLI only it is enabled.
\<close>

theorem enabling_cli_is_lost:
  assumes "no_cli st"
  shows "provider_for_cli_backend b \<in> set (ro_disabled (sg_router (update_settings env now fails
      (empty_patch\<lparr>sp_cli_enabled := Some True, sp_cli_backend := Some (Some b)\<rparr>) st)))
    \<and> provider_for_cli_backend b \<notin> set (ro_disabled (sg_router (update_settings env now fails
      (empty_patch\<lparr>sp_cli_enabled := Some True, sp_cli_backend := Some (Some b), sp_cli_only := Some True\<rparr>) st)))"
proof -
  have cur: "current_settings env st = get_settings env (sg_router st)"
    using assms by (simp add: current_without_row no_cli_def)
  have "provider_for_cli_backend b \<in> set (ro_disabled (sg_router st))"
    using assms by (cases b) (auto simp: no_cli_def)
  moreover have "provider_for_cli_backend b \<noteq> P_OpenAi" by (cases b) simp_all
  ultimately have "provider_serde (provider_for_cli_backend b) \<in> set (map provider_display (ro_disabled (sg_router st)))"
    by (simp add: listed_display del: set_map)
  then show ?thesis
    using assms unfolding update_disabled cur
    by (auto simp: disabled_by_def apply_patch_def empty_patch_def opt_set_def normalize_cli_model_config_def
        get_settings_def no_cli_def Let_def simp del: set_map)
qed

text \<open>
  Switching CLI only off by a patch of that setting keeps every other provider but OpenAI
  disabled, because the list of the patched settings is the one that CLI only had made.
\<close>

theorem leaving_cli_only_is_lost:
  assumes "ro_cli_model (sg_router st) = Some c" and "t_settings (sg_db st) = None"
    and "\<forall>p. p \<in> set (ro_disabled (sg_router st)) \<longleftrightarrow> p \<noteq> provider_for_cli_backend (cm_backend c)"
  shows "p \<in> set (ro_disabled (sg_router (update_settings env now fails (empty_patch\<lparr>sp_cli_only := Some False\<rparr>) st)))
    \<longleftrightarrow> p \<noteq> provider_for_cli_backend (cm_backend c) \<and> p \<noteq> P_OpenAi"
proof -
  have cur: "current_settings env st = get_settings env (sg_router st)"
    using assms by (simp add: current_without_row)
  have listed: "provider_serde p \<in> set (map provider_display (ro_disabled (sg_router st)))
      \<longleftrightarrow> p \<noteq> P_OpenAi \<and> p \<noteq> provider_for_cli_backend (cm_backend c)"
    using assms(3) by (simp add: listed_display del: set_map)
  show ?thesis
    using assms(1) listed unfolding update_disabled cur
    by (cases "cm_backend c") (auto simp: disabled_by_def apply_patch_def empty_patch_def opt_set_def
        normalize_cli_model_config_def get_settings_def Let_def simp del: set_map)
qed

section \<open>Small routers\<close>

instance cli_model_backend :: countable by countable_datatype

definition settings_codec :: "app_settings codec" where
  "settings_codec = \<lparr>
     enc = \<lambda>s. enc count_codec (st_profile s, st_preferred_model s, st_disabled_models s, st_disabled_providers s,
       st_cli_enabled s, st_cli_backend s, st_cli_command s, st_cli_args s, unat (st_cli_timeout_ms s),
       st_cli_only s, st_terminal_command s, st_terminal_args s, st_terminal_auto_spawn s,
       st_vllm_base_url s, st_vllm_custom_model s),
     dec = \<lambda>s. map_option (\<lambda>(a, b, c, d, e, f, g, h, i, j, k, l, m, n, p). \<lparr>st_profile = a,
       st_preferred_model = b, st_disabled_models = c, st_disabled_providers = d, st_cli_enabled = e,
       st_cli_backend = f, st_cli_command = g, st_cli_args = h, st_cli_timeout_ms = of_nat i,
       st_cli_only = j, st_terminal_command = k, st_terminal_args = l, st_terminal_auto_spawn = m,
       st_vllm_base_url = n, st_vllm_custom_model = p\<rparr>) (dec count_codec s)\<rparr>"

lemma settings_codec_ok: "codec_ok settings_codec"
  by (simp add: codec_ok_def settings_codec_def count_codec_def)

definition demo_env :: settings_env where
  "demo_env = \<lparr>sv_codec = settings_codec, sv_shell = None, sv_vllm_url = None\<rparr>"

definition demo_catalog :: "model_spec list" where
  "demo_catalog = [model P_OpenAi ''big'' (9 / 10) 2000 (1 / 100) 128000 (9 / 10) False,
     model P_Vllm ''small'' (5 / 10) 1000 (1 / 1000) 32000 (5 / 10) True,
     model P_Mock ''tiny'' (1 / 10) 10 (1 / 1000) 100 0 False]"

definition demo_state :: "cli_model_config option \<Rightarrow> settings_state" where
  "demo_state c = \<lparr>sg_router = with_catalog ''u'' c demo_catalog, sg_db = empty_db\<rparr>"

definition demo_off :: settings_state where
  "demo_off = demo_state None\<lparr>sg_router := set_provider_disabled P_OpenAi True (sg_router (demo_state None))\<rparr>"

lemma demo_no_cli: "no_cli (demo_state None)" "no_cli demo_off"
  by (auto simp: no_cli_def demo_off_def demo_state_def with_catalog_def client_set_cli_def Let_def
      set_provider_disabled_def set_member_def empty_db_def)


theorem enabling_cli_is_lost_witness:
  "P_Codex \<in> set (ro_disabled (sg_router (update_settings demo_env ''t'' False
      (empty_patch\<lparr>sp_cli_enabled := Some True, sp_cli_backend := Some (Some Codex_Backend)\<rparr>) (demo_state None))))"
  using enabling_cli_is_lost [OF demo_no_cli(1), of Codex_Backend demo_env "''t''" False] by simp

definition demo_cli :: cli_model_config where
  "demo_cli = \<lparr>cm_backend = Codex_Backend, cm_command = ''codex'', cm_args = [], cm_timeout_ms = 300000, cm_cli_only = True\<rparr>"

theorem leaving_cli_only_is_lost_witness:
  "P_Anthropic \<in> set (ro_disabled (sg_router (update_settings demo_env ''t'' False
      (empty_patch\<lparr>sp_cli_only := Some False\<rparr>) (demo_state (Some demo_cli)))))"
proof -
  have "ro_cli_model (sg_router (demo_state (Some demo_cli))) = Some demo_cli"
    by (simp add: demo_state_def with_catalog_def client_set_cli_def Let_def apply_cli_model_bootstrap_def
        set_preferred_model_def set_provider_disabled_def demo_cli_def all_providers_def)
  moreover have "t_settings (sg_db (demo_state (Some demo_cli))) = None"
    by (simp add: demo_state_def empty_db_def)
  moreover have "\<forall>p. p \<in> set (ro_disabled (sg_router (demo_state (Some demo_cli))))
      \<longleftrightarrow> p \<noteq> provider_for_cli_backend (cm_backend demo_cli)"
    by (simp add: demo_state_def with_catalog_def Let_def router_simps demo_cli_def)
  ultimately show ?thesis
    using leaving_cli_only_is_lost [of "demo_state (Some demo_cli)" demo_cli P_Anthropic demo_env "''t''" False]
    by (simp add: demo_cli_def)
qed

definition demo_router :: model_router where
  "demo_router = with_catalog ''u'' None demo_catalog"

text \<open>The provider of the first model fails.\<close>

definition demo_call :: provider_call where
  "demo_call k m = (if k = 0 then Inl ''down'' else Inr (''hello'', None))"

lemma demo_select:
  obtains d where "select_model General (for_profile General) demo_router = Inr d"
    and "map (\<lambda>m. (mo_provider m, mo_id m)) (chain_of d) = [(P_OpenAi, ''big''), (P_Vllm, ''small'')]"
proof -
  have "case select_model General (for_profile General) demo_router of Inl _ \<Rightarrow> False
      | Inr d \<Rightarrow> map (\<lambda>m. (mo_provider m, mo_id m)) (chain_of d) = [(P_OpenAi, ''big''), (P_Vllm, ''small'')]"
    by (simp add: demo_router_def with_catalog_def client_set_cli_def Let_def set_provider_disabled_def
        set_member_def select_model_def demo_catalog_def eligible_def model_def is_model_disabled_def
        order_desc_def routed_score_def score_model_def chain_of_def)
  with that show thesis by (auto split: sum.splits)
qed

lemma demo_answer:
  assumes "map (\<lambda>m. (mo_provider m, mo_id m)) ms = [(P_OpenAi, ''big''), (P_Vllm, ''small'')]"
  shows "first_answer demo_call ms x \<longleftrightarrow> x = Some \<lparr>ir_provider = P_Vllm, ir_model = ''small'',
    ir_output = ''hello'', ir_used_fallback = True, ir_usage = None\<rparr>"
proof -
  obtain a b where ms: "ms = [a, b]" "mo_provider b = P_Vllm" "mo_id b = ''small''"
    using assms by (auto simp: map_eq_Cons_conv)
  have "(\<exists>k < length ms. P k) \<longleftrightarrow> P 0 \<or> P 1" for P
    using ms by (auto simp: less_Suc_eq numeral_2_eq_2)
  then show ?thesis
    using ms by (auto simp: first_answer_def demo_call_def answer_of_def split: option.splits)
qed

lemma demo_uncached: "hm_get (ro_cache demo_router) h = None"
  by (simp add: demo_router_def with_catalog_def client_set_cli_def Let_def set_provider_disabled_def hm_simps)


text \<open>The model that answered is disabled before the prompt is asked again.\<close>

definition demo_asked :: "(string + routing_decision \<times> inference_result) \<times> model_router" where
  "demo_asked = run_chain demo_call (\<lambda>_. 0) 300 ''late'' General (for_profile General) 7 0 demo_router"

theorem infer_repeats_cached_witness:
  "case fst (infer_in_dir (\<lambda>_ _. Inl ''down'') (\<lambda>_. 0) General (for_profile General) 7 600999 600999
       (set_model_disabled ''small'' True (snd demo_asked))) of
     Inl _ \<Rightarrow> False | Inr (d, y) \<Rightarrow> ir_model y = ''small'' \<and> \<not> ir_used_fallback y"
proof -
  obtain d where d: "select_model General (for_profile General) demo_router = Inr d"
    "map (\<lambda>m. (mo_provider m, mo_id m)) (chain_of d) = [(P_OpenAi, ''big''), (P_Vllm, ''small'')]"
    by (rule demo_select)
  let ?y = "\<lparr>ir_provider = P_Vllm, ir_model = ''small'', ir_output = ''hello'', ir_used_fallback = True, ir_usage = None\<rparr>"
  have asked: "demo_asked = (Inr (d, ?y), store_answer General 7 0 ?y demo_router)"
    using run_chain_first [OF d(1), of "\<lambda>_. 0" 300, where call = demo_call and msg = "''late''" and hash = 7 and done_at = 0]
    by (auto simp: demo_asked_def demo_answer [OF d(2)] split: prod.splits sum.splits)
  let ?r = "set_model_disabled ''small'' True (snd demo_asked)"
  have "case select_model General (for_profile General) ?r of Inl _ \<Rightarrow> False | Inr d2 \<Rightarrow> True"
    by (simp add: asked store_answer_def demo_router_def with_catalog_def client_set_cli_def Let_def
        set_provider_disabled_def set_model_disabled_def set_member_def select_model_def demo_catalog_def
        eligible_def model_def is_model_disabled_def order_desc_def)
  then obtain d2 where d2: "select_model General (for_profile General) ?r = Inr d2"
    by (auto split: sum.splits)
  have "infer_in_dir (\<lambda>_ _. Inl ''down'') (\<lambda>_. 0) General (for_profile General) 7 600999 600999 ?r =
      (Inr (d2, ?y\<lparr>ir_used_fallback := False\<rparr>), ?r)"
    using asked d2 unfolding demo_asked_def
    by (intro infer_repeats_cached) (auto simp: set_model_disabled_def cache_ttl_secs_def)
  then show ?thesis by simp
qed

section \<open>Lines of a stream\<close>

lemma drain_append:
  "drain_sse_loop line (a @ b) = (case drain_sse_loop line a of (ls, rest) \<Rightarrow>
     case drain_sse_loop rest b of (ls', rest') \<Rightarrow> (ls @ ls', rest'))"
  by (induction line a rule: drain_sse_loop.induct) (auto split: prod.splits)

lemma drain_rest: "drain_sse_loop line a = (ls, rest) \<Longrightarrow> 10 \<notin> set line \<Longrightarrow> 10 \<notin> set rest"
  by (induction line a arbitrary: ls rule: drain_sse_loop.induct) (auto split: if_splits prod.splits)

lemma drain_start: "10 \<notin> set rest \<Longrightarrow> drain_sse_loop line (rest @ b) = drain_sse_loop (line @ rest) b"
  by (induction rest arbitrary: line) auto

text \<open>
  It does not matter how the bytes of a stream are cut into chunks: draining the buffer
  after each chunk answers the same lines and leaves the same bytes as draining it once.
\<close>

theorem sse_chunks_equivalent:
  "foldl (\<lambda>(ls, buf) chunk. case drain_sse_lines (buf @ chunk) of (ls', rest) \<Rightarrow> (ls @ ls', rest)) ([], []) chunks
     = drain_sse_lines (concat chunks)"
proof (induction chunks rule: rev_induct)
  case (snoc c cs)
  obtain ls rest where d: "drain_sse_lines (concat cs) = (ls, rest)" by fastforce
  then have "10 \<notin> set rest" by (simp add: drain_sse_lines_def drain_rest)
  moreover from this have "drain_sse_loop [] rest = ([], rest)"
    using drain_start [of rest "[]" "[]"] by simp
  ultimately show ?case using snoc d
    by (simp add: drain_sse_lines_def drain_append drain_start split: prod.split)
qed (simp add: drain_sse_lines_def)

end
