(* ===== verification/Provider_Properties.thy ===== *)
theory Provider_Properties
  imports Provider_Client Router_Properties
begin

text \<open>
  What holds of streamed answers: they do not depend on the chunks of the stream, and the listener
  is sent exactly the answer, which the events of the three formats keep as an invariant
  (interface \<open>event_reader\<close>).
\<close>

section \<open>Chunks\<close>

lemma handle_lines_append:
  "handle_lines event (a @ b) st = (case handle_lines event a st of
     (st', True) \<Rightarrow> (st', True) | (st', False) \<Rightarrow> handle_lines event b st')"
  by (induction event a st rule: handle_lines.induct) (auto split: option.splits prod.splits bool.splits)

text \<open>The stream read as a whole.\<close>

definition whole_stream :: "(string \<Rightarrow> stream_state \<Rightarrow> stream_state \<times> bool) \<Rightarrow> u8 list \<Rightarrow> stream_state \<Rightarrow> stream_state" where
  "whole_stream event bytes st = fst (handle_lines event (fst (drain_sse_lines bytes)) st)"

lemma drain_split:
  assumes "drain_sse_lines a = (ls, rest)"
  shows "drain_sse_lines (a @ b) = (case drain_sse_lines (rest @ b) of (ls', rest') \<Rightarrow> (ls @ ls', rest'))"
proof -
  have "10 \<notin> set rest" using assms by (simp add: drain_sse_lines_def drain_rest)
  then have "drain_sse_loop [] (rest @ b) = drain_sse_loop rest b" by (simp add: drain_start)
  with assms show ?thesis by (simp add: drain_sse_lines_def drain_append)
qed

lemma drain_length: "drain_sse_loop line a = (ls, rest) \<Longrightarrow> length rest \<le> length line + length a"
  by (induction line a arbitrary: ls rest rule: drain_sse_loop.induct) (fastforce split: if_splits prod.splits)+

lemma stream_loop_whole:
  assumes "length buf + length (concat cs) \<le> max_sse_buffer" "10 \<notin> set buf"
  shows "stream_loop event (map Inr cs) buf st = (None, whole_stream event (buf @ concat cs) st)"
  using assms
proof (induction cs arbitrary: buf st)
  case Nil
  have "drain_sse_loop [] buf = ([], buf)" using drain_start [OF Nil.prems(2), of "[]" "[]"] by simp
  then show ?case by (simp add: whole_stream_def drain_sse_lines_def)
next
  case (Cons c cs)
  obtain ls rest where d: "drain_sse_lines (buf @ c) = (ls, rest)" by fastforce
  obtain st' over where h: "handle_lines event ls st = (st', over)" by fastforce
  have rest: "10 \<notin> set rest" "length rest \<le> length buf + length c"
    using d drain_rest [of "[]" "buf @ c"] drain_length [of "[]" "buf @ c"] by (auto simp: drain_sse_lines_def)
  have whole: "whole_stream event (buf @ concat (c # cs)) st =
      (if over then st' else whole_stream event (rest @ concat cs) st')"
    using drain_split [OF d, of "concat cs"] h
    by (simp add: whole_stream_def handle_lines_append split: prod.splits)
  have "stream_loop event (map Inr cs) rest st' = (None, whole_stream event (rest @ concat cs) st')"
    using Cons.prems rest by (intro Cons.IH) auto
  then show ?case using Cons.prems d h whole by (auto split: bool.split)
qed

lemma stream_loop_chunks:
  assumes "length (concat cs) \<le> max_sse_buffer" and "concat cs = concat cs'"
  shows "stream_loop event (map Inr cs) [] st = stream_loop event (map Inr cs') [] st"
  using assms stream_loop_whole [of "[]" cs event st] stream_loop_whole [of "[]" cs' event st] by simp

text \<open>A client that receives the bodies of responses in the chunks \<open>cs\<close>.\<close>

definition with_chunks :: "u8 list list \<Rightarrow> provider_env \<Rightarrow> provider_env" where
  "with_chunks cs env = env\<lparr>pe_http := \<lambda>q. map_sum id (\<lambda>r. r\<lparr>hr_chunks := map Inr cs\<rparr>) (pe_http env q)\<rparr>"

lemma with_chunks_view [simp]:
  "pe_http (with_chunks cs env) q = map_sum id (\<lambda>r. r\<lparr>hr_chunks := map Inr cs\<rparr>) (pe_http env q)"
  "pe_openai_key (with_chunks cs env) = pe_openai_key env" "pe_anthropic_key (with_chunks cs env) = pe_anthropic_key env"
  "pe_gemini_key (with_chunks cs env) = pe_gemini_key env" "pe_child (with_chunks cs env) = pe_child env"
  "pe_resolve (with_chunks cs env) = pe_resolve env" "pe_cwd (with_chunks cs env) = pe_cwd env"
  "pe_message_path (with_chunks cs env) = pe_message_path env" "pe_from_str (with_chunks cs env) = pe_from_str env"
  "pe_as_u64 (with_chunks cs env) = pe_as_u64 env"
  by (simp_all add: with_chunks_def)

lemma events_with_chunks [simp]:
  "openai_event (with_chunks cs env) = openai_event env"
  "anthropic_event (with_chunks cs env) = anthropic_event env"
  "gemini_event (with_chunks cs env) = gemini_event env"
  by (simp_all add: fun_eq_iff openai_event_def anthropic_event_def gemini_event_def split: option.split)

lemma stream_answer_chunks:
  assumes "length (concat cs) \<le> max_sse_buffer" and "concat cs = concat cs'"
  shows "stream_answer (with_chunks cs env) label req event usage = stream_answer (with_chunks cs' env) label req event usage"
  by (cases "pe_http env req")
    (simp_all add: stream_answer_def is_success_def api_error_def stream_loop_chunks [OF assms])

lemma cli_with_chunks [simp]:
  "run_cli_command (with_chunks cs env) cmd t l = run_cli_command env cmd t l"
  "cli_working_dir (with_chunks cs env) dir = cli_working_dir env dir"
  "codex_args (with_chunks cs env) cfg = codex_args env cfg"
  by (simp_all add: run_cli_command_def cli_working_dir_def codex_args_def split: option.split)

lemma cli_answer_with_chunks:
  "mo_provider m \<in> {P_ClaudeCode, P_Codex} \<Longrightarrow>
     provider_answer (with_chunks cs env) r prompt dir m = provider_answer env r prompt dir m"
  by (auto simp: provider_answer_def generate_claude_code_def generate_codex_def Let_def split del: sum.split
      cong: sum.case_cong)

text \<open>
  C35: a streamed answer of any provider, what it reports as usage and what the listener is sent
  do not depend on how the bytes of the response are cut into chunks, up to 16 MB.
\<close>

theorem streamed_chunks_equivalent:
  assumes "length (concat cs) \<le> max_sse_buffer" and "concat cs = concat cs'"
  shows "generate_stream (with_chunks cs env) r prompt dir m = generate_stream (with_chunks cs' env) r prompt dir m"
proof (cases "mo_provider m \<in> {P_ClaudeCode, P_Codex}")
  case True
  then show ?thesis by (auto simp: generate_stream_def generate_def cli_answer_with_chunks)
next
  case False
  note chunks = stream_answer_chunks [OF assms]
  show ?thesis using False
    by (simp add: generate_stream_def stream_openai_compat_def stream_anthropic_def stream_gemini_def Let_def
        chunks split: option.split)
qed

section \<open>What the listener is sent\<close>

locale event_reader =
  fixes event :: "string \<Rightarrow> stream_state \<Rightarrow> stream_state \<times> bool"
  assumes sent_output: "concat (ss_sent st) = ss_output st \<Longrightarrow> event d st = (st', over)
    \<Longrightarrow> concat (ss_sent st') = ss_output st'"
begin

lemma lines_sent:
  "concat (ss_sent st) = ss_output st \<Longrightarrow> handle_lines event ls st = (st', over) \<Longrightarrow> concat (ss_sent st') = ss_output st'"
proof (induction ls arbitrary: st)
  case (Cons raw ls)
  show ?case
  proof (cases "event_data raw")
    case None
    with Cons show ?thesis by simp
  next
    case (Some d)
    obtain st1 o1 where e: "event d st = (st1, o1)" by fastforce
    with Some Cons.prems Cons.IH [OF sent_output [OF Cons.prems(1) e]] sent_output [OF Cons.prems(1) e]
    show ?thesis by (cases o1) auto
  qed
qed simp

lemma loop_sent:
  "concat (ss_sent st) = ss_output st \<Longrightarrow> stream_loop event cs buf st = (e, st') \<Longrightarrow> concat (ss_sent st') = ss_output st'"
proof (induction cs arbitrary: buf st)
  case (Cons c cs)
  show ?case
  proof (cases c)
    case (Inr bytes)
    obtain ls rest where d: "drain_sse_lines (buf @ bytes) = (ls, rest)" by fastforce
    obtain st1 over where h: "handle_lines event ls st = (st1, over)" by fastforce
    show ?thesis
      using Cons.prems Inr d h lines_sent [OF Cons.prems(1) h] Cons.IH [of st1 rest]
      by (auto split: if_splits bool.splits)
  qed (use Cons.prems in auto)
qed simp

lemma answer_sent:
  assumes "stream_answer env label req event usage = (Inr (out, u), sent)"
  shows "concat sent = out"
  using assms loop_sent [of stream_start]
  by (auto simp: stream_answer_def stream_start_def split: sum.splits if_splits prod.splits option.splits)

end

lemma emit_sent: "concat (ss_sent st) = ss_output st \<Longrightarrow> concat (ss_sent (listener_emit t st)) = ss_output (listener_emit t st)"
  by (simp add: listener_emit_def split: option.split list.split)

lemma usage_keeps [simp]:
  "ss_sent (new_usage u st) = ss_sent st" "ss_output (new_usage u st) = ss_output st"
  "ss_sent (raise_input n st) = ss_sent st" "ss_output (raise_input n st) = ss_output st"
  "ss_sent (raise_output n st) = ss_sent st" "ss_output (raise_output n st) = ss_output st"
  by (simp_all add: new_usage_def raise_input_def raise_output_def split: option.split)

interpretation openai_stream: event_reader "openai_event env" for env
  by unfold_locales (auto simp: openai_event_def emit_sent split: option.splits if_splits)

interpretation anthropic_stream: event_reader "anthropic_event env" for env
  by unfold_locales (auto simp: anthropic_event_def Let_def emit_sent split: option.splits if_splits)

interpretation gemini_stream: event_reader "gemini_event env" for env
  by unfold_locales (auto simp: gemini_event_def emit_sent split: option.splits)

lemmas stream_sent = openai_stream.answer_sent anthropic_stream.answer_sent gemini_stream.answer_sent

lemma generate_stream_sent:
  assumes "generate_stream env r prompt dir m = (Inr (out, u), sent)"
  shows "concat sent = out"
  using assms
  by (auto simp: generate_stream_def stream_openai_compat_def stream_anthropic_def stream_gemini_def Let_def
      dest: stream_sent split: if_splits option.splits sum.splits)

lemma try_stream_chain_sent:
  assumes "\<And>k m out u ts. call k m = (Inr (out, u), ts) \<Longrightarrow> concat ts = out"
    and "try_stream_chain call elapsed limit msg k ms errs before = (Inr y, sent)"
  shows "\<exists>i < length ms. ir_used_fallback y = (k + i \<noteq> 0)
    \<and> concat sent = concat before @ concat (concat (map (\<lambda>j. snd (call (k + j) (ms ! j))) [0..<i])) @ ir_output y"
  using assms(2)
proof (induction ms arbitrary: k errs before)
  case (Cons m ms)
  obtain x ts where c: "call k m = (x, ts)" by fastforce
  show ?case
  proof (cases x)
    case (Inr a)
    then obtain out u where a: "x = Inr (out, u)" by (cases a) auto
    with Cons.prems c assms(1) [of k m out u ts] show ?thesis
      by (intro exI [of _ 0]) (auto split: if_splits)
  next
    case (Inl e)
    with Cons.prems c have "try_stream_chain call elapsed limit msg (Suc k) ms (errs @ [attempt_line m e]) (before @ ts) = (Inr y, sent)"
      by (simp split: if_splits)
    from Cons.IH [OF this] obtain i where i: "i < length ms" "ir_used_fallback y = (Suc k + i \<noteq> 0)"
      "concat sent = concat (before @ ts) @ concat (concat (map (\<lambda>j. snd (call (Suc k + j) (ms ! j))) [0..<i])) @ ir_output y"
      by blast
    have "map (\<lambda>j. snd (call (k + j) ((m # ms) ! j))) [0..<Suc i] = ts # map (\<lambda>j. snd (call (Suc k + j) (ms ! j))) [0..<i]"
      unfolding map_upt_Suc using c by simp
    with i show ?thesis by (intro exI [of _ "Suc i"]) (simp del: upt_Suc)
  qed
qed simp

text \<open>
  C36: when a streaming inference answers, what its listener was sent is the answer, preceded by
  what the failed attempts before it had sent; without a fallback it is the answer alone.
\<close>

theorem listener_gets_answer:
  assumes "infer_stream envs elapsed profile prompt c dir hash done_at r = ((Inr (d, y), sent), r')"
  shows "\<exists>i < length (chain_of d). ir_used_fallback y = (i \<noteq> 0)
    \<and> concat sent = concat (concat (map (\<lambda>j. snd (generate_stream (envs j) r prompt dir (chain_of d ! j))) [0..<i])) @ ir_output y"
proof -
  let ?call = "\<lambda>k m. generate_stream (envs k) r prompt dir m"
  have "try_stream_chain ?call elapsed 100 ''fallback chain deadline exceeded (100s)'' 0 (chain_of d) [] [] = (Inr y, sent)"
    using assms by (auto simp: infer_stream_def split: sum.splits prod.splits)
  from try_stream_chain_sent [of ?call, OF generate_stream_sent this] show ?thesis by simp
qed

section \<open>Streaming is inference\<close>

text \<open>Without the listener the chain is the one of the router.\<close>

lemma try_stream_chain_result:
  assumes "\<And>k m. generate (\<lambda>k m. fst (call k m)) k m r = fst (call k m)"
  shows "fst (try_stream_chain call elapsed limit msg k ms errs sent)
    = try_chain (\<lambda>k m. fst (call k m)) elapsed limit msg r k ms errs"
proof (induction ms arbitrary: k errs sent)
  case (Cons m ms)
  obtain x ts where "call k m = (x, ts)" by fastforce
  with Cons assms [of k m] show ?case by (cases x) auto
qed simp

lemma stream_checks:
  "generate (\<lambda>k m. fst (generate_stream (envs k) r prompt dir m)) k m r = fst (generate_stream (envs k) r prompt dir m)"
  by (simp add: generate_def generate_stream_def)

text \<open>
  A streaming inference answers, and keeps in the cache, what the inference over the chain
  of models does whose providers answer with their streams.
\<close>

theorem infer_stream_refines:
  "(case infer_stream envs elapsed profile prompt c dir hash done_at r of ((x, sent), r') \<Rightarrow> (x, r'))
     = infer_stream_in_dir (\<lambda>k m. fst (generate_stream (envs k) r prompt dir m)) elapsed profile c hash done_at r"
proof (cases "select_model profile c r")
  case (Inr d)
  let ?call = "\<lambda>k m. generate_stream (envs k) r prompt dir m"
  let ?msg = "''fallback chain deadline exceeded (100s)''"
  obtain x sent where t: "try_stream_chain ?call elapsed 100 ?msg 0 (chain_of d) [] [] = (x, sent)" by fastforce
  then have "x = try_chain (\<lambda>k m. fst (?call k m)) elapsed 100 ?msg r 0 (chain_of d) []"
    using try_stream_chain_result [of ?call r elapsed 100 ?msg 0 "chain_of d" "[]" "[]"] stream_checks by simp
  with t Inr show ?thesis
    by (auto simp: infer_stream_def infer_stream_in_dir_def run_chain_def split: sum.splits)
qed (simp add: infer_stream_def infer_stream_in_dir_def run_chain_def)

section \<open>Small streams\<close>

text \<open>OpenAI sends a part of its answer and fails, the vLLM server answers; \<open>A\<close> and \<open>B\<close> stand for their events.\<close>

definition demo_event :: "string \<Rightarrow> json" where
  "demo_event text = J_Object [(''choices'', J_Array [J_Object [(''delta'', J_Object [(''content'', J_String text)])]])]"

definition demo_line :: "u8 \<Rightarrow> u8 list" where
  "demo_line c = [100, 97, 116, 97, 58, 32, c, 10]"

definition demo_client :: provider_env where
  "demo_client = \<lparr>pe_http = \<lambda>q. Inr \<lparr>hr_status = 200, hr_status_line = ''200 OK'', hr_text = [], hr_json = Inl ''stream'',
       hr_chunks = (if hq_headers q = [] then [Inr (demo_line 66)] else [Inr (demo_line 65), Inl ''reset''])\<rparr>,
     pe_from_str = \<lambda>s. if s = ''A'' then Some (demo_event ''Hel'') else if s = ''B'' then Some (demo_event ''Hello'') else None,
     pe_as_u64 = \<lambda>_. None, pe_openai_key = Some ''key'', pe_anthropic_key = None, pe_gemini_key = Some ''key'',
     pe_child = \<lambda>_. \<lparr>cr_spawn_error = Some ''none'', cr_stdin_error = None, cr_wait = Child_Timeout, cr_stdout = [],
       cr_stderr = [], cr_message_file = None\<rparr>,
     pe_resolve = id, pe_cwd = ''/'', pe_message_path = ''/tmp/m''\<rparr>"

lemma lossy_ascii: "list_all (\<lambda>b. b < 0x80) bs \<Longrightarrow> from_utf8_lossy bs = map (\<lambda>b. char_of (unat b)) bs"
  by (induction bs) (simp_all add: utf8_step_def)

lemma demo_data:
  "event_data [100, 97, 116, 97, 58, 32, 65] = Some ''A''" "event_data [100, 97, 116, 97, 58, 32, 66] = Some ''B''"
proof -
  have ascii: "from_utf8_lossy bs = s" if "list_all (\<lambda>b. b < 0x80) bs" "map (\<lambda>b. char_of (unat b)) bs = s" for bs s
    using that lossy_ascii by simp
  have "from_utf8_lossy [100, 97, 116, 97, 58, 32, 65] = ''data: A''"
    "from_utf8_lossy [100, 97, 116, 97, 58, 32, 66] = ''data: B''"
    by (rule ascii, simp, code_simp)+
  then show "event_data [100, 97, 116, 97, 58, 32, 65] = Some ''A''" "event_data [100, 97, 116, 97, 58, 32, 66] = Some ''B''"
    by (simp_all add: event_data_def trim_def is_space_def starts_with_def del: from_utf8_lossy.simps)
qed

lemma demo_streams:
  "stream_loop (openai_event demo_client) [Inr (demo_line 65), Inl ''reset''] [] stream_start
     = (Some ''reset'', stream_start\<lparr>ss_output := ''Hel'', ss_sent := [''Hel'']\<rparr>)"
  "stream_loop (openai_event demo_client) [Inr (demo_line 66)] [] stream_start
     = (None, stream_start\<lparr>ss_output := ''Hello'', ss_sent := [''Hello'']\<rparr>)"
  by (simp_all add: demo_line_def drain_sse_lines_def strip_cr_def max_sse_buffer_def demo_data openai_event_def
      demo_client_def demo_event_def j_at_def j_nth_def listener_emit_def stream_start_def new_usage_def parse_openai_usage_def
      parse_usage_def)

lemma demo_sends:
  assumes "mo_provider m = P_OpenAi" "mo_id m = ''big''" "mo_provider m' = P_Vllm" "mo_id m' = ''small''"
  shows "generate_stream demo_client demo_router ''p'' None m = (Inl ''reset'', [''Hel''])"
    and "generate_stream demo_client demo_router ''p'' None m' = (Inr (''Hello'', None), [''Hello''])"
proof -
  have on: "P_OpenAi \<notin> set (ro_disabled demo_router)" "P_Vllm \<notin> set (ro_disabled demo_router)"
    "\<not> is_model_disabled i demo_router" for i
    by (simp_all add: demo_router_def with_catalog_def client_set_cli_def Let_def set_provider_disabled_def
        set_member_def is_model_disabled_def)
  have http: "pe_http demo_client q = Inr \<lparr>hr_status = 200, hr_status_line = ''200 OK'', hr_text = [], hr_json = Inl ''stream'',
       hr_chunks = (if hq_headers q = [] then [Inr (demo_line 66)] else [Inr (demo_line 65), Inl ''reset''])\<rparr>"
    "pe_openai_key demo_client = Some ''key''" for q
    by (simp_all add: demo_client_def)
  have no_usage: "ss_usage stream_start = None" by (simp add: stream_start_def)
  show "generate_stream demo_client demo_router ''p'' None m = (Inl ''reset'', [''Hel''])"
    using assms on by (simp add: generate_stream_def stream_openai_compat_def stream_answer_def http is_success_def
        demo_streams no_usage del: stream_loop.simps)
  show "generate_stream demo_client demo_router ''p'' None m' = (Inr (''Hello'', None), [''Hello''])"
    using assms on by (simp add: generate_stream_def stream_openai_compat_def stream_answer_def http is_success_def
        demo_streams no_usage del: stream_loop.simps)
qed

text \<open>
  The listener of a streaming inference that falls back is sent the beginning of the failed answer
  and then the whole answer of the fallback; the answer itself is the latter alone.
\<close>

lemma garbled_after_fallback:
  obtains d y r' where "infer_stream (\<lambda>_. demo_client) (\<lambda>_. 0) General ''p'' (for_profile General) None 7 0 demo_router
      = ((Inr (d, y), [''Hel'', ''Hello'']), r')"
    and "ir_output y = ''Hello''" "ir_used_fallback y"
proof -
  obtain d where d: "select_model General (for_profile General) demo_router = Inr d"
    "map (\<lambda>m. (mo_provider m, mo_id m)) (chain_of d) = [(P_OpenAi, ''big''), (P_Vllm, ''small'')]"
    by (rule demo_select)
  then obtain a b where ab: "chain_of d = [a, b]" "mo_provider a = P_OpenAi" "mo_id a = ''big''"
    "mo_provider b = P_Vllm" "mo_id b = ''small''"
    by (auto simp: map_eq_Cons_conv)
  then have "try_stream_chain (\<lambda>k. generate_stream demo_client demo_router ''p'' None) (\<lambda>_. 0) 100
      ''fallback chain deadline exceeded (100s)'' 0 (chain_of d) [] [] =
      (Inr \<lparr>ir_provider = P_Vllm, ir_model = ''small'', ir_output = ''Hello'', ir_used_fallback = True,
        ir_usage = None\<rparr>, [''Hel'', ''Hello''])"
    by (simp add: demo_sends [OF ab(2-5)])
  then have run: "infer_stream (\<lambda>_. demo_client) (\<lambda>_. 0) General ''p'' (for_profile General) None 7 0 demo_router
      = ((Inr (d, \<lparr>ir_provider = P_Vllm, ir_model = ''small'', ir_output = ''Hello'', ir_used_fallback = True,
        ir_usage = None\<rparr>), [''Hel'', ''Hello'']), store_answer General 7 0 \<lparr>ir_provider = P_Vllm,
        ir_model = ''small'', ir_output = ''Hello'', ir_used_fallback = True, ir_usage = None\<rparr> demo_router)"
    by (simp add: infer_stream_def d(1) del: for_profile.simps)
  show thesis by (rule that [OF run]) simp_all
qed

theorem streamed_chunks_equivalent_witness:
  "generate_stream (with_chunks (map (\<lambda>b. [b]) (demo_line 66)) demo_client) demo_router ''p'' None (hd default_catalog)
     = generate_stream (with_chunks [demo_line 66] demo_client) demo_router ''p'' None (hd default_catalog)"
  by (rule streamed_chunks_equivalent) (simp_all add: demo_line_def max_sse_buffer_def)

theorem listener_gets_answer_witness:
  "\<exists>d y r'. infer_stream (\<lambda>_. demo_client) (\<lambda>_. 0) General ''p'' (for_profile General) None 7 0 demo_router
       = ((Inr (d, y), [''Hel'', ''Hello'']), r')
     \<and> (\<exists>i < length (chain_of d). i \<noteq> 0 \<and> concat (concat (map (\<lambda>j. snd (generate_stream demo_client demo_router ''p'' None
          (chain_of d ! j))) [0..<i])) = ''Hel'')"
proof -
  obtain d y r' where i: "infer_stream (\<lambda>_. demo_client) (\<lambda>_. 0) General ''p'' (for_profile General) None 7 0 demo_router
      = ((Inr (d, y), [''Hel'', ''Hello'']), r')" and y: "ir_output y = ''Hello''" "ir_used_fallback y"
    by (rule garbled_after_fallback)
  from listener_gets_answer [OF i] y obtain n where "n < length (chain_of d)" "n \<noteq> 0"
    "concat [''Hel'', ''Hello''] = concat (concat (map (\<lambda>j. snd (generate_stream demo_client demo_router ''p'' None
          (chain_of d ! j))) [0..<n])) @ ''Hello''"
    by auto
  with i show ?thesis by (intro exI conjI) auto
qed

text \<open>
  The last event of a stream is lost when its line is not ended, and so is an event without a
  space after its colon.
\<close>

lemma unterminated_event_lost:
  assumes "10 \<notin> set bytes"
  shows "whole_stream event bytes st = st"
proof -
  have "drain_sse_loop [] bytes = ([], bytes)" using drain_start [OF assms, of "[]" "[]"] by simp
  then show ?thesis by (simp add: whole_stream_def drain_sse_lines_def)
qed

lemma event_without_space_lost: "event_data (map (\<lambda>c. of_char c) ''data:{}'') = None"
proof -
  have "from_utf8_lossy (map (\<lambda>c. of_char c) ''data:{}'') = ''data:{}''"
    by (subst lossy_ascii) (simp, code_simp)
  then show ?thesis by (simp add: event_data_def trim_def is_space_def starts_with_def)
qed

text \<open>
  The key of Gemini is part of the address; the HTTP client names the address in its errors, so
  that the failure of an inference shows the key.
\<close>

lemma gemini_key_in_error:
  assumes "\<And>q. \<exists>a b. pe_http (envs 0) q = Inl (a @ hq_url q @ b)" and "pe_gemini_key (envs 0) = Some key"
    and "mo_provider m = P_Gemini" "mo_provider m \<notin> set (ro_disabled r)" "\<not> is_model_disabled (mo_id m) r" "elapsed 0 \<le> limit"
  shows "\<exists>a b errs. try_chain (client_call envs r prompt dir) elapsed limit msg r 0 [m] [] = Inl errs
    \<and> chain_failed errs = a @ key @ b"
proof -
  obtain req where req: "hq_url req = gemini_url @ mo_id m @ '':generateContent?key='' @ key"
      "generate_gemini (envs 0) m prompt = fetch_answer (envs 0) ''Gemini'' req id gemini_text
        (\<lambda>body. parse_gemini_usage (pe_as_u64 (envs 0)) (j_at body ''usageMetadata''))"
    using assms(2) by (simp add: generate_gemini_def) (metis http_request.select_convs(1))
  from assms(1) [of req] obtain a b where "pe_http (envs 0) req = Inl (a @ hq_url req @ b)" by auto
  then have "generate_gemini (envs 0) m prompt = Inl (a @ hq_url req @ b)"
    using req(2) by (simp add: fetch_answer_def)
  then have "try_chain (client_call envs r prompt dir) elapsed limit msg r 0 [m] [] = Inl [attempt_line m (a @ hq_url req @ b)]"
    using assms by (simp add: generate_def client_call_def provider_answer_def)
  moreover have "chain_failed [attempt_line m (a @ hq_url req @ b)] =
      (''all model candidates failed: '' @ provider_display (mo_provider m) @ '':'' @ mo_id m @ '' => '' @ a
        @ gemini_url @ mo_id m @ '':generateContent?key='') @ key @ b"
    by (simp add: chain_failed_def attempt_line_def req(1))
  ultimately show ?thesis by blast
qed

end
