(* ===== verification/Classifier.thy ===== *)
theory Classifier
  imports Skills
begin

text \<open>
  The classification of a task, \<^verbatim>\<open>src/orchestrator/task_classifier.rs\<close>: the keyword tables, the
  fast path, the fallback, and the ladder around the model call, whose answer is an argument.
  Lower-casing is that of ASCII letters; Korean keywords are the bytes of their UTF-8.
\<close>

section \<open>Where a task works\<close>

definition remote_markers :: "string list" where
  "remote_markers = [''github'', ''gitlab'', ''bitbucket'', ''http://'', ''https://'', ''owner/repo'',
     ''repository url'', ''remote repo'']"

definition has_explicit_remote_repo_reference :: "string \<Rightarrow> bool" where
  "has_explicit_remote_repo_reference task \<longleftrightarrow> contains_any_keyword (map to_lower task) remote_markers"

definition local_markers :: "string list" where
  "local_markers = [utf8 [0xEB, 0xA1, 0x9C, 0xEC, 0xBB, 0xAC], ''local'', ''workspace'',
     utf8 [0xED, 0x98, 0x84, 0xEC, 0x9E, 0xAC] @ '' '' @ utf8 [0xED, 0x8F, 0xB4, 0xEB, 0x8D, 0x94],
     utf8 [0xED, 0x98, 0x84, 0xEC, 0x9E, 0xAC] @ '' '' @ utf8 [0xEB, 0x94, 0x94, 0xEB, 0xA0, 0x89, 0xED, 0x86, 0xA0, 0xEB, 0xA6, 0xAC],
     ''this project'', ''this repo'',
     utf8 [0xED, 0x94, 0x84, 0xEB, 0xA1, 0x9C, 0xEC, 0xA0, 0x9D, 0xED, 0x8A, 0xB8] @ '' '' @ utf8 [0xED, 0x8F, 0xB4, 0xEB, 0x8D, 0x94],
     utf8 [0xEA, 0xB2, 0xBD, 0xEB, 0xA1, 0x9C], utf8 [0xED, 0x8C, 0x8C, 0xEC, 0x9D, 0xBC],
     ''readme.md'', ''current directory'', ''current folder'', ''my project'', ''my repo'', ''working directory'',
     utf8 [0xEC, 0x9E, 0x91, 0xEC, 0x84, 0xB1], utf8 [0xEC, 0x88, 0x98, 0xEC, 0xA0, 0x95],
     utf8 [0xED, 0x8E, 0xB8, 0xEC, 0xA7, 0x91], utf8 [0xEC, 0xBB, 0xA4, 0xEB, 0xB0, 0x8B]]"

definition is_local_workspace_task :: "string \<Rightarrow> bool" where
  "is_local_workspace_task task =
     (let lower = map to_lower task;
          path_like = str_contains lower ''/'' \<and> \<not> str_contains lower ''http://''
            \<and> \<not> str_contains lower ''https://'' \<and> \<not> str_contains lower ''github.com''
      in (contains_any_keyword lower local_markers \<or> path_like) \<and> \<not> has_explicit_remote_repo_reference lower)"

section \<open>Follow-ups and continuations\<close>

definition contains_any_word :: "string \<Rightarrow> string list \<Rightarrow> bool" where
  "contains_any_word s ws \<longleftrightarrow> list_ex (contains_word s) ws"

definition fresh_task_verbs :: "string list" where
  "fresh_task_verbs = [''fix'', ''add'', ''remove'', ''create'', ''delete'', ''implement'', ''write'',
     ''refactor'', ''debug'', ''test'', ''run'', ''build'', ''deploy'', ''analyze'', ''review'', ''clone'',
     ''check'', ''update'', ''explain'', ''show'', ''list'',
     utf8 [0xEC, 0x88, 0x98, 0xEC, 0xA0, 0x95], utf8 [0xEC, 0xB6, 0x94, 0xEA, 0xB0, 0x80],
     utf8 [0xEC, 0x82, 0xAD, 0xEC, 0xA0, 0x9C], utf8 [0xEC, 0x83, 0x9D, 0xEC, 0x84, 0xB1],
     utf8 [0xEA, 0xB5, 0xAC, 0xED, 0x98, 0x84], utf8 [0xEC, 0x9E, 0x91, 0xEC, 0x84, 0xB1],
     utf8 [0xEA, 0xB2, 0x80, 0xED, 0x86, 0xA0], utf8 [0xEB, 0xB6, 0x84, 0xEC, 0x84, 0x9D]]"

definition referent_markers :: "string list" where
  "referent_markers = [utf8 [0xEA, 0xB7, 0xB8, 0xEA, 0xB1, 0xB0], utf8 [0xEC, 0x9D, 0xB4, 0xEA, 0xB1, 0xB0],
     utf8 [0xEC, 0xA0, 0x80, 0xEA, 0xB1, 0xB0], utf8 [0xEA, 0xB1, 0xB0, 0xEA, 0xB8, 0xB0],
     utf8 [0xEB, 0xA1, 0x9C, 0xEC, 0xBB, 0xAC, 0xEC, 0x97, 0x90], ''that'', ''it'', ''there'', ''them'',
     utf8 [0xEC, 0x9D, 0xB4, 0xEC, 0x96, 0xB4, 0xEC, 0x84, 0x9C], utf8 [0xEA, 0xB3, 0x84, 0xEC, 0x86, 0x8D]]"

definition confirmation_markers :: "string list" where
  "confirmation_markers = [utf8 [0xEB, 0xA7, 0x9E, 0xEC, 0x95, 0x84], utf8 [0xEC, 0x9D, 0x91], utf8 [0xEB, 0x84, 0xA4],
     ''yes'', ''yep'', ''sure'', ''ok'', ''okay'']"

definition looks_like_follow_up_task :: "string \<Rightarrow> bool" where
  "looks_like_follow_up_task task =
     (let lower = map to_lower (trim task)
      in if lower = [] then False
         else if contains_any_word lower fresh_task_verbs then False
         else if length (split_whitespace lower) \<le> 2 then True
         else contains_any_word lower referent_markers \<or> contains_any_word lower confirmation_markers)"

definition continuation_markers :: "string list" where
  "continuation_markers = [utf8 [0xEC, 0x8B, 0xA4, 0xED, 0x96, 0x89, 0xED, 0x95, 0xB4],
     utf8 [0xEC, 0xA7, 0x84, 0xED, 0x96, 0x89, 0xED, 0x95, 0xB4], utf8 [0xEA, 0xB3, 0x84, 0xEC, 0x86, 0x8D, 0xED, 0x95, 0xB4],
     utf8 [0xEC, 0x9D, 0xB4, 0xEC, 0x96, 0xB4, 0xEC, 0x84, 0x9C],
     utf8 [0xEB, 0x8B, 0xA4, 0xEC, 0x9D, 0x8C] @ '' '' @ utf8 [0xEC, 0x9E, 0x91, 0xEC, 0x97, 0x85],
     ''go ahead'', ''do it'', ''execute'', ''proceed'', ''continue'', ''run it'', ''carry on'']"

definition is_continuation_command :: "string \<Rightarrow> bool" where
  "is_continuation_command task =
     (let lower = map to_lower (trim task)
      in length (split_whitespace lower) \<le> 6 \<and> contains_any_keyword lower continuation_markers)"

section \<open>Keyword classification\<close>

definition external_keywords :: "string list" where
  "external_keywords = [''clone'', ''github.com'', ''gitlab.com'', ''bitbucket.org'']"

definition is_external :: "string \<Rightarrow> bool" where
  "is_external lower \<longleftrightarrow> contains_any_keyword lower external_keywords
     \<or> str_contains lower ''https://'' \<and> str_contains lower ''.git''"

definition config_nouns :: "string list" where
  "config_nouns = [''setting'', ''settings'', ''config'', ''provider'', ''backend'']"

definition fast_code_verbs :: "string list" where
  "fast_code_verbs = [''fix'', ''debug'', ''refactor'', ''patch'', ''rewrite'', ''implement'', ''bug'']"

definition fast_config_verbs :: "string list" where
  "fast_config_verbs = [''enable'', ''disable'', ''switch'', ''toggle'', ''configure'', ''change'', ''set'']"

definition classify_task_fast :: "string \<Rightarrow> bool \<Rightarrow> task_type option" where
  "classify_task_fast task has_mcp =
     (let lower = map to_lower task
      in if is_external lower then Some ExternalProject
         else if contains_any_word lower fast_code_verbs then Some CodeGeneration
         else if contains_any_word lower fast_config_verbs \<and> contains_any_word lower config_nouns then Some Configuration
         else if contains_any_word lower [''analyze'', ''analysis'', ''evaluate''] then Some Analysis
         else if has_mcp \<and> contains_any_word lower [''mcp'', ''commit'', ''branch''] then Some ToolOperation
         else None)"

definition code_verbs :: "string list" where
  "code_verbs = [''code'', ''implement'', ''function'', ''refactor'', ''bug'', ''fix'', ''debug'', ''patch'', ''rewrite'']"

definition config_verbs :: "string list" where
  "config_verbs = [''change'', ''update'', ''set'', ''enable'', ''disable'', ''switch'', ''toggle'', ''configure'']"

definition has_bare_model_ref :: "string \<Rightarrow> bool" where
  "has_bare_model_ref lower \<longleftrightarrow> contains_word lower ''model''"

definition classify_task_fallback :: "string \<Rightarrow> bool \<Rightarrow> task_type" where
  "classify_task_fallback task has_mcp =
     (let lower = map to_lower task
      in if is_external lower then ExternalProject
         else if contains_any_word lower code_verbs then CodeGeneration
         else if contains_any_word lower config_nouns
           \<and> (contains_any_word lower config_verbs \<or> has_bare_model_ref lower) then Configuration
         else if has_mcp \<and> contains_any_word lower [''mcp'', ''file'', ''repo'', ''commit'', ''branch'', ''search'']
           then ToolOperation
         else if contains_any_keyword lower [''analyze'', ''analysis'', ''pattern'', ''compare'', ''evaluate''] then Analysis
         else if contains_any_keyword lower [''explore'', ''investigate'', ''figure out'', ''step by step'', ''iteratively'']
           then Interactive
         else if length (split_whitespace lower) \<le> 8 then SimpleQuery
         else Complex)"

section \<open>The ladder\<close>

definition answered_type :: "string \<Rightarrow> task_type option" where
  "answered_type out =
     (let o' = map to_lower (trim out)
      in map_of [(''simple_query'', SimpleQuery), (''analysis'', Analysis), (''code_generation'', CodeGeneration),
           (''configuration'', Configuration), (''config_query'', ConfigQuery), (''tool_operation'', ToolOperation),
           (''external_project'', ExternalProject), (''interactive'', Interactive), (''complex'', Complex)] o')"

definition tool_context :: "bool \<Rightarrow> string list \<Rightarrow> string" where
  "tool_context has_mcp tools =
     (if has_mcp then nl @ ''Available MCP tools: ['' @ join '', '' (take 15 tools) @ '']'' else [])"

definition classification_prompt :: "string \<Rightarrow> string \<Rightarrow> string" where
  "classification_prompt tool_ctx task =
     ''Classify the following user task into exactly ONE type.'' @ nl @ nl @ ''Task types:'' @ nl @
     ''- simple_query: Questions or lookups that need no external action (e.g. greetings, factual Q&A, explanations)'' @
     nl @ ''- analysis: Tasks requiring data extraction, pattern analysis, or evaluation'' @ nl @
     ''- code_generation: Tasks involving writing, fixing, refactoring, or debugging code'' @ nl @
     ''- configuration: Tasks that CHANGE system settings (enable/disable features, switch models, update preferences)'' @
     nl @
     ''- config_query: Tasks that ASK ABOUT current system state or settings without changing them (e.g. \"what backend is active?\", \"show current model\")'' @
     nl @ ''- tool_operation: Tasks requiring external tool calls (file I/O, API calls, MCP tools)'' @
     tool_ctx @ nl @
     ''- external_project: Tasks involving cloning, analyzing, or modifying an external repository given a URL or path'' @
     nl @
     ''- interactive: Open-ended tasks requiring multi-step reasoning, exploration, or iterative tool usage'' @
     nl @ ''- complex: Multi-step tasks spanning multiple categories'' @ nl @ nl @ ''User task: \"'' @ task @
     ''\"'' @ nl @ nl @ ''Respond with ONLY the type name, nothing else.''"

text \<open>\<open>ask\<close> is what the router answers to a prompt, if it answers.\<close>

definition classify_task ::
    "string \<Rightarrow> string list \<Rightarrow> string list \<Rightarrow> task_type option \<Rightarrow> (string \<Rightarrow> string option) \<Rightarrow> string option \<Rightarrow> task_type" where
  "classify_task task servers tools previous ask repo_url =
     (let has_mcp = (servers \<noteq> []); lower = map to_lower task
      in if repo_url \<noteq> None then ExternalProject
         else (case (if is_continuation_command task then previous else None) of
             Some t \<Rightarrow> t
           | None \<Rightarrow> (case classify_task_fast task has_mcp of
                 Some t \<Rightarrow> t
               | None \<Rightarrow>
                   if has_mcp \<and> (list_ex (\<lambda>n. str_contains lower (map to_lower n)) servers
                     \<or> list_ex (\<lambda>n. str_contains lower (map to_lower (last (split_at (CHR ''/'') n)))) tools)
                   then ToolOperation
                   else (case Option.bind (ask (classification_prompt (tool_context has_mcp tools) task)) answered_type of
                       Some t \<Rightarrow> t
                     | None \<Rightarrow> classify_task_fallback task has_mcp))))"

section \<open>The previous run of a session\<close>

text \<open>
  What \<^verbatim>\<open>execute_run\<close> takes from the session for a continuation: the type of the task of its
  latest other run that succeeded, among the five runs the store lists, and the plan of that run.
\<close>

definition previous_context ::
    "string \<Rightarrow> string \<Rightarrow> bool \<Rightarrow> run_record list \<Rightarrow> task_type option \<times> string option" where
  "previous_context task rid has_mcp past =
     (if is_continuation_command task then
        (case find (\<lambda>r. run_id r \<noteq> rid \<and> run_status r = RS_Succeeded) past of
           Some prev \<Rightarrow> (Some (classify_task_fallback (run_task prev) has_mcp),
             map_option er_output (find (\<lambda>x. er_role x = Planner \<and> er_succeeded x) (run_outputs prev)))
         | None \<Rightarrow> (None, None))
      else (None, None))"

text \<open>
  \<^verbatim>\<open>classify_cache\<close> in \<^verbatim>\<open>build_graph\<close>: the type of a task is kept per session and text; the nil
  session of the tests is not cached.
\<close>

definition nil_session :: string where
  "nil_session = ''00000000-0000-0000-0000-000000000000''"

definition cached_classify ::
    "string \<Rightarrow> string \<Rightarrow> string list \<Rightarrow> string list \<Rightarrow> task_type option \<Rightarrow> (string \<Rightarrow> string option) \<Rightarrow> string option
      \<Rightarrow> (string \<times> string, task_type) hashmap \<Rightarrow> task_type \<times> (string \<times> string, task_type) hashmap" where
  "cached_classify sid task servers tools previous ask repo_url cache =
     (if sid \<noteq> nil_session then
        (case hm_get cache (sid, task) of
           Some t \<Rightarrow> (t, cache)
         | None \<Rightarrow>
             let t = classify_task task servers tools previous ask repo_url
             in (t, hm_insert cache (sid, task) t))
      else (classify_task task servers tools previous ask repo_url, cache))"

section \<open>The ladder of the classification\<close>

lemma any_word_Cons [simp]:
  "contains_any_word s (w # ws) \<longleftrightarrow> contains_word s w \<or> contains_any_word s ws"
  "\<not> contains_any_word s []"
  by (simp_all add: contains_any_word_def)

lemma any_word_split:
  assumes "contains_any_word s vs" and "set vs \<subseteq> set ws \<union> set us"
  shows "contains_any_word s ws \<or> contains_any_word s us"
  using assms by (auto simp: contains_any_word_def list_ex_iff)

lemma any_word_mono: "contains_any_word s vs \<Longrightarrow> set vs \<subseteq> set ws \<Longrightarrow> contains_any_word s ws"
  using any_word_split [of s vs ws ws] by auto

lemmas keyword_tables = fast_code_verbs_def fast_config_verbs_def code_verbs_def config_verbs_def

lemma to_lower_idem [simp]: "to_lower (to_lower c) = to_lower c"
proof (cases "65 \<le> (of_char c :: nat) \<and> (of_char c :: nat) \<le> 90")
  case True
  then have "(of_char (char_of (of_char c + 32 :: nat)) :: nat) = of_char c + 32" by simp
  with True show ?thesis by (simp add: to_lower_def)
qed (auto simp: to_lower_def)

lemma word_is_contained:
  assumes "contains_word (map to_lower s) w" and "map to_lower w = w"
  shows "str_contains (map to_lower s) w"
proof -
  obtain a m b where h: "map to_lower s = a @ m @ b" and m: "map to_lower m = w"
    using assms unfolding contains_word_iff by auto
  have "map to_lower (map to_lower s) = map to_lower s" by simp
  then have "map to_lower m = m" by (simp add: h)
  with h m show ?thesis by (auto simp: str_contains_iff)
qed

text \<open>
  C32: where the fast path decides, the fallback decides the same, but for three cases that
  depend on words the fast path does not look at: a code word sends the fallback to code, a
  configuration noun with a verb or model it alone knows to configuration, and, with tools, a
  tool noun sends an analysis to the tools.
\<close>

theorem fast_path_agrees:
  assumes "classify_task_fast task has_mcp = Some t"
  shows "classify_task_fallback task has_mcp = t
    \<or> t \<in> {Configuration, Analysis, ToolOperation} \<and> classify_task_fallback task has_mcp = CodeGeneration
      \<and> contains_any_word (map to_lower task) [''code'', ''function'']
    \<or> t \<in> {Analysis, ToolOperation} \<and> classify_task_fallback task has_mcp = Configuration
      \<and> contains_any_word (map to_lower task) config_nouns
      \<and> contains_any_word (map to_lower task) [''update'', ''model'']
    \<or> t = Analysis \<and> has_mcp \<and> classify_task_fallback task has_mcp = ToolOperation"
proof -
  let ?l = "map to_lower task"
  have analysis: "contains_any_keyword ?l [''analyze'', ''analysis'', ''pattern'', ''compare'', ''evaluate'']"
    if "contains_any_word ?l [''analyze'', ''analysis'', ''evaluate'']"
    using that word_is_contained [of task "''analyze''"] word_is_contained [of task "''analysis''"]
      word_is_contained [of task "''evaluate''"]
    by (auto simp: contains_any_keyword_def to_lower_def)
  have code_word: "contains_any_word ?l [''code'', ''function'']"
    if "contains_any_word ?l code_verbs" "\<not> contains_any_word ?l fast_code_verbs"
    using any_word_split [OF that(1), of fast_code_verbs "[''code'', ''function'']"] that(2)
    by (simp add: keyword_tables del: any_word_Cons)
  have config_word: "contains_any_word ?l [''update'', ''model'']"
    if "contains_any_word ?l config_verbs \<or> has_bare_model_ref ?l" "\<not> contains_any_word ?l fast_config_verbs"
    using any_word_split [of ?l config_verbs fast_config_verbs "[''update'']"] that
    by (auto simp: has_bare_model_ref_def config_verbs_def fast_config_verbs_def simp del: any_word_Cons)
      (simp_all add: contains_any_word_def)
  consider (ext) "is_external ?l" "t = ExternalProject"
    | (code) "\<not> is_external ?l" "contains_any_word ?l fast_code_verbs" "t = CodeGeneration"
    | (config) "\<not> is_external ?l" "\<not> contains_any_word ?l fast_code_verbs"
        "contains_any_word ?l fast_config_verbs" "contains_any_word ?l config_nouns" "t = Configuration"
    | (analyse) "\<not> is_external ?l" "\<not> contains_any_word ?l fast_code_verbs"
        "\<not> (contains_any_word ?l fast_config_verbs \<and> contains_any_word ?l config_nouns)"
        "contains_any_word ?l [''analyze'', ''analysis'', ''evaluate'']" "t = Analysis"
    | (tool) "\<not> is_external ?l" "\<not> contains_any_word ?l fast_code_verbs"
        "\<not> (contains_any_word ?l fast_config_verbs \<and> contains_any_word ?l config_nouns)"
        has_mcp "contains_any_word ?l [''mcp'', ''commit'', ''branch'']" "t = ToolOperation"
    using assms by (auto simp only: classify_task_fast_def Let_def split: if_splits)
  then show ?thesis
  proof cases
    case code
    from this(2) have "contains_any_word ?l code_verbs"
      by (rule any_word_mono) (simp add: keyword_tables)
    with code show ?thesis by (simp only: classify_task_fallback_def Let_def if_False if_True simp_thms)
  next
    case config
    from this(3) have "contains_any_word ?l config_verbs"
      by (rule any_word_mono) (simp add: keyword_tables)
    then show ?thesis
      using config code_word unfolding classify_task_fallback_def Let_def by (auto simp only: if_True if_False split: if_splits)
  next
    case analyse
    then show ?thesis
      using analysis code_word config_word unfolding classify_task_fallback_def Let_def
      by (auto simp only: if_True if_False split: if_splits)
  next
    case tool
    from this(5) have "contains_any_word ?l [''mcp'', ''file'', ''repo'', ''commit'', ''branch'', ''search'']"
      by (rule any_word_mono) simp
    then show ?thesis
      using tool code_word config_word unfolding classify_task_fallback_def Let_def
      by (auto simp only: if_True if_False split: if_splits)
  qed (simp add: classify_task_fallback_def)
qed

theorem fast_path_agrees_witness:
  "classify_task_fallback ''set code config'' False \<noteq> Configuration
     \<and> classify_task_fallback ''set code config'' False = CodeGeneration"
proof -
  have fast: "classify_task_fast ''set code config'' False = Some Configuration" by code_simp
  have "\<not> contains_any_word (map to_lower ''set code config'') [''update'', ''model'']" by code_simp
  moreover have "classify_task_fallback ''set code config'' False \<noteq> Configuration" by code_simp
  ultimately show ?thesis using fast_path_agrees [OF fast] by auto
qed

text \<open>
  What the model answers changes the type of a task only when no repository is given, the
  task does not continue a run with a type, and the fast path and the tools decide nothing.
\<close>

theorem model_asked_last:
  assumes "classify_task task servers tools previous a repo_url \<noteq> classify_task task servers tools previous b repo_url"
  shows "repo_url = None \<and> \<not> (is_continuation_command task \<and> previous \<noteq> None)
    \<and> classify_task_fast task (servers \<noteq> []) = None
    \<and> \<not> list_ex (\<lambda>n. str_contains (map to_lower task) (map to_lower n)) servers"
proof -
  have "previous = None" if "is_continuation_command task"
    using assms that by (cases previous) (auto simp: classify_task_def Let_def split: if_splits)
  moreover have "classify_task_fast task (servers \<noteq> []) = None"
    using assms by (auto simp: classify_task_def Let_def split: option.splits if_splits)
  ultimately show ?thesis
    using assms by (auto simp: classify_task_def Let_def split: option.splits if_splits)
qed

theorem model_asked_last_witness:
  "classify_task_fast ''hi'' False = None"
proof -
  have "classify_task ''hi'' [] [] None (\<lambda>_. Some ''complex'') None \<noteq> classify_task ''hi'' [] [] None (\<lambda>_. None) None"
    by code_simp
  from model_asked_last [OF this] show ?thesis by simp
qed

text \<open>
  The type of a continuation is kept for its session and text: when the same words continue
  a later run of another type, the type of the first is used.
\<close>

theorem continuation_type_stale:
  assumes "is_continuation_command task" and "sid \<noteq> nil_session" and "hm_get cache (sid, task) = None"
  shows "fst (cached_classify sid task servers tools (Some t1) a None cache) = t1
    \<and> fst (cached_classify sid task servers' tools' (Some t2) a' None
        (snd (cached_classify sid task servers tools (Some t1) a None cache))) = t1"
  using assms by (simp add: cached_classify_def classify_task_def Let_def hm_simps)

theorem continuation_type_stale_witness:
  "fst (cached_classify ''s'' ''go ahead'' [] [] (Some Analysis) (\<lambda>_. None) None
     (snd (cached_classify ''s'' ''go ahead'' [] [] (Some CodeGeneration) (\<lambda>_. None) None []))) = CodeGeneration"
proof -
  have "is_continuation_command ''go ahead''" by code_simp
  moreover have "''s'' \<noteq> nil_session" by (simp add: nil_session_def)
  ultimately show ?thesis
    using continuation_type_stale [of "''go ahead''" "''s''" "[]" "[]" "[]" CodeGeneration] by (simp add: hm_simps)
qed

section \<open>What the markers match\<close>

lemma remote_task_not_local:
  "has_explicit_remote_repo_reference task \<Longrightarrow> \<not> is_local_workspace_task task"
  by (simp add: is_local_workspace_task_def has_explicit_remote_repo_reference_def Let_def comp_def)

text \<open>A slash anywhere makes a task local, and a marker inside a word a continuation.\<close>

lemma slash_is_local: "is_local_workspace_task ''tea and/or coffee''"
  by code_simp

lemma continuation_inside_word: "is_continuation_command ''who was executed in 1649''"
  by code_simp

text \<open>
  Bytes above 127 are not word bytes, so that a Korean marker matches inside a longer word: the
  word for net contains the word for yes.
\<close>

lemma korean_marker_inside_word:
  "contains_word (utf8 [0xEB, 0x84, 0xA4, 0xED, 0x8A, 0xB8]) (utf8 [0xEB, 0x84, 0xA4])"
  by code_simp

end
