(* ===== verification/Context.thy ===== *)
theory Context
  imports Completion Sql Complex_Main "HOL-Library.Sublist"
begin

text \<open>
  The selection of context for prompts, \<^verbatim>\<open>src/context/mod.rs\<close>. The estimate of the tokens of a
  text, the budget of a kind and the priorities are floating-point numbers in the code. The
  optimisation is stated for any estimate \<open>est\<close>, budgets \<open>budget\<close> and linearly ordered priorities, with
  \<open>bump\<close> for the increase of a summarised chunk; \<open>manager_optimize\<close> is its instance with the
  constants of the code as rationals.

  Results: every section stays within its budget, whatever the estimate; what is shown comes from
  the chunks, by falling priority, and nothing twice; the last truncation never cuts anything.
\<close>

section \<open>Chunks\<close>

datatype context_scope = GlobalShared | SessionShared | AgentPrivate

datatype context_kind = K_System | K_Instructions | K_History | K_Retrieval | K_ToolResults

record 'p context_chunk =
  ch_id :: string
  ch_scope :: context_scope
  ch_kind :: context_kind
  ch_content :: string
  ch_priority :: 'p

record optimized_context =
  oc_system :: "string list"
  oc_instructions :: "string list"
  oc_history :: "string list"
  oc_retrieval :: "string list"
  oc_tools :: "string list"
  oc_tokens :: nat

record structured_brief =
  sbr_goal :: string
  sbr_constraints :: "string list"
  sbr_decisions :: "string list"
  sbr_references :: "string list"

definition build_structured_brief :: "string \<Rightarrow> string list \<Rightarrow> string list \<Rightarrow> string list \<Rightarrow> structured_brief" where
  "build_structured_brief goal constraints decisions references = \<lparr>sbr_goal = goal,
     sbr_constraints = constraints, sbr_decisions = decisions, sbr_references = references\<rparr>"

definition normalized_content :: "'p context_chunk \<Rightarrow> string" where
  "normalized_content c = map to_lower (trim (ch_content c))"

fun dedup_loop :: "string list \<Rightarrow> 'p context_chunk list \<Rightarrow> 'p context_chunk list" where
  "dedup_loop seen [] = []"
| "dedup_loop seen (c # cs) =
     (if normalized_content c = [] then dedup_loop seen cs
      else if normalized_content c \<in> set seen then dedup_loop seen cs
      else c # dedup_loop (normalized_content c # seen) cs)"

definition dedup_chunks :: "'p context_chunk list \<Rightarrow> 'p context_chunk list" where
  "dedup_chunks cs = dedup_loop [] cs"

definition summarize_text :: "string \<Rightarrow> nat \<Rightarrow> string" where
  "summarize_text text n =
     (if length text \<le> n then text
      else take (n div 2) text @ nl @ ''... [summary-trimmed] ...'' @ nl @ rev (take (n div 2) (rev text)))"

definition summarize_chunk :: "(string \<Rightarrow> nat) \<Rightarrow> ('p \<Rightarrow> 'p) \<Rightarrow> 'p context_chunk \<Rightarrow> 'p context_chunk" where
  "summarize_chunk est bump c = (if est (ch_content c) > 600
     then c\<lparr>ch_content := summarize_text (ch_content c) 480, ch_priority := bump (ch_priority c)\<rparr> else c)"

definition summarize_large_chunks ::
    "(string \<Rightarrow> nat) \<Rightarrow> ('p \<Rightarrow> 'p) \<Rightarrow> 'p context_chunk list \<Rightarrow> 'p context_chunk list" where
  "summarize_large_chunks est bump cs = map (summarize_chunk est bump) cs"

section \<open>Budgets\<close>

fun budget_loop :: "(string \<Rightarrow> nat) \<Rightarrow> nat \<Rightarrow> nat \<Rightarrow> 'p context_chunk list \<Rightarrow> string list" where
  "budget_loop est budget used [] = []"
| "budget_loop est budget used (c # cs) =
     (if used + est (ch_content c) > budget then budget_loop est budget used cs
      else ch_content c # budget_loop est budget (used + est (ch_content c)) cs)"

definition apply_budget :: "(string \<Rightarrow> nat) \<Rightarrow> 'p context_chunk list \<Rightarrow> nat \<Rightarrow> string list" where
  "apply_budget est cs budget = budget_loop est budget 0 cs"

definition total_tokens :: "(string \<Rightarrow> nat) \<Rightarrow> string list \<Rightarrow> nat" where
  "total_tokens est items = sum_list (map est items)"

function truncate_low_value :: "(string \<Rightarrow> nat) \<Rightarrow> string list \<Rightarrow> nat \<Rightarrow> string list" where
  "truncate_low_value est items budget =
     (if total_tokens est items > budget \<and> items \<noteq> [] then truncate_low_value est (butlast items) budget
      else items)"
  by auto
termination by (relation "measure (\<lambda>(est, items, budget). length items)") auto

declare truncate_low_value.simps [simp del]

section \<open>The optimisation\<close>

text \<open>The chunks of a kind, sorted by falling priority; equal priorities keep their order.\<close>

definition group_of :: "context_kind \<Rightarrow> ('p::linorder) context_chunk list \<Rightarrow> 'p context_chunk list" where
  "group_of k cs = order_desc ch_priority (filter (\<lambda>c. ch_kind c = k) cs)"

definition optimize ::
    "(string \<Rightarrow> nat) \<Rightarrow> (context_kind \<Rightarrow> nat) \<Rightarrow> ('p \<Rightarrow> 'p) \<Rightarrow> ('p::linorder) context_chunk list \<Rightarrow> optimized_context" where
  "optimize est budget bump chunks =
     (let cs = summarize_large_chunks est bump (dedup_chunks chunks);
          budgeted = (\<lambda>k. apply_budget est (group_of k cs) (budget k));
          history = truncate_low_value est (budgeted K_History) (budget K_History);
          retrieval = take 8 (budgeted K_Retrieval)
      in \<lparr>oc_system = budgeted K_System, oc_instructions = budgeted K_Instructions, oc_history = history,
          oc_retrieval = retrieval, oc_tools = budgeted K_ToolResults,
          oc_tokens = total_tokens est (budgeted K_System) + total_tokens est (budgeted K_Instructions)
            + total_tokens est history + total_tokens est retrieval + total_tokens est (budgeted K_ToolResults)\<rparr>)"

definition section_text :: "string \<Rightarrow> string list \<Rightarrow> string" where
  "section_text name values = (if values = [] then ''['' @ name @ '']'' @ nl @ ''<empty>''
     else ''['' @ name @ '']'' @ nl @ join nl values)"

definition flatten :: "optimized_context \<Rightarrow> string" where
  "flatten c = join (nl @ nl) [section_text ''SYSTEM'' (oc_system c), section_text ''INSTRUCTIONS'' (oc_instructions c),
     section_text ''HISTORY'' (oc_history c), section_text ''RETRIEVAL'' (oc_retrieval c), section_text ''TOOLS'' (oc_tools c)]"

text \<open>The manager of the code, with its numbers as rationals.\<close>

record token_budget =
  tb_max_context :: nat
  tb_system :: rat
  tb_instructions :: rat
  tb_history :: rat
  tb_retrieval :: rat
  tb_tool :: rat
  tb_output_reserve :: rat

definition default_for :: "nat \<Rightarrow> token_budget" where
  "default_for n = \<lparr>tb_max_context = n, tb_system = 8 / 100, tb_instructions = 15 / 100, tb_history = 32 / 100,
     tb_retrieval = 25 / 100, tb_tool = 10 / 100, tb_output_reserve = 10 / 100\<rparr>"

definition budget_by_kind :: "token_budget \<Rightarrow> context_kind \<Rightarrow> nat" where
  "budget_by_kind tb k = nat \<lfloor>of_nat (tb_max_context tb) * (case k of K_System \<Rightarrow> tb_system tb
     | K_Instructions \<Rightarrow> tb_instructions tb | K_History \<Rightarrow> tb_history tb
     | K_Retrieval \<Rightarrow> tb_retrieval tb | K_ToolResults \<Rightarrow> tb_tool tb)\<rfloor>"

definition estimate_tokens :: "string \<Rightarrow> nat" where
  "estimate_tokens text = nat \<lceil>max (of_nat (length (split_whitespace text)) * (13 / 10)) (of_nat (length text) / (35 / 10)) :: rat\<rceil>"

definition raised_priority :: "rat \<Rightarrow> rat" where
  "raised_priority p = min (p + 5 / 100) 1"

definition manager_optimize :: "token_budget \<Rightarrow> rat context_chunk list \<Rightarrow> optimized_context" where
  "manager_optimize tb chunks = optimize estimate_tokens (budget_by_kind tb) raised_priority chunks"

section \<open>What a section holds\<close>

lemma budget_loop_total:
  "used \<le> budget \<Longrightarrow> used + total_tokens est (budget_loop est budget used cs) \<le> budget"
proof (induction cs arbitrary: used)
  case (Cons c cs)
  show ?case
  proof (cases "used + est (ch_content c) > budget")
    case True
    with Cons.IH [OF Cons.prems] show ?thesis by (simp add: total_tokens_def)
  next
    case False
    then have "used + est (ch_content c) \<le> budget" by simp
    from Cons.IH [OF this] False show ?thesis by (simp add: total_tokens_def)
  qed
qed (simp add: total_tokens_def)

lemma apply_budget_total: "total_tokens est (apply_budget est cs budget) \<le> budget"
  using budget_loop_total [of 0 budget est cs] by (simp add: apply_budget_def)

lemma budget_loop_subseq: "subseq (budget_loop est budget used cs) (map ch_content cs)"
  by (induction cs arbitrary: used) auto

lemma truncate_noop: "total_tokens est items \<le> budget \<Longrightarrow> truncate_low_value est items budget = items"
  by (subst truncate_low_value.simps) simp

lemma total_take: "total_tokens est (take n items) \<le> total_tokens est items"
proof -
  have "total_tokens est items = total_tokens est (take n items) + total_tokens est (drop n items)"
    unfolding total_tokens_def by (metis append_take_drop_id map_append sum_list_append)
  then show ?thesis by simp
qed

definition section_of :: "optimized_context \<Rightarrow> context_kind \<Rightarrow> string list" where
  "section_of c k = (case k of K_System \<Rightarrow> oc_system c | K_Instructions \<Rightarrow> oc_instructions c
     | K_History \<Rightarrow> oc_history c | K_Retrieval \<Rightarrow> oc_retrieval c | K_ToolResults \<Rightarrow> oc_tools c)"

lemma section_of_optimize:
  "section_of (optimize est budget bump chunks) k =
     (if k = K_Retrieval then take 8 else id)
       (apply_budget est (group_of k (summarize_large_chunks est bump (dedup_chunks chunks))) (budget k))"
  by (cases k) (simp_all add: section_of_def optimize_def Let_def truncate_noop apply_budget_total)

lemma optimize_total:
  "oc_tokens (optimize est budget bump chunks) = sum_list (map (\<lambda>k. total_tokens est
     (section_of (optimize est budget bump chunks) k)) [K_System, K_Instructions, K_History, K_Retrieval, K_ToolResults])"
  by (simp add: section_of_def optimize_def Let_def)

lemma section_within: "total_tokens est (section_of (optimize est budget bump chunks) k) \<le> budget k"
  unfolding section_of_optimize by (simp add: apply_budget_total order_trans [OF total_take apply_budget_total])

lemma default_budget: "rat_of_nat (budget_by_kind (default_for n) k) \<le> of_nat n * (case k of K_System \<Rightarrow> 8 / 100
     | K_Instructions \<Rightarrow> 15 / 100 | K_History \<Rightarrow> 32 / 100 | K_Retrieval \<Rightarrow> 25 / 100 | K_ToolResults \<Rightarrow> 10 / 100)"
proof -
  define r :: rat where "r = (case k of K_System \<Rightarrow> 8 / 100 | K_Instructions \<Rightarrow> 15 / 100 | K_History \<Rightarrow> 32 / 100
    | K_Retrieval \<Rightarrow> 25 / 100 | K_ToolResults \<Rightarrow> 10 / 100)"
  have "0 \<le> r" by (cases k) (simp_all add: r_def)
  then have "rat_of_nat (nat \<lfloor>of_nat n * r\<rfloor>) \<le> of_nat n * r" by (intro of_nat_floor) simp
  moreover have "budget_by_kind (default_for n) k = nat \<lfloor>of_nat n * r\<rfloor>"
    by (cases k) (simp_all add: budget_by_kind_def default_for_def r_def)
  ultimately show ?thesis by (simp add: r_def)
qed

lemma default_budget_sum:
  "10 * (budget_by_kind (default_for n) K_System + budget_by_kind (default_for n) K_Instructions
     + budget_by_kind (default_for n) K_History + budget_by_kind (default_for n) K_Retrieval
     + budget_by_kind (default_for n) K_ToolResults) \<le> 9 * n" (is "10 * ?s \<le> _")
proof -
  have "rat_of_nat ?s \<le> of_nat n * (90 / 100)"
    using default_budget [of n K_System] default_budget [of n K_Instructions] default_budget [of n K_History]
      default_budget [of n K_Retrieval] default_budget [of n K_ToolResults]
    by simp
  then have "rat_of_nat (10 * ?s) \<le> rat_of_nat (9 * n)" by simp
  then show ?thesis by (simp only: of_nat_le_iff)
qed

text \<open>
  C33: every section of the context stays within the budget of its kind, whatever the estimate of
  texts, and the retrieval within eight texts; with the default budget the sections together leave
  a tenth of the window free.
\<close>

theorem optimize_within_budget:
  "total_tokens est (section_of (optimize est budget bump chunks) k) \<le> budget k
   \<and> length (oc_retrieval (optimize est budget bump chunks)) \<le> 8
   \<and> 10 * oc_tokens (manager_optimize (default_for n) rat_chunks) \<le> 9 * n"
proof (intro conjI)
  show "length (oc_retrieval (optimize est budget bump chunks)) \<le> 8"
    by (simp add: optimize_def Let_def)
  let ?s = "\<lambda>k. total_tokens estimate_tokens (section_of (manager_optimize (default_for n) rat_chunks) k)"
  have "?s k \<le> budget_by_kind (default_for n) k" for k
    unfolding manager_optimize_def by (rule section_within)
  from this [of K_System] this [of K_Instructions] this [of K_History] this [of K_Retrieval] this [of K_ToolResults]
  show "10 * oc_tokens (manager_optimize (default_for n) rat_chunks) \<le> 9 * n"
    using default_budget_sum [of n] by (simp add: manager_optimize_def optimize_total)
qed (rule section_within)

lemma dedup_loop_spec:
  "subseq (dedup_loop seen cs) cs \<and> distinct (map normalized_content (dedup_loop seen cs))
   \<and> list_all (\<lambda>c. normalized_content c \<noteq> [] \<and> normalized_content c \<notin> set seen) (dedup_loop seen cs)"
proof (induction cs arbitrary: seen)
  case (Cons c cs)
  show ?case
  proof (cases "normalized_content c = [] \<or> normalized_content c \<in> set seen")
    case True
    then have d: "dedup_loop seen (c # cs) = dedup_loop seen cs" by auto
    show ?thesis unfolding d using Cons.IH [of seen] by (simp add: list_emb_Cons)
  next
    case False
    let ?d = "dedup_loop (normalized_content c # seen) cs"
    have d: "dedup_loop seen (c # cs) = c # ?d" using False by simp
    note ih = Cons.IH [of "normalized_content c # seen"]
    then have "normalized_content c \<notin> set (map normalized_content ?d)"
      by (auto simp: list_all_iff)
    with ih False show ?thesis unfolding d by (simp add: list_all_iff)
  qed
qed simp

lemma sort_key_map: "sort_key k (map f xs) = map f (sort_key (k \<circ> f) xs)"
proof -
  have "insort_key k (f x) (map f ys) = map f (insort_key (k \<circ> f) x ys)" for x ys
    by (induction ys) simp_all
  then show ?thesis by (induction xs) simp_all
qed

lemma order_desc_map: "order_desc k (map f xs) = map f (order_desc (k \<circ> f) xs)"
  by (simp add: order_desc_def sort_key_map rev_map)

lemma group_of_summarized:
  "group_of k (summarize_large_chunks est bump cs) =
     map (summarize_chunk est bump) (order_desc (ch_priority \<circ> summarize_chunk est bump) (filter (\<lambda>c. ch_kind c = k) cs))"
proof -
  have "(\<lambda>c. ch_kind c = k) \<circ> summarize_chunk est bump = (\<lambda>c. ch_kind c = k)"
    by (simp add: fun_eq_iff summarize_chunk_def)
  then show ?thesis
    by (simp add: group_of_def summarize_large_chunks_def filter_map order_desc_map)
qed

text \<open>
  A section shows texts of distinct chunks of its kind, or their summaries, by falling
  priority.
\<close>

theorem optimize_shows_chunks:
  "\<exists>cs. distinct (map normalized_content cs) \<and> subseq cs chunks
    \<and> subseq (section_of (optimize est budget bump chunks) k)
        (map (ch_content \<circ> summarize_chunk est bump) (order_desc (ch_priority \<circ> summarize_chunk est bump)
          (filter (\<lambda>c. ch_kind c = k) cs)))"
proof (intro exI conjI)
  show "distinct (map normalized_content (dedup_chunks chunks))" "subseq (dedup_chunks chunks) chunks"
    using dedup_loop_spec [of "[]" chunks] by (simp_all add: dedup_chunks_def)
  have "subseq (take n xs) xs" for n and xs :: "string list"
    by (rule prefix_imp_subseq) (rule take_is_prefix)
  then have "subseq (section_of (optimize est budget bump chunks) k)
      (apply_budget est (group_of k (summarize_large_chunks est bump (dedup_chunks chunks))) (budget k))"
    by (simp add: section_of_optimize)
  also have "subseq \<dots> (map ch_content (group_of k (summarize_large_chunks est bump (dedup_chunks chunks))))"
    by (simp add: apply_budget_def budget_loop_subseq)
  finally show "subseq (section_of (optimize est budget bump chunks) k)
      (map (ch_content \<circ> summarize_chunk est bump) (order_desc (ch_priority \<circ> summarize_chunk est bump)
        (filter (\<lambda>c. ch_kind c = k) (dedup_chunks chunks))))"
    by (simp add: group_of_summarized)
qed

text \<open>The last truncation of the history cuts nothing, since the budget was applied before.\<close>

lemma truncation_is_redundant:
  "truncate_low_value est (apply_budget est cs budget) budget = apply_budget est cs budget"
  by (simp add: truncate_noop apply_budget_total)

text \<open>Chunks are compared across kinds: the first one with a text is kept, wherever it belongs.\<close>

lemma instruction_dropped_for_history:
  "oc_instructions (optimize (\<lambda>_. 1) (\<lambda>_. 10) id
     [\<lparr>ch_id = ''1'', ch_scope = SessionShared, ch_kind = K_History, ch_content = ''be brief'', ch_priority = (1::nat)\<rparr>,
      \<lparr>ch_id = ''2'', ch_scope = GlobalShared, ch_kind = K_Instructions, ch_content = ''Be brief'', ch_priority = 9\<rparr>]) = []"
  by code_simp
end
