(* ===== verification/Rate_Limit.thy ===== *)
theory Rate_Limit
  imports Sql Complex_Main
begin

text \<open>
  The rate limiter in front of the API, \<^verbatim>\<open>src/interface/rate_limit.rs\<close>: a bucket of tokens per
  key. Tokens and times in seconds are rationals with exact arithmetic; times do not go back.

  Results: in any window of time the requests accepted for one key are at most the capacity plus
  what is refilled in the window, whatever other keys do; a key that was not used before is
  always accepted.
\<close>

record rate_limit_config =
  rl_capacity :: rat
  rl_refill :: rat

record bucket =
  bk_tokens :: rat
  bk_last :: rat

type_synonym rate_limiter = "(string, bucket) hashmap"

text \<open>\<open>capacity\<close> and \<open>per_sec\<close> are the environment variables that hold a number.\<close>

definition from_env :: "rat option \<Rightarrow> rat option \<Rightarrow> rate_limit_config" where
  "from_env capacity per_sec = \<lparr>rl_capacity = (case capacity of Some c \<Rightarrow> c | None \<Rightarrow> 120),
     rl_refill = (case per_sec of Some r \<Rightarrow> r | None \<Rightarrow> 2)\<rparr>"

definition refill :: "rate_limit_config \<Rightarrow> rat \<Rightarrow> bucket \<Rightarrow> bucket" where
  "refill cfg now b =
     (let elapsed = max 0 (now - bk_last b)
      in if elapsed > 0 then \<lparr>bk_tokens = min (bk_tokens b + elapsed * rl_refill cfg) (rl_capacity cfg), bk_last = now\<rparr>
         else b)"

definition try_acquire :: "rate_limit_config \<Rightarrow> string \<Rightarrow> rat \<Rightarrow> rate_limiter \<Rightarrow> bool \<times> rate_limiter" where
  "try_acquire cfg key now l =
     (let b = (case hm_get l key of Some b \<Rightarrow> b | None \<Rightarrow> \<lparr>bk_tokens = rl_capacity cfg, bk_last = now\<rparr>);
          b = refill cfg now b
      in if bk_tokens b \<ge> 1 then (True, hm_insert l key (b\<lparr>bk_tokens := bk_tokens b - 1\<rparr>))
         else (False, hm_insert l key b))"

text \<open>\<open>header\<close> answers for a header whose value is a text.\<close>

definition rate_limit_key :: "(string \<Rightarrow> string option) \<Rightarrow> string" where
  "rate_limit_key header = (case header ''X-API-Key'' of
       Some k \<Rightarrow> ''key:'' @ k
     | None \<Rightarrow> (case header ''X-Forwarded-For'' of
         Some s \<Rightarrow> ''ip:'' @ trim (hd (split_at (CHR '','') s))
       | None \<Rightarrow> (case header ''X-Real-IP'' of
           Some ip \<Rightarrow> ''ip:'' @ ip
         | None \<Rightarrow> ''anonymous'')))"

text \<open>The status of the response: 429, or what the next handler answers.\<close>

definition rate_limit_middleware ::
    "rate_limit_config \<Rightarrow> (string \<Rightarrow> string option) \<Rightarrow> rat \<Rightarrow> (unit \<Rightarrow> nat) \<Rightarrow> rate_limiter \<Rightarrow> nat \<times> rate_limiter" where
  "rate_limit_middleware cfg header now handler l =
     (case try_acquire cfg (rate_limit_key header) now l of
        (ok, l) \<Rightarrow> (if ok then handler () else 429, l))"

section \<open>Sequences of requests\<close>

text \<open>How many of the requests, given by key and time, are accepted for the key \<open>k\<close>.\<close>

fun accepted_for :: "rate_limit_config \<Rightarrow> string \<Rightarrow> (string \<times> rat) list \<Rightarrow> rate_limiter \<Rightarrow> nat" where
  "accepted_for cfg k [] l = 0"
| "accepted_for cfg k ((key, now) # rs) l =
     (case try_acquire cfg key now l of
        (ok, l) \<Rightarrow> (if ok \<and> key = k then 1 else 0) + accepted_for cfg k rs l)"

text \<open>The tokens of a key at a time.\<close>

definition available :: "rate_limit_config \<Rightarrow> string \<Rightarrow> rat \<Rightarrow> rate_limiter \<Rightarrow> rat" where
  "available cfg k t l = (case hm_get l k of
       None \<Rightarrow> rl_capacity cfg
     | Some b \<Rightarrow> min (bk_tokens b + (t - bk_last b) * rl_refill cfg) (rl_capacity cfg))"

definition used_before :: "string \<Rightarrow> rat \<Rightarrow> rate_limiter \<Rightarrow> bool" where
  "used_before k t l \<longleftrightarrow> (case hm_get l k of None \<Rightarrow> True | Some b \<Rightarrow> bk_last b \<le> t \<and> 0 \<le> bk_tokens b)"

definition within_capacity :: "rate_limit_config \<Rightarrow> string \<Rightarrow> rate_limiter \<Rightarrow> bool" where
  "within_capacity cfg k l \<longleftrightarrow> (case hm_get l k of None \<Rightarrow> True | Some b \<Rightarrow> bk_tokens b \<le> rl_capacity cfg)"

lemma acquire_other_key:
  assumes "key \<noteq> k"
  shows "hm_get (snd (try_acquire cfg key now l)) k = hm_get l k"
  using assms by (simp add: try_acquire_def Let_def hm_simps)

lemma acquire_same_key:
  assumes "used_before k now l" "within_capacity cfg k l" "0 \<le> rl_capacity cfg" "0 \<le> rl_refill cfg"
    and "try_acquire cfg k now l = (ok, l')"
  shows "used_before k now l' \<and> within_capacity cfg k l'
    \<and> (if ok then 1 else 0) + available cfg k now l' = available cfg k now l"
proof -
  define b where "b = (case hm_get l k of Some b \<Rightarrow> b | None \<Rightarrow> \<lparr>bk_tokens = rl_capacity cfg, bk_last = now\<rparr>)"
  have b: "bk_last b \<le> now" "0 \<le> bk_tokens b" "bk_tokens b \<le> rl_capacity cfg"
    using assms(1-3) by (auto simp: b_def used_before_def within_capacity_def split: option.splits)
  have avail: "available cfg k now l = min (bk_tokens b + (now - bk_last b) * rl_refill cfg) (rl_capacity cfg)"
    by (auto simp: available_def b_def split: option.split)
  define r where "r = refill cfg now b"
  have r: "bk_tokens r = available cfg k now l" "bk_last r = now \<or> bk_last r = bk_last b \<and> bk_last b = now"
    using b by (auto simp: r_def refill_def Let_def avail max_def)
  have gain: "0 \<le> (now - bk_last b) * rl_refill cfg"
    using b(1) assms(4) by simp
  then have tok: "0 \<le> bk_tokens r" "bk_tokens r \<le> rl_capacity cfg"
    using b assms(3) unfolding r(1) avail by auto
  have l': "hm_get l' k = Some (if ok then r\<lparr>bk_tokens := bk_tokens r - 1\<rparr> else r)" "ok \<longleftrightarrow> bk_tokens r \<ge> 1"
    using assms(5) by (auto simp: try_acquire_def Let_def r_def b_def hm_simps split: if_splits)
  have "bk_last r = now" using r(2) by auto
  then show ?thesis
    using tok l' r(1) by (auto simp: used_before_def within_capacity_def available_def)
qed

lemma available_later:
  assumes "t \<le> u" "0 \<le> rl_refill cfg" "within_capacity cfg k l"
  shows "available cfg k u l \<le> available cfg k t l + (u - t) * rl_refill cfg"
proof (cases "hm_get l k")
  case None
  with assms show ?thesis by (simp add: available_def)
next
  case (Some b)
  have "(u - bk_last b) * rl_refill cfg = (t - bk_last b) * rl_refill cfg + (u - t) * rl_refill cfg"
    by (simp add: algebra_simps)
  moreover have "0 \<le> (u - t) * rl_refill cfg" using assms by simp
  ultimately show ?thesis using Some by (simp add: available_def min_def)
qed

lemma accepted_le_available:
  assumes "sorted (t # map snd rs @ [u])" "0 \<le> rl_capacity cfg" "0 \<le> rl_refill cfg"
    and "used_before k t l" "within_capacity cfg k l"
  shows "of_nat (accepted_for cfg k rs l) \<le> available cfg k t l + (u - t) * rl_refill cfg"
  using assms(1,4,5)
proof (induction rs arbitrary: t l)
  case Nil
  have "0 \<le> available cfg k t l"
    using Nil.prems assms(2,3) by (auto simp: available_def used_before_def split: option.splits)
  then show ?case using Nil.prems(1) assms(3) by simp
next
  case (Cons x rs)
  obtain key now where x: "x = (key, now)" by fastforce
  have order: "t \<le> now" "now \<le> u" "sorted (now # map snd rs @ [u])" using Cons.prems(1) by (auto simp: x)
  have now: "used_before k now l"
    using Cons.prems(2) order(1) by (auto simp: used_before_def split: option.splits)
  obtain ok l' where l': "try_acquire cfg key now l = (ok, l')" by fastforce
  have "used_before k now l' \<and> within_capacity cfg k l'
      \<and> (if ok \<and> key = k then 1 else 0) + available cfg k now l' = available cfg k now l"
  proof (cases "key = k")
    case True
    with acquire_same_key [OF now Cons.prems(3) assms(2,3)] l' show ?thesis by simp
  next
    case False
    then have "hm_get l' k = hm_get l k" using acquire_other_key [of key k cfg now l] l' by simp
    with False now Cons.prems(3) show ?thesis
      by (simp add: used_before_def within_capacity_def available_def)
  qed
  moreover from this have "of_nat (accepted_for cfg k rs l') \<le> available cfg k now l' + (u - now) * rl_refill cfg"
    using Cons.IH order(3) by blast
  moreover have "available cfg k now l \<le> available cfg k t l + (now - t) * rl_refill cfg"
    using available_later order(1) assms(3) Cons.prems(3) by blast
  moreover have "(u - t) * rl_refill cfg = (now - t) * rl_refill cfg + (u - now) * rl_refill cfg"
    by (simp add: algebra_simps)
  ultimately show ?case by (auto simp: x l' split: if_splits)
qed

text \<open>
  C34: among requests of all keys between two times, those accepted for one key are at most the
  capacity plus what the refill adds between the times.
\<close>

theorem rate_limit_bound:
  assumes "0 \<le> rl_capacity cfg" "0 \<le> rl_refill cfg"
    and "sorted (t # map snd rs @ [u])" "used_before k t l" "within_capacity cfg k l"
  shows "of_nat (accepted_for cfg k rs l) \<le> rl_capacity cfg + (u - t) * rl_refill cfg"
proof -
  have "available cfg k t l \<le> rl_capacity cfg" by (simp add: available_def split: option.split)
  with accepted_le_available [OF assms(3,1,2,4,5)] show ?thesis by linarith
qed

theorem rate_limit_bound_witness:
  "accepted_for \<lparr>rl_capacity = 2, rl_refill = 1\<rparr> ''k'' [(''k'', 0), (''k'', 0), (''a'', 0), (''k'', 0), (''k'', 1)] [] \<le> 3"
proof -
  have "of_nat (accepted_for \<lparr>rl_capacity = 2, rl_refill = 1\<rparr> ''k'' [(''k'', 0), (''k'', 0), (''a'', 0), (''k'', 0), (''k'', 1)] [])
      \<le> (3 :: rat)"
    using rate_limit_bound [of "\<lparr>rl_capacity = 2, rl_refill = 1\<rparr>" 0
        "[(''k'', 0), (''k'', 0), (''a'', 0), (''k'', 0), (''k'', 1)]" 1 "''k''" "[]"]
    by (simp add: used_before_def within_capacity_def hm_simps)
  then show ?thesis by linarith
qed

text \<open>A key that was not used before is accepted: the caller chooses it in a header that is not checked.\<close>

lemma fresh_key_accepted:
  assumes "header ''X-API-Key'' = Some secret" "hm_get l (''key:'' @ secret) = None" "1 \<le> rl_capacity cfg"
  shows "fst (rate_limit_middleware cfg header now handler l) = handler ()"
  using assms by (simp add: rate_limit_middleware_def rate_limit_key_def try_acquire_def Let_def refill_def)

end
