(* ===== verification/Gateway.thy ===== *)
theory Gateway
  imports Submission Crypto
begin

text \<open>
  The chat gateways: the commands of \<^verbatim>\<open>src/gateway/mod.rs\<close>, how a text becomes a command, the
  manager that executes it on the orchestrator, the delivery of a finished run, and the Slack
  adapter of \<^verbatim>\<open>src/gateway/slack.rs\<close>. The parsers of identifiers, JSON and forms, fresh
  identifiers and the HTTP client are arguments; a handler answers its response and the task it
  spawns, and a task answers the messages it posts.
\<close>

section \<open>Commands\<close>

datatype platform = Slack | Discord | Web

fun platform_display :: "platform \<Rightarrow> string" where
  "platform_display Slack = ''slack''"
| "platform_display Discord = ''discord''"
| "platform_display Web = ''web''"

datatype gateway_action =
    SubmitRun string task_profile
  | CancelRun string
  | PauseRun string
  | ResumeRun string
  | RetryRun string
  | CloneRun string "string option"
  | GetRun string
  | ListRuns "string option" nat
  | ListSessions nat
  | ListWorkflows nat
  | ExecuteWorkflow string "json option"
  | Help

record message_origin =
  og_platform :: platform
  og_channel :: string
  og_thread :: "string option"
  og_user :: string

record gateway_command =
  gc_action :: gateway_action
  gc_origin :: message_origin
  gc_session :: "string option"

datatype gateway_payload =
    RunSubmitted run_submission
  | RunDetails run_record
  | RunAction string string bool
  | RunList "run_record list"
  | SessionList "session_summary list"
  | WorkflowList "workflow_template list"
  | HelpText string
  | Error_Text string

record gateway_response =
  gr_origin :: message_origin
  gr_payload :: gateway_payload

section \<open>Reading a text\<close>

text \<open>\<open>uuid\<close> is \<^verbatim>\<open>Uuid::parse_str\<close> with the canonical text of what it read, \<open>json\<close> the JSON parser.\<close>

record gateway_parsers =
  gp_uuid :: "string \<Rightarrow> string option"
  gp_json :: "string \<Rightarrow> json option"

definition nil_uuid :: string where
  "nil_uuid = ''00000000-0000-0000-0000-000000000000''"

definition uuid_or_nil :: "gateway_parsers \<Rightarrow> string \<Rightarrow> string" where
  "uuid_or_nil ps s = (case gp_uuid ps s of Some u \<Rightarrow> u | None \<Rightarrow> nil_uuid)"

definition parse_profile :: "string \<Rightarrow> task_profile" where
  "parse_profile s =
     (let l = map to_lower s
      in if l = ''planning'' then Planning else if l = ''extraction'' then Extraction
         else if l = ''coding'' then Coding else General)"

fun run_args_loop :: "string list \<Rightarrow> string list \<Rightarrow> task_profile \<Rightarrow> string list \<times> task_profile" where
  "run_args_loop [] parts profile = (parts, profile)"
| "run_args_loop (tok # ts) parts profile =
     (if tok = ''--profile'' then (case ts of
          [] \<Rightarrow> (parts, profile)
        | p # ts' \<Rightarrow> run_args_loop ts' parts (parse_profile p))
      else run_args_loop ts (parts @ [tok]) profile)"

definition parse_run_args :: "string \<Rightarrow> string \<times> task_profile" where
  "parse_run_args text = (case run_args_loop (split_whitespace text) [] General of
     (parts, profile) \<Rightarrow> (join '' '' parts, profile))"

definition parse_uuid_arg :: "gateway_parsers \<Rightarrow> string \<Rightarrow> string" where
  "parse_uuid_arg ps text = (case split_whitespace (trim text) of
     [] \<Rightarrow> nil_uuid | s # _ \<Rightarrow> uuid_or_nil ps s)"

fun clone_args_loop :: "gateway_parsers \<Rightarrow> string list \<Rightarrow> string option \<Rightarrow> string option" where
  "clone_args_loop ps [] target = target"
| "clone_args_loop ps (tok # ts) target =
     (if tok = ''--session'' then (case ts of
          [] \<Rightarrow> target
        | sid # ts' \<Rightarrow> clone_args_loop ps ts' (gp_uuid ps sid))
      else clone_args_loop ps ts target)"

definition parse_clone_args :: "gateway_parsers \<Rightarrow> string \<Rightarrow> string \<times> string option" where
  "parse_clone_args ps text = (case split_whitespace text of
     [] \<Rightarrow> (nil_uuid, None)
   | tok # ts \<Rightarrow> (uuid_or_nil ps tok, clone_args_loop ps ts None))"

text \<open>\<^verbatim>\<open>parse().unwrap_or(20).clamp(1, 100)\<close> of a \<^verbatim>\<open>usize\<close>.\<close>

definition parse_limit :: "string \<Rightarrow> nat" where
  "parse_limit l = max 1 (min 100 (case parse_unsigned (2 ^ 64) l of Some n \<Rightarrow> n | None \<Rightarrow> 20))"

fun list_args_loop :: "gateway_parsers \<Rightarrow> string list \<Rightarrow> string option \<Rightarrow> nat \<Rightarrow> string option \<times> nat" where
  "list_args_loop ps [] sid limit = (sid, limit)"
| "list_args_loop ps (tok # ts) sid limit =
     (if tok = ''--session'' then (case ts of
          [] \<Rightarrow> (sid, limit) | s # ts' \<Rightarrow> list_args_loop ps ts' (gp_uuid ps s) limit)
      else if tok = ''--limit'' then (case ts of
          [] \<Rightarrow> (sid, limit) | l # ts' \<Rightarrow> list_args_loop ps ts' sid (parse_limit l))
      else list_args_loop ps ts sid limit)"

definition parse_list_args :: "gateway_parsers \<Rightarrow> string \<Rightarrow> string option \<times> nat" where
  "parse_list_args ps text = list_args_loop ps (split_whitespace text) None 20"

fun limit_arg_loop :: "string list \<Rightarrow> nat \<Rightarrow> nat" where
  "limit_arg_loop [] limit = limit"
| "limit_arg_loop (tok # ts) limit =
     (if tok = ''--limit'' then (case ts of [] \<Rightarrow> limit | l # ts' \<Rightarrow> limit_arg_loop ts' (parse_limit l))
      else limit_arg_loop ts limit)"

definition parse_limit_arg :: "string \<Rightarrow> nat" where
  "parse_limit_arg text = limit_arg_loop (split_whitespace text) 20"

definition parse_workflow_args :: "gateway_parsers \<Rightarrow> string \<Rightarrow> string \<times> json option" where
  "parse_workflow_args ps text = (case split_whitespace text of
     [] \<Rightarrow> ([], None)
   | tok # ts \<Rightarrow> (tok, case dropWhile (\<lambda>t. t \<noteq> ''--params'') ts of
         [] \<Rightarrow> None
       | _ # rest \<Rightarrow> if rest = [] then None else gp_json ps (join '' '' rest)))"

text \<open>\<^verbatim>\<open>splitn(2, char::is_whitespace)\<close>.\<close>

definition split_command :: "string \<Rightarrow> string \<times> string" where
  "split_command s = (takeWhile (\<lambda>c. \<not> is_space c) s, drop 1 (dropWhile (\<lambda>c. \<not> is_space c) s))"

definition parse_action :: "gateway_parsers \<Rightarrow> string \<Rightarrow> gateway_action" where
  "parse_action ps text =
     (let trimmed = trim text; sub = map to_lower (fst (split_command trimmed)); rest = snd (split_command trimmed)
      in if sub = ''run'' then (case parse_run_args rest of (task, profile) \<Rightarrow> SubmitRun task profile)
         else if sub = ''cancel'' then CancelRun (parse_uuid_arg ps rest)
         else if sub = ''pause'' then PauseRun (parse_uuid_arg ps rest)
         else if sub = ''resume'' then ResumeRun (parse_uuid_arg ps rest)
         else if sub = ''retry'' then RetryRun (parse_uuid_arg ps rest)
         else if sub = ''clone'' then (case parse_clone_args ps rest of (rid, target) \<Rightarrow> CloneRun rid target)
         else if sub = ''status'' then GetRun (parse_uuid_arg ps rest)
         else if sub = ''runs'' then (case parse_list_args ps rest of (sid, limit) \<Rightarrow> ListRuns sid limit)
         else if sub = ''sessions'' then ListSessions (parse_limit_arg rest)
         else if sub = ''workflows'' then ListWorkflows (parse_limit_arg rest)
         else if sub = ''workflow-run'' then (case parse_workflow_args ps rest of (wid, params) \<Rightarrow> ExecuteWorkflow wid params)
         else if sub = ''results'' then GetRun (parse_uuid_arg ps rest)
         else if sub = ''help'' then Help
         else SubmitRun trimmed General)"

definition parse_gateway_text :: "gateway_parsers \<Rightarrow> string \<Rightarrow> message_origin \<Rightarrow> gateway_command" where
  "parse_gateway_text ps text origin = \<lparr>gc_action = parse_action ps text, gc_origin = origin, gc_session = None\<rparr>"

section \<open>Executing commands\<close>

text \<open>\<open>gw_map\<close> is the session of each channel.\<close>

record gateway =
  gw_sub :: submitter
  gw_map :: "(platform \<times> string, string) hashmap"

text \<open>What one command finds: the faults of the store, fresh identifiers for sessions, runs and events.\<close>

record command_env =
  ge_faults :: faults
  ge_session :: string
  ge_run :: string
  ge_other_session :: string
  ge_event :: "nat \<Rightarrow> string"

definition channel_session :: "platform \<Rightarrow> string \<Rightarrow> gateway \<Rightarrow> string option" where
  "channel_session p ch g = hm_get (gw_map g) (p, ch)"

definition open_session ::
    "submit_env \<Rightarrow> command_env \<Rightarrow> platform \<Rightarrow> string \<Rightarrow> gateway \<Rightarrow> (string + string) \<times> gateway" where
  "open_session env ce p ch g =
     (case orch_create_session env (f_now (ge_faults ce)) (ge_session ce) ''general'' (gw_sub g) of
        (Inl e, st) \<Rightarrow> (Inl e, g\<lparr>gw_sub := st\<rparr>)
      | (Inr _, st) \<Rightarrow> (Inr (ge_session ce), g\<lparr>gw_sub := st, gw_map := hm_insert (gw_map g) (p, ch) (ge_session ce)\<rparr>))"

definition resolve_session ::
    "submit_env \<Rightarrow> command_env \<Rightarrow> platform \<Rightarrow> string \<Rightarrow> string option \<Rightarrow> gateway \<Rightarrow> (string + string) \<times> gateway" where
  "resolve_session env ce p ch explicit g = (case explicit of
       Some sid \<Rightarrow> (Inr sid, g)
     | None \<Rightarrow> (case channel_session p ch g of
         Some sid \<Rightarrow> (Inr sid, g)
       | None \<Rightarrow> open_session env ce p ch g))"

definition orch_list_session_runs :: "submit_env \<Rightarrow> string \<Rightarrow> nat \<Rightarrow> submitter \<Rightarrow> string + run_record list" where
  "orch_list_session_runs env sid limit st = (case db_list_session_runs (sv_runs env) sid limit (sb_db st) of
       Inl e \<Rightarrow> Inl ''run row cannot be read''
     | Inr rs \<Rightarrow>
         let more = filter (\<lambda>r. session_id r = sid \<and> run_id r \<notin> run_id ` set rs) (hm_values (o_runs (sb_orch st)))
         in Inr (take limit (order_desc created_at (rs @ more))))"

text \<open>An operation of the run lifecycle on the state of the manager.\<close>

definition run_action ::
    "(orch \<Rightarrow> (string + bool) \<times> orch) \<Rightarrow> string \<Rightarrow> string \<Rightarrow> gateway \<Rightarrow> (string + gateway_payload) \<times> gateway" where
  "run_action op rid name g = (case op (sb_orch (gw_sub g)) of (x, s) \<Rightarrow>
     (map_sum id (\<lambda>ok. RunAction rid name ok) x, g\<lparr>gw_sub := (gw_sub g)\<lparr>sb_orch := s\<rparr>\<rparr>))"

definition submitted ::
    "(string + run_submission) \<times> submitter \<Rightarrow> gateway \<Rightarrow> (string + gateway_payload) \<times> gateway" where
  "submitted x g = (case x of (y, st) \<Rightarrow> (map_sum id RunSubmitted y, g\<lparr>gw_sub := st\<rparr>))"

definition chat_request :: "string \<Rightarrow> task_profile \<Rightarrow> string \<Rightarrow> run_request" where
  "chat_request task profile sid = \<lparr>rq_task = task, rq_profile = profile, rq_session = Some sid,
     rq_workflow = None, rq_params = None, rq_repo_url = None, rq_assignee = None, rq_team = None,
     rq_workspace = None, rq_mentions = None\<rparr>"

definition help_text :: string where
  "help_text = join nl [''Agent Orchestrator Commands:'',
     ''  run <task> [--profile planning|extraction|coding|general]'', ''  cancel <run_id>'', ''  pause <run_id>'',
     ''  resume <run_id>'', ''  retry <run_id>'', ''  clone <run_id> [--session <session_id>]'', ''  status <run_id>'',
     ''  runs [--session <session_id>] [--limit N]'', ''  sessions [--limit N]'', ''  workflows [--limit N]'',
     ''  workflow-run <workflow_id> [--params JSON]'', ''  results <run_id>'', ''  help'']"

definition with_session ::
    "(string + string) \<times> gateway \<Rightarrow> (string \<Rightarrow> gateway \<Rightarrow> (string + gateway_payload) \<times> gateway)
      \<Rightarrow> (string + gateway_payload) \<times> gateway" where
  "with_session x k = (case x of (Inl e, g) \<Rightarrow> (Inl e, g) | (Inr sid, g) \<Rightarrow> k sid g)"

definition gateway_execute ::
    "submit_env \<Rightarrow> command_env \<Rightarrow> gateway_command \<Rightarrow> gateway \<Rightarrow> (string + gateway_payload) \<times> gateway" where
  "gateway_execute env ce cmd g =
     (let f = ge_faults ce; st = gw_sub g;
          session = resolve_session env ce (og_platform (gc_origin cmd)) (og_channel (gc_origin cmd)) (gc_session cmd) g
      in case gc_action cmd of
           SubmitRun task profile \<Rightarrow> with_session session (\<lambda>sid g.
             submitted (submit_run env (ge_event ce) f (ge_run ce) (ge_other_session ce) (chat_request task profile sid) (gw_sub g)) g)
         | CancelRun rid \<Rightarrow> run_action (cancel_run f rid) rid ''cancel'' g
         | PauseRun rid \<Rightarrow> run_action (pause_run f rid) rid ''pause'' g
         | ResumeRun rid \<Rightarrow> run_action (resume_run f rid) rid ''resume'' g
         | RetryRun rid \<Rightarrow> submitted (retry_run env (ge_event ce) f (ge_run ce) (ge_other_session ce) rid st) g
         | CloneRun rid target \<Rightarrow>
             submitted (clone_run env (ge_event ce) f (ge_run ce) (ge_other_session ce) rid target st) g
         | GetRun rid \<Rightarrow> ((case orch_get_run env rid st of
               Inl e \<Rightarrow> Inl e | Inr None \<Rightarrow> Inl ''run not found'' | Inr (Some r) \<Rightarrow> Inr (RunDetails r)), g)
         | ListRuns sid limit \<Rightarrow> (map_sum id RunList (case sid of
               Some s \<Rightarrow> orch_list_session_runs env s limit st | None \<Rightarrow> orch_list_recent_runs env limit st), g)
         | ListSessions limit \<Rightarrow> (Inr (SessionList (db_list_sessions limit None (sb_db st))), g)
         | ListWorkflows limit \<Rightarrow> ((case db_list_workflows (sv_workflows env) limit (sb_db st) of
               Inl e \<Rightarrow> Inl ''workflow row cannot be read'' | Inr ws \<Rightarrow> Inr (WorkflowList ws)), g)
         | ExecuteWorkflow wid params \<Rightarrow> with_session session (\<lambda>sid g.
             submitted (execute_workflow env (ge_event ce 0) f (ge_run ce) (ge_other_session ce) wid params (Some sid) (gw_sub g)) g)
         | Help \<Rightarrow> (Inr (HelpText help_text), g))"

definition handle_command ::
    "submit_env \<Rightarrow> command_env \<Rightarrow> gateway_command \<Rightarrow> gateway \<Rightarrow> gateway_response \<times> gateway" where
  "handle_command env ce cmd g = (case gateway_execute env ce cmd g of (x, g) \<Rightarrow>
     (\<lparr>gr_origin = gc_origin cmd, gr_payload = (case x of Inl e \<Rightarrow> Error_Text e | Inr p \<Rightarrow> p)\<rparr>, g))"

text \<open>
  \<^verbatim>\<open>poll_and_deliver\<close> over what its calls of \<^verbatim>\<open>get_run\<close> answer: the response it delivers, if any,
  and whether it has ended.
\<close>

fun poll_and_deliver :: "message_origin \<Rightarrow> (string + run_record option) list \<Rightarrow> gateway_response option \<times> bool" where
  "poll_and_deliver origin [] = (None, False)"
| "poll_and_deliver origin (Inr (Some r) # xs) =
     (if run_is_terminal (run_status r) then (Some \<lparr>gr_origin = origin, gr_payload = RunDetails r\<rparr>, True)
      else poll_and_deliver origin xs)"
| "poll_and_deliver origin (Inr None # xs) = (None, True)"
| "poll_and_deliver origin (Inl e # xs) = (None, True)"

section \<open>Slack\<close>

text \<open>A message that a task posts: to the response address of a command, or to a channel and thread.\<close>

datatype slack_target = Response_Url string | Channel string "string option"

record slack_task =
  sk_command :: gateway_command
  sk_target :: slack_target

record slack_config =
  bot_token :: string
  slack_secret :: string

record slack_env =
  se_hmac :: mac
  se_parsers :: gateway_parsers
  se_form :: "string \<Rightarrow> (string \<times> string) list option"
  se_json :: "string \<Rightarrow> string + json"

definition is_submit :: "gateway_action \<Rightarrow> bool" where
  "is_submit a \<longleftrightarrow> (case a of SubmitRun _ _ \<Rightarrow> True | _ \<Rightarrow> False)"

definition form_field :: "(string \<times> string) list \<Rightarrow> string \<Rightarrow> string" where
  "form_field form k = (case find (\<lambda>(k', _). k' = k) form of Some (_, v) \<Rightarrow> v | None \<Rightarrow> [])"

text \<open>The handlers answer the status and body of the response and the task they spawn.\<close>

definition slash_command_handler ::
    "slack_env \<Rightarrow> slack_config \<Rightarrow> int \<Rightarrow> headers \<Rightarrow> string \<Rightarrow> (nat \<times> string) \<times> slack_task option" where
  "slash_command_handler se cfg now headers body =
     (case verify_slack (se_hmac se) now (new_slack_verifier (slack_secret cfg)) headers body of
        Inl e \<Rightarrow> ((401, ''invalid signature''), None)
      | Inr _ \<Rightarrow>
          let form = (case se_form se body of Some kvs \<Rightarrow> kvs | None \<Rightarrow> []);
              channel = form_field form ''channel_id''; url = form_field form ''response_url'';
              origin = \<lparr>og_platform = Slack, og_channel = channel, og_thread = None, og_user = form_field form ''user_id''\<rparr>
          in ((200, []), Some \<lparr>sk_command = parse_gateway_text (se_parsers se) (form_field form ''text'') origin,
               sk_target = (if url \<noteq> [] then Response_Url url else Channel channel None)\<rparr>))"

definition j_text :: "json \<Rightarrow> string \<Rightarrow> string" where
  "j_text v k = (case Option.bind (j_get v k) j_str of Some s \<Rightarrow> s | None \<Rightarrow> [])"

definition is_mention :: "string \<Rightarrow> bool" where
  "is_mention w \<longleftrightarrow> w \<noteq> [] \<and> hd w = CHR ''<'' \<and> last w = CHR ''>''"

definition cleaned_text :: "string \<Rightarrow> string" where
  "cleaned_text text = join '' '' (dropWhile is_mention (split_whitespace text))"

definition event_origin :: "json \<Rightarrow> message_origin" where
  "event_origin event = \<lparr>og_platform = Slack, og_channel = j_text event ''channel'',
     og_thread = Option.bind (case j_get event ''thread_ts'' of Some t \<Rightarrow> Some t | None \<Rightarrow> j_get event ''ts'') j_str,
     og_user = j_text event ''user''\<rparr>"

definition event_task :: "gateway_parsers \<Rightarrow> json \<Rightarrow> slack_task option" where
  "event_task ps event =
     (if j_text event ''type'' \<in> {''app_mention'', ''message''} then
        Some \<lparr>sk_command = parse_gateway_text ps (cleaned_text (j_text event ''text'')) (event_origin event),
          sk_target = Channel (og_channel (event_origin event)) (og_thread (event_origin event))\<rparr>
      else None)"

definition events_handler ::
    "slack_env \<Rightarrow> slack_config \<Rightarrow> int \<Rightarrow> headers \<Rightarrow> string \<Rightarrow> (nat \<times> json) \<times> slack_task option" where
  "events_handler se cfg now headers body =
     (case verify_slack (se_hmac se) now (new_slack_verifier (slack_secret cfg)) headers body of
        Inl e \<Rightarrow> ((401, J_Object [(''error'', J_String ''invalid signature'')]), None)
      | Inr _ \<Rightarrow> (case se_json se body of
            Inl e \<Rightarrow> ((400, J_Object [(''error'', J_String e)]), None)
          | Inr payload \<Rightarrow>
              if j_text payload ''type'' = ''url_verification''
              then ((200, J_Object [(''challenge'', J_String (j_text payload ''challenge''))]), None)
              else ((200, J_Object [(''ok'', J_Bool True)]),
                if j_text payload ''type'' = ''event_callback''
                then Option.bind (j_get payload ''event'') (event_task (se_parsers se)) else None)))"

section \<open>What is written\<close>

definition quoted :: "string \<Rightarrow> string" where
  "quoted s = CHR 0x60 # s @ [CHR 0x60]"

definition format_output :: "agent_execution_record \<Rightarrow> string" where
  "format_output x = ''  - '' @ quoted (er_node_id x) @ '' ['' @ agent_role_display (er_role x) @ ''] model=''
     @ quoted (er_model x) @ '' '' @ show_nat (er_duration_ms x) @ ''ms '' @ (if er_succeeded x then ''ok'' else ''FAILED'')"

definition format_run_line :: "run_record \<Rightarrow> string" where
  "format_run_line r = ''  - '' @ quoted (take 8 (run_id r)) @ '' ['' @ run_status_display (run_status r) @ ''] ''
     @ take_chars 50 (run_task r)"

definition format_slack_response :: "gateway_payload \<Rightarrow> string" where
  "format_slack_response p = (case p of
       RunSubmitted sub \<Rightarrow> '':rocket: *Run submitted*'' @ nl @ quoted (''run_id: '' @ rs_run sub) @ nl
         @ quoted (''session: '' @ rs_session sub) @ nl @ quoted (''status: '' @ run_status_display (rs_status sub))
     | RunDetails r \<Rightarrow>
         let outputs = join nl (map format_output (take 5 (run_outputs r)))
         in '':mag: *Run '' @ run_id r @ ''*'' @ nl @ ''task: '' @ take_chars 100 (run_task r) @ nl
              @ ''status: '' @ quoted (run_status_display (run_status r)) @ nl
              @ ''profile: '' @ quoted (task_profile_display (run_profile r)) @ nl
              @ (if outputs = [] then ''no outputs yet'' else ''outputs:'' @ nl @ outputs)
     | RunAction rid name ok \<Rightarrow> (if ok then '':white_check_mark:'' else '':x:'') @ '' '' @ quoted name @ '' on run '' @ quoted rid
     | RunList rs \<Rightarrow> '':clipboard: *Recent Runs* ('' @ show_nat (length rs) @ '')'' @ nl
         @ join nl (map format_run_line (take 10 rs))
     | SessionList ss \<Rightarrow> '':file_folder: *Sessions* ('' @ show_nat (length ss) @ '')'' @ nl
         @ join nl (map (\<lambda>s. ''  - '' @ quoted (take 8 (ss_session s)) @ '' runs='' @ show_nat (ss_run_count s)) (take 10 ss))
     | WorkflowList ws \<Rightarrow> '':gear: *Workflows* ('' @ show_nat (length ws) @ '')'' @ nl
         @ join nl (map (\<lambda>w. ''  - *'' @ wt_name w @ ''* '' @ utf8 [0xE2, 0x80, 0x94] @ '' '' @ wt_description w
             @ '' ('' @ show_nat (length (wt_nodes w)) @ '' nodes)'') (take 10 ws))
     | HelpText t \<Rightarrow> [CHR 0x60, CHR 0x60, CHR 0x60] @ nl @ t @ nl @ [CHR 0x60, CHR 0x60, CHR 0x60]
     | Error_Text e \<Rightarrow> '':warning: Error: '' @ e)"

text \<open>
  The spawned task: the command, its answer, and for a submission the delivery of the run over
  the answers \<open>polls rid\<close> of \<^verbatim>\<open>get_run\<close>. The result is what is posted where.
\<close>

definition run_slack_task ::
    "submit_env \<Rightarrow> command_env \<Rightarrow> (string \<Rightarrow> (string + run_record option) list) \<Rightarrow> slack_task \<Rightarrow> gateway
      \<Rightarrow> (slack_target \<times> string) list \<times> gateway" where
  "run_slack_task env ce polls t g =
     (case handle_command env ce (sk_command t) g of
        (resp, g) \<Rightarrow>
          let origin = gc_origin (sk_command t); first = [(sk_target t, format_slack_response (gr_payload resp))]
          in (case (if is_submit (gc_action (sk_command t)) then gr_payload resp else Error_Text []) of
                RunSubmitted sub \<Rightarrow> (case fst (poll_and_deliver origin (polls (rs_run sub))) of
                    Some r \<Rightarrow> (first @ [(Channel (og_channel origin) (og_thread origin), format_slack_response (gr_payload r))], g)
                  | None \<Rightarrow> (first, g))
              | _ \<Rightarrow> (first, g)))"

text \<open>The body of \<^verbatim>\<open>post_message\<close>.\<close>

definition post_message_body :: "string \<Rightarrow> string option \<Rightarrow> string \<Rightarrow> json" where
  "post_message_body channel thread text = J_Object ([(''channel'', J_String channel), (''text'', J_String text)]
     @ (case thread of None \<Rightarrow> [] | Some ts \<Rightarrow> [(''thread_ts'', J_String ts)]))"

end
