(* ===== verification/Discord.thy ===== *)
theory Discord
  imports Gateway
begin

text \<open>
  The Discord adapter, \<^verbatim>\<open>src/gateway/discord.rs\<close>: the embeds and buttons it writes, the polling
  of a run with edits of its message, slash commands and button clicks. Signatures, JSON numbers,
  the difference of two times, and whether an edit succeeds are arguments; a task answers what it
  posts.
\<close>

section \<open>Buttons\<close>

definition check_mark :: string where
  "check_mark = utf8 [0xE2, 0x9C, 0x85]"

definition cross_mark :: string where
  "cross_mark = utf8 [0xE2, 0x9D, 0x8C]"

definition bullet :: string where
  "bullet = '' '' @ utf8 [0xE2, 0x80, 0xA2] @ '' ''"

definition dash :: string where
  "dash = '' '' @ utf8 [0xE2, 0x80, 0x94] @ '' ''"

fun status_color :: "run_status \<Rightarrow> nat" where
  "status_color RS_Queued = 0x95a5a6"
| "status_color RS_Running = 0x3498db"
| "status_color RS_Cancelling = 0xe67e22"
| "status_color RS_Succeeded = 0x2ecc71"
| "status_color RS_Failed = 0xe74c3c"
| "status_color RS_Cancelled = 0xe67e22"
| "status_color RS_Paused = 0xf1c40f"

fun status_emoji :: "run_status \<Rightarrow> string" where
  "status_emoji RS_Queued = utf8 [0xE2, 0x8F, 0xB3]"
| "status_emoji RS_Running = utf8 [0xE2, 0x9A, 0xA1]"
| "status_emoji RS_Cancelling = utf8 [0xF0, 0x9F, 0x9B, 0x91]"
| "status_emoji RS_Succeeded = check_mark"
| "status_emoji RS_Failed = cross_mark"
| "status_emoji RS_Cancelled = utf8 [0xF0, 0x9F, 0x9A, 0xAB]"
| "status_emoji RS_Paused = utf8 [0xE2, 0x8F, 0xB8, 0xEF, 0xB8, 0x8F]"

definition short_id :: "string \<Rightarrow> string" where
  "short_id i = take 8 i"

definition encode_custom_id :: "string \<Rightarrow> string \<Rightarrow> string" where
  "encode_custom_id action rid = action @ '':'' @ rid"

definition decode_custom_id :: "gateway_parsers \<Rightarrow> string \<Rightarrow> (string \<times> string) option" where
  "decode_custom_id ps cid =
     (case dropWhile (\<lambda>c. c \<noteq> CHR '':'') cid of
        [] \<Rightarrow> None
      | _ # id_str \<Rightarrow> map_option (\<lambda>rid. (takeWhile (\<lambda>c. c \<noteq> CHR '':'') cid, rid)) (gp_uuid ps id_str))"

definition j_nat :: "nat \<Rightarrow> json" where
  "j_nat n = J_Number (show_nat n)"

definition button :: "nat \<Rightarrow> string \<Rightarrow> string \<Rightarrow> string \<Rightarrow> json" where
  "button style label action rid = J_Object [(''type'', j_nat 2), (''style'', j_nat style), (''label'', J_String label),
     (''custom_id'', J_String (encode_custom_id action rid))]"

definition refresh_button :: "string \<Rightarrow> json" where
  "refresh_button rid = J_Object [(''type'', j_nat 2), (''style'', j_nat 2), (''label'', J_String ''Refresh''),
     (''custom_id'', J_String (encode_custom_id ''refresh'' rid)),
     (''emoji'', J_Object [(''name'', J_String (utf8 [0xF0, 0x9F, 0x94, 0x84]))])]"

fun status_buttons :: "string \<Rightarrow> run_status \<Rightarrow> json list" where
  "status_buttons rid RS_Queued = [button 4 ''Cancel'' ''cancel'' rid, button 1 ''Pause'' ''pause'' rid]"
| "status_buttons rid RS_Running = [button 4 ''Cancel'' ''cancel'' rid, button 1 ''Pause'' ''pause'' rid]"
| "status_buttons rid RS_Paused = [button 3 ''Resume'' ''resume'' rid, button 4 ''Cancel'' ''cancel'' rid]"
| "status_buttons rid RS_Failed = [button 1 ''Retry'' ''retry'' rid]"
| "status_buttons rid RS_Cancelled = [button 1 ''Retry'' ''retry'' rid]"
| "status_buttons rid RS_Succeeded = [button 1 ''Results'' ''results'' rid]"
| "status_buttons rid RS_Cancelling = []"

definition build_action_buttons :: "string \<Rightarrow> run_status \<Rightarrow> json" where
  "build_action_buttons rid st = J_Array [J_Object [(''type'', j_nat 1),
     (''components'', J_Array (refresh_button rid # status_buttons rid st))]]"

section \<open>Embeds\<close>

definition embed :: "(string \<times> json) list \<Rightarrow> json" where
  "embed kvs = J_Object [(''embeds'', J_Array [J_Object kvs])]"

definition embed_with_buttons :: "(string \<times> json) list \<Rightarrow> json \<Rightarrow> json" where
  "embed_with_buttons kvs buttons = J_Object [(''embeds'', J_Array [J_Object kvs]), (''components'', buttons)]"

definition field :: "string \<Rightarrow> string \<Rightarrow> json" where
  "field nm val = J_Object [(''name'', J_String nm), (''value'', J_String val)]"

definition inline_field :: "string \<Rightarrow> string \<Rightarrow> json" where
  "inline_field nm val = J_Object [(''name'', J_String nm), (''value'', J_String val), (''inline'', J_Bool True)]"

definition footer :: "string \<Rightarrow> string \<times> json" where
  "footer t = (''footer'', J_Object [(''text'', J_String t)])"

definition fenced :: "string \<Rightarrow> string" where
  "fenced s = [CHR 0x60, CHR 0x60, CHR 0x60] @ nl @ s @ nl @ [CHR 0x60, CHR 0x60, CHR 0x60]"

definition status_text :: "run_status \<Rightarrow> string" where
  "status_text s = status_emoji s @ '' '' @ run_status_display s"

definition build_run_submitted_embed :: "run_submission \<Rightarrow> json" where
  "build_run_submitted_embed sub = embed_with_buttons
     [(''title'', J_String (status_emoji (rs_status sub) @ '' Run Submitted'')), (''color'', j_nat (status_color (rs_status sub))),
      (''fields'', J_Array [inline_field ''Run ID'' (quoted (short_id (rs_run sub))),
         inline_field ''Session'' (quoted (short_id (rs_session sub))), inline_field ''Status'' (status_text (rs_status sub))]),
      footer (rs_run sub)]
     (build_action_buttons (rs_run sub) (rs_status sub))"

definition output_mark :: "agent_execution_record \<Rightarrow> string" where
  "output_mark x = (if er_succeeded x then check_mark else cross_mark)"

definition output_line :: "agent_execution_record \<Rightarrow> string" where
  "output_line x = output_mark x @ '' '' @ quoted (er_node_id x) @ '' **'' @ agent_role_display (er_role x) @ ''** ''
     @ show_nat (er_duration_ms x) @ ''ms''"

text \<open>\<open>millis a b\<close> is the text of the milliseconds from \<open>a\<close> to \<open>b\<close>.\<close>

definition build_run_details_embed :: "(string \<Rightarrow> string \<Rightarrow> string) \<Rightarrow> run_record \<Rightarrow> json" where
  "build_run_details_embed millis r = embed_with_buttons
     [(''title'', J_String (status_emoji (run_status r) @ '' Run '' @ short_id (run_id r))),
      (''description'', J_String (take_chars 200 (run_task r))), (''color'', j_nat (status_color (run_status r))),
      (''fields'', J_Array ([inline_field ''Status'' (status_text (run_status r)),
           inline_field ''Profile'' (quoted (task_profile_display (run_profile r))),
           inline_field ''Session'' (quoted (short_id (session_id r)))]
         @ (case run_error r of None \<Rightarrow> [] | Some e \<Rightarrow> [field ''Error'' (fenced (take_chars 300 e))])
         @ (if run_outputs r = [] then []
            else [field ''Agent Outputs'' (join nl (map output_line (take 8 (run_outputs r))))])
         @ (case (started_at r, finished_at r) of
              (Some a, Some b) \<Rightarrow> [inline_field ''Duration'' (millis a b @ ''ms'')] | _ \<Rightarrow> []))),
      footer (run_id r), (''timestamp'', J_String (created_at r))]
     (build_action_buttons (run_id r) (run_status r))"

definition build_run_action_embed :: "string \<Rightarrow> string \<Rightarrow> bool \<Rightarrow> json" where
  "build_run_action_embed rid action ok = embed
     [(''title'', J_String ((if ok then check_mark else cross_mark) @ '' Run Action'')),
      (''description'', J_String (quoted action @ '' on run '' @ quoted (short_id rid))),
      (''color'', j_nat (if ok then 0x2ecc71 else 0xe74c3c)),
      (''fields'', J_Array [inline_field ''Result'' (if ok then ''Success'' else ''Failed'')]), footer rid]"

definition listing :: "string \<Rightarrow> string \<Rightarrow> ('a \<Rightarrow> string) \<Rightarrow> 'a list \<Rightarrow> string" where
  "listing none sep line xs = (if xs = [] then none else join sep (map line (take 15 xs)))"

definition build_run_list_embed :: "run_record list \<Rightarrow> json" where
  "build_run_list_embed rs = embed
     [(''title'', J_String (''Recent Runs ('' @ show_nat (length rs) @ '')'')),
      (''description'', J_String (listing ''No runs found.'' nl (\<lambda>r. status_emoji (run_status r) @ '' '' @ quoted (short_id (run_id r))
         @ '' **'' @ run_status_display (run_status r) @ ''** '' @ take_chars 40 (run_task r)) rs)),
      (''color'', j_nat 0x3498db)]"

definition build_session_list_embed :: "session_summary list \<Rightarrow> json" where
  "build_session_list_embed ss = embed
     [(''title'', J_String (''Sessions ('' @ show_nat (length ss) @ '')'')),
      (''description'', J_String (listing ''No sessions found.'' nl (\<lambda>s. quoted (short_id (ss_session s)) @ bullet @ ''**''
         @ show_nat (ss_run_count s) @ ''** runs'' @ bullet @ (case ss_last_task s of None \<Rightarrow> [] | Some t \<Rightarrow> take_chars 40 t)) ss)),
      (''color'', j_nat 0x3498db)]"

definition build_help_embed :: "string \<Rightarrow> json" where
  "build_help_embed text = embed
     [(''title'', J_String (''Agent Orchestrator'' @ dash @ ''Help'')), (''description'', J_String (fenced text)),
      (''color'', j_nat 0x3498db), footer ''Use slash commands or buttons to interact'']"

definition build_error_embed :: "string \<Rightarrow> json" where
  "build_error_embed err = embed
     [(''title'', J_String (cross_mark @ '' Error'')), (''description'', J_String err), (''color'', j_nat 0xe74c3c)]"

definition build_workflow_list_embed :: "workflow_template list \<Rightarrow> json" where
  "build_workflow_list_embed ws = embed
     [(''title'', J_String (''Workflows ('' @ show_nat (length ws) @ '')'')),
      (''description'', J_String (listing ''No workflows found.'' (nl @ nl) (\<lambda>w. ''**'' @ wt_name w @ ''**'' @ dash @ wt_description w
         @ nl @ ''> '' @ show_nat (length (wt_nodes w)) @ '' nodes'' @ bullet @ show_nat (length (wt_parameters w)) @ '' params'') ws)),
      (''color'', j_nat 0x9b59b6), footer ''Use /agent-workflow-run <id> to execute'']"

text \<open>
  \<^verbatim>\<open>String::truncate\<close> panics inside a character: then there is no embed.
\<close>

definition output_value :: "agent_execution_record \<Rightarrow> string option" where
  "output_value x =
     (let v = take_chars 500 (er_output x) @ (if length (er_output x) > 500 then ''...'' else []);
          v = (if v = [] then ''(no output)'' else v)
      in if length v + 8 > 1024 then
           (if char_boundary v 1014 then Some (fenced (take 1014 v @ ''...'')) else None)
         else Some (fenced v))"

fun output_fields :: "agent_execution_record list \<Rightarrow> json list option" where
  "output_fields [] = Some []"
| "output_fields (x # xs) = (case output_value x of
     None \<Rightarrow> None
   | Some v \<Rightarrow> map_option (\<lambda>fs. field (output_mark x @ '' '' @ er_node_id x @ '' ['' @ agent_role_display (er_role x) @ '']'') v # fs)
       (output_fields xs))"

definition build_run_results_embed :: "run_record \<Rightarrow> json option" where
  "build_run_results_embed r = map_option (\<lambda>fs. embed_with_buttons
     [(''title'', J_String (''Results: Run '' @ short_id (run_id r))), (''color'', j_nat (status_color (run_status r))),
      (''fields'', J_Array (if fs = [] then [field ''Outputs'' ''No agent outputs yet.''] else fs)),
      footer (''Showing up to 5 agent outputs'' @ bullet @ run_id r)]
     (build_action_buttons (run_id r) (run_status r))) (output_fields (take 5 (run_outputs r)))"

definition build_progress_embed :: "run_record \<Rightarrow> json" where
  "build_progress_embed r =
     (let total = length (run_outputs r) + (if run_status r = RS_Running then 1 else 0);
          completed = length (filter er_succeeded (run_outputs r));
          failed = length (filter (\<lambda>x. \<not> er_succeeded x) (run_outputs r))
      in embed_with_buttons
           [(''title'', J_String (utf8 [0xE2, 0x9A, 0xA1] @ '' Run '' @ short_id (run_id r) @ dash @ ''In Progress'')),
            (''description'', J_String (take_chars 100 (run_task r))), (''color'', j_nat 0x3498db),
            (''fields'', J_Array ([inline_field ''Status'' (status_text (run_status r)),
                 inline_field ''Progress'' (show_nat completed @ check_mark @ '' '' @ show_nat failed @ cross_mark
                   @ '' / '' @ show_nat total @ '' nodes''),
                 inline_field ''Profile'' (quoted (task_profile_display (run_profile r)))]
               @ (if run_outputs r = [] then []
                  else [field ''Recent Activity'' (join nl (map output_line (take 5 (rev (run_outputs r)))))]))),
            footer (''Auto-updating...'' @ bullet @ run_id r)]
           (build_action_buttons (run_id r) (run_status r)))"

definition format_discord_embed :: "(string \<Rightarrow> string \<Rightarrow> string) \<Rightarrow> gateway_payload \<Rightarrow> json" where
  "format_discord_embed millis p = (case p of
       RunSubmitted sub \<Rightarrow> build_run_submitted_embed sub
     | RunDetails r \<Rightarrow> build_run_details_embed millis r
     | RunAction rid action ok \<Rightarrow> build_run_action_embed rid action ok
     | RunList rs \<Rightarrow> build_run_list_embed rs
     | SessionList ss \<Rightarrow> build_session_list_embed ss
     | WorkflowList ws \<Rightarrow> build_workflow_list_embed ws
     | HelpText t \<Rightarrow> build_help_embed t
     | Error_Text e \<Rightarrow> build_error_embed e)"

section \<open>Polling a run\<close>

text \<open>Where an embed goes: over the message of an interaction, or as a message of its own.\<close>

datatype discord_target = Original string | Channel_Message string

type_synonym discord_post = "discord_target \<times> json"

text \<open>
  \<^verbatim>\<open>discord_poll_and_update\<close> over what its calls of \<^verbatim>\<open>get_run\<close> answer; \<open>edit_ok k\<close> says whether
  the \<open>k\<close>-th edit succeeds. The result is what was posted and whether the poll has ended.
\<close>

record poll_state =
  dp_outputs :: nat
  dp_tick :: nat
  dp_expired :: bool
  dp_edits :: nat

definition poll_start :: poll_state where
  "poll_start = \<lparr>dp_outputs = 0, dp_tick = 0, dp_expired = False, dp_edits = 0\<rparr>"

definition poll_update ::
    "(string \<Rightarrow> string \<Rightarrow> string) \<Rightarrow> (nat \<Rightarrow> bool) \<Rightarrow> message_origin \<Rightarrow> string \<Rightarrow> run_record \<Rightarrow> poll_state
      \<Rightarrow> discord_post list \<times> poll_state" where
  "poll_update millis edit_ok origin token r st =
     (let over = run_is_terminal (run_status r); st = st\<lparr>dp_tick := dp_tick st + 1\<rparr>
      in if over \<or> dp_tick st mod 3 = 0 \<or> length (run_outputs r) \<noteq> dp_outputs st then
           let e = (if over then build_run_details_embed millis r else build_progress_embed r);
               edits = (if dp_expired st then [] else [(Original token, e)]);
               st = (if dp_expired st then st
                 else st\<lparr>dp_expired := \<not> edit_ok (dp_edits st), dp_edits := dp_edits st + 1\<rparr>);
               fallback = (if dp_expired st \<and> over then [(Channel_Message (og_channel origin), build_run_details_embed millis r)]
                 else [])
           in (edits @ fallback, st\<lparr>dp_outputs := length (run_outputs r)\<rparr>)
         else ([], st))"

fun discord_poll ::
    "(string \<Rightarrow> string \<Rightarrow> string) \<Rightarrow> (nat \<Rightarrow> bool) \<Rightarrow> message_origin \<Rightarrow> string \<Rightarrow> (string + run_record option) list
      \<Rightarrow> poll_state \<Rightarrow> discord_post list \<times> poll_state \<times> bool" where
  "discord_poll millis edit_ok origin token [] st = ([], st, False)"
| "discord_poll millis edit_ok origin token (Inr (Some r) # xs) st =
     (case poll_update millis edit_ok origin token r st of
        (posts, st) \<Rightarrow>
          if run_is_terminal (run_status r) then (posts, st, True)
          else (case discord_poll millis edit_ok origin token xs st of (later, st, over) \<Rightarrow> (posts @ later, st, over)))"
| "discord_poll millis edit_ok origin token (Inr None # xs) st = ([], st, True)"
| "discord_poll millis edit_ok origin token (Inl e # xs) st = ([], st, True)"

section \<open>Interactions\<close>

record discord_config =
  dc_bot_token :: string
  dc_application :: string
  dc_public_key :: string

definition edit_url :: "discord_config \<Rightarrow> string \<Rightarrow> string" where
  "edit_url cfg token = ''https://discord.com/api/v10/webhooks/'' @ dc_application cfg @ ''/'' @ token @ ''/messages/@original''"

definition channel_url :: "string \<Rightarrow> string" where
  "channel_url channel = ''https://discord.com/api/v10/channels/'' @ channel @ ''/messages''"

record discord_env =
  de_crates :: ed25519_crates
  de_parsers :: gateway_parsers
  de_json :: "u8 list \<Rightarrow> string + json"
  de_u64 :: "json \<Rightarrow> nat option"
  de_millis :: "string \<Rightarrow> string \<Rightarrow> string"

definition get_option :: "json \<Rightarrow> string \<Rightarrow> json option" where
  "get_option data nm = Option.bind (Option.bind (j_get data ''options'') j_array)
     (\<lambda>os. Option.bind (find (\<lambda>opt. Option.bind (j_get opt ''name'') j_str = Some nm) os) (\<lambda>opt. j_get opt ''value''))"

definition get_str :: "json \<Rightarrow> string \<Rightarrow> string option" where
  "get_str data nm = Option.bind (get_option data nm) j_str"

definition get_run_id :: "gateway_parsers \<Rightarrow> json \<Rightarrow> string" where
  "get_run_id ps data = (case Option.bind (get_str data ''run_id'') (gp_uuid ps) of Some u \<Rightarrow> u | None \<Rightarrow> nil_uuid)"

definition get_limit :: "(json \<Rightarrow> nat option) \<Rightarrow> json \<Rightarrow> nat \<Rightarrow> nat" where
  "get_limit u64 data most = max 1 (min most (case Option.bind (get_option data ''limit'') u64 of Some n \<Rightarrow> n | None \<Rightarrow> 20))"

definition string_or :: "string option \<Rightarrow> string \<Rightarrow> string" where
  "string_or s d = (case s of Some t \<Rightarrow> t | None \<Rightarrow> d)"

definition parse_discord_command :: "discord_env \<Rightarrow> string \<Rightarrow> json \<Rightarrow> gateway_action" where
  "parse_discord_command de nm data =
     (let ps = de_parsers de; rid = get_run_id ps data
      in if nm = ''agent-run'' then SubmitRun (string_or (get_str data ''task'') [])
             (case get_str data ''profile'' of Some p \<Rightarrow> parse_profile p | None \<Rightarrow> General)
         else if nm = ''agent-status'' then GetRun rid
         else if nm = ''agent-cancel'' then CancelRun rid
         else if nm = ''agent-pause'' then PauseRun rid
         else if nm = ''agent-resume'' then ResumeRun rid
         else if nm = ''agent-retry'' then RetryRun rid
         else if nm = ''agent-runs'' then ListRuns None (get_limit (de_u64 de) data 100)
         else if nm = ''agent-sessions'' then ListSessions (get_limit (de_u64 de) data 100)
         else if nm = ''agent-workflows'' then ListWorkflows (get_limit (de_u64 de) data 50)
         else if nm = ''agent-workflow-run'' then ExecuteWorkflow (string_or (get_str data ''workflow_id'') [])
             (Option.bind (get_str data ''params'') (gp_json ps))
         else if nm = ''agent-results'' then GetRun rid
         else Help)"

datatype discord_task =
    Command_Task gateway_command bool string
  | Component_Task string string message_origin string

definition user_of :: "json \<Rightarrow> string" where
  "user_of i = string_or (Option.bind (Option.bind
     (case Option.bind (j_get i ''member'') (\<lambda>m. j_get m ''user'') of Some u \<Rightarrow> Some u | None \<Rightarrow> j_get i ''user'')
     (\<lambda>u. j_get u ''id'')) j_str) ''unknown''"

definition discord_origin :: "json \<Rightarrow> message_origin" where
  "discord_origin i = \<lparr>og_platform = Discord, og_channel = j_text i ''channel_id'', og_thread = None, og_user = user_of i\<rparr>"

definition handle_application_command :: "discord_env \<Rightarrow> json \<Rightarrow> (nat \<times> json) \<times> discord_task option" where
  "handle_application_command de i =
     (let data = (case j_get i ''data'' of Some d \<Rightarrow> d | None \<Rightarrow> J_Null); nm = j_text data ''name''
      in ((200, J_Object [(''type'', j_nat 5)]), Some (Command_Task
            \<lparr>gc_action = parse_discord_command de nm data, gc_origin = discord_origin i, gc_session = None\<rparr>
            (nm = ''agent-results'') (j_text i ''token''))))"

definition handle_message_component :: "discord_env \<Rightarrow> json \<Rightarrow> (nat \<times> json) \<times> discord_task option" where
  "handle_message_component de i =
     (case decode_custom_id (de_parsers de) (case j_get i ''data'' of Some d \<Rightarrow> j_text d ''custom_id'' | None \<Rightarrow> []) of
        None \<Rightarrow> ((400, J_Object [(''error'', J_String ''invalid custom_id'')]), None)
      | Some (action, rid) \<Rightarrow> ((200, J_Object [(''type'', j_nat 6)]),
          Some (Component_Task action rid (discord_origin i) (j_text i ''token''))))"

definition interactions_handler ::
    "discord_env \<Rightarrow> discord_config \<Rightarrow> headers \<Rightarrow> u8 list \<Rightarrow> (nat \<times> json) \<times> discord_task option" where
  "interactions_handler de cfg headers body =
     (case verify_discord (de_crates de) (dc_public_key cfg) headers body of
        Inl e \<Rightarrow> ((401, J_Object [(''error'', J_String ''invalid signature'')]), None)
      | Inr _ \<Rightarrow> (case de_json de body of
            Inl e \<Rightarrow> ((400, J_Object [(''error'', J_String e)]), None)
          | Inr i \<Rightarrow>
              let kind = (case Option.bind (j_get i ''type'') (de_u64 de) of Some n \<Rightarrow> n | None \<Rightarrow> 0)
              in if kind = 1 then ((200, J_Object [(''type'', j_nat 1)]), None)
                 else if kind = 2 then handle_application_command de i
                 else if kind = 3 then handle_message_component de i
                 else ((400, J_Object [(''error'', J_String ''unknown interaction type'')]), None)))"

section \<open>Tasks\<close>

text \<open>
  \<open>polls rid\<close> is what \<^verbatim>\<open>get_run\<close> answers in the polling of a run. A panic while a task builds its
  embed ends the task: the result is none.
\<close>

definition wants_poll :: "gateway_action \<Rightarrow> bool" where
  "wants_poll a \<longleftrightarrow> (case a of SubmitRun _ _ \<Rightarrow> True | ExecuteWorkflow _ _ \<Rightarrow> True | _ \<Rightarrow> False)"

definition poll_posts ::
    "discord_env \<Rightarrow> (nat \<Rightarrow> bool) \<Rightarrow> (string \<Rightarrow> (string + run_record option) list) \<Rightarrow> message_origin \<Rightarrow> string \<Rightarrow> string
      \<Rightarrow> discord_post list" where
  "poll_posts de edit_ok polls origin token rid = fst (discord_poll (de_millis de) edit_ok origin token (polls rid) poll_start)"

definition command_embed :: "discord_env \<Rightarrow> bool \<Rightarrow> gateway_payload \<Rightarrow> json option" where
  "command_embed de results p = (case (if results then p else Error_Text []) of
       RunDetails r \<Rightarrow> build_run_results_embed r
     | _ \<Rightarrow> Some (format_discord_embed (de_millis de) p))"

definition run_command_task ::
    "submit_env \<Rightarrow> command_env \<Rightarrow> discord_env \<Rightarrow> (nat \<Rightarrow> bool) \<Rightarrow> (string \<Rightarrow> (string + run_record option) list)
      \<Rightarrow> gateway_command \<Rightarrow> bool \<Rightarrow> string \<Rightarrow> gateway \<Rightarrow> discord_post list option \<times> gateway" where
  "run_command_task env ce de edit_ok polls cmd results token g =
     (case handle_command env ce cmd g of
        (resp, g) \<Rightarrow> (case command_embed de results (gr_payload resp) of
            None \<Rightarrow> (None, g)
          | Some e \<Rightarrow> (Some ((Original token, e) #
              (case (if wants_poll (gc_action cmd) then gr_payload resp else Error_Text []) of
                 RunSubmitted sub \<Rightarrow> poll_posts de edit_ok polls (gc_origin cmd) token (rs_run sub)
               | _ \<Rightarrow> [])), g)))"

definition component_action :: "string \<Rightarrow> string \<Rightarrow> gateway_action option" where
  "component_action action rid =
     (if action = ''cancel'' then Some (CancelRun rid) else if action = ''pause'' then Some (PauseRun rid)
      else if action = ''resume'' then Some (ResumeRun rid) else if action = ''retry'' then Some (RetryRun rid)
      else None)"

definition details_or :: "submit_env \<Rightarrow> discord_env \<Rightarrow> string \<Rightarrow> json \<Rightarrow> submitter \<Rightarrow> json" where
  "details_or env de rid other st = (case orch_get_run env rid st of
     Inr (Some r) \<Rightarrow> build_run_details_embed (de_millis de) r | _ \<Rightarrow> other)"

definition component_embed ::
    "submit_env \<Rightarrow> discord_env \<Rightarrow> string \<Rightarrow> string \<Rightarrow> string option \<Rightarrow> submitter \<Rightarrow> json option" where
  "component_embed env de action rid new_run st =
     (if action = ''results'' then (case orch_get_run env rid st of
          Inr (Some r) \<Rightarrow> build_run_results_embed r | _ \<Rightarrow> Some (build_error_embed ''Run not found''))
      else (case new_run of
          Some n \<Rightarrow> Some (details_or env de n (build_run_action_embed rid ''retry'' True) st)
        | None \<Rightarrow> Some (details_or env de rid (build_error_embed ''Run not found'') st)))"

definition run_component_task ::
    "submit_env \<Rightarrow> command_env \<Rightarrow> discord_env \<Rightarrow> (nat \<Rightarrow> bool) \<Rightarrow> (string \<Rightarrow> (string + run_record option) list)
      \<Rightarrow> string \<Rightarrow> string \<Rightarrow> message_origin \<Rightarrow> string \<Rightarrow> gateway \<Rightarrow> discord_post list option \<times> gateway" where
  "run_component_task env ce de edit_ok polls action rid origin token g =
     (let (payload, g) = (case component_action action rid of
            None \<Rightarrow> (None, g)
          | Some a \<Rightarrow> (case handle_command env ce \<lparr>gc_action = a, gc_origin = origin, gc_session = None\<rparr> g of
              (resp, g) \<Rightarrow> (Some (gr_payload resp), g)));
          new_run = (case (if action = ''retry'' then payload else None) of Some (RunSubmitted sub) \<Rightarrow> Some (rs_run sub) | _ \<Rightarrow> None)
      in (map_option (\<lambda>e. (Original token, e) # (case new_run of None \<Rightarrow> []
            | Some n \<Rightarrow> poll_posts de edit_ok polls origin token n))
          (component_embed env de action rid new_run (gw_sub g)), g))"

section \<open>The commands that are registered\<close>

definition string_option :: "string \<Rightarrow> string \<Rightarrow> (string \<times> json) list \<Rightarrow> json" where
  "string_option nm desc extra = J_Object ([(''type'', j_nat 3), (''name'', J_String nm), (''description'', J_String desc)] @ extra)"

definition required :: "string \<times> json" where
  "required = (''required'', J_Bool True)"

definition slash_command :: "string \<Rightarrow> string \<Rightarrow> json list \<Rightarrow> json" where
  "slash_command nm desc options = J_Object ([(''name'', J_String nm), (''description'', J_String desc)]
     @ (if options = [] then [] else [(''options'', J_Array options)]))"

definition run_id_option :: json where
  "run_id_option = string_option ''run_id'' ''Run ID'' [required]"

definition limit_option :: "string \<Rightarrow> json" where
  "limit_option what = J_Object [(''type'', j_nat 4), (''name'', J_String ''limit''),
     (''description'', J_String (''Number of '' @ what @ '' to show''))]"

definition choice :: "string \<Rightarrow> string \<Rightarrow> json" where
  "choice nm val = J_Object [(''name'', J_String nm), (''value'', J_String val)]"

definition global_commands :: "json list" where
  "global_commands = [
     slash_command ''agent-run'' ''Submit a task to the agent orchestrator''
       [string_option ''task'' ''The task to execute'' [required],
        string_option ''profile'' ''Task profile'' [(''choices'', J_Array [choice ''General'' ''general'',
          choice ''Planning'' ''planning'', choice ''Extraction'' ''extraction'', choice ''Coding'' ''coding''])]],
     slash_command ''agent-status'' ''Get the status of a run'' [run_id_option],
     slash_command ''agent-cancel'' ''Cancel a run'' [run_id_option],
     slash_command ''agent-pause'' ''Pause a run'' [run_id_option],
     slash_command ''agent-resume'' ''Resume a paused run'' [run_id_option],
     slash_command ''agent-retry'' ''Retry a run'' [run_id_option],
     slash_command ''agent-runs'' ''List recent runs'' [limit_option ''runs''],
     slash_command ''agent-sessions'' ''List sessions'' [limit_option ''sessions''],
     slash_command ''agent-workflows'' ''List saved workflows'' [limit_option ''workflows''],
     slash_command ''agent-workflow-run'' ''Execute a workflow by name''
       [string_option ''workflow_id'' ''Workflow ID to execute'' [required],
        string_option ''params'' ''JSON parameters (e.g. {\"key\":\"value\"})'' []],
     slash_command ''agent-results'' ''Show detailed agent outputs for a run'' [run_id_option],
     slash_command ''agent-help'' ''Show help for agent commands'' []]"

end
