(* ===== verification/Gateway_Properties.thy ===== *)
theory Gateway_Properties
  imports Gateway Submission_Properties
begin

text \<open>
  Theorems about the chat gateways: the text of a command is read back as the command; all
  submissions of a channel go to one session; a Slack task is spawned for signed requests only;
  and what the parser and the adapter do with texts that are no commands.
\<close>

section \<open>Words\<close>

definition word :: "string \<Rightarrow> bool" where
  "word w \<longleftrightarrow> w \<noteq> [] \<and> list_all (\<lambda>c. \<not> is_space c) w"

lemma split_space_word: "list_all (\<lambda>c. \<not> is_space c) w \<Longrightarrow> split_space acc (w @ s) = split_space (rev w @ acc) s"
  by (induction w arbitrary: acc) simp_all

lemma split_words: "list_all word ws \<Longrightarrow> split_whitespace (join '' '' ws) = ws"
proof (induction ws)
  case (Cons w ws)
  then have w: "w \<noteq> []" "list_all (\<lambda>c. \<not> is_space c) w" by (simp_all add: word_def)
  show ?case
  proof (cases ws)
    case Nil
    with w split_space_word [OF w(2), of "[]" "[]"] show ?thesis by (simp add: split_whitespace_def)
  next
    case (Cons v vs)
    with w Cons.IH Cons.prems show ?thesis
      by (simp add: split_whitespace_def split_space_word is_space_def)
  qed
qed (simp add: split_whitespace_def)

lemma hd_join: "list_all word ws \<Longrightarrow> ws \<noteq> [] \<Longrightarrow> join '' '' ws \<noteq> [] \<and> hd (join '' '' ws) = hd (hd ws)"
  by (cases ws; cases "tl ws") (auto simp: word_def)

lemma last_join: "list_all word ws \<Longrightarrow> ws \<noteq> [] \<Longrightarrow> last (join '' '' ws) = last (last ws)"
proof (induction ws)
  case (Cons w ws)
  show ?case
  proof (cases ws)
    case vs: (Cons v vs)
    with Cons.prems have "join '' '' ws \<noteq> []" using hd_join [of ws] by simp
    with Cons.prems Cons.IH vs show ?thesis by simp
  qed simp
qed simp

lemma trim_words: "list_all word ws \<Longrightarrow> trim (join '' '' ws) = join '' '' ws"
proof (cases "ws = []")
  case False
  assume ws: "list_all word ws"
  then have "word (hd ws)" "word (last ws)" using False by (auto simp: list_all_iff)
  then have "\<not> is_space (hd (hd ws))" "\<not> is_space (last (last ws))"
    by (auto simp: word_def list_all_iff)
  then show ?thesis
    using hd_join [OF ws False] last_join [OF ws False] by (intro trim_solid) auto
qed (simp add: trim_def)

lemma split_command_words:
  assumes "word w"
  shows "split_command (join '' '' (w # ws)) = (w, join '' '' ws)"
proof -
  have all: "\<forall>c\<in>set w. \<not> is_space c" using assms by (simp add: word_def list_all_iff)
  then have w: "takeWhile (\<lambda>c. \<not> is_space c) w = w" "dropWhile (\<lambda>c. \<not> is_space c) w = []" by simp_all
  have "is_space (CHR '' '')" by (simp add: is_space_def)
  with all show ?thesis by (cases ws) (simp_all add: split_command_def w)
qed

section \<open>Commands as text\<close>

text \<open>The words of a command as the help text shows them; \<open>render\<close> prints JSON.\<close>

definition session_words :: "string option \<Rightarrow> string list" where
  "session_words s = (case s of None \<Rightarrow> [] | Some sid \<Rightarrow> [''--session'', sid])"

definition limit_words :: "nat \<Rightarrow> string list" where
  "limit_words n = [''--limit'', show_nat n]"

fun command_words :: "(json \<Rightarrow> string) \<Rightarrow> gateway_action \<Rightarrow> string list" where
  "command_words render (SubmitRun task profile) = ''run'' # split_whitespace task @ [''--profile'', task_profile_display profile]"
| "command_words render (CancelRun rid) = [''cancel'', rid]"
| "command_words render (PauseRun rid) = [''pause'', rid]"
| "command_words render (ResumeRun rid) = [''resume'', rid]"
| "command_words render (RetryRun rid) = [''retry'', rid]"
| "command_words render (CloneRun rid target) = ''clone'' # rid # session_words target"
| "command_words render (GetRun rid) = [''status'', rid]"
| "command_words render (ListRuns sid n) = ''runs'' # session_words sid @ limit_words n"
| "command_words render (ListSessions n) = ''sessions'' # limit_words n"
| "command_words render (ListWorkflows n) = ''workflows'' # limit_words n"
| "command_words render (ExecuteWorkflow wid params) = ''workflow-run'' # wid
     # (case params of None \<Rightarrow> [] | Some p \<Rightarrow> ''--params'' # split_whitespace (render p))"
| "command_words render Help = [''help'']"

definition command_text :: "(json \<Rightarrow> string) \<Rightarrow> gateway_action \<Rightarrow> string" where
  "command_text render a = join '' '' (command_words render a)"

definition readable_id :: "gateway_parsers \<Rightarrow> string \<Rightarrow> bool" where
  "readable_id ps i \<longleftrightarrow> word i \<and> gp_uuid ps i = Some i"

definition single_spaced :: "string \<Rightarrow> bool" where
  "single_spaced s \<longleftrightarrow> join '' '' (split_whitespace s) = s"

text \<open>What a text can say: readable identifiers, limits in range, texts with single spaces.\<close>

fun sayable :: "gateway_parsers \<Rightarrow> (json \<Rightarrow> string) \<Rightarrow> gateway_action \<Rightarrow> bool" where
  "sayable ps render (SubmitRun task profile) \<longleftrightarrow> single_spaced task \<and> ''--profile'' \<notin> set (split_whitespace task)"
| "sayable ps render (CancelRun rid) \<longleftrightarrow> readable_id ps rid"
| "sayable ps render (PauseRun rid) \<longleftrightarrow> readable_id ps rid"
| "sayable ps render (ResumeRun rid) \<longleftrightarrow> readable_id ps rid"
| "sayable ps render (RetryRun rid) \<longleftrightarrow> readable_id ps rid"
| "sayable ps render (CloneRun rid target) \<longleftrightarrow> readable_id ps rid \<and> (case target of None \<Rightarrow> True | Some s \<Rightarrow> readable_id ps s)"
| "sayable ps render (GetRun rid) \<longleftrightarrow> readable_id ps rid"
| "sayable ps render (ListRuns sid n) \<longleftrightarrow> 1 \<le> n \<and> n \<le> 100 \<and> (case sid of None \<Rightarrow> True | Some s \<Rightarrow> readable_id ps s)"
| "sayable ps render (ListSessions n) \<longleftrightarrow> 1 \<le> n \<and> n \<le> 100"
| "sayable ps render (ListWorkflows n) \<longleftrightarrow> 1 \<le> n \<and> n \<le> 100"
| "sayable ps render (ExecuteWorkflow wid params) \<longleftrightarrow> word wid \<and> (case params of None \<Rightarrow> True
     | Some p \<Rightarrow> single_spaced (render p) \<and> render p \<noteq> [] \<and> gp_json ps (render p) = Some p)"
| "sayable ps render Help \<longleftrightarrow> True"

lemma words_split: "list_all word (split_whitespace s)"
proof -
  have "list_all (\<lambda>c. \<not> is_space c) acc \<Longrightarrow> list_all word (split_space acc s)" for acc
    by (induction acc s rule: split_space.induct) (simp_all add: word_def)
  then show ?thesis by (simp add: split_whitespace_def)
qed

lemma show_nat_word: "word (show_nat n)"
proof -
  have "is_digit c \<Longrightarrow> \<not> is_space c" for c by (auto simp: is_digit_def is_space_def)
  then show ?thesis using show_nat_digits [of n] show_nat_nonempty [of n] by (auto simp: word_def list_all_iff)
qed

lemma parse_limit_show: "1 \<le> n \<Longrightarrow> n \<le> 100 \<Longrightarrow> parse_limit (show_nat n) = n"
  by (simp add: parse_limit_def parse_show_nat)

lemma parse_profile_display: "parse_profile (task_profile_display p) = p"
  by (cases p) (simp_all add: parse_profile_def to_lower_def)

lemma run_args_words:
  "''--profile'' \<notin> set ts \<Longrightarrow>
     run_args_loop (ts @ [''--profile'', task_profile_display p]) parts q = (parts @ ts, p)"
proof (induction ts arbitrary: parts)
  case (Cons t ts)
  then have "t \<noteq> ''--profile''" by auto
  with Cons show ?case by simp
qed (simp add: parse_profile_display)

lemma keyword_words:
  "word ''run''" "word ''cancel''" "word ''pause''" "word ''resume''" "word ''retry''" "word ''clone''" "word ''status''"
  "word ''runs''" "word ''sessions''" "word ''workflows''" "word ''workflow-run''" "word ''help''" "word ''--session''"
  "word ''--limit''" "word ''--profile''" "word ''--params''"
  by (simp_all add: word_def is_space_def)

lemma display_word: "word (task_profile_display p)"
  by (cases p) (simp_all add: word_def is_space_def)

lemma command_words_are_words: "sayable ps render a \<Longrightarrow> list_all word (command_words render a)"
  by (cases a) (auto simp: keyword_words display_word words_split show_nat_word session_words_def limit_words_def
      readable_id_def split: option.splits)

text \<open>The parser on words: the keyword chooses, and the arguments are the words after it.\<close>

lemma parse_action_words:
  assumes "list_all word (w # ws)"
  shows "parse_action ps (join '' '' (w # ws)) =
     (let sub = map to_lower w; rest = join '' '' ws
      in if sub = ''run'' then (case parse_run_args rest of (task, profile) \<Rightarrow> SubmitRun task profile)
         else if sub = ''cancel'' then CancelRun (parse_uuid_arg ps rest)
         else if sub = ''pause'' then PauseRun (parse_uuid_arg ps rest)
         else if sub = ''resume'' then ResumeRun (parse_uuid_arg ps rest)
         else if sub = ''retry'' then RetryRun (parse_uuid_arg ps rest)
         else if sub = ''clone'' then (case parse_clone_args ps rest of (rid, target) \<Rightarrow> CloneRun rid target)
         else if sub = ''status'' then GetRun (parse_uuid_arg ps rest)
         else if sub = ''runs'' then (case parse_list_args ps rest of (sid, limit) \<Rightarrow> ListRuns sid limit)
         else if sub = ''sessions'' then ListSessions (parse_limit_arg rest)
         else if sub = ''workflows'' then ListWorkflows (parse_limit_arg rest)
         else if sub = ''workflow-run'' then (case parse_workflow_args ps rest of (wid, params) \<Rightarrow> ExecuteWorkflow wid params)
         else if sub = ''results'' then GetRun (parse_uuid_arg ps rest)
         else if sub = ''help'' then Help
         else SubmitRun (join '' '' (w # ws)) General)"
  using assms split_command_words [of w ws] trim_words [OF assms]
  by (simp add: parse_action_def Let_def del: join.simps)

lemma spaced_nonempty: "join '' '' (split_whitespace s) = s \<Longrightarrow> s \<noteq> [] \<Longrightarrow> split_whitespace s \<noteq> []"
  by auto

lemma uuid_arg_word: "readable_id ps i \<Longrightarrow> parse_uuid_arg ps (join '' '' [i]) = i"
  using trim_words [of "[i]"] split_words [of "[i]"]
  by (simp add: parse_uuid_arg_def readable_id_def uuid_or_nil_def)

text \<open>
  C37: the text of a command is read back as the command, for every command a text can say.
\<close>

theorem command_text_roundtrip:
  assumes "sayable ps render a"
  shows "parse_action ps (command_text render a) = a"
proof -
  note words = command_words_are_words [OF assms]
  note read = parse_action_words Let_def to_lower_def uuid_arg_word split_words keyword_words display_word
    words_split show_nat_word
  note args = parse_run_args_def run_args_words parse_clone_args_def parse_list_args_def parse_limit_arg_def
    parse_workflow_args_def session_words_def limit_words_def parse_limit_show uuid_or_nil_def readable_id_def single_spaced_def
  show ?thesis
  proof (cases a)
    case (SubmitRun task profile)
    with words assms show ?thesis
      by (simp add: command_text_def read args del: join.simps)
  next
    case (CloneRun rid target)
    with words assms show ?thesis
      by (cases target) (simp_all add: command_text_def read args del: join.simps)
  next
    case (ListRuns sid n)
    with words assms show ?thesis
      by (cases sid) (simp_all add: command_text_def read args del: join.simps)
  next
    case (ExecuteWorkflow wid params)
    with words assms show ?thesis
      by (cases params) (simp_all add: command_text_def read args spaced_nonempty del: join.simps)
  qed (use words assms in \<open>simp_all add: command_text_def read args del: join.simps\<close>)
qed

definition demo_parsers :: gateway_parsers where
  "demo_parsers = \<lparr>gp_uuid = \<lambda>s. if s \<in> {''r1'', ''s1''} then Some s else None, gp_json = \<lambda>_. None\<rparr>"

theorem command_text_roundtrip_witness:
  "parse_action demo_parsers ''clone r1 --session s1'' = CloneRun ''r1'' (Some ''s1'')"
proof -
  have "command_text (\<lambda>_. []) (CloneRun ''r1'' (Some ''s1'')) = ''clone r1 --session s1''"
    by (simp add: command_text_def session_words_def)
  moreover have "sayable demo_parsers (\<lambda>_. []) (CloneRun ''r1'' (Some ''s1''))"
    by (simp add: readable_id_def demo_parsers_def word_def is_space_def)
  ultimately show ?thesis by (metis command_text_roundtrip)
qed

section \<open>Texts that are no commands\<close>

text \<open>
  A free text that begins with a keyword is a command on the nil run; an identifier that cannot be
  read is the nil identifier.
\<close>

lemma free_text_is_clone: "parse_action demo_parsers ''clone the repo and fix it'' = CloneRun nil_uuid None"
  by (simp add: parse_action_def Let_def split_command_def trim_def is_space_def to_lower_def parse_clone_args_def
      split_whitespace_def uuid_or_nil_def demo_parsers_def)

lemma bad_id_is_nil: "parse_action demo_parsers ''cancel r2'' = CancelRun nil_uuid"
  by (simp add: parse_action_def Let_def split_command_def trim_def is_space_def to_lower_def parse_uuid_arg_def
      split_whitespace_def uuid_or_nil_def demo_parsers_def)

text \<open>The lines of a task become one line.\<close>

lemma run_joins_lines: "fst (parse_run_args text) = join '' '' (fst (run_args_loop (split_whitespace text) [] General))"
  by (simp add: parse_run_args_def split: prod.split)

section \<open>The session of a channel\<close>

lemma submit_session:
  assumes "submit_run env eid f rid fresh req st = (Inr sub, st')"
  shows "rs_session sub = (case rq_session req of Some s \<Rightarrow> s | None \<Rightarrow> fresh)"
proof -
  have "rs_session sub = sid" if "submit_resolved env eid f rid sid req route st = (Inr sub, st')" for sid req route st
    using that by (auto simp: submit_resolved_def spawn_run_def Let_def split: prod.splits sum.splits)
  then show ?thesis using assms
    by (auto simp: submit_run_def Let_def split: prod.splits option.splits sum.splits)
qed

text \<open>Commands one after the other, with the responses.\<close>

fun gateway_run :: "submit_env \<Rightarrow> (command_env \<times> gateway_command) list \<Rightarrow> gateway \<Rightarrow> gateway_response list" where
  "gateway_run env [] g = []"
| "gateway_run env ((ce, cmd) # cs) g = (case handle_command env ce cmd g of (r, g) \<Rightarrow> r # gateway_run env cs g)"

definition submits_from :: "platform \<Rightarrow> string \<Rightarrow> gateway_command \<Rightarrow> bool" where
  "submits_from p ch cmd \<longleftrightarrow> is_submit (gc_action cmd) \<and> og_platform (gc_origin cmd) = p
     \<and> og_channel (gc_origin cmd) = ch \<and> gc_session cmd = None"

lemma resolve_keeps:
  assumes "resolve_session env ce p ch explicit g = (x, g')"
  shows "channel_session q c g = Some sid \<Longrightarrow> channel_session q c g' = Some sid"
    and "x = Inr s \<Longrightarrow> explicit = None \<Longrightarrow> channel_session p ch g' = Some s"
  using assms by (auto simp: resolve_session_def open_session_def channel_session_def hm_simps split: option.splits prod.splits sum.splits)

lemma map_sum_Inr_iff: "map_sum id f x = Inr y \<longleftrightarrow> (\<exists>z. x = Inr z \<and> y = f z)"
  by (cases x) auto

lemma submitted_map: "submitted y g = (x, g') \<Longrightarrow> gw_map g' = gw_map g"
  by (auto simp: submitted_def split: prod.splits)

lemma run_action_map: "run_action op rid nm g = (x, g') \<Longrightarrow> gw_map g' = gw_map g"
  by (auto simp: run_action_def split: prod.splits)

lemma command_keeps_channel:
  assumes "handle_command env ce cmd g = (r, g')" and "channel_session p ch g = Some sid"
  shows "channel_session p ch g' = Some sid"
proof -
  obtain x where x: "gateway_execute env ce cmd g = (x, g')"
    using assms(1) by (auto simp: handle_command_def split: prod.splits)
  obtain y g1 where y: "resolve_session env ce (og_platform (gc_origin cmd)) (og_channel (gc_origin cmd)) (gc_session cmd) g = (y, g1)"
    by fastforce
  have "channel_session p ch g1 = Some sid" by (rule resolve_keeps(1) [OF y assms(2)])
  moreover have "gw_map g' = gw_map g \<or> gw_map g' = gw_map g1"
    using x y by (auto simp: gateway_execute_def Let_def with_session_def dest: submitted_map run_action_map
        split: gateway_action.splits sum.splits)
  ultimately show ?thesis using assms(2) by (auto simp: channel_session_def)
qed

lemma submission_of_channel:
  assumes "handle_command env ce cmd g = (r, g')" and "submits_from p ch cmd" and "gr_payload r = RunSubmitted sub"
  shows "channel_session p ch g' = Some (rs_session sub)"
proof -
  obtain task profile where a: "gc_action cmd = SubmitRun task profile"
    using assms(2) by (auto simp: submits_from_def is_submit_def split: gateway_action.splits)
  obtain x where x: "gateway_execute env ce cmd g = (x, g')" "x = Inr (RunSubmitted sub)"
    using assms(1,3) by (auto simp: handle_command_def split: prod.splits sum.splits)
  obtain y g1 where y: "resolve_session env ce p ch None g = (y, g1)" by fastforce
  with x a assms(2) obtain sid where sid: "y = Inr sid"
    by (cases y) (auto simp: gateway_execute_def Let_def with_session_def submits_from_def)
  with x a y assms(2) have s: "submitted (submit_run env (ge_event ce) (ge_faults ce) (ge_run ce) (ge_other_session ce)
      (chat_request task profile sid) (gw_sub g1)) g1 = (Inr (RunSubmitted sub), g')"
    by (simp add: gateway_execute_def Let_def with_session_def submits_from_def)
  then have "rs_session sub = sid"
    by (auto simp: submitted_def chat_request_def map_sum_Inr_iff dest!: submit_session split: prod.splits)
  then show ?thesis
    using resolve_keeps(2) [OF y sid] submitted_map [OF s] by (simp add: channel_session_def)
qed

lemma channel_sessions:
  assumes "channel_session p ch g = Some sid" and "j < length cs" and "submits_from p ch (snd (cs ! j))"
    and "gr_payload (gateway_run env cs g ! j) = RunSubmitted sub"
  shows "rs_session sub = sid"
  using assms
proof (induction cs arbitrary: g j)
  case (Cons c cs)
  obtain ce cmd where c: "c = (ce, cmd)" by fastforce
  obtain r g' where h: "handle_command env ce cmd g = (r, g')" by fastforce
  note kept = command_keeps_channel [OF h Cons.prems(1)]
  show ?case
  proof (cases j)
    case 0
    with Cons.prems c h submission_of_channel [OF h] kept show ?thesis by simp
  next
    case (Suc k)
    with Cons.prems Cons.IH [OF kept, of k] c h show ?thesis by simp
  qed
qed simp

text \<open>
  C38: commands that come one after the other from one channel without naming a session submit
  their runs to one session, whatever other channels do in between.
\<close>

theorem channel_keeps_session:
  assumes "i < j" and "j < length cs"
    and "submits_from p ch (snd (cs ! i))" and "submits_from p ch (snd (cs ! j))"
    and "gr_payload (gateway_run env cs g ! i) = RunSubmitted a" and "gr_payload (gateway_run env cs g ! j) = RunSubmitted b"
  shows "rs_session a = rs_session b"
  using assms
proof (induction cs arbitrary: g i j)
  case (Cons c cs)
  obtain ce cmd where c: "c = (ce, cmd)" by fastforce
  obtain r g' where h: "handle_command env ce cmd g = (r, g')" by fastforce
  obtain k where j: "j = Suc k" using Cons.prems(1) by (cases j) auto
  show ?case
  proof (cases i)
    case 0
    then have "channel_session p ch g' = Some (rs_session a)"
      using Cons.prems c h submission_of_channel [OF h] by simp
    from channel_sessions [OF this, of k cs env b] Cons.prems c h j show ?thesis by simp
  next
    case (Suc i')
    with Cons.prems Cons.IH [of i' k g'] c h j show ?thesis by simp
  qed
qed simp

definition demo_origin :: message_origin where
  "demo_origin = \<lparr>og_platform = Web, og_channel = ''c'', og_thread = None, og_user = ''u''\<rparr>"

definition demo_commands :: "(command_env \<times> gateway_command) list" where
  "demo_commands = map (\<lambda>(sid, rid). (\<lparr>ge_faults = no_faults, ge_session = sid, ge_run = rid, ge_other_session = ''x'',
     ge_event = \<lambda>_. ''e''\<rparr>, parse_gateway_text demo_parsers ''fix it'' demo_origin)) [(''s1'', ''r1''), (''s2'', ''r2'')]"

definition demo_responses :: "gateway_response list" where
  "demo_responses = gateway_run sample_submit_env demo_commands \<lparr>gw_sub = sample_submitter, gw_map = []\<rparr>"

lemma demo_submitted:
  "list_all (\<lambda>r. case gr_payload r of RunSubmitted _ \<Rightarrow> True | _ \<Rightarrow> False) demo_responses \<and> length demo_responses = 2"
  by code_simp

theorem channel_keeps_session_witness:
  "\<exists>a b. gr_payload (demo_responses ! 0) = RunSubmitted a \<and> gr_payload (demo_responses ! 1) = RunSubmitted b
     \<and> rs_session a = rs_session b"
proof -
  have "\<exists>a. gr_payload (demo_responses ! i) = RunSubmitted a" if "i < 2" for i
    using demo_submitted that by (cases "gr_payload (demo_responses ! i)") (auto simp: list_all_length dest!: spec [of _ i])
  from this [of 0] this [of 1] obtain a b where ab: "gr_payload (demo_responses ! 0) = RunSubmitted a"
    "gr_payload (demo_responses ! 1) = RunSubmitted b" by auto
  have "list_all (submits_from Web ''c'') (map snd demo_commands) \<and> length demo_commands = 2" by code_simp
  then have c: "submits_from Web ''c'' (snd (demo_commands ! i))" "1 < length demo_commands" if "i < 2" for i
    using that by (auto simp: list_all_length)
  have "rs_session a = rs_session b"
    using channel_keeps_session [of 0 1 demo_commands Web "''c''" sample_submit_env] ab c [of 0] c [of 1]
    by (simp add: demo_responses_def)
  with ab show ?thesis by blast
qed

text \<open>
  Two commands that look the channel up before either has opened its session open two: the runs
  of the channel are then in different sessions.
\<close>

lemma concurrent_commands_two_sessions:
  assumes "channel_session p ch g = None"
    and "open_session env ce p ch g = (Inr s, g1)" and "open_session env ce' p ch g1 = (Inr s', g2)"
  shows "s = ge_session ce \<and> s' = ge_session ce' \<and> channel_session p ch g2 = Some s'"
  using assms by (auto simp: open_session_def channel_session_def hm_simps split: prod.splits sum.splits)

section \<open>Slack\<close>

lemma slack_signed:
  assumes "verify_slack hmac now (new_slack_verifier secret) headers body = Inr ()" and "0 \<le> now" "now < 2 ^ 62"
  obtains ts digest n where "hm_get headers ''X-Slack-Request-Timestamp'' = Some (Some ts)" "parse_i64 ts = Some n"
    and "hmac secret (''v0:'' @ ts @ '':'' @ body) = Inr digest"
    and "hm_get headers ''X-Slack-Signature'' = Some (Some (''v0='' @ to_hex digest))"
    and "\<bar>now - n\<bar> \<le> 300 \<or> now - n = 2 ^ 63"
proof -
  obtain ts sig n d where h: "header_str headers ''X-Slack-Request-Timestamp'' = Inr ts"
      "header_str headers ''X-Slack-Signature'' = Inr sig" "parse_i64 ts = Some n" "\<not> drift_exceeded now n 300"
      "hmac_sha256_hex hmac secret (''v0:'' @ ts @ '':'' @ body) = Inr d"
      "constant_time_eq (bytes_of (''v0='' @ d)) (bytes_of sig)"
    using assms(1) by (auto simp: verify_slack_def new_slack_verifier_def split: sum.splits option.splits if_splits)
  then obtain digest where "hmac secret (''v0:'' @ ts @ '':'' @ body) = Inr digest" "d = to_hex digest"
    by (auto simp: hmac_sha256_hex_def map_sum_Inr_iff)
  moreover have "sig = ''v0='' @ d" using h(6) by (metis constant_time_eq_eq text_of_bytes)
  moreover have "\<bar>now - n\<bar> \<le> 300 \<or> now - n = 2 ^ 63"
    using h(4) parse_i64_range [OF h(3)] assms(2,3) by (subst (asm) drift_exceeded_iff) auto
  ultimately show thesis
    using h(1-3) that by (auto simp: header_str_def split: option.splits)
qed

text \<open>
  A Slack request spawns a task only when its signature is the HMAC of its timestamp and body
  under the signing secret, and its timestamp is within five minutes of the clock.
\<close>

theorem slack_tasks_signed:
  assumes "snd (slash_command_handler se cfg now headers body) = Some t \<or> snd (events_handler se cfg now headers body) = Some t"
    and "0 \<le> now" "now < 2 ^ 62"
  shows "\<exists>ts n digest. hm_get headers ''X-Slack-Request-Timestamp'' = Some (Some ts) \<and> parse_i64 ts = Some n
    \<and> se_hmac se (slack_secret cfg) (''v0:'' @ ts @ '':'' @ body) = Inr digest
    \<and> hm_get headers ''X-Slack-Signature'' = Some (Some (''v0='' @ to_hex digest))
    \<and> (\<bar>now - n\<bar> \<le> 300 \<or> now - n = 2 ^ 63)"
proof -
  have "verify_slack (se_hmac se) now (new_slack_verifier (slack_secret cfg)) headers body = Inr ()"
    using assms(1) by (auto simp: slash_command_handler_def events_handler_def split: sum.splits)
  from this assms(2,3) show ?thesis by (rule slack_signed) blast
qed

definition demo_slack :: slack_env where
  "demo_slack = \<lparr>se_hmac = \<lambda>_ _. Inr [0], se_parsers = demo_parsers, se_form = \<lambda>_. Some [(''text'', ''help'')],
     se_json = \<lambda>_. Inl ''none''\<rparr>"

definition demo_headers :: headers where
  "demo_headers = [(''X-Slack-Request-Timestamp'', Some ''100''), (''X-Slack-Signature'', Some ''v0=00'')]"

theorem slack_tasks_signed_witness:
  "\<exists>t. snd (slash_command_handler demo_slack \<lparr>bot_token = [], slack_secret = ''k''\<rparr> 100 demo_headers ''b'') = Some t
     \<and> hm_get demo_headers ''X-Slack-Signature'' = Some (Some (''v0='' @ to_hex [0]))"
proof -
  have "verify_slack (\<lambda>_ _. Inr [0]) 100 (new_slack_verifier ''k'') demo_headers ''b'' = Inr ()"
    by code_simp
  then obtain t where t: "snd (slash_command_handler demo_slack \<lparr>bot_token = [], slack_secret = ''k''\<rparr> 100 demo_headers ''b'') = Some t"
    by (simp add: slash_command_handler_def demo_slack_def Let_def)
  from slack_tasks_signed [OF disjI1 [OF t]] obtain digest where
    "se_hmac demo_slack ''k'' (''v0:'' @ ''100'' @ '':'' @ ''b'') = Inr digest"
    "hm_get demo_headers ''X-Slack-Signature'' = Some (Some (''v0='' @ to_hex digest))"
    by (auto simp: demo_headers_def hm_get_def)
  with t show ?thesis by (auto simp: demo_slack_def)
qed

text \<open>
  What the adapter posts into a channel comes back as a message event, which it does not tell from
  one of a user: its own answer to a submission is the task of another run, whose answer is again
  posted. A mention is one event as mention and another as message, each of which is a command.
\<close>

lemma own_answer_submits:
  assumes "j_get event ''type'' = Some (J_String ''message'')"
    and "j_get event ''text'' = Some (J_String (format_slack_response (RunSubmitted \<lparr>rs_run = ''r'', rs_session = ''s'', rs_status = RS_Queued\<rparr>)))"
  shows "\<exists>t task. event_task ps event = Some t \<and> gc_action (sk_command t) = SubmitRun task General"
proof -
  let ?text = "cleaned_text (format_slack_response (RunSubmitted \<lparr>rs_run = ''r'', rs_session = ''s'', rs_status = RS_Queued\<rparr>))"
  have "fst (split_command (trim ?text)) = '':rocket:''" by code_simp
  then have "parse_action ps ?text = SubmitRun (trim ?text) General"
    by (simp add: parse_action_def Let_def to_lower_def)
  with assms show ?thesis by (simp add: event_task_def j_text_def parse_gateway_text_def)
qed

lemma mention_twice:
  assumes "j_get event ''type'' = Some (J_String ''app_mention'')" "j_get again ''type'' = Some (J_String ''message'')"
    and "\<And>k. k \<noteq> ''type'' \<Longrightarrow> j_get again k = j_get event k"
  shows "event_task ps event = event_task ps again \<and> event_task ps event \<noteq> None"
proof -
  have "event_origin again = event_origin event" "j_text again ''text'' = j_text event ''text''"
    by (simp_all add: event_origin_def j_text_def assms(3) cong: option.case_cong)
  then show ?thesis using assms(1,2) by (simp add: event_task_def j_text_def)
qed

text \<open>The poll of a run delivers its first terminal record and nothing before; a run that is gone is not answered.\<close>

definition still_running :: "string + run_record option \<Rightarrow> bool" where
  "still_running x \<longleftrightarrow> (case x of Inr (Some r) \<Rightarrow> \<not> run_is_terminal (run_status r) | _ \<Rightarrow> False)"

lemma poll_delivers_first_terminal:
  "poll_and_deliver origin xs = (case dropWhile still_running xs of
     [] \<Rightarrow> (None, False)
   | Inr (Some r) # _ \<Rightarrow> (Some \<lparr>gr_origin = origin, gr_payload = RunDetails r\<rparr>, True)
   | _ \<Rightarrow> (None, True))"
  by (induction origin xs rule: poll_and_deliver.induct) (simp_all add: still_running_def)

end
