(* ===== verification/Discord_Properties.thy ===== *)
theory Discord_Properties
  imports Discord Gateway_Properties
begin

text \<open>
  Theorems about the Discord adapter: the buttons offered for a run act on it; the end of a polled
  run is always told; the registered commands are understood; and an output that makes the embed
  of the results panic.
\<close>

section \<open>Buttons\<close>

lemma decode_encode:
  assumes "gp_uuid ps rid = Some rid" and "CHR '':'' \<notin> set action"
  shows "decode_custom_id ps (encode_custom_id action rid) = Some (action, rid)"
proof -
  have "takeWhile (\<lambda>c. c \<noteq> CHR '':'') (action @ '':'' @ rid) = action"
    "dropWhile (\<lambda>c. c \<noteq> CHR '':'') (action @ '':'' @ rid) = '':'' @ rid"
    using assms(2) by (induction action) auto
  with assms(1) show ?thesis by (simp add: encode_custom_id_def decode_custom_id_def)
qed

definition custom_id_of :: "json \<Rightarrow> string" where
  "custom_id_of b = j_text b ''custom_id''"

lemma custom_id_button: "custom_id_of (button k l action rid) = encode_custom_id action rid"
  by (simp add: custom_id_of_def j_text_def button_def)

text \<open>A run that the manager has in memory with its control.\<close>

definition in_memory :: "gateway \<Rightarrow> string \<Rightarrow> run_status \<Rightarrow> bool" where
  "in_memory g rid s \<longleftrightarrow> run_status_of (sb_orch (gw_sub g)) rid = Some s
     \<and> hm_get (o_controls (sb_orch (gw_sub g))) rid \<noteq> None"

definition pressed :: "submit_env \<Rightarrow> command_env \<Rightarrow> message_origin \<Rightarrow> gateway_action \<Rightarrow> gateway \<Rightarrow> gateway_payload" where
  "pressed env ce origin a g = gr_payload (fst (handle_command env ce \<lparr>gc_action = a, gc_origin = origin, gc_session = None\<rparr> g))"

lemma action_on_active:
  assumes "in_memory g rid s" "f_upsert (ge_faults ce) = None" "\<not> run_is_terminal s"
  shows "pressed env ce origin (CancelRun rid) g = RunAction rid ''cancel'' True"
    and "s \<noteq> RS_Paused \<Longrightarrow> pressed env ce origin (PauseRun rid) g = RunAction rid ''pause'' True"
    and "pressed env ce origin (ResumeRun rid) g = RunAction rid ''resume'' True"
  using assms
  by (auto simp: in_memory_def run_status_of_def pressed_def handle_command_def gateway_execute_def Let_def run_action_def
      cancel_run_def pause_run_def resume_run_def upsert_run_def)

definition action_for :: "string \<Rightarrow> run_status \<Rightarrow> bool" where
  "action_for a s \<longleftrightarrow> (a = ''cancel'' \<and> \<not> run_is_terminal s) \<or> (a = ''pause'' \<and> \<not> run_is_terminal s \<and> s \<noteq> RS_Paused)
     \<or> (a = ''resume'' \<and> \<not> run_is_terminal s) \<or> (a = ''retry'' \<and> run_is_terminal s) \<or> (a = ''results'' \<and> s = RS_Succeeded)"

lemma status_buttons_actions:
  assumes "b \<in> set (status_buttons rid s)"
  shows "\<exists>k l a. b = button k l a rid \<and> action_for a s"
  using assms by (cases s) (auto simp only: status_buttons.simps list.set insert_iff empty_iff action_for_def run_is_terminal.simps run_status.distinct simp_thms)

lemma action_for_plain: "action_for a s \<Longrightarrow> CHR '':'' \<notin> set a"
  by (elim action_for_def [THEN iffD1, elim_format] disjE conjE) simp_all


definition gateway_with_run :: "run_status \<Rightarrow> gateway" where
  "gateway_with_run s = \<lparr>gw_sub = sample_submitter\<lparr>sb_orch := (sb_orch sample_submitter)\<lparr>
       o_runs := [(''r1'', (new_queued ''t'' ''r1'' ''s1'' ''fix it'' General)\<lparr>run_status := s\<rparr>)],
       o_controls := [(''r1'', new_control)]\<rparr>\<rparr>, gw_map = []\<rparr>"

definition demo_env :: command_env where
  "demo_env = \<lparr>ge_faults = no_faults, ge_session = ''s2'', ge_run = ''r2'', ge_other_session = ''x'', ge_event = \<lambda>_. ''e''\<rparr>"


text \<open>A run that is only in the store, as after a restart, is shown with buttons that do nothing.\<close>

lemma buttons_dead_after_restart:
  assumes "hm_get (o_controls (sb_orch (gw_sub g))) rid = None"
  shows "pressed env ce origin (CancelRun rid) g = RunAction rid ''cancel'' False"
    and "pressed env ce origin (PauseRun rid) g = RunAction rid ''pause'' False"
    and "pressed env ce origin (ResumeRun rid) g = RunAction rid ''resume'' False"
  using assms
  by (auto simp: pressed_def handle_command_def gateway_execute_def Let_def run_action_def
      cancel_run_def pause_run_def resume_run_def)

section \<open>Polling\<close>

lemma poll_update_final:
  assumes "run_is_terminal (run_status r)" and "poll_update millis edit_ok origin token r st = (posts, st')"
  shows "posts \<noteq> [] \<and> snd (last posts) = build_run_details_embed millis r
    \<and> (fst (last posts) = Channel_Message (og_channel origin)
       \<or> fst (last posts) = Original token \<and> edit_ok (dp_edits st' - 1) \<and> dp_edits st' \<noteq> 0)"
  using assms by (auto simp: poll_update_def Let_def split: if_splits)

text \<open>
  When the polling of a run sees it end, the last thing it posts is the final record of the
  run: by an edit that succeeded, or as a message in the channel.
\<close>

theorem discord_final_told:
  assumes "discord_poll millis edit_ok origin token xs st = (posts, st', True)"
    and "dropWhile still_running xs = Inr (Some r) # rest"
  shows "posts \<noteq> [] \<and> snd (last posts) = build_run_details_embed millis r
    \<and> (fst (last posts) = Channel_Message (og_channel origin)
       \<or> fst (last posts) = Original token \<and> edit_ok (dp_edits st' - 1))"
  using assms
proof (induction xs arbitrary: st posts)
  case (Cons x xs)
  show ?case
  proof (cases "still_running x")
    case False
    then have x: "x = Inr (Some r)" "run_is_terminal (run_status r)"
      using Cons.prems(2) by (auto simp: still_running_def)
    then have "poll_update millis edit_ok origin token r st = (posts, st')"
      using Cons.prems(1) by (auto split: prod.splits)
    from poll_update_final [OF x(2) this] show ?thesis by blast
  next
    case True
    then obtain q where q: "x = Inr (Some q)" "\<not> run_is_terminal (run_status q)"
      by (auto simp: still_running_def split: sum.splits option.splits)
    obtain p1 st1 where u: "poll_update millis edit_ok origin token q st = (p1, st1)" by fastforce
    obtain p2 st2 o2 where d: "discord_poll millis edit_ok origin token xs st1 = (p2, st2, o2)" by (cases "discord_poll millis edit_ok origin token xs st1") auto
    have "dropWhile still_running xs = Inr (Some r) # rest" using Cons.prems(2) True by simp
    with Cons.IH [of st1 p2] Cons.prems(1) q u d show ?thesis by auto
  qed
qed simp

definition demo_run :: "run_status \<Rightarrow> run_record" where
  "demo_run s = (new_queued ''t'' ''r1'' ''s1'' ''fix it'' General)\<lparr>run_status := s\<rparr>"

theorem discord_final_told_witness:
  "\<exists>posts st. discord_poll (\<lambda>_ _. []) (\<lambda>k. k = 0) demo_origin ''tok'' [Inr (Some (demo_run RS_Running)),
       Inr (Some (demo_run RS_Running)), Inr (Some (demo_run RS_Succeeded))] poll_start = (posts, st, True)
     \<and> snd (last posts) = build_run_details_embed (\<lambda>_ _. []) (demo_run RS_Succeeded)"
proof -
  let ?xs = "[Inr (Some (demo_run RS_Running)), Inr (Some (demo_run RS_Running)), Inr (Some (demo_run RS_Succeeded))]"
  let ?p = "discord_poll (\<lambda>_ _. []) (\<lambda>k. k = 0) demo_origin ''tok'' ?xs poll_start"
  obtain posts st over where p: "?p = (posts, st, over)" by (cases ?p) blast
  then have o: "over" by (simp add: demo_run_def split: prod.splits)
  have d: "dropWhile still_running ?xs = Inr (Some (demo_run RS_Succeeded)) # []"
    by (simp add: still_running_def demo_run_def)
  from p o have q: "?p = (posts, st, True)" by simp
  from discord_final_told [OF q d] q show ?thesis by blast
qed

section \<open>Commands\<close>

text \<open>Each registered command is understood.\<close>

lemma registered_commands_known:
  assumes "c \<in> set global_commands" and "j_text c ''name'' \<noteq> ''agent-help''"
  shows "parse_discord_command de (j_text c ''name'') data \<noteq> Help"
  using assms by (auto simp: global_commands_def slash_command_def j_text_def parse_discord_command_def Let_def)

text \<open>A run that is repeated by the command is not followed, one repeated by the button is.\<close>

lemma slash_retry_not_followed: "\<not> wants_poll (RetryRun rid)"
  by (simp add: wants_poll_def)

text \<open>
  The cut of an output looks at bytes, and the output was shortened by characters: one letter and
  four hundred Korean syllables, three bytes each, make the embed of the results panic.
\<close>

definition syllable :: string where
  "syllable = utf8 [0xEA, 0xB0, 0x80]"

definition korean_output :: string where
  "korean_output = CHR ''a'' # concat (replicate 400 syllable)"

lemma syllable_bytes: "syllable = [CHR 0xEA, CHR 0xB0, CHR 0x80]"
  by code_simp

lemma take_syllables: "k \<le> n \<Longrightarrow> take_chars n (concat (replicate k syllable)) = concat (replicate k syllable)"
proof (induction k arbitrary: n)
  case (Suc k)
  then obtain m where "n = Suc m" "k \<le> m" by (cases n) auto
  with Suc.IH [of m] show ?case by (simp add: syllable_bytes continues_def)
qed simp

lemma length_syllables: "length (concat (replicate k syllable)) = 3 * k"
  by (induction k) (simp_all add: syllable_bytes)

lemma third_byte: "j < k \<Longrightarrow> (concat (replicate k syllable) @ t) ! (3 * j + 2) = CHR 0x80"
proof (induction j arbitrary: k)
  case 0
  then show ?case by (cases k) (simp_all add: syllable_bytes)
next
  case (Suc j)
  then obtain m where "k = Suc m" "j < m" by (cases k) auto
  with Suc.IH [of m] show ?case by (simp add: syllable_bytes eval_nat_numeral)
qed

lemma no_boundary:
  assumes "j < k"
  shows "\<not> char_boundary (CHR ''a'' # concat (replicate k syllable) @ t) (3 * j + 3)"
proof -
  have "(CHR ''a'' # concat (replicate k syllable) @ t) ! (3 * j + 3) = CHR 0x80"
    using third_byte [OF assms, of t] by (simp add: numeral_3_eq_3)
  then show ?thesis using assms by (simp add: char_boundary_def length_syllables)
qed

lemma korean_output_panics:
  assumes "er_output x = korean_output"
  shows "output_value x = None"
proof -
  have "take_chars 500 korean_output = korean_output"
    by (simp add: korean_output_def take_syllables continues_def eval_nat_numeral(3) [of "Num.BitM Num.One"] split: nat.split)
  moreover have "length korean_output = 1201" by (simp add: korean_output_def length_syllables)
  moreover have "\<not> char_boundary (korean_output @ ''...'') 1014"
    using no_boundary [of 337 400 "''...''"] by (simp add: korean_output_def)
  ultimately show ?thesis by (simp add: output_value_def assms Let_def)
qed

end
