(* ===== verification/Cluster.thy ===== *)
theory Cluster
  imports Submission
begin

text \<open>
  What a run costs (\<^verbatim>\<open>src/pricing.rs\<close>), with exact numbers for the floating-point ones, and runs
  over several orchestrators (\<^verbatim>\<open>src/orchestrator/cluster.rs\<close>). The members of a cluster share all
  their state, so that one \<open>submitter\<close> stands for every member. The background task handles one
  message at a time; where a submission awaits between two sub-runs, messages come in between.
\<close>

section \<open>Prices\<close>

record model_price =
  input_per_1m :: rat
  output_per_1m :: rat

record pricing =
  global_default :: model_price
  provider_defaults :: "(string, model_price) hashmap"
  price_models :: "(string, model_price) hashmap"

definition zero_price :: model_price where
  "zero_price = \<lparr>input_per_1m = 0, output_per_1m = 0\<rparr>"

definition price_cost :: "model_price \<Rightarrow> token_usage \<Rightarrow> rat" where
  "price_cost p u = of_nat (unat (input_tokens u)) * input_per_1m p / 1000000
     + of_nat (unat (output_tokens u)) * output_per_1m p / 1000000"

definition default_global :: model_price where
  "default_global = \<lparr>input_per_1m = 1, output_per_1m = 3\<rparr>"

definition builtin_default :: pricing where
  "builtin_default = \<lparr>global_default = default_global,
     provider_defaults = [(''anthropic'', \<lparr>input_per_1m = 3, output_per_1m = 15\<rparr>),
       (''openai'', \<lparr>input_per_1m = 5 / 2, output_per_1m = 10\<rparr>),
       (''gemini'', \<lparr>input_per_1m = 5 / 4, output_per_1m = 5\<rparr>), (''vllm'', zero_price)],
     price_models = []\<rparr>"

text \<open>
  \<open>file path\<close> is none when the path is no file, and else what reading and parsing it answers.
\<close>

fun first_loaded :: "(string \<Rightarrow> (string + pricing) option) \<Rightarrow> string list \<Rightarrow> pricing" where
  "first_loaded file [] = builtin_default"
| "first_loaded file (path # paths) = (case file path of
     Some (Inr p) \<Rightarrow> p | _ \<Rightarrow> first_loaded file paths)"

definition candidate_paths :: "string option \<Rightarrow> string list" where
  "candidate_paths var = (case var of Some p \<Rightarrow> [p] | None \<Rightarrow> []) @ [''config/pricing.yaml'']"

definition load_pricing :: "string option \<Rightarrow> (string \<Rightarrow> (string + pricing) option) \<Rightarrow> pricing" where
  "load_pricing var file = first_loaded file (candidate_paths var)"

definition split_colon :: "string \<Rightarrow> (string \<times> string) option" where
  "split_colon s = (case dropWhile (\<lambda>c. c \<noteq> CHR '':'') s of
     [] \<Rightarrow> None | _ # rest \<Rightarrow> Some (takeWhile (\<lambda>c. c \<noteq> CHR '':'') s, rest))"

definition price_for :: "pricing \<Rightarrow> string \<Rightarrow> model_price" where
  "price_for p mdl = (case hm_get (price_models p) mdl of
       Some x \<Rightarrow> x
     | None \<Rightarrow> (case split_colon mdl of
         None \<Rightarrow> global_default p
       | Some (provider, bare) \<Rightarrow> (case hm_get (price_models p) bare of
           Some x \<Rightarrow> x
         | None \<Rightarrow> (case hm_get (provider_defaults p) provider of Some x \<Rightarrow> x | None \<Rightarrow> global_default p))))"

definition cost_for :: "pricing \<Rightarrow> string \<Rightarrow> token_usage \<Rightarrow> rat" where
  "cost_for p mdl u = price_cost (price_for p mdl) u"

text \<open>The cost of a run, from the models and usages of its results, as \<^verbatim>\<open>finish_run\<close> sums it.\<close>

definition node_cost :: "pricing \<Rightarrow> string \<times> token_usage option \<Rightarrow> rat option" where
  "node_cost p n = map_option (cost_for p (fst n)) (snd n)"

definition run_cost :: "pricing \<Rightarrow> (string \<times> token_usage option) list \<Rightarrow> rat option" where
  "run_cost p ns = foldl (\<lambda>acc n. case node_cost p n of None \<Rightarrow> acc
     | Some c \<Rightarrow> Some ((case acc of Some x \<Rightarrow> x | None \<Rightarrow> 0) + c)) None ns"

section \<open>Cluster runs\<close>

datatype cluster_status = CS_Running | CS_Succeeded | CS_Partial_Failure | CS_Failed

fun cluster_status_display :: "cluster_status \<Rightarrow> string" where
  "cluster_status_display CS_Running = ''running''"
| "cluster_status_display CS_Succeeded = ''succeeded''"
| "cluster_status_display CS_Partial_Failure = ''partial_failure''"
| "cluster_status_display CS_Failed = ''failed''"

record cluster_subtask =
  ct_orchestrator :: string
  ct_task :: string

record cluster_request =
  cq_task :: string
  cq_subtasks :: "cluster_subtask list"

record sub_run =
  sr_orchestrator :: string
  sr_run :: string
  sr_task :: string
  sr_status :: run_status

record cluster_run =
  cr_id :: string
  cr_task :: string
  cr_subs :: "sub_run list"
  cr_status :: cluster_status
  cr_created :: string
  cr_completed :: "string option"
  cr_usage :: "token_usage option"
  cr_cost :: "rat option"
  cr_estimate :: bool

record sub_completed =
  sc_cluster :: string
  sc_run :: string
  sc_status :: run_status
  sc_usage :: "token_usage option"
  sc_cost :: "rat option"

record cluster =
  cl_members :: "(string, unit) hashmap"
  cl_runs :: "(string, cluster_run) hashmap"

definition new_cluster :: cluster where
  "new_cluster = \<lparr>cl_members = [], cl_runs = []\<rparr>"

text \<open>The first sub-run with the identifier is updated.\<close>

fun set_sub_status :: "string \<Rightarrow> run_status \<Rightarrow> sub_run list \<Rightarrow> sub_run list" where
  "set_sub_status rid st [] = []"
| "set_sub_status rid st (s # ss) =
     (if sr_run s = rid then s\<lparr>sr_status := st\<rparr> # ss else s # set_sub_status rid st ss)"

definition cluster_outcome :: "sub_run list \<Rightarrow> cluster_status" where
  "cluster_outcome ss =
     (let ok = length (filter (\<lambda>s. sr_status s = RS_Succeeded) ss)
      in if ok = length ss then CS_Succeeded else if ok = 0 then CS_Failed else CS_Partial_Failure)"

definition complete_sub :: "string \<Rightarrow> sub_completed \<Rightarrow> cluster_run \<Rightarrow> cluster_run" where
  "complete_sub now m r =
     (let subs = set_sub_status (sc_run m) (sc_status m) (cr_subs r);
          r = r\<lparr>cr_subs := subs, cr_usage := merge_opt (cr_usage r) (sc_usage m)\<rparr>;
          r = (case sc_cost m of None \<Rightarrow> r
            | Some c \<Rightarrow> r\<lparr>cr_cost := Some ((case cr_cost r of Some x \<Rightarrow> x | None \<Rightarrow> 0) + c), cr_estimate := True\<rparr>)
      in if list_all (\<lambda>s. run_is_terminal (sr_status s)) subs
         then r\<lparr>cr_status := cluster_outcome subs, cr_completed := Some now\<rparr> else r)"

text \<open>One round of \<^verbatim>\<open>message_loop\<close>.\<close>

definition handle_message :: "string \<Rightarrow> sub_completed \<Rightarrow> cluster \<Rightarrow> cluster" where
  "handle_message now m cl = (case hm_get (cl_runs cl) (sc_cluster m) of
     None \<Rightarrow> cl
   | Some r \<Rightarrow> cl\<lparr>cl_runs := hm_insert (cl_runs cl) (sc_cluster m) (complete_sub now m r)\<rparr>)"

definition message_loop :: "(string \<times> sub_completed) list \<Rightarrow> cluster \<Rightarrow> cluster" where
  "message_loop ms cl = fold (\<lambda>(now, m). handle_message now m) ms cl"

definition cluster_add :: "string \<Rightarrow> cluster \<Rightarrow> cluster" where
  "cluster_add nm cl = cl\<lparr>cl_members := hm_insert (cl_members cl) nm ()\<rparr>"

definition member_names :: "cluster \<Rightarrow> string list" where
  "member_names cl = sort (hm_keys (cl_members cl))"

definition assignments :: "cluster_request \<Rightarrow> cluster \<Rightarrow> string + (string \<times> string) list" where
  "assignments req cl =
     (if cl_members cl = [] then Inl ''no orchestrators registered in cluster''
      else if cq_subtasks req = [] then Inr (map (\<lambda>nm. (nm, cq_task req)) (hm_keys (cl_members cl)))
      else (case find (\<lambda>s. \<not> hm_contains (cl_members cl) (ct_orchestrator s)) (cq_subtasks req) of
          Some s \<Rightarrow> Inl (''orchestrator '' @ [CHR 0x27] @ ct_orchestrator s @ [CHR 0x27] @ '' not registered in cluster'')
        | None \<Rightarrow> Inr (map (\<lambda>s. (ct_orchestrator s, ct_task s)) (cq_subtasks req))))"

text \<open>What each submission finds: the faults of the store and fresh identifiers.\<close>

record sub_env =
  su_faults :: faults
  su_run :: string
  su_session :: string
  su_event :: "nat \<Rightarrow> string"

definition sub_request :: "string \<Rightarrow> run_request" where
  "sub_request task = \<lparr>rq_task = task, rq_profile = General, rq_session = None, rq_workflow = None, rq_params = None,
     rq_repo_url = None, rq_assignee = None, rq_team = None, rq_workspace = None, rq_mentions = None\<rparr>"

definition submit_sub :: "submit_env \<Rightarrow> sub_env \<Rightarrow> string \<times> string \<Rightarrow> submitter \<Rightarrow> (string + sub_run) \<times> submitter" where
  "submit_sub env se a st = (case submit_run env (su_event se) (su_faults se) (su_run se) (su_session se) (sub_request (snd a)) st of
     (x, st) \<Rightarrow> (map_sum id (\<lambda>sub. \<lparr>sr_orchestrator = fst a, sr_run = rs_run sub, sr_task = snd a, sr_status = RS_Queued\<rparr>) x, st))"

text \<open>
  The submissions one after the other; the result names the watchers that were started. \<open>before i\<close>
  are the messages handled before the \<open>i\<close>-th submission.
\<close>

fun submit_subs ::
    "submit_env \<Rightarrow> (nat \<Rightarrow> sub_env) \<Rightarrow> (nat \<Rightarrow> (string \<times> sub_completed) list) \<Rightarrow> nat \<Rightarrow> (string \<times> string) list
      \<Rightarrow> submitter \<Rightarrow> cluster \<Rightarrow> (string option \<times> sub_run list) \<times> submitter \<times> cluster" where
  "submit_subs env ses before i [] st cl = ((None, []), st, message_loop (before i) cl)"
| "submit_subs env ses before i (a # as) st cl =
     (case submit_sub env (ses i) a st of
        (Inl e, st) \<Rightarrow> ((Some e, []), st, message_loop (before i) cl)
      | (Inr s, st) \<Rightarrow> (case submit_subs env ses before (i + 1) as st (message_loop (before i) cl) of
            ((e, ss), st, cl) \<Rightarrow> ((e, s # ss), st, cl)))"

definition new_cluster_run :: "string \<Rightarrow> string \<Rightarrow> string \<Rightarrow> sub_run list \<Rightarrow> cluster_run" where
  "new_cluster_run now cid task ss = \<lparr>cr_id = cid, cr_task = task, cr_subs = ss, cr_status = CS_Running, cr_created = now,
     cr_completed = None, cr_usage = None, cr_cost = None, cr_estimate = False\<rparr>"

text \<open>The answer, the runs that are watched, and the state.\<close>

definition cluster_submit ::
    "submit_env \<Rightarrow> (nat \<Rightarrow> sub_env) \<Rightarrow> (nat \<Rightarrow> (string \<times> sub_completed) list) \<Rightarrow> string \<Rightarrow> string \<Rightarrow> cluster_request
      \<Rightarrow> submitter \<Rightarrow> cluster \<Rightarrow> (string + cluster_run) \<times> string list \<times> submitter \<times> cluster" where
  "cluster_submit env ses before now cid req st cl =
     (case assignments req cl of
        Inl e \<Rightarrow> (Inl e, [], st, cl)
      | Inr as \<Rightarrow> (case submit_subs env ses before 0 as st cl of
          ((Some e, ss), st, cl) \<Rightarrow> (Inl e, map sr_run ss, st, cl)
        | ((None, ss), st, cl) \<Rightarrow>
            let r = new_cluster_run now cid (cq_task req) ss
            in (Inr r, map sr_run ss, st, cl\<lparr>cl_runs := hm_insert (cl_runs cl) cid r\<rparr>)))"

text \<open>
  \<^verbatim>\<open>spawn_watcher\<close> over what its calls of \<^verbatim>\<open>get_run\<close> answer, with the cost of the record beside it:
  the message it sends, and whether it has ended.
\<close>

fun watch :: "string \<Rightarrow> string \<Rightarrow> (string + (run_record \<times> rat option) option) list \<Rightarrow> sub_completed option \<times> bool" where
  "watch cid rid [] = (None, False)"
| "watch cid rid (Inr (Some (r, cost)) # xs) =
     (if run_is_terminal (run_status r) then (Some \<lparr>sc_cluster = cid, sc_run = rid, sc_status = run_status r,
        sc_usage = total_token_usage r, sc_cost = cost\<rparr>, True)
      else watch cid rid xs)"
| "watch cid rid (Inr None # xs) = (None, True)"
| "watch cid rid (Inl e # xs) = (None, True)"

definition cluster_get :: "string \<Rightarrow> cluster \<Rightarrow> cluster_run option" where
  "cluster_get cid cl = hm_get (cl_runs cl) cid"

definition cluster_list :: "nat \<Rightarrow> cluster \<Rightarrow> cluster_run list" where
  "cluster_list limit cl = take limit (order_desc cr_created (hm_values (cl_runs cl)))"

end
