(* ===== verification/Cluster_Properties.thy ===== *)
theory Cluster_Properties
  imports Cluster Submission_Properties
begin

text \<open>
  Theorems about prices and cluster runs: the order in which a price is looked up; what a cluster
  run shows after any messages of its watchers; messages that come too early and submissions that
  fail half-way.
\<close>

section \<open>Prices\<close>

definition openai_model :: string where
  "openai_model = ''openai:gpt-5.2''"

text \<open>The cost of usages that do not saturate is the sum of their costs.\<close>

lemma price_cost_merge:
  assumes "unat (input_tokens a) + unat (input_tokens b) < 2 ^ 32" "unat (output_tokens a) + unat (output_tokens b) < 2 ^ 32"
  shows "price_cost p (token_merge a b) = price_cost p a + price_cost p b"
proof -
  have "unat (sat_add x y) = unat x + unat y" if "unat x + unat y < 2 ^ 32" for x y :: u32
    using that by (simp add: unat_sat_add)
  with assms show ?thesis
    by (simp add: price_cost_def token_merge_def algebra_simps add_divide_distrib)
qed

lemma cost_nonneg: "0 \<le> input_per_1m p \<Longrightarrow> 0 \<le> output_per_1m p \<Longrightarrow> 0 \<le> price_cost p u"
  unfolding price_cost_def
  by (intro add_nonneg_nonneg divide_nonneg_nonneg mult_nonneg_nonneg of_nat_0_le_iff) simp_all

text \<open>
  The table compiled in knows no model, only providers: without its file a model of the file has
  another price.
\<close>

lemma builtin_prices_by_provider: "price_for builtin_default openai_model = \<lparr>input_per_1m = 5 / 2, output_per_1m = 10\<rparr>"
  by (simp add: price_for_def builtin_default_def openai_model_def split_colon_def hm_get_def)

section \<open>Cluster runs\<close>

lemma set_sub_status_map:
  assumes "distinct (map sr_run ss)"
  shows "set_sub_status rid st ss = map (\<lambda>s. if sr_run s = rid then s\<lparr>sr_status := st\<rparr> else s) ss"
  using assms
proof (induction ss)
  case (Cons s ss)
  have "sr_run x \<noteq> sr_run s" if "x \<in> set ss" for x
    using Cons.prems imageI [OF that, of sr_run] by auto
  then have "map (\<lambda>x. if sr_run x = rid then x\<lparr>sr_status := st\<rparr> else x) ss = ss" if "sr_run s = rid"
    using that by (intro map_idI) auto
  with Cons show ?case by auto
qed simp

lemma message_loop_get:
  "hm_get (cl_runs cl) cid = Some r \<Longrightarrow>
   hm_get (cl_runs (message_loop ms cl)) cid
     = Some (fold (\<lambda>(now, m). complete_sub now m) (filter (\<lambda>(_, m). sc_cluster m = cid) ms) r)"
proof (induction ms arbitrary: cl r)
  case Nil
  then show ?case by (simp add: message_loop_def)
next
  case (Cons nm ms)
  obtain now m where nm: "nm = (now, m)" by fastforce
  have step: "message_loop (nm # ms) cl = message_loop ms (handle_message now m cl)"
    by (simp add: message_loop_def nm)
  have "hm_get (cl_runs (handle_message now m cl)) cid
      = Some (if sc_cluster m = cid then complete_sub now m r else r)"
    using Cons.prems by (auto simp: handle_message_def hm_simps split: option.splits)
  from Cons.IH [OF this] show ?case unfolding step by (simp add: nm)
qed

text \<open>A message before the record is there is lost.\<close>

lemma early_message_lost: "hm_get (cl_runs cl) (sc_cluster m) = None \<Longrightarrow> handle_message now m cl = cl"
  by (simp add: handle_message_def)

definition told :: "(string \<times> sub_completed) list \<Rightarrow> sub_run \<Rightarrow> sub_run" where
  "told ms s = (case find (\<lambda>(_, m). sc_run m = sr_run s) ms of
     None \<Rightarrow> s | Some (_, m) \<Rightarrow> s\<lparr>sr_status := sc_status m\<rparr>)"

definition all_told :: "sub_run list \<Rightarrow> (string \<times> sub_completed) list \<Rightarrow> bool" where
  "all_told ss ms \<longleftrightarrow> set (map sr_run ss) \<subseteq> set (map (sc_run \<circ> snd) ms)"

lemma told_run [simp]: "sr_run (told ms s) = sr_run s"
  by (simp add: told_def split: option.splits prod.splits)

lemma find_append: "find P (xs @ ys) = (case find P xs of None \<Rightarrow> find P ys | Some x \<Rightarrow> Some x)"
  by (induction xs) auto

lemma find_none_run: "find (\<lambda>(_, m). sc_run m = rid) ms = None \<longleftrightarrow> rid \<notin> set (map (sc_run \<circ> snd) ms)"
  by (force simp: find_None_iff)

lemma told_snoc:
  assumes "sc_run m \<notin> set (map (sc_run \<circ> snd) ms)"
  shows "told (ms @ [(now, m)]) s = (if sr_run s = sc_run m then s\<lparr>sr_status := sc_status m\<rparr> else told ms s)"
proof (cases "sr_run s = sc_run m")
  case True
  have "find (\<lambda>(_, m). sc_run m = sr_run s) ms = None"
    unfolding find_none_run True by (rule assms)
  with True show ?thesis by (simp add: told_def find_append)
next
  case False
  then show ?thesis by (simp add: told_def find_append split: option.splits)
qed

lemma told_update:
  assumes "sc_run m \<notin> set (map (sc_run \<circ> snd) ms)"
  shows "(if sr_run s = sc_run m then (told ms s)\<lparr>sr_status := sc_status m\<rparr> else told ms s) = told (ms @ [(now, m)]) s"
proof (cases "sr_run s = sc_run m")
  case True
  have "find (\<lambda>(_, m). sc_run m = sr_run s) ms = None"
    unfolding find_none_run True by (rule assms)
  then have "told ms s = s" by (simp add: told_def)
  with True show ?thesis by (simp add: told_snoc [OF assms])
qed (simp add: told_snoc [OF assms])

lemma told_terminal:
  assumes "list_all (\<lambda>s. sr_status s = RS_Queued) ss" "list_all (\<lambda>(_, m). run_is_terminal (sc_status m)) ms"
  shows "list_all (\<lambda>s. run_is_terminal (sr_status s)) (map (told ms) ss) \<longleftrightarrow> all_told ss ms"
proof -
  have "run_is_terminal (sr_status (told ms s)) \<longleftrightarrow> sr_run s \<in> set (map (sc_run \<circ> snd) ms)" if "s \<in> set ss" for s
  proof (cases "find (\<lambda>(_, m). sc_run m = sr_run s) ms")
    case None
    then have "sr_run s \<notin> set (map (sc_run \<circ> snd) ms)" using find_none_run by blast
    moreover have "\<not> run_is_terminal (sr_status (told ms s))"
      using that assms(1) None by (simp add: told_def list_all_iff)
    ultimately show ?thesis by blast
  next
    case (Some x)
    then have "x \<in> set ms" by (metis find_Some_iff nth_mem)
    moreover from Some have "sr_run s \<in> set (map (sc_run \<circ> snd) ms)" by (metis find_none_run option.distinct(1))
    ultimately show ?thesis using Some assms(2) by (auto simp: told_def list_all_iff split: prod.splits)
  qed
  then show ?thesis by (auto simp: all_told_def list_all_iff)
qed

text \<open>The record of a cluster run after messages about it.\<close>

definition after :: "string \<Rightarrow> string \<Rightarrow> string \<Rightarrow> sub_run list \<Rightarrow> (string \<times> sub_completed) list \<Rightarrow> cluster_run" where
  "after t cid task ss ms = fold (\<lambda>(now, m). complete_sub now m) ms (new_cluster_run t cid task ss)"

lemma after_simps:
  "after t cid task ss [] = new_cluster_run t cid task ss"
  "after t cid task ss (ms @ [(now, m)]) = complete_sub now m (after t cid task ss ms)"
  by (simp_all add: after_def)

lemma record_told:
  assumes "distinct (map sr_run ss)" "list_all (\<lambda>s. sr_status s = RS_Queued) ss" "ss \<noteq> []"
    and "distinct (map (sc_run \<circ> snd) ms)" "list_all (\<lambda>(_, m). run_is_terminal (sc_status m)) ms"
    and "set (map (sc_run \<circ> snd) ms) \<subseteq> set (map sr_run ss)"
  shows "cr_subs (after t cid task ss ms) = map (told ms) ss
    \<and> cr_usage (after t cid task ss ms) = total_usage_of (map (sc_usage \<circ> snd) ms)
    \<and> cr_status (after t cid task ss ms) = (if all_told ss ms then cluster_outcome (map (told ms) ss) else CS_Running)
    \<and> (cr_completed (after t cid task ss ms) \<noteq> None \<longleftrightarrow> all_told ss ms)"
  using assms(4-6)
proof (induction ms rule: rev_induct)
  case Nil
  have "map (told []) ss = ss" by (simp add: told_def map_idI)
  moreover have "\<not> all_told ss []" using assms(3) by (simp add: all_told_def)
  ultimately show ?case by (simp add: after_simps new_cluster_run_def total_usage_of_def)
next
  case (snoc nm ms)
  obtain now m where nm: "nm = (now, m)" by fastforce
  have fresh: "sc_run m \<notin> set (map (sc_run \<circ> snd) ms)" and mem: "sc_run m \<in> set (map sr_run ss)"
    using snoc.prems nm by auto
  have "cr_subs (after t cid task ss ms) = map (told ms) ss
    \<and> cr_usage (after t cid task ss ms) = total_usage_of (map (sc_usage \<circ> snd) ms)
    \<and> cr_status (after t cid task ss ms) = (if all_told ss ms then cluster_outcome (map (told ms) ss) else CS_Running)
    \<and> (cr_completed (after t cid task ss ms) \<noteq> None \<longleftrightarrow> all_told ss ms)"
    by (rule snoc.IH) (use snoc.prems nm in auto)
  note ih = this [THEN conjunct1] this [THEN conjunct2, THEN conjunct1] this [THEN conjunct2, THEN conjunct2, THEN conjunct1]
    this [THEN conjunct2, THEN conjunct2, THEN conjunct2]
  have notyet: "\<not> all_told ss ms" using fresh mem by (auto simp: all_told_def)
  have "map sr_run (map (told ms) ss) = map sr_run ss" by simp
  with assms(1) have "set_sub_status (sc_run m) (sc_status m) (map (told ms) ss)
      = map (\<lambda>s. if sr_run s = sc_run m then (told ms s)\<lparr>sr_status := sc_status m\<rparr> else told ms s) ss"
    by (simp add: set_sub_status_map del: map_map) simp
  also have "\<dots> = map (told (ms @ [nm])) ss"
    by (simp only: nm told_update [OF fresh, where now = now])
  finally have subs: "set_sub_status (sc_run m) (sc_status m) (map (told ms) ss) = map (told (ms @ [nm])) ss" .
  have ended: "list_all (\<lambda>s. run_is_terminal (sr_status s)) (map (told (ms @ [nm])) ss) \<longleftrightarrow> all_told ss (ms @ [nm])"
    using snoc.prems assms(2) by (intro told_terminal) auto
  have step: "after t cid task ss (ms @ [nm]) = complete_sub now m (after t cid task ss ms)"
    by (simp add: nm after_simps)
  have usage: "merge_opt (total_usage_of (map (sc_usage \<circ> snd) ms)) (sc_usage m)
      = total_usage_of (map (sc_usage \<circ> snd) (ms @ [nm]))"
    by (simp add: total_usage_of_def nm comp_def)
  have open_run: "cr_completed (after t cid task ss ms) = None" using notyet ih(4) by blast
  from notyet show ?case
    unfolding step by (simp only: complete_sub_def Let_def ih subs ended usage) (simp add: ih open_run comp_def split: option.split)
qed


definition demo_subs :: "sub_run list" where
  "demo_subs = map (\<lambda>rid. \<lparr>sr_orchestrator = ''a'', sr_run = rid, sr_task = ''fix it'', sr_status = RS_Queued\<rparr>) [''r1'', ''r2'']"

definition demo_told :: "string \<Rightarrow> string \<Rightarrow> run_status \<Rightarrow> string \<times> sub_completed" where
  "demo_told cid rid st = (''t'', \<lparr>sc_cluster = cid, sc_run = rid, sc_status = st, sc_usage = Some (TokenUsage 1 2), sc_cost = None\<rparr>)"

definition demo_cluster :: cluster where
  "demo_cluster = \<lparr>cl_members = [(''a'', ())], cl_runs = [(''c'', new_cluster_run ''t'' ''c'' ''fix it'' demo_subs)]\<rparr>"

definition demo_messages :: "(string \<times> sub_completed) list" where
  "demo_messages = [demo_told ''c'' ''r2'' RS_Failed, demo_told ''x'' ''r1'' RS_Failed, demo_told ''c'' ''r1'' RS_Succeeded]"


text \<open>
  A sub-run that ends while the others are submitted tells a record that is not there yet; then no
  other message ends the cluster run.
\<close>

lemma early_end_never_over:
  assumes "cluster_get cid cl = Some (new_cluster_run t cid task ss)"
    and "distinct (map sr_run ss)" "list_all (\<lambda>s. sr_status s = RS_Queued) ss" "s \<in> set ss"
    and "mine = filter (\<lambda>(_, m). sc_cluster m = cid) ms" "sr_run s \<notin> set (map (sc_run \<circ> snd) mine)"
    and "distinct (map (sc_run \<circ> snd) mine)" "list_all (\<lambda>(_, m). run_is_terminal (sc_status m)) mine"
    and "set (map (sc_run \<circ> snd) mine) \<subseteq> set (map sr_run ss)"
  shows "\<exists>r. cluster_get cid (message_loop ms cl) = Some r \<and> cr_status r = CS_Running"
proof -
  have "ss \<noteq> []" using assms(4) by auto
  moreover have "\<not> all_told ss mine" using assms(4,6) by (auto simp: all_told_def)
  moreover have "cluster_get cid (message_loop ms cl) = Some (after t cid task ss mine)"
    using message_loop_get [OF assms(1) [unfolded cluster_get_def], of ms] by (simp add: cluster_get_def after_def assms(5))
  ultimately show ?thesis using record_told [OF assms(2,3) _ assms(7-9), of t cid task] by auto
qed

text \<open>
  A submission that fails half-way answers an error and leaves no record; the runs it started go
  on, and what their watchers tell is dropped.
\<close>

lemma message_unknown_loop: "hm_get (cl_runs cl) cid = None \<Longrightarrow> hm_get (cl_runs (message_loop ms cl)) cid = None"
proof (induction ms arbitrary: cl)
  case (Cons nm ms)
  obtain now m where nm: "nm = (now, m)" by fastforce
  have "hm_get (cl_runs (handle_message now m cl)) cid = None"
    using Cons.prems by (auto simp: handle_message_def hm_simps split: option.splits)
  from Cons.IH [OF this] show ?case by (simp add: message_loop_def nm)
qed (simp add: message_loop_def)

lemma submit_subs_unknown:
  "submit_subs env ses before i as st cl = (x, st', cl') \<Longrightarrow> hm_get (cl_runs cl) cid = None \<Longrightarrow> hm_get (cl_runs cl') cid = None"
proof (induction env ses before i as st cl arbitrary: x st' cl' rule: submit_subs.induct)
  case (2 env ses before i a as st cl)
  obtain y st1 where s: "submit_sub env (ses i) a st = (y, st1)" by fastforce
  show ?case
  proof (cases y)
    case (Inl e)
    with 2 s show ?thesis by (auto simp: message_unknown_loop)
  next
    case (Inr z)
    obtain e ss st2 cl2 where r: "submit_subs env ses before (i + 1) as st1 (message_loop (before i) cl) = ((e, ss), st2, cl2)"
      by (metis surj_pair)
    from 2(1) [OF s [symmetric] Inr r message_unknown_loop [OF 2(3)]] 2(2) s Inr r show ?thesis by simp
  qed
qed (auto simp: message_unknown_loop)

lemma failed_submission_leaves_no_record:
  assumes "cluster_submit env ses before now cid req st cl = (Inl e, watched, st', cl')"
    and "cluster_get cid cl = None"
  shows "cluster_get cid (message_loop ms cl') = None"
proof -
  from assms(1) have "cl' = cl \<or> (\<exists>as x. submit_subs env ses before 0 as st cl = (x, st', cl'))"
    by (auto simp: cluster_submit_def Let_def split: sum.splits prod.splits option.splits)
  then have "hm_get (cl_runs cl') cid = None"
    using assms(2) submit_subs_unknown by (auto simp: cluster_get_def)
  then show ?thesis by (simp add: cluster_get_def message_unknown_loop)
qed

definition two_members :: cluster where
  "two_members = cluster_add ''b'' (cluster_add ''a'' new_cluster)"

definition second_refused :: "nat \<Rightarrow> sub_env" where
  "second_refused i = \<lparr>su_faults = (if i = 0 then no_faults else no_faults\<lparr>f_upsert := Some ''locked''\<rparr>),
     su_run = (if i = 0 then ''r1'' else ''r2''), su_session = ''s'', su_event = \<lambda>_. ''e''\<rparr>"

lemma orphaned_sub_run:
  "case cluster_submit sample_submit_env second_refused (\<lambda>_. []) ''t'' ''c'' \<lparr>cq_task = ''fix it'', cq_subtasks = []\<rparr>
       sample_submitter two_members of
     (Inl e, watched, st, cl) \<Rightarrow> e = ''locked'' \<and> watched = [''r1''] \<and> map fst (sb_spawned st) = [''r1''] \<and> cluster_get ''c'' cl = None
   | _ \<Rightarrow> False"
  by code_simp

text \<open>A run that cannot be read any more is never told.\<close>

lemma watcher_gives_up: "fst (watch cid rid (Inl e # xs)) = None"
  by simp

end
